(* ===== verification/Prelude.thy ===== *)
theory Prelude
  imports Complex_Main "HOL-Library.Char_ord" "HOL-Library.List_Lexorder"
    "HOL-Library.Product_Lexorder" "HOL-Library.Sublist" "HOL-Library.AList"
begin

section \<open>Shared vocabulary: exceptions, results, text, dictionaries\<close>

text \<open>
  What every component uses: the exceptions the code raises, the result type that carries
  them, Python text (a list of code points U+0000 to U+00FF, the range of HOL's \<^typ>\<open>char\<close>),
  and dictionaries as association lists in insertion order.  The collection \<open>res_simps\<close>
  holds the rules that take a result apart.
\<close>

named_theorems res_simps \<open>inversion of computations that return a result\<close>

subsection \<open>Exceptions and results\<close>

text \<open>
  One constructor per exception class that can leave the modelled code; the argument is the
  message.  The first six are the classes of \<^verbatim>\<open>control/errors.py\<close>, \<open>ExpressionError\<close> is
  the class of \<^verbatim>\<open>control/expressions.py\<close>, the others are Python's own.
\<close>

datatype exn =
    ValidationError string
  | NotFoundError string
  | ConflictError string
  | CorruptStoreError string
  | SchemaVersionError string
  | SecretError string
  | ExpressionError string
  | ValueError string
  | KeyError string
  | IndexError string
  | TypeError string
  | AttributeError string
  | OverflowError string

type_synonym 'a res = "exn + 'a"

text \<open>\<open>ValidationError\<close> is a subclass of \<open>ValueError\<close>, so \<open>except ValueError\<close> catches both.\<close>

fun is_value_error :: "exn \<Rightarrow> bool" where
  "is_value_error (ValidationError _) = True"
| "is_value_error (ValueError _) = True"
| "is_value_error _ = False"

fun exn_message :: "exn \<Rightarrow> string" where
  "exn_message (ValidationError m) = m"
| "exn_message (NotFoundError m) = m"
| "exn_message (ConflictError m) = m"
| "exn_message (CorruptStoreError m) = m"
| "exn_message (SchemaVersionError m) = m"
| "exn_message (SecretError m) = m"
| "exn_message (ExpressionError m) = m"
| "exn_message (ValueError m) = m"
| "exn_message (KeyError m) = m"
| "exn_message (IndexError m) = m"
| "exn_message (TypeError m) = m"
| "exn_message (AttributeError m) = m"
| "exn_message (OverflowError m) = m"

definition bindR :: "'a res \<Rightarrow> ('a \<Rightarrow> 'b res) \<Rightarrow> 'b res" where
  "bindR m f = (case m of Inl e \<Rightarrow> Inl e | Inr x \<Rightarrow> f x)"

lemma bindR_simps [simp]:
  "bindR (Inl e) f = Inl e"
  "bindR (Inr x) f = f x"
  by (simp_all add: bindR_def)

lemma bindR_cong [fundef_cong]:
  "m = m' \<Longrightarrow> (\<And>x. m' = Inr x \<Longrightarrow> f x = g x) \<Longrightarrow> bindR m f = bindR m' g"
  by (cases m') auto

lemma bindR_Inr_iff [res_simps]:
  "bindR m f = Inr y \<longleftrightarrow> (\<exists>x. m = Inr x \<and> f x = Inr y)"
  by (cases m) auto

lemma bindR_Inl_iff [res_simps]:
  "bindR m f = Inl e \<longleftrightarrow> m = Inl e \<or> (\<exists>x. m = Inr x \<and> f x = Inl e)"
  by (cases m) auto

lemma if_Inl_Inr_iff [res_simps]:
  "(if b then Inl e else m) = Inr y \<longleftrightarrow> \<not> b \<and> m = Inr y"
  by auto

lemma if_Inr_Inl_iff [res_simps]:
  "(if b then m else Inl e) = Inr y \<longleftrightarrow> b \<and> m = Inr y"
  by auto

lemma res_cases_iff: "(\<exists>x. r = Inr x) \<longleftrightarrow> (\<forall>e. r \<noteq> Inl e)"
  by (cases r) auto

text \<open>A loop that appends one result per item and stops at the first exception.\<close>

fun mapR :: "('a \<Rightarrow> 'b res) \<Rightarrow> 'a list \<Rightarrow> 'b list res" where
  "mapR f [] = Inr []"
| "mapR f (x # xs) = bindR (f x) (\<lambda>y. bindR (mapR f xs) (\<lambda>ys. Inr (y # ys)))"

lemma mapR_cong [fundef_cong]:
  "xs = ys \<Longrightarrow> (\<And>x. x \<in> set ys \<Longrightarrow> f x = g x) \<Longrightarrow> mapR f xs = mapR g ys"
  by (induction ys arbitrary: xs) auto

lemma mapR_Inr_all:
  "(\<And>x. x \<in> set xs \<Longrightarrow> f x = Inr (g x)) \<Longrightarrow> mapR f xs = Inr (map g xs)"
  by (induction xs) auto

lemma mapR_Inr_list_all2:
  "mapR f xs = Inr ys \<longleftrightarrow> list_all2 (\<lambda>x y. f x = Inr y) xs ys"
  by (induction xs arbitrary: ys) (auto simp: res_simps list_all2_Cons1)

lemma mapR_Inr_set:
  "mapR f xs = Inr ys \<Longrightarrow> y \<in> set ys \<Longrightarrow> \<exists>x \<in> set xs. f x = Inr y"
  by (induction xs arbitrary: ys) (auto simp: res_simps)

lemma mapR_Inl_iff:
  "(\<exists>e. mapR f xs = Inl e) \<longleftrightarrow> (\<exists>x \<in> set xs. \<exists>e. f x = Inl e)"
proof (induction xs)
  case (Cons x xs)
  then show ?case by (cases "f x") (auto simp: res_simps)
qed simp

lemma mapR_Inl_exn: "mapR f xs = Inl e \<Longrightarrow> \<exists>x \<in> set xs. f x = Inl e"
  by (induction xs) (auto simp: res_simps)

lemma mapR_length: "mapR f xs = Inr ys \<Longrightarrow> length ys = length xs"
  by (simp add: mapR_Inr_list_all2 list_all2_lengthD)

text \<open>Python's \<open>all\<close> and \<open>any\<close> over a generator: left to right, stopping at the first decision.\<close>

fun allR :: "('a \<Rightarrow> bool res) \<Rightarrow> 'a list \<Rightarrow> bool res" where
  "allR f [] = Inr True"
| "allR f (x # xs) = bindR (f x) (\<lambda>b. if b then allR f xs else Inr False)"

fun anyR :: "('a \<Rightarrow> bool res) \<Rightarrow> 'a list \<Rightarrow> bool res" where
  "anyR f [] = Inr False"
| "anyR f (x # xs) = bindR (f x) (\<lambda>b. if b then Inr True else anyR f xs)"

lemma allR_cong [fundef_cong]:
  "xs = ys \<Longrightarrow> (\<And>x. x \<in> set ys \<Longrightarrow> f x = g x) \<Longrightarrow> allR f xs = allR g ys"
  by (induction ys arbitrary: xs) (auto cong: if_cong)

lemma anyR_cong [fundef_cong]:
  "xs = ys \<Longrightarrow> (\<And>x. x \<in> set ys \<Longrightarrow> f x = g x) \<Longrightarrow> anyR f xs = anyR g ys"
  by (induction ys arbitrary: xs) (auto cong: if_cong)

lemma allR_pure: "(\<And>x. x \<in> set xs \<Longrightarrow> f x = Inr (g x)) \<Longrightarrow> allR f xs = Inr (\<forall>x \<in> set xs. g x)"
  by (induction xs) auto

lemma anyR_pure: "(\<And>x. x \<in> set xs \<Longrightarrow> f x = Inr (g x)) \<Longrightarrow> anyR f xs = Inr (\<exists>x \<in> set xs. g x)"
  by (induction xs) auto

lemma allR_Inl_exn: "allR f xs = Inl e \<Longrightarrow> \<exists>x \<in> set xs. f x = Inl e"
  by (induction xs) (auto simp: res_simps split: if_splits)

lemma anyR_Inl_exn: "anyR f xs = Inl e \<Longrightarrow> \<exists>x \<in> set xs. f x = Inl e"
  by (induction xs) (auto simp: res_simps split: if_splits)

subsection \<open>Text\<close>

abbreviation code :: "char \<Rightarrow> nat" where
  "code c \<equiv> of_char c"

text \<open>
  \<open>str.isdigit\<close> also accepts the superscript digits U+00B2, U+00B3 and U+00B9, which \<open>int\<close>
  refuses; \<open>str.isalnum\<close> accepts every letter, decimal, digit and numeric character.
\<close>

definition is_decimal :: "char \<Rightarrow> bool" where
  "is_decimal c \<longleftrightarrow> 48 \<le> code c \<and> code c \<le> (57::nat)"

definition is_digit :: "char \<Rightarrow> bool" where
  "is_digit c \<longleftrightarrow> is_decimal c \<or> code c = (178::nat) \<or> code c = (179::nat) \<or> code c = (185::nat)"

definition is_upper_latin :: "char \<Rightarrow> bool" where
  "is_upper_latin c \<longleftrightarrow> 65 \<le> code c \<and> code c \<le> (90::nat)
     \<or> 192 \<le> code c \<and> code c \<le> (222::nat) \<and> code c \<noteq> (215::nat)"

definition is_lower_latin :: "char \<Rightarrow> bool" where
  "is_lower_latin c \<longleftrightarrow> 97 \<le> code c \<and> code c \<le> (122::nat)
     \<or> 223 \<le> code c \<and> code c \<noteq> (247::nat)"

definition is_alnum :: "char \<Rightarrow> bool" where
  "is_alnum c \<longleftrightarrow> is_digit c \<or> is_upper_latin c \<or> is_lower_latin c
     \<or> code c \<in> {170, 181, 186, 188, 189, 190::nat}"

definition is_space :: "char \<Rightarrow> bool" where
  "is_space c \<longleftrightarrow> 9 \<le> code c \<and> code c \<le> (13::nat) \<or> 28 \<le> code c \<and> code c \<le> (32::nat)
     \<or> code c = (133::nat) \<or> code c = (160::nat)"

definition lower_char :: "char \<Rightarrow> char" where
  "lower_char c = (if is_upper_latin c then char_of (code c + (32::nat)) else c)"

definition py_lower :: "string \<Rightarrow> string" where
  "py_lower s = map lower_char s"

text \<open>
  \<open>str.casefold\<close> lowers every letter and turns sharp s (U+00DF) into \<open>ss\<close>.  It maps the
  micro sign U+00B5 to a letter outside U+0000 to U+00FF that no other character of the range
  is mapped to; the model leaves it alone, which gives the same equalities.
\<close>

definition py_casefold :: "string \<Rightarrow> string" where
  "py_casefold s = concat (map (\<lambda>c. if code c = (223::nat) then ''ss'' else [lower_char c]) s)"

definition py_lstrip :: "string \<Rightarrow> string" where
  "py_lstrip s = dropWhile is_space s"

definition py_strip :: "string \<Rightarrow> string" where
  "py_strip s = rev (dropWhile is_space (rev (py_lstrip s)))"

text \<open>\<open>s.split(d)\<close> for a one-character separator, \<open>sep.join(parts)\<close> and \<open>sub in s\<close>.\<close>

fun split_on :: "char \<Rightarrow> string \<Rightarrow> string list" where
  "split_on d [] = [[]]"
| "split_on d (c # s) =
     (if c = d then [] # split_on d s
      else (case split_on d s of [] \<Rightarrow> [[c]] | w # ws \<Rightarrow> (c # w) # ws))"

fun join_with :: "string \<Rightarrow> string list \<Rightarrow> string" where
  "join_with sep [] = []"
| "join_with sep [w] = w"
| "join_with sep (w # ws) = w @ sep @ join_with sep ws"

fun str_contains :: "string \<Rightarrow> string \<Rightarrow> bool" where
  "str_contains sub [] = (sub = [])"
| "str_contains sub (c # s) = (prefix sub (c # s) \<or> str_contains sub s)"

lemma str_contains_sublist: "str_contains sub s \<longleftrightarrow> sublist sub s"
proof (induction s)
  case (Cons c s)
  then show ?case
    by (auto simp: sublist_Cons_right)
qed simp

lemma split_on_not_Nil [simp]: "split_on d s \<noteq> []"
  by (induction s) (auto split: list.splits)

lemma join_split_on [simp]: "join_with [d] (split_on d s) = s"
proof (induction s)
  case (Cons c s)
  obtain w ws where "split_on d s = w # ws"
    by (cases "split_on d s") auto
  with Cons show ?case by (cases ws) auto
qed simp

lemma split_on_parts: "w \<in> set (split_on d s) \<Longrightarrow> d \<notin> set w"
  by (induction s arbitrary: w) (auto split: if_splits list.splits)

lemma split_on_chars: "w \<in> set (split_on d s) \<Longrightarrow> set w \<subseteq> set s"
  by (induction s arbitrary: w) (fastforce split: if_splits list.splits)+

text \<open>Decimal text of a number and the value of a run of decimal digits.\<close>

fun nat_str :: "nat \<Rightarrow> string" where
  "nat_str n = (if n < 10 then [char_of (48 + n)] else nat_str (n div 10) @ [char_of (48 + n mod 10)])"

declare nat_str.simps [simp del]

definition int_str :: "int \<Rightarrow> string" where
  "int_str i = (if i < 0 then CHR ''-'' # nat_str (nat (- i)) else nat_str (nat i))"

definition digits_value :: "string \<Rightarrow> nat" where
  "digits_value s = foldl (\<lambda>n c. 10 * n + (code c - 48)) 0 s"

lemma digits_value_snoc: "digits_value (s @ [c]) = 10 * digits_value s + (code c - 48)"
  by (simp add: digits_value_def)

lemma of_char_of_small: "n < 256 \<Longrightarrow> code (char_of n :: char) = (n::nat)"
  by simp

lemma digits_value_nat_str [simp]: "digits_value (nat_str n) = n"
proof (induction n rule: nat_str.induct)
  case (1 n)
  then show ?case
    by (cases "n < 10")
      (simp_all add: nat_str.simps [of n] digits_value_snoc digits_value_def [of "[_]"])
qed

lemma nat_str_decimal: "c \<in> set (nat_str n) \<Longrightarrow> is_decimal c"
proof (induction n arbitrary: c rule: nat_str.induct)
  case (1 n)
  then show ?case
    by (cases "n < 10") (auto simp: nat_str.simps [of n] is_decimal_def)
qed

lemma nat_str_not_Nil [simp]: "nat_str n \<noteq> []"
  by (subst nat_str.simps) simp

subsection \<open>Dictionaries\<close>

text \<open>
  A dictionary is an association list in insertion order.  \<open>AList.update\<close> is \<open>d[k] = v\<close>:
  an existing key keeps its place and a new one goes to the end.  \<open>dict_update\<close> is
  \<open>d.update(e)\<close>.
\<close>

type_synonym ('k, 'v) dict = "('k \<times> 'v) list"

abbreviation dict_put :: "('k, 'v) dict \<Rightarrow> 'k \<Rightarrow> 'v \<Rightarrow> ('k, 'v) dict" where
  "dict_put d k v \<equiv> AList.update k v d"

definition dict_update :: "('k, 'v) dict \<Rightarrow> ('k, 'v) dict \<Rightarrow> ('k, 'v) dict" where
  "dict_update d e = foldl (\<lambda>d' (k, v). dict_put d' k v) d e"

definition keys :: "('k, 'v) dict \<Rightarrow> 'k list" where
  "keys d = map fst d"

lemma keys_simps [simp]: "keys [] = []" "keys ((k, v) # d) = k # keys d"
  by (simp_all add: keys_def)

lemma map_of_dict_put [simp]: "map_of (dict_put d k v) = (map_of d)(k \<mapsto> v)"
  by (rule update_conv')

lemma map_of_dict_update:
  "map_of (dict_update d e) = map_of d ++ map_of (rev e)"
proof (induction e rule: rev_induct)
  case (snoc p e)
  then show ?case by (cases p) (simp add: dict_update_def fun_eq_iff map_add_def)
qed (simp add: dict_update_def)

lemma distinct_keys_put: "distinct (keys d) \<Longrightarrow> distinct (keys (dict_put d k v))"
  unfolding keys_def by (rule distinct_update)

lemma map_of_eq_None_keys: "map_of d k = None \<longleftrightarrow> k \<notin> set (keys d)"
  by (simp add: keys_def map_of_eq_None_iff)

text \<open>\<open>{key(x): x for x in xs}\<close>: the last of several items with one key wins.\<close>

definition index_by :: "('a \<Rightarrow> 'k) \<Rightarrow> 'a list \<Rightarrow> ('k, 'a) dict" where
  "index_by key xs = foldl (\<lambda>d x. dict_put d (key x) x) [] xs"

lemma map_of_index_by: "map_of (index_by key xs) k = find (\<lambda>x. key x = k) (rev xs)"
proof (induction xs rule: rev_induct)
  case (snoc x xs)
  then show ?case by (simp add: index_by_def)
qed (simp add: index_by_def)

lemma index_by_SomeD: "map_of (index_by key xs) k = Some x \<Longrightarrow> x \<in> set xs \<and> key x = k"
  by (auto simp: map_of_index_by find_Some_iff) (metis nth_mem set_rev length_rev)

lemma index_by_None_iff: "map_of (index_by key xs) k = None \<longleftrightarrow> k \<notin> key ` set xs"
  by (auto simp: map_of_index_by find_None_iff)

lemma index_by_distinct:
  assumes "distinct (map key xs)" and "x \<in> set xs"
  shows "map_of (index_by key xs) (key x) = Some x"
proof -
  obtain y where y: "map_of (index_by key xs) (key x) = Some y"
    using index_by_None_iff [of key xs "key x"] assms(2) by fastforce
  from index_by_SomeD [OF y] assms show ?thesis
    using y by (metis distinct_map inj_onD)
qed

lemma keys_index_by: "set (keys (index_by key xs)) = key ` set xs"
  using index_by_None_iff [of key xs] by (auto simp: map_of_eq_None_keys)

text \<open>\<open>sorted(set(value) - expected)\<close> and \<open>sorted(expected - set(value))\<close>.\<close>

definition unknown_keys :: "(string, 'v) dict \<Rightarrow> string list \<Rightarrow> string list" where
  "unknown_keys d expected = sort (filter (\<lambda>k. k \<notin> set expected) (remdups (keys d)))"

definition missing_keys :: "(string, 'v) dict \<Rightarrow> string list \<Rightarrow> string list" where
  "missing_keys d required = sort (filter (\<lambda>k. k \<notin> set (keys d)) (remdups required))"

lemma unknown_keys_empty_iff: "unknown_keys d expected = [] \<longleftrightarrow> set (keys d) \<subseteq> set expected"
proof -
  have "unknown_keys d expected = [] \<longleftrightarrow> set (unknown_keys d expected) = {}" by simp
  also have "\<dots> \<longleftrightarrow> set (keys d) \<subseteq> set expected"
    by (auto simp: unknown_keys_def)
  finally show ?thesis .
qed

lemma missing_keys_empty_iff: "missing_keys d required = [] \<longleftrightarrow> set required \<subseteq> set (keys d)"
proof -
  have "missing_keys d required = [] \<longleftrightarrow> set (missing_keys d required) = {}" by simp
  also have "\<dots> \<longleftrightarrow> set required \<subseteq> set (keys d)"
    by (auto simp: missing_keys_def)
  finally show ?thesis .
qed

end
