(* ===== verification/PyValue.thy ===== *)
theory PyValue
  imports Prelude
begin

section \<open>Python values of the control plane, and canonical JSON\<close>

text \<open>
  The values the control plane computes with are the ones \<^verbatim>\<open>json.load\<close> returns: None,
  booleans, unbounded integers, floats (with the two infinities and NaN), text, lists and
  string-keyed dictionaries.  A finite double is a rational number, so comparisons between
  numbers are exact here as they are in Python.  \<^verbatim>\<open>control/checksums.py\<close> follows: the check
  for JSON values and the canonical serialisation that checksums and size limits use.
\<close>

subsection \<open>Values\<close>

datatype py_float = Fin rat | PInf | NInf | NaN

datatype pyval =
    VNone
  | VBool bool
  | VInt int
  | VFloat py_float
  | VStr string
  | VList "pyval list"
  | VDict "(string \<times> pyval) list"

type_synonym pydict = "(string, pyval) dict"

text \<open>
  What the standard library computes outside HOL: the shortest repr of a float, SHA-256,
  \<^verbatim>\<open>float(text)\<close>, \<^verbatim>\<open>json.loads(text)\<close> (\<open>Inl\<close> is the text of the error) and the scheme, network
  location and path \<^verbatim>\<open>urllib.parse\<close> finds in a URL (\<open>Inl\<close> is the text of the \<^verbatim>\<open>ValueError\<close> it
  raises).  Every definition that uses one takes it from a runtime record, an argument.
\<close>

record py_runtime =
  float_repr :: "py_float \<Rightarrow> string"
  sha256_hex :: "string \<Rightarrow> string"
  float_of_text :: "string \<Rightarrow> py_float option"
  json_loads :: "string \<Rightarrow> string + pyval"
  url_split :: "string \<Rightarrow> string + string \<times> string \<times> string"

fun float_eq :: "py_float \<Rightarrow> py_float \<Rightarrow> bool" where
  "float_eq (Fin a) (Fin b) = (a = b)"
| "float_eq PInf PInf = True"
| "float_eq NInf NInf = True"
| "float_eq _ _ = False"

fun float_lt :: "py_float \<Rightarrow> py_float \<Rightarrow> bool" where
  "float_lt (Fin a) (Fin b) = (a < b)"
| "float_lt (Fin _) PInf = True"
| "float_lt NInf (Fin _) = True"
| "float_lt NInf PInf = True"
| "float_lt _ _ = False"

definition float_le :: "py_float \<Rightarrow> py_float \<Rightarrow> bool" where
  "float_le a b \<longleftrightarrow> float_lt a b \<or> float_eq a b"

fun is_finite :: "py_float \<Rightarrow> bool" where
  "is_finite (Fin _) = True"
| "is_finite _ = False"

text \<open>The number a value compares as; a boolean is an \<^verbatim>\<open>int\<close> to Python's \<open>==\<close>.\<close>

fun num_of :: "pyval \<Rightarrow> py_float option" where
  "num_of (VBool b) = Some (Fin (if b then 1 else 0))"
| "num_of (VInt i) = Some (Fin (of_int i))"
| "num_of (VFloat f) = Some f"
| "num_of _ = None"

text \<open>Python's \<open>==\<close>: dictionaries compare as maps, whatever the order of their keys.\<close>

fun py_eq :: "pyval \<Rightarrow> pyval \<Rightarrow> bool"
  and py_eq_list :: "pyval list \<Rightarrow> pyval list \<Rightarrow> bool"
  and py_eq_items :: "(string \<times> pyval) list \<Rightarrow> (string \<times> pyval) list \<Rightarrow> bool" where
  "py_eq VNone w = (w = VNone)"
| "py_eq (VStr s) w = (w = VStr s)"
| "py_eq (VList xs) w = (case w of VList ys \<Rightarrow> py_eq_list xs ys | _ \<Rightarrow> False)"
| "py_eq (VDict d) w =
     (case w of VDict e \<Rightarrow> length d = length e \<and> py_eq_items d e | _ \<Rightarrow> False)"
| "py_eq (VBool b) w =
     (case num_of w of Some y \<Rightarrow> float_eq (Fin (if b then 1 else 0)) y | None \<Rightarrow> False)"
| "py_eq (VInt i) w = (case num_of w of Some y \<Rightarrow> float_eq (Fin (of_int i)) y | None \<Rightarrow> False)"
| "py_eq (VFloat f) w = (case num_of w of Some y \<Rightarrow> float_eq f y | None \<Rightarrow> False)"
| "py_eq_list [] ys = (ys = [])"
| "py_eq_list (x # xs) ys = (case ys of [] \<Rightarrow> False | y # ys' \<Rightarrow> py_eq x y \<and> py_eq_list xs ys')"
| "py_eq_items [] e = True"
| "py_eq_items ((k, v) # d) e =
     ((case map_of e k of None \<Rightarrow> False | Some w \<Rightarrow> py_eq v w) \<and> py_eq_items d e)"

fun type_name :: "pyval \<Rightarrow> string" where
  "type_name VNone = ''NoneType''"
| "type_name (VBool _) = ''bool''"
| "type_name (VInt _) = ''int''"
| "type_name (VFloat _) = ''float''"
| "type_name (VStr _) = ''str''"
| "type_name (VList _) = ''list''"
| "type_name (VDict _) = ''dict''"

definition is_number :: "pyval \<Rightarrow> bool" where
  "is_number v = (case v of VInt _ \<Rightarrow> True | VFloat _ \<Rightarrow> True | _ \<Rightarrow> False)"

fun is_str :: "pyval \<Rightarrow> bool" where
  "is_str (VStr _) = True"
| "is_str _ = False"

fun is_list :: "pyval \<Rightarrow> bool" where
  "is_list (VList _) = True"
| "is_list _ = False"

text \<open>\<open>bool(v)\<close>.\<close>

fun truthy :: "pyval \<Rightarrow> bool" where
  "truthy VNone = False"
| "truthy (VBool b) = b"
| "truthy (VInt i) = (i \<noteq> 0)"
| "truthy (VFloat f) = (\<not> float_eq f (Fin 0))"
| "truthy (VStr s) = (s \<noteq> [])"
| "truthy (VList xs) = (xs \<noteq> [])"
| "truthy (VDict d) = (d \<noteq> [])"

text \<open>What a \<open>for\<close> loop over a value visits.\<close>

fun py_iter :: "pyval \<Rightarrow> pyval list res" where
  "py_iter (VList xs) = Inr xs"
| "py_iter (VStr s) = Inr (map (\<lambda>c. VStr [c]) s)"
| "py_iter (VDict d) = Inr (map (\<lambda>(k, _). VStr k) d)"
| "py_iter v = Inl (TypeError (type_name v @ '' object is not iterable''))"

text \<open>\<open>d[k]\<close> of a dictionary.\<close>

definition dict_item :: "pydict \<Rightarrow> string \<Rightarrow> pyval res" where
  "dict_item d k = (case map_of d k of None \<Rightarrow> Inl (KeyError k) | Some v \<Rightarrow> Inr v)"

text \<open>\<open>d.get(k, default)\<close> of a dictionary.\<close>

definition get_or :: "pydict \<Rightarrow> string \<Rightarrow> pyval \<Rightarrow> pyval" where
  "get_or d k v = (case map_of d k of None \<Rightarrow> v | Some w \<Rightarrow> w)"

lemma size_map_of:
  assumes "map_of d k = Some v"
  shows "size v < size (VDict d)"
  using assms by (induction d) (auto split: if_splits)

lemma size_dict_item:
  assumes "dict_item d k = Inr v"
  shows "size v < size (VDict d)"
  using assms size_map_of [of d k v] by (auto simp: dict_item_def split: option.splits)

lemma size_dict_item_twice:
  "dict_item d k = Inr v \<Longrightarrow> 2 * size v < 2 * size (VDict d)"
  "dict_item d k = Inr (VList xs) \<Longrightarrow> 2 * size_list size xs + 1 < 2 * size (VDict d)"
  by (auto dest: size_dict_item)

lemma size_list_elem: "x \<in> set xs \<Longrightarrow> size x < size (VList xs)"
  by (induction xs) auto

lemma size_py_iter:
  assumes "py_iter v = Inr xs" and "x \<in> set xs"
  shows "size x \<le> size v"
proof (cases v)
  case (VList ys)
  with assms show ?thesis using size_list_elem [of x ys] by auto
next
  case (VStr s)
  with assms show ?thesis by (cases s) auto
next
  case (VDict d)
  with assms show ?thesis by (cases d) auto
qed (use assms in auto)

text \<open>A dictionary never holds a key twice; \<open>wf_val\<close> says so at every level of a value.\<close>

fun wf_val :: "pyval \<Rightarrow> bool" where
  "wf_val (VList xs) = (\<forall>x \<in> set xs. wf_val x)"
| "wf_val (VDict d) = (distinct (keys d) \<and> (\<forall>p \<in> set d. wf_val (snd p)))"
| "wf_val _ = True"

lemma wf_val_map_of: "wf_val (VDict d) \<Longrightarrow> map_of d k = Some v \<Longrightarrow> wf_val v"
  by (auto dest!: map_of_SomeD)

subsection \<open>repr\<close>

definition hex_digit :: "nat \<Rightarrow> char" where
  "hex_digit n = (if n < 10 then char_of (48 + n) else char_of (87 + n))"

definition repr_char :: "char \<Rightarrow> char \<Rightarrow> string" where
  "repr_char q c =
     (if c = q \<or> c = CHR 0x5C then [CHR 0x5C, c]
      else if code c = (10::nat) then [CHR 0x5C, CHR ''n'']
      else if code c = (13::nat) then [CHR 0x5C, CHR ''r'']
      else if code c = (9::nat) then [CHR 0x5C, CHR ''t'']
      else if code c < (32::nat) \<or> 127 \<le> code c \<and> code c \<le> (160::nat) \<or> code c = (173::nat)
      then [CHR 0x5C, CHR ''x'', hex_digit (code c div 16), hex_digit (code c mod 16)]
      else [c])"

definition repr_str :: "string \<Rightarrow> string" where
  "repr_str s =
     (let q = (if CHR 0x27 \<in> set s \<and> CHR 0x22 \<notin> set s then CHR 0x22 else CHR 0x27)
      in q # concat (map (repr_char q) s) @ [q])"

fun py_repr :: "py_runtime \<Rightarrow> pyval \<Rightarrow> string" where
  "py_repr rt VNone = ''None''"
| "py_repr rt (VBool b) = (if b then ''True'' else ''False'')"
| "py_repr rt (VInt i) = int_str i"
| "py_repr rt (VFloat f) = float_repr rt f"
| "py_repr rt (VStr s) = repr_str s"
| "py_repr rt (VList xs) = ''['' @ join_with '', '' (map (py_repr rt) xs) @ '']''"
| "py_repr rt (VDict d) =
     ''{'' @ join_with '', '' (map (\<lambda>p. repr_str (fst p) @ '': '' @ py_repr rt (snd p)) d) @ ''}''"

subsection \<open>Canonical JSON\<close>

text \<open>\<open>_check_json_value\<close>; the path names the offending value in the message.\<close>

fun check_json_value :: "pyval \<Rightarrow> string \<Rightarrow> unit res"
  and check_json_list :: "pyval list \<Rightarrow> string \<Rightarrow> nat \<Rightarrow> unit res"
  and check_json_items :: "(string \<times> pyval) list \<Rightarrow> string \<Rightarrow> unit res" where
  "check_json_value VNone path = Inr ()"
| "check_json_value (VBool _) path = Inr ()"
| "check_json_value (VInt _) path = Inr ()"
| "check_json_value (VStr _) path = Inr ()"
| "check_json_value (VFloat f) path =
     (if \<not> is_finite f then Inl (ValidationError (path @ '' contains a non-finite number''))
      else Inr ())"
| "check_json_value (VList xs) path = check_json_list xs path 0"
| "check_json_value (VDict d) path = check_json_items d path"
| "check_json_list [] path i = Inr ()"
| "check_json_list (x # xs) path i =
     bindR (check_json_value x (path @ ''['' @ nat_str i @ '']''))
       (\<lambda>_. check_json_list xs path (Suc i))"
| "check_json_items [] path = Inr ()"
| "check_json_items ((k, v) # d) path =
     bindR (check_json_value v (path @ ''.'' @ k)) (\<lambda>_. check_json_items d path)"

text \<open>\<open>json.dumps(value, ensure_ascii=False, separators=(",", ":"), sort_keys=True)\<close>.\<close>

definition json_char :: "char \<Rightarrow> string" where
  "json_char c =
     (if c = CHR 0x22 \<or> c = CHR 0x5C then [CHR 0x5C, c]
      else if code c = (10::nat) then [CHR 0x5C, CHR ''n'']
      else if code c = (13::nat) then [CHR 0x5C, CHR ''r'']
      else if code c = (9::nat) then [CHR 0x5C, CHR ''t'']
      else if code c = (12::nat) then [CHR 0x5C, CHR ''f'']
      else if code c = (8::nat) then [CHR 0x5C, CHR ''b'']
      else if code c < (32::nat)
      then CHR 0x5C # ''u00'' @ [hex_digit (code c div 16), hex_digit (code c mod 16)]
      else [c])"

definition json_str :: "string \<Rightarrow> string" where
  "json_str s = [CHR 0x22] @ concat (map json_char s) @ [CHR 0x22]"

fun json_dumps :: "py_runtime \<Rightarrow> pyval \<Rightarrow> string" where
  "json_dumps rt VNone = ''null''"
| "json_dumps rt (VBool b) = (if b then ''true'' else ''false'')"
| "json_dumps rt (VInt i) = int_str i"
| "json_dumps rt (VFloat f) = float_repr rt f"
| "json_dumps rt (VStr s) = json_str s"
| "json_dumps rt (VList xs) = ''['' @ join_with '','' (map (json_dumps rt) xs) @ '']''"
| "json_dumps rt (VDict d) =
     ''{'' @ join_with '',''
       (map snd (sort_key fst (map (\<lambda>p. (fst p, json_str (fst p) @ '':'' @ json_dumps rt (snd p))) d)))
     @ ''}''"

definition canonical_json :: "py_runtime \<Rightarrow> pyval \<Rightarrow> string res" where
  "canonical_json rt v = bindR (check_json_value v ''value'') (\<lambda>_. Inr (json_dumps rt v))"

definition checksum :: "py_runtime \<Rightarrow> pyval \<Rightarrow> string res" where
  "checksum rt v = bindR (canonical_json rt v) (\<lambda>text. Inr (''sha256:'' @ sha256_hex rt text))"

definition verify_checksum :: "py_runtime \<Rightarrow> pyval \<Rightarrow> string \<Rightarrow> bool res" where
  "verify_checksum rt v expected = bindR (checksum rt v) (\<lambda>c. Inr (c = expected))"

text \<open>\<open>len(text.encode("utf-8"))\<close>.\<close>

definition utf8_length :: "string \<Rightarrow> nat" where
  "utf8_length s = sum_list (map (\<lambda>c. if code c < (128::nat) then 1 else 2) s)"

subsection \<open>What the check accepts\<close>

fun finite_val :: "pyval \<Rightarrow> bool" where
  "finite_val (VFloat f) = is_finite f"
| "finite_val (VList xs) = (\<forall>x \<in> set xs. finite_val x)"
| "finite_val (VDict d) = (\<forall>p \<in> set d. finite_val (snd p))"
| "finite_val _ = True"

lemma check_json_iff:
  "check_json_value v path = Inr () \<longleftrightarrow> finite_val v"
  "check_json_list vs path i = Inr () \<longleftrightarrow> (\<forall>v \<in> set vs. finite_val v)"
  "check_json_items d path = Inr () \<longleftrightarrow> (\<forall>p \<in> set d. finite_val (snd p))"
  by (induction v path and vs path i and d path
      rule: check_json_value_check_json_list_check_json_items.induct)
    (auto simp: res_simps)

lemma canonical_json_iff [res_simps]:
  "canonical_json rt v = Inr t \<longleftrightarrow> finite_val v \<and> t = json_dumps rt v"
  by (auto simp: canonical_json_def res_simps check_json_iff)

lemma canonical_json_finite [simp]: "finite_val v \<Longrightarrow> canonical_json rt v = Inr (json_dumps rt v)"
  by (simp add: canonical_json_iff)

lemma check_json_error:
  "check_json_value v path = Inl e \<Longrightarrow> \<exists>m. e = ValidationError m"
  "check_json_list vs path i = Inl e \<Longrightarrow> \<exists>m. e = ValidationError m"
  "check_json_items d path = Inl e \<Longrightarrow> \<exists>m. e = ValidationError m"
  by (induction v path and vs path i and d path
      rule: check_json_value_check_json_list_check_json_items.induct)
    (auto simp: res_simps split: if_splits)

lemma canonical_json_error: "canonical_json rt v = Inl e \<Longrightarrow> \<exists>m. e = ValidationError m"
  by (auto simp: canonical_json_def res_simps dest: check_json_error)

lemma finite_val_map_of: "finite_val (VDict d) \<Longrightarrow> map_of d k = Some v \<Longrightarrow> finite_val v"
  by (auto dest!: map_of_SomeD)

text \<open>A concrete runtime, for the witnesses of the properties that take one.\<close>

definition witness_runtime :: py_runtime where
  "witness_runtime = \<lparr>
     float_repr = (\<lambda>f. case f of Fin r \<Rightarrow> int_str (floor r) @ ''.0'' | PInf \<Rightarrow> ''inf''
       | NInf \<Rightarrow> ''-inf'' | NaN \<Rightarrow> ''nan''),
     sha256_hex = (\<lambda>s. s),
     float_of_text = (\<lambda>s. if s \<noteq> [] \<and> list_all is_decimal s
       then Some (Fin (of_nat (digits_value s))) else None),
     json_loads = (\<lambda>s. if s = ''null'' then Inr VNone else Inl ''Expecting value''),
     url_split = (\<lambda>s. Inr (''https'', s, ''/''))\<rparr>"

end
