(* ===== verification/Effects.thy ===== *)
theory Effects
  imports PyValue
begin

section \<open>The world the control plane runs in\<close>

text \<open>
  The state the store and the service work on: the files below the store's root, and how many fresh
  ids and clock readings have been taken.  An operation maps a world to a result and the next world;
  an exception keeps the effects made before it.  Files hold the JSON value that was written, or the
  text of the error reading them gives (\<open>Inl\<close>: the file is unreadable or not JSON).  The writer sorts
  the keys of every object; the model keeps the dictionary as it was written, which is an equal one.
\<close>

type_synonym path = "string list"

record world =
  w_files :: "(path, string + pyval) dict"
  w_drawn :: nat
  w_ticks :: nat

text \<open>
  What the operations take from the machine: the runtime, the text of the root path, the uuid each
  call of \<open>new_id\<close> returns and the timestamp each call of \<open>utc_now\<close> returns.
\<close>

record machine =
  m_rt :: py_runtime
  m_root :: string
  m_new_id :: "nat \<Rightarrow> string"
  m_now :: "nat \<Rightarrow> string"

type_synonym 'a op = "world \<Rightarrow> 'a res \<times> world"

definition retW :: "'a \<Rightarrow> 'a op" where "retW x w = (Inr x, w)"

definition raiseW :: "exn \<Rightarrow> 'a op" where "raiseW e w = (Inl e, w)"

definition liftW :: "'a res \<Rightarrow> 'a op" where "liftW r w = (r, w)"

text \<open>An operation that only looks at the world.\<close>

definition readW :: "(world \<Rightarrow> 'a res) \<Rightarrow> 'a op" where "readW f w = (f w, w)"

definition bindW :: "'a op \<Rightarrow> ('a \<Rightarrow> 'b op) \<Rightarrow> 'b op" where
  "bindW m f w = (case m w of (Inl e, w') \<Rightarrow> (Inl e, w') | (Inr x, w') \<Rightarrow> f x w')"

text \<open>\<open>try: m except ...: h\<close>, where the handler answers every exception (re-raising the others).\<close>

definition catchW :: "'a op \<Rightarrow> (exn \<Rightarrow> 'a op) \<Rightarrow> 'a op" where
  "catchW m h w = (case m w of (Inl e, w') \<Rightarrow> h e w' | (Inr x, w') \<Rightarrow> (Inr x, w'))"

fun mapW :: "('a \<Rightarrow> 'b op) \<Rightarrow> 'a list \<Rightarrow> 'b list op" where
  "mapW f [] = retW []"
| "mapW f (x # xs) = bindW (f x) (\<lambda>y. bindW (mapW f xs) (\<lambda>ys. retW (y # ys)))"

definition new_id :: "machine \<Rightarrow> string op" where
  "new_id m w = (Inr (m_new_id m (w_drawn w)), w\<lparr>w_drawn := Suc (w_drawn w)\<rparr>)"

definition utc_now :: "machine \<Rightarrow> string op" where
  "utc_now m w = (Inr (m_now m (w_ticks w)), w\<lparr>w_ticks := Suc (w_ticks w)\<rparr>)"

subsection \<open>Laws\<close>

named_theorems op_simps \<open>running an operation\<close>

lemma op_run [op_simps]:
  "retW x w = (Inr x, w)" "raiseW e w = (Inl e, w)" "liftW r w = (r, w)" "readW f w = (f w, w)"
  "new_id m w = (Inr (m_new_id m (w_drawn w)), w\<lparr>w_drawn := Suc (w_drawn w)\<rparr>)"
  "utc_now m w = (Inr (m_now m (w_ticks w)), w\<lparr>w_ticks := Suc (w_ticks w)\<rparr>)"
  by (simp_all add: retW_def raiseW_def liftW_def readW_def new_id_def utc_now_def)

lemma bindW_Inr [op_simps]:
  "bindW m f w = (Inr y, w'') \<longleftrightarrow> (\<exists>x w'. m w = (Inr x, w') \<and> f x w' = (Inr y, w''))"
  by (auto simp: bindW_def split: prod.splits sum.splits)

lemma bindW_Inl:
  "bindW m f w = (Inl e, w'') \<longleftrightarrow>
     m w = (Inl e, w'') \<or> (\<exists>x w'. m w = (Inr x, w') \<and> f x w' = (Inl e, w''))"
  by (auto simp: bindW_def split: prod.splits sum.splits)

lemma bindW_step: "m w = (Inr x, w') \<Longrightarrow> bindW m f w = f x w'"
  by (simp add: bindW_def)

lemma bindW_stop: "m w = (Inl e, w') \<Longrightarrow> bindW m f w = (Inl e, w')"
  by (simp add: bindW_def)

lemma catchW_Inr:
  "catchW m h w = (Inr y, w'') \<longleftrightarrow>
     m w = (Inr y, w'') \<or> (\<exists>e w'. m w = (Inl e, w') \<and> h e w' = (Inr y, w''))"
  by (auto simp: catchW_def split: prod.splits sum.splits)

lemma catchW_ok: "m w = (Inr x, w') \<Longrightarrow> catchW m h w = (Inr x, w')"
  by (simp add: catchW_def)

text \<open>
  \<open>keeps P m\<close>: whatever it returns, \<open>m\<close> leads from a world to one related by \<open>P\<close>.  The rules walk
  through an operation; with a reflexive and transitive \<open>P\<close> they give frame conditions.
\<close>

definition keeps :: "(world \<Rightarrow> world \<Rightarrow> bool) \<Rightarrow> 'a op \<Rightarrow> bool" where
  "keeps P m \<longleftrightarrow> (\<forall>w. P w (snd (m w)))"

lemma keepsD: "keeps P m \<Longrightarrow> m w = (r, w') \<Longrightarrow> P w w'"
  by (auto simp: keeps_def dest: spec [of _ w])

locale frame =
  fixes P :: "world \<Rightarrow> world \<Rightarrow> bool"
  assumes refl: "P w w" and trans: "P w w' \<Longrightarrow> P w' w'' \<Longrightarrow> P w w''"
begin

lemma ret: "keeps P (retW x)" and raise: "keeps P (raiseW e)" and lift: "keeps P (liftW r)"
  and reading: "keeps P (readW f)"
  by (simp_all add: keeps_def op_simps refl)

lemma bind: "keeps P m \<Longrightarrow> (\<And>x. keeps P (f x)) \<Longrightarrow> keeps P (bindW m f)"
  unfolding keeps_def bindW_def
  by (clarsimp split: prod.split sum.split) (metis snd_conv trans)

lemma bind_post: "keeps P m \<Longrightarrow> (\<And>x w w'. m w = (Inr x, w') \<Longrightarrow> keeps P (f x)) \<Longrightarrow> keeps P (bindW m f)"
  unfolding keeps_def bindW_def
  by (clarsimp split: prod.split sum.split) (metis snd_conv trans)

lemma catch: "keeps P m \<Longrightarrow> (\<And>e. keeps P (h e)) \<Longrightarrow> keeps P (catchW m h)"
  unfolding keeps_def catchW_def
  by (clarsimp split: prod.split sum.split) (metis snd_conv trans)

lemma mapping: "(\<And>x. keeps P (f x)) \<Longrightarrow> keeps P (mapW f xs)"
  by (induction xs) (auto intro: bind ret)

lemma if_op: "(b \<Longrightarrow> keeps P m) \<Longrightarrow> (\<not> b \<Longrightarrow> keeps P n) \<Longrightarrow> keeps P (if b then m else n)"
  by simp

lemma case_opt: "keeps P m \<Longrightarrow> (\<And>x. keeps P (f x)) \<Longrightarrow> keeps P (case y of None \<Rightarrow> m | Some x \<Rightarrow> f x)"
  by (cases y) auto

lemma let_op: "(\<And>x. keeps P (f x)) \<Longrightarrow> keeps P (let x = y in f x)"
  by simp

lemmas rules = ret raise lift reading bind catch mapping if_op case_opt let_op

end

text \<open>Two worlds with the same files; the fresh ids and the clock leave the files alone.\<close>

definition same_files :: "world \<Rightarrow> world \<Rightarrow> bool" where
  "same_files w w' \<longleftrightarrow> w_files w' = w_files w"

interpretation same_files: frame same_files
  by unfold_locales (simp_all add: same_files_def)

text \<open>The files outside a set of paths are the same.\<close>

definition outside :: "(path \<Rightarrow> bool) \<Rightarrow> world \<Rightarrow> world \<Rightarrow> bool" where
  "outside inside w w' \<longleftrightarrow>
     (\<forall>p. \<not> inside p \<longrightarrow> map_of (w_files w') p = map_of (w_files w) p)"

interpretation outside: frame "outside inside"
  by unfold_locales (simp_all add: outside_def)

lemma draws_keep: "keeps same_files (new_id m)" "keeps same_files (utc_now m)"
  "keeps (outside inside) (new_id m)" "keeps (outside inside) (utc_now m)"
  by (simp_all add: keeps_def op_simps same_files_def outside_def)

end
