(* ===== verification/Conditions.thy ===== *)
theory Conditions
  imports PyValue
begin

section \<open>Trigger conditions (control/conditions.py)\<close>

text \<open>
  The condition language of triggers: validation of an untrusted JSON value into a normal
  form, path lookup in the event context, wildcard matching and evaluation.  The code works
  on dictionaries throughout and so do the definitions; \<open>cond\<close> is the syntax tree behind a
  normal form, and the lemmas relate the two.
\<close>

subsection \<open>Validation\<close>

definition MAX_CONDITION_DEPTH :: nat where "MAX_CONDITION_DEPTH = 32"
definition MAX_CONDITION_NODES :: nat where "MAX_CONDITION_NODES = 512"
definition MAX_CONDITION_BYTES :: nat where "MAX_CONDITION_BYTES = 65536"
definition MAX_PATH_LENGTH :: nat where "MAX_PATH_LENGTH = 256"

definition ALLOWED_NAMESPACES :: "string list" where
  "ALLOWED_NAMESPACES = [''event'', ''page'', ''dom'', ''data_layer'', ''consent'', ''variables'']"

definition LOGICAL_OPS :: "string list" where
  "LOGICAL_OPS = [''all'', ''any'', ''not'']"

definition COMPARISON_OPS :: "string list" where
  "COMPARISON_OPS = [''equals'', ''contains'', ''starts_with'', ''matches_glob'',
     ''gt'', ''gte'', ''lt'', ''lte'', ''in'']"

definition STRING_OPS :: "string list" where
  "STRING_OPS = [''starts_with'', ''matches_glob'']"

definition NUMERIC_OPS :: "string list" where
  "NUMERIC_OPS = [''gt'', ''gte'', ''lt'', ''lte'']"

definition repr_str_list :: "string list \<Rightarrow> string" where
  "repr_str_list ss = ''['' @ join_with '', '' (map repr_str ss) @ '']''"

text \<open>\<open>_validate_path\<close>.\<close>

definition unsafe_segment :: "string \<Rightarrow> bool" where
  "unsafe_segment part \<longleftrightarrow> \<not> list_all (\<lambda>c. is_alnum c \<or> c \<in> set ''_-'') part"

definition validate_path :: "pyval \<Rightarrow> string res" where
  "validate_path path = (case path of
     VStr p \<Rightarrow>
       if p = [] \<or> length p > MAX_PATH_LENGTH
       then Inl (ValidationError ''condition path must be a non-empty string up to 256 characters'')
       else (let parts = split_on (CHR ''.'') p in
         if list_ex (\<lambda>part. part = [] \<or> str_contains ''__'' part) parts
         then Inl (ValidationError (''condition path is malformed: '' @ repr_str p))
         else if hd parts \<notin> set ALLOWED_NAMESPACES
         then Inl (ValidationError (''condition path must start with one of ''
           @ repr_str_list (sort ALLOWED_NAMESPACES) @ '', got '' @ repr_str p))
         else (case find unsafe_segment parts of
             Some part \<Rightarrow> Inl (ValidationError
               (''condition path contains an unsafe segment: '' @ repr_str part))
           | None \<Rightarrow> Inr p))
   | _ \<Rightarrow> Inl (ValidationError ''condition path must be a non-empty string up to 256 characters''))"

text \<open>\<open>_check_keys\<close>: exactly the expected keys.\<close>

definition check_keys :: "pydict \<Rightarrow> string list \<Rightarrow> string \<Rightarrow> unit res" where
  "check_keys value expected field =
     (if unknown_keys value expected \<noteq> []
      then Inl (ValidationError (field @ '' contains unknown field(s): ''
        @ join_with '', '' (unknown_keys value expected)))
      else if missing_keys value expected \<noteq> []
      then Inl (ValidationError (field @ '' is missing field(s): ''
        @ join_with '', '' (missing_keys value expected)))
      else Inr ())"

text \<open>\<open>_validate_value\<close>.\<close>

definition validate_value :: "py_runtime \<Rightarrow> pyval \<Rightarrow> string \<Rightarrow> pyval res" where
  "validate_value rt value op = bindR (canonical_json rt value) (\<lambda>_.
     if op \<in> set STRING_OPS \<and> \<not> is_str value
     then Inl (ValidationError (''condition '' @ repr_str op @ '' requires a string value''))
     else if op \<in> set NUMERIC_OPS \<and> \<not> is_number value
     then Inl (ValidationError (''condition '' @ repr_str op @ '' requires a numeric value''))
     else if op = ''in'' \<and> \<not> is_list value
     then Inl (ValidationError ''condition 'in' requires a list value'')
     else if op = ''contains'' \<and> \<not> (is_str value \<or> is_list value)
     then Inl (ValidationError ''condition 'contains' requires a string or list value'')
     else Inr value)"

text \<open>
  \<open>_validate\<close>: \<open>n\<close> is the node counter the code keeps in a shared one-element list, returned
  with the normal form.
\<close>

function validate_node :: "py_runtime \<Rightarrow> pyval \<Rightarrow> nat \<Rightarrow> nat \<Rightarrow> (pyval \<times> nat) res"
  and validate_nodes :: "py_runtime \<Rightarrow> pyval list \<Rightarrow> nat \<Rightarrow> nat \<Rightarrow> (pyval list \<times> nat) res" where
  "validate_node rt value depth n =
     (if n + 1 > MAX_CONDITION_NODES
      then Inl (ValidationError ''condition AST exceeds the node limit'')
      else if depth > MAX_CONDITION_DEPTH
      then Inl (ValidationError ''condition AST exceeds the depth limit'')
      else (case value of
        VDict d \<Rightarrow> (case map_of d ''op'' of
          Some (VStr op) \<Rightarrow>
            if op = [] then Inl (ValidationError (''condition node is missing a valid '' @ repr_str ''op''))
            else if op \<in> set LOGICAL_OPS then
              bindR (check_keys d [''op'', ''conditions''] ''condition'') (\<lambda>_.
              bindR (dict_item d ''conditions'') (\<lambda>children.
                case children of
                  VList cs \<Rightarrow>
                    if op = ''not'' \<and> length cs \<noteq> 1
                    then Inl (ValidationError ''condition 'not' requires exactly one child'')
                    else bindR (validate_nodes rt cs (depth + 1) (n + 1)) (\<lambda>(cs', n').
                      Inr (VDict [(''op'', VStr op), (''conditions'', VList cs')], n'))
                | _ \<Rightarrow> Inl (ValidationError
                    (''condition '' @ repr_str op @ '' requires a conditions list''))))
            else if op = ''exists'' then
              bindR (check_keys d [''op'', ''path''] ''condition'') (\<lambda>_.
              bindR (dict_item d ''path'') (\<lambda>path.
              bindR (validate_path path) (\<lambda>p.
                Inr (VDict [(''op'', VStr ''exists''), (''path'', VStr p)], n + 1))))
            else if op \<in> set COMPARISON_OPS then
              bindR (check_keys d [''op'', ''path'', ''value''] ''condition'') (\<lambda>_.
              bindR (dict_item d ''path'') (\<lambda>path.
              bindR (validate_path path) (\<lambda>p.
              bindR (dict_item d ''value'') (\<lambda>v.
              bindR (validate_value rt v op) (\<lambda>v'.
                Inr (VDict [(''op'', VStr op), (''path'', VStr p), (''value'', v')], n + 1))))))
            else Inl (ValidationError (''unsupported condition op: '' @ repr_str op))
        | _ \<Rightarrow> Inl (ValidationError (''condition node is missing a valid '' @ repr_str ''op'')))
      | _ \<Rightarrow> Inl (ValidationError ''condition nodes must be objects'')))"
| "validate_nodes rt [] depth n = Inr ([], n)"
| "validate_nodes rt (c # cs) depth n =
     bindR (validate_node rt c depth n) (\<lambda>(c', n').
     bindR (validate_nodes rt cs depth n') (\<lambda>(cs', n'').
       Inr (c' # cs', n'')))"
  by pat_completeness auto
termination
  by (relation "measure (\<lambda>x. case x of Inl (_, v, _) \<Rightarrow> 2 * size v
        | Inr (_, vs, _) \<Rightarrow> 2 * size_list size vs + 1)")
    (auto simp: dict_item_def split: option.splits dest!: size_map_of)

declare validate_node.simps [simp del]

definition validate_condition :: "py_runtime \<Rightarrow> pyval \<Rightarrow> pyval res" where
  "validate_condition rt value = bindR (validate_node rt value 0 0) (\<lambda>(normalized, _).
     bindR (canonical_json rt normalized) (\<lambda>text.
       if utf8_length text > MAX_CONDITION_BYTES
       then Inl (ValidationError ''condition AST exceeds the size limit'')
       else Inr normalized))"

subsection \<open>Path lookup and comparison\<close>

text \<open>
  \<open>int(part)\<close> for a part that passed \<open>isdigit\<close>: superscript digits are no decimal
  literal, and the interpreter refuses more than 4300 digits.
\<close>

definition int_of_digits :: "string \<Rightarrow> nat res" where
  "int_of_digits part =
     (if list_all is_decimal part \<and> length part \<le> 4300 then Inr (digits_value part)
      else Inl (ValueError (''invalid literal for int() with base 10: '' @ repr_str part)))"

definition isdigit_str :: "string \<Rightarrow> bool" where
  "isdigit_str part \<longleftrightarrow> part \<noteq> [] \<and> list_all is_digit part"

text \<open>\<open>resolve_path\<close>; \<open>None\<close> is the sentinel \<open>MISSING\<close>.\<close>

fun resolve_parts :: "pyval \<Rightarrow> string list \<Rightarrow> pyval option res" where
  "resolve_parts current [] = Inr (Some current)"
| "resolve_parts current (part # parts) = (case current of
     VDict d \<Rightarrow> (case map_of d part of None \<Rightarrow> Inr None | Some v \<Rightarrow> resolve_parts v parts)
   | VList xs \<Rightarrow>
       if \<not> isdigit_str part then Inr None
       else bindR (int_of_digits part) (\<lambda>i.
         if i \<ge> length xs then Inr None else resolve_parts (xs ! i) parts)
   | _ \<Rightarrow> Inr None)"

definition resolve_path :: "pyval \<Rightarrow> string \<Rightarrow> pyval option res" where
  "resolve_path context path = resolve_parts context (split_on (CHR ''.'') path)"

text \<open>\<open>_strict_equal\<close>, with \<open>None\<close> for a missing left side.\<close>

definition is_bool :: "pyval \<Rightarrow> bool" where
  "is_bool v = (case v of VBool _ \<Rightarrow> True | _ \<Rightarrow> False)"

definition strict_equal :: "pyval option \<Rightarrow> pyval \<Rightarrow> bool" where
  "strict_equal actual expected = (case actual of
     None \<Rightarrow> False
   | Some a \<Rightarrow>
       if a = VNone \<or> expected = VNone then a = expected
       else if is_bool a \<or> is_bool expected then a = expected
       else if is_number a \<and> is_number expected then py_eq a expected
       else if type_name a \<noteq> type_name expected then False
       else py_eq a expected)"

text \<open>
  \<open>pattern_matches\<close>: the loop state is the pattern index, the value index, the index of the
  last star (if any) and the value index where that star started.
\<close>

function pattern_loop :: "string \<Rightarrow> string \<Rightarrow> nat \<Rightarrow> nat \<Rightarrow> nat option \<Rightarrow> nat \<Rightarrow> bool" where
  "pattern_loop p v pidx vidx star svidx =
     (if vidx < length v then
        if pidx < length p \<and> (p ! pidx = CHR ''?'' \<or> p ! pidx = v ! vidx)
        then pattern_loop p v (pidx + 1) (vidx + 1) star svidx
        else if pidx < length p \<and> p ! pidx = CHR ''*''
        then pattern_loop p v (pidx + 1) vidx (Some pidx) vidx
        else (case star of
            Some s \<Rightarrow> pattern_loop p v (s + 1) (svidx + 1) star (svidx + 1)
          | None \<Rightarrow> False)
      else dropWhile (\<lambda>c. c = CHR ''*'') (drop pidx p) = [])"
  by pat_completeness auto
termination
  by (relation "measures [\<lambda>(p, v, pidx, vidx, star, svidx). if svidx \<le> vidx then 0 else 1,
      \<lambda>(p, v, pidx, vidx, star, svidx). length v - svidx,
      \<lambda>(p, v, pidx, vidx, star, svidx). length p - pidx]") auto

declare pattern_loop.simps [simp del]

definition pattern_matches :: "string \<Rightarrow> string \<Rightarrow> bool" where
  "pattern_matches pattern value = pattern_loop pattern value 0 0 None 0"

subsection \<open>Evaluation\<close>

text \<open>\<open>value[0]\<close> as the code uses it on the \<open>conditions\<close> of a \<open>not\<close>.\<close>

fun first_item :: "pyval \<Rightarrow> pyval res" where
  "first_item (VList []) = Inl (IndexError ''list index out of range'')"
| "first_item (VList (x # _)) = Inr x"
| "first_item (VStr []) = Inl (IndexError ''string index out of range'')"
| "first_item (VStr (c # _)) = Inr (VStr [c])"
| "first_item (VDict _) = Inl (KeyError ''0'')"
| "first_item v = Inl (TypeError (type_name v @ '' object is not subscriptable''))"

text \<open>The comparison operators, on the looked-up value and the condition's value.\<close>

definition compare_op :: "pyval \<Rightarrow> pyval option \<Rightarrow> pyval \<Rightarrow> bool res" where
  "compare_op op actual expected =
     (if op = VStr ''equals'' then Inr (strict_equal actual expected)
      else if op = VStr ''in'' then
        (case actual of None \<Rightarrow> Inr False
         | Some _ \<Rightarrow> bindR (py_iter expected) (\<lambda>items.
             Inr (list_ex (\<lambda>item. strict_equal actual item) items)))
      else if op = VStr ''contains'' then
        Inr (case (actual, expected) of
            (Some (VStr a), VStr e) \<Rightarrow> str_contains e a
          | (Some (VList xs), _) \<Rightarrow> list_ex (\<lambda>item. strict_equal (Some item) expected) xs
          | _ \<Rightarrow> False)
      else if op = VStr ''starts_with'' then
        Inr (case (actual, expected) of (Some (VStr a), VStr e) \<Rightarrow> prefix e a | _ \<Rightarrow> False)
      else if op = VStr ''matches_glob'' then
        Inr (case (actual, expected) of
          (Some (VStr a), VStr e) \<Rightarrow> pattern_matches e a | _ \<Rightarrow> False)
      else (case op of
          VList _ \<Rightarrow> Inl (TypeError (''unhashable type: '' @ repr_str ''list''))
        | VDict _ \<Rightarrow> Inl (TypeError (''unhashable type: '' @ repr_str ''dict''))
        | VStr s \<Rightarrow>
            if s \<in> set NUMERIC_OPS then
              (case actual of
                None \<Rightarrow> Inr False
              | Some a \<Rightarrow>
                  if \<not> is_number a \<or> \<not> is_number expected then Inr False
                  else (case (num_of a, num_of expected) of
                      (Some x, Some y) \<Rightarrow>
                        Inr (if s = ''gt'' then float_lt y x
                             else if s = ''gte'' then float_le y x
                             else if s = ''lt'' then float_lt x y
                             else float_le x y)
                    | _ \<Rightarrow> Inr False))
            else Inr False
        | _ \<Rightarrow> Inr False))"

lemma size_iter_item:
  assumes "dict_item d k = Inr v" and "py_iter v = Inr xs" and "x \<in> set xs"
  shows "size x < size (VDict d)"
  using size_map_of [of d k v] size_py_iter [of v xs x] assms
  by (auto simp: dict_item_def split: option.splits)

lemma size_first_item:
  assumes "dict_item d k = Inr v" and "first_item v = Inr x"
  shows "size x < size (VDict d)"
proof -
  have "size x \<le> size v"
    using assms(2) by (cases v rule: first_item.cases) auto
  then show ?thesis
    using size_map_of [of d k v] assms(1) by (auto simp: dict_item_def split: option.splits)
qed

text \<open>\<open>evaluate_condition\<close>.\<close>

function evaluate_condition :: "pyval \<Rightarrow> pyval \<Rightarrow> bool res" where
  "evaluate_condition condition context = (case condition of
     VDict d \<Rightarrow>
       (let op = get_or d ''op'' VNone in
        if op = VStr ''all'' then
          bindR (dict_item d ''conditions'') (\<lambda>cs. bindR (py_iter cs) (\<lambda>children.
            allR (\<lambda>child. evaluate_condition child context) children))
        else if op = VStr ''any'' then
          bindR (dict_item d ''conditions'') (\<lambda>cs. bindR (py_iter cs) (\<lambda>children.
            anyR (\<lambda>child. evaluate_condition child context) children))
        else if op = VStr ''not'' then
          bindR (dict_item d ''conditions'') (\<lambda>cs. bindR (first_item cs) (\<lambda>child.
            bindR (evaluate_condition child context) (\<lambda>b. Inr (\<not> b))))
        else
          bindR (dict_item d ''path'') (\<lambda>path. case path of
            VStr p \<Rightarrow> bindR (resolve_path context p) (\<lambda>actual.
              if op = VStr ''exists'' then Inr (actual \<noteq> None)
              else bindR (dict_item d ''value'') (\<lambda>expected. compare_op op actual expected))
          | _ \<Rightarrow> Inl (AttributeError (type_name path @ '' object has no attribute '' @ repr_str ''split''))))
   | _ \<Rightarrow> Inl (AttributeError (type_name condition @ '' object has no attribute '' @ repr_str ''get'')))"
  by pat_completeness auto
termination
  by (relation "measure (\<lambda>(c, _). size c)") (auto dest: size_iter_item size_first_item)

declare evaluate_condition.simps [simp del]

subsection \<open>The wildcard matcher meets its specification\<close>

fun glob :: "string \<Rightarrow> string \<Rightarrow> bool" where
  "glob [] [] = True"
| "glob [] (c # cs) = False"
| "glob (p # ps) [] = (p = CHR ''*'' \<and> glob ps [])"
| "glob (p # ps) (c # cs) =
     (if p = CHR ''*'' then glob ps (c # cs) \<or> glob (p # ps) cs
      else (p = CHR ''?'' \<or> p = c) \<and> glob ps cs)"

lemma glob_star: "glob (CHR ''*'' # ps) s \<longleftrightarrow> (\<exists>k \<le> length s. glob ps (drop k s))"
proof (induction s)
  case (Cons c s)
  have "(\<exists>k \<le> length (c # s). glob ps (drop k (c # s)))
      \<longleftrightarrow> glob ps (c # s) \<or> (\<exists>k \<le> length s. glob ps (drop k s))"
    by (auto simp: less_Suc_eq_0_disj Suc_le_eq le_less_Suc_eq) (metis Suc_le_mono drop0 drop_Suc_Cons not0_implies_Suc)+
  with Cons show ?case by simp
qed simp

lemma glob_Nil_iff: "glob p [] \<longleftrightarrow> dropWhile (\<lambda>c. c = CHR ''*'') p = []"
  by (induction p) auto

lemma glob_plain_append:
  "CHR ''*'' \<notin> set q \<Longrightarrow> glob (q @ r) s \<Longrightarrow> length q \<le> length s \<and> glob r (drop (length q) s)"
proof (induction q arbitrary: s)
  case (Cons a q)
  then show ?case by (cases s) auto
qed simp

lemma glob_star_drop:
  assumes "j \<le> length s"
  shows "glob (CHR ''*'' # ps) (drop j s) \<longleftrightarrow> (\<exists>k. j \<le> k \<and> k \<le> length s \<and> glob ps (drop k s))"
proof
  assume "glob (CHR ''*'' # ps) (drop j s)"
  then obtain k where "k \<le> length s - j" "glob ps (drop (k + j) s)"
    by (auto simp: glob_star)
  with assms show "\<exists>k. j \<le> k \<and> k \<le> length s \<and> glob ps (drop k s)"
    by (intro exI [of _ "k + j"]) auto
next
  assume "\<exists>k. j \<le> k \<and> k \<le> length s \<and> glob ps (drop k s)"
  then obtain k where "j \<le> k" "k \<le> length s" "glob ps (drop k s)" by blast
  then show "glob (CHR ''*'' # ps) (drop j s)"
    unfolding glob_star by (intro exI [of _ "k - j"]) auto
qed

definition star_alt :: "string \<Rightarrow> string \<Rightarrow> nat option \<Rightarrow> nat \<Rightarrow> bool" where
  "star_alt p v star svidx = (case star of None \<Rightarrow> False
     | Some s \<Rightarrow> \<exists>k. svidx < k \<and> k \<le> length v \<and> glob (drop (s + 1) p) (drop k v))"

definition loop_inv :: "string \<Rightarrow> string \<Rightarrow> nat \<Rightarrow> nat \<Rightarrow> nat option \<Rightarrow> nat \<Rightarrow> bool" where
  "loop_inv p v pidx vidx star svidx \<longleftrightarrow> pidx \<le> length p \<and> vidx \<le> length v \<and>
     (case star of None \<Rightarrow> True
      | Some s \<Rightarrow> s < pidx \<and> svidx + pidx = vidx + s + 1
          \<and> (\<forall>j. s < j \<and> j < pidx \<longrightarrow> p ! j \<noteq> CHR ''*''))"

lemma star_alt_past_segment:
  assumes inv: "loop_inv p v pidx vidx star svidx" and alt: "star_alt p v star svidx"
  shows "\<exists>k. vidx < k \<and> k \<le> length v \<and> glob (drop pidx p) (drop k v)"
proof -
  from alt obtain s k where s: "star = Some s" and k: "svidx < k" "k \<le> length v"
    "glob (drop (s + 1) p) (drop k v)"
    by (auto simp: star_alt_def split: option.splits)
  from inv s have i: "s < pidx" "pidx \<le> length p" "svidx + pidx = vidx + s + 1"
    "\<And>j. s < j \<Longrightarrow> j < pidx \<Longrightarrow> p ! j \<noteq> CHR ''*''"
    by (auto simp: loop_inv_def)
  define q where "q = take (pidx - (s + 1)) (drop (s + 1) p)"
  have split: "drop (s + 1) p = q @ drop pidx p"
    using i(1) append_take_drop_id [of "pidx - (s + 1)" "drop (s + 1) p"]
    by (simp add: q_def)
  have len: "length q = pidx - (s + 1)"
    using i by (simp add: q_def)
  have "CHR ''*'' \<notin> set q"
  proof
    assume "CHR ''*'' \<in> set q"
    then obtain n where "n < length q" "q ! n = CHR ''*''"
      by (auto simp: in_set_conv_nth)
    then have "p ! (s + 1 + n) = CHR ''*''" "s + 1 + n < pidx"
      using i(1,2) by (auto simp: q_def)
    then show False using i(4) [of "s + 1 + n"] by simp
  qed
  then have "length q \<le> length (drop k v) \<and> glob (drop pidx p) (drop (length q) (drop k v))"
    using glob_plain_append k(3) split by metis
  then show ?thesis
    using k i len by (intro exI [of _ "k + length q"]) (auto simp: add.commute)
qed

lemma pattern_loop_glob:
  assumes "CHR ''*'' \<notin> set v" and "loop_inv p v pidx vidx star svidx"
  shows "pattern_loop p v pidx vidx star svidx \<longleftrightarrow>
    glob (drop pidx p) (drop vidx v) \<or> star_alt p v star svidx"
  using assms
proof (induction p v pidx vidx star svidx rule: pattern_loop.induct)
  case (1 p v pidx vidx star svidx)
  note inv = "1.prems"(2)
  have bounds: "pidx \<le> length p" "vidx \<le> length v"
    using inv by (auto simp: loop_inv_def)
  show ?case
  proof (cases "vidx < length v")
    case False
    with bounds have "drop vidx v = []" "vidx = length v" by simp_all
    moreover have "\<not> star_alt p v star svidx"
      using star_alt_past_segment [OF inv] \<open>vidx = length v\<close> by fastforce
    ultimately show ?thesis
      by (subst pattern_loop.simps) (simp add: glob_Nil_iff)
  next
    case vlt: True
    then have vdrop: "drop vidx v = v ! vidx # drop (Suc vidx) v" and "v ! vidx \<noteq> CHR ''*''"
      using "1.prems"(1) by (auto simp: Cons_nth_drop_Suc in_set_conv_nth)
    show ?thesis
    proof (cases "pidx < length p \<and> (p ! pidx = CHR ''?'' \<or> p ! pidx = v ! vidx)")
      case True
      then have pdrop: "drop pidx p = p ! pidx # drop (Suc pidx) p"
        by (simp add: Cons_nth_drop_Suc)
      have "p ! pidx \<noteq> CHR ''*''"
        using True \<open>v ! vidx \<noteq> _\<close> by auto
      with True inv vlt have "loop_inv p v (pidx + 1) (vidx + 1) star svidx"
        by (auto simp: loop_inv_def less_Suc_eq split: option.splits)
      with "1.IH"(1) [OF vlt True "1.prems"(1)] True vlt \<open>p ! pidx \<noteq> _\<close> show ?thesis
        by (subst pattern_loop.simps) (simp add: pdrop vdrop)
    next
      case nomatch: False
      show ?thesis
      proof (cases "pidx < length p \<and> p ! pidx = CHR ''*''")
        case True
        then have pdrop: "drop pidx p = CHR ''*'' # drop (Suc pidx) p"
          by (metis Cons_nth_drop_Suc)
        have "loop_inv p v (pidx + 1) vidx (Some pidx) vidx"
          using True bounds by (auto simp: loop_inv_def)
        with "1.IH"(2) [OF vlt nomatch True "1.prems"(1)] True nomatch vlt
        have "pattern_loop p v pidx vidx star svidx \<longleftrightarrow>
            glob (drop (Suc pidx) p) (drop vidx v) \<or> star_alt p v (Some pidx) vidx"
          by (subst pattern_loop.simps) auto
        also have "\<dots> \<longleftrightarrow> glob (drop pidx p) (drop vidx v)"
          unfolding pdrop glob_star_drop [OF bounds(2)] star_alt_def
          using bounds(2) by (auto simp: le_less intro: less_imp_le)
        also have "\<dots> \<longleftrightarrow> glob (drop pidx p) (drop vidx v) \<or> star_alt p v star svidx"
          using star_alt_past_segment [OF inv] glob_star_drop [OF bounds(2)] glob_star_drop
          unfolding pdrop by (metis le_trans less_imp_le)
        finally show ?thesis .
      next
        case nostar: False
        have cur: "\<not> glob (drop pidx p) (drop vidx v)"
        proof (cases "pidx < length p")
          case True
          then have "drop pidx p = p ! pidx # drop (Suc pidx) p"
            by (simp add: Cons_nth_drop_Suc)
          with True nomatch nostar show ?thesis by (simp add: vdrop)
        next
          case False
          with bounds show ?thesis by (simp add: vdrop)
        qed
        show ?thesis
        proof (cases star)
          case None
          with cur vlt nomatch nostar show ?thesis
            by (subst pattern_loop.simps) (auto simp: star_alt_def)
        next
          case (Some s)
          from inv Some vlt have "svidx < length v" "s < length p"
            by (auto simp: loop_inv_def)
          then have "loop_inv p v (s + 1) (svidx + 1) star (svidx + 1)"
            using Some by (auto simp: loop_inv_def)
          with "1.IH"(3) [OF vlt nomatch nostar Some] "1.prems"(1) Some cur vlt nomatch nostar
          have "pattern_loop p v pidx vidx star svidx \<longleftrightarrow>
             glob (drop (s + 1) p) (drop (svidx + 1) v) \<or> star_alt p v star (svidx + 1)"
            by (subst pattern_loop.simps) auto
          also have "\<dots> \<longleftrightarrow> star_alt p v star svidx"
            unfolding star_alt_def Some
            using \<open>svidx < length v\<close> by simp (metis Suc_lessD Suc_lessI Suc_leI lessI)
          finally show ?thesis using cur by simp
        qed
      qed
    qed
  qed
qed

lemma pattern_matches_glob:
  assumes "CHR ''*'' \<notin> set value"
  shows "pattern_matches pat value \<longleftrightarrow> glob pat value"
  using pattern_loop_glob [OF assms, of pat 0 0 None 0]
  by (simp add: pattern_matches_def loop_inv_def star_alt_def)

lemma pattern_matches_star_value:
  "glob ''*'' ''*a'' \<and> \<not> pattern_matches ''*'' ''*a''"
  by (simp add: pattern_matches_def pattern_loop.simps)

subsection \<open>Syntax trees of normal forms\<close>

datatype cond =
    CAll "cond list"
  | CAny "cond list"
  | CNot cond
  | CExists string
  | CCompare string string pyval

fun cond_dict :: "cond \<Rightarrow> pyval" where
  "cond_dict (CAll cs) = VDict [(''op'', VStr ''all''), (''conditions'', VList (map cond_dict cs))]"
| "cond_dict (CAny cs) = VDict [(''op'', VStr ''any''), (''conditions'', VList (map cond_dict cs))]"
| "cond_dict (CNot c) = VDict [(''op'', VStr ''not''), (''conditions'', VList [cond_dict c])]"
| "cond_dict (CExists p) = VDict [(''op'', VStr ''exists''), (''path'', VStr p)]"
| "cond_dict (CCompare op p v) = VDict [(''op'', VStr op), (''path'', VStr p), (''value'', v)]"

fun cond_nodes :: "cond \<Rightarrow> nat" where
  "cond_nodes (CAll cs) = Suc (sum_list (map cond_nodes cs))"
| "cond_nodes (CAny cs) = Suc (sum_list (map cond_nodes cs))"
| "cond_nodes (CNot c) = Suc (cond_nodes c)"
| "cond_nodes _ = 1"

text \<open>\<open>cond_within k c\<close>: no node of \<open>c\<close> is more than \<open>k\<close> levels below its root.\<close>

fun cond_within :: "nat \<Rightarrow> cond \<Rightarrow> bool" where
  "cond_within k (CAll cs) = (\<forall>c \<in> set cs. k > 0 \<and> cond_within (k - 1) c)"
| "cond_within k (CAny cs) = (\<forall>c \<in> set cs. k > 0 \<and> cond_within (k - 1) c)"
| "cond_within k (CNot c) = (k > 0 \<and> cond_within (k - 1) c)"
| "cond_within k _ = True"

text \<open>\<open>value_fits op v\<close>: the type of value each comparison asks for.\<close>

definition value_fits :: "string \<Rightarrow> pyval \<Rightarrow> bool" where
  "value_fits op v \<longleftrightarrow> finite_val v \<and> (op \<in> set STRING_OPS \<longrightarrow> is_str v)
     \<and> (op \<in> set NUMERIC_OPS \<longrightarrow> is_number v) \<and> (op = ''in'' \<longrightarrow> is_list v)
     \<and> (op = ''contains'' \<longrightarrow> is_str v \<or> is_list v)"

definition good_path :: "string \<Rightarrow> bool" where
  "good_path p \<longleftrightarrow> validate_path (VStr p) = Inr p"

fun cond_ok :: "cond \<Rightarrow> bool" where
  "cond_ok (CAll cs) = (\<forall>c \<in> set cs. cond_ok c)"
| "cond_ok (CAny cs) = (\<forall>c \<in> set cs. cond_ok c)"
| "cond_ok (CNot c) = cond_ok c"
| "cond_ok (CExists p) = good_path p"
| "cond_ok (CCompare op p v) = (op \<in> set COMPARISON_OPS \<and> good_path p \<and> value_fits op v)"

lemma validate_path_Inr [res_simps]:
  "validate_path path = Inr p \<longleftrightarrow> path = VStr p \<and> good_path p"
  by (auto simp: validate_path_def good_path_def Let_def split: pyval.splits if_splits option.splits)

lemma validate_value_Inr [res_simps]:
  "validate_value rt v op = Inr w \<longleftrightarrow> w = v \<and> value_fits op v"
  by (auto simp: validate_value_def value_fits_def res_simps)

lemma check_keys_Inr [res_simps]:
  "check_keys d expected field = Inr u \<longleftrightarrow> set (keys d) = set expected"
  by (auto simp: check_keys_def unknown_keys_empty_iff missing_keys_empty_iff)

lemma dict_item_Inr [res_simps]: "dict_item d k = Inr v \<longleftrightarrow> map_of d k = Some v"
  by (auto simp: dict_item_def split: option.splits)

lemmas op_lists = LOGICAL_OPS_def COMPARISON_OPS_def STRING_OPS_def NUMERIC_OPS_def

text \<open>A dictionary the code builds with exactly these keys passes the key check.\<close>

lemma check_keys_same:
  "set (keys d) = set expected \<Longrightarrow> check_keys d expected field = Inr ()"
  by (simp add: check_keys_Inr)

text \<open>One rule for each shape of node: when validation succeeds, and with what.\<close>

lemma validate_node_limits:
  "validate_node rt val depth n = Inr r \<Longrightarrow>
    n + 1 \<le> MAX_CONDITION_NODES \<and> depth \<le> MAX_CONDITION_DEPTH"
  by (subst (asm) validate_node.simps) (simp split: if_splits)

lemma validate_node_object:
  assumes "validate_node rt val depth n = Inr r"
  shows "\<exists>d op. val = VDict d \<and> map_of d ''op'' = Some (VStr op) \<and>
    (op \<in> set LOGICAL_OPS \<or> op = ''exists'' \<or> op \<in> set COMPARISON_OPS)"
  using assms
  by (subst (asm) validate_node.simps)
    (simp split: if_splits pyval.splits option.splits)

lemma validate_node_exists:
  assumes "map_of d ''op'' = Some (VStr ''exists'')"
  shows "validate_node rt (VDict d) depth n = Inr (w, n') \<longleftrightarrow>
    n + 1 \<le> MAX_CONDITION_NODES \<and> depth \<le> MAX_CONDITION_DEPTH \<and>
    set (keys d) = {''op'', ''path''} \<and> n' = n + 1 \<and>
    (\<exists>p. map_of d ''path'' = Some (VStr p) \<and> good_path p \<and> w = cond_dict (CExists p))"
  by (subst validate_node.simps) (simp add: assms op_lists, simp add: res_simps, blast)

lemma validate_node_compare:
  assumes "map_of d ''op'' = Some (VStr op)" and "op \<in> set COMPARISON_OPS"
  shows "validate_node rt (VDict d) depth n = Inr (w, n') \<longleftrightarrow>
    n + 1 \<le> MAX_CONDITION_NODES \<and> depth \<le> MAX_CONDITION_DEPTH \<and>
    set (keys d) = {''op'', ''path'', ''value''} \<and> n' = n + 1 \<and>
    (\<exists>p v. map_of d ''path'' = Some (VStr p) \<and> good_path p \<and> map_of d ''value'' = Some v
      \<and> value_fits op v \<and> w = cond_dict (CCompare op p v))"
proof -
  have "op \<noteq> []" "op \<notin> set LOGICAL_OPS" "op \<noteq> ''exists''"
    using assms(2) by (auto simp: op_lists)
  then show ?thesis
    by (subst validate_node.simps) (simp add: assms, simp add: res_simps, blast)
qed

lemma validate_node_logical:
  assumes "map_of d ''op'' = Some (VStr op)" and "op \<in> set LOGICAL_OPS"
  shows "validate_node rt (VDict d) depth n = Inr (w, n') \<longleftrightarrow>
    n + 1 \<le> MAX_CONDITION_NODES \<and> depth \<le> MAX_CONDITION_DEPTH \<and>
    set (keys d) = {''op'', ''conditions''} \<and>
    (\<exists>cs cs'. map_of d ''conditions'' = Some (VList cs) \<and> (op = ''not'' \<longrightarrow> length cs = 1)
      \<and> validate_nodes rt cs (depth + 1) (n + 1) = Inr (cs', n')
      \<and> w = VDict [(''op'', VStr op), (''conditions'', VList cs')])"
proof (cases "\<exists>cs. map_of d ''conditions'' = Some (VList cs)")
  case True
  have "op \<noteq> []" using assms(2) by (auto simp: op_lists)
  moreover from True obtain cs where cs: "map_of d ''conditions'' = Some (VList cs)" by blast
  ultimately show ?thesis
    by (subst validate_node.simps)
      (simp add: assms dict_item_def, auto simp: bindR_Inr_iff check_keys_Inr if_Inl_Inr_iff)
next
  case False
  have op: "op \<noteq> []" using assms(2) by (auto simp: op_lists)
  have "validate_node rt (VDict d) depth n \<noteq> Inr (w, n')"
  proof (cases "map_of d ''conditions''")
    case None
    with op show ?thesis
      by (subst validate_node.simps) (simp add: assms dict_item_def bindR_Inr_iff)
  next
    case (Some x)
    with False have "x \<noteq> VList cs" for cs by auto
    with op Some show ?thesis
      by (subst validate_node.simps) (cases x; simp add: assms dict_item_def bindR_Inr_iff; blast)
  qed
  with False show ?thesis by blast
qed

lemma validate_node_sound:
  "validate_node rt val depth n = Inr (w, n') \<Longrightarrow>
     \<exists>c. w = cond_dict c \<and> cond_ok c \<and> n' = n + cond_nodes c \<and> n' \<le> MAX_CONDITION_NODES
       \<and> depth \<le> MAX_CONDITION_DEPTH \<and> cond_within (MAX_CONDITION_DEPTH - depth) c"
  "validate_nodes rt vs depth n = Inr (ws, n') \<Longrightarrow> n \<le> MAX_CONDITION_NODES \<Longrightarrow>
     \<exists>cs. ws = map cond_dict cs \<and> length cs = length vs \<and> (\<forall>c \<in> set cs. cond_ok c)
       \<and> n' = n + sum_list (map cond_nodes cs) \<and> n' \<le> MAX_CONDITION_NODES
       \<and> (\<forall>c \<in> set cs. depth \<le> MAX_CONDITION_DEPTH \<and> cond_within (MAX_CONDITION_DEPTH - depth) c)"
proof (induction rt val depth n and rt vs depth n arbitrary: w n' and ws n'
    rule: validate_node_validate_nodes.induct)
  case (1 rt val depth n)
  from validate_node_limits [OF "1.prems"]
  have lim: "n + 1 \<le> MAX_CONDITION_NODES" "depth \<le> MAX_CONDITION_DEPTH" by auto
  from validate_node_object [OF "1.prems"] obtain d op where d: "val = VDict d"
    "map_of d ''op'' = Some (VStr op)" and
    "op \<in> set LOGICAL_OPS \<or> op = ''exists'' \<or> op \<in> set COMPARISON_OPS" by blast
  then consider "op \<in> set LOGICAL_OPS" | "op = ''exists''" | "op \<in> set COMPARISON_OPS" by blast
  then show ?case
  proof cases
    case 1
    with "1.prems" d obtain cs cs' where cs: "map_of d ''conditions'' = Some (VList cs)"
      "op = ''not'' \<longrightarrow> length cs = 1" "set (keys d) = {''op'', ''conditions''}"
      "validate_nodes rt cs (depth + 1) (n + 1) = Inr (cs', n')"
      "w = VDict [(''op'', VStr op), (''conditions'', VList cs')]"
      by (auto simp: validate_node_logical)
    have IH: "\<exists>ts. cs' = map cond_dict ts \<and> length ts = length cs \<and> (\<forall>c \<in> set ts. cond_ok c)
        \<and> n' = n + 1 + sum_list (map cond_nodes ts) \<and> n' \<le> MAX_CONDITION_NODES
        \<and> (\<forall>c \<in> set ts. depth + 1 \<le> MAX_CONDITION_DEPTH
             \<and> cond_within (MAX_CONDITION_DEPTH - (depth + 1)) c)"
    proof (rule "1.IH" [OF _ _ d(1) d(2) refl _ 1 _ _ refl _ cs(4)])
      show "op \<noteq> []" using 1 by (auto simp: op_lists)
    qed (use lim cs d in \<open>auto simp: check_keys_Inr dict_item_Inr\<close>)
    then obtain ts where ts: "cs' = map cond_dict ts" "length ts = length cs"
      "\<forall>c \<in> set ts. cond_ok c" "n' = n + 1 + sum_list (map cond_nodes ts)"
      "n' \<le> MAX_CONDITION_NODES" "\<forall>c \<in> set ts. depth + 1 \<le> MAX_CONDITION_DEPTH
        \<and> cond_within (MAX_CONDITION_DEPTH - (depth + 1)) c" by blast
    from 1 consider "op = ''all''" | "op = ''any''" | "op = ''not''" by (auto simp: op_lists)
    then show ?thesis
    proof cases
      case 1
      with ts cs lim show ?thesis by (intro exI [of _ "CAll ts"]) auto
    next
      case 2
      with ts cs lim show ?thesis by (intro exI [of _ "CAny ts"]) auto
    next
      case 3
      with cs(2) ts(2) obtain t where "ts = [t]" by (cases ts) auto
      with 3 ts cs lim show ?thesis by (intro exI [of _ "CNot t"]) auto
    qed
  next
    case 2
    with "1.prems" d obtain p where "good_path p" "w = cond_dict (CExists p)" "n' = n + 1"
      by (auto simp: validate_node_exists)
    with lim show ?thesis by (intro exI [of _ "CExists p"]) simp
  next
    case 3
    with "1.prems" d obtain p v where "good_path p" "value_fits op v"
      "w = cond_dict (CCompare op p v)" "n' = n + 1"
      by (auto simp: validate_node_compare)
    with lim 3 show ?thesis by (intro exI [of _ "CCompare op p v"]) simp
  qed
next
  case (2 rt depth n)
  then show ?case by simp
next
  case (3 rt c cs depth n)
  from "3.prems" obtain w1 n1 ws' where *: "validate_node rt c depth n = Inr (w1, n1)"
    "validate_nodes rt cs depth n1 = Inr (ws', n')" "ws = w1 # ws'"
    by (auto simp: res_simps)
  from "3.IH"(1) [OF *(1)] obtain c1 where c1: "w1 = cond_dict c1" "cond_ok c1"
    "n1 = n + cond_nodes c1" "n1 \<le> MAX_CONDITION_NODES" "depth \<le> MAX_CONDITION_DEPTH"
    "cond_within (MAX_CONDITION_DEPTH - depth) c1" by blast
  from "3.IH"(2) [OF *(1) refl *(2) c1(4)] obtain cs1 where "ws' = map cond_dict cs1"
    "length cs1 = length cs" "\<forall>c \<in> set cs1. cond_ok c" "n' = n1 + sum_list (map cond_nodes cs1)"
    "n' \<le> MAX_CONDITION_NODES"
    "\<forall>c \<in> set cs1. depth \<le> MAX_CONDITION_DEPTH \<and> cond_within (MAX_CONDITION_DEPTH - depth) c"
    by blast
  with * c1 show ?case by (intro exI [of _ "c1 # cs1"]) auto
qed

lemma cond_ok_finite: "cond_ok c \<Longrightarrow> finite_val (cond_dict c)"
  by (induction c) (auto simp: value_fits_def)

lemma validate_nodes_complete:
  assumes "\<And>c m. c \<in> set cs \<Longrightarrow> m + cond_nodes c \<le> MAX_CONDITION_NODES \<Longrightarrow>
      validate_node rt (cond_dict c) depth m = Inr (cond_dict c, m + cond_nodes c)"
    and "n + sum_list (map cond_nodes cs) \<le> MAX_CONDITION_NODES"
  shows "validate_nodes rt (map cond_dict cs) depth n
    = Inr (map cond_dict cs, n + sum_list (map cond_nodes cs))"
  using assms by (induction cs arbitrary: n) auto

lemma validate_node_complete:
  assumes "cond_ok c" and "cond_within (MAX_CONDITION_DEPTH - depth) c"
    and "depth \<le> MAX_CONDITION_DEPTH" and "n + cond_nodes c \<le> MAX_CONDITION_NODES"
  shows "validate_node rt (cond_dict c) depth n = Inr (cond_dict c, n + cond_nodes c)"
  using assms
proof (induction c arbitrary: depth n)
  case (CAll cs)
  have "validate_nodes rt (map cond_dict cs) (depth + 1) (n + 1)
      = Inr (map cond_dict cs, n + 1 + sum_list (map cond_nodes cs))"
    using CAll by (intro validate_nodes_complete) auto
  with CAll.prems show ?case
    by (auto simp: validate_node_logical [where op = "''all''"] op_lists)
next
  case (CAny cs)
  have "validate_nodes rt (map cond_dict cs) (depth + 1) (n + 1)
      = Inr (map cond_dict cs, n + 1 + sum_list (map cond_nodes cs))"
    using CAny by (intro validate_nodes_complete) auto
  with CAny.prems show ?case
    by (auto simp: validate_node_logical [where op = "''any''"] op_lists)
next
  case (CNot c)
  have "validate_nodes rt [cond_dict c] (depth + 1) (n + 1)
      = Inr ([cond_dict c], n + 1 + cond_nodes c)"
    using CNot by auto
  with CNot.prems show ?case
    by (auto simp: validate_node_logical [where op = "''not''"] op_lists)
next
  case (CExists p)
  then show ?case by (auto simp: validate_node_exists)
next
  case (CCompare op p v)
  then show ?case by (auto simp: validate_node_compare [where op = op])
qed

lemma validate_condition_Inr:
  "validate_condition rt v = Inr w \<longleftrightarrow> (\<exists>n. validate_node rt v 0 0 = Inr (w, n)) \<and> finite_val w
     \<and> utf8_length (json_dumps rt w) \<le> MAX_CONDITION_BYTES"
  by (auto simp: validate_condition_def res_simps not_less)

lemma validate_condition_sound:
  assumes "validate_condition rt v = Inr w"
  obtains c where "w = cond_dict c" "cond_ok c" "cond_nodes c \<le> MAX_CONDITION_NODES"
    "cond_within MAX_CONDITION_DEPTH c"
    "utf8_length (json_dumps rt w) \<le> MAX_CONDITION_BYTES"
proof -
  from assms obtain n where n: "validate_node rt v 0 0 = Inr (w, n)"
    and "utf8_length (json_dumps rt w) \<le> MAX_CONDITION_BYTES"
    by (auto simp: validate_condition_Inr)
  with validate_node_sound(1) [OF n] that show ?thesis by auto
qed

lemma validate_condition_complete:
  assumes "cond_ok c" "cond_nodes c \<le> MAX_CONDITION_NODES" "cond_within MAX_CONDITION_DEPTH c"
    "utf8_length (json_dumps rt (cond_dict c)) \<le> MAX_CONDITION_BYTES"
  shows "validate_condition rt (cond_dict c) = Inr (cond_dict c)"
  using assms validate_node_complete [of c 0 0 rt] cond_ok_finite
  by (auto simp: validate_condition_Inr)

lemma validate_condition_fixed:
  assumes "validate_condition rt v = Inr w"
  shows "validate_condition rt w = Inr w"
  using assms by (elim validate_condition_sound) (auto intro: validate_condition_complete)

subsection \<open>What a validated condition means\<close>

text \<open>
  \<open>compare_val\<close> says when a comparison holds of a value that is there, one line an operator;
  \<open>cond_holds\<close> is the truth of a tree for a lookup function.
\<close>

definition compare_val :: "string \<Rightarrow> pyval \<Rightarrow> pyval \<Rightarrow> bool" where
  "compare_val op a v \<longleftrightarrow>
     op = ''equals'' \<and> strict_equal (Some a) v
   \<or> op = ''in'' \<and> (\<exists>xs. v = VList xs \<and> (\<exists>x \<in> set xs. strict_equal (Some a) x))
   \<or> op = ''contains'' \<and> ((\<exists>s t. a = VStr s \<and> v = VStr t \<and> sublist t s)
       \<or> (\<exists>xs. a = VList xs \<and> (\<exists>x \<in> set xs. strict_equal (Some x) v)))
   \<or> op = ''starts_with'' \<and> (\<exists>s t. a = VStr s \<and> v = VStr t \<and> prefix t s)
   \<or> op = ''matches_glob'' \<and> (\<exists>s t. a = VStr s \<and> v = VStr t \<and> pattern_matches t s)
   \<or> is_number a \<and> is_number v \<and> (\<exists>x y. num_of a = Some x \<and> num_of v = Some y \<and>
       (op = ''gt'' \<and> float_lt y x \<or> op = ''gte'' \<and> float_le y x
        \<or> op = ''lt'' \<and> float_lt x y \<or> op = ''lte'' \<and> float_le x y))"

fun cond_holds :: "(string \<Rightarrow> pyval option) \<Rightarrow> cond \<Rightarrow> bool" where
  "cond_holds look (CAll cs) = (\<forall>c \<in> set cs. cond_holds look c)"
| "cond_holds look (CAny cs) = (\<exists>c \<in> set cs. cond_holds look c)"
| "cond_holds look (CNot c) = (\<not> cond_holds look c)"
| "cond_holds look (CExists p) = (look p \<noteq> None)"
| "cond_holds look (CCompare op p v) =
     (case look p of None \<Rightarrow> False | Some a \<Rightarrow> compare_val op a v)"

definition lookup_path :: "pyval \<Rightarrow> string \<Rightarrow> pyval option" where
  "lookup_path ctx p = (case resolve_path ctx p of Inl _ \<Rightarrow> None | Inr r \<Rightarrow> r)"

text \<open>A path whose digits are all decimal: \<open>int\<close> accepts every segment \<open>isdigit\<close> accepts.\<close>

definition plain_path :: "string \<Rightarrow> bool" where
  "plain_path p \<longleftrightarrow> (\<forall>c \<in> set p. is_digit c \<longrightarrow> is_decimal c)"

fun cond_paths :: "cond \<Rightarrow> string set" where
  "cond_paths (CAll cs) = (\<Union>c \<in> set cs. cond_paths c)"
| "cond_paths (CAny cs) = (\<Union>c \<in> set cs. cond_paths c)"
| "cond_paths (CNot c) = cond_paths c"
| "cond_paths (CExists p) = {p}"
| "cond_paths (CCompare op p v) = {p}"

lemma resolve_parts_total:
  assumes "\<And>part. part \<in> set parts \<Longrightarrow> plain_path part \<and> length part \<le> 4300"
  shows "\<exists>r. resolve_parts current parts = Inr r"
  using assms
proof (induction parts arbitrary: current)
  case (Cons part parts)
  then have "list_all is_digit part \<Longrightarrow> int_of_digits part = Inr (digits_value part)"
    by (auto simp: int_of_digits_def plain_path_def list_all_iff)
  with Cons show ?case
    by (auto simp: isdigit_str_def split: pyval.splits option.splits)
qed simp

lemma resolve_parts_error:
  "resolve_parts current parts = Inl e \<Longrightarrow> \<exists>m. e = ValueError m"
  by (induction current parts rule: resolve_parts.induct)
    (auto simp: int_of_digits_def res_simps split: pyval.splits option.splits if_splits)

lemma split_on_length: "w \<in> set (split_on d s) \<Longrightarrow> length w \<le> length s"
  by (induction s arbitrary: w) (fastforce split: if_splits list.splits)+

lemma good_path_length: "good_path p \<Longrightarrow> length p \<le> MAX_PATH_LENGTH"
  by (auto simp: good_path_def validate_path_def split: if_splits)

lemma resolve_path_total:
  assumes "plain_path p" and "good_path p"
  shows "resolve_path ctx p = Inr (lookup_path ctx p)"
proof -
  have "plain_path part \<and> length part \<le> 4300" if "part \<in> set (split_on (CHR ''.'') p)" for part
    using that split_on_chars [OF that] split_on_length [OF that] good_path_length [OF assms(2)] assms(1)
    by (auto simp: plain_path_def MAX_PATH_LENGTH_def)
  then obtain r where "resolve_path ctx p = Inr r"
    using resolve_parts_total by (fastforce simp: resolve_path_def)
  then show ?thesis by (simp add: lookup_path_def)
qed

lemma compare_op_spec:
  assumes "op \<in> set COMPARISON_OPS" and "value_fits op v"
  shows "compare_op (VStr op) actual v
    = Inr (case actual of None \<Rightarrow> False | Some a \<Rightarrow> compare_val op a v)"
proof -
  have iter: "op = ''in'' \<Longrightarrow> \<exists>xs. v = VList xs"
    using assms(2) by (cases v) (auto simp: value_fits_def)
  from assms(1) have "op = ''equals'' \<or> op = ''contains'' \<or> op = ''starts_with''
      \<or> op = ''matches_glob'' \<or> op \<in> set NUMERIC_OPS \<or> op = ''in''"
    by (simp add: op_lists)
  then consider "op = ''equals''" | "op = ''contains''" | "op = ''starts_with''"
    | "op = ''matches_glob''" | "op = ''in''" | "op \<in> set NUMERIC_OPS"
    by blast
  then show ?thesis
  proof cases
    case 5
    with iter show ?thesis
      by (auto simp: compare_op_def compare_val_def list_ex_iff split: option.splits)
  next
    case 6
    then have ne: "op \<noteq> ''equals''" "op \<noteq> ''in''" "op \<noteq> ''contains''" "op \<noteq> ''starts_with''"
      "op \<noteq> ''matches_glob''"
      by (auto simp: op_lists)
    from 6 assms(2) obtain y where v: "is_number v" "num_of v = Some y"
      by (cases v) (auto simp: value_fits_def is_number_def)
    show ?thesis
    proof (cases actual)
      case None
      with 6 ne show ?thesis by (simp add: compare_op_def)
    next
      case (Some a)
      show ?thesis
      proof (cases "is_number a")
        case False
        with Some 6 ne show ?thesis by (simp add: compare_op_def compare_val_def)
      next
        case True
        then obtain x where "num_of a = Some x"
          by (cases a) (auto simp: is_number_def)
        with True Some 6 ne v have "compare_op (VStr op) actual v
            = Inr (if op = ''gt'' then float_lt y x else if op = ''gte'' then float_le y x
                else if op = ''lt'' then float_lt x y else float_le x y)"
          by (simp add: compare_op_def)
        moreover have "compare_val op a v \<longleftrightarrow>
            (if op = ''gt'' then float_lt y x else if op = ''gte'' then float_le y x
                else if op = ''lt'' then float_lt x y else float_le x y)"
          using 6 ne True v \<open>num_of a = Some x\<close>
          by (simp add: compare_val_def NUMERIC_OPS_def) (elim disjE; simp)
        ultimately show ?thesis using Some by simp
      qed
    qed
  qed (auto simp: compare_op_def compare_val_def strict_equal_def list_ex_iff str_contains_sublist
      split: option.splits pyval.splits)
qed

lemma evaluate_validated:
  assumes "cond_ok c" and "\<forall>p \<in> cond_paths c. plain_path p"
  shows "evaluate_condition (cond_dict c) ctx = Inr (cond_holds (lookup_path ctx) c)"
  using assms
proof (induction c)
  case (CAll cs)
  then have "allR (\<lambda>v. evaluate_condition v ctx) (map cond_dict cs)
      = Inr (\<forall>v \<in> set (map cond_dict cs). evaluate_condition v ctx = Inr True)"
    by (intro allR_pure) auto
  with CAll show ?case
    by (subst evaluate_condition.simps) (auto simp: get_or_def dict_item_def)
next
  case (CAny cs)
  then have "anyR (\<lambda>v. evaluate_condition v ctx) (map cond_dict cs)
      = Inr (\<exists>v \<in> set (map cond_dict cs). evaluate_condition v ctx = Inr True)"
    by (intro anyR_pure) auto
  with CAny show ?case
    by (subst evaluate_condition.simps) (auto simp: get_or_def dict_item_def)
next
  case (CNot c)
  then show ?case
    by (subst evaluate_condition.simps) (auto simp: get_or_def dict_item_def)
next
  case (CExists p)
  then show ?case
    by (subst evaluate_condition.simps)
      (auto simp: get_or_def dict_item_def resolve_path_total)
next
  case (CCompare op p v)
  then have "op \<noteq> ''all''" "op \<noteq> ''any''" "op \<noteq> ''not''" "op \<noteq> ''exists''"
    by (auto simp: op_lists)
  with CCompare show ?case
    by (subst evaluate_condition.simps)
      (simp add: get_or_def dict_item_def resolve_path_total compare_op_spec)
qed

lemma evaluate_validated_error:
  assumes "cond_ok c" and "evaluate_condition (cond_dict c) ctx = Inl e"
  shows "\<exists>m. e = ValueError m"
  using assms
proof (induction c)
  case (CAll cs)
  then have "allR (\<lambda>v. evaluate_condition v ctx) (map cond_dict cs) = Inl e"
    by (subst (asm) (2) evaluate_condition.simps) (auto simp: get_or_def dict_item_def)
  with CAll show ?case by (auto dest!: allR_Inl_exn)
next
  case (CAny cs)
  then have "anyR (\<lambda>v. evaluate_condition v ctx) (map cond_dict cs) = Inl e"
    by (subst (asm) (2) evaluate_condition.simps) (auto simp: get_or_def dict_item_def)
  with CAny show ?case by (auto dest!: anyR_Inl_exn)
next
  case (CNot c)
  from CNot.prems(2) have "evaluate_condition (cond_dict c) ctx = Inl e"
    by (subst (asm) evaluate_condition.simps) (auto simp: get_or_def dict_item_def res_simps)
  with CNot show ?case by auto
next
  case (CExists p)
  then show ?case
    by (subst (asm) evaluate_condition.simps)
      (auto simp: get_or_def dict_item_def res_simps resolve_path_def dest: resolve_parts_error)
next
  case (CCompare op p v)
  then have "op \<noteq> ''all''" "op \<noteq> ''any''" "op \<noteq> ''not''" "op \<noteq> ''exists''"
    by (auto simp: op_lists)
  with CCompare show ?case
    by (subst (asm) evaluate_condition.simps)
      (auto simp: get_or_def dict_item_def res_simps resolve_path_def compare_op_spec
        dest: resolve_parts_error)
qed

subsection \<open>Properties\<close>

text \<open>
  What validation accepts is a normal form.  A validated condition is the dictionary of a
  syntax tree whose paths and values fit their operators, with at most 512 nodes, none more
  than 32 levels deep, and a canonical text of at most 65536 bytes.
\<close>
theorem validated_condition_shape:
  assumes "validate_condition rt raw = Inr w"
  shows "\<exists>c. w = cond_dict c \<and> cond_ok c \<and> cond_nodes c \<le> 512 \<and> cond_within 32 c
    \<and> utf8_length (json_dumps rt w) \<le> 65536"
  using assms
  by (elim validate_condition_sound)
    (auto simp: MAX_CONDITION_NODES_def MAX_CONDITION_DEPTH_def MAX_CONDITION_BYTES_def)

definition sample_condition :: cond where
  "sample_condition = CAll [CExists ''page.url'', CNot (CCompare ''equals'' ''event.name'' (VStr ''buy''))]"

lemma sample_condition_valid:
  "validate_condition witness_runtime (cond_dict sample_condition) = Inr (cond_dict sample_condition)"
proof (rule validate_condition_complete)
  show "cond_ok sample_condition"
    by (simp add: sample_condition_def good_path_def validate_path_def unsafe_segment_def
      value_fits_def op_lists ALLOWED_NAMESPACES_def MAX_PATH_LENGTH_def is_alnum_def
      is_lower_latin_def is_upper_latin_def is_digit_def is_decimal_def)
qed (simp_all add: sample_condition_def json_str_def json_char_def utf8_length_def
    MAX_CONDITION_NODES_def MAX_CONDITION_DEPTH_def MAX_CONDITION_BYTES_def)

theorem validated_condition_shape_witness:
  "\<exists>c. cond_dict sample_condition = cond_dict c \<and> cond_ok c \<and> cond_nodes c \<le> 512
    \<and> cond_within 32 c
    \<and> utf8_length (json_dumps witness_runtime (cond_dict sample_condition)) \<le> 65536"
  by (rule validated_condition_shape [OF sample_condition_valid])

text \<open>
  Validation is idempotent: the normal form it returns passes validation again, unchanged,
  so a condition that was stored can be read back.
\<close>
theorem validate_condition_idempotent:
  assumes "validate_condition rt raw = Inr w"
  shows "validate_condition rt w = Inr w"
  using assms by (rule validate_condition_fixed)

theorem validate_condition_idempotent_witness:
  "validate_condition witness_runtime (cond_dict sample_condition) = Inr (cond_dict sample_condition)"
  by (rule validate_condition_idempotent [OF sample_condition_valid])

text \<open>
  C31: evaluation of a validated condition.  It computes the truth of the tree (a missing value
  makes every comparison false) whenever the digits in its paths are decimal digits, and the
  only exception it can raise otherwise is a \<open>ValueError\<close>.
\<close>
theorem validated_condition_meaning:
  assumes "validate_condition rt raw = Inr w"
  shows "\<exists>c. w = cond_dict c
    \<and> ((\<forall>p \<in> cond_paths c. plain_path p) \<longrightarrow>
         (\<forall>ctx. evaluate_condition w ctx = Inr (cond_holds (lookup_path ctx) c)))
    \<and> (\<forall>ctx e. evaluate_condition w ctx = Inl e \<longrightarrow> (\<exists>m. e = ValueError m))"
  using assms
  by (elim validate_condition_sound) (metis evaluate_validated evaluate_validated_error)

theorem validated_condition_meaning_witness:
  "\<exists>c. cond_dict sample_condition = cond_dict c
    \<and> ((\<forall>p \<in> cond_paths c. plain_path p) \<longrightarrow>
         (\<forall>ctx. evaluate_condition (cond_dict sample_condition) ctx = Inr (cond_holds (lookup_path ctx) c)))
    \<and> (\<forall>ctx e. evaluate_condition (cond_dict sample_condition) ctx = Inl e
         \<longrightarrow> (\<exists>m. e = ValueError m))"
  by (rule validated_condition_meaning [OF sample_condition_valid])

text \<open>
  C40: the wildcard matcher with its single backtrack point agrees with the recursive meaning of
  \<open>*\<close> and \<open>?\<close> on every value that contains no \<open>*\<close>.
\<close>
theorem pattern_matches_correct:
  assumes "CHR ''*'' \<notin> set value"
  shows "pattern_matches pat value \<longleftrightarrow> glob pat value"
  using assms by (rule pattern_matches_glob)

theorem pattern_matches_correct_witness:
  "pattern_matches ''/p*/?'' ''/products/7'' \<longleftrightarrow> glob ''/p*/?'' ''/products/7''"
  by (rule pattern_matches_correct) simp

text \<open>
  On values that contain \<open>*\<close> the matcher is wrong.  The comparison with the literal
  character comes before the test for the wildcard, so a star in the pattern that meets a star in
  the value is consumed as a literal: the pattern \<open>*\<close> does not match \<open>*a\<close>, and a
  \<open>matches_glob\<close> condition on it is false.
\<close>
theorem pattern_star_against_star:
  "glob ''*'' ''*a'' \<and> \<not> pattern_matches ''*'' ''*a''
    \<and> evaluate_condition (cond_dict (CCompare ''matches_glob'' ''event.name'' (VStr ''*'')))
        (VDict [(''event'', VDict [(''name'', VStr ''*a'')])]) = Inr False"
  using pattern_matches_star_value
  by (subst evaluate_condition.simps)
    (simp add: get_or_def dict_item_def resolve_path_def compare_op_def)

text \<open>
  \<open>isdigit\<close> against \<open>int\<close>.  Validation accepts a path segment made of a superscript digit,
  and evaluation of that condition raises \<open>ValueError\<close> as soon as the path reaches a list.
\<close>
theorem superscript_segment_raises:
  defines "p \<equiv> ''event.items.'' @ [CHR 0xB2]"
  shows "validate_path (VStr p) = Inr p
    \<and> evaluate_condition (cond_dict (CExists p))
        (VDict [(''event'', VDict [(''items'', VList [VInt 1])])])
      = Inl (ValueError (''invalid literal for int() with base 10: '' @ repr_str [CHR 0xB2]))"
  unfolding p_def
  by (subst evaluate_condition.simps)
    (simp add: get_or_def dict_item_def resolve_path_def isdigit_str_def int_of_digits_def
      is_digit_def is_decimal_def validate_path_def unsafe_segment_def ALLOWED_NAMESPACES_def
      MAX_PATH_LENGTH_def is_alnum_def is_lower_latin_def is_upper_latin_def)

text \<open>
  Equality in conditions is strict about types at the top level only.  A boolean never
  equals a number, but inside a list Python's own equality takes over and \<open>[True]\<close> equals \<open>[1]\<close>.
\<close>
theorem strict_equal_is_shallow:
  "\<not> strict_equal (Some (VBool b)) (VInt i) \<and> \<not> strict_equal (Some (VInt i)) (VBool b)
    \<and> strict_equal (Some (VList [VBool True])) (VList [VInt 1])"
  by (simp add: strict_equal_def is_bool_def is_number_def)

end
