(* ===== verification/Ids.thy ===== *)
theory Ids
  imports PyValue
begin

section \<open>Identifiers and names (control/ids.py)\<close>

text \<open>
  Opaque UUIDs, user-supplied container ids (case-insensitive), human-readable names, and the
  directory name the store derives from a container id.  The validators take any value, since
  the code calls them on fields of untrusted documents; their messages quote it.
\<close>

definition MAX_CONTAINER_ID_LENGTH :: nat where "MAX_CONTAINER_ID_LENGTH = 128"
definition MAX_NAME_LENGTH :: nat where "MAX_NAME_LENGTH = 200"

definition is_lower_hex :: "char \<Rightarrow> bool" where
  "is_lower_hex c \<longleftrightarrow> is_decimal c \<or> c \<in> set ''abcdef''"

definition is_ascii_letter :: "char \<Rightarrow> bool" where
  "is_ascii_letter c \<longleftrightarrow> 65 \<le> code c \<and> code c \<le> (90::nat) \<or> 97 \<le> code c \<and> code c \<le> (122::nat)"

text \<open>\<open>_UUID_RE\<close>: 8-4-4-4-12 lowercase hexadecimal digits, version 1 to 5, variant 8 to b.\<close>

definition is_uuid :: "string \<Rightarrow> bool" where
  "is_uuid s \<longleftrightarrow> (case split_on (CHR ''-'') s of
     [a, b, c, d, e] \<Rightarrow>
       length a = 8 \<and> length b = 4 \<and> length c = 4 \<and> length d = 4 \<and> length e = 12
       \<and> list_all is_lower_hex (a @ b @ c @ d @ e)
       \<and> hd c \<in> set ''12345'' \<and> hd d \<in> set ''89ab''
   | _ \<Rightarrow> False)"

definition validate_id :: "py_runtime \<Rightarrow> pyval \<Rightarrow> string \<Rightarrow> string res" where
  "validate_id rt val field = (case val of
     VStr s \<Rightarrow> if is_uuid s then Inr s
       else Inl (ValidationError (field @ '' must be a lowercase UUID, got '' @ py_repr rt val))
   | _ \<Rightarrow> Inl (ValidationError (field @ '' must be a lowercase UUID, got '' @ py_repr rt val)))"

text \<open>\<open>_CONTAINER_ID_RE\<close>.\<close>

definition container_id_char :: "char \<Rightarrow> bool" where
  "container_id_char c \<longleftrightarrow> is_ascii_letter c \<or> is_decimal c \<or> c \<in> set ''._:-''"

definition container_id_shape :: "string \<Rightarrow> bool" where
  "container_id_shape s \<longleftrightarrow> (case s of [] \<Rightarrow> False
     | c # rest \<Rightarrow> (is_ascii_letter c \<or> is_decimal c) \<and> list_all container_id_char rest
         \<and> length rest \<le> 127)"

definition validate_container_id :: "pyval \<Rightarrow> string res" where
  "validate_container_id val = (case val of
     VStr s \<Rightarrow>
       if s = [] \<or> length s > MAX_CONTAINER_ID_LENGTH
       then Inl (ValidationError (''container_id must be 1-128 characters, got '' @ repr_str s))
       else if \<not> container_id_shape s
       then Inl (ValidationError (''container_id must start with a letter or digit and contain only ''
         @ ''letters, digits, '' @ repr_str ''.'' @ '', '' @ repr_str ''_'' @ '', '' @ repr_str '':''
         @ '', or '' @ repr_str ''-''))
       else Inr s
   | _ \<Rightarrow> Inl (ValidationError (''container_id must be a string, got '' @ type_name val)))"

definition normalize_container_id :: "pyval \<Rightarrow> string res" where
  "normalize_container_id val = bindR (validate_container_id val) (\<lambda>s. Inr (py_casefold s))"

text \<open>\<open>_NAME_CONTROL_RE\<close> and \<open>validate_name\<close>.\<close>

definition is_control :: "char \<Rightarrow> bool" where
  "is_control c \<longleftrightarrow> code c < (32::nat) \<or> code c = (127::nat)"

definition validate_name :: "pyval \<Rightarrow> string res" where
  "validate_name val = (case val of
     VStr s \<Rightarrow>
       if s = [] \<or> length s > MAX_NAME_LENGTH
       then Inl (ValidationError ''name must be 1-200 characters'')
       else if s \<noteq> py_strip s
       then Inl (ValidationError ''name must not have leading or trailing whitespace'')
       else if list_ex is_control s
       then Inl (ValidationError ''name must not contain control characters'')
       else Inr s
   | _ \<Rightarrow> Inl (ValidationError (''name must be a string, got '' @ type_name val)))"

text \<open>
  \<open>_SLUG_RE.sub("-", s)\<close>: every run of characters outside \<open>[a-z0-9]\<close> becomes one hyphen.
\<close>

definition slug_char :: "char \<Rightarrow> bool" where
  "slug_char c \<longleftrightarrow> 97 \<le> code c \<and> code c \<le> (122::nat) \<or> is_decimal c"

fun slug_sub :: "bool \<Rightarrow> string \<Rightarrow> string" where
  "slug_sub in_run [] = []"
| "slug_sub in_run (c # s) =
     (if slug_char c then c # slug_sub False s
      else if in_run then slug_sub True s
      else CHR ''-'' # slug_sub True s)"

definition strip_hyphens :: "string \<Rightarrow> string" where
  "strip_hyphens s = rev (dropWhile (\<lambda>c. c = CHR ''-'') (rev (dropWhile (\<lambda>c. c = CHR ''-'') s)))"

definition container_storage_key :: "py_runtime \<Rightarrow> pyval \<Rightarrow> pyval \<Rightarrow> string res" where
  "container_storage_key rt org_id container_id =
     bindR (validate_id rt org_id ''org_id'') (\<lambda>org.
     bindR (normalize_container_id container_id) (\<lambda>normalized.
       let digest = take 24 (sha256_hex rt (org @ [CHR 0x00] @ normalized));
           slug = take 32 (strip_hyphens (slug_sub False normalized))
       in Inr ((if slug = [] then ''container'' else slug) @ ''-'' @ digest)))"

subsection \<open>Laws\<close>

lemma validate_id_Inr [res_simps]:
  "validate_id rt v f = Inr s \<longleftrightarrow> v = VStr s \<and> is_uuid s"
  by (auto simp: validate_id_def split: pyval.splits if_splits)

lemma validate_id_ok [simp]: "is_uuid s \<Longrightarrow> validate_id rt (VStr s) f = Inr s"
  by (simp add: validate_id_Inr)

lemma validate_id_error: "validate_id rt v f = Inl e \<Longrightarrow> \<exists>m. e = ValidationError m"
  by (auto simp: validate_id_def split: pyval.splits if_splits)

definition good_container_id :: "string \<Rightarrow> bool" where
  "good_container_id s \<longleftrightarrow> validate_container_id (VStr s) = Inr s"

definition good_name :: "string \<Rightarrow> bool" where
  "good_name s \<longleftrightarrow> validate_name (VStr s) = Inr s"

lemma validate_container_id_Inr [res_simps]:
  "validate_container_id v = Inr s \<longleftrightarrow> v = VStr s \<and> good_container_id s"
  by (auto simp: validate_container_id_def good_container_id_def split: pyval.splits if_splits)

lemma validate_name_Inr [res_simps]: "validate_name v = Inr s \<longleftrightarrow> v = VStr s \<and> good_name s"
  by (auto simp: validate_name_def good_name_def split: pyval.splits if_splits)

lemma validate_name_ok [simp]: "good_name s \<Longrightarrow> validate_name (VStr s) = Inr s"
  by (simp add: validate_name_Inr)

lemma validate_container_id_ok [simp]:
  "good_container_id s \<Longrightarrow> validate_container_id (VStr s) = Inr s"
  by (simp add: validate_container_id_Inr)

lemma good_container_id_iff: "good_container_id s \<longleftrightarrow> length s \<le> 128 \<and> container_id_shape s"
  by (auto simp: good_container_id_def validate_container_id_def MAX_CONTAINER_ID_LENGTH_def
      container_id_shape_def)

lemma container_id_chars:
  "container_id_shape s \<Longrightarrow> c \<in> set s \<Longrightarrow> container_id_char c"
  by (auto simp: container_id_shape_def container_id_char_def list_all_iff split: list.splits)

lemma slug_sub_chars: "c \<in> set (slug_sub b s) \<Longrightarrow> slug_char c \<or> c = CHR ''-''"
  by (induction b s rule: slug_sub.induct) (auto split: if_splits)

lemma strip_hyphens_subset: "set (strip_hyphens s) \<subseteq> set s"
  unfolding strip_hyphens_def by (auto dest!: set_dropWhileD)

lemma prefix_same_hd: "prefix a b \<Longrightarrow> a \<noteq> [] \<Longrightarrow> b \<noteq> [] \<and> hd a = hd b"
  by (auto simp: prefix_def)

subsection \<open>Properties\<close>

text \<open>
  The directory name derived from a container id is safe whatever the id: it is made of
  lowercase letters, digits and hyphens only (no separator, no dot), it starts with a character
  other than a hyphen, and it is at most 57 characters long.  SHA-256 is taken to return
  hexadecimal digits.
\<close>
theorem container_storage_key_safe:
  assumes "container_storage_key rt org cid = Inr key"
    and "\<And>s. list_all is_lower_hex (sha256_hex rt s)"
  shows "list_all (\<lambda>c. slug_char c \<or> c = CHR ''-'') key \<and> key \<noteq> [] \<and> hd key \<noteq> CHR ''-''
    \<and> length key \<le> 57"
proof -
  from assms(1) obtain o' n where key: "key =
      (if take 32 (strip_hyphens (slug_sub False n)) = [] then ''container''
       else take 32 (strip_hyphens (slug_sub False n))) @ ''-''
      @ take 24 (sha256_hex rt (o' @ [CHR 0x00] @ n))" (is "_ = (if ?slug = [] then _ else _) @ _ @ ?d")
    by (auto simp: container_storage_key_def res_simps Let_def)
  have slug: "slug_char c \<or> c = CHR ''-''" if "c \<in> set ?slug" for c
    using that strip_hyphens_subset slug_sub_chars by (blast dest: in_set_takeD)
  have hex: "slug_char c" if "c \<in> set ?d" for c
    using that assms(2) [of "o' @ [CHR 0x00] @ n"]
    by (auto dest!: in_set_takeD simp: list_all_iff is_lower_hex_def slug_char_def)
  have first: "hd ?slug \<noteq> CHR ''-''" if "?slug \<noteq> []"
  proof -
    let ?p = "\<lambda>c. c = CHR ''-''"
    let ?t = "dropWhile ?p (slug_sub False n)"
    have "strip_hyphens (slug_sub False n) \<noteq> []" using that by auto
    have "prefix (rev (dropWhile ?p (rev ?t))) (rev (rev ?t))"
      by (rule suffix_to_prefix [THEN iffD1, OF suffix_dropWhile])
    then have pre: "prefix (strip_hyphens (slug_sub False n)) ?t"
      unfolding strip_hyphens_def rev_rev_ident .
    from prefix_same_hd [OF pre \<open>strip_hyphens _ \<noteq> []\<close>]
    have "?t \<noteq> []" and "hd (strip_hyphens (slug_sub False n)) = hd ?t" by blast+
    moreover have "\<not> ?p (hd ?t)" using \<open>?t \<noteq> []\<close> by (rule hd_dropWhile)
    ultimately show ?thesis using that by (simp add: hd_take)
  qed
  show ?thesis
    using slug hex first
    by (auto simp: key list_all_iff slug_char_def)
qed

theorem container_storage_key_safe_witness:
  "list_all (\<lambda>c. slug_char c \<or> c = CHR ''-'') ''gtm-abc1-'' \<and> ''gtm-abc1-'' \<noteq> []
    \<and> hd ''gtm-abc1-'' \<noteq> CHR ''-'' \<and> length ''gtm-abc1-'' \<le> 57"
proof -
  let ?rt = "witness_runtime\<lparr>sha256_hex := \<lambda>_. []\<rparr>"
  have "container_storage_key ?rt (VStr ''00000000-0000-4000-8000-000000000000'') (VStr ''gtm-abc1'')
      = Inr ''gtm-abc1-''"
    by (simp add: container_storage_key_def validate_id_def is_uuid_def is_lower_hex_def
      is_decimal_def normalize_container_id_def validate_container_id_def container_id_shape_def
      container_id_char_def is_ascii_letter_def MAX_CONTAINER_ID_LENGTH_def py_casefold_def
      lower_char_def is_upper_latin_def slug_char_def strip_hyphens_def Let_def)
  then show ?thesis
    using container_storage_key_safe [of ?rt _ _ "''gtm-abc1-''"] by simp
qed

end
