(* ===== verification/Expressions.thy ===== *)
theory Expressions
  imports Conditions Ids
begin

section \<open>Computed-variable expressions (control/expressions.py)\<close>

text \<open>
  Validation and evaluation of the declarative expressions behind computed variables.  The
  resolver the evaluator calls back keeps a cache, so evaluation threads a state \<open>'s\<close> through
  every call; a value of type \<^typ>\<open>pyval option\<close> is a value or the sentinel \<open>MISSING\<close>.
\<close>

subsection \<open>Validation\<close>

definition MAX_EXPRESSION_DEPTH :: nat where "MAX_EXPRESSION_DEPTH = 16"
definition MAX_EXPRESSION_NODES :: nat where "MAX_EXPRESSION_NODES = 128"
definition MAX_EXPRESSION_BYTES :: nat where "MAX_EXPRESSION_BYTES = 32768"

definition UNARY_OPS :: "string list" where
  "UNARY_OPS = [''to_number'', ''to_string'', ''to_boolean'', ''json_parse'', ''length'']"

text \<open>\<open>_depth\<close>: how deep lists and objects nest.\<close>

fun value_depth :: "pyval \<Rightarrow> nat \<Rightarrow> nat" where
  "value_depth (VDict d) current = fold max (map (\<lambda>p. value_depth (snd p) (current + 1)) d) current"
| "value_depth (VList xs) current = fold max (map (\<lambda>x. value_depth x (current + 1)) xs) current"
| "value_depth _ current = current"

text \<open>\<open>_validate\<close>, with the node counter threaded as in the condition validator.\<close>

function validate_expr_node :: "py_runtime \<Rightarrow> pyval \<Rightarrow> nat \<Rightarrow> nat \<Rightarrow> (pyval \<times> nat) res"
  and validate_expr_nodes :: "py_runtime \<Rightarrow> pyval list \<Rightarrow> nat \<Rightarrow> nat \<Rightarrow> (pyval list \<times> nat) res" where
  "validate_expr_node rt v depth n =
     (if n + 1 > MAX_EXPRESSION_NODES
      then Inl (ValidationError ''computed expression exceeds the node limit'')
      else if depth > MAX_EXPRESSION_DEPTH
      then Inl (ValidationError ''computed expression exceeds the depth limit'')
      else (case v of
        VDict d \<Rightarrow> (case map_of d ''op'' of
          Some (VStr op) \<Rightarrow>
            if op = []
            then Inl (ValidationError (''computed expression is missing a valid '' @ repr_str ''op''))
            else if op = ''literal'' then
              bindR (check_keys d [''op'', ''value''] ''computed expression'') (\<lambda>_.
              bindR (dict_item d ''value'') (\<lambda>lit.
              bindR (canonical_json rt lit) (\<lambda>_.
                Inr (VDict [(''op'', VStr ''literal''), (''value'', lit)], n + 1))))
            else if op = ''variable'' then
              bindR (check_keys d [''op'', ''id''] ''computed expression'') (\<lambda>_.
              bindR (dict_item d ''id'') (\<lambda>i.
              bindR (validate_id rt i ''variable id'') (\<lambda>vid.
                Inr (VDict [(''op'', VStr ''variable''), (''id'', VStr vid)], n + 1))))
            else if op = ''coalesce'' \<or> op = ''concat'' then
              bindR (check_keys d [''op'', ''args''] ''computed expression'') (\<lambda>_.
              bindR (dict_item d ''args'') (\<lambda>args.
                case args of
                  VList es \<Rightarrow>
                    if es = [] then Inl (ValidationError
                      (''computed '' @ repr_str op @ '' requires a non-empty args list''))
                    else if length es > 64 then Inl (ValidationError
                      (''computed '' @ repr_str op @ '' exceeds the argument limit''))
                    else bindR (validate_expr_nodes rt es (depth + 1) (n + 1)) (\<lambda>(es', n').
                      Inr (VDict [(''op'', VStr op), (''args'', VList es')], n'))
                | _ \<Rightarrow> Inl (ValidationError
                      (''computed '' @ repr_str op @ '' requires a non-empty args list''))))
            else if op \<in> set UNARY_OPS then
              bindR (check_keys d [''op'', ''arg''] ''computed expression'') (\<lambda>_.
              bindR (dict_item d ''arg'') (\<lambda>arg.
              bindR (validate_expr_node rt arg (depth + 1) (n + 1)) (\<lambda>(arg', n').
                Inr (VDict [(''op'', VStr op), (''arg'', arg')], n'))))
            else Inl (ValidationError (''unsupported computed expression op: '' @ repr_str op))
        | _ \<Rightarrow> Inl (ValidationError (''computed expression is missing a valid '' @ repr_str ''op'')))
      | _ \<Rightarrow> Inl (ValidationError ''computed expression nodes must be objects'')))"
| "validate_expr_nodes rt [] depth n = Inr ([], n)"
| "validate_expr_nodes rt (e # es) depth n =
     bindR (validate_expr_node rt e depth n) (\<lambda>(e', n').
     bindR (validate_expr_nodes rt es depth n') (\<lambda>(es', n'').
       Inr (e' # es', n'')))"
  by pat_completeness auto
termination
  by (relation "measure (\<lambda>x. case x of Inl (_, v, _) \<Rightarrow> 2 * size v
        | Inr (_, vs, _) \<Rightarrow> 2 * size_list size vs + 1)")
    (simp_all only: wf_measure in_measure prod.case sum.case,
      (erule size_dict_item_twice | simp)+)

declare validate_expr_node.simps [simp del]

definition validate_expression :: "py_runtime \<Rightarrow> pyval \<Rightarrow> pyval res" where
  "validate_expression rt v = bindR (validate_expr_node rt v 0 0) (\<lambda>(normalized, _).
     if value_depth normalized 0 > MAX_EXPRESSION_DEPTH
     then Inl (ValidationError ''computed expression exceeds the depth limit'')
     else bindR (canonical_json rt normalized) (\<lambda>text.
       if utf8_length text > MAX_EXPRESSION_BYTES
       then Inl (ValidationError ''computed expression exceeds the size limit'')
       else Inr normalized))"

text \<open>\<open>iter_variable_ids\<close>, in the order the generator yields.\<close>

fun iter_variable_ids :: "pyval \<Rightarrow> string list" where
  "iter_variable_ids (VDict d) =
     (case (map_of d ''op'', map_of d ''id'') of
        (Some (VStr op), Some (VStr i)) \<Rightarrow> if op = ''variable'' then [i] else []
      | _ \<Rightarrow> [])
     @ concat (map (\<lambda>p. if fst p = ''arg'' then iter_variable_ids (snd p) else []) d)
     @ concat (map (\<lambda>p. if fst p = ''args''
         then (case snd p of VList xs \<Rightarrow> concat (map iter_variable_ids xs) | _ \<Rightarrow> []) else []) d)"
| "iter_variable_ids _ = []"

subsection \<open>Evaluation\<close>

text \<open>A step that may fail and threads a state.\<close>

definition bindS :: "('a res \<times> 's) \<Rightarrow> ('a \<Rightarrow> 's \<Rightarrow> 'b res \<times> 's) \<Rightarrow> 'b res \<times> 's" where
  "bindS m f = (case m of (Inl e, s) \<Rightarrow> (Inl e, s) | (Inr x, s) \<Rightarrow> f x s)"

lemma bindS_simps [simp]:
  "bindS (Inl e, s) f = (Inl e, s)"
  "bindS (Inr x, s) f = f x s"
  by (simp_all add: bindS_def)

lemma bindS_cong [fundef_cong]:
  "m = m' \<Longrightarrow> (\<And>x s. m' = (Inr x, s) \<Longrightarrow> f x s = g x s) \<Longrightarrow> bindS m f = bindS m' g"
  by (auto simp: bindS_def split: prod.splits sum.splits)

definition value_type_name :: "pyval option \<Rightarrow> string" where
  "value_type_name v = (case v of None \<Rightarrow> ''object'' | Some w \<Rightarrow> type_name w)"

definition value_repr :: "py_runtime \<Rightarrow> pyval option \<Rightarrow> string" where
  "value_repr rt v = (case v of None \<Rightarrow> ''<object object>'' | Some w \<Rightarrow> py_repr rt w)"

text \<open>\<open>_number\<close>.\<close>

definition check_number :: "pyval option \<Rightarrow> string \<Rightarrow> pyval res" where
  "check_number v op = (case v of
     Some (VInt i) \<Rightarrow> Inr (VInt i)
   | Some (VFloat f) \<Rightarrow>
       if \<not> is_finite f then Inl (ExpressionError (op @ '' received a non-finite number''))
       else Inr (VFloat f)
   | _ \<Rightarrow> Inl (ExpressionError (op @ '' requires a number, got '' @ value_type_name v)))"

text \<open>\<open>_INTEGER_RE\<close>, and \<open>int\<close> of a text that matches it.\<close>

definition integer_text :: "string \<Rightarrow> bool" where
  "integer_text s \<longleftrightarrow> (case s of [] \<Rightarrow> False
     | c # rest \<Rightarrow> if c \<in> set ''+-'' then rest \<noteq> [] \<and> list_all is_decimal rest
         else list_all is_decimal s)"

definition int_of_text :: "string \<Rightarrow> int res" where
  "int_of_text s =
     (let digits = (if hd s \<in> set ''+-'' then tl s else s);
          m = int (digits_value digits)
      in if length digits > 4300
         then Inl (ValueError ''Exceeds the limit (4300 digits) for integer string conversion'')
         else Inr (if hd s = CHR ''-'' then - m else m))"

definition to_number :: "py_runtime \<Rightarrow> pyval option \<Rightarrow> pyval option res" where
  "to_number rt v = (case v of
     None \<Rightarrow> Inl (ExpressionError ''to_number requires a numeric value'')
   | Some VNone \<Rightarrow> Inl (ExpressionError ''to_number requires a numeric value'')
   | Some (VBool _) \<Rightarrow> Inl (ExpressionError ''to_number requires a numeric value'')
   | Some (VStr s) \<Rightarrow>
       (let raw = py_strip s in
        if integer_text raw then bindR (int_of_text raw) (\<lambda>i. Inr (Some (VInt i)))
        else (case float_of_text rt raw of
            None \<Rightarrow> Inl (ExpressionError (''cannot convert '' @ repr_str s @ '' to a number''))
          | Some f \<Rightarrow> bindR (check_number (Some (VFloat f)) ''to_number'') (\<lambda>w. Inr (Some w))))
   | Some w \<Rightarrow>
       if is_number w then bindR (check_number v ''to_number'') (\<lambda>w'. Inr (Some w'))
       else Inl (ExpressionError (''cannot convert '' @ type_name w @ '' to a number'')))"

definition to_string :: "py_runtime \<Rightarrow> pyval option \<Rightarrow> pyval option res" where
  "to_string rt v = (case v of
     None \<Rightarrow> Inl (ExpressionError ''to_string requires a non-missing value'')
   | Some VNone \<Rightarrow> Inl (ExpressionError ''to_string requires a non-missing value'')
   | Some (VStr s) \<Rightarrow> Inr (Some (VStr s))
   | Some (VBool b) \<Rightarrow> Inr (Some (VStr (if b then ''true'' else ''false'')))
   | Some w \<Rightarrow>
       if is_number w
       then bindR (check_number v ''to_string'') (\<lambda>w'. Inr (Some (VStr (py_repr rt w'))))
       else Inl (ExpressionError (''cannot convert '' @ type_name w @ '' to a string'')))"

definition to_boolean :: "py_runtime \<Rightarrow> pyval option \<Rightarrow> pyval option res" where
  "to_boolean rt v =
     (let fail = Inl (ExpressionError (''cannot convert '' @ value_repr rt v @ '' to a boolean''))
      in case v of
        None \<Rightarrow> fail
      | Some (VBool b) \<Rightarrow> Inr (Some (VBool b))
      | Some w \<Rightarrow>
          if py_eq w (VInt 1) \<or> py_eq w (VInt 0) then Inr (Some (VBool (truthy w)))
          else (case w of
              VStr s \<Rightarrow>
                (let lowered = py_lower (py_strip s) in
                 if lowered = ''true'' then Inr (Some (VBool True))
                 else if lowered = ''false'' then Inr (Some (VBool False))
                 else fail)
            | _ \<Rightarrow> fail))"

definition json_parse :: "py_runtime \<Rightarrow> pyval option \<Rightarrow> pyval option res" where
  "json_parse rt v = (case v of
     Some (VStr s) \<Rightarrow> (case json_loads rt s of
         Inl msg \<Rightarrow> Inl (ExpressionError (''json_parse failed: '' @ msg))
       | Inr w \<Rightarrow> Inr (Some w))
   | _ \<Rightarrow> Inl (ExpressionError ''json_parse requires a string''))"

definition value_length :: "pyval option \<Rightarrow> pyval option res" where
  "value_length v = (case v of
     Some (VStr s) \<Rightarrow> Inr (Some (VInt (int (length s))))
   | Some (VList xs) \<Rightarrow> Inr (Some (VInt (int (length xs))))
   | Some (VDict d) \<Rightarrow> Inr (Some (VInt (int (length d))))
   | _ \<Rightarrow> Inl (ExpressionError ''length requires a string, list, or object''))"

definition unary_op :: "py_runtime \<Rightarrow> string \<Rightarrow> pyval option \<Rightarrow> pyval option res" where
  "unary_op rt op v =
     (if op = ''to_number'' then to_number rt v
      else if op = ''to_string'' then to_string rt v
      else if op = ''to_boolean'' then to_boolean rt v
      else if op = ''json_parse'' then json_parse rt v
      else value_length v)"

text \<open>The nodes an \<open>args\<close> field holds; evaluating a node that is no object fails at once.\<close>

fun iter_nodes :: "pyval \<Rightarrow> pyval list res" where
  "iter_nodes (VList xs) = Inr xs"
| "iter_nodes (VStr s) =
     (if s = [] then Inr [] else Inl (AttributeError ''str object has no attribute get''))"
| "iter_nodes (VDict d) =
     (if d = [] then Inr [] else Inl (AttributeError ''str object has no attribute get''))"
| "iter_nodes v = Inl (TypeError (type_name v @ '' object is not iterable''))"

lemma size_iter_nodes: "iter_nodes v = Inr xs \<Longrightarrow> size_list size xs \<le> size v"
  by (cases v) (auto split: if_splits)

text \<open>\<open>concat\<close> of the argument values.\<close>

definition concat_values :: "pyval option list \<Rightarrow> pyval option res" where
  "concat_values vs =
     (if list_ex (\<lambda>v. case v of Some (VStr _) \<Rightarrow> False | _ \<Rightarrow> True) vs
      then Inl (ExpressionError ''concat requires non-missing string arguments'')
      else Inr (Some (VStr (concat (map (\<lambda>v. case v of Some (VStr s) \<Rightarrow> s | _ \<Rightarrow> []) vs)))))"

text \<open>\<open>evaluate_expression\<close>, its \<open>coalesce\<close> loop and its argument list.\<close>

function evaluate_expression ::
    "py_runtime \<Rightarrow> (string \<Rightarrow> 's \<Rightarrow> pyval option res \<times> 's) \<Rightarrow> pyval \<Rightarrow> 's \<Rightarrow> pyval option res \<times> 's"
  and coalesce_args ::
    "py_runtime \<Rightarrow> (string \<Rightarrow> 's \<Rightarrow> pyval option res \<times> 's) \<Rightarrow> pyval list \<Rightarrow> 's \<Rightarrow> pyval option res \<times> 's"
  and evaluate_args ::
    "py_runtime \<Rightarrow> (string \<Rightarrow> 's \<Rightarrow> pyval option res \<times> 's) \<Rightarrow> pyval list \<Rightarrow> 's \<Rightarrow> pyval option list res \<times> 's"
where
  "evaluate_expression rt rv e s = (case e of
     VDict d \<Rightarrow>
       (let op = get_or d ''op'' VNone in
        if op = VStr ''literal'' then (Inr (Some (get_or d ''value'' VNone)), s)
        else if op = VStr ''variable'' then
          bindS (dict_item d ''id'', s) (\<lambda>i s'. case i of
              VStr vid \<Rightarrow> rv vid s'
            | _ \<Rightarrow> (Inl (TypeError ''variable id''), s'))
        else if op = VStr ''coalesce'' then
          bindS (bindR (dict_item d ''args'') iter_nodes, s) (\<lambda>es s'. coalesce_args rt rv es s')
        else if op = VStr ''concat'' then
          bindS (bindR (dict_item d ''args'') iter_nodes, s) (\<lambda>es s'.
            bindS (evaluate_args rt rv es s') (\<lambda>vs s''. (concat_values vs, s'')))
        else (case op of
            VStr op' \<Rightarrow>
              if op' \<in> set UNARY_OPS then
                bindS (dict_item d ''arg'', s) (\<lambda>arg s'.
                  bindS (evaluate_expression rt rv arg s') (\<lambda>v s''. (unary_op rt op' v, s'')))
              else (Inl (ExpressionError (''unsupported computed expression op: '' @ repr_str op')), s)
          | _ \<Rightarrow> (Inl (ExpressionError (''unsupported computed expression op: '' @ py_repr rt op)), s)))
   | _ \<Rightarrow> (Inl (AttributeError (type_name e @ '' object has no attribute '' @ repr_str ''get'')), s))"
| "coalesce_args rt rv [] s = (Inr None, s)"
| "coalesce_args rt rv (e # es) s =
     bindS (evaluate_expression rt rv e s) (\<lambda>v s'.
       if v \<noteq> None \<and> v \<noteq> Some VNone then (Inr v, s') else coalesce_args rt rv es s')"
| "evaluate_args rt rv [] s = (Inr [], s)"
| "evaluate_args rt rv (e # es) s =
     bindS (evaluate_expression rt rv e s) (\<lambda>v s'.
       bindS (evaluate_args rt rv es s') (\<lambda>vs s''. (Inr (v # vs), s'')))"
  by pat_completeness auto
termination
  by (relation "measure (\<lambda>x. case x of Inl (_, _, v, _) \<Rightarrow> 2 * size v
        | Inr (Inl (_, _, vs, _)) \<Rightarrow> 2 * size_list size vs + 1
        | Inr (Inr (_, _, vs, _)) \<Rightarrow> 2 * size_list size vs + 1)")
    (auto simp: bindR_Inr_iff dest!: size_dict_item size_iter_nodes)

declare evaluate_expression.simps [simp del]

lemma evaluate_expression_cong [fundef_cong]:
  assumes "e = e'" and "s = s'" and "\<And>i t. rv i t = rv' i t"
  shows "evaluate_expression rt rv e s = evaluate_expression rt rv' e' s'"
proof -
  have "rv = rv'" using assms(3) by (intro ext)
  with assms show ?thesis by simp
qed

subsection \<open>Laws of validation\<close>

lemma validate_expr_node_object:
  assumes "validate_expr_node rt v depth n = Inr r"
  shows "n + 1 \<le> MAX_EXPRESSION_NODES \<and> depth \<le> MAX_EXPRESSION_DEPTH \<and>
    (\<exists>d op. v = VDict d \<and> map_of d ''op'' = Some (VStr op) \<and> op \<noteq> [] \<and>
      (op = ''literal'' \<or> op = ''variable'' \<or> op = ''coalesce'' \<or> op = ''concat'' \<or> op \<in> set UNARY_OPS))"
proof -
  have "\<not> (n + 1 > MAX_EXPRESSION_NODES)" "\<not> (depth > MAX_EXPRESSION_DEPTH)"
    using assms by (subst (asm) validate_expr_node.simps; simp split: if_splits)+
  then have lim: "n + 1 \<le> MAX_EXPRESSION_NODES \<and> depth \<le> MAX_EXPRESSION_DEPTH" by simp
  from assms obtain d where d: "v = VDict d"
    by (subst (asm) validate_expr_node.simps) (cases v; simp split: if_splits)
  with assms obtain x where "map_of d ''op'' = Some x"
    by (subst (asm) validate_expr_node.simps) (cases "map_of d ''op''"; simp split: if_splits)
  with d assms obtain op where op: "map_of d ''op'' = Some (VStr op)"
    by (subst (asm) validate_expr_node.simps) (cases x; simp split: if_splits)
  have "op \<noteq> []"
    using assms d op by (subst (asm) validate_expr_node.simps) (cases "op = []"; simp split: if_splits)
  moreover have "op = ''literal'' \<or> op = ''variable'' \<or> op = ''coalesce'' \<or> op = ''concat''
      \<or> op \<in> set UNARY_OPS"
  proof (rule ccontr)
    assume "\<not> ?thesis"
    with assms d op \<open>op \<noteq> []\<close> lim show False
      by (subst (asm) validate_expr_node.simps) simp
  qed
  ultimately show ?thesis using lim d op by blast
qed

lemma validate_expr_node_literal:
  assumes "map_of d ''op'' = Some (VStr ''literal'')"
    and "validate_expr_node rt (VDict d) depth n = Inr (w, n')"
  shows "\<exists>lit. finite_val lit \<and> w = VDict [(''op'', VStr ''literal''), (''value'', lit)] \<and> n' = n + 1"
  using assms(2)
  by (subst (asm) validate_expr_node.simps) (simp add: assms(1) split: if_splits, simp add: res_simps, blast)

lemma validate_expr_node_variable:
  assumes "map_of d ''op'' = Some (VStr ''variable'')"
    and "validate_expr_node rt (VDict d) depth n = Inr (w, n')"
  shows "\<exists>i. is_uuid i \<and> w = VDict [(''op'', VStr ''variable''), (''id'', VStr i)] \<and> n' = n + 1"
  using assms(2)
  by (subst (asm) validate_expr_node.simps) (simp add: assms(1) split: if_splits, simp add: res_simps, blast)

lemma validate_expr_node_args:
  assumes "map_of d ''op'' = Some (VStr op)" and op: "op = ''coalesce'' \<or> op = ''concat''"
    and "validate_expr_node rt (VDict d) depth n = Inr (w, n')"
  shows "\<exists>es es'. dict_item d ''args'' = Inr (VList es) \<and> es \<noteq> [] \<and> length es \<le> 64 \<and>
    check_keys d [''op'', ''args''] ''computed expression'' = Inr () \<and>
    validate_expr_nodes rt es (depth + 1) (n + 1) = Inr (es', n') \<and>
    w = VDict [(''op'', VStr op), (''args'', VList es')]"
proof -
  from op have ne: "op \<noteq> []" "op \<noteq> ''literal''" "op \<noteq> ''variable''" by auto
  have if3: "(if b1 then Inl e1 else if b2 then Inl e2 else m) = Inr r \<longleftrightarrow> \<not> b1 \<and> \<not> b2 \<and> m = Inr r"
    for b1 b2 and e1 e2 and m :: "(pyval \<times> nat) res" and r by auto
  show ?thesis
  proof (cases "\<exists>es. dict_item d ''args'' = Inr (VList es)")
    case True
    then obtain es where "dict_item d ''args'' = Inr (VList es)" by blast
    then show ?thesis
      using assms(3) op
      by (subst (asm) validate_expr_node.simps)
        (simp add: assms(1) ne split: if_splits, auto simp: bindR_Inr_iff if3 not_less)
  next
    case False
    have "validate_expr_node rt (VDict d) depth n \<noteq> Inr (w, n')"
    proof (cases "dict_item d ''args''")
      case (Inl e)
      then show ?thesis using op
        by (subst validate_expr_node.simps) (simp add: assms(1) ne bindR_Inr_iff)
    next
      case (Inr x)
      with False have "x \<noteq> VList es" for es by auto
      then show ?thesis using op Inr
        by (subst validate_expr_node.simps) (cases x; simp add: assms(1) ne bindR_Inr_iff; blast)
    qed
    with assms(3) show ?thesis by blast
  qed
qed

lemma validate_expr_node_unary:
  assumes "map_of d ''op'' = Some (VStr op)" and op: "op \<in> set UNARY_OPS"
    and "validate_expr_node rt (VDict d) depth n = Inr (w, n')"
  shows "\<exists>arg arg'. dict_item d ''arg'' = Inr arg \<and>
    check_keys d [''op'', ''arg''] ''computed expression'' = Inr () \<and>
    validate_expr_node rt arg (depth + 1) (n + 1) = Inr (arg', n') \<and>
    w = VDict [(''op'', VStr op), (''arg'', arg')]"
proof -
  from op have ne: "op \<noteq> []" "op \<noteq> ''literal''" "op \<noteq> ''variable''" "op \<noteq> ''coalesce''" "op \<noteq> ''concat''"
    by (auto simp: UNARY_OPS_def)
  show ?thesis
    using assms(3)
    by (subst (asm) validate_expr_node.simps)
      (simp add: assms(1) op ne split: if_splits, auto simp: bindR_Inr_iff)
qed

lemma check_keys_exact: "check_keys [(a, x), (b, y)] [a, b] f = Inr ()"
  by (simp add: check_keys_Inr)

text \<open>Validating what validation returned gives the same again, node for node.\<close>

lemma validate_expr_again:
  "validate_expr_node rt v depth n = Inr (w, n') \<Longrightarrow>
     validate_expr_node rt w depth n = Inr (w, n') \<and> finite_val w"
  "validate_expr_nodes rt vs depth n = Inr (ws, n') \<Longrightarrow>
     validate_expr_nodes rt ws depth n = Inr (ws, n') \<and> length ws = length vs
     \<and> (\<forall>w \<in> set ws. finite_val w)"
proof (induction rt v depth n and rt vs depth n arbitrary: w n' and ws n'
    rule: validate_expr_node_validate_expr_nodes.induct)
  case (1 rt v depth n)
  from validate_expr_node_object [OF "1.prems"] obtain d op where
    lim: "\<not> n + 1 > MAX_EXPRESSION_NODES" "\<not> depth > MAX_EXPRESSION_DEPTH"
    and d: "v = VDict d" "map_of d ''op'' = Some (VStr op)" and "op \<noteq> []"
    and "op = ''literal'' \<or> op = ''variable'' \<or> (op = ''coalesce'' \<or> op = ''concat'') \<or> op \<in> set UNARY_OPS"
    by (auto simp: not_less)
  then consider "op = ''literal''" | "op = ''variable''" | "op = ''coalesce'' \<or> op = ''concat''"
    | "op \<in> set UNARY_OPS" by blast
  then show ?case
  proof cases
    case 1
    with validate_expr_node_literal d "1.prems" obtain lit where "finite_val lit"
      "w = VDict [(''op'', VStr ''literal''), (''value'', lit)]" "n' = n + 1" by blast
    with lim show ?thesis
      by (subst validate_expr_node.simps) (simp add: check_keys_exact dict_item_def)
  next
    case 2
    with validate_expr_node_variable d "1.prems" obtain i where "is_uuid i"
      "w = VDict [(''op'', VStr ''variable''), (''id'', VStr i)]" "n' = n + 1" by blast
    with lim show ?thesis
      by (subst validate_expr_node.simps) (simp add: check_keys_exact dict_item_def)
  next
    case args: 3
    from validate_expr_node_args [OF d(2) args] "1.prems" d(1) obtain es es' where
      es: "dict_item d ''args'' = Inr (VList es)" "es \<noteq> []" "length es \<le> 64"
      "check_keys d [''op'', ''args''] ''computed expression'' = Inr ()"
      "validate_expr_nodes rt es (depth + 1) (n + 1) = Inr (es', n')"
      "w = VDict [(''op'', VStr op), (''args'', VList es')]" by blast
    have ne: "op \<noteq> ''literal''" "op \<noteq> ''variable''" using args by auto
    have "\<not> 64 < length es" using es(3) by simp
    from "1.IH"(1) [OF lim d refl \<open>op \<noteq> []\<close> ne args es(4) es(1) refl es(2) this es(5)]
    have "validate_expr_nodes rt es' (depth + 1) (n + 1) = Inr (es', n')" "length es' = length es"
      "\<forall>w \<in> set es'. finite_val w" by auto
    moreover have "es' \<noteq> []" using \<open>length es' = _\<close> es(2) by auto
    moreover have "check_keys [(''op'', VStr op), (''args'', VList es')] [''op'', ''args'']
        ''computed expression'' = Inr ()" by (simp add: check_keys_Inr)
    ultimately show ?thesis
      using es lim ne args \<open>op \<noteq> []\<close>
      by (subst validate_expr_node.simps) (simp add: dict_item_def)
  next
    case unary: 4
    from validate_expr_node_unary [OF d(2) unary] "1.prems" d(1) obtain arg arg' where
      arg: "dict_item d ''arg'' = Inr arg"
      "check_keys d [''op'', ''arg''] ''computed expression'' = Inr ()"
      "validate_expr_node rt arg (depth + 1) (n + 1) = Inr (arg', n')"
      "w = VDict [(''op'', VStr op), (''arg'', arg')]" by blast
    have ne: "op \<noteq> ''literal''" "op \<noteq> ''variable''" "\<not> (op = ''coalesce'' \<or> op = ''concat'')"
      using unary by (auto simp: UNARY_OPS_def)
    from "1.IH"(2) [OF lim d refl \<open>op \<noteq> []\<close> ne unary arg(2) arg(1) arg(3)]
    have "validate_expr_node rt arg' (depth + 1) (n + 1) = Inr (arg', n')" "finite_val arg'" by auto
    moreover have "check_keys [(''op'', VStr op), (''arg'', arg')] [''op'', ''arg'']
        ''computed expression'' = Inr ()" by (simp add: check_keys_Inr)
    ultimately show ?thesis
      using arg lim ne unary \<open>op \<noteq> []\<close>
      by (subst validate_expr_node.simps) (simp add: dict_item_def)
  qed
next
  case (2 rt depth n)
  then show ?case by simp
next
  case (3 rt e es depth n)
  from "3.prems" obtain w1 n1 ws' where *: "validate_expr_node rt e depth n = Inr (w1, n1)"
    "validate_expr_nodes rt es depth n1 = Inr (ws', n')" "ws = w1 # ws'"
    by (auto simp: res_simps)
  from "3.IH"(1) [OF *(1)] "3.IH"(2) [OF *(1) refl *(2)] * show ?case by auto
qed

lemma validate_expression_Inr:
  "validate_expression rt v = Inr w \<longleftrightarrow> (\<exists>n. validate_expr_node rt v 0 0 = Inr (w, n))
     \<and> value_depth w 0 \<le> MAX_EXPRESSION_DEPTH \<and> finite_val w
     \<and> utf8_length (json_dumps rt w) \<le> MAX_EXPRESSION_BYTES"
  by (auto simp: validate_expression_def res_simps not_less)

lemma validate_expression_fixed:
  assumes "validate_expression rt v = Inr w"
  shows "validate_expression rt w = Inr w"
proof -
  from assms obtain n where "validate_expr_node rt v 0 0 = Inr (w, n)"
    by (auto simp: validate_expression_Inr)
  then have "validate_expr_node rt w 0 0 = Inr (w, n)"
    using validate_expr_again(1) by blast
  with assms show ?thesis by (auto simp: validate_expression_Inr)
qed

subsection \<open>The shape of a validated expression\<close>

inductive expr_ok :: "pyval \<Rightarrow> bool" where
  literal: "finite_val lit \<Longrightarrow> expr_ok (VDict [(''op'', VStr ''literal''), (''value'', lit)])"
| variable: "is_uuid i \<Longrightarrow> expr_ok (VDict [(''op'', VStr ''variable''), (''id'', VStr i)])"
| args: "op = ''coalesce'' \<or> op = ''concat'' \<Longrightarrow> es \<noteq> [] \<Longrightarrow> length es \<le> 64
    \<Longrightarrow> (\<And>e. e \<in> set es \<Longrightarrow> expr_ok e)
    \<Longrightarrow> expr_ok (VDict [(''op'', VStr op), (''args'', VList es)])"
| unary: "op \<in> set UNARY_OPS \<Longrightarrow> expr_ok e \<Longrightarrow> expr_ok (VDict [(''op'', VStr op), (''arg'', e)])"

lemma validate_expr_ok:
  "validate_expr_node rt v depth n = Inr (w, n') \<Longrightarrow> expr_ok w"
  "validate_expr_nodes rt vs depth n = Inr (ws, n') \<Longrightarrow> length ws = length vs \<and> (\<forall>w \<in> set ws. expr_ok w)"
proof (induction rt v depth n and rt vs depth n arbitrary: w n' and ws n'
    rule: validate_expr_node_validate_expr_nodes.induct)
  case (1 rt v depth n)
  from validate_expr_node_object [OF "1.prems"] obtain d op where
    lim: "\<not> n + 1 > MAX_EXPRESSION_NODES" "\<not> depth > MAX_EXPRESSION_DEPTH"
    and d: "v = VDict d" "map_of d ''op'' = Some (VStr op)" and "op \<noteq> []"
    and "op = ''literal'' \<or> op = ''variable'' \<or> (op = ''coalesce'' \<or> op = ''concat'') \<or> op \<in> set UNARY_OPS"
    by (auto simp: not_less)
  then consider "op = ''literal''" | "op = ''variable''" | "op = ''coalesce'' \<or> op = ''concat''"
    | "op \<in> set UNARY_OPS" by blast
  then show ?case
  proof cases
    case 1
    with validate_expr_node_literal d "1.prems" show ?thesis by (blast intro: expr_ok.literal)
  next
    case 2
    with validate_expr_node_variable d "1.prems" show ?thesis by (blast intro: expr_ok.variable)
  next
    case args: 3
    from validate_expr_node_args [OF d(2) args] "1.prems" d(1) obtain es es' where
      es: "dict_item d ''args'' = Inr (VList es)" "es \<noteq> []" "length es \<le> 64"
      "check_keys d [''op'', ''args''] ''computed expression'' = Inr ()"
      "validate_expr_nodes rt es (depth + 1) (n + 1) = Inr (es', n')"
      "w = VDict [(''op'', VStr op), (''args'', VList es')]" by blast
    have ne: "op \<noteq> ''literal''" "op \<noteq> ''variable''" using args by auto
    have "\<not> 64 < length es" using es(3) by simp
    from "1.IH"(1) [OF lim d refl \<open>op \<noteq> []\<close> ne args es(4) es(1) refl es(2) this es(5)]
    have "length es' = length es" "\<forall>e \<in> set es'. expr_ok e" by auto
    with es args show ?thesis by (auto intro!: expr_ok.args)
  next
    case unary: 4
    from validate_expr_node_unary [OF d(2) unary] "1.prems" d(1) obtain arg arg' where
      arg: "dict_item d ''arg'' = Inr arg"
      "check_keys d [''op'', ''arg''] ''computed expression'' = Inr ()"
      "validate_expr_node rt arg (depth + 1) (n + 1) = Inr (arg', n')"
      "w = VDict [(''op'', VStr op), (''arg'', arg')]" by blast
    have ne: "op \<noteq> ''literal''" "op \<noteq> ''variable''" "\<not> (op = ''coalesce'' \<or> op = ''concat'')"
      using unary by (auto simp: UNARY_OPS_def)
    from "1.IH"(2) [OF lim d refl \<open>op \<noteq> []\<close> ne unary arg(2) arg(1) arg(3)]
    have "expr_ok arg'" .
    with unary arg(4) show ?thesis by (simp add: expr_ok.unary)
  qed
next
  case (3 rt e es depth n)
  from "3.prems" obtain w1 n1 ws' where *: "validate_expr_node rt e depth n = Inr (w1, n1)"
    "validate_expr_nodes rt es depth n1 = Inr (ws', n')" "ws = w1 # ws'"
    by (auto simp: res_simps)
  from "3.IH"(1) [OF *(1)] "3.IH"(2) [OF *(1) refl *(2)] * show ?case by auto
qed auto

lemma validate_expression_ok: "validate_expression rt v = Inr w \<Longrightarrow> expr_ok w"
  by (auto simp: validate_expression_Inr dest: validate_expr_ok(1))

subsection \<open>Laws of evaluation\<close>

text \<open>The errors the variable resolver catches.\<close>

definition expr_error :: "exn \<Rightarrow> bool" where
  "expr_error e \<longleftrightarrow> (\<exists>m. e = ExpressionError m) \<or> is_value_error e"

lemma expr_error_simps [simp]:
  "expr_error (ExpressionError m)" "expr_error (ValueError m)"
  by (simp_all add: expr_error_def)

lemma int_of_text_error: "int_of_text s = Inl e \<Longrightarrow> expr_error e"
  by (auto simp: int_of_text_def Let_def split: if_splits)

lemma check_number_error: "check_number v op = Inl e \<Longrightarrow> expr_error e"
  by (auto simp: check_number_def split: option.splits pyval.splits if_splits)

lemma unary_op_error: "unary_op rt op v = Inl e \<Longrightarrow> expr_error e"
  by (auto simp: unary_op_def to_number_def to_string_def to_boolean_def json_parse_def
      value_length_def Let_def res_simps dest: int_of_text_error check_number_error
      split: option.splits pyval.splits if_splits sum.splits)

lemma concat_values_error: "concat_values vs = Inl e \<Longrightarrow> expr_error e"
  by (auto simp: concat_values_def split: if_splits)

text \<open>What the conversions return.\<close>

lemma check_number_Inr: "check_number v op = Inr w \<Longrightarrow> v = Some w \<and> is_number w \<and> finite_val w"
  by (auto simp: check_number_def is_number_def split: option.splits pyval.splits if_splits)

lemma to_number_Inr: "to_number rt v = Inr r \<Longrightarrow> \<exists>w. r = Some w \<and> is_number w \<and> finite_val w"
  by (auto simp: to_number_def Let_def res_simps is_number_def dest!: check_number_Inr
      split: option.splits pyval.splits if_splits)

lemma to_string_Inr: "to_string rt v = Inr r \<Longrightarrow> \<exists>s. r = Some (VStr s)"
  by (auto simp: to_string_def Let_def res_simps split: option.splits pyval.splits if_splits)

lemma to_boolean_Inr: "to_boolean rt v = Inr r \<Longrightarrow> \<exists>b. r = Some (VBool b)"
  by (auto simp: to_boolean_def Let_def split: option.splits pyval.splits if_splits)

lemma value_length_Inr: "value_length v = Inr r \<Longrightarrow> \<exists>n. r = Some (VInt (int n))"
  by (auto simp: value_length_def split: option.splits pyval.splits)

lemma concat_values_Inr: "concat_values vs = Inr r \<Longrightarrow> \<exists>s. r = Some (VStr s)"
  by (auto simp: concat_values_def split: if_splits)

text \<open>Evaluation only asks for the variables \<open>iter_variable_ids\<close> lists.\<close>

lemma iter_variable_ids_arg:
  "dict_item d ''arg'' = Inr e \<Longrightarrow> set (iter_variable_ids e) \<subseteq> set (iter_variable_ids (VDict d))"
  by (force simp: dict_item_Inr dest!: map_of_SomeD)

lemma iter_variable_ids_args:
  assumes "dict_item d ''args'' = Inr v" and "iter_nodes v = Inr es" and "e \<in> set es"
  shows "set (iter_variable_ids e) \<subseteq> set (iter_variable_ids (VDict d))"
proof (cases v)
  case (VList xs)
  with assms show ?thesis by (force simp: dict_item_Inr dest!: map_of_SomeD)
qed (use assms in \<open>auto split: if_splits\<close>)

lemma iter_variable_ids_id:
  assumes "get_or d ''op'' VNone = VStr ''variable''" and "dict_item d ''id'' = Inr (VStr i)"
  shows "i \<in> set (iter_variable_ids (VDict d))"
  using assms by (auto simp: get_or_def dict_item_Inr split: option.splits)

declare iter_variable_ids.simps(1) [simp del]

lemma size_expr_arg: "dict_item d ''arg'' = Inr e \<Longrightarrow> size e < size (VDict d)"
  by (rule size_dict_item)

lemma size_expr_args:
  assumes "bindR (dict_item d ''args'') iter_nodes = Inr es" and "e \<in> set es"
  shows "size e < size (VDict d)"
proof -
  from assms(1) obtain v where v: "dict_item d ''args'' = Inr v" "iter_nodes v = Inr es"
    by (auto simp: res_simps)
  have "size e \<le> size_list size es" using assms(2) by (simp add: size_list_estimation')
  with size_iter_nodes [OF v(2)] size_dict_item [OF v(1)] show ?thesis by simp
qed

text \<open>The cases of one evaluation step, by operator.\<close>

lemma evaluate_step:
  "get_or d ''op'' VNone = VStr ''literal'' \<Longrightarrow>
     evaluate_expression rt rv (VDict d) s = (Inr (Some (get_or d ''value'' VNone)), s)"
  "get_or d ''op'' VNone = VStr ''variable'' \<Longrightarrow>
     evaluate_expression rt rv (VDict d) s = (case dict_item d ''id'' of
       Inl x \<Rightarrow> (Inl x, s) | Inr (VStr i) \<Rightarrow> rv i s | Inr _ \<Rightarrow> (Inl (TypeError ''variable id''), s))"
  "get_or d ''op'' VNone = VStr ''coalesce'' \<Longrightarrow>
     evaluate_expression rt rv (VDict d) s = (case bindR (dict_item d ''args'') iter_nodes of
       Inl x \<Rightarrow> (Inl x, s) | Inr es \<Rightarrow> coalesce_args rt rv es s)"
  "get_or d ''op'' VNone = VStr ''concat'' \<Longrightarrow>
     evaluate_expression rt rv (VDict d) s = (case bindR (dict_item d ''args'') iter_nodes of
       Inl x \<Rightarrow> (Inl x, s)
     | Inr es \<Rightarrow> bindS (evaluate_args rt rv es s) (\<lambda>vs t. (concat_values vs, t)))"
  "get_or d ''op'' VNone = VStr op \<Longrightarrow> op \<in> set UNARY_OPS \<Longrightarrow>
     evaluate_expression rt rv (VDict d) s = (case dict_item d ''arg'' of
       Inl x \<Rightarrow> (Inl x, s)
     | Inr e \<Rightarrow> bindS (evaluate_expression rt rv e s) (\<lambda>v t. (unary_op rt op v, t)))"
  by (auto simp: evaluate_expression.simps bindS_def UNARY_OPS_def split: sum.splits pyval.splits)

lemma evaluate_unsupported:
  assumes "\<not> (\<exists>op. get_or d ''op'' VNone = VStr op \<and> op \<in> set (''literal'' # ''variable'' # ''coalesce''
       # ''concat'' # UNARY_OPS))"
  shows "\<exists>m. \<forall>rv s. evaluate_expression rt rv (VDict d) s = (Inl (ExpressionError m), s)"
proof -
  have "get_or d ''op'' VNone \<noteq> VStr ''literal''" "get_or d ''op'' VNone \<noteq> VStr ''variable''"
    "get_or d ''op'' VNone \<noteq> VStr ''coalesce''" "get_or d ''op'' VNone \<noteq> VStr ''concat''"
    using assms by auto
  moreover have "op \<notin> set UNARY_OPS" if "get_or d ''op'' VNone = VStr op" for op
    using assms that by auto
  ultimately show ?thesis
    by (cases "get_or d ''op'' VNone") (simp_all add: evaluate_expression.simps)
qed

lemma op_cases:
  obtains "get_or d ''op'' VNone = VStr ''literal''" | "get_or d ''op'' VNone = VStr ''variable''"
  | "get_or d ''op'' VNone = VStr ''coalesce''" | "get_or d ''op'' VNone = VStr ''concat''"
  | op where "get_or d ''op'' VNone = VStr op" "op \<in> set UNARY_OPS"
  | "\<not> (\<exists>op. get_or d ''op'' VNone = VStr op \<and> op \<in> set (''literal'' # ''variable'' # ''coalesce''
       # ''concat'' # UNARY_OPS))"
  by fastforce

lemma coalesce_frame:
  "(\<And>e s. e \<in> set es \<Longrightarrow> evaluate_expression rt rv e s = evaluate_expression rt rv' e s) \<Longrightarrow>
     coalesce_args rt rv es s = coalesce_args rt rv' es s"
  by (induction es arbitrary: s) (auto simp: bindS_def split: prod.splits sum.splits)

lemma args_frame:
  "(\<And>e s. e \<in> set es \<Longrightarrow> evaluate_expression rt rv e s = evaluate_expression rt rv' e s) \<Longrightarrow>
     evaluate_args rt rv es s = evaluate_args rt rv' es s"
  by (induction es arbitrary: s) (auto simp: bindS_def split: prod.splits sum.splits)

lemma evaluate_frame:
  fixes s :: 's
  assumes "\<And>i t. i \<in> set (iter_variable_ids e) \<Longrightarrow> rv i t = rv' i t"
  shows "evaluate_expression rt rv e s = evaluate_expression rt rv' e s"
  using assms
proof (induction e arbitrary: s rule: measure_induct_rule [of size])
  case (less e)
  show ?case
  proof (cases e)
    case (VDict d)
    have args: "evaluate_expression rt rv e' t = evaluate_expression rt rv' e' t"
      if "bindR (dict_item d ''args'') iter_nodes = Inr es" and "e' \<in> set es" for es e' t
    proof (rule less.IH)
      show "size e' < size e" using size_expr_args [OF that] VDict by simp
      show "rv i t = rv' i t" if "i \<in> set (iter_variable_ids e')" for i t
        using that \<open>bindR _ _ = _\<close> \<open>e' \<in> set es\<close> less.prems VDict
        by (auto simp: bindR_Inr_iff dest: iter_variable_ids_args)
    qed
    have arg: "evaluate_expression rt rv e' t = evaluate_expression rt rv' e' t"
      if "dict_item d ''arg'' = Inr e'" for e' t
      using less.IH [of e' t] less.prems size_expr_arg [OF that] iter_variable_ids_arg [OF that] VDict
      by auto
    show ?thesis
    proof (cases rule: op_cases [of d])
      case 2
      then show ?thesis
        using less.prems iter_variable_ids_id [OF 2] by (auto simp: VDict evaluate_step(2) split: sum.splits pyval.splits)
    next
      case 3
      then show ?thesis
        using args by (auto simp: VDict evaluate_step(3) intro: coalesce_frame split: sum.splits)
    next
      case 4
      show ?thesis
      proof (cases "bindR (dict_item d ''args'') iter_nodes")
        case (Inr es)
        then have "evaluate_args rt rv es s = evaluate_args rt rv' es s"
          using args by (intro args_frame) blast
        with Inr 4 show ?thesis by (simp add: VDict evaluate_step(4))
      qed (simp add: VDict evaluate_step(4) 4)
    next
      case 5
      then show ?thesis
        using arg by (auto simp: VDict evaluate_step(5) split: sum.splits)
    next
      case 6
      from evaluate_unsupported [OF this, of rt] obtain m where
        "\<And>rv (t :: 's). evaluate_expression rt rv (VDict d) t = (Inl (ExpressionError m), t)" by blast
      then show ?thesis by (simp add: VDict)
    qed (simp add: VDict evaluate_step(1))
  qed (simp_all add: evaluate_expression.simps)
qed

text \<open>An invariant of the resolver's state is an invariant of evaluation.\<close>

lemma coalesce_preserves:
  assumes "I s" and "\<And>e t. e \<in> set es \<Longrightarrow> I t \<Longrightarrow> I (snd (evaluate_expression rt rv e t))"
  shows "I (snd (coalesce_args rt rv es s))"
  using assms
proof (induction es arbitrary: s)
  case (Cons e es)
  obtain r t where r: "evaluate_expression rt rv e s = (r, t)" by fastforce
  with Cons.prems(1) Cons.prems(2) [of e s] have "I t" by simp
  with Cons.IH [of t] Cons.prems(2) r show ?case by (cases r) auto
qed simp

lemma args_preserves:
  assumes "I s" and "\<And>e t. e \<in> set es \<Longrightarrow> I t \<Longrightarrow> I (snd (evaluate_expression rt rv e t))"
  shows "I (snd (evaluate_args rt rv es s))"
  using assms
proof (induction es arbitrary: s)
  case (Cons e es)
  obtain r t where r: "evaluate_expression rt rv e s = (r, t)" by fastforce
  with Cons.prems(1) Cons.prems(2) [of e s] have "I t" by simp
  with Cons.IH [of t] Cons.prems(2) have "I (snd (evaluate_args rt rv es t))" by simp
  with r \<open>I t\<close> show ?case
    by (cases r; cases "evaluate_args rt rv es t"; cases "fst (evaluate_args rt rv es t)") auto
qed simp

lemma evaluate_preserves:
  fixes s :: 's
  assumes "I s" and "\<And>i t. i \<in> set (iter_variable_ids e) \<Longrightarrow> I t \<Longrightarrow> I (snd (rv i t))"
  shows "I (snd (evaluate_expression rt rv e s))"
  using assms
proof (induction e arbitrary: s rule: measure_induct_rule [of size])
  case (less e)
  show ?case
  proof (cases e)
    case (VDict d)
    have args: "I (snd (evaluate_expression rt rv e' t))"
      if es: "bindR (dict_item d ''args'') iter_nodes = Inr es" "e' \<in> set es" and "I t" for es e' t
    proof (rule less.IH [OF _ \<open>I t\<close>])
      show "size e' < size e" using size_expr_args [OF es] VDict by simp
      show "I (snd (rv i u))" if "i \<in> set (iter_variable_ids e')" and "I u" for i u
        using that es less.prems(2) VDict by (auto simp: bindR_Inr_iff dest: iter_variable_ids_args)
    qed
    have arg: "I (snd (evaluate_expression rt rv e' t))" if a: "dict_item d ''arg'' = Inr e'" and "I t" for e' t
      using less.IH [of e' t] less.prems(2) size_expr_arg [OF a] iter_variable_ids_arg [OF a] VDict \<open>I t\<close>
      by auto
    show ?thesis
    proof (cases rule: op_cases [of d])
      case 2
      then show ?thesis
        using less.prems iter_variable_ids_id [OF 2]
        by (auto simp: VDict evaluate_step(2) split: sum.splits pyval.splits)
    next
      case 3
      then show ?thesis
        using args less.prems(1)
        by (auto simp: VDict evaluate_step(3) intro: coalesce_preserves split: sum.splits)
    next
      case 4
      show ?thesis
      proof (cases "bindR (dict_item d ''args'') iter_nodes")
        case (Inr es)
        have I: "I (snd (evaluate_args rt rv es s))"
          by (rule args_preserves [where I = I, OF less.prems(1)]) (rule args [OF Inr])
        obtain r t where "evaluate_args rt rv es s = (r, t)" by fastforce
        with I Inr 4 show ?thesis by (cases r) (simp_all add: VDict evaluate_step(4))
      qed (use less.prems(1) in \<open>simp add: VDict evaluate_step(4) 4\<close>)
    next
      case 5
      show ?thesis
      proof (cases "dict_item d ''arg''")
        case (Inr e')
        obtain r t where r: "evaluate_expression rt rv e' s = (r, t)" by fastforce
        with arg [OF Inr less.prems(1)] have "I t" by simp
        with Inr 5 r show ?thesis by (cases r) (simp_all add: VDict evaluate_step(5))
      qed (use less.prems(1) 5 in \<open>simp add: VDict evaluate_step(5)\<close>)
    next
      case 6
      from evaluate_unsupported [OF this, of rt] obtain m where
        "\<And>rv (t :: 's). evaluate_expression rt rv (VDict d) t = (Inl (ExpressionError m), t)" by blast
      with less.prems(1) show ?thesis by (simp add: VDict)
    qed (simp add: VDict evaluate_step(1) less.prems(1))
  qed (use less.prems(1) in \<open>simp_all add: evaluate_expression.simps\<close>)
qed

lemma coalesce_error:
  assumes "coalesce_args rt rv es s = (Inl x, s')"
    and "\<forall>e \<in> set es. \<forall>t t' y. evaluate_expression rt rv e t = (Inl y, t') \<longrightarrow> expr_error y"
  shows "expr_error x"
  using assms
proof (induction es arbitrary: s x)
  case (Cons e es)
  obtain r t where r: "evaluate_expression rt rv e s = (r, t)" by fastforce
  with Cons show ?case
    by (cases r) (auto simp: bindS_def split: if_splits prod.splits sum.splits)
qed simp

lemma args_error:
  assumes "evaluate_args rt rv es s = (Inl x, s')"
    and "\<forall>e \<in> set es. \<forall>t t' y. evaluate_expression rt rv e t = (Inl y, t') \<longrightarrow> expr_error y"
  shows "expr_error x"
  using assms
proof (induction es arbitrary: s x)
  case (Cons e es)
  obtain r t where r: "evaluate_expression rt rv e s = (r, t)" by fastforce
  with Cons show ?case
    by (cases r) (auto simp: bindS_def split: if_splits prod.splits sum.splits)
qed simp

lemma evaluate_ok_error:
  assumes "expr_ok e" and "evaluate_expression rt rv e s = (Inl x, s')"
    and rv: "\<And>i t t' y. rv i t = (Inl y, t') \<Longrightarrow> expr_error y"
  shows "expr_error x"
  using assms(1,2)
proof (induction e arbitrary: s x s' rule: expr_ok.induct)
  case (variable i)
  then show ?case using rv by (simp add: evaluate_step(2) get_or_def dict_item_def)
next
  case (args op es)
  then have "\<forall>e \<in> set es. \<forall>t t' y. evaluate_expression rt rv e t = (Inl y, t') \<longrightarrow> expr_error y"
    by blast
  with args(1) args.prems show ?case
    by (auto simp: evaluate_step(3,4) get_or_def dict_item_def bindS_def concat_values_error
        split: prod.splits sum.splits dest: coalesce_error args_error)
next
  case (unary op e)
  then show ?case
    by (auto simp: evaluate_step(5) get_or_def dict_item_def bindS_def
        split: prod.splits sum.splits dest: unary_op_error)
qed (simp add: evaluate_step(1) get_or_def)

subsection \<open>Properties\<close>

definition sample_expression :: pyval where
  "sample_expression = VDict [(''op'', VStr ''to_number''), (''arg'', VDict [(''op'', VStr ''literal''),
     (''value'', VStr ''12'')])]"

lemma sample_expression_valid:
  "validate_expression witness_runtime sample_expression = Inr sample_expression"
  by (simp add: validate_expression_def sample_expression_def validate_expr_node.simps dict_item_def
    check_keys_exact UNARY_OPS_def MAX_EXPRESSION_NODES_def MAX_EXPRESSION_DEPTH_def
    MAX_EXPRESSION_BYTES_def json_str_def json_char_def utf8_length_def)

text \<open>
  Validation of computed expressions is idempotent: the normal form it returns passes again,
  unchanged, within the same node, depth and size limits.
\<close>
theorem validate_expression_idempotent:
  assumes "validate_expression rt raw = Inr w"
  shows "validate_expression rt w = Inr w"
  using assms by (rule validate_expression_fixed)

theorem validate_expression_idempotent_witness:
  "validate_expression witness_runtime sample_expression = Inr sample_expression"
  by (rule validate_expression_idempotent [OF sample_expression_valid])

text \<open>
  A validated expression fails only with the two exceptions the variable resolver catches,
  \<open>ExpressionError\<close> and \<open>ValueError\<close>, as long as the resolution of the variables it names does:
  no key error, index error or type error can leave the evaluator.
\<close>
theorem evaluate_validated_exceptions:
  assumes "validate_expression rt raw = Inr w"
    and "\<And>i t t' y. rv i t = (Inl y, t') \<Longrightarrow> expr_error y"
    and "evaluate_expression rt rv w s = (Inl x, s')"
  shows "(\<exists>m. x = ExpressionError m) \<or> is_value_error x"
  using evaluate_ok_error [OF validate_expression_ok [OF assms(1)] assms(3)] assms(2)
  by (auto simp: expr_error_def)

theorem evaluate_validated_exceptions_witness:
  "(\<exists>m. ExpressionError ''to_number requires a numeric value'' = ExpressionError m)
     \<or> is_value_error (ExpressionError ''to_number requires a numeric value'')"
proof (rule evaluate_validated_exceptions)
  let ?e = "VDict [(''op'', VStr ''to_number''), (''arg'', VDict [(''op'', VStr ''literal''),
     (''value'', VNone)])]"
  show "validate_expression witness_runtime ?e = Inr ?e"
    by (simp add: validate_expression_def validate_expr_node.simps dict_item_def
      check_keys_exact UNARY_OPS_def MAX_EXPRESSION_NODES_def MAX_EXPRESSION_DEPTH_def
      MAX_EXPRESSION_BYTES_def json_str_def json_char_def utf8_length_def)
  show "evaluate_expression witness_runtime (\<lambda>i t. (Inr None, t)) ?e ()
      = (Inl (ExpressionError ''to_number requires a numeric value''), ())"
    by (simp add: evaluate_expression.simps get_or_def dict_item_def UNARY_OPS_def unary_op_def to_number_def)
qed simp

text \<open>
  An expression depends on nothing but the variables \<open>iter_variable_ids\<close> lists for it: two
  resolvers that agree on those ids give the same result and the same effects.  Cycle detection
  and sensitivity follow exactly these ids.
\<close>
theorem evaluation_uses_listed_variables:
  assumes "\<And>i t. i \<in> set (iter_variable_ids e) \<Longrightarrow> rv i t = rv' i t"
  shows "evaluate_expression rt rv e s = evaluate_expression rt rv' e s"
  using assms by (rule evaluate_frame)

theorem evaluation_uses_listed_variables_witness:
  "evaluate_expression witness_runtime (\<lambda>i t. (Inr None, t)) sample_expression ()
    = evaluate_expression witness_runtime (\<lambda>i t. (Inl (KeyError i), t)) sample_expression ()"
  by (rule evaluation_uses_listed_variables) (simp add: sample_expression_def iter_variable_ids.simps)

text \<open>
  What the conversions return: \<open>to_number\<close> a finite number and never a boolean, \<open>to_string\<close>
  a text, \<open>to_boolean\<close> a boolean, \<open>length\<close> a natural number; none of them a missing value.
\<close>
theorem conversion_result_types:
  assumes "unary_op rt op v = Inr r" and "op \<in> set UNARY_OPS" and "op \<noteq> ''json_parse''"
  shows "\<exists>w. r = Some w \<and>
    (op = ''to_number'' \<longrightarrow> is_number w \<and> finite_val w) \<and>
    (op = ''to_string'' \<longrightarrow> is_str w) \<and> (op = ''to_boolean'' \<longrightarrow> is_bool w) \<and>
    (op = ''length'' \<longrightarrow> (\<exists>n. w = VInt (int n)))"
proof -
  from assms(2,3) consider "op = ''to_number''" | "op = ''to_string''" | "op = ''to_boolean''" | "op = ''length''"
    by (auto simp: UNARY_OPS_def)
  then show ?thesis
    using assms(1)
    by cases (auto simp: unary_op_def is_bool_def
        dest!: to_number_Inr to_string_Inr to_boolean_Inr value_length_Inr)
qed

theorem conversion_result_types_witness:
  "\<exists>w. Some (VInt 12) = Some w \<and>
    (''to_number'' = ''to_number'' \<longrightarrow> is_number w \<and> finite_val w) \<and>
    (''to_number'' = ''to_string'' \<longrightarrow> is_str w) \<and> (''to_number'' = ''to_boolean'' \<longrightarrow> is_bool w) \<and>
    (''to_number'' = ''length'' \<longrightarrow> (\<exists>n. w = VInt (int n)))"
  by (rule conversion_result_types [of witness_runtime _ "Some (VStr ''12'')"])
    (simp_all add: UNARY_OPS_def unary_op_def to_number_def py_strip_def py_lstrip_def is_space_def
      integer_text_def is_decimal_def int_of_text_def digits_value_def)

end
