(* ===== verification/Secrets.thy ===== *)
theory Secrets
  imports PyValue
begin

section \<open>Secret references (control/secrets.py)\<close>

text \<open>
  References that keep raw credentials out of stored configuration: parsing, printing, the
  object form, and resolution against the environment and the file system.  Both are arguments:
  \<open>environ\<close> is the environment's mapping and \<open>files\<close> says what is found at a path once the home
  directory has been filled in.
\<close>

datatype secret_scheme = Env | File

record secret_ref =
  scheme :: secret_scheme
  target :: string

definition env_name :: "string \<Rightarrow> bool" where
  "env_name s \<longleftrightarrow> (case s of [] \<Rightarrow> False
     | c # rest \<Rightarrow>
         (let letter = (\<lambda>x. 65 \<le> code x \<and> code x \<le> (90::nat) \<or> 97 \<le> code x \<and> code x \<le> (122::nat)
              \<or> x = CHR ''_'')
          in letter c \<and> list_all (\<lambda>x. letter x \<or> is_decimal x) rest))"

definition parse_secret_ref :: "pyval \<Rightarrow> secret_ref res" where
  "parse_secret_ref val = (case val of
     VStr s \<Rightarrow>
       if prefix ''env:'' s \<and> drop 4 s \<noteq> [] then
         (if env_name (drop 4 s) then Inr \<lparr>scheme = Env, target = drop 4 s\<rparr>
          else Inl (SecretError (''invalid environment variable name in secret reference: ''
            @ repr_str (drop 4 s))))
       else if prefix ''file:'' s \<and> drop 5 s \<noteq> [] then Inr \<lparr>scheme = File, target = drop 5 s\<rparr>
       else Inl (SecretError (''invalid secret reference '' @ repr_str s @ ''; expected ''
         @ repr_str ''env:NAME'' @ '' or '' @ repr_str ''file:PATH''))
   | _ \<Rightarrow> Inl (SecretError (''secret reference must be a string, got '' @ type_name val)))"

definition secret_ref_str :: "secret_ref \<Rightarrow> string" where
  "secret_ref_str r = (case scheme r of Env \<Rightarrow> ''env'' | File \<Rightarrow> ''file'') @ '':'' @ target r"

text \<open>What resolution finds at a path: nothing readable, or a file with its mode and content.\<close>

datatype secret_file =
    Unreadable
  | Symlink
  | NotRegular
  | Regular nat "string option"

definition resolve_secret_ref ::
    "(string \<rightharpoonup> string) \<Rightarrow> bool \<Rightarrow> (string \<Rightarrow> secret_file) \<Rightarrow> secret_ref \<Rightarrow> string res" where
  "resolve_secret_ref environ posix files ref = (case scheme ref of
     Env \<Rightarrow> (case environ (target ref) of
         None \<Rightarrow> Inl (SecretError (''environment variable '' @ repr_str (target ref) @ '' is not set''))
       | Some secret \<Rightarrow>
           if secret = []
           then Inl (SecretError (''environment variable '' @ repr_str (target ref) @ '' is empty''))
           else Inr secret)
   | File \<Rightarrow> (case files (target ref) of
         Symlink \<Rightarrow> Inl (SecretError (''secret file must not be a symlink: '' @ target ref))
       | Unreadable \<Rightarrow> Inl (SecretError (''cannot read secret file '' @ target ref))
       | NotRegular \<Rightarrow> Inl (SecretError (''secret file is not a regular file: '' @ target ref))
       | Regular mode content \<Rightarrow>
           if posix \<and> mode mod 64 \<noteq> 0
           then Inl (SecretError (''secret file '' @ target ref
             @ '' is readable or writable by group/other; use chmod 600''))
           else (case content of
               None \<Rightarrow> Inl (SecretError (''cannot read secret file '' @ target ref))
             | Some text \<Rightarrow> Inr text)))"

definition secret_ref_to_dict :: "secret_ref \<Rightarrow> pyval" where
  "secret_ref_to_dict r = VDict [(''secret_ref'', VStr (secret_ref_str r))]"

definition secret_ref_from_dict :: "pyval \<Rightarrow> secret_ref res" where
  "secret_ref_from_dict val = (case val of
     VDict d \<Rightarrow>
       if set (keys d) \<noteq> {''secret_ref''}
       then Inl (ValidationError (''secret reference object must contain only ''
         @ repr_str ''secret_ref''))
       else bindR (dict_item d ''secret_ref'') (\<lambda>raw.
         if \<not> is_str raw then Inl (ValidationError (repr_str ''secret_ref'' @ '' must be a string''))
         else parse_secret_ref raw)
   | _ \<Rightarrow> Inl (ValidationError (''secret reference object must contain only ''
         @ repr_str ''secret_ref'')))"

subsection \<open>Laws\<close>

lemma secret_ref_str_parse:
  "parse_secret_ref v = Inr r \<Longrightarrow> v = VStr (secret_ref_str r)"
  by (auto simp: parse_secret_ref_def secret_ref_str_def prefix_def split: pyval.splits if_splits)

lemma parse_secret_ref_str:
  assumes "parse_secret_ref v = Inr r"
  shows "parse_secret_ref (VStr (secret_ref_str r)) = Inr r"
  using assms secret_ref_str_parse [OF assms] by simp

subsection \<open>Properties\<close>

text \<open>
  Secret references round-trip: printing a parsed reference gives the text it was parsed
  from, and its object form reads back to the same reference.
\<close>
theorem secret_ref_roundtrip:
  assumes "parse_secret_ref (VStr s) = Inr r"
  shows "secret_ref_str r = s \<and> secret_ref_from_dict (secret_ref_to_dict r) = Inr r"
  using secret_ref_str_parse [OF assms] assms
  by (simp add: secret_ref_to_dict_def secret_ref_from_dict_def dict_item_def)

theorem secret_ref_roundtrip_witness:
  "secret_ref_str \<lparr>scheme = Env, target = ''GA_KEY''\<rparr> = ''env:GA_KEY''
    \<and> secret_ref_from_dict (secret_ref_to_dict \<lparr>scheme = Env, target = ''GA_KEY''\<rparr>)
      = Inr \<lparr>scheme = Env, target = ''GA_KEY''\<rparr>"
  by (rule secret_ref_roundtrip) (simp add: parse_secret_ref_def env_name_def is_decimal_def)

text \<open>
  On a POSIX system a secret is only ever read from a regular file that is no symbolic link
  and that neither group nor others can read or write.
\<close>
theorem secret_file_permissions:
  assumes "resolve_secret_ref environ True files r = Inr s" and "scheme r = File"
  shows "\<exists>mode. files (target r) = Regular mode (Some s) \<and> mode mod 64 = 0"
  using assms
  by (auto simp: resolve_secret_ref_def split: secret_file.splits if_splits option.splits)

theorem secret_file_permissions_witness:
  "\<exists>mode. (\<lambda>_. Regular 384 (Some ''k'')) ''key'' = Regular mode (Some ''k'') \<and> mode mod 64 = 0"
  using secret_file_permissions
    [of Map.empty "\<lambda>_. Regular 384 (Some ''k'')" "\<lparr>scheme = File, target = ''key''\<rparr>" "''k''"]
  by (simp add: resolve_secret_ref_def)

end
