(* ===== verification/Config.thy ===== *)
theory Config
  imports Expressions Secrets
begin

section \<open>Tags, triggers, variables, destinations and payloads (control/config.py)\<close>

text \<open>
  The managed objects of a container and the payload that holds them.  \<open>*_from_dict\<close> parses an
  untrusted JSON value, \<open>*_to_dict\<close> prints; \<open>*_create\<close> builds a new object from the caller's
  arguments, with the fresh UUID the code draws as its first argument.
\<close>

definition PAYLOAD_KEYS :: "string list" where
  "PAYLOAD_KEYS = [''tags'', ''triggers'', ''variables'', ''destinations'']"

definition TRIGGER_TYPES :: "string list" where
  "TRIGGER_TYPES = [''page_view'', ''custom_event'', ''click'', ''link_click'', ''form_submit'',
     ''route_change'', ''dom_condition'', ''consent_change'', ''variable_condition'']"

definition VARIABLE_TYPES :: "string list" where
  "VARIABLE_TYPES = [''string'', ''number'', ''boolean'', ''json'', ''list'', ''null'']"

definition VARIABLE_SOURCES :: "string list" where
  "VARIABLE_SOURCES = [''static'', ''page_url'', ''page_path'', ''page_title'', ''referrer'',
     ''dom'', ''data_layer'', ''event'', ''consent'', ''computed'']"

definition PAGE_SOURCES :: "string list" where
  "PAGE_SOURCES = [''page_url'', ''page_path'', ''page_title'', ''referrer'']"

text \<open>\<open>_PATH_RE\<close> and \<open>_PURPOSE_RE\<close>.\<close>

definition path_char :: "char \<Rightarrow> bool" where
  "path_char c \<longleftrightarrow> is_ascii_letter c \<or> is_decimal c \<or> c \<in> set ''_-''"

definition dotted_path :: "string \<Rightarrow> bool" where
  "dotted_path s \<longleftrightarrow> list_all (\<lambda>part. part \<noteq> [] \<and> list_all path_char part) (split_on (CHR ''.'') s)"

definition purpose_shape :: "string \<Rightarrow> bool" where
  "purpose_shape s \<longleftrightarrow> (case s of [] \<Rightarrow> False
     | c # rest \<Rightarrow> 97 \<le> code c \<and> code c \<le> (122::nat) \<and> length rest \<le> 63
         \<and> list_all (\<lambda>x. 97 \<le> code x \<and> code x \<le> (122::nat) \<or> is_decimal x \<or> x \<in> set ''_-'') rest)"

definition ALL_TRUE :: pyval where
  "ALL_TRUE = VDict [(''op'', VStr ''all''), (''conditions'', VList [])]"

subsection \<open>Field helpers\<close>

definition cfg_mapping :: "py_runtime \<Rightarrow> pyval \<Rightarrow> string \<Rightarrow> pydict res" where
  "cfg_mapping rt v field = (case v of
     VDict d \<Rightarrow> bindR (canonical_json rt v) (\<lambda>_. Inr d)
   | _ \<Rightarrow> Inl (ValidationError (field @ '' must be a JSON object'')))"

definition cfg_string :: "pyval \<Rightarrow> string \<Rightarrow> bool \<Rightarrow> string res" where
  "cfg_string v field allow_empty = (case v of
     VStr s \<Rightarrow> if \<not> allow_empty \<and> s = []
       then Inl (ValidationError (field @ '' must not be empty'')) else Inr s
   | _ \<Rightarrow> Inl (ValidationError (field @ '' must be a string'')))"

definition cfg_bool :: "pyval \<Rightarrow> string \<Rightarrow> bool res" where
  "cfg_bool v field = (case v of VBool b \<Rightarrow> Inr b
     | _ \<Rightarrow> Inl (ValidationError (field @ '' must be a boolean'')))"

definition cfg_int :: "pyval \<Rightarrow> string \<Rightarrow> int res" where
  "cfg_int v field = (case v of VInt i \<Rightarrow> Inr i
     | _ \<Rightarrow> Inl (ValidationError (field @ '' must be an integer'')))"

definition cfg_keys :: "pydict \<Rightarrow> string list \<Rightarrow> string \<Rightarrow> string list \<Rightarrow> unit res" where
  "cfg_keys d expected field required =
     (if unknown_keys d expected \<noteq> []
      then Inl (ValidationError (field @ '' contains unknown field(s): ''
        @ join_with '', '' (unknown_keys d expected)))
      else if missing_keys d required \<noteq> []
      then Inl (ValidationError (field @ '' is missing required field(s): ''
        @ join_with '', '' (missing_keys d required)))
      else Inr ())"

text \<open>\<open>_id_list\<close>: the loop with its index and the set of ids seen.\<close>

fun id_list_loop :: "py_runtime \<Rightarrow> pyval list \<Rightarrow> string \<Rightarrow> nat \<Rightarrow> string list \<Rightarrow> string list res" where
  "id_list_loop rt [] field i seen = Inr []"
| "id_list_loop rt (item # items) field i seen =
     bindR (validate_id rt item (field @ ''['' @ nat_str i @ '']'')) (\<lambda>item_id.
       if item_id \<in> set seen
       then Inl (ValidationError (field @ '' contains duplicate id '' @ repr_str item_id))
       else bindR (id_list_loop rt items field (Suc i) (item_id # seen)) (\<lambda>ids. Inr (item_id # ids)))"

definition id_list :: "py_runtime \<Rightarrow> pyval \<Rightarrow> string \<Rightarrow> string list res" where
  "id_list rt v field = (case v of
     VList items \<Rightarrow> id_list_loop rt items field 0 []
   | _ \<Rightarrow> Inl (ValidationError (field @ '' must be a list of IDs'')))"

text \<open>\<open>_mapping_tuple\<close>: parse every item and refuse a repeated identity.\<close>

fun mapping_tuple_loop ::
    "(pyval \<Rightarrow> 'a res) \<Rightarrow> ('a \<Rightarrow> string) \<Rightarrow> pyval list \<Rightarrow> string \<Rightarrow> string list \<Rightarrow> 'a list res" where
  "mapping_tuple_loop parse identity [] field seen = Inr []"
| "mapping_tuple_loop parse identity (item # items) field seen =
     bindR (parse item) (\<lambda>parsed.
       if identity parsed \<in> set seen
       then Inl (ValidationError (field @ '' contains duplicate id '' @ repr_str (identity parsed)))
       else bindR (mapping_tuple_loop parse identity items field (identity parsed # seen))
         (\<lambda>rest. Inr (parsed # rest)))"

definition mapping_tuple ::
    "(pyval \<Rightarrow> 'a res) \<Rightarrow> ('a \<Rightarrow> string) \<Rightarrow> pyval \<Rightarrow> string \<Rightarrow> 'a list res" where
  "mapping_tuple parse identity v field = (case v of
     VList items \<Rightarrow> mapping_tuple_loop parse identity items field []
   | _ \<Rightarrow> Inl (ValidationError (field @ '' must be a list'')))"

definition check_type :: "py_runtime \<Rightarrow> pyval \<Rightarrow> string \<Rightarrow> string \<Rightarrow> unit res" where
  "check_type rt v value_type field =
     (if value_type = ''json'' then bindR (canonical_json rt v) (\<lambda>_. Inr ())
      else if value_type = ''null'' then
        (if v \<noteq> VNone then Inl (ValidationError (field @ '' must be null'')) else Inr ())
      else if value_type = ''string'' \<and> \<not> is_str v
      then Inl (ValidationError (field @ '' must be a string''))
      else if value_type = ''number'' \<and> \<not> is_number v
      then Inl (ValidationError (field @ '' must be a number''))
      else if value_type = ''boolean'' \<and> \<not> is_bool v
      then Inl (ValidationError (field @ '' must be a boolean''))
      else if value_type = ''list'' \<and> \<not> is_list v
      then Inl (ValidationError (field @ '' must be a list''))
      else Inr ())"

definition cfg_purpose :: "pyval \<Rightarrow> string option res" where
  "cfg_purpose v = (case v of
     VNone \<Rightarrow> Inr None
   | VStr s \<Rightarrow> if purpose_shape s then Inr (Some s)
       else Inl (ValidationError
         ''consent purpose must match [a-z][a-z0-9_-]* and be at most 64 characters'')
   | _ \<Rightarrow> Inl (ValidationError
         ''consent purpose must match [a-z][a-z0-9_-]* and be at most 64 characters''))"

definition opt_str :: "string option \<Rightarrow> pyval" where
  "opt_str x = (case x of None \<Rightarrow> VNone | Some s \<Rightarrow> VStr s)"

definition str_list :: "string list \<Rightarrow> pyval" where
  "str_list xs = VList (map VStr xs)"

subsection \<open>Tags\<close>

record tag =
  tag_id :: string
  tag_name :: string
  tag_type :: string
  tag_description :: string
  tag_parameters :: pydict
  tag_trigger_ids :: "string list"
  tag_variable_ids :: "string list"
  tag_consent_purpose :: "string option"
  tag_destination_ids :: "string list"
  tag_enabled :: bool
  tag_adapter_version :: string
  tag_compatibility :: pydict
  tag_source_evidence :: "pydict option"

definition DEFAULT_COMPATIBILITY :: pydict where
  "DEFAULT_COMPATIBILITY = [(''min_schema'', VStr ''1.0''), (''adapter_contract'', VStr ''1'')]"

text \<open>
  \<open>Tag.create\<close>; \<open>compatibility or {...}\<close> replaces an absent or empty mapping.
\<close>

definition tag_create ::
    "py_runtime \<Rightarrow> string \<Rightarrow> string \<Rightarrow> string \<Rightarrow> string \<Rightarrow> pydict \<Rightarrow> string list \<Rightarrow> string list
     \<Rightarrow> string option \<Rightarrow> string list \<Rightarrow> bool \<Rightarrow> string \<Rightarrow> pydict \<Rightarrow> pydict option \<Rightarrow> tag res" where
  "tag_create rt new_id name type description parameters trigger_ids variable_ids consent_purpose
      destination_ids enabled adapter_version compatibility source_evidence =
     bindR (validate_name (VStr name)) (\<lambda>name'.
     bindR (cfg_string (VStr type) ''tag.type'' False) (\<lambda>type'.
     bindR (cfg_string (VStr description) ''tag.description'' True) (\<lambda>description'.
     bindR (cfg_mapping rt (VDict parameters) ''tag.parameters'') (\<lambda>parameters'.
     bindR (id_list rt (str_list trigger_ids) ''tag.trigger_ids'') (\<lambda>trigger_ids'.
     bindR (id_list rt (str_list variable_ids) ''tag.variable_ids'') (\<lambda>variable_ids'.
     bindR (cfg_purpose (opt_str consent_purpose)) (\<lambda>purpose.
     bindR (id_list rt (str_list destination_ids) ''tag.destination_ids'') (\<lambda>destination_ids'.
     bindR (cfg_string (VStr adapter_version) ''tag.adapter_version'' False) (\<lambda>adapter_version'.
     bindR (cfg_mapping rt
         (VDict (if compatibility = [] then DEFAULT_COMPATIBILITY else compatibility))
         ''tag.compatibility'') (\<lambda>compatibility'.
     bindR (case source_evidence of None \<Rightarrow> Inr None
        | Some e \<Rightarrow> bindR (cfg_mapping rt (VDict e) ''tag.source_evidence'') (\<lambda>e'. Inr (Some e')))
       (\<lambda>evidence.
     Inr \<lparr>tag_id = new_id, tag_name = name', tag_type = type', tag_description = description',
       tag_parameters = parameters', tag_trigger_ids = trigger_ids', tag_variable_ids = variable_ids',
       tag_consent_purpose = purpose, tag_destination_ids = destination_ids', tag_enabled = enabled,
       tag_adapter_version = adapter_version', tag_compatibility = compatibility',
       tag_source_evidence = evidence\<rparr>)))))))))))"

definition tag_to_dict :: "tag \<Rightarrow> pyval" where
  "tag_to_dict t = VDict [
     (''tag_id'', VStr (tag_id t)),
     (''name'', VStr (tag_name t)),
     (''description'', VStr (tag_description t)),
     (''type'', VStr (tag_type t)),
     (''parameters'', VDict (tag_parameters t)),
     (''trigger_ids'', str_list (tag_trigger_ids t)),
     (''variable_ids'', str_list (tag_variable_ids t)),
     (''consent_purpose'', opt_str (tag_consent_purpose t)),
     (''destination_ids'', str_list (tag_destination_ids t)),
     (''enabled'', VBool (tag_enabled t)),
     (''adapter_version'', VStr (tag_adapter_version t)),
     (''compatibility'', VDict (tag_compatibility t)),
     (''source_evidence'', case tag_source_evidence t of None \<Rightarrow> VNone | Some e \<Rightarrow> VDict e)]"

definition TAG_KEYS :: "string list" where
  "TAG_KEYS = [''tag_id'', ''name'', ''description'', ''type'', ''parameters'', ''trigger_ids'',
     ''variable_ids'', ''consent_purpose'', ''destination_ids'', ''enabled'', ''adapter_version'',
     ''compatibility'', ''source_evidence'']"

definition tag_from_dict :: "py_runtime \<Rightarrow> pyval \<Rightarrow> tag res" where
  "tag_from_dict rt v =
     bindR (cfg_mapping rt v ''tag'') (\<lambda>data.
     bindR (cfg_keys data TAG_KEYS ''tag'' [''tag_id'', ''name'', ''type'']) (\<lambda>_.
     bindR (bindR (dict_item data ''tag_id'') (\<lambda>x. validate_id rt x ''tag.tag_id'')) (\<lambda>i.
     bindR (bindR (dict_item data ''name'') validate_name) (\<lambda>name.
     bindR (cfg_string (get_or data ''description'' (VStr [])) ''tag.description'' True) (\<lambda>description.
     bindR (bindR (dict_item data ''type'') (\<lambda>x. cfg_string x ''tag.type'' False)) (\<lambda>type.
     bindR (cfg_mapping rt (get_or data ''parameters'' (VDict [])) ''tag.parameters'') (\<lambda>parameters.
     bindR (id_list rt (get_or data ''trigger_ids'' (VList [])) ''tag.trigger_ids'') (\<lambda>trigger_ids.
     bindR (id_list rt (get_or data ''variable_ids'' (VList [])) ''tag.variable_ids'') (\<lambda>variable_ids.
     bindR (cfg_purpose (get_or data ''consent_purpose'' VNone)) (\<lambda>purpose.
     bindR (id_list rt (get_or data ''destination_ids'' (VList [])) ''tag.destination_ids'')
       (\<lambda>destination_ids.
     bindR (cfg_bool (get_or data ''enabled'' (VBool True)) ''tag.enabled'') (\<lambda>enabled.
     bindR (cfg_string (get_or data ''adapter_version'' (VStr ''1'')) ''tag.adapter_version'' False)
       (\<lambda>adapter_version.
     bindR (cfg_mapping rt (get_or data ''compatibility'' (VDict DEFAULT_COMPATIBILITY))
       ''tag.compatibility'') (\<lambda>compatibility.
     bindR (if get_or data ''source_evidence'' VNone = VNone then Inr None
        else bindR (cfg_mapping rt (get_or data ''source_evidence'' VNone) ''tag.source_evidence'')
          (\<lambda>e. Inr (Some e))) (\<lambda>evidence.
     Inr \<lparr>tag_id = i, tag_name = name, tag_type = type, tag_description = description,
       tag_parameters = parameters, tag_trigger_ids = trigger_ids, tag_variable_ids = variable_ids,
       tag_consent_purpose = purpose, tag_destination_ids = destination_ids, tag_enabled = enabled,
       tag_adapter_version = adapter_version, tag_compatibility = compatibility,
       tag_source_evidence = evidence\<rparr>)))))))))))))))"

subsection \<open>Triggers\<close>

record trigger =
  trigger_id :: string
  trigger_name :: string
  trigger_type :: string
  trigger_conditions :: pyval
  trigger_priority :: int
  trigger_enabled :: bool

definition check_trigger_type :: "string \<Rightarrow> unit res" where
  "check_trigger_type t =
     (if t \<in> set TRIGGER_TYPES then Inr ()
      else Inl (ValidationError (''unsupported trigger type: '' @ repr_str t)))"

definition trigger_create ::
    "py_runtime \<Rightarrow> string \<Rightarrow> string \<Rightarrow> string \<Rightarrow> pyval option \<Rightarrow> int \<Rightarrow> bool \<Rightarrow> trigger res" where
  "trigger_create rt new_id name type conditions priority enabled =
     bindR (cfg_string (VStr type) ''trigger.type'' False) (\<lambda>type'.
     bindR (check_trigger_type type') (\<lambda>_.
     bindR (validate_name (VStr name)) (\<lambda>name'.
     bindR (validate_condition rt (case conditions of None \<Rightarrow> ALL_TRUE | Some c \<Rightarrow> c)) (\<lambda>conditions'.
     bindR (cfg_int (VInt priority) ''trigger.priority'') (\<lambda>priority'.
     bindR (cfg_bool (VBool enabled) ''trigger.enabled'') (\<lambda>enabled'.
     Inr \<lparr>trigger_id = new_id, trigger_name = name', trigger_type = type',
       trigger_conditions = conditions', trigger_priority = priority', trigger_enabled = enabled'\<rparr>))))))"

definition trigger_to_dict :: "trigger \<Rightarrow> pyval" where
  "trigger_to_dict t = VDict [
     (''trigger_id'', VStr (trigger_id t)),
     (''name'', VStr (trigger_name t)),
     (''type'', VStr (trigger_type t)),
     (''conditions'', trigger_conditions t),
     (''priority'', VInt (trigger_priority t)),
     (''enabled'', VBool (trigger_enabled t))]"

definition TRIGGER_KEYS :: "string list" where
  "TRIGGER_KEYS = [''trigger_id'', ''name'', ''type'', ''conditions'', ''priority'', ''enabled'']"

definition trigger_from_dict :: "py_runtime \<Rightarrow> pyval \<Rightarrow> trigger res" where
  "trigger_from_dict rt v =
     bindR (cfg_mapping rt v ''trigger'') (\<lambda>data.
     bindR (cfg_keys data TRIGGER_KEYS ''trigger'' [''trigger_id'', ''name'', ''type'']) (\<lambda>_.
     bindR (bindR (dict_item data ''type'') (\<lambda>x. cfg_string x ''trigger.type'' False)) (\<lambda>type.
     bindR (check_trigger_type type) (\<lambda>_.
     bindR (bindR (dict_item data ''trigger_id'') (\<lambda>x. validate_id rt x ''trigger.trigger_id'')) (\<lambda>i.
     bindR (bindR (dict_item data ''name'') validate_name) (\<lambda>name.
     bindR (validate_condition rt (get_or data ''conditions'' ALL_TRUE)) (\<lambda>conditions.
     bindR (cfg_int (get_or data ''priority'' (VInt 0)) ''trigger.priority'') (\<lambda>priority.
     bindR (cfg_bool (get_or data ''enabled'' (VBool True)) ''trigger.enabled'') (\<lambda>enabled.
     Inr \<lparr>trigger_id = i, trigger_name = name, trigger_type = type, trigger_conditions = conditions,
       trigger_priority = priority, trigger_enabled = enabled\<rparr>)))))))))"

subsection \<open>Variables\<close>

record variable =
  variable_id :: string
  variable_name :: string
  variable_type :: string
  variable_source :: string
  variable_source_ref :: pyval
  variable_default :: pyval
  variable_sensitive :: bool
  variable_enabled :: bool

text \<open>\<open>_source_ref\<close>.\<close>

definition source_ref :: "py_runtime \<Rightarrow> string \<Rightarrow> pyval \<Rightarrow> pyval res" where
  "source_ref rt source v =
     (if source \<in> set PAGE_SOURCES \<or> source = ''static'' then
        (if v \<noteq> VNone
         then Inl (ValidationError (''variable source '' @ repr_str source @ '' does not accept source_ref''))
         else Inr VNone)
      else if source \<in> {''data_layer'', ''event'', ''consent''} then
        (case v of
           VStr s \<Rightarrow> if dotted_path s then Inr v
             else Inl (ValidationError (''variable source '' @ repr_str source
               @ '' requires a dotted source_ref''))
         | _ \<Rightarrow> Inl (ValidationError (''variable source '' @ repr_str source
               @ '' requires a dotted source_ref'')))
      else if source = ''dom'' then
        (case v of
           VStr s \<Rightarrow> if s = [] then Inl (ValidationError ''DOM source_ref selector must not be empty'')
             else Inr v
         | VDict d \<Rightarrow>
             bindR (cfg_mapping rt v ''variable.source_ref'') (\<lambda>ref.
             bindR (cfg_keys ref [''selector'', ''attribute''] ''variable.source_ref'' [''selector'']) (\<lambda>_.
             bindR (bindR (dict_item ref ''selector'')
               (\<lambda>x. cfg_string x ''variable.source_ref.selector'' False)) (\<lambda>selector.
             let ref = dict_put ref ''selector'' (VStr selector) in
             (case map_of ref ''attribute'' of
                None \<Rightarrow> Inr (VDict ref)
              | Some a \<Rightarrow> bindR (cfg_string a ''variable.source_ref.attribute'' False) (\<lambda>attribute.
                  Inr (VDict (dict_put ref ''attribute'' (VStr attribute))))))))
         | _ \<Rightarrow> Inl (ValidationError ''DOM source_ref must be a selector or object''))
      else if source = ''computed'' then validate_expression rt v
      else Inl (ValidationError (''unsupported variable source: '' @ repr_str source)))"

definition check_variable_type :: "string \<Rightarrow> unit res" where
  "check_variable_type t =
     (if t \<in> set VARIABLE_TYPES then Inr ()
      else Inl (ValidationError (''unsupported variable type: '' @ repr_str t)))"

definition check_variable_source :: "string \<Rightarrow> unit res" where
  "check_variable_source s =
     (if s \<in> set VARIABLE_SOURCES then Inr ()
      else Inl (ValidationError (''unsupported variable source: '' @ repr_str s)))"

definition variable_create ::
    "py_runtime \<Rightarrow> string \<Rightarrow> string \<Rightarrow> string \<Rightarrow> string \<Rightarrow> pyval \<Rightarrow> pyval \<Rightarrow> bool \<Rightarrow> bool \<Rightarrow> variable res" where
  "variable_create rt new_id name type source ref dflt sensitive enabled =
     bindR (cfg_string (VStr type) ''variable.type'' False) (\<lambda>type'.
     bindR (check_variable_type type') (\<lambda>_.
     bindR (cfg_string (VStr source) ''variable.source'' False) (\<lambda>source'.
     bindR (check_variable_source source') (\<lambda>_.
     bindR (canonical_json rt dflt) (\<lambda>_.
     bindR (if dflt \<noteq> VNone then check_type rt dflt type' ''variable.default'' else Inr ()) (\<lambda>_.
     bindR (validate_name (VStr name)) (\<lambda>name'.
     bindR (source_ref rt source' ref) (\<lambda>ref'.
     Inr \<lparr>variable_id = new_id, variable_name = name', variable_type = type',
       variable_source = source', variable_source_ref = ref', variable_default = dflt,
       variable_sensitive = sensitive, variable_enabled = enabled\<rparr>))))))))"

definition variable_to_dict :: "variable \<Rightarrow> pyval" where
  "variable_to_dict v = VDict [
     (''variable_id'', VStr (variable_id v)),
     (''name'', VStr (variable_name v)),
     (''type'', VStr (variable_type v)),
     (''source'', VStr (variable_source v)),
     (''source_ref'', variable_source_ref v),
     (''default'', variable_default v),
     (''sensitive'', VBool (variable_sensitive v)),
     (''enabled'', VBool (variable_enabled v))]"

definition VARIABLE_KEYS :: "string list" where
  "VARIABLE_KEYS = [''variable_id'', ''name'', ''type'', ''source'', ''source_ref'', ''default'',
     ''sensitive'', ''enabled'']"

definition variable_from_dict :: "py_runtime \<Rightarrow> pyval \<Rightarrow> variable res" where
  "variable_from_dict rt v =
     bindR (cfg_mapping rt v ''variable'') (\<lambda>data.
     bindR (cfg_keys data VARIABLE_KEYS ''variable''
       [''variable_id'', ''name'', ''type'', ''source'']) (\<lambda>_.
     bindR (bindR (dict_item data ''type'') (\<lambda>x. cfg_string x ''variable.type'' False)) (\<lambda>type.
     bindR (check_variable_type type) (\<lambda>_.
     bindR (bindR (dict_item data ''source'') (\<lambda>x. cfg_string x ''variable.source'' False)) (\<lambda>source.
     bindR (check_variable_source source) (\<lambda>_.
     let dflt = get_or data ''default'' VNone in
     bindR (canonical_json rt dflt) (\<lambda>_.
     bindR (if dflt \<noteq> VNone then check_type rt dflt type ''variable.default'' else Inr ()) (\<lambda>_.
     bindR (bindR (dict_item data ''variable_id'') (\<lambda>x. validate_id rt x ''variable.variable_id'')) (\<lambda>i.
     bindR (bindR (dict_item data ''name'') validate_name) (\<lambda>name.
     bindR (source_ref rt source (get_or data ''source_ref'' VNone)) (\<lambda>ref.
     bindR (cfg_bool (get_or data ''sensitive'' (VBool False)) ''variable.sensitive'') (\<lambda>sensitive.
     bindR (cfg_bool (get_or data ''enabled'' (VBool True)) ''variable.enabled'') (\<lambda>enabled.
     Inr \<lparr>variable_id = i, variable_name = name, variable_type = type, variable_source = source,
       variable_source_ref = ref, variable_default = dflt, variable_sensitive = sensitive,
       variable_enabled = enabled\<rparr>)))))))))))))"

subsection \<open>Destinations\<close>

record destination =
  destination_id :: string
  destination_name :: string
  destination_kind :: string
  destination_config :: pydict
  destination_secret_refs :: "(string, string) dict"
  destination_enabled :: bool

text \<open>One entry of \<open>secret_refs\<close>, in \<open>create\<close> and in \<open>from_dict\<close>.\<close>

definition secret_entry :: "string \<times> pyval \<Rightarrow> (string \<times> string) res" where
  "secret_entry p =
     bindR (cfg_string (VStr (fst p)) ''destination.secret_refs key'' False) (\<lambda>key.
       if \<not> is_str (snd p)
       then Inl (ValidationError (''destination.secret_refs['' @ repr_str key @ ''] must be a string''))
       else bindR (parse_secret_ref (snd p)) (\<lambda>r. Inr (key, secret_ref_str r)))"

definition destination_create ::
    "py_runtime \<Rightarrow> string \<Rightarrow> string \<Rightarrow> string \<Rightarrow> pydict \<Rightarrow> (string, string) dict \<Rightarrow> bool \<Rightarrow> destination res" where
  "destination_create rt new_id name kind config secret_refs enabled =
     bindR (mapR (\<lambda>(k, raw). secret_entry (k, VStr raw)) secret_refs) (\<lambda>refs.
     bindR (validate_name (VStr name)) (\<lambda>name'.
     bindR (cfg_string (VStr kind) ''destination.kind'' False) (\<lambda>kind'.
     bindR (cfg_mapping rt (VDict config) ''destination.config'') (\<lambda>config'.
     Inr \<lparr>destination_id = new_id, destination_name = name', destination_kind = kind',
       destination_config = config', destination_secret_refs = refs, destination_enabled = enabled\<rparr>))))"

definition destination_to_dict :: "destination \<Rightarrow> pyval" where
  "destination_to_dict d = VDict [
     (''destination_id'', VStr (destination_id d)),
     (''name'', VStr (destination_name d)),
     (''kind'', VStr (destination_kind d)),
     (''config'', VDict (destination_config d)),
     (''secret_refs'', VDict (map (\<lambda>(k, r). (k, VStr r)) (destination_secret_refs d))),
     (''enabled'', VBool (destination_enabled d))]"

definition DESTINATION_KEYS :: "string list" where
  "DESTINATION_KEYS = [''destination_id'', ''name'', ''kind'', ''config'', ''secret_refs'', ''enabled'']"

definition destination_from_dict :: "py_runtime \<Rightarrow> pyval \<Rightarrow> destination res" where
  "destination_from_dict rt v =
     bindR (cfg_mapping rt v ''destination'') (\<lambda>data.
     bindR (cfg_keys data DESTINATION_KEYS ''destination'' [''destination_id'', ''name'', ''kind'']) (\<lambda>_.
     bindR (case get_or data ''secret_refs'' (VDict []) of
         VDict raw_refs \<Rightarrow> mapR secret_entry raw_refs
       | _ \<Rightarrow> Inl (ValidationError ''destination.secret_refs must be an object'')) (\<lambda>refs.
     bindR (bindR (dict_item data ''destination_id'')
       (\<lambda>x. validate_id rt x ''destination.destination_id'')) (\<lambda>i.
     bindR (bindR (dict_item data ''name'') validate_name) (\<lambda>name.
     bindR (bindR (dict_item data ''kind'') (\<lambda>x. cfg_string x ''destination.kind'' False)) (\<lambda>kind.
     bindR (cfg_mapping rt (get_or data ''config'' (VDict [])) ''destination.config'') (\<lambda>config.
     bindR (cfg_bool (get_or data ''enabled'' (VBool True)) ''destination.enabled'') (\<lambda>enabled.
     Inr \<lparr>destination_id = i, destination_name = name, destination_kind = kind,
       destination_config = config, destination_secret_refs = refs, destination_enabled = enabled\<rparr>))))))))"

subsection \<open>Payloads\<close>

record payload =
  payload_tags :: "tag list"
  payload_triggers :: "trigger list"
  payload_variables :: "variable list"
  payload_destinations :: "destination list"

definition payload_empty :: payload where
  "payload_empty = \<lparr>payload_tags = [], payload_triggers = [], payload_variables = [],
     payload_destinations = []\<rparr>"

definition payload_to_dict :: "payload \<Rightarrow> pyval" where
  "payload_to_dict p = VDict [
     (''tags'', VList (map tag_to_dict (payload_tags p))),
     (''triggers'', VList (map trigger_to_dict (payload_triggers p))),
     (''variables'', VList (map variable_to_dict (payload_variables p))),
     (''destinations'', VList (map destination_to_dict (payload_destinations p)))]"

definition payload_from_dict :: "py_runtime \<Rightarrow> pyval \<Rightarrow> payload res" where
  "payload_from_dict rt v =
     bindR (cfg_mapping rt v ''payload'') (\<lambda>data.
     bindR (cfg_keys data PAYLOAD_KEYS ''payload'' []) (\<lambda>_.
     bindR (mapping_tuple (tag_from_dict rt) tag_id (get_or data ''tags'' (VList []))
       ''payload.tags'') (\<lambda>tags.
     bindR (mapping_tuple (trigger_from_dict rt) trigger_id (get_or data ''triggers'' (VList []))
       ''payload.triggers'') (\<lambda>triggers.
     bindR (mapping_tuple (variable_from_dict rt) variable_id (get_or data ''variables'' (VList []))
       ''payload.variables'') (\<lambda>variables.
     bindR (mapping_tuple (destination_from_dict rt) destination_id
       (get_or data ''destinations'' (VList [])) ''payload.destinations'') (\<lambda>destinations.
     Inr \<lparr>payload_tags = tags, payload_triggers = triggers, payload_variables = variables,
       payload_destinations = destinations\<rparr>))))))"

definition object_count :: "payload \<Rightarrow> nat" where
  "object_count p = length (payload_tags p) + length (payload_triggers p)
     + length (payload_variables p) + length (payload_destinations p)"

text \<open>\<open>all_objects\<close>: every object with its kind, in the order the generator yields them.\<close>

datatype managed_object = OTag tag | OTrigger trigger | OVariable variable | ODestination destination

definition all_objects :: "payload \<Rightarrow> managed_object list" where
  "all_objects p = map OTag (payload_tags p) @ map OTrigger (payload_triggers p)
     @ map OVariable (payload_variables p) @ map ODestination (payload_destinations p)"

fun object_type :: "managed_object \<Rightarrow> string" where
  "object_type (OTag _) = ''tag''"
| "object_type (OTrigger _) = ''trigger''"
| "object_type (OVariable _) = ''variable''"
| "object_type (ODestination _) = ''destination''"

fun object_id :: "managed_object \<Rightarrow> string" where
  "object_id (OTag t) = tag_id t"
| "object_id (OTrigger t) = trigger_id t"
| "object_id (OVariable v) = variable_id v"
| "object_id (ODestination d) = destination_id d"

fun object_to_dict :: "managed_object \<Rightarrow> pyval" where
  "object_to_dict (OTag t) = tag_to_dict t"
| "object_to_dict (OTrigger t) = trigger_to_dict t"
| "object_to_dict (OVariable v) = variable_to_dict v"
| "object_to_dict (ODestination d) = destination_to_dict d"

end
