(* ===== verification/Codec.thy ===== *)
theory Codec
  imports Config
begin

section \<open>The contract between parsers and printers of stored objects\<close>

text \<open>
  Every stored class has a pair \<open>from_dict\<close> and \<open>to_dict\<close>.  The locale states what the store,
  the draft loader and the importer rely on: a parsed object satisfies the class invariant, and a
  printed object that satisfies it parses to itself.  \<open>keyed_codec\<close> adds the identity by which
  \<open>_mapping_tuple\<close> keeps the objects of a list apart.
\<close>

locale codec =
  fixes parse :: "pyval \<Rightarrow> 'a res" and print :: "'a \<Rightarrow> pyval" and inv :: "'a \<Rightarrow> bool"
  assumes parse_inv: "parse v = Inr x \<Longrightarrow> inv x"
    and parse_print: "inv x \<Longrightarrow> parse (print x) = Inr x"
begin

lemma reparse: "parse v = Inr x \<Longrightarrow> parse (print x) = Inr x"
  by (rule parse_print [OF parse_inv])

lemma print_inject: "inv x \<Longrightarrow> inv y \<Longrightarrow> print x = print y \<Longrightarrow> x = y"
  by (metis parse_print sum.inject(2))

lemma inv_iff: "inv x \<longleftrightarrow> parse (print x) = Inr x"
  by (rule iffI, erule parse_print, erule parse_inv)

lemma parse_all_print: "(\<And>x. x \<in> set xs \<Longrightarrow> inv x) \<Longrightarrow> mapR parse (map print xs) = Inr xs"
  by (induction xs) (simp_all add: parse_print)

lemma parse_all_inv: "mapR parse vs = Inr xs \<Longrightarrow> x \<in> set xs \<Longrightarrow> inv x"
  by (blast dest: mapR_Inr_set intro: parse_inv)

end

lemma mapping_tuple_loop_Inr:
  "mapping_tuple_loop parse identity items f seen = Inr xs \<longleftrightarrow>
     mapR parse items = Inr xs \<and> distinct (map identity xs) \<and> (\<forall>x \<in> set xs. identity x \<notin> set seen)"
proof (induction items arbitrary: xs seen)
  case (Cons item items)
  show ?case
  proof (cases "parse item")
    case (Inr x)
    have "mapping_tuple_loop parse identity (item # items) f seen = Inr xs \<longleftrightarrow>
        identity x \<notin> set seen \<and> (\<exists>ys. mapping_tuple_loop parse identity items f (identity x # seen) = Inr ys
          \<and> xs = x # ys)"
      by (auto simp: Inr bindR_Inr_iff)
    also have "\<dots> \<longleftrightarrow> identity x \<notin> set seen \<and> (\<exists>ys. mapR parse items = Inr ys \<and> distinct (map identity ys)
          \<and> (\<forall>y \<in> set ys. identity y \<notin> set (identity x # seen)) \<and> xs = x # ys)"
      unfolding Cons.IH by blast
    finally have step: "mapping_tuple_loop parse identity (item # items) f seen = Inr xs \<longleftrightarrow> \<dots>" .
    show ?thesis unfolding step by (auto simp: Inr bindR_Inr_iff image_iff) metis+
  qed simp
qed auto

lemma mapping_tuple_Inr:
  "mapping_tuple parse identity v f = Inr xs \<longleftrightarrow>
     (\<exists>items. v = VList items \<and> mapR parse items = Inr xs) \<and> distinct (map identity xs)"
  by (cases v) (auto simp: mapping_tuple_def mapping_tuple_loop_Inr)

locale keyed_codec = codec parse print inv
  for parse :: "pyval \<Rightarrow> 'a res" and print :: "'a \<Rightarrow> pyval" and inv :: "'a \<Rightarrow> bool" +
  fixes identity :: "'a \<Rightarrow> string"
begin

lemma tuple_inv:
  "mapping_tuple parse identity v f = Inr xs \<Longrightarrow> (\<forall>x \<in> set xs. inv x) \<and> distinct (map identity xs)"
  by (auto simp: mapping_tuple_Inr intro: parse_all_inv)

lemma tuple_print:
  "\<forall>x \<in> set xs. inv x \<Longrightarrow> distinct (map identity xs) \<Longrightarrow>
     mapping_tuple parse identity (VList (map print xs)) f = Inr xs"
  by (simp add: mapping_tuple_Inr parse_all_print)

end

subsection \<open>Field helpers\<close>

lemma cfg_mapping_Inr [res_simps]: "cfg_mapping rt v f = Inr d \<longleftrightarrow> v = VDict d \<and> finite_val v"
  by (cases v) (auto simp: cfg_mapping_def bindR_Inr_iff canonical_json_iff simp del: finite_val.simps)

lemma cfg_string_Inr [res_simps]: "cfg_string v f b = Inr s \<longleftrightarrow> v = VStr s \<and> (b \<or> s \<noteq> [])"
  by (cases v) (auto simp: cfg_string_def)

lemma cfg_bool_Inr [res_simps]: "cfg_bool v f = Inr b \<longleftrightarrow> v = VBool b"
  by (cases v) (auto simp: cfg_bool_def)

lemma cfg_int_Inr [res_simps]: "cfg_int v f = Inr i \<longleftrightarrow> v = VInt i"
  by (cases v) (auto simp: cfg_int_def)

lemma cfg_keys_Inr [res_simps]:
  "cfg_keys d expected f required = Inr u \<longleftrightarrow>
     set (keys d) \<subseteq> set expected \<and> set required \<subseteq> set (keys d)"
  by (auto simp: cfg_keys_def unknown_keys_empty_iff missing_keys_empty_iff)

lemma id_list_loop_Inr:
  "id_list_loop rt items f i seen = Inr ids \<longleftrightarrow>
     items = map VStr ids \<and> distinct ids \<and> (\<forall>x \<in> set ids. is_uuid x) \<and> set ids \<inter> set seen = {}"
  by (induction items arbitrary: i seen ids)
    (auto simp: bindR_Inr_iff if_Inl_Inr_iff validate_id_Inr Cons_eq_map_conv)

lemma id_list_Inr [res_simps]:
  "id_list rt v f = Inr ids \<longleftrightarrow> v = str_list ids \<and> distinct ids \<and> (\<forall>x \<in> set ids. is_uuid x)"
  by (cases v) (auto simp: id_list_def id_list_loop_Inr str_list_def)

lemma cfg_purpose_Inr [res_simps]:
  "cfg_purpose v = Inr p \<longleftrightarrow> v = opt_str p \<and> (\<forall>s. p = Some s \<longrightarrow> purpose_shape s)"
  by (cases v) (auto simp: cfg_purpose_def opt_str_def split: option.splits)

lemma check_trigger_type_Inr [res_simps]: "check_trigger_type t = Inr u \<longleftrightarrow> t \<in> set TRIGGER_TYPES"
  by (simp add: check_trigger_type_def)

lemma check_variable_type_Inr [res_simps]: "check_variable_type t = Inr u \<longleftrightarrow> t \<in> set VARIABLE_TYPES"
  by (simp add: check_variable_type_def)

lemma check_variable_source_Inr [res_simps]:
  "check_variable_source t = Inr u \<longleftrightarrow> t \<in> set VARIABLE_SOURCES"
  by (simp add: check_variable_source_def)

lemma str_list_inject [simp]: "str_list xs = str_list ys \<longleftrightarrow> xs = ys"
  by (auto simp: str_list_def inj_map_eq_map inj_def)

lemma opt_str_inject [simp]: "opt_str x = opt_str y \<longleftrightarrow> x = y"
  by (cases x; cases y) (auto simp: opt_str_def)

lemma finite_str_list [simp]: "finite_val (str_list xs)"
  by (simp add: str_list_def)

lemma finite_opt_str [simp]: "finite_val (opt_str x)"
  by (simp add: opt_str_def split: option.splits)

lemma finite_val_get_or:
  "finite_val (VDict d) \<Longrightarrow> finite_val v \<Longrightarrow> finite_val (get_or d k v)"
  by (simp add: get_or_def finite_val_map_of del: finite_val.simps split: option.splits)

lemma update_same: "map_of d k = Some v \<Longrightarrow> AList.update k v d = d"
  by (induction d) (auto split: if_splits)

lemma validate_condition_finite: "validate_condition rt v = Inr w \<Longrightarrow> finite_val w"
  by (auto simp: validate_condition_def res_simps)

lemma validate_expression_finite: "validate_expression rt v = Inr w \<Longrightarrow> finite_val w"
  by (simp add: validate_expression_Inr)

subsection \<open>Tags\<close>

definition wf_ids :: "string list \<Rightarrow> bool" where
  "wf_ids ids \<longleftrightarrow> distinct ids \<and> (\<forall>i \<in> set ids. is_uuid i)"

definition wf_tag :: "tag \<Rightarrow> bool" where
  "wf_tag t \<longleftrightarrow> is_uuid (tag_id t) \<and> good_name (tag_name t) \<and> tag_type t \<noteq> []
     \<and> finite_val (VDict (tag_parameters t)) \<and> wf_ids (tag_trigger_ids t)
     \<and> wf_ids (tag_variable_ids t) \<and> (\<forall>s. tag_consent_purpose t = Some s \<longrightarrow> purpose_shape s)
     \<and> wf_ids (tag_destination_ids t) \<and> tag_adapter_version t \<noteq> []
     \<and> finite_val (VDict (tag_compatibility t))
     \<and> (\<forall>e. tag_source_evidence t = Some e \<longrightarrow> finite_val (VDict e))"

lemma tag_from_dict_wf: "tag_from_dict rt v = Inr t \<Longrightarrow> wf_tag t"
  unfolding tag_from_dict_def bindR_Inr_iff
  by (elim exE conjE)
    (simp add: wf_tag_def wf_ids_def bindR_Inr_iff cfg_mapping_Inr cfg_string_Inr id_list_Inr
      cfg_purpose_Inr validate_id_Inr validate_name_Inr cfg_bool_Inr del: finite_val.simps split: if_splits; force)

lemma tag_reparse: "wf_tag t \<Longrightarrow> tag_from_dict rt (tag_to_dict t) = Inr t"
  by (cases "tag_source_evidence t")
    (simp_all add: tag_from_dict_def tag_to_dict_def wf_tag_def wf_ids_def bindR_Inr_iff cfg_mapping_Inr
      cfg_string_Inr id_list_Inr cfg_purpose_Inr validate_id_Inr validate_name_Inr cfg_bool_Inr
      cfg_keys_Inr dict_item_Inr get_or_def TAG_KEYS_def)

interpretation tag_codec: keyed_codec "tag_from_dict rt" tag_to_dict wf_tag tag_id
  by unfold_locales (fact tag_from_dict_wf, fact tag_reparse)

lemma tag_create_wf:
  "tag_create rt i name type descr params trs vars purp dests en av cmp ev = Inr t \<Longrightarrow> is_uuid i
     \<Longrightarrow> wf_tag t \<and> tag_id t = i"
  by (auto simp: tag_create_def wf_tag_def wf_ids_def bindR_Inr_iff cfg_mapping_Inr cfg_string_Inr
      id_list_Inr cfg_purpose_Inr validate_id_Inr validate_name_Inr cfg_bool_Inr str_list_def
      simp del: finite_val.simps split: if_splits option.splits)

subsection \<open>Triggers\<close>

definition wf_trigger :: "py_runtime \<Rightarrow> trigger \<Rightarrow> bool" where
  "wf_trigger rt t \<longleftrightarrow> is_uuid (trigger_id t) \<and> good_name (trigger_name t)
     \<and> trigger_type t \<in> set TRIGGER_TYPES
     \<and> validate_condition rt (trigger_conditions t) = Inr (trigger_conditions t)"

lemma trigger_type_nonempty: "t \<in> set TRIGGER_TYPES \<Longrightarrow> t \<noteq> []"
  by (auto simp: TRIGGER_TYPES_def)

lemma trigger_from_dict_wf: "trigger_from_dict rt v = Inr t \<Longrightarrow> wf_trigger rt t"
  by (auto simp: trigger_from_dict_def wf_trigger_def bindR_Inr_iff cfg_string_Inr validate_id_Inr
      validate_name_Inr check_trigger_type_Inr cfg_int_Inr cfg_bool_Inr
      intro: validate_condition_fixed)

lemma trigger_reparse: "wf_trigger rt t \<Longrightarrow> trigger_from_dict rt (trigger_to_dict t) = Inr t"
  by (simp add: trigger_from_dict_def trigger_to_dict_def wf_trigger_def bindR_Inr_iff cfg_mapping_Inr
      cfg_string_Inr cfg_int_Inr validate_id_Inr validate_name_Inr cfg_bool_Inr cfg_keys_Inr
      check_trigger_type_Inr dict_item_Inr get_or_def TRIGGER_KEYS_def trigger_type_nonempty
      validate_condition_finite [of rt "trigger_conditions t"])

interpretation trigger_codec: keyed_codec "trigger_from_dict rt" trigger_to_dict "wf_trigger rt" trigger_id
  by unfold_locales (fact trigger_from_dict_wf, fact trigger_reparse)

lemma trigger_create_wf:
  "trigger_create rt i name type conds prio en = Inr t \<Longrightarrow> is_uuid i
     \<Longrightarrow> wf_trigger rt t \<and> trigger_id t = i"
  by (auto simp: trigger_create_def wf_trigger_def bindR_Inr_iff cfg_string_Inr validate_id_Inr
      validate_name_Inr check_trigger_type_Inr intro: validate_condition_fixed)

subsection \<open>Variables\<close>

lemma source_ref_dom:
  assumes "source_ref rt ''dom'' v = Inr w"
  shows "w = v \<and> finite_val v"
proof (cases v)
  case (VDict d)
  with assms obtain sel where sel: "map_of d ''selector'' = Some (VStr sel)" and fin: "finite_val v"
    by (auto simp: source_ref_def PAGE_SOURCES_def bindR_Inr_iff cfg_mapping_Inr cfg_string_Inr
        dict_item_Inr)
  from assms VDict have "map_of d ''attribute'' = None \<or> (\<exists>a. map_of d ''attribute'' = Some (VStr a))"
    by (cases "map_of d ''attribute''")
      (auto simp: source_ref_def PAGE_SOURCES_def bindR_Inr_iff cfg_mapping_Inr cfg_string_Inr
        dict_item_Inr Let_def)
  then have "w = v" using assms VDict sel
    by (auto simp: source_ref_def PAGE_SOURCES_def bindR_Inr_iff cfg_string_Inr cfg_mapping_Inr
        dict_item_Inr Let_def update_same)
  with fin show ?thesis by simp
qed (use assms in \<open>auto simp: source_ref_def PAGE_SOURCES_def split: if_splits\<close>)

lemma source_ref_other:
  assumes "source_ref rt source v = Inr w" and "source \<noteq> ''dom''" and "source \<noteq> ''computed''"
  shows "w = v \<and> finite_val v"
proof (cases "source \<in> set PAGE_SOURCES \<or> source = ''static''")
  case True
  with assms show ?thesis by (auto simp: source_ref_def split: if_splits)
next
  case False
  with assms show ?thesis by (cases v) (auto simp: source_ref_def split: if_splits)
qed

lemma source_ref_again:
  assumes "source_ref rt source v = Inr w"
  shows "source_ref rt source w = Inr w"
proof (cases "source = ''computed''")
  case True
  with assms show ?thesis
    by (simp add: source_ref_def PAGE_SOURCES_def validate_expression_fixed)
next
  case False
  with assms source_ref_dom source_ref_other have "w = v" by metis
  with assms show ?thesis by simp
qed

lemma source_ref_finite:
  assumes "source_ref rt source v = Inr w"
  shows "finite_val w"
proof (cases "source = ''computed''")
  case True
  with assms show ?thesis
    by (simp add: source_ref_def PAGE_SOURCES_def validate_expression_finite)
next
  case False
  with assms source_ref_dom source_ref_other show ?thesis by metis
qed

definition wf_variable :: "py_runtime \<Rightarrow> variable \<Rightarrow> bool" where
  "wf_variable rt v \<longleftrightarrow> is_uuid (variable_id v) \<and> good_name (variable_name v)
     \<and> variable_type v \<in> set VARIABLE_TYPES \<and> variable_source v \<in> set VARIABLE_SOURCES
     \<and> finite_val (variable_default v)
     \<and> (variable_default v \<noteq> VNone \<longrightarrow>
          check_type rt (variable_default v) (variable_type v) ''variable.default'' = Inr ())
     \<and> source_ref rt (variable_source v) (variable_source_ref v) = Inr (variable_source_ref v)"

lemma variable_field_nonempty:
  "t \<in> set VARIABLE_TYPES \<Longrightarrow> t \<noteq> []" "s \<in> set VARIABLE_SOURCES \<Longrightarrow> s \<noteq> []"
  by (auto simp: VARIABLE_TYPES_def VARIABLE_SOURCES_def)

lemma variable_from_dict_wf: "variable_from_dict rt v = Inr x \<Longrightarrow> wf_variable rt x"
  unfolding variable_from_dict_def bindR_Inr_iff Let_def
  by (elim exE conjE)
    (simp add: wf_variable_def bindR_Inr_iff cfg_string_Inr validate_id_Inr validate_name_Inr
      check_variable_type_Inr check_variable_source_Inr cfg_bool_Inr canonical_json_iff
      split: if_splits; clarsimp simp: source_ref_again)

lemma variable_reparse: "wf_variable rt x \<Longrightarrow> variable_from_dict rt (variable_to_dict x) = Inr x"
  using source_ref_finite [of rt "variable_source x" "variable_source_ref x" "variable_source_ref x"]
  by (simp add: variable_from_dict_def variable_to_dict_def wf_variable_def bindR_Inr_iff cfg_mapping_Inr
      cfg_string_Inr validate_id_Inr validate_name_Inr cfg_bool_Inr cfg_keys_Inr
      check_variable_type_Inr check_variable_source_Inr dict_item_Inr get_or_def VARIABLE_KEYS_def
      canonical_json_iff Let_def variable_field_nonempty)

interpretation variable_codec:
  keyed_codec "variable_from_dict rt" variable_to_dict "wf_variable rt" variable_id
  by unfold_locales (fact variable_from_dict_wf, fact variable_reparse)

lemma variable_create_wf:
  "variable_create rt i name type src ref dflt sens en = Inr x \<Longrightarrow> is_uuid i
     \<Longrightarrow> wf_variable rt x \<and> variable_id x = i"
  by (auto simp: variable_create_def wf_variable_def bindR_Inr_iff cfg_string_Inr validate_id_Inr
      validate_name_Inr check_variable_type_Inr check_variable_source_Inr canonical_json_iff
      intro: source_ref_again split: if_splits)

subsection \<open>Destinations\<close>

definition wf_secret_entry :: "string \<times> string \<Rightarrow> bool" where
  "wf_secret_entry p \<longleftrightarrow> fst p \<noteq> [] \<and> (\<exists>r. parse_secret_ref (VStr (snd p)) = Inr r)"

definition wf_destination :: "destination \<Rightarrow> bool" where
  "wf_destination d \<longleftrightarrow> is_uuid (destination_id d) \<and> good_name (destination_name d)
     \<and> destination_kind d \<noteq> [] \<and> finite_val (VDict (destination_config d))
     \<and> (\<forall>p \<in> set (destination_secret_refs d). wf_secret_entry p)"

lemma secret_entry_Inr:
  "secret_entry (k, v) = Inr q \<longleftrightarrow> wf_secret_entry q \<and> k = fst q \<and> v = VStr (snd q)"
proof
  assume "secret_entry (k, v) = Inr q"
  then obtain r where r: "parse_secret_ref v = Inr r" "q = (k, secret_ref_str r)" "k \<noteq> []"
    by (auto simp: secret_entry_def bindR_Inr_iff cfg_string_Inr split: if_splits)
  with secret_ref_str_parse [OF r(1)] show "wf_secret_entry q \<and> k = fst q \<and> v = VStr (snd q)"
    by (auto simp: wf_secret_entry_def)
next
  assume "wf_secret_entry q \<and> k = fst q \<and> v = VStr (snd q)"
  then obtain r where "parse_secret_ref v = Inr r" "k \<noteq> []" "v = VStr (snd q)" "k = fst q"
    by (auto simp: wf_secret_entry_def)
  moreover from this(1,3) have "snd q = secret_ref_str r" using secret_ref_str_parse by fastforce
  ultimately show "secret_entry (k, v) = Inr q"
    by (cases q) (simp add: secret_entry_def bindR_Inr_iff cfg_string_Inr)
qed

lemma secret_entries_inv: "mapR secret_entry items = Inr refs \<Longrightarrow> p \<in> set refs \<Longrightarrow> wf_secret_entry p"
  by (metis mapR_Inr_set secret_entry_Inr surj_pair)

lemma secret_entries_print:
  "(\<forall>p \<in> set refs. wf_secret_entry p) \<Longrightarrow> mapR secret_entry (map (\<lambda>(k, r). (k, VStr r)) refs) = Inr refs"
proof (induction refs)
  case (Cons p refs)
  then have "secret_entry (fst p, VStr (snd p)) = Inr p" by (simp add: secret_entry_Inr)
  with Cons show ?case by (simp add: split_def)
qed simp

lemma destination_from_dict_wf: "destination_from_dict rt v = Inr d \<Longrightarrow> wf_destination d"
  unfolding destination_from_dict_def bindR_Inr_iff
  by (elim exE conjE)
    (auto simp: wf_destination_def bindR_Inr_iff cfg_string_Inr validate_id_Inr validate_name_Inr
      cfg_bool_Inr cfg_mapping_Inr simp del: finite_val.simps split: pyval.splits
      intro: secret_entries_inv)

lemma finite_secret_refs: "finite_val (VDict (map (\<lambda>(k, r). (k, VStr r)) refs))"
  by auto

lemma destination_reparse: "wf_destination d \<Longrightarrow> destination_from_dict rt (destination_to_dict d) = Inr d"
  using secret_entries_print [of "destination_secret_refs d"]
  by (auto simp: destination_from_dict_def destination_to_dict_def wf_destination_def bindR_Inr_iff
      cfg_mapping_Inr cfg_string_Inr validate_id_Inr validate_name_Inr cfg_bool_Inr cfg_keys_Inr
      dict_item_Inr get_or_def DESTINATION_KEYS_def finite_secret_refs)

interpretation destination_codec:
  keyed_codec "destination_from_dict rt" destination_to_dict wf_destination destination_id
  by unfold_locales (fact destination_from_dict_wf, fact destination_reparse)

lemma destination_create_wf:
  "destination_create rt i name kind config refs en = Inr d \<Longrightarrow> is_uuid i
     \<Longrightarrow> wf_destination d \<and> destination_id d = i"
proof -
  assume a: "destination_create rt i name kind config refs en = Inr d" and i: "is_uuid i"
  from a obtain rs where "mapR (\<lambda>(k, raw). secret_entry (k, VStr raw)) refs = Inr rs"
    "destination_secret_refs d = rs"
    by (auto simp: destination_create_def bindR_Inr_iff)
  then have "\<forall>p \<in> set (destination_secret_refs d). wf_secret_entry p"
    by (auto dest!: mapR_Inr_set simp: secret_entry_Inr)
  with a i show ?thesis
    by (auto simp: destination_create_def wf_destination_def bindR_Inr_iff cfg_mapping_Inr cfg_string_Inr
        validate_name_Inr simp del: finite_val.simps)
qed

subsection \<open>Payloads\<close>

definition wf_payload :: "py_runtime \<Rightarrow> payload \<Rightarrow> bool" where
  "wf_payload rt p \<longleftrightarrow>
     (\<forall>t \<in> set (payload_tags p). wf_tag t) \<and> distinct (map tag_id (payload_tags p)) \<and>
     (\<forall>t \<in> set (payload_triggers p). wf_trigger rt t) \<and> distinct (map trigger_id (payload_triggers p)) \<and>
     (\<forall>v \<in> set (payload_variables p). wf_variable rt v) \<and> distinct (map variable_id (payload_variables p)) \<and>
     (\<forall>d \<in> set (payload_destinations p). wf_destination d)
       \<and> distinct (map destination_id (payload_destinations p))"

lemma payload_from_dict_wf: "payload_from_dict rt v = Inr p \<Longrightarrow> wf_payload rt p"
  unfolding payload_from_dict_def bindR_Inr_iff
  by (elim exE conjE)
    (auto simp: wf_payload_def dest!: tag_codec.tuple_inv trigger_codec.tuple_inv
      variable_codec.tuple_inv destination_codec.tuple_inv)

lemma finite_to_dict:
  "wf_tag t \<Longrightarrow> finite_val (tag_to_dict t)"
  "wf_trigger rt g \<Longrightarrow> finite_val (trigger_to_dict g)"
  "wf_variable rt x \<Longrightarrow> finite_val (variable_to_dict x)"
  "wf_destination d \<Longrightarrow> finite_val (destination_to_dict d)"
proof -
  show "wf_tag t \<Longrightarrow> finite_val (tag_to_dict t)"
    by (auto simp: wf_tag_def tag_to_dict_def split: option.splits)
  show "wf_trigger rt g \<Longrightarrow> finite_val (trigger_to_dict g)"
    using validate_condition_finite [of rt "trigger_conditions g"]
    by (auto simp: wf_trigger_def trigger_to_dict_def)
  show "wf_variable rt x \<Longrightarrow> finite_val (variable_to_dict x)"
    using source_ref_finite [of rt "variable_source x" "variable_source_ref x"]
    by (auto simp: wf_variable_def variable_to_dict_def)
  show "wf_destination d \<Longrightarrow> finite_val (destination_to_dict d)"
    by (auto simp: wf_destination_def destination_to_dict_def)
qed

lemma payload_to_dict_finite: "wf_payload rt p \<Longrightarrow> finite_val (payload_to_dict p)"
  by (auto simp: payload_to_dict_def wf_payload_def finite_to_dict)

lemma payload_reparse: "wf_payload rt p \<Longrightarrow> payload_from_dict rt (payload_to_dict p) = Inr p"
  using payload_to_dict_finite [of rt p]
  by (simp add: payload_from_dict_def payload_to_dict_def wf_payload_def bindR_Inr_iff cfg_mapping_Inr
      cfg_keys_Inr get_or_def PAYLOAD_KEYS_def tag_codec.tuple_print trigger_codec.tuple_print
      variable_codec.tuple_print destination_codec.tuple_print)

interpretation payload_codec: codec "payload_from_dict rt" payload_to_dict "wf_payload rt"
  by unfold_locales (fact payload_from_dict_wf, fact payload_reparse)

lemma wf_payload_empty: "wf_payload rt payload_empty"
  by (simp add: wf_payload_def payload_empty_def)

subsection \<open>Properties\<close>

text \<open>
  C35: parsing untrusted JSON into a payload.  What \<open>ConfigPayload.from_dict\<close> accepts is
  well-formed (valid ids, names, types and conditions, computed references, secret references
  instead of secrets, no id twice in a list), and printing it and parsing it again gives the
  same payload.
\<close>
theorem payload_roundtrip:
  assumes "payload_from_dict rt v = Inr p"
  shows "wf_payload rt p \<and> payload_from_dict rt (payload_to_dict p) = Inr p"
  using payload_codec.parse_inv [OF assms] payload_codec.reparse [OF assms] by blast

definition sample_variable :: variable where
  "sample_variable = \<lparr>variable_id = ''00000000-0000-4000-8000-000000000001'', variable_name = ''plan'',
     variable_type = ''string'', variable_source = ''static'', variable_source_ref = VNone,
     variable_default = VStr ''pro'', variable_sensitive = False, variable_enabled = True\<rparr>"

definition sample_payload :: payload where
  "sample_payload = payload_empty\<lparr>payload_variables := [sample_variable]\<rparr>"

lemma wf_sample_payload: "wf_payload witness_runtime sample_payload"
  by (simp add: wf_payload_def sample_payload_def payload_empty_def wf_variable_def sample_variable_def
      is_uuid_def is_lower_hex_def is_decimal_def good_name_def validate_name_def py_strip_def
      py_lstrip_def is_space_def is_control_def MAX_NAME_LENGTH_def VARIABLE_TYPES_def
      VARIABLE_SOURCES_def check_type_def source_ref_def)

theorem payload_roundtrip_witness:
  "wf_payload witness_runtime sample_payload
    \<and> payload_from_dict witness_runtime (payload_to_dict sample_payload) = Inr sample_payload"
  by (rule payload_roundtrip) (rule payload_reparse [OF wf_sample_payload])

end
