(* ===== verification/Models.thy ===== *)
theory Models
  imports Codec
begin

section \<open>Persisted models (control/models.py)\<close>

text \<open>
  The records the store keeps: organizations, workspaces, containers, environments, audit events
  and configuration revisions.  \<open>create\<close> takes the fresh id and the time the code draws as
  arguments.  A revision number is a \<^typ>\<open>pyval\<close>, because \<open>isinstance(n, int)\<close> lets a boolean
  through.
\<close>

definition SCHEMA_VERSION :: string where "SCHEMA_VERSION = ''1.0''"

definition REVISION_STATUSES :: "string list" where
  "REVISION_STATUSES = [''draft'', ''validated'', ''published'', ''archived'']"

definition CONTAINER_STATUSES :: "string list" where
  "CONTAINER_STATUSES = [''active'', ''archived'']"

subsection \<open>Field helpers\<close>

definition mdl_mapping :: "pyval \<Rightarrow> string \<Rightarrow> pydict res" where
  "mdl_mapping v field = (case v of VDict d \<Rightarrow> Inr d
     | _ \<Rightarrow> Inl (ValidationError (field @ '' must be a JSON object'')))"

definition mdl_string :: "pyval \<Rightarrow> string \<Rightarrow> bool \<Rightarrow> string res" where
  "mdl_string v field allow_empty = (case v of
     VStr s \<Rightarrow> if \<not> allow_empty \<and> s = []
       then Inl (ValidationError (field @ '' must not be empty'')) else Inr s
   | _ \<Rightarrow> Inl (ValidationError (field @ '' must be a string'')))"

fun string_items :: "pyval list \<Rightarrow> string \<Rightarrow> nat \<Rightarrow> string list res" where
  "string_items [] field i = Inr []"
| "string_items (v # vs) field i =
     bindR (mdl_string v (field @ ''['' @ nat_str i @ '']'') False) (\<lambda>s.
     bindR (string_items vs field (Suc i)) (\<lambda>ss. Inr (s # ss)))"

definition string_tuple :: "pyval \<Rightarrow> string \<Rightarrow> string list res" where
  "string_tuple v field = (case v of VList vs \<Rightarrow> string_items vs field 0
     | _ \<Rightarrow> Inl (ValidationError (field @ '' must be a list of strings'')))"

fun object_items :: "pyval list \<Rightarrow> string \<Rightarrow> nat \<Rightarrow> pydict list res" where
  "object_items [] field i = Inr []"
| "object_items (v # vs) field i =
     bindR (mdl_mapping v (field @ ''['' @ nat_str i @ '']'')) (\<lambda>d.
     bindR (object_items vs field (Suc i)) (\<lambda>ds. Inr (d # ds)))"

definition object_tuple :: "pyval \<Rightarrow> string \<Rightarrow> pydict list res" where
  "object_tuple v field = (case v of VList vs \<Rightarrow> object_items vs field 0
     | _ \<Rightarrow> Inl (ValidationError (field @ '' must be a list of objects'')))"

definition check_unknown_keys :: "pydict \<Rightarrow> string list \<Rightarrow> string \<Rightarrow> unit res" where
  "check_unknown_keys d expected field =
     (if unknown_keys d expected \<noteq> []
      then Inl (ValidationError (field @ '' contains unknown field(s): ''
        @ join_with '', '' (unknown_keys d expected)))
      else Inr ())"

definition check_required_keys :: "pydict \<Rightarrow> string list \<Rightarrow> string \<Rightarrow> unit res" where
  "check_required_keys d required field =
     (let missing = filter (\<lambda>k. k \<notin> set (keys d)) required
      in if missing \<noteq> []
         then Inl (ValidationError (field @ '' is missing required field(s): '' @ join_with '', '' missing))
         else Inr ())"

text \<open>\<open>_external_refs\<close>: the loop over the parsed objects, with its index and the keys seen.\<close>

fun check_external_refs :: "pydict list \<Rightarrow> nat \<Rightarrow> (string \<times> string) list \<Rightarrow> unit res" where
  "check_external_refs [] i seen = Inr ()"
| "check_external_refs (ref # refs) i seen =
     bindR (mdl_string (get_or ref ''system'' VNone) (''external_refs['' @ nat_str i @ ''].system'') False) (\<lambda>system.
     bindR (mdl_string (get_or ref ''id'' VNone) (''external_refs['' @ nat_str i @ ''].id'') False) (\<lambda>ref_id.
       let key = (py_casefold system, py_casefold ref_id) in
       if key \<in> set seen
       then Inl (ValidationError (''external_refs contains duplicate '' @ system @ '':'' @ ref_id))
       else check_external_refs refs (Suc i) (key # seen)))"

definition external_refs_of :: "pyval \<Rightarrow> pydict list res" where
  "external_refs_of v = bindR (object_tuple v ''external_refs'') (\<lambda>refs.
     bindR (check_external_refs refs 0 []) (\<lambda>_. Inr refs))"

text \<open>\<open>d[k]\<close> passed on to a parser, and an optional field \<open>d.get(k)\<close> that may be null.\<close>

definition field :: "pydict \<Rightarrow> string \<Rightarrow> (pyval \<Rightarrow> 'a res) \<Rightarrow> 'a res" where
  "field d k parse = bindR (dict_item d k) parse"

definition optional :: "pyval \<Rightarrow> (pyval \<Rightarrow> 'a res) \<Rightarrow> 'a option res" where
  "optional v parse = (if v = VNone then Inr None else bindR (parse v) (\<lambda>x. Inr (Some x)))"

definition text_field :: "string \<Rightarrow> pyval \<Rightarrow> string res" where
  "text_field name v = mdl_string v name False"

subsection \<open>Organizations and workspaces\<close>

record organization =
  org_id :: string
  org_name :: string
  org_created_at :: string
  org_created_by :: string

definition organization_create :: "string \<Rightarrow> string \<Rightarrow> string \<Rightarrow> string \<Rightarrow> organization res" where
  "organization_create new_id now name created_by =
     bindR (validate_name (VStr name)) (\<lambda>name'.
     bindR (text_field ''created_by'' (VStr created_by)) (\<lambda>by'.
     Inr \<lparr>org_id = new_id, org_name = name', org_created_at = now, org_created_by = by'\<rparr>))"

definition organization_to_dict :: "organization \<Rightarrow> pyval" where
  "organization_to_dict x = VDict [
     (''org_id'', VStr (org_id x)),
     (''name'', VStr (org_name x)),
     (''created_at'', VStr (org_created_at x)),
     (''created_by'', VStr (org_created_by x))]"

definition ORGANIZATION_KEYS :: "string list" where
  "ORGANIZATION_KEYS = [''org_id'', ''name'', ''created_at'', ''created_by'']"

definition organization_from_dict :: "py_runtime \<Rightarrow> pyval \<Rightarrow> organization res" where
  "organization_from_dict rt v =
     bindR (mdl_mapping v ''organization'') (\<lambda>data.
     bindR (check_unknown_keys data ORGANIZATION_KEYS ''organization'') (\<lambda>_.
     bindR (check_required_keys data ORGANIZATION_KEYS ''organization'') (\<lambda>_.
     bindR (field data ''org_id'' (\<lambda>x. validate_id rt x ''org_id'')) (\<lambda>i.
     bindR (field data ''name'' validate_name) (\<lambda>name.
     bindR (field data ''created_at'' (text_field ''created_at'')) (\<lambda>created_at.
     bindR (field data ''created_by'' (text_field ''created_by'')) (\<lambda>created_by.
     Inr \<lparr>org_id = i, org_name = name, org_created_at = created_at, org_created_by = created_by\<rparr>)))))))"

record workspace =
  ws_id :: string
  ws_org_id :: string
  ws_name :: string
  ws_created_at :: string
  ws_created_by :: string

definition workspace_create ::
    "py_runtime \<Rightarrow> string \<Rightarrow> string \<Rightarrow> string \<Rightarrow> string \<Rightarrow> string \<Rightarrow> workspace res" where
  "workspace_create rt new_id now organization name created_by =
     bindR (validate_id rt (VStr organization) ''org_id'') (\<lambda>org.
     bindR (validate_name (VStr name)) (\<lambda>name'.
     bindR (text_field ''created_by'' (VStr created_by)) (\<lambda>by'.
     Inr \<lparr>ws_id = new_id, ws_org_id = org, ws_name = name', ws_created_at = now, ws_created_by = by'\<rparr>)))"

definition workspace_to_dict :: "workspace \<Rightarrow> pyval" where
  "workspace_to_dict x = VDict [
     (''workspace_id'', VStr (ws_id x)),
     (''org_id'', VStr (ws_org_id x)),
     (''name'', VStr (ws_name x)),
     (''created_at'', VStr (ws_created_at x)),
     (''created_by'', VStr (ws_created_by x))]"

definition WORKSPACE_KEYS :: "string list" where
  "WORKSPACE_KEYS = [''workspace_id'', ''org_id'', ''name'', ''created_at'', ''created_by'']"

definition workspace_from_dict :: "py_runtime \<Rightarrow> pyval \<Rightarrow> workspace res" where
  "workspace_from_dict rt v =
     bindR (mdl_mapping v ''workspace'') (\<lambda>data.
     bindR (check_unknown_keys data WORKSPACE_KEYS ''workspace'') (\<lambda>_.
     bindR (check_required_keys data (sort WORKSPACE_KEYS) ''workspace'') (\<lambda>_.
     bindR (field data ''workspace_id'' (\<lambda>x. validate_id rt x ''workspace_id'')) (\<lambda>i.
     bindR (field data ''org_id'' (\<lambda>x. validate_id rt x ''org_id'')) (\<lambda>org.
     bindR (field data ''name'' validate_name) (\<lambda>name.
     bindR (field data ''created_at'' (text_field ''created_at'')) (\<lambda>created_at.
     bindR (field data ''created_by'' (text_field ''created_by'')) (\<lambda>created_by.
     Inr \<lparr>ws_id = i, ws_org_id = org, ws_name = name, ws_created_at = created_at,
       ws_created_by = created_by\<rparr>))))))))"

subsection \<open>Containers\<close>

record container =
  ct_id :: string
  ct_org_id :: string
  ct_workspace_id :: string
  ct_name :: string
  ct_description :: string
  ct_site_urls :: "string list"
  ct_external_refs :: "pydict list"
  ct_created_at :: string
  ct_created_by :: string
  ct_status :: string

definition container_create ::
    "py_runtime \<Rightarrow> string \<Rightarrow> string \<Rightarrow> string \<Rightarrow> string \<Rightarrow> string option \<Rightarrow> string \<Rightarrow> string list
     \<Rightarrow> pydict list \<Rightarrow> string \<Rightarrow> container res" where
  "container_create rt now container_id organization workspace name description site_urls external_refs
      created_by =
     bindR (validate_container_id (VStr container_id)) (\<lambda>cid.
     bindR (validate_name (VStr (case name of Some n \<Rightarrow> n | None \<Rightarrow> cid))) (\<lambda>name'.
     bindR (external_refs_of (VList (map VDict external_refs))) (\<lambda>refs.
     bindR (validate_id rt (VStr organization) ''org_id'') (\<lambda>org.
     bindR (validate_id rt (VStr workspace) ''workspace_id'') (\<lambda>ws.
     bindR (mdl_string (VStr description) ''description'' True) (\<lambda>description'.
     bindR (string_tuple (str_list site_urls) ''site_urls'') (\<lambda>urls.
     bindR (text_field ''created_by'' (VStr created_by)) (\<lambda>by'.
     Inr \<lparr>ct_id = cid, ct_org_id = org, ct_workspace_id = ws, ct_name = name', ct_description = description',
       ct_site_urls = urls, ct_external_refs = refs, ct_created_at = now, ct_created_by = by',
       ct_status = ''active''\<rparr>))))))))"

definition uniqueness_key :: "container \<Rightarrow> string" where
  "uniqueness_key c = py_casefold (ct_id c)"

definition container_to_dict :: "container \<Rightarrow> pyval" where
  "container_to_dict c = VDict [
     (''container_id'', VStr (ct_id c)),
     (''org_id'', VStr (ct_org_id c)),
     (''workspace_id'', VStr (ct_workspace_id c)),
     (''name'', VStr (ct_name c)),
     (''description'', VStr (ct_description c)),
     (''site_urls'', str_list (ct_site_urls c)),
     (''external_refs'', VList (map VDict (ct_external_refs c))),
     (''created_at'', VStr (ct_created_at c)),
     (''created_by'', VStr (ct_created_by c)),
     (''status'', VStr (ct_status c))]"

definition CONTAINER_KEYS :: "string list" where
  "CONTAINER_KEYS = [''container_id'', ''org_id'', ''workspace_id'', ''name'', ''description'',
     ''site_urls'', ''external_refs'', ''created_at'', ''created_by'', ''status'']"

definition check_status :: "string \<Rightarrow> string list \<Rightarrow> string \<Rightarrow> unit res" where
  "check_status what allowed status =
     (if status \<in> set allowed then Inr ()
      else Inl (ValidationError (''unsupported '' @ what @ '' status: '' @ repr_str status)))"

definition container_from_dict :: "py_runtime \<Rightarrow> pyval \<Rightarrow> container res" where
  "container_from_dict rt v =
     bindR (mdl_mapping v ''container'') (\<lambda>data.
     bindR (check_unknown_keys data CONTAINER_KEYS ''container'') (\<lambda>_.
     bindR (check_required_keys data (sort CONTAINER_KEYS) ''container'') (\<lambda>_.
     bindR (field data ''status'' (text_field ''status'')) (\<lambda>status.
     bindR (check_status ''container'' CONTAINER_STATUSES status) (\<lambda>_.
     bindR (field data ''container_id'' validate_container_id) (\<lambda>cid.
     bindR (field data ''org_id'' (\<lambda>x. validate_id rt x ''org_id'')) (\<lambda>org.
     bindR (field data ''workspace_id'' (\<lambda>x. validate_id rt x ''workspace_id'')) (\<lambda>ws.
     bindR (field data ''name'' validate_name) (\<lambda>name.
     bindR (field data ''description'' (\<lambda>x. mdl_string x ''description'' True)) (\<lambda>description.
     bindR (field data ''site_urls'' (\<lambda>x. string_tuple x ''site_urls'')) (\<lambda>urls.
     bindR (field data ''external_refs'' external_refs_of) (\<lambda>refs.
     bindR (field data ''created_at'' (text_field ''created_at'')) (\<lambda>created_at.
     bindR (field data ''created_by'' (text_field ''created_by'')) (\<lambda>created_by.
     Inr \<lparr>ct_id = cid, ct_org_id = org, ct_workspace_id = ws, ct_name = name, ct_description = description,
       ct_site_urls = urls, ct_external_refs = refs, ct_created_at = created_at,
       ct_created_by = created_by, ct_status = status\<rparr>))))))))))))))"

subsection \<open>Environments\<close>

record environment =
  env_id :: string
  env_org_id :: string
  env_container_id :: string
  env_label :: string
  env_protected :: bool
  env_current :: "string option"
  env_created_at :: string
  env_created_by :: string
  env_previous :: "string option"
  env_updated_at :: "string option"
  env_updated_by :: "string option"

definition environment_create ::
    "py_runtime \<Rightarrow> string \<Rightarrow> string \<Rightarrow> string \<Rightarrow> string \<Rightarrow> string \<Rightarrow> bool \<Rightarrow> string \<Rightarrow> environment res" where
  "environment_create rt new_id now organization container_id name protected created_by =
     bindR (validate_id rt (VStr organization) ''org_id'') (\<lambda>org.
     bindR (validate_container_id (VStr container_id)) (\<lambda>cid.
     bindR (validate_name (VStr name)) (\<lambda>name'.
     bindR (text_field ''created_by'' (VStr created_by)) (\<lambda>by'.
     Inr \<lparr>env_id = new_id, env_org_id = org, env_container_id = cid, env_label = name',
       env_protected = protected, env_current = None, env_created_at = now, env_created_by = by',
       env_previous = None, env_updated_at = None, env_updated_by = None\<rparr>))))"

definition environment_to_dict :: "environment \<Rightarrow> pyval" where
  "environment_to_dict e = VDict [
     (''environment_id'', VStr (env_id e)),
     (''org_id'', VStr (env_org_id e)),
     (''container_id'', VStr (env_container_id e)),
     (''name'', VStr (env_label e)),
     (''protected'', VBool (env_protected e)),
     (''current_config_version'', opt_str (env_current e)),
     (''created_at'', VStr (env_created_at e)),
     (''created_by'', VStr (env_created_by e)),
     (''previous_config_version'', opt_str (env_previous e)),
     (''updated_at'', opt_str (env_updated_at e)),
     (''updated_by'', opt_str (env_updated_by e))]"

definition ENVIRONMENT_KEYS :: "string list" where
  "ENVIRONMENT_KEYS = [''environment_id'', ''org_id'', ''container_id'', ''name'', ''protected'',
     ''current_config_version'', ''created_at'', ''created_by'', ''previous_config_version'',
     ''updated_at'', ''updated_by'']"

definition ENVIRONMENT_REQUIRED :: "string list" where
  "ENVIRONMENT_REQUIRED = [''environment_id'', ''org_id'', ''container_id'', ''name'', ''protected'',
     ''current_config_version'', ''created_at'', ''created_by'']"

definition environment_from_dict :: "py_runtime \<Rightarrow> pyval \<Rightarrow> environment res" where
  "environment_from_dict rt v =
     bindR (mdl_mapping v ''environment'') (\<lambda>data.
     bindR (check_unknown_keys data ENVIRONMENT_KEYS ''environment'') (\<lambda>_.
     bindR (check_required_keys data ENVIRONMENT_REQUIRED ''environment'') (\<lambda>_.
     bindR (field data ''current_config_version'' (\<lambda>x. optional x
       (\<lambda>y. validate_id rt y ''current_config_version''))) (\<lambda>current.
     bindR (optional (get_or data ''previous_config_version'' VNone)
       (\<lambda>y. validate_id rt y ''previous_config_version'')) (\<lambda>previous.
     bindR (field data ''protected'' (\<lambda>x. case x of VBool b \<Rightarrow> Inr b
       | _ \<Rightarrow> Inl (ValidationError ''protected must be a boolean''))) (\<lambda>protected.
     bindR (field data ''created_at'' (text_field ''created_at'')) (\<lambda>created_at.
     bindR (field data ''created_by'' (text_field ''created_by'')) (\<lambda>created_by.
     bindR (optional (get_or data ''updated_at'' VNone) (text_field ''updated_at'')) (\<lambda>updated_at.
     bindR (optional (get_or data ''updated_by'' VNone) (text_field ''updated_by'')) (\<lambda>updated_by.
     bindR (field data ''environment_id'' (\<lambda>x. validate_id rt x ''environment_id'')) (\<lambda>i.
     bindR (field data ''org_id'' (\<lambda>x. validate_id rt x ''org_id'')) (\<lambda>org.
     bindR (field data ''container_id'' validate_container_id) (\<lambda>cid.
     bindR (field data ''name'' validate_name) (\<lambda>name.
     Inr \<lparr>env_id = i, env_org_id = org, env_container_id = cid, env_label = name,
       env_protected = protected, env_current = current, env_created_at = created_at,
       env_created_by = created_by, env_previous = previous, env_updated_at = updated_at,
       env_updated_by = updated_by\<rparr>))))))))))))))"

subsection \<open>Audit events\<close>

record audit_event =
  au_id :: string
  au_container_id :: string
  au_action :: string
  au_actor :: string
  au_created_at :: string
  au_result :: string
  au_environment_id :: "string option"
  au_config_version :: "string option"
  au_previous_version :: "string option"
  au_checksum :: "string option"
  au_previous_checksum :: "string option"
  au_details :: pydict
  au_sequence :: int

definition check_audit_result :: "string \<Rightarrow> string \<Rightarrow> unit res" where
  "check_audit_result what r =
     (if r = ''success'' \<or> r = ''failed'' then Inr ()
      else Inl (ValidationError (what @ ''.result must be '' @ repr_str ''success'' @ '' or ''
        @ repr_str ''failed'')))"

definition audit_create ::
    "py_runtime \<Rightarrow> string \<Rightarrow> string \<Rightarrow> string \<Rightarrow> string \<Rightarrow> string \<Rightarrow> string \<Rightarrow> string option
     \<Rightarrow> string option \<Rightarrow> string option \<Rightarrow> string option \<Rightarrow> string option \<Rightarrow> pydict \<Rightarrow> audit_event res" where
  "audit_create rt new_id now container_id action actor result environment_id config_version
      previous_version chk previous_chk details =
     bindR (text_field ''audit.action'' (VStr action)) (\<lambda>action'.
     bindR (check_audit_result ''audit'' result) (\<lambda>_.
     bindR (optional (opt_str environment_id) (\<lambda>x. validate_id rt x ''audit.environment_id'')) (\<lambda>env.
     bindR (optional (opt_str config_version) (\<lambda>x. validate_id rt x ''audit.config_version'')) (\<lambda>_.
     bindR (optional (opt_str previous_version)
       (\<lambda>x. validate_id rt x ''audit.previous_config_version'')) (\<lambda>_.
     bindR (optional (opt_str chk) (text_field ''audit.checksum'')) (\<lambda>_.
     bindR (optional (opt_str previous_chk) (text_field ''audit.previous_checksum'')) (\<lambda>_.
     bindR (canonical_json rt (VDict details)) (\<lambda>_.
     bindR (validate_container_id (VStr container_id)) (\<lambda>cid.
     bindR (text_field ''audit.actor'' (VStr actor)) (\<lambda>actor'.
     Inr \<lparr>au_id = new_id, au_container_id = cid, au_action = action', au_actor = actor',
       au_created_at = now, au_result = result, au_environment_id = env,
       au_config_version = config_version, au_previous_version = previous_version, au_checksum = chk,
       au_previous_checksum = previous_chk, au_details = details, au_sequence = 0\<rparr>))))))))))"

definition audit_to_dict :: "audit_event \<Rightarrow> pyval" where
  "audit_to_dict e = VDict [
     (''event_id'', VStr (au_id e)),
     (''container_id'', VStr (au_container_id e)),
     (''action'', VStr (au_action e)),
     (''actor'', VStr (au_actor e)),
     (''created_at'', VStr (au_created_at e)),
     (''result'', VStr (au_result e)),
     (''environment_id'', opt_str (au_environment_id e)),
     (''config_version'', opt_str (au_config_version e)),
     (''previous_config_version'', opt_str (au_previous_version e)),
     (''checksum'', opt_str (au_checksum e)),
     (''previous_checksum'', opt_str (au_previous_checksum e)),
     (''details'', VDict (au_details e)),
     (''sequence'', VInt (au_sequence e))]"

definition AUDIT_REQUIRED :: "string list" where
  "AUDIT_REQUIRED = [''event_id'', ''container_id'', ''action'', ''actor'', ''created_at'', ''result'',
     ''environment_id'', ''config_version'', ''previous_config_version'', ''checksum'',
     ''previous_checksum'', ''details'']"

definition audit_from_dict :: "py_runtime \<Rightarrow> pyval \<Rightarrow> audit_event res" where
  "audit_from_dict rt v =
     bindR (mdl_mapping v ''audit_event'') (\<lambda>data.
     bindR (check_unknown_keys data (AUDIT_REQUIRED @ [''sequence'']) ''audit_event'') (\<lambda>_.
     bindR (check_required_keys data (sort AUDIT_REQUIRED) ''audit_event'') (\<lambda>_.
     bindR (case get_or data ''sequence'' (VInt 0) of
         VInt n \<Rightarrow> if n < 0
           then Inl (ValidationError ''audit_event.sequence must be a non-negative integer'') else Inr n
       | _ \<Rightarrow> Inl (ValidationError ''audit_event.sequence must be a non-negative integer'')) (\<lambda>sequence.
     bindR (case get_or data ''details'' (VDict []) of
         VDict d \<Rightarrow> bindR (canonical_json rt (VDict d)) (\<lambda>_. Inr d)
       | _ \<Rightarrow> Inl (ValidationError ''audit_event.details must be a JSON object'')) (\<lambda>details.
     bindR (field data ''result'' (text_field ''audit_event.result'')) (\<lambda>result.
     bindR (check_audit_result ''audit_event'' result) (\<lambda>_.
     bindR (optional (get_or data ''checksum'' VNone) (text_field ''audit_event.checksum'')) (\<lambda>chk.
     bindR (optional (get_or data ''previous_checksum'' VNone)
       (text_field ''audit_event.previous_checksum'')) (\<lambda>previous_chk.
     bindR (field data ''event_id'' (\<lambda>x. validate_id rt x ''event_id'')) (\<lambda>i.
     bindR (field data ''container_id'' validate_container_id) (\<lambda>cid.
     bindR (field data ''action'' (text_field ''audit_event.action'')) (\<lambda>action.
     bindR (field data ''actor'' (text_field ''audit_event.actor'')) (\<lambda>actor.
     bindR (field data ''created_at'' (text_field ''audit_event.created_at'')) (\<lambda>created_at.
     bindR (optional (get_or data ''environment_id'' VNone)
       (\<lambda>x. validate_id rt x ''environment_id'')) (\<lambda>env.
     bindR (optional (get_or data ''config_version'' VNone)
       (\<lambda>x. validate_id rt x ''config_version'')) (\<lambda>version.
     bindR (optional (get_or data ''previous_config_version'' VNone)
       (\<lambda>x. validate_id rt x ''previous_config_version'')) (\<lambda>previous.
     Inr \<lparr>au_id = i, au_container_id = cid, au_action = action, au_actor = actor,
       au_created_at = created_at, au_result = result, au_environment_id = env,
       au_config_version = version, au_previous_version = previous, au_checksum = chk,
       au_previous_checksum = previous_chk, au_details = details, au_sequence = sequence\<rparr>)))))))))))))))))"

subsection \<open>Configuration revisions\<close>

record revision =
  rev_version :: string
  rev_container_id :: string
  rev_number :: pyval
  rev_schema :: string
  rev_parent :: "string option"
  rev_payload :: payload
  rev_checksum :: string
  rev_status :: string
  rev_created_at :: string
  rev_created_by :: string
  rev_notes :: string

text \<open>A revision number as an integer; only integers and \<open>True\<close> get past the checks.\<close>

definition number_of :: "pyval \<Rightarrow> int" where
  "number_of v = (case v of VInt n \<Rightarrow> n | VBool b \<Rightarrow> (if b then 1 else 0) | _ \<Rightarrow> 0)"

definition check_revision_number :: "pyval \<Rightarrow> pyval res" where
  "check_revision_number v =
     (if (case v of VInt n \<Rightarrow> n < 1 | VBool b \<Rightarrow> \<not> b | _ \<Rightarrow> True)
      then Inl (ValidationError ''revision_number must be a positive integer'') else Inr v)"

definition revision_checksum ::
    "py_runtime \<Rightarrow> string \<Rightarrow> string \<Rightarrow> pyval \<Rightarrow> string \<Rightarrow> string option \<Rightarrow> payload \<Rightarrow> string res" where
  "revision_checksum rt container_id config_version number schema parent p = checksum rt (VDict [
     (''container_id'', VStr container_id),
     (''config_version'', VStr config_version),
     (''revision_number'', number),
     (''schema_version'', VStr schema),
     (''parent_config_version'', opt_str parent),
     (''payload'', payload_to_dict p)])"

text \<open>The payload argument: absent, already parsed, or raw.\<close>

datatype payload_arg = NoPayload | Parsed payload | Raw pyval

definition parse_payload_arg :: "py_runtime \<Rightarrow> payload_arg \<Rightarrow> payload res" where
  "parse_payload_arg rt a = (case a of NoPayload \<Rightarrow> Inr payload_empty | Parsed p \<Rightarrow> Inr p
     | Raw v \<Rightarrow> payload_from_dict rt v)"

definition revision_create ::
    "py_runtime \<Rightarrow> string \<Rightarrow> string \<Rightarrow> string \<Rightarrow> pyval \<Rightarrow> string option \<Rightarrow> payload_arg \<Rightarrow> string
     \<Rightarrow> string \<Rightarrow> string \<Rightarrow> revision res" where
  "revision_create rt new_id now container_id number parent payload status created_by notes =
     bindR (validate_container_id (VStr container_id)) (\<lambda>cid.
     bindR (check_revision_number number) (\<lambda>number.
     bindR (optional (opt_str parent) (\<lambda>x. validate_id rt x ''parent_config_version'')) (\<lambda>_.
     bindR (check_status ''revision'' REVISION_STATUSES status) (\<lambda>_.
     bindR (parse_payload_arg rt payload) (\<lambda>p.
     bindR (revision_checksum rt cid new_id number SCHEMA_VERSION parent p) (\<lambda>digest.
     bindR (text_field ''created_by'' (VStr created_by)) (\<lambda>by'.
     bindR (mdl_string (VStr notes) ''notes'' True) (\<lambda>notes'.
     Inr \<lparr>rev_version = new_id, rev_container_id = cid, rev_number = number,
       rev_schema = SCHEMA_VERSION, rev_parent = parent, rev_payload = p, rev_checksum = digest,
       rev_status = status, rev_created_at = now, rev_created_by = by', rev_notes = notes'\<rparr>))))))))"

definition with_status :: "revision \<Rightarrow> string \<Rightarrow> revision res" where
  "with_status r status = bindR (check_status ''revision'' REVISION_STATUSES status)
     (\<lambda>_. Inr (r\<lparr>rev_status := status\<rparr>))"

definition verify_revision :: "py_runtime \<Rightarrow> revision \<Rightarrow> unit res" where
  "verify_revision rt r =
     bindR (revision_checksum rt (rev_container_id r) (rev_version r) (rev_number r) (rev_schema r)
       (rev_parent r) (rev_payload r)) (\<lambda>expected.
     if expected \<noteq> rev_checksum r
     then Inl (ValidationError (''checksum mismatch for revision '' @ rev_version r @ '': expected ''
       @ expected @ '', got '' @ rev_checksum r))
     else Inr ())"

definition revision_to_dict :: "revision \<Rightarrow> pyval" where
  "revision_to_dict r = VDict [
     (''config_version'', VStr (rev_version r)),
     (''container_id'', VStr (rev_container_id r)),
     (''revision_number'', rev_number r),
     (''schema_version'', VStr (rev_schema r)),
     (''parent_config_version'', opt_str (rev_parent r)),
     (''payload'', payload_to_dict (rev_payload r)),
     (''checksum'', VStr (rev_checksum r)),
     (''status'', VStr (rev_status r)),
     (''created_at'', VStr (rev_created_at r)),
     (''created_by'', VStr (rev_created_by r)),
     (''notes'', VStr (rev_notes r))]"

definition REVISION_KEYS :: "string list" where
  "REVISION_KEYS = [''config_version'', ''container_id'', ''revision_number'', ''schema_version'',
     ''parent_config_version'', ''payload'', ''checksum'', ''status'', ''created_at'', ''created_by'',
     ''notes'']"

definition revision_from_dict :: "py_runtime \<Rightarrow> pyval \<Rightarrow> revision res" where
  "revision_from_dict rt v =
     bindR (mdl_mapping v ''config_revision'') (\<lambda>data.
     bindR (check_unknown_keys data REVISION_KEYS ''config_revision'') (\<lambda>_.
     bindR (check_required_keys data (sort REVISION_KEYS) ''config_revision'') (\<lambda>_.
     bindR (field data ''revision_number'' check_revision_number) (\<lambda>number.
     bindR (field data ''config_version'' (\<lambda>x. validate_id rt x ''config_version'')) (\<lambda>version.
     bindR (field data ''container_id'' validate_container_id) (\<lambda>cid.
     bindR (field data ''schema_version'' (text_field ''schema_version'')) (\<lambda>schema.
     bindR (field data ''parent_config_version'' (\<lambda>x. optional x
       (\<lambda>y. validate_id rt y ''parent_config_version''))) (\<lambda>parent.
     bindR (field data ''payload'' (payload_from_dict rt)) (\<lambda>p.
     bindR (field data ''checksum'' (text_field ''checksum'')) (\<lambda>chk.
     bindR (field data ''status'' (text_field ''status'')) (\<lambda>status.
     bindR (field data ''created_at'' (text_field ''created_at'')) (\<lambda>created_at.
     bindR (field data ''created_by'' (text_field ''created_by'')) (\<lambda>created_by.
     bindR (field data ''notes'' (\<lambda>x. mdl_string x ''notes'' True)) (\<lambda>notes.
     let r = \<lparr>rev_version = version, rev_container_id = cid, rev_number = number, rev_schema = schema,
       rev_parent = parent, rev_payload = p, rev_checksum = chk, rev_status = status,
       rev_created_at = created_at, rev_created_by = created_by, rev_notes = notes\<rparr> in
     bindR (check_status ''revision'' REVISION_STATUSES status) (\<lambda>_.
     bindR (verify_revision rt r) (\<lambda>_. Inr r))))))))))))))))"

subsection \<open>Laws of the field helpers\<close>

lemma mdl_mapping_Inr [res_simps]: "mdl_mapping v f = Inr d \<longleftrightarrow> v = VDict d"
  by (cases v) (auto simp: mdl_mapping_def)

lemma mdl_string_Inr [res_simps]: "mdl_string v f b = Inr s \<longleftrightarrow> v = VStr s \<and> (b \<or> s \<noteq> [])"
  by (cases v) (auto simp: mdl_string_def)

lemma text_field_Inr [res_simps]: "text_field f v = Inr s \<longleftrightarrow> v = VStr s \<and> s \<noteq> []"
  by (simp add: text_field_def mdl_string_Inr)

lemma string_items_Inr: "string_items vs f i = Inr ss \<longleftrightarrow> vs = map VStr ss \<and> [] \<notin> set ss"
  by (induction vs arbitrary: i ss) (auto simp: bindR_Inr_iff mdl_string_Inr Cons_eq_map_conv)

lemma string_tuple_Inr [res_simps]: "string_tuple v f = Inr ss \<longleftrightarrow> v = str_list ss \<and> [] \<notin> set ss"
  by (cases v) (auto simp: string_tuple_def string_items_Inr str_list_def)

lemma object_items_Inr: "object_items vs f i = Inr ds \<longleftrightarrow> vs = map VDict ds"
  by (induction vs arbitrary: i ds) (auto simp: bindR_Inr_iff mdl_mapping_Inr Cons_eq_map_conv)

lemma dict_list_inject [simp]: "map VDict xs = map VDict ys \<longleftrightarrow> xs = ys"
  by (simp add: inj_map_eq_map inj_def)

lemma object_tuple_Inr: "object_tuple v f = Inr ds \<longleftrightarrow> v = VList (map VDict ds)"
  by (cases v) (auto simp: object_tuple_def object_items_Inr)

definition good_refs :: "pydict list \<Rightarrow> bool" where
  "good_refs refs \<longleftrightarrow> check_external_refs refs 0 [] = Inr ()"

lemma external_refs_of_Inr [res_simps]:
  "external_refs_of v = Inr refs \<longleftrightarrow> v = VList (map VDict refs) \<and> good_refs refs"
  by (auto simp: external_refs_of_def bindR_Inr_iff object_tuple_Inr good_refs_def)

lemma check_unknown_keys_Inr [res_simps]:
  "check_unknown_keys d expected f = Inr u \<longleftrightarrow> set (keys d) \<subseteq> set expected"
  by (auto simp: check_unknown_keys_def unknown_keys_empty_iff)

lemma check_required_keys_Inr [res_simps]:
  "check_required_keys d required f = Inr u \<longleftrightarrow> set required \<subseteq> set (keys d)"
  by (auto simp: check_required_keys_def filter_empty_conv)

lemma field_Inr [res_simps]: "field d k parse = Inr x \<longleftrightarrow> (\<exists>v. map_of d k = Some v \<and> parse v = Inr x)"
  by (auto simp: field_def bindR_Inr_iff dict_item_Inr)

lemma optional_Inr [res_simps]:
  "optional v parse = Inr x \<longleftrightarrow>
     v = VNone \<and> x = None \<or> v \<noteq> VNone \<and> (\<exists>y. parse v = Inr y \<and> x = Some y)"
  by (auto simp: optional_def bindR_Inr_iff)

definition opt_ok :: "(string \<Rightarrow> bool) \<Rightarrow> string option \<Rightarrow> bool" where
  "opt_ok ok x \<longleftrightarrow> (\<forall>s. x = Some s \<longrightarrow> ok s)"

lemma opt_ok_simps [simp]: "opt_ok ok None" "opt_ok ok (Some s) = ok s"
  by (simp_all add: opt_ok_def)

lemma optional_text [res_simps]:
  "optional v (text_field f) = Inr x \<longleftrightarrow> v = opt_str x \<and> opt_ok (\<lambda>s. s \<noteq> []) x"
  by (cases x) (auto simp: optional_Inr text_field_Inr opt_str_def)

lemma optional_id [res_simps]:
  "optional v (\<lambda>y. validate_id rt y f) = Inr x \<longleftrightarrow> v = opt_str x \<and> opt_ok is_uuid x"
  by (cases x) (auto simp: optional_Inr validate_id_Inr opt_str_def)

lemma check_status_Inr [res_simps]: "check_status w allowed s = Inr u \<longleftrightarrow> s \<in> set allowed"
  by (simp add: check_status_def)

lemma check_audit_result_Inr [res_simps]:
  "check_audit_result w r = Inr u \<longleftrightarrow> r = ''success'' \<or> r = ''failed''"
  by (auto simp: check_audit_result_def)

lemma check_revision_number_Inr [res_simps]:
  "check_revision_number v = Inr w \<longleftrightarrow> w = v \<and> 1 \<le> number_of v"
  by (cases v) (auto simp: check_revision_number_def number_of_def)

lemmas mdl_parsers = mdl_mapping_Inr mdl_string_Inr text_field_Inr string_tuple_Inr
  external_refs_of_Inr check_unknown_keys_Inr check_required_keys_Inr field_Inr optional_text
  optional_id check_status_Inr check_audit_result_Inr check_revision_number_Inr validate_id_Inr
  validate_name_Inr validate_container_id_Inr canonical_json_iff bindR_Inr_iff

subsection \<open>Organizations, workspaces and containers are codecs\<close>

definition wf_organization :: "organization \<Rightarrow> bool" where
  "wf_organization x \<longleftrightarrow> is_uuid (org_id x) \<and> good_name (org_name x) \<and> org_created_at x \<noteq> []
     \<and> org_created_by x \<noteq> []"

lemma organization_from_dict_wf: "organization_from_dict rt v = Inr x \<Longrightarrow> wf_organization x"
  unfolding organization_from_dict_def bindR_Inr_iff
  by (elim exE conjE) (auto simp: wf_organization_def mdl_parsers)

lemma organization_reparse:
  "wf_organization x \<Longrightarrow> organization_from_dict rt (organization_to_dict x) = Inr x"
  by (simp add: organization_from_dict_def organization_to_dict_def wf_organization_def mdl_parsers
      ORGANIZATION_KEYS_def)

interpretation organization_codec: codec "organization_from_dict rt" organization_to_dict wf_organization
  by unfold_locales (fact organization_from_dict_wf, fact organization_reparse)

definition wf_workspace :: "workspace \<Rightarrow> bool" where
  "wf_workspace x \<longleftrightarrow> is_uuid (ws_id x) \<and> is_uuid (ws_org_id x) \<and> good_name (ws_name x)
     \<and> ws_created_at x \<noteq> [] \<and> ws_created_by x \<noteq> []"

lemma workspace_from_dict_wf: "workspace_from_dict rt v = Inr x \<Longrightarrow> wf_workspace x"
  unfolding workspace_from_dict_def bindR_Inr_iff
  by (elim exE conjE) (auto simp: wf_workspace_def mdl_parsers)

lemma workspace_reparse: "wf_workspace x \<Longrightarrow> workspace_from_dict rt (workspace_to_dict x) = Inr x"
  by (simp add: workspace_from_dict_def workspace_to_dict_def wf_workspace_def mdl_parsers
      WORKSPACE_KEYS_def)

interpretation workspace_codec: codec "workspace_from_dict rt" workspace_to_dict wf_workspace
  by unfold_locales (fact workspace_from_dict_wf, fact workspace_reparse)

definition wf_container :: "container \<Rightarrow> bool" where
  "wf_container c \<longleftrightarrow> good_container_id (ct_id c) \<and> is_uuid (ct_org_id c) \<and> is_uuid (ct_workspace_id c)
     \<and> good_name (ct_name c) \<and> [] \<notin> set (ct_site_urls c) \<and> good_refs (ct_external_refs c)
     \<and> ct_created_at c \<noteq> [] \<and> ct_created_by c \<noteq> [] \<and> ct_status c \<in> set CONTAINER_STATUSES"

lemma container_status_nonempty: "s \<in> set CONTAINER_STATUSES \<Longrightarrow> s \<noteq> []"
  by (auto simp: CONTAINER_STATUSES_def)

lemma container_from_dict_wf: "container_from_dict rt v = Inr c \<Longrightarrow> wf_container c"
  unfolding container_from_dict_def bindR_Inr_iff
  by (elim exE conjE) (auto simp: wf_container_def mdl_parsers)

lemma container_reparse: "wf_container c \<Longrightarrow> container_from_dict rt (container_to_dict c) = Inr c"
  by (simp add: container_from_dict_def container_to_dict_def wf_container_def mdl_parsers
      CONTAINER_KEYS_def container_status_nonempty)

interpretation container_codec: codec "container_from_dict rt" container_to_dict wf_container
  by unfold_locales (fact container_from_dict_wf, fact container_reparse)

subsection \<open>Environments and audit events are codecs\<close>

definition wf_environment :: "environment \<Rightarrow> bool" where
  "wf_environment e \<longleftrightarrow> is_uuid (env_id e) \<and> is_uuid (env_org_id e) \<and> good_container_id (env_container_id e)
     \<and> good_name (env_label e) \<and> opt_ok is_uuid (env_current e) \<and> opt_ok is_uuid (env_previous e)
     \<and> env_created_at e \<noteq> [] \<and> env_created_by e \<noteq> [] \<and> opt_ok (\<lambda>s. s \<noteq> []) (env_updated_at e)
     \<and> opt_ok (\<lambda>s. s \<noteq> []) (env_updated_by e)"

lemma protected_Inr:
  "(case x of VBool b \<Rightarrow> Inr b | _ \<Rightarrow> Inl err) = Inr b \<longleftrightarrow> x = VBool b"
  by (cases x) auto

lemma environment_from_dict_wf: "environment_from_dict rt v = Inr e \<Longrightarrow> wf_environment e"
  unfolding environment_from_dict_def bindR_Inr_iff
  by (elim exE conjE) (simp add: wf_environment_def mdl_parsers; clarsimp)

lemma environment_reparse:
  "wf_environment e \<Longrightarrow> environment_from_dict rt (environment_to_dict e) = Inr e"
  by (simp add: environment_from_dict_def environment_to_dict_def wf_environment_def mdl_parsers
      ENVIRONMENT_KEYS_def ENVIRONMENT_REQUIRED_def protected_Inr get_or_def)

interpretation environment_codec: codec "environment_from_dict rt" environment_to_dict wf_environment
  by unfold_locales (fact environment_from_dict_wf, fact environment_reparse)

definition wf_audit_event :: "audit_event \<Rightarrow> bool" where
  "wf_audit_event e \<longleftrightarrow> is_uuid (au_id e) \<and> good_container_id (au_container_id e) \<and> au_action e \<noteq> []
     \<and> au_actor e \<noteq> [] \<and> au_created_at e \<noteq> [] \<and> (au_result e = ''success'' \<or> au_result e = ''failed'')
     \<and> opt_ok is_uuid (au_environment_id e) \<and> opt_ok is_uuid (au_config_version e)
     \<and> opt_ok is_uuid (au_previous_version e) \<and> opt_ok (\<lambda>s. s \<noteq> []) (au_checksum e)
     \<and> opt_ok (\<lambda>s. s \<noteq> []) (au_previous_checksum e) \<and> finite_val (VDict (au_details e))
     \<and> 0 \<le> au_sequence e"

lemma sequence_Inr:
  "(case v of VInt n \<Rightarrow> if n < 0 then Inl err else Inr n | _ \<Rightarrow> Inl err) = Inr n \<longleftrightarrow> v = VInt n \<and> 0 \<le> n"
  by (cases v) auto

lemma details_Inr:
  "(case v of VDict d \<Rightarrow> bindR (canonical_json rt (VDict d)) (\<lambda>_. Inr d) | _ \<Rightarrow> Inl err) = Inr d
     \<longleftrightarrow> v = VDict d \<and> finite_val (VDict d)"
  by (cases v) (auto simp: bindR_Inr_iff canonical_json_iff simp del: finite_val.simps)

lemma audit_from_dict_wf: "audit_from_dict rt v = Inr e \<Longrightarrow> wf_audit_event e"
  unfolding audit_from_dict_def bindR_Inr_iff
  by (elim exE conjE)
    (simp add: wf_audit_event_def mdl_parsers sequence_Inr details_Inr del: finite_val.simps; clarsimp)

lemma audit_reparse: "wf_audit_event e \<Longrightarrow> audit_from_dict rt (audit_to_dict e) = Inr e"
  by (auto simp: audit_from_dict_def audit_to_dict_def wf_audit_event_def mdl_parsers AUDIT_REQUIRED_def
      get_or_def sequence_Inr details_Inr simp del: finite_val.simps)

interpretation audit_codec: codec "audit_from_dict rt" audit_to_dict wf_audit_event
  by unfold_locales (fact audit_from_dict_wf, fact audit_reparse)

subsection \<open>Revisions\<close>

text \<open>A well-formed revision carries the checksum of its own content.\<close>

definition wf_revision :: "py_runtime \<Rightarrow> revision \<Rightarrow> bool" where
  "wf_revision rt r \<longleftrightarrow> is_uuid (rev_version r) \<and> good_container_id (rev_container_id r)
     \<and> 1 \<le> number_of (rev_number r) \<and> rev_schema r \<noteq> [] \<and> opt_ok is_uuid (rev_parent r)
     \<and> wf_payload rt (rev_payload r) \<and> rev_status r \<in> set REVISION_STATUSES \<and> rev_created_at r \<noteq> []
     \<and> rev_created_by r \<noteq> [] \<and> verify_revision rt r = Inr ()"

lemma verify_revision_Inr:
  "verify_revision rt r = Inr u \<longleftrightarrow> revision_checksum rt (rev_container_id r) (rev_version r) (rev_number r)
     (rev_schema r) (rev_parent r) (rev_payload r) = Inr (rev_checksum r)"
  by (auto simp: verify_revision_def bindR_Inr_iff split: if_splits)

lemma revision_checksum_nonempty: "revision_checksum rt c v n s p q = Inr d \<Longrightarrow> d \<noteq> []"
  by (auto simp: revision_checksum_def checksum_def bindR_Inr_iff)

lemma finite_number_of: "1 \<le> number_of v \<Longrightarrow> finite_val v"
  by (cases v) (auto simp: number_of_def)

lemma revision_from_dict_wf: "revision_from_dict rt v = Inr r \<Longrightarrow> wf_revision rt r"
  unfolding revision_from_dict_def bindR_Inr_iff Let_def
  by (elim exE conjE) (simp add: wf_revision_def mdl_parsers; clarsimp intro!: payload_codec.parse_inv)

lemma revision_reparse: "wf_revision rt r \<Longrightarrow> revision_from_dict rt (revision_to_dict r) = Inr r"
  using revision_checksum_nonempty [of rt "rev_container_id r" "rev_version r" "rev_number r"]
  by (auto simp: revision_from_dict_def revision_to_dict_def wf_revision_def mdl_parsers REVISION_KEYS_def
      verify_revision_Inr payload_codec.parse_print Let_def REVISION_STATUSES_def)

interpretation revision_codec: codec "revision_from_dict rt" revision_to_dict "wf_revision rt"
  by unfold_locales (fact revision_from_dict_wf, fact revision_reparse)

subsection \<open>What \<open>create\<close> builds\<close>

lemmas wf_models = wf_organization_def wf_workspace_def wf_container_def wf_environment_def
  wf_audit_event_def wf_revision_def

lemma organization_create_Inr:
  "organization_create new_id now name created_by = Inr x \<longleftrightarrow> good_name name \<and> created_by \<noteq> []
     \<and> x = \<lparr>org_id = new_id, org_name = name, org_created_at = now, org_created_by = created_by\<rparr>"
  by (auto simp: organization_create_def mdl_parsers)

lemma workspace_create_Inr:
  "workspace_create rt new_id now organization name created_by = Inr x \<longleftrightarrow>
     is_uuid organization \<and> good_name name \<and> created_by \<noteq> []
     \<and> x = \<lparr>ws_id = new_id, ws_org_id = organization, ws_name = name, ws_created_at = now,
         ws_created_by = created_by\<rparr>"
  by (auto simp: workspace_create_def mdl_parsers)

lemma container_create_Inr:
  assumes "container_create rt now cid organization workspace name description urls refs created_by = Inr c"
  shows "good_container_id cid \<and> is_uuid organization \<and> is_uuid workspace \<and> [] \<notin> set urls
    \<and> created_by \<noteq> [] \<and> ct_id c = cid \<and> ct_org_id c = organization \<and> ct_workspace_id c = workspace
    \<and> ct_created_at c = now \<and> ct_created_by c = created_by \<and> ct_status c = ''active''
    \<and> ct_site_urls c = urls \<and> ct_external_refs c = refs \<and> good_refs refs \<and> good_name (ct_name c)
    \<and> ct_description c = description \<and> (name = None \<longrightarrow> ct_name c = cid)"
  using assms unfolding container_create_def bindR_Inr_iff
  by (elim exE conjE) (auto simp: mdl_parsers split: option.splits)

lemma container_create_wf:
  "container_create rt now cid organization workspace name description urls refs created_by = Inr c
     \<Longrightarrow> now \<noteq> [] \<Longrightarrow> wf_container c"
  by (drule container_create_Inr) (simp add: wf_container_def CONTAINER_STATUSES_def)

lemma environment_create_Inr:
  "environment_create rt new_id now organization cid name protected created_by = Inr e \<longleftrightarrow>
     is_uuid organization \<and> good_container_id cid \<and> good_name name \<and> created_by \<noteq> []
     \<and> e = \<lparr>env_id = new_id, env_org_id = organization, env_container_id = cid, env_label = name,
         env_protected = protected, env_current = None, env_created_at = now,
         env_created_by = created_by, env_previous = None, env_updated_at = None, env_updated_by = None\<rparr>"
  by (auto simp: environment_create_def mdl_parsers)

lemma audit_create_Inr:
  "audit_create rt new_id now cid action actor result env version previous chk prev_chk details = Inr e \<longleftrightarrow>
     action \<noteq> [] \<and> (result = ''success'' \<or> result = ''failed'') \<and> opt_ok is_uuid env
     \<and> opt_ok is_uuid version \<and> opt_ok is_uuid previous \<and> opt_ok (\<lambda>s. s \<noteq> []) chk
     \<and> opt_ok (\<lambda>s. s \<noteq> []) prev_chk \<and> finite_val (VDict details) \<and> good_container_id cid \<and> actor \<noteq> []
     \<and> e = \<lparr>au_id = new_id, au_container_id = cid, au_action = action, au_actor = actor,
         au_created_at = now, au_result = result, au_environment_id = env, au_config_version = version,
         au_previous_version = previous, au_checksum = chk, au_previous_checksum = prev_chk,
         au_details = details, au_sequence = 0\<rparr>"
  unfolding audit_create_def bindR_Inr_iff
  by (simp add: mdl_parsers del: finite_val.simps) auto

lemma audit_create_wf:
  "audit_create rt new_id now cid action actor result env version previous chk prev_chk details = Inr e
     \<Longrightarrow> is_uuid new_id \<Longrightarrow> now \<noteq> [] \<Longrightarrow> wf_audit_event e"
  by (simp add: audit_create_Inr wf_audit_event_def del: finite_val.simps)

lemma revision_create_Inr:
  assumes "revision_create rt new_id now cid number parent payload status created_by notes = Inr r"
  shows "good_container_id cid \<and> 1 \<le> number_of number \<and> opt_ok is_uuid parent
    \<and> status \<in> set REVISION_STATUSES \<and> created_by \<noteq> []
    \<and> parse_payload_arg rt payload = Inr (rev_payload r) \<and> rev_version r = new_id
    \<and> rev_container_id r = cid \<and> rev_number r = number \<and> rev_schema r = SCHEMA_VERSION
    \<and> rev_parent r = parent \<and> rev_status r = status \<and> rev_created_at r = now
    \<and> rev_created_by r = created_by \<and> rev_notes r = notes \<and> verify_revision rt r = Inr ()"
  using assms unfolding revision_create_def bindR_Inr_iff
  by (elim exE conjE) (auto simp: mdl_parsers verify_revision_Inr)

lemma revision_create_wf:
  assumes "revision_create rt new_id now cid number parent payload status created_by notes = Inr r"
    and "is_uuid new_id" and "now \<noteq> []" and "wf_payload rt (rev_payload r)"
  shows "wf_revision rt r"
  using revision_create_Inr [OF assms(1)] assms(2-4) by (simp add: wf_revision_def SCHEMA_VERSION_def)

lemma with_status_Inr:
  "with_status r status = Inr r' \<longleftrightarrow> status \<in> set REVISION_STATUSES \<and> r' = r\<lparr>rev_status := status\<rparr>"
  by (auto simp: with_status_def mdl_parsers)

lemma verify_status_update [simp]: "verify_revision rt (r\<lparr>rev_status := s\<rparr>) = verify_revision rt r"
  by (simp add: verify_revision_def cong: if_cong)

text \<open>What is printed for a well-formed object is JSON the store can write.\<close>

lemma finite_model_dicts:
  "finite_val (organization_to_dict x)" "finite_val (workspace_to_dict w)"
  "finite_val (environment_to_dict e)" "wf_audit_event a \<Longrightarrow> finite_val (audit_to_dict a)"
  "wf_revision rt r \<Longrightarrow> finite_val (revision_to_dict r)"
  using payload_to_dict_finite [of rt "rev_payload r"] finite_number_of [of "rev_number r"]
  by (auto simp: organization_to_dict_def workspace_to_dict_def environment_to_dict_def audit_to_dict_def
      revision_to_dict_def wf_models)

subsection \<open>Properties\<close>

text \<open>
  Exactly the well-formed records can be read back from what the store writes for them: valid
  identifiers and names, non-empty timestamps and actors, a known status, a non-negative audit
  sequence.  A record that violates one of these can be written but is unreadable afterwards.
\<close>
theorem stored_models_readable_iff:
  "(wf_organization x \<longleftrightarrow> organization_from_dict rt (organization_to_dict x) = Inr x)
   \<and> (wf_workspace w \<longleftrightarrow> workspace_from_dict rt (workspace_to_dict w) = Inr w)
   \<and> (wf_container c \<longleftrightarrow> container_from_dict rt (container_to_dict c) = Inr c)
   \<and> (wf_environment e \<longleftrightarrow> environment_from_dict rt (environment_to_dict e) = Inr e)
   \<and> (wf_audit_event a \<longleftrightarrow> audit_from_dict rt (audit_to_dict a) = Inr a)
   \<and> (wf_revision rt r \<longleftrightarrow> revision_from_dict rt (revision_to_dict r) = Inr r)"
  by (intro conjI organization_codec.inv_iff workspace_codec.inv_iff container_codec.inv_iff
      environment_codec.inv_iff audit_codec.inv_iff revision_codec.inv_iff)

lemma revision_reparse_same:
  "revision_from_dict rt (revision_to_dict r) = Inr r' \<Longrightarrow> wf_payload rt (rev_payload r) \<Longrightarrow> r' = r"
  unfolding revision_from_dict_def bindR_Inr_iff Let_def
  by (elim exE conjE) (simp add: revision_to_dict_def mdl_parsers;
      clarsimp simp: payload_codec.parse_print)

text \<open>
  Integrity of revisions.  Whatever \<open>ConfigRevision.from_dict\<close> accepts carries the checksum of
  its own container, version, number, schema, parent and payload.  The stored form of the revision
  with another checksum is refused, and so is the one with another well-formed payload, unless the
  two payloads have the same checksum.
\<close>
theorem accepted_revision_is_intact:
  assumes "revision_from_dict rt v = Inr r" and "chk \<noteq> rev_checksum r" and "wf_payload rt q"
    and "revision_checksum rt (rev_container_id r) (rev_version r) (rev_number r) (rev_schema r)
      (rev_parent r) q \<noteq> Inr (rev_checksum r)"
  shows "verify_revision rt r = Inr ()
    \<and> (\<exists>e. revision_from_dict rt (revision_to_dict (r\<lparr>rev_checksum := chk\<rparr>)) = Inl e)
    \<and> (\<exists>e. revision_from_dict rt (revision_to_dict (r\<lparr>rev_payload := q\<rparr>)) = Inl e)"
proof -
  have wf: "wf_revision rt r" by (rule revision_from_dict_wf [OF assms(1)])
  have refused: "\<exists>e. revision_from_dict rt (revision_to_dict r') = Inl e"
    if "verify_revision rt r' \<noteq> Inr ()" "wf_payload rt (rev_payload r')" for r'
    using that revision_reparse_same [of rt r'] revision_from_dict_wf [of rt "revision_to_dict r'"]
    by (cases "revision_from_dict rt (revision_to_dict r')") (auto simp: wf_revision_def)
  from wf assms(2) have "verify_revision rt (r\<lparr>rev_checksum := chk\<rparr>) \<noteq> Inr ()"
    by (auto simp: wf_revision_def verify_revision_Inr)
  moreover from assms(4) have "verify_revision rt (r\<lparr>rev_payload := q\<rparr>) \<noteq> Inr ()"
    by (simp add: verify_revision_Inr)
  ultimately show ?thesis using wf assms(3) by (simp add: refused wf_revision_def)
qed

definition sample_revision :: revision where
  "sample_revision = \<lparr>rev_version = ''00000000-0000-4000-8000-000000000010'', rev_container_id = ''shop'',
     rev_number = VInt 1, rev_schema = SCHEMA_VERSION, rev_parent = None, rev_payload = sample_payload,
     rev_checksum = (case revision_checksum witness_runtime ''shop''
       ''00000000-0000-4000-8000-000000000010'' (VInt 1) SCHEMA_VERSION None sample_payload of
       Inr d \<Rightarrow> d | Inl _ \<Rightarrow> []),
     rev_status = ''draft'', rev_created_at = ''2024'', rev_created_by = ''local'', rev_notes = []\<rparr>"

lemma wf_sample_revision: "wf_revision witness_runtime sample_revision"
proof -
  have "finite_val (payload_to_dict sample_payload)"
    by (rule payload_to_dict_finite [OF wf_sample_payload])
  then have "verify_revision witness_runtime sample_revision = Inr ()"
    by (simp add: verify_revision_Inr sample_revision_def revision_checksum_def checksum_def
        bindR_Inr_iff canonical_json_iff split: sum.splits)
  then show ?thesis unfolding wf_revision_def using wf_sample_payload
    by simp (simp add: sample_revision_def is_uuid_def is_lower_hex_def is_decimal_def good_container_id_iff
        container_id_shape_def container_id_char_def is_ascii_letter_def number_of_def SCHEMA_VERSION_def
        REVISION_STATUSES_def)
qed

lemma sample_payload_text:
  "json_dumps witness_runtime (payload_to_dict sample_payload)
     \<noteq> json_dumps witness_runtime (payload_to_dict payload_empty)"
  by (simp add: payload_to_dict_def sample_payload_def payload_empty_def variable_to_dict_def)

theorem accepted_revision_is_intact_witness:
  "\<exists>e. revision_from_dict witness_runtime (revision_to_dict (sample_revision\<lparr>rev_payload := payload_empty\<rparr>))
     = Inl e"
proof -
  have "finite_val (payload_to_dict sample_payload)" "finite_val (payload_to_dict payload_empty)"
    by (rule payload_to_dict_finite [OF wf_sample_payload], rule payload_to_dict_finite [OF wf_payload_empty])
  then have "revision_checksum witness_runtime (rev_container_id sample_revision)
      (rev_version sample_revision) (rev_number sample_revision) (rev_schema sample_revision)
      (rev_parent sample_revision) payload_empty \<noteq> Inr (rev_checksum sample_revision)"
    using sample_payload_text
    by (simp add: sample_revision_def revision_checksum_def checksum_def witness_runtime_def)
  moreover have "[] \<noteq> rev_checksum sample_revision"
    using wf_sample_revision by (metis revision_checksum_nonempty verify_revision_Inr wf_revision_def)
  ultimately show ?thesis
    using accepted_revision_is_intact [OF revision_reparse [OF wf_sample_revision]] wf_payload_empty
    by blast
qed

text \<open>
  A revision built by \<open>ConfigRevision.create\<close> from a raw JSON payload, with a valid fresh id and a
  timestamp, is well-formed: it can be stored, read back unchanged and verified, and a change of its
  status keeps that.
\<close>
theorem created_revision_is_storable:
  assumes "revision_create rt new_id now cid number parent (Raw v) status created_by notes = Inr r"
    and "is_uuid new_id" and "now \<noteq> []" and "with_status r status' = Inr r'"
  shows "revision_from_dict rt (revision_to_dict r) = Inr r
    \<and> revision_from_dict rt (revision_to_dict r') = Inr r' \<and> rev_checksum r' = rev_checksum r"
proof -
  have "wf_payload rt (rev_payload r)"
    using revision_create_Inr [OF assms(1)] by (auto simp: parse_payload_arg_def intro: payload_codec.parse_inv)
  with assms have "wf_revision rt r" by (blast intro: revision_create_wf)
  moreover with assms(4) have "wf_revision rt r'" "rev_checksum r' = rev_checksum r"
    by (auto simp: with_status_Inr wf_revision_def)
  ultimately show ?thesis by (simp add: revision_codec.parse_print)
qed

lemma create_sample_revision:
  "\<exists>r. revision_create witness_runtime ''00000000-0000-4000-8000-000000000010'' ''2024'' ''shop'' (VInt 1)
     None (Raw (payload_to_dict sample_payload)) ''draft'' ''local'' [] = Inr r"
proof -
  have "good_container_id ''shop''"
    by (simp add: good_container_id_iff container_id_shape_def container_id_char_def is_ascii_letter_def)
  then show ?thesis
    using payload_to_dict_finite [OF wf_sample_payload] payload_reparse [OF wf_sample_payload]
    by (simp add: revision_create_def mdl_parsers parse_payload_arg_def number_of_def
        REVISION_STATUSES_def revision_checksum_def checksum_def opt_str_def optional_def)
qed

theorem created_revision_is_storable_witness:
  "\<exists>r. revision_from_dict witness_runtime (revision_to_dict r) = Inr r \<and> rev_status r = ''published''"
proof -
  from create_sample_revision obtain r where r: "revision_create witness_runtime
     ''00000000-0000-4000-8000-000000000010'' ''2024'' ''shop'' (VInt 1) None
     (Raw (payload_to_dict sample_payload)) ''draft'' ''local'' [] = Inr r" ..
  have "is_uuid ''00000000-0000-4000-8000-000000000010''"
    by (simp add: is_uuid_def is_lower_hex_def is_decimal_def)
  moreover have "with_status r ''published'' = Inr (r\<lparr>rev_status := ''published''\<rparr>)"
    by (simp add: with_status_Inr REVISION_STATUSES_def)
  ultimately show ?thesis using created_revision_is_storable [OF r, of "''published''"]
    by (intro exI [of _ "r\<lparr>rev_status := ''published''\<rparr>"]) simp
qed

end
