(* ===== verification/Schema.thy ===== *)
theory Schema
  imports Models
begin

section \<open>Document envelopes (control/schema.py)\<close>

text \<open>
  Every stored document is an object of three fields: the schema version, the kind and the data.
  Reading fails closed on any other version, kind or shape.
\<close>

definition CURRENT_SCHEMA_VERSION :: string where
  "CURRENT_SCHEMA_VERSION = SCHEMA_VERSION"

definition DOCUMENT_KINDS :: "string list" where
  "DOCUMENT_KINDS = [''store'', ''organization'', ''workspace'', ''container'', ''environment'',
     ''audit_event'', ''config_revision'', ''container_export'']"

text \<open>\<open>_SCHEMA_RE\<close>: two decimal numerals without leading zeros, separated by a dot.\<close>

definition numeral_shape :: "string \<Rightarrow> bool" where
  "numeral_shape s \<longleftrightarrow> s = ''0'' \<or> s \<noteq> [] \<and> hd s \<noteq> CHR ''0'' \<and> list_all is_decimal s"

definition schema_shape :: "string \<Rightarrow> bool" where
  "schema_shape s \<longleftrightarrow> (case split_on (CHR ''.'') s of
     [a, b] \<Rightarrow> numeral_shape a \<and> numeral_shape b | _ \<Rightarrow> False)"

definition parse_schema_version :: "py_runtime \<Rightarrow> pyval \<Rightarrow> (nat \<times> nat) res" where
  "parse_schema_version rt v =
     (let bad = Inl (SchemaVersionError (''invalid schema_version: '' @ py_repr rt v)) in
      case v of
        VStr s \<Rightarrow> if \<not> schema_shape s then bad
          else (case split_on (CHR ''.'') s of
              [a, b] \<Rightarrow> Inr (digits_value a, digits_value b) | _ \<Rightarrow> bad)
      | _ \<Rightarrow> bad)"

definition ensure_supported_schema :: "py_runtime \<Rightarrow> pyval \<Rightarrow> string res" where
  "ensure_supported_schema rt v =
     bindR (parse_schema_version rt v) (\<lambda>parsed.
     bindR (parse_schema_version rt (VStr CURRENT_SCHEMA_VERSION)) (\<lambda>current.
     if parsed \<noteq> current
     then Inl (SchemaVersionError (''unsupported schema_version '' @ py_repr rt v
       @ ''; this build supports '' @ repr_str CURRENT_SCHEMA_VERSION))
     else Inr CURRENT_SCHEMA_VERSION))"

definition wrap_document :: "string \<Rightarrow> pyval \<Rightarrow> pydict res" where
  "wrap_document kind data =
     (if kind \<notin> set DOCUMENT_KINDS
      then Inl (ValidationError (''unknown document kind: '' @ repr_str kind))
      else (case data of
        VDict d \<Rightarrow> Inr [
          (''schema_version'', VStr CURRENT_SCHEMA_VERSION),
          (''kind'', VStr kind),
          (''data'', VDict d)]
      | _ \<Rightarrow> Inl (ValidationError ''document data must be an object'')))"

definition DOCUMENT_KEYS :: "string list" where
  "DOCUMENT_KEYS = [''schema_version'', ''kind'', ''data'']"

definition unwrap_document :: "py_runtime \<Rightarrow> pyval \<Rightarrow> string option \<Rightarrow> pydict res" where
  "unwrap_document rt document expected_kind = (case document of
     VDict d \<Rightarrow>
       if unknown_keys d DOCUMENT_KEYS \<noteq> []
       then Inl (ValidationError (''document contains unknown field(s): ''
         @ join_with '', '' (unknown_keys d DOCUMENT_KEYS)))
       else if missing_keys d DOCUMENT_KEYS \<noteq> []
       then Inl (ValidationError (''document is missing field(s): ''
         @ join_with '', '' (missing_keys d DOCUMENT_KEYS)))
       else bindR (dict_item d ''schema_version'') (\<lambda>version.
         bindR (ensure_supported_schema rt version) (\<lambda>_.
         bindR (dict_item d ''kind'') (\<lambda>kind.
         bindR (case kind of
             VStr k \<Rightarrow> if k \<notin> set DOCUMENT_KINDS
               then Inl (ValidationError (''unknown document kind: '' @ py_repr rt kind)) else Inr k
           | _ \<Rightarrow> Inl (ValidationError (''unknown document kind: '' @ py_repr rt kind))) (\<lambda>k.
         bindR (case expected_kind of
             None \<Rightarrow> Inr ()
           | Some e \<Rightarrow> if k \<noteq> e
               then Inl (ValidationError (''expected document kind '' @ repr_str e @ '', got '' @ repr_str k))
               else Inr ()) (\<lambda>_.
         bindR (dict_item d ''data'') (\<lambda>data.
         case data of VDict body \<Rightarrow> Inr body
         | _ \<Rightarrow> Inl (ValidationError ''document data must be an object'')))))))
   | _ \<Rightarrow> Inl (ValidationError ''document must be a JSON object''))"

definition migrate_document :: "py_runtime \<Rightarrow> pyval \<Rightarrow> pydict res" where
  "migrate_document rt document = (case document of
     VDict d \<Rightarrow> bindR (ensure_supported_schema rt (get_or d ''schema_version'' VNone)) (\<lambda>version.
       Inr (dict_put d ''schema_version'' (VStr version)))
   | _ \<Rightarrow> Inl (ValidationError ''document must be a JSON object''))"

subsection \<open>Laws\<close>

lemma digit_of_char: "is_decimal c \<Longrightarrow> char_of (48 + (code c - 48)) = c"
  by (simp add: is_decimal_def)

lemma code_inject: "code c = (code d :: nat) \<longleftrightarrow> c = d"
  by (rule of_char_eq_iff)

lemma nat_str_0: "nat_str 0 = ''0''"
proof -
  have "char_of (code (CHR ''0'') :: nat) = CHR ''0''" by (rule char_of_char)
  then show ?thesis by (simp add: nat_str.simps [of 0])
qed

lemma digits_value_pos:
  assumes "s \<noteq> []" and "hd s \<noteq> CHR ''0''" and "list_all is_decimal s"
  shows "0 < digits_value s"
  using assms
proof (induction s rule: rev_induct)
  case (snoc c s)
  show ?case
  proof (cases s)
    case Nil
    with snoc.prems have "code c \<noteq> (48::nat)"
      using code_inject [of c "CHR ''0''"] by simp
    with Nil snoc.prems show ?thesis by (simp add: digits_value_def is_decimal_def)
  next
    case (Cons a t)
    with snoc have "0 < digits_value s" by simp
    then show ?thesis by (simp add: digits_value_snoc)
  qed
qed simp

lemma nat_str_numeral:
  "s \<noteq> [] \<Longrightarrow> hd s \<noteq> CHR ''0'' \<Longrightarrow> list_all is_decimal s \<Longrightarrow> nat_str (digits_value s) = s"
proof (induction s rule: rev_induct)
  case (snoc c s)
  have c: "is_decimal c" using snoc.prems by simp
  then have d: "code c - 48 < (10::nat)" unfolding is_decimal_def by arith
  show ?case
  proof (cases s)
    case Nil
    with d digit_of_char [OF c] show ?thesis
      by (simp add: nat_str.simps [of "code c - 48"] digits_value_def)
  next
    case (Cons a t)
    with snoc.prems have s: "s \<noteq> []" "hd s \<noteq> CHR ''0''" "list_all is_decimal s" by auto
    from digits_value_pos [OF s] snoc.IH [OF s] d digit_of_char [OF c] show ?thesis
      by (subst nat_str.simps) (simp add: digits_value_snoc)
  qed
qed simp

lemma numeral_shape_iff: "numeral_shape s \<longleftrightarrow> s = nat_str (digits_value s)"
proof
  assume "numeral_shape s"
  then consider "s = ''0''" | "s \<noteq> []" "hd s \<noteq> CHR ''0''" "list_all is_decimal s"
    by (auto simp: numeral_shape_def)
  then show "s = nat_str (digits_value s)"
  proof cases
    case 1
    then show ?thesis by (simp add: digits_value_def nat_str_0)
  qed (simp add: nat_str_numeral)
next
  have "numeral_shape (nat_str n)" for n
  proof (induction n rule: nat_str.induct)
    case (1 n)
    have dec: "list_all is_decimal (nat_str n)" by (simp add: list_all_iff nat_str_decimal)
    have "hd (nat_str n) \<noteq> CHR ''0''" if n: "n \<noteq> 0"
    proof (cases "n < 10")
      case True
      then have "code (hd (nat_str n)) = 48 + n" by (simp add: nat_str.simps [of n])
      with n show ?thesis using code_inject [of "hd (nat_str n)" "CHR ''0''"] by auto
    next
      case False
      have "nat_str (n div 10) \<noteq> ''0''"
      proof
        assume "nat_str (n div 10) = ''0''"
        then have "digits_value (nat_str (n div 10)) = digits_value ''0''" by (rule arg_cong)
        with False show False by (simp add: digits_value_def [of "[_]"])
      qed
      with 1 False have "hd (nat_str (n div 10)) \<noteq> CHR ''0''" by (simp add: numeral_shape_def)
      with False show ?thesis by (simp add: nat_str.simps [of n])
    qed
    with dec show ?case by (cases "n = 0") (simp_all add: numeral_shape_def nat_str_0)
  qed
  then show "s = nat_str (digits_value s) \<Longrightarrow> numeral_shape s" by metis
qed

lemma numeral_value_inject: "numeral_shape a \<Longrightarrow> numeral_shape b \<Longrightarrow> digits_value a = digits_value b \<Longrightarrow> a = b"
  by (metis numeral_shape_iff)

lemma parse_schema_version_Inr [res_simps]:
  "parse_schema_version rt v = Inr p \<longleftrightarrow>
     (\<exists>a b. v = VStr (a @ ''.'' @ b) \<and> numeral_shape a \<and> numeral_shape b
        \<and> p = (digits_value a, digits_value b))"
proof
  assume "parse_schema_version rt v = Inr p"
  then obtain s a b where s: "v = VStr s" "split_on (CHR ''.'') s = [a, b]" "numeral_shape a"
      "numeral_shape b" "p = (digits_value a, digits_value b)"
    by (cases v) (auto simp: parse_schema_version_def schema_shape_def Let_def split: if_splits list.splits)
  from join_split_on [of "CHR ''.''" s] s(1,3-5)
  show "\<exists>a b. v = VStr (a @ ''.'' @ b) \<and> numeral_shape a \<and> numeral_shape b
        \<and> p = (digits_value a, digits_value b)"
    unfolding s(2) by auto
next
  have free: "CHR ''.'' \<notin> set a" if "numeral_shape a" for a
    using that by (auto simp: numeral_shape_def list_all_iff is_decimal_def)
  have "split_on (CHR ''.'') (a @ CHR ''.'' # b) = a # split_on (CHR ''.'') b" if "CHR ''.'' \<notin> set a" for a b
    using that by (induction a) auto
  moreover have "split_on (CHR ''.'') b = [b]" if "CHR ''.'' \<notin> set b" for b
    using that by (induction b) auto
  moreover assume "\<exists>a b. v = VStr (a @ ''.'' @ b) \<and> numeral_shape a \<and> numeral_shape b
        \<and> p = (digits_value a, digits_value b)"
  ultimately show "parse_schema_version rt v = Inr p"
    using free by (auto simp: parse_schema_version_def schema_shape_def)
qed

lemma numerals_1_0: "numeral_shape ''1''" "numeral_shape ''0''"
  by (simp_all add: numeral_shape_def is_decimal_def)

lemma parse_current: "parse_schema_version rt (VStr CURRENT_SCHEMA_VERSION) = Inr (1, 0)"
  unfolding parse_schema_version_Inr
  by (rule exI [of _ "''1''"], rule exI [of _ "''0''"])
    (simp add: CURRENT_SCHEMA_VERSION_def SCHEMA_VERSION_def numerals_1_0 digits_value_def)

lemma ensure_supported_schema_Inr [res_simps]:
  "ensure_supported_schema rt v = Inr s \<longleftrightarrow> v = VStr CURRENT_SCHEMA_VERSION \<and> s = CURRENT_SCHEMA_VERSION"
proof -
  have "v = VStr CURRENT_SCHEMA_VERSION" if "parse_schema_version rt v = Inr (1, 0)"
  proof -
    from that obtain a b where ab: "v = VStr (a @ ''.'' @ b)" "numeral_shape a" "numeral_shape b"
        "digits_value a = 1" "digits_value b = 0" by (auto simp: parse_schema_version_Inr)
    have "a = ''1''" "b = ''0''"
      using ab numerals_1_0 by (auto intro!: numeral_value_inject simp: digits_value_def [of "[_]"])
    with ab show ?thesis by (simp add: CURRENT_SCHEMA_VERSION_def SCHEMA_VERSION_def)
  qed
  then show ?thesis
    using parse_current [of rt] by (auto simp: ensure_supported_schema_def bindR_Inr_iff)
qed

lemma wrap_document_Inr [res_simps]:
  "wrap_document kind data = Inr doc \<longleftrightarrow> kind \<in> set DOCUMENT_KINDS \<and> (\<exists>d. data = VDict d
     \<and> doc = [(''schema_version'', VStr CURRENT_SCHEMA_VERSION), (''kind'', VStr kind), (''data'', VDict d)])"
  by (cases data) (auto simp: wrap_document_def)

lemma migrate_document_Inr [res_simps]:
  "migrate_document rt doc = Inr m \<longleftrightarrow>
     doc = VDict m \<and> map_of m ''schema_version'' = Some (VStr CURRENT_SCHEMA_VERSION)"
  by (cases doc) (auto simp: migrate_document_def bindR_Inr_iff ensure_supported_schema_Inr get_or_def
      update_same split: option.splits)

lemma document_kind_Inr:
  "(case kind of VStr k \<Rightarrow> if k \<notin> set DOCUMENT_KINDS then Inl e else Inr k | _ \<Rightarrow> Inl e) = Inr k
     \<longleftrightarrow> kind = VStr k \<and> k \<in> set DOCUMENT_KINDS"
  by (cases kind) auto

lemma document_data_Inr:
  "(case v of VDict body \<Rightarrow> Inr body | _ \<Rightarrow> Inl e) = Inr d \<longleftrightarrow> v = VDict d"
  by (cases v) auto

lemma unwrap_document_Inr [res_simps]:
  "unwrap_document rt doc expected = Inr data \<longleftrightarrow>
     (\<exists>d kind. doc = VDict d \<and> set (keys d) = set DOCUMENT_KEYS
        \<and> map_of d ''schema_version'' = Some (VStr CURRENT_SCHEMA_VERSION)
        \<and> map_of d ''kind'' = Some (VStr kind) \<and> kind \<in> set DOCUMENT_KINDS
        \<and> (\<forall>e. expected = Some e \<longrightarrow> kind = e) \<and> map_of d ''data'' = Some (VDict data))"
proof (cases doc)
  case (VDict d)
  show ?thesis
    unfolding VDict
    by (cases expected)
      (simp_all add: unwrap_document_def unknown_keys_empty_iff missing_keys_empty_iff bindR_Inr_iff
        dict_item_Inr ensure_supported_schema_Inr document_kind_Inr document_data_Inr; blast)+
qed (auto simp: unwrap_document_def)

lemma wrap_unwrap:
  "wrap_document kind (VDict data) = Inr doc \<Longrightarrow> unwrap_document rt (VDict doc) (Some kind) = Inr data"
  by (auto simp: wrap_document_Inr unwrap_document_Inr DOCUMENT_KEYS_def)

subsection \<open>Properties\<close>

text \<open>
  C1: reading a document fails closed.  It yields data exactly when the document is an object with
  the three envelope fields and no other, the schema version is this build's (the text \<open>1.0\<close>), the
  kind is a known one and the expected one, and the data is an object.
\<close>
theorem unwrap_fails_closed:
  "bindR (migrate_document rt doc) (\<lambda>m. unwrap_document rt (VDict m) (Some kind)) = Inr data \<longleftrightarrow>
     (\<exists>d. doc = VDict d \<and> set (keys d) = {''schema_version'', ''kind'', ''data''}
        \<and> map_of d ''schema_version'' = Some (VStr ''1.0'')
        \<and> map_of d ''kind'' = Some (VStr kind) \<and> kind \<in> set DOCUMENT_KINDS
        \<and> map_of d ''data'' = Some (VDict data))"
  by (auto simp: bindR_Inr_iff migrate_document_Inr unwrap_document_Inr CURRENT_SCHEMA_VERSION_def
      SCHEMA_VERSION_def DOCUMENT_KEYS_def)

text \<open>
  A schema version is accepted by the parser exactly when it is two decimal numerals without
  leading zeros joined by a dot, and the parser returns the two numbers: it inverts printing.
\<close>
theorem schema_version_roundtrip:
  "parse_schema_version rt v = Inr (major, minor) \<longleftrightarrow> v = VStr (nat_str major @ ''.'' @ nat_str minor)"
  unfolding parse_schema_version_Inr by (metis numeral_shape_iff digits_value_nat_str prod.inject)

end
