(* ===== verification/Store.thy ===== *)
theory Store
  imports Effects Schema
begin

section \<open>The file store (control/store.py)\<close>

text \<open>
  One JSON document per organization, workspace, container, revision, environment and audit event.
  Reads are functions of the world; writes are operations.  The lock serialises the callers, so a
  model of one caller at a time is exact as long as the lock is acquired; directory creation, modes
  and fsync have no effect on what is read.
\<close>

subsection \<open>Paths\<close>

definition path_text :: "machine \<Rightarrow> path \<Rightarrow> string" where
  "path_text m p = join_with ''/'' (m_root m # p)"

definition metadata_path :: path where "metadata_path = [''store.json'']"

definition json_name :: "string \<Rightarrow> string" where "json_name n = n @ ''.json''"

definition organization_path :: "string \<Rightarrow> path" where
  "organization_path org = [''orgs'', org, ''organization.json'']"

definition workspace_dir :: "machine \<Rightarrow> string \<Rightarrow> path res" where
  "workspace_dir m org = bindR (validate_id (m_rt m) (VStr org) ''org_id'') (\<lambda>org'.
     Inr [''orgs'', org', ''workspaces''])"

definition container_dir :: "machine \<Rightarrow> string \<Rightarrow> string \<Rightarrow> path res" where
  "container_dir m org container_id =
     bindR (validate_id (m_rt m) (VStr org) ''org_id'') (\<lambda>org'.
     bindR (container_storage_key (m_rt m) (VStr org') (VStr container_id)) (\<lambda>key.
     Inr [''orgs'', org', ''containers'', key]))"

definition sub_dir :: "machine \<Rightarrow> container \<Rightarrow> string \<Rightarrow> path res" where
  "sub_dir m c name = bindR (container_dir m (ct_org_id c) (ct_id c)) (\<lambda>dir. Inr (dir @ [name]))"

definition revision_dir :: "machine \<Rightarrow> container \<Rightarrow> path res" where
  "revision_dir m c = sub_dir m c ''revisions''"

definition environment_dir :: "machine \<Rightarrow> container \<Rightarrow> path res" where
  "environment_dir m c = sub_dir m c ''environments''"

definition audit_dir :: "machine \<Rightarrow> container \<Rightarrow> path res" where
  "audit_dir m c = sub_dir m c ''audit''"

text \<open>\<open>sorted(dir.glob("*.json"))\<close> and \<open>sorted(dir.glob("*/name"))\<close>.\<close>

definition glob_json :: "world \<Rightarrow> path \<Rightarrow> path list" where
  "glob_json w dir = sort (remdups (filter
     (\<lambda>p. p \<noteq> [] \<and> butlast p = dir \<and> suffix ''.json'' (last p)) (keys (w_files w))))"

definition glob_below :: "world \<Rightarrow> path \<Rightarrow> string \<Rightarrow> path list" where
  "glob_below w dir name = sort (remdups (filter
     (\<lambda>p. length p = length dir + 2 \<and> take (length dir) p = dir \<and> last p = name) (keys (w_files w))))"

subsection \<open>Documents\<close>

definition path_exists :: "world \<Rightarrow> path \<Rightarrow> bool" where
  "path_exists w p \<longleftrightarrow> map_of (w_files w) p \<noteq> None"

definition read_document :: "machine \<Rightarrow> path \<Rightarrow> string \<Rightarrow> world \<Rightarrow> pydict res" where
  "read_document m p kind w = (case map_of (w_files w) p of
     None \<Rightarrow> Inl (NotFoundError (''not found: '' @ path_text m p))
   | Some (Inl err) \<Rightarrow> Inl (CorruptStoreError (''cannot read '' @ path_text m p @ '': '' @ err))
   | Some (Inr raw) \<Rightarrow> (case raw of
       VDict d \<Rightarrow> bindR (migrate_document (m_rt m) raw) (\<lambda>migrated.
         unwrap_document (m_rt m) (VDict migrated) (Some kind))
     | _ \<Rightarrow> Inl (CorruptStoreError (path_text m p @ '' does not contain a JSON object''))))"

definition put_file :: "path \<Rightarrow> pyval \<Rightarrow> unit op" where
  "put_file p v w = (Inr (), w\<lparr>w_files := dict_put (w_files w) p (Inr v)\<rparr>)"

definition atomic_write :: "machine \<Rightarrow> path \<Rightarrow> pydict \<Rightarrow> unit op" where
  "atomic_write m p document =
     bindW (liftW (canonical_json (m_rt m) (VDict document))) (\<lambda>_. put_file p (VDict document))"

definition write_document :: "machine \<Rightarrow> path \<Rightarrow> string \<Rightarrow> pyval \<Rightarrow> unit op" where
  "write_document m p kind data =
     bindW (liftW (wrap_document kind data)) (\<lambda>document. atomic_write m p document)"

definition write_document_exclusive :: "machine \<Rightarrow> path \<Rightarrow> string \<Rightarrow> pyval \<Rightarrow> unit op" where
  "write_document_exclusive m p kind data =
     bindW (liftW (wrap_document kind data)) (\<lambda>document.
     bindW (liftW (canonical_json (m_rt m) (VDict document))) (\<lambda>_.
     bindW (readW (\<lambda>w. if path_exists w p
       then Inl (ConflictError (''immutable document already exists: '' @ path_text m p)) else Inr ())) (\<lambda>_.
     put_file p (VDict document))))"

subsection \<open>Store metadata\<close>

definition META_KEYS :: "string list" where
  "META_KEYS = [''store_id'', ''created_at'', ''default_org_id'', ''default_workspace_id'']"

definition read_meta :: "machine \<Rightarrow> world \<Rightarrow> pydict res" where
  "read_meta m w = bindR (read_document m metadata_path ''store'' w) (\<lambda>data.
     if set (keys data) \<noteq> set META_KEYS
     then Inl (CorruptStoreError ''store metadata has an unexpected shape'')
     else bindR (dict_item data ''store_id'') (\<lambda>i. bindR (validate_id (m_rt m) i ''store_id'') (\<lambda>_.
       bindR (mapR (\<lambda>key. bindR (dict_item data key) (\<lambda>v.
         if v \<noteq> VNone then bindR (validate_id (m_rt m) v key) (\<lambda>_. Inr ()) else Inr ()))
         [''default_org_id'', ''default_workspace_id'']) (\<lambda>_. Inr data))))"

definition write_meta :: "machine \<Rightarrow> pydict \<Rightarrow> unit op" where
  "write_meta m data =
     (if set (keys data) \<noteq> set META_KEYS
      then raiseW (ValidationError ''store metadata has an unexpected shape'')
      else write_document m metadata_path ''store'' (VDict data))"

definition initialize :: "machine \<Rightarrow> pydict op" where
  "initialize m = bindW (readW (\<lambda>w. Inr (path_exists w metadata_path))) (\<lambda>exists.
     bindW (if exists then retW ()
       else bindW (new_id m) (\<lambda>i. bindW (utc_now m) (\<lambda>now.
         write_document m metadata_path ''store'' (VDict [(''store_id'', VStr i), (''created_at'', VStr now),
           (''default_org_id'', VNone), (''default_workspace_id'', VNone)])))) (\<lambda>_.
     readW (read_meta m)))"

subsection \<open>Objects\<close>

definition load :: "machine \<Rightarrow> string \<Rightarrow> (pyval \<Rightarrow> 'a res) \<Rightarrow> path \<Rightarrow> world \<Rightarrow> 'a res" where
  "load m kind parse p w = bindR (read_document m p kind w) (\<lambda>data. parse (VDict data))"

definition load_all :: "machine \<Rightarrow> string \<Rightarrow> (pyval \<Rightarrow> 'a res) \<Rightarrow> path list \<Rightarrow> world \<Rightarrow> 'a list res" where
  "load_all m kind parse ps w = mapR (\<lambda>p. load m kind parse p w) ps"

definition save_organization :: "machine \<Rightarrow> organization \<Rightarrow> unit op" where
  "save_organization m x = write_document m (organization_path (org_id x)) ''organization'' (organization_to_dict x)"

definition get_organization :: "machine \<Rightarrow> string \<Rightarrow> world \<Rightarrow> organization res" where
  "get_organization m i w = bindR (validate_id (m_rt m) (VStr i) ''org_id'') (\<lambda>org.
     bindR (load m ''organization'' (organization_from_dict (m_rt m)) (organization_path org) w) (\<lambda>x.
     if org_id x \<noteq> org then Inl (CorruptStoreError (''organization file '' @ path_text m (organization_path org)
       @ '' belongs to '' @ org_id x))
     else Inr x))"

definition list_organizations :: "machine \<Rightarrow> world \<Rightarrow> organization list res" where
  "list_organizations m w = load_all m ''organization'' (organization_from_dict (m_rt m))
     (glob_below w [''orgs''] ''organization.json'') w"

definition save_workspace :: "machine \<Rightarrow> workspace \<Rightarrow> unit op" where
  "save_workspace m x = bindW (liftW (workspace_dir m (ws_org_id x))) (\<lambda>dir.
     write_document m (dir @ [json_name (ws_id x)]) ''workspace'' (workspace_to_dict x))"

definition get_workspace :: "machine \<Rightarrow> string \<Rightarrow> string \<Rightarrow> world \<Rightarrow> workspace res" where
  "get_workspace m org i w = bindR (validate_id (m_rt m) (VStr org) ''org_id'') (\<lambda>org'.
     bindR (validate_id (m_rt m) (VStr i) ''workspace_id'') (\<lambda>i'.
     bindR (workspace_dir m org') (\<lambda>dir. let p = dir @ [json_name i'] in
     bindR (load m ''workspace'' (workspace_from_dict (m_rt m)) p w) (\<lambda>x.
     if ws_org_id x \<noteq> org' \<or> ws_id x \<noteq> i'
     then Inl (CorruptStoreError (''workspace file '' @ path_text m p @ '' has inconsistent identity''))
     else Inr x))))"

definition list_workspaces :: "machine \<Rightarrow> string \<Rightarrow> world \<Rightarrow> workspace list res" where
  "list_workspaces m org w = bindR (workspace_dir m org) (\<lambda>dir.
     load_all m ''workspace'' (workspace_from_dict (m_rt m)) (glob_json w dir) w)"

definition save_container :: "machine \<Rightarrow> container \<Rightarrow> unit op" where
  "save_container m c = bindW (liftW (container_dir m (ct_org_id c) (ct_id c))) (\<lambda>dir.
     write_document m (dir @ [''container.json'']) ''container'' (container_to_dict c))"

definition get_container :: "machine \<Rightarrow> string \<Rightarrow> string \<Rightarrow> world \<Rightarrow> container res" where
  "get_container m org i w = bindR (container_dir m org i) (\<lambda>dir. let p = dir @ [''container.json''] in
     bindR (load m ''container'' (container_from_dict (m_rt m)) p w) (\<lambda>c.
     if ct_org_id c \<noteq> org \<or> uniqueness_key c \<noteq> py_casefold i
     then Inl (CorruptStoreError (''container file '' @ path_text m p @ '' has inconsistent identity''))
     else Inr c))"

definition container_exists :: "machine \<Rightarrow> string \<Rightarrow> string \<Rightarrow> world \<Rightarrow> bool res" where
  "container_exists m org i w = bindR (container_dir m org i) (\<lambda>dir.
     Inr (path_exists w (dir @ [''container.json''])))"

definition list_containers :: "machine \<Rightarrow> string \<Rightarrow> world \<Rightarrow> container list res" where
  "list_containers m org w = bindR (validate_id (m_rt m) (VStr org) ''org_id'') (\<lambda>org'.
     load_all m ''container'' (container_from_dict (m_rt m))
       (glob_below w [''orgs'', org', ''containers''] ''container.json'') w)"

definition remove_container_tree :: "machine \<Rightarrow> string \<Rightarrow> string \<Rightarrow> unit op" where
  "remove_container_tree m org i = bindW (liftW (container_dir m org i)) (\<lambda>dir w.
     (Inr (), w\<lparr>w_files := filter (\<lambda>f. \<not> prefix dir (fst f)) (w_files w)\<rparr>))"

definition save_revision :: "machine \<Rightarrow> container \<Rightarrow> revision \<Rightarrow> unit op" where
  "save_revision m c r =
     (if rev_container_id r \<noteq> ct_id c
      then raiseW (ValidationError ''revision container_id does not match container'')
      else bindW (liftW (verify_revision (m_rt m) r)) (\<lambda>_.
        bindW (liftW (revision_dir m c)) (\<lambda>dir.
        write_document_exclusive m (dir @ [json_name (rev_version r)]) ''config_revision''
          (revision_to_dict r))))"

definition get_revision :: "machine \<Rightarrow> container \<Rightarrow> string \<Rightarrow> world \<Rightarrow> revision res" where
  "get_revision m c version w = bindR (validate_id (m_rt m) (VStr version) ''config_version'') (\<lambda>v.
     bindR (revision_dir m c) (\<lambda>dir. let p = dir @ [json_name v] in
     bindR (load m ''config_revision'' (revision_from_dict (m_rt m)) p w) (\<lambda>r.
     if rev_container_id r \<noteq> ct_id c
     then Inl (CorruptStoreError (''revision file '' @ path_text m p @ '' belongs to another container''))
     else Inr r)))"

definition list_revisions :: "machine \<Rightarrow> container \<Rightarrow> world \<Rightarrow> revision list res" where
  "list_revisions m c w = bindR (revision_dir m c) (\<lambda>dir.
     bindR (load_all m ''config_revision'' (revision_from_dict (m_rt m)) (glob_json w dir) w) (\<lambda>rs.
     Inr (sort_key (\<lambda>r. number_of (rev_number r)) rs)))"

definition latest_of :: "revision list \<Rightarrow> revision option" where
  "latest_of rs = (if rs = [] then None else Some (last rs))"

definition latest_revision :: "machine \<Rightarrow> container \<Rightarrow> world \<Rightarrow> revision option res" where
  "latest_revision m c w = bindR (list_revisions m c w) (\<lambda>rs. Inr (latest_of rs))"

definition save_environment :: "machine \<Rightarrow> container \<Rightarrow> environment \<Rightarrow> unit op" where
  "save_environment m c e =
     (if env_container_id e \<noteq> ct_id c
      then raiseW (ValidationError ''environment container_id does not match container'')
      else bindW (liftW (environment_dir m c)) (\<lambda>dir.
        write_document m (dir @ [json_name (env_id e)]) ''environment'' (environment_to_dict e)))"

definition get_environment :: "machine \<Rightarrow> container \<Rightarrow> string \<Rightarrow> world \<Rightarrow> environment res" where
  "get_environment m c i w = bindR (validate_id (m_rt m) (VStr i) ''environment_id'') (\<lambda>i'.
     bindR (environment_dir m c) (\<lambda>dir. let p = dir @ [json_name i'] in
     bindR (load m ''environment'' (environment_from_dict (m_rt m)) p w) (\<lambda>e.
     if env_container_id e \<noteq> ct_id c
     then Inl (CorruptStoreError (''environment file '' @ path_text m p @ '' belongs to another container''))
     else Inr e)))"

definition list_environments :: "machine \<Rightarrow> container \<Rightarrow> world \<Rightarrow> environment list res" where
  "list_environments m c w = bindR (environment_dir m c) (\<lambda>dir.
     load_all m ''environment'' (environment_from_dict (m_rt m)) (glob_json w dir) w)"

definition audit_rank :: "audit_event \<Rightarrow> int \<times> string \<times> string" where
  "audit_rank e = (au_sequence e, au_created_at e, au_id e)"

definition load_audit_event :: "machine \<Rightarrow> container \<Rightarrow> world \<Rightarrow> path \<Rightarrow> audit_event res" where
  "load_audit_event m c w p = bindR (load m ''audit_event'' (audit_from_dict (m_rt m)) p w) (\<lambda>e.
     if au_container_id e \<noteq> ct_id c
     then Inl (CorruptStoreError (''audit file '' @ path_text m p @ '' belongs to another container''))
     else Inr e)"

definition list_audit_events :: "machine \<Rightarrow> container \<Rightarrow> world \<Rightarrow> audit_event list res" where
  "list_audit_events m c w = bindR (audit_dir m c) (\<lambda>dir.
     bindR (mapR (load_audit_event m c w) (glob_json w dir)) (\<lambda>es. Inr (sort_key audit_rank es)))"

definition next_sequence :: "audit_event list \<Rightarrow> int" where
  "next_sequence es = foldr max (map au_sequence es) 0 + 1"

definition append_audit_event :: "machine \<Rightarrow> container \<Rightarrow> audit_event \<Rightarrow> audit_event op" where
  "append_audit_event m c e =
     (if au_container_id e \<noteq> ct_id c
      then raiseW (ValidationError ''audit event container_id does not match container'')
      else bindW (readW (list_audit_events m c)) (\<lambda>existing.
        let stored = e\<lparr>au_sequence := next_sequence existing\<rparr> in
        bindW (liftW (audit_dir m c)) (\<lambda>dir.
        bindW (write_document_exclusive m (dir @ [json_name (au_id e)]) ''audit_event'' (audit_to_dict stored))
          (\<lambda>_. retW stored))))"

subsection \<open>Laws of documents\<close>

lemma read_document_cong:
  "map_of (w_files w') p = map_of (w_files w) p \<Longrightarrow> read_document m p kind w' = read_document m p kind w"
  by (simp add: read_document_def)

lemma load_cong:
  "map_of (w_files w') p = map_of (w_files w) p \<Longrightarrow> load m kind parse p w' = load m kind parse p w"
  by (simp add: load_def read_document_cong [of w' p w])

lemma read_written:
  assumes "wrap_document kind (VDict d) = Inr doc" and "map_of (w_files w) p = Some (Inr (VDict doc))"
  shows "read_document m p kind w = Inr d"
proof -
  have "migrate_document (m_rt m) (VDict doc) = Inr doc"
    using assms(1) by (auto simp: migrate_document_Inr wrap_document_Inr)
  then show ?thesis using assms(2) wrap_unwrap [OF assms(1)] by (simp add: read_document_def)
qed

text \<open>A world after one file was written.\<close>

definition put :: "path \<Rightarrow> pydict \<Rightarrow> world \<Rightarrow> world" where
  "put p doc w = w\<lparr>w_files := dict_put (w_files w) p (Inr (VDict doc))\<rparr>"

lemma map_of_put: "map_of (w_files (put p doc w)) q =
    (if q = p then Some (Inr (VDict doc)) else map_of (w_files w) q)"
  by (simp add: put_def)

lemma put_counters [simp]: "w_drawn (put p doc w) = w_drawn w" "w_ticks (put p doc w) = w_ticks w"
  by (simp_all add: put_def)

lemma write_document_run:
  assumes "write_document m p kind data w = (r, w')"
  shows "(\<exists>e. r = Inl e \<and> w' = w) \<or> (\<exists>doc. wrap_document kind data = Inr doc \<and> r = Inr () \<and> w' = put p doc w)"
proof (cases "wrap_document kind data")
  case (Inr doc)
  with assms show ?thesis
    by (cases "canonical_json (m_rt m) (VDict doc)")
      (auto simp: write_document_def atomic_write_def bindW_def op_simps put_file_def put_def)
qed (use assms in \<open>auto simp: write_document_def bindW_def op_simps\<close>)

lemma write_document_finite:
  assumes "write_document m p kind data w = (Inr u, w')"
  shows "finite_val data"
proof -
  from assms obtain d doc t where "data = VDict d" "wrap_document kind (VDict d) = Inr doc" "canonical_json (m_rt m) (VDict doc) = Inr t"
    by (auto simp: write_document_def atomic_write_def op_simps wrap_document_Inr)
  then show ?thesis by (auto simp: wrap_document_Inr canonical_json_iff)
qed

lemma write_document_exclusive_run:
  assumes "write_document_exclusive m p kind data w = (r, w')"
  shows "(\<exists>e. r = Inl e \<and> w' = w) \<or> (\<exists>doc. wrap_document kind data = Inr doc \<and> r = Inr ()
     \<and> \<not> path_exists w p \<and> w' = put p doc w)"
proof (cases "wrap_document kind data")
  case (Inr doc)
  with assms show ?thesis
    by (cases "canonical_json (m_rt m) (VDict doc)")
      (auto simp: write_document_exclusive_def bindW_def op_simps put_file_def put_def split: if_splits)
qed (use assms in \<open>auto simp: write_document_exclusive_def bindW_def op_simps\<close>)

text \<open>
  A kind of document whose objects have a codec: what is written for a well-formed object is read
  back as that object, whatever else is written elsewhere.
\<close>

locale typed_file = codec parse print inv
  for parse :: "pyval \<Rightarrow> 'a res" and print :: "'a \<Rightarrow> pyval" and inv :: "'a \<Rightarrow> bool" +
  fixes kind :: string
  assumes known: "kind \<in> set DOCUMENT_KINDS"
    and prints: "inv x \<Longrightarrow> \<exists>d. print x = VDict d \<and> finite_val (VDict d)"
begin

lemma writes:
  assumes "inv x"
  shows "\<exists>doc. write_document m p kind (print x) w = (Inr (), put p doc w)
    \<and> (\<not> path_exists w p \<longrightarrow> write_document_exclusive m p kind (print x) w = (Inr (), put p doc w))
    \<and> (\<forall>w'. map_of (w_files w') p = Some (Inr (VDict doc)) \<longrightarrow> load m kind parse p w' = Inr x)"
proof -
  from prints [OF assms] obtain d where d: "print x = VDict d" "finite_val (VDict d)" by blast
  let ?doc = "[(''schema_version'', VStr CURRENT_SCHEMA_VERSION), (''kind'', VStr kind), (''data'', VDict d)]"
  have doc: "wrap_document kind (VDict d) = Inr ?doc" using known by (simp add: wrap_document_Inr)
  have "finite_val (VDict ?doc)" using d(2) by simp
  with doc d show ?thesis
    by (intro exI [of _ ?doc])
      (auto simp: write_document_def write_document_exclusive_def atomic_write_def bindW_def op_simps
        put_file_def put_def load_def read_written parse_print [OF assms, unfolded d(1)]
        simp del: finite_val.simps)
qed

lemma save_load:
  assumes "inv x" and "write_document m p kind (print x) w = (r, w')"
  shows "r = Inr () \<and> load m kind parse p w' = Inr x"
  using writes [OF assms(1), of m p w] assms(2) by (auto simp: map_of_put)

lemma save_new_load:
  assumes "inv x" and "write_document_exclusive m p kind (print x) w = (Inr u, w')"
  shows "load m kind parse p w' = Inr x"
proof -
  from write_document_exclusive_run [OF assms(2)] have "\<not> path_exists w p" by auto
  with writes [OF assms(1), of m p w] assms(2) show ?thesis by (auto simp: map_of_put)
qed

end

interpretation organization_file:
  typed_file "organization_from_dict rt" organization_to_dict wf_organization "''organization''"
  by unfold_locales (simp_all add: DOCUMENT_KINDS_def organization_to_dict_def)

interpretation workspace_file:
  typed_file "workspace_from_dict rt" workspace_to_dict wf_workspace "''workspace''"
  by unfold_locales (simp_all add: DOCUMENT_KINDS_def workspace_to_dict_def)

interpretation environment_file:
  typed_file "environment_from_dict rt" environment_to_dict wf_environment "''environment''"
  by unfold_locales (simp_all add: DOCUMENT_KINDS_def environment_to_dict_def)

interpretation audit_file: typed_file "audit_from_dict rt" audit_to_dict wf_audit_event "''audit_event''"
  by unfold_locales (simp_all add: DOCUMENT_KINDS_def audit_to_dict_def wf_audit_event_def)

interpretation revision_file:
  typed_file "revision_from_dict rt" revision_to_dict "wf_revision rt" "''config_revision''"
proof unfold_locales
  show "wf_revision rt r \<Longrightarrow> \<exists>d. revision_to_dict r = VDict d \<and> finite_val (VDict d)" for r
    using finite_model_dicts(5) [of rt r] by (simp add: revision_to_dict_def)
qed (simp add: DOCUMENT_KINDS_def)

text \<open>
  External references of a container may hold a non-finite number, which the writer refuses; a
  container that was written is read back.
\<close>

lemma container_writes:
  assumes "wf_container c" and "write_document m p ''container'' (container_to_dict c) w = (Inr u, w')"
  shows "load m ''container'' (container_from_dict rt) p w' = Inr c"
proof -
  from write_document_run [OF assms(2)] obtain doc where
    doc: "wrap_document ''container'' (container_to_dict c) = Inr doc" "w' = put p doc w" by auto
  obtain d where d: "container_to_dict c = VDict d" by (simp add: container_to_dict_def)
  show ?thesis
    using doc by (simp add: load_def d read_written map_of_put container_reparse [OF assms(1), unfolded d])
qed

subsection \<open>Directories\<close>

definition in_dir :: "path \<Rightarrow> path \<Rightarrow> bool" where
  "in_dir dir p \<longleftrightarrow> p \<noteq> [] \<and> butlast p = dir \<and> suffix ''.json'' (last p)"

lemma in_dir_append [simp]: "in_dir dir (dir' @ [n]) \<longleftrightarrow> dir' = dir \<and> suffix ''.json'' n"
  by (auto simp: in_dir_def)

lemma suffix_json_name [simp]: "suffix ''.json'' (json_name n)"
  by (simp add: json_name_def suffix_def)

lemma json_name_inject [simp]: "json_name a = json_name b \<longleftrightarrow> a = b"
  by (simp add: json_name_def)

lemma glob_json_eq: "glob_json w dir = sorted_list_of_set {p. path_exists w p \<and> in_dir dir p}"
proof -
  have "{p. path_exists w p \<and> in_dir dir p} = set (filter (in_dir dir) (keys (w_files w)))"
    by (auto simp: path_exists_def map_of_eq_None_keys)
  then show ?thesis
    by (simp only: sorted_list_of_set_sort_remdups glob_json_def in_dir_def [abs_def])
qed

lemma finite_paths: "finite {p. path_exists w p \<and> in_dir dir p}"
  by (rule finite_subset [of _ "set (keys (w_files w))"]) (auto simp: path_exists_def map_of_eq_None_keys)

lemma set_glob_json: "set (glob_json w dir) = {p. path_exists w p \<and> in_dir dir p}"
  by (simp add: glob_json_eq finite_paths)

text \<open>Two worlds that agree on what a directory holds.\<close>

definition agree_on :: "path \<Rightarrow> world \<Rightarrow> world \<Rightarrow> bool" where
  "agree_on dir w w' \<longleftrightarrow> (\<forall>p. in_dir dir p \<longrightarrow> map_of (w_files w') p = map_of (w_files w) p)"

lemma agree_on_glob: "agree_on dir w w' \<Longrightarrow> glob_json w' dir = glob_json w dir"
  by (simp add: glob_json_eq agree_on_def path_exists_def)
    (rule arg_cong [of _ _ sorted_list_of_set], auto)

lemma agree_on_put: "agree_on dir w (put p doc w) \<longleftrightarrow> \<not> in_dir dir p \<or> map_of (w_files w) p = Some (Inr (VDict doc))"
  by (auto simp: agree_on_def map_of_put)

lemma agree_on_mapR:
  assumes "agree_on dir w w'"
    and "\<And>p. map_of (w_files w') p = map_of (w_files w) p \<Longrightarrow> f w' p = f w p"
  shows "mapR (f w') (glob_json w' dir) = mapR (f w) (glob_json w dir)"
  unfolding agree_on_glob [OF assms(1)]
  using assms by (intro mapR_cong) (auto simp: set_glob_json agree_on_def)

lemma insort_split: "\<exists>xs ys. zs = xs @ ys \<and> insort z zs = xs @ z # ys"
proof (induction zs)
  case (Cons a zs)
  then obtain xs ys where "zs = xs @ ys" "insort z zs = xs @ z # ys" by blast
  then show ?case
    by (cases "z \<le> a") (auto intro: exI [of _ "[]"] exI [of _ "a # xs"])
qed simp

lemma glob_put_new:
  assumes "\<not> path_exists w p" and "in_dir dir p"
  shows "\<exists>ps qs. glob_json w dir = ps @ qs \<and> glob_json (put p doc w) dir = ps @ p # qs"
proof -
  have "{q. path_exists (put p doc w) q \<and> in_dir dir q} = insert p {q. path_exists w q \<and> in_dir dir q}"
    using assms(2) by (auto simp: path_exists_def map_of_put)
  then have "glob_json (put p doc w) dir = insort p (glob_json w dir)"
    using assms(1) by (simp add: glob_json_eq finite_paths sorted_list_of_set_insert)
  then show ?thesis using insort_split [of "glob_json w dir" p] by metis
qed

lemma mapR_append: "mapR f (xs @ ys) = bindR (mapR f xs) (\<lambda>as. bindR (mapR f ys) (\<lambda>bs. Inr (as @ bs)))"
proof (induction xs)
  case Nil
  show ?case by (cases "mapR f ys") auto
next
  case (Cons x xs)
  then show ?case by (cases "f x"; cases "mapR f xs"; cases "mapR f ys") auto
qed

lemma listing_put_new:
  assumes "\<not> path_exists w p" and "in_dir dir p"
    and "\<And>q. map_of (w_files (put p doc w)) q = map_of (w_files w) q \<Longrightarrow> f (put p doc w) q = f w q"
    and "mapR (f w) (glob_json w dir) = Inr xs" and "f (put p doc w) p = Inr x"
  shows "\<exists>as bs. xs = as @ bs \<and> mapR (f (put p doc w)) (glob_json (put p doc w) dir) = Inr (as @ x # bs)"
proof -
  let ?w = "put p doc w"
  from glob_put_new [OF assms(1,2)] obtain ps qs where g: "glob_json w dir = ps @ qs"
    "glob_json ?w dir = ps @ p # qs" by blast
  have "q \<noteq> p" if "q \<in> set (ps @ qs)" for q
    using that assms(1) unfolding g(1) [symmetric] by (auto simp: set_glob_json)
  then have "f ?w q = f w q" if "q \<in> set (ps @ qs)" for q
    using that by (intro assms(3)) (simp add: map_of_put)
  then have "mapR (f ?w) ps = mapR (f w) ps" "mapR (f ?w) qs = mapR (f w) qs"
    by (auto intro: mapR_cong)
  with assms(4,5) show ?thesis by (fastforce simp: g mapR_append bindR_Inr_iff)
qed

lemma sort_key_last:
  assumes "\<And>y. y \<in> set (as @ bs) \<Longrightarrow> (k y :: 'k :: linorder) < k x"
  shows "sort_key k (as @ x # bs) = sort_key k (as @ bs) @ [x]"
proof -
  have last: "insort_key k x zs = zs @ [x]" if "\<And>y. y \<in> set zs \<Longrightarrow> k y < k x" for zs
    using that by (induction zs) (auto simp: not_le [symmetric])
  have before: "insort_key k y (zs @ [x]) = insort_key k y zs @ [x]" if "k y < k x" for y zs
    using that by (induction zs) auto
  show ?thesis
    using assms
  proof (induction as)
    case Nil
    then show ?case by (auto intro!: last)
  qed (simp add: before)
qed

subsection \<open>Containers and their directories\<close>

lemma container_dir_Inr:
  "container_dir m org i = Inr dir \<longleftrightarrow> is_uuid org \<and>
     (\<exists>key. container_storage_key (m_rt m) (VStr org) (VStr i) = Inr key \<and> dir = [''orgs'', org, ''containers'', key])"
  by (auto simp: container_dir_def bindR_Inr_iff validate_id_Inr)

lemma sub_dir_Inr: "sub_dir m c n = Inr d \<longleftrightarrow> (\<exists>dir. container_dir m (ct_org_id c) (ct_id c) = Inr dir \<and> d = dir @ [n])"
  by (auto simp: sub_dir_def bindR_Inr_iff)

lemmas dirs_def = revision_dir_def environment_dir_def audit_dir_def

lemma load_audit_event_cong:
  "map_of (w_files w') p = map_of (w_files w) p \<Longrightarrow> load_audit_event m c w' p = load_audit_event m c w p"
  by (simp add: load_audit_event_def load_cong [of w' p w])

lemma list_revisions_agree:
  "revision_dir m c = Inr dir \<Longrightarrow> agree_on dir w w' \<Longrightarrow> list_revisions m c w' = list_revisions m c w"
  unfolding list_revisions_def load_all_def
  by (simp add: agree_on_mapR [where f = "\<lambda>w p. load m _ _ p w", OF _ load_cong])

lemma list_environments_agree:
  "environment_dir m c = Inr dir \<Longrightarrow> agree_on dir w w' \<Longrightarrow> list_environments m c w' = list_environments m c w"
  unfolding list_environments_def load_all_def
  by (simp add: agree_on_mapR [where f = "\<lambda>w p. load m _ _ p w", OF _ load_cong])

lemma list_audit_events_agree:
  "audit_dir m c = Inr dir \<Longrightarrow> agree_on dir w w' \<Longrightarrow> list_audit_events m c w' = list_audit_events m c w"
  unfolding list_audit_events_def
  by (simp add: agree_on_mapR [where f = "load_audit_event m c", OF _ load_audit_event_cong])

lemma next_sequence_above: "e \<in> set es \<Longrightarrow> au_sequence e < next_sequence es"
  by (induction es) (auto simp: next_sequence_def)

lemma next_sequence_pos: "0 < next_sequence es"
  by (induction es) (auto simp: next_sequence_def max_def)

lemma append_audit_event_Inr:
  assumes "append_audit_event m c e w = (Inr s, w')" and "wf_audit_event e"
  shows "\<exists>es dir doc. list_audit_events m c w = Inr es \<and> s = e\<lparr>au_sequence := next_sequence es\<rparr>
    \<and> au_container_id e = ct_id c \<and> audit_dir m c = Inr dir \<and> \<not> path_exists w (dir @ [json_name (au_id e)])
    \<and> w' = put (dir @ [json_name (au_id e)]) doc w \<and> list_audit_events m c w' = Inr (es @ [s])"
proof -
  from assms(1) have same: "au_container_id e = ct_id c"
    by (auto simp: append_audit_event_def op_simps split: if_splits)
  with assms(1) obtain es dir w1 where es: "list_audit_events m c w = Inr es" and dir: "audit_dir m c = Inr dir"
    and s: "s = e\<lparr>au_sequence := next_sequence es\<rparr>"
    and wr: "write_document_exclusive m (dir @ [json_name (au_id e)]) ''audit_event'' (audit_to_dict s) w = (Inr (), w')"
    by (auto simp: append_audit_event_def op_simps Let_def)
  let ?p = "dir @ [json_name (au_id e)]"
  from write_document_exclusive_run [OF wr] obtain doc where
    new: "\<not> path_exists w ?p" and w': "w' = put ?p doc w" by auto
  have wf: "wf_audit_event s"
    using assms(2) next_sequence_pos [of es] by (simp add: s wf_audit_event_def)
  have read: "load_audit_event m c w' ?p = Inr s"
    using audit_file.save_new_load [OF wf wr] same by (simp add: load_audit_event_def s)
  from es dir obtain xs where xs: "mapR (load_audit_event m c w) (glob_json w dir) = Inr xs"
    "es = sort_key audit_rank xs"
    by (auto simp: list_audit_events_def bindR_Inr_iff)
  from listing_put_new [where f = "load_audit_event m c", OF new _ load_audit_event_cong xs(1) read [unfolded w']]
  obtain as bs where ab: "xs = as @ bs" "mapR (load_audit_event m c w') (glob_json w' dir) = Inr (as @ s # bs)"
    unfolding w' by auto
  have "audit_rank y < audit_rank s" if "y \<in> set (as @ bs)" for y
    using next_sequence_above [of y es] that by (simp add: audit_rank_def s xs(2) ab(1))
  then have "sort_key audit_rank (as @ s # bs) = es @ [s]"
    unfolding xs(2) ab(1) by (rule sort_key_last)
  with es dir s same new w' ab show ?thesis
    by (auto simp: list_audit_events_def)
qed

lemma save_revision_Inr:
  assumes "save_revision m c r w = (Inr u, w')" and "wf_revision (m_rt m) r"
  shows "\<exists>dir doc. revision_dir m c = Inr dir \<and> rev_container_id r = ct_id c
    \<and> \<not> path_exists w (dir @ [json_name (rev_version r)])
    \<and> w' = put (dir @ [json_name (rev_version r)]) doc w
    \<and> load m ''config_revision'' (revision_from_dict (m_rt m)) (dir @ [json_name (rev_version r)]) w' = Inr r"
proof -
  from assms(1) obtain dir where dir: "revision_dir m c = Inr dir" and same: "rev_container_id r = ct_id c"
    and wr: "write_document_exclusive m (dir @ [json_name (rev_version r)]) ''config_revision''
       (revision_to_dict r) w = (Inr (), w')"
    by (auto simp: save_revision_def op_simps split: if_splits)
  from write_document_exclusive_run [OF wr] revision_file.save_new_load [OF assms(2) wr] dir same
  show ?thesis by auto
qed

lemma list_revisions_after_save:
  assumes "save_revision m c r w = (Inr u, w')" and "wf_revision (m_rt m) r"
    and "list_revisions m c w = Inr rs"
    and "\<And>y. y \<in> set rs \<Longrightarrow> number_of (rev_number y) < number_of (rev_number r)"
  shows "list_revisions m c w' = Inr (rs @ [r])"
proof -
  from save_revision_Inr [OF assms(1,2)] obtain dir doc where dir: "revision_dir m c = Inr dir"
    and new: "\<not> path_exists w (dir @ [json_name (rev_version r)])"
    and w': "w' = put (dir @ [json_name (rev_version r)]) doc w"
    and read: "load m ''config_revision'' (revision_from_dict (m_rt m)) (dir @ [json_name (rev_version r)]) w' = Inr r"
    by blast
  let ?f = "\<lambda>w p. load m ''config_revision'' (revision_from_dict (m_rt m)) p w"
  let ?k = "\<lambda>r. number_of (rev_number r)"
  from assms(3) dir obtain xs where xs: "mapR (?f w) (glob_json w dir) = Inr xs" "rs = sort_key ?k xs"
    by (auto simp: list_revisions_def load_all_def bindR_Inr_iff)
  from listing_put_new [where f = ?f, OF new _ load_cong xs(1) read [unfolded w']]
  obtain as bs where ab: "xs = as @ bs" "mapR (?f w') (glob_json w' dir) = Inr (as @ r # bs)"
    unfolding w' by auto
  have "?k y < ?k r" if "y \<in> set (as @ bs)" for y
    using assms(4) [of y] that by (simp add: xs(2) ab(1))
  then have "sort_key ?k (as @ r # bs) = rs @ [r]"
    unfolding xs(2) ab(1) by (rule sort_key_last)
  with dir ab show ?thesis by (simp add: list_revisions_def load_all_def)
qed

lemma get_revision_after_save:
  assumes "save_revision m c r w = (Inr u, w')" and "wf_revision (m_rt m) r"
  shows "get_revision m c (rev_version r) w' = Inr r"
proof -
  from save_revision_Inr [OF assms] obtain dir where "revision_dir m c = Inr dir" "rev_container_id r = ct_id c"
    "load m ''config_revision'' (revision_from_dict (m_rt m)) (dir @ [json_name (rev_version r)]) w' = Inr r"
    by blast
  moreover have "is_uuid (rev_version r)" using assms(2) by (simp add: wf_revision_def)
  ultimately show ?thesis by (simp add: get_revision_def Let_def)
qed

lemma append_audit_event_ok:
  assumes "wf_audit_event e" and "au_container_id e = ct_id c" and "audit_dir m c = Inr dir"
    and "list_audit_events m c w = Inr es" and "\<not> path_exists w (dir @ [json_name (au_id e)])"
  shows "\<exists>doc. append_audit_event m c e w =
    (Inr (e\<lparr>au_sequence := next_sequence es\<rparr>), put (dir @ [json_name (au_id e)]) doc w)"
proof -
  have "wf_audit_event (e\<lparr>au_sequence := next_sequence es\<rparr>)"
    using assms(1) next_sequence_pos [of es] by (simp add: wf_audit_event_def)
  from audit_file.writes [where m = m and w = w and p = "dir @ [json_name (au_id e)]", OF this] assms(5)
  obtain doc where "write_document_exclusive m (dir @ [json_name (au_id e)]) ''audit_event''
      (audit_to_dict (e\<lparr>au_sequence := next_sequence es\<rparr>)) w = (Inr (), put (dir @ [json_name (au_id e)]) doc w)"
    by blast
  with assms(2-4) show ?thesis
    by (intro exI [of _ doc]) (simp add: append_audit_event_def bindW_def op_simps Let_def)
qed

lemma save_environment_Inr:
  assumes "save_environment m c e w = (Inr u, w')"
  shows "\<exists>dir doc. environment_dir m c = Inr dir \<and> env_container_id e = ct_id c
    \<and> w' = put (dir @ [json_name (env_id e)]) doc w
    \<and> (wf_environment e \<longrightarrow> load m ''environment'' (environment_from_dict (m_rt m))
         (dir @ [json_name (env_id e)]) w' = Inr e)"
proof -
  from assms obtain dir where dir: "environment_dir m c = Inr dir" "env_container_id e = ct_id c"
    and wr: "write_document m (dir @ [json_name (env_id e)]) ''environment'' (environment_to_dict e) w = (Inr (), w')"
    by (auto simp: save_environment_def op_simps split: if_splits)
  from write_document_run [OF wr] environment_file.save_load [OF _ wr] dir show ?thesis by auto
qed

lemma save_environment_ok:
  assumes "wf_environment e" and "env_container_id e = ct_id c" and "environment_dir m c = Inr dir"
  shows "\<exists>doc. save_environment m c e w = (Inr (), put (dir @ [json_name (env_id e)]) doc w)
    \<and> (\<forall>w'. map_of (w_files w') (dir @ [json_name (env_id e)]) = Some (Inr (VDict doc)) \<longrightarrow>
         load m ''environment'' (environment_from_dict (m_rt m)) (dir @ [json_name (env_id e)]) w' = Inr e)"
proof -
  from environment_file.writes [where rt = "m_rt m" and m = m and w = w and p = "dir @ [json_name (env_id e)]",
      OF assms(1)]
  obtain doc where "write_document m (dir @ [json_name (env_id e)]) ''environment'' (environment_to_dict e) w
      = (Inr (), put (dir @ [json_name (env_id e)]) doc w)"
    "\<forall>w'. map_of (w_files w') (dir @ [json_name (env_id e)]) = Some (Inr (VDict doc)) \<longrightarrow>
       load m ''environment'' (environment_from_dict (m_rt m)) (dir @ [json_name (env_id e)]) w' = Inr e"
    by blast
  with assms(2,3) show ?thesis
    by (intro exI [of _ doc]) (simp add: save_environment_def bindW_def op_simps)
qed

lemma get_environment_load:
  assumes "is_uuid i" and "environment_dir m c = Inr dir"
  shows "get_environment m c i w = Inr e \<longleftrightarrow>
    load m ''environment'' (environment_from_dict (m_rt m)) (dir @ [json_name i]) w = Inr e
      \<and> env_container_id e = ct_id c"
  using assms by (auto simp: get_environment_def bindR_Inr_iff Let_def split: if_splits)

lemma get_environment_agree:
  "environment_dir m c = Inr dir \<Longrightarrow> agree_on dir w w' \<Longrightarrow> get_environment m c i w' = get_environment m c i w"
  unfolding get_environment_def Let_def
  by (rule bindR_cong, rule HOL.refl) (simp add: agree_on_def load_cong [of w' _ w])

lemma get_revision_agree:
  "revision_dir m c = Inr dir \<Longrightarrow> agree_on dir w w' \<Longrightarrow> get_revision m c i w' = get_revision m c i w"
  unfolding get_revision_def Let_def
  by (rule bindR_cong, rule HOL.refl) (simp add: agree_on_def load_cong [of w' _ w])

lemma get_revision_wf: "get_revision m c i w = Inr r \<Longrightarrow> wf_revision (m_rt m) r \<and> rev_container_id r = ct_id c"
  by (auto simp: get_revision_def bindR_Inr_iff Let_def load_def split: if_splits
      dest: revision_codec.parse_inv)

lemma get_environment_wf: "get_environment m c i w = Inr e \<Longrightarrow> wf_environment e \<and> env_container_id e = ct_id c"
  by (auto simp: get_environment_def bindR_Inr_iff Let_def load_def split: if_splits
      dest: environment_codec.parse_inv)

lemma list_revisions_wf: "list_revisions m c w = Inr rs \<Longrightarrow> r \<in> set rs \<Longrightarrow> wf_revision (m_rt m) r"
  by (auto simp: list_revisions_def load_all_def load_def bindR_Inr_iff dest!: mapR_Inr_set
      dest: revision_codec.parse_inv)

lemma list_environments_wf: "list_environments m c w = Inr es \<Longrightarrow> e \<in> set es \<Longrightarrow> wf_environment e"
  by (auto simp: list_environments_def load_all_def load_def bindR_Inr_iff dest!: mapR_Inr_set
      dest: environment_codec.parse_inv)

lemma get_container_wf: "get_container m org i w = Inr c \<Longrightarrow>
    wf_container c \<and> ct_org_id c = org \<and> uniqueness_key c = py_casefold i"
  by (auto simp: get_container_def bindR_Inr_iff Let_def load_def split: if_splits
      dest: container_codec.parse_inv)

lemma storage_key_ok: "is_uuid org \<Longrightarrow> good_container_id i \<Longrightarrow>
    \<exists>key. container_storage_key rt (VStr org) (VStr i) = Inr key"
  by (simp add: container_storage_key_def normalize_container_id_def Let_def)

lemma container_dir_ok: "is_uuid org \<Longrightarrow> good_container_id i \<Longrightarrow> \<exists>dir. container_dir m org i = Inr dir"
  using storage_key_ok [of org i "m_rt m"] by (auto simp: container_dir_Inr)

lemma container_dir_casefold:
  "good_container_id i \<Longrightarrow> good_container_id j \<Longrightarrow> py_casefold i = py_casefold j \<Longrightarrow>
     container_dir m org i = container_dir m org j"
  by (simp add: container_dir_def container_storage_key_def normalize_container_id_def)

lemma dirs_distinct:
  assumes "revision_dir m c = Inr r" and "environment_dir m c = Inr e" and "audit_dir m c = Inr a"
  shows "r \<noteq> e" "r \<noteq> a" "e \<noteq> a"
  using assms by (auto simp: dirs_def sub_dir_Inr)

text \<open>No file changed or disappeared.\<close>

definition grows :: "world \<Rightarrow> world \<Rightarrow> bool" where
  "grows w w' \<longleftrightarrow> map_of (w_files w) \<subseteq>\<^sub>m map_of (w_files w')"

interpretation grows: frame grows
  by unfold_locales (auto simp: grows_def intro: map_le_trans)

lemma write_exclusive_grows: "keeps grows (write_document_exclusive m p kind v)"
proof -
  have "grows w (snd (write_document_exclusive m p kind v w))" for w
    using write_document_exclusive_run [of m p kind v w]
    by (cases "write_document_exclusive m p kind v w") (auto simp: grows_def map_le_def map_of_put path_exists_def)
  then show ?thesis by (simp add: keeps_def)
qed

lemma save_revision_grows: "keeps grows (save_revision m c r)"
  unfolding save_revision_def by (intro grows.rules write_exclusive_grows)

lemma append_audit_event_grows: "keeps grows (append_audit_event m c e)"
  unfolding append_audit_event_def by (intro grows.rules write_exclusive_grows)

lemma saved_container_found:
  assumes "wf_container c" and "save_container m c w = (Inr (), w')"
    and "good_container_id i" and "py_casefold i = uniqueness_key c"
  shows "get_container m (ct_org_id c) i w' = Inr c"
proof -
  from assms(2) obtain dir where dir: "container_dir m (ct_org_id c) (ct_id c) = Inr dir"
    and wr: "write_document m (dir @ [''container.json'']) ''container'' (container_to_dict c) w = (Inr (), w')"
    by (auto simp: save_container_def op_simps)
  have "good_container_id (ct_id c)" using assms(1) by (simp add: wf_container_def)
  with assms(3,4) dir have "container_dir m (ct_org_id c) i = Inr dir"
    by (metis container_dir_casefold uniqueness_key_def)
  with container_writes [OF assms(1) wr] assms(4) show ?thesis by (simp add: get_container_def)
qed

subsection \<open>A concrete machine\<close>

text \<open>
  For the witnesses: a machine whose fresh ids differ in their last two digits, for a hundred draws,
  an empty world and a container.
\<close>

definition sample_uuid :: "nat \<Rightarrow> string" where
  "sample_uuid n = ''00000000-0000-4000-8000-0000000001''
     @ [char_of (48 + n div 10 mod 10), char_of (48 + n mod 10)]"

lemma digit_char: "k < (10::nat) \<Longrightarrow> is_decimal (char_of (48 + k)) \<and> (char_of (48 + k) :: char) \<noteq> CHR ''-''"
proof -
  assume k: "k < (10::nat)"
  then have c: "code (char_of (48 + k) :: char) = 48 + k" by simp
  then have "(char_of (48 + k) :: char) \<noteq> CHR ''-''" using code_inject [of "char_of (48 + k)" "CHR ''-''"] by simp
  with k c show ?thesis by (simp add: is_decimal_def)
qed

lemma sample_uuid_ok: "is_uuid (sample_uuid n)"
  using digit_char [of "n div 10 mod 10"] digit_char [of "n mod 10"]
  by (simp add: sample_uuid_def is_uuid_def is_lower_hex_def)
    (simp add: is_decimal_def)

lemma sample_uuid_inj: "m < 100 \<Longrightarrow> n < 100 \<Longrightarrow> sample_uuid m = sample_uuid n \<longleftrightarrow> m = n"
proof -
  have d: "(char_of (48 + a) :: char) = char_of (48 + b) \<longleftrightarrow> a = b" if "a < 10" "b < 10" for a b :: nat
  proof
    assume "(char_of (48 + a) :: char) = char_of (48 + b)"
    then have "code (char_of (48 + a) :: char) = (code (char_of (48 + b) :: char) :: nat)" by simp
    with that show "a = b" by simp
  qed simp
  assume "m < 100" "n < 100"
  then have "m div 10 mod 10 = m div 10" "n div 10 mod 10 = n div 10" by auto
  then show ?thesis
    using d [of "m div 10" "n div 10"] d [of "m mod 10" "n mod 10"] \<open>m < 100\<close> \<open>n < 100\<close>
    by (simp add: sample_uuid_def) (metis div_mult_mod_eq)
qed

definition sample_machine :: machine where
  "sample_machine = \<lparr>m_rt = witness_runtime, m_root = ''store'', m_new_id = sample_uuid,
     m_now = (\<lambda>n. ''2024'')\<rparr>"

lemma sample_machine_simps [simp]:
  "m_rt sample_machine = witness_runtime" "m_new_id sample_machine = sample_uuid"
  "m_now sample_machine n = ''2024''"
  by (simp_all add: sample_machine_def)

definition empty_world :: world where
  "empty_world = \<lparr>w_files = [], w_drawn = 0, w_ticks = 0\<rparr>"

definition sample_container :: container where
  "sample_container = \<lparr>ct_id = ''Shop'', ct_org_id = sample_uuid 98, ct_workspace_id = sample_uuid 99,
     ct_name = ''Shop'', ct_description = [], ct_site_urls = [], ct_external_refs = [],
     ct_created_at = ''2024'', ct_created_by = ''local'', ct_status = ''active''\<rparr>"

lemma lower_charI: "is_upper_latin c \<Longrightarrow> code d = code c + (32::nat) \<Longrightarrow> lower_char c = d"
  unfolding lower_char_def by (simp only: if_True) (metis char_of_char)

lemma lower_shop:
  "lower_char (CHR ''S'') = CHR ''s''" "lower_char (CHR ''H'') = CHR ''h''" "lower_char (CHR ''O'') = CHR ''o''"
  "lower_char (CHR ''P'') = CHR ''p''"
  by (rule lower_charI; simp add: is_upper_latin_def)+

lemma lower_lower: "\<not> is_upper_latin c \<Longrightarrow> lower_char c = c"
  by (simp add: lower_char_def)

lemma good_shop: "good_container_id ''Shop''" "good_container_id ''sHOP''" "good_name ''Shop''"
  by (simp_all add: good_container_id_iff container_id_shape_def container_id_char_def is_ascii_letter_def
      good_name_def validate_name_def MAX_NAME_LENGTH_def py_strip_def py_lstrip_def is_space_def is_control_def)

lemma wf_sample_container: "wf_container sample_container"
  by (simp add: wf_container_def sample_container_def good_shop sample_uuid_ok good_refs_def CONTAINER_STATUSES_def)

lemma sample_container_dir: "\<exists>dir. container_dir m (ct_org_id sample_container) (ct_id sample_container) = Inr dir"
  by (simp add: sample_container_def container_dir_ok sample_uuid_ok good_shop)

lemma save_sample_container:
  "\<exists>w'. save_container sample_machine sample_container empty_world = (Inr (), w')"
proof -
  obtain dir where "container_dir sample_machine (ct_org_id sample_container) (ct_id sample_container) = Inr dir"
    using sample_container_dir by blast
  then show ?thesis
    by (simp add: save_container_def bindW_def op_simps write_document_def wrap_document_def DOCUMENT_KINDS_def
        container_to_dict_def atomic_write_def put_file_def str_list_def sample_container_def)
qed

definition sample_event :: audit_event where
  "sample_event = \<lparr>au_id = sample_uuid 0, au_container_id = ''Shop'', au_action = ''a'', au_actor = ''local'',
     au_created_at = ''2024'', au_result = ''success'', au_environment_id = None, au_config_version = None,
     au_previous_version = None, au_checksum = None, au_previous_checksum = None, au_details = [],
     au_sequence = 0\<rparr>"

lemma wf_sample_event: "wf_audit_event sample_event"
  by (simp add: wf_audit_event_def sample_event_def good_shop sample_uuid_ok)

subsection \<open>Properties\<close>

text \<open>
  Revisions and audit events are written once: whatever their result, saving a revision and
  appending an audit event leave every existing file as it was.
\<close>
theorem immutable_documents:
  "map_of (w_files w) \<subseteq>\<^sub>m map_of (w_files (snd (save_revision m c r w)))
   \<and> map_of (w_files w) \<subseteq>\<^sub>m map_of (w_files (snd (append_audit_event m c e w)))"
  using save_revision_grows append_audit_event_grows by (auto simp: keeps_def grows_def)

text \<open>
  The audit log is append-only.  An event that \<open>AuditEvent.create\<close> can have made is added at the
  end of the log with a sequence number greater than every earlier one; the others are unchanged.
\<close>
theorem audit_log_appends:
  assumes "append_audit_event m c e w = (Inr s, w')" and "wf_audit_event e"
  shows "\<exists>es. list_audit_events m c w = Inr es \<and> list_audit_events m c w' = Inr (es @ [s])
    \<and> (\<forall>x \<in> set es. au_sequence x < au_sequence s) \<and> s = e\<lparr>au_sequence := au_sequence s\<rparr>"
  using append_audit_event_Inr [OF assms] next_sequence_above by fastforce

theorem audit_log_appends_witness:
  "\<exists>w s. list_audit_events sample_machine sample_container w = Inr [s]"
proof -
  obtain dir where dir: "audit_dir sample_machine sample_container = Inr dir"
    using sample_container_dir [of sample_machine] by (auto simp: audit_dir_def sub_dir_Inr)
  then have empty: "list_audit_events sample_machine sample_container empty_world = Inr []"
    by (simp add: list_audit_events_def glob_json_def empty_world_def)
  have "\<not> path_exists empty_world p" for p by (simp add: path_exists_def empty_world_def)
  with append_audit_event_ok [OF wf_sample_event _ dir empty] obtain s w where
    "append_audit_event sample_machine sample_container sample_event empty_world = (Inr s, w)"
    by (auto simp: sample_event_def sample_container_def)
  from audit_log_appends [OF this wf_sample_event] empty show ?thesis by auto
qed

text \<open>
  Container ids are case-insensitive.  A saved container is found under every spelling of its id
  that casefolds to the same text.
\<close>
theorem container_found_under_every_spelling:
  assumes "wf_container c" and "save_container m c w = (Inr (), w')"
    and "good_container_id i" and "py_casefold i = uniqueness_key c"
  shows "get_container m (ct_org_id c) i w' = Inr c"
  using saved_container_found [OF assms] .

theorem container_found_under_every_spelling_witness:
  "\<exists>w. get_container sample_machine (sample_uuid 98) ''sHOP'' w = Inr sample_container"
proof -
  obtain w where w: "save_container sample_machine sample_container empty_world = (Inr (), w)"
    using save_sample_container by blast
  have "py_casefold ''sHOP'' = uniqueness_key sample_container"
    by (simp add: uniqueness_key_def sample_container_def py_casefold_def lower_shop)
      (simp add: lower_lower is_upper_latin_def)
  from container_found_under_every_spelling [OF wf_sample_container w good_shop(2) this] show ?thesis
    by (auto simp: sample_container_def)
qed

end
