(* ===== verification/Revision_Diff.thy ===== *)
theory Revision_Diff
  imports Models
begin

section \<open>Comparison of revisions (control/diff.py)\<close>

text \<open>
  Two payloads are compared object by object: an object is identified by its type and id, and it
  has changed when its canonical JSON has.  The result is a list of changes in a fixed order.
\<close>

type_synonym object_key = "string \<times> string"

definition OBJECT_ORDER :: "(string, nat) dict" where
  "OBJECT_ORDER = [(''tag'', 0), (''trigger'', 1), (''variable'', 2), (''destination'', 3)]"

record object_change =
  oc_type :: string
  oc_id :: string
  oc_change :: string
  oc_fields :: "string list"
  oc_before :: "pyval option"
  oc_after :: "pyval option"

definition object_change_to_dict :: "object_change \<Rightarrow> pyval" where
  "object_change_to_dict c = VDict ([
     (''object_type'', VStr (oc_type c)),
     (''object_id'', VStr (oc_id c)),
     (''change'', VStr (oc_change c)),
     (''fields'', str_list (oc_fields c))]
     @ (case oc_before c of None \<Rightarrow> [] | Some v \<Rightarrow> [(''before'', v)])
     @ (case oc_after c of None \<Rightarrow> [] | Some v \<Rightarrow> [(''after'', v)]))"

text \<open>\<open>_objects\<close>: the printed objects of a payload by type and id.\<close>

definition object_key_of :: "managed_object \<Rightarrow> object_key" where
  "object_key_of x = (object_type x, object_id x)"

definition objects_of :: "payload \<Rightarrow> (object_key, pyval) dict" where
  "objects_of p = map (\<lambda>(k, x). (k, object_to_dict x)) (index_by object_key_of (all_objects p))"

definition fields_of :: "pyval \<Rightarrow> pydict" where
  "fields_of v = (case v of VDict d \<Rightarrow> d | _ \<Rightarrow> [])"

definition changed_fields :: "pydict \<Rightarrow> pydict \<Rightarrow> string list" where
  "changed_fields before after = sort (filter
     (\<lambda>k. \<not> py_eq (get_or before k VNone) (get_or after k VNone)) (remdups (keys before @ keys after)))"

definition change_rank :: "object_key \<Rightarrow> nat \<times> string" where
  "change_rank k = (case map_of OBJECT_ORDER (fst k) of Some n \<Rightarrow> n | None \<Rightarrow> 0, snd k)"

text \<open>One turn of the loop over the sorted keys.\<close>

definition object_changes ::
    "py_runtime \<Rightarrow> (object_key, pyval) dict \<Rightarrow> (object_key, pyval) dict \<Rightarrow> object_key
     \<Rightarrow> object_change list res" where
  "object_changes rt before after k = (case (map_of before k, map_of after k) of
     (None, new) \<Rightarrow> Inr [\<lparr>oc_type = fst k, oc_id = snd k, oc_change = ''added'', oc_fields = [],
       oc_before = None, oc_after = new\<rparr>]
   | (Some old, None) \<Rightarrow> Inr [\<lparr>oc_type = fst k, oc_id = snd k, oc_change = ''removed'', oc_fields = [],
       oc_before = Some old, oc_after = None\<rparr>]
   | (Some old, Some new) \<Rightarrow>
       bindR (canonical_json rt old) (\<lambda>text_old.
       bindR (canonical_json rt new) (\<lambda>text_new.
       Inr (if text_old \<noteq> text_new
         then [\<lparr>oc_type = fst k, oc_id = snd k, oc_change = ''changed'',
           oc_fields = changed_fields (fields_of old) (fields_of new),
           oc_before = Some old, oc_after = Some new\<rparr>]
         else []))))"

definition diff_payloads :: "py_runtime \<Rightarrow> payload \<Rightarrow> payload \<Rightarrow> object_change list res" where
  "diff_payloads rt payload_from payload_to =
     (let before = objects_of payload_from; after = objects_of payload_to in
      bindR (mapR (object_changes rt before after)
        (sort_key change_rank (remdups (keys before @ keys after)))) (\<lambda>css. Inr (concat css)))"

record revision_diff =
  rd_container_id :: string
  rd_from_version :: string
  rd_to_version :: string
  rd_from_number :: pyval
  rd_to_number :: pyval
  rd_from_checksum :: string
  rd_to_checksum :: string
  rd_changes :: "object_change list"

definition diff_summary :: "revision_diff \<Rightarrow> (string, nat) dict" where
  "diff_summary d = map (\<lambda>kind. (kind, length (filter (\<lambda>c. oc_change c = kind) (rd_changes d))))
     [''added'', ''removed'', ''changed'']"

definition diff_identical :: "revision_diff \<Rightarrow> bool" where
  "diff_identical d \<longleftrightarrow> rd_changes d = []"

definition revision_diff_to_dict :: "revision_diff \<Rightarrow> pyval" where
  "revision_diff_to_dict d = VDict [
     (''container_id'', VStr (rd_container_id d)),
     (''from'', VDict [
       (''config_version'', VStr (rd_from_version d)),
       (''revision_number'', rd_from_number d),
       (''checksum'', VStr (rd_from_checksum d))]),
     (''to'', VDict [
       (''config_version'', VStr (rd_to_version d)),
       (''revision_number'', rd_to_number d),
       (''checksum'', VStr (rd_to_checksum d))]),
     (''identical'', VBool (diff_identical d)),
     (''summary'', VDict (map (\<lambda>(k, n). (k, VInt (int n))) (diff_summary d))),
     (''changes'', VList (map object_change_to_dict (rd_changes d)))]"

definition diff_revisions :: "py_runtime \<Rightarrow> revision \<Rightarrow> revision \<Rightarrow> revision_diff res" where
  "diff_revisions rt a b =
     (if rev_container_id a \<noteq> rev_container_id b
      then Inl (ValueError ''cannot diff revisions from different containers'')
      else bindR (diff_payloads rt (rev_payload a) (rev_payload b)) (\<lambda>cs.
        Inr \<lparr>rd_container_id = rev_container_id a, rd_from_version = rev_version a,
          rd_to_version = rev_version b, rd_from_number = rev_number a, rd_to_number = rev_number b,
          rd_from_checksum = rev_checksum a, rd_to_checksum = rev_checksum b, rd_changes = cs\<rparr>))"

subsection \<open>Laws\<close>

text \<open>The object a payload holds under a key.\<close>

definition object_at :: "payload \<Rightarrow> object_key \<Rightarrow> pyval option" where
  "object_at p k = map_of (objects_of p) k"

lemma object_at_index:
  "object_at p k = map_option object_to_dict (map_of (index_by object_key_of (all_objects p)) k)"
  by (simp add: object_at_def objects_of_def map_of_map)

lemma object_at_SomeD:
  "object_at p k = Some v \<Longrightarrow> \<exists>x \<in> set (all_objects p). object_key_of x = k \<and> v = object_to_dict x"
  by (auto simp: object_at_index dest!: index_by_SomeD)

lemma keys_objects_of: "k \<in> set (keys (objects_of p)) \<longleftrightarrow> object_at p k \<noteq> None"
  by (simp add: object_at_def map_of_eq_None_keys)

lemma object_finite: "wf_payload rt p \<Longrightarrow> object_at p k = Some v \<Longrightarrow> finite_val v"
  by (fastforce dest!: object_at_SomeD simp: all_objects_def wf_payload_def finite_to_dict)

lemma object_key_type: "object_at p k = Some v \<Longrightarrow> fst k \<in> {''tag'', ''trigger'', ''variable'', ''destination''}"
  by (auto dest!: object_at_SomeD simp: object_key_of_def all_objects_def)

lemma change_rank_inj:
  "change_rank k = change_rank l \<Longrightarrow> fst k \<in> {''tag'', ''trigger'', ''variable'', ''destination''}
     \<Longrightarrow> fst l \<in> {''tag'', ''trigger'', ''variable'', ''destination''} \<Longrightarrow> k = l"
  by (cases k; cases l) (auto simp: change_rank_def OBJECT_ORDER_def split: if_splits)

text \<open>The change a comparison should report for a key, if any.\<close>

definition expected_change :: "py_runtime \<Rightarrow> payload \<Rightarrow> payload \<Rightarrow> object_key \<Rightarrow> object_change option" where
  "expected_change rt p q k = (case (object_at p k, object_at q k) of
     (None, None) \<Rightarrow> None
   | (None, Some new) \<Rightarrow> Some \<lparr>oc_type = fst k, oc_id = snd k, oc_change = ''added'', oc_fields = [],
       oc_before = None, oc_after = Some new\<rparr>
   | (Some old, None) \<Rightarrow> Some \<lparr>oc_type = fst k, oc_id = snd k, oc_change = ''removed'', oc_fields = [],
       oc_before = Some old, oc_after = None\<rparr>
   | (Some old, Some new) \<Rightarrow>
       if json_dumps rt old = json_dumps rt new then None
       else Some \<lparr>oc_type = fst k, oc_id = snd k, oc_change = ''changed'',
         oc_fields = changed_fields (fields_of old) (fields_of new),
         oc_before = Some old, oc_after = Some new\<rparr>)"

definition change_key :: "object_change \<Rightarrow> object_key" where
  "change_key c = (oc_type c, oc_id c)"

lemma expected_change_key: "expected_change rt p q k = Some c \<Longrightarrow> change_key c = k"
  by (auto simp: expected_change_def change_key_def split: option.splits if_splits)

definition all_keys :: "payload \<Rightarrow> payload \<Rightarrow> object_key list" where
  "all_keys p q = sort_key change_rank (remdups (keys (objects_of p) @ keys (objects_of q)))"

lemma set_all_keys: "k \<in> set (all_keys p q) \<longleftrightarrow> object_at p k \<noteq> None \<or> object_at q k \<noteq> None"
  by (simp add: all_keys_def keys_objects_of)

lemma object_changes_expected:
  assumes "wf_payload rt p" and "wf_payload rt q" and "k \<in> set (all_keys p q)"
  shows "object_changes rt (objects_of p) (objects_of q) k =
    Inr (case expected_change rt p q k of None \<Rightarrow> [] | Some c \<Rightarrow> [c])"
  using assms(3) object_finite [OF assms(1)] object_finite [OF assms(2)]
  unfolding object_changes_def expected_change_def set_all_keys
  unfolding object_at_def [symmetric]
  by (cases "object_at p k"; cases "object_at q k") simp_all

lemma concat_options: "concat (map (\<lambda>k. case f k of None \<Rightarrow> [] | Some c \<Rightarrow> [c]) ks) = List.map_filter f ks"
  by (induction ks) (auto simp: List.map_filter_simps split: option.split)

lemma diff_payloads_eq:
  assumes "wf_payload rt p" and "wf_payload rt q"
  shows "diff_payloads rt p q = Inr (List.map_filter (expected_change rt p q) (all_keys p q))"
proof -
  have "mapR (object_changes rt (objects_of p) (objects_of q)) (all_keys p q)
      = Inr (map (\<lambda>k. case expected_change rt p q k of None \<Rightarrow> [] | Some c \<Rightarrow> [c]) (all_keys p q))"
    by (rule mapR_Inr_all) (rule object_changes_expected [OF assms])
  then show ?thesis
    by (simp add: diff_payloads_def Let_def all_keys_def [symmetric] concat_options)
qed

lemma sorted_all_keys: "sorted_wrt (\<lambda>k l. change_rank k < change_rank l) (all_keys p q)"
proof -
  have "distinct (map change_rank (all_keys p q))"
    unfolding distinct_map
  proof
    show "distinct (all_keys p q)" by (simp add: all_keys_def)
    show "inj_on change_rank (set (all_keys p q))"
      by (rule inj_onI) (metis set_all_keys change_rank_inj object_key_type option.exhaust)
  qed
  moreover have "sorted (map change_rank (all_keys p q))" by (simp add: all_keys_def)
  ultimately have "sorted_wrt (<) (map change_rank (all_keys p q))"
    by (simp add: strict_sorted_iff)
  then show ?thesis by (simp add: sorted_wrt_map)
qed

lemma map_filter_keys:
  "(\<And>k c. f k = Some c \<Longrightarrow> key c = k) \<Longrightarrow>
     map key (List.map_filter f ks) = filter (\<lambda>k. f k \<noteq> None) ks"
  by (induction ks) (auto simp: List.map_filter_simps split: option.split)

lemma set_map_filter: "c \<in> set (List.map_filter f ks) \<longleftrightarrow> (\<exists>k \<in> set ks. f k = Some c)"
  by (induction ks) (auto simp: List.map_filter_simps split: option.split)

subsection \<open>Replaying a comparison\<close>

definition replay_change :: "(object_key \<rightharpoonup> pyval) \<Rightarrow> object_change \<Rightarrow> (object_key \<rightharpoonup> pyval)" where
  "replay_change m c = m(change_key c := oc_after c)"

lemma replay_changes:
  assumes "distinct (map change_key cs)"
  shows "foldl replay_change m cs k =
    (case find (\<lambda>c. change_key c = k) cs of None \<Rightarrow> m k | Some c \<Rightarrow> oc_after c)"
  using assms
proof (induction cs arbitrary: m)
  case (Cons c cs)
  then have "find (\<lambda>c'. change_key c' = change_key c) cs = None"
    by (auto simp: find_None_iff image_iff)
  with Cons show ?case by (auto simp: replay_change_def)
qed simp

lemma expected_change_after:
  "expected_change rt p q k = Some c \<Longrightarrow> oc_after c = object_at q k"
  "expected_change rt p q k = None \<Longrightarrow>
     map_option (json_dumps rt) (object_at p k) = map_option (json_dumps rt) (object_at q k)"
  by (auto simp: expected_change_def split: option.splits if_splits)

lemma expected_change_listed: "expected_change rt p q k = Some c \<Longrightarrow> k \<in> set (all_keys p q)"
  by (auto simp: expected_change_def set_all_keys split: option.splits)

subsection \<open>Properties\<close>

text \<open>
  The comparison of two well-formed payloads never fails and is exact.  It reports precisely the
  objects that only one of them has and those whose canonical JSON differs, each once, with the old
  and new object, ordered by kind (tags, triggers, variables, destinations) and then by id.
\<close>
theorem diff_is_exact:
  assumes "wf_payload rt p" and "wf_payload rt q"
  shows "\<exists>cs. diff_payloads rt p q = Inr cs
    \<and> set cs = {c. \<exists>k. expected_change rt p q k = Some c}
    \<and> sorted_wrt (\<lambda>c d. change_rank (change_key c) < change_rank (change_key d)) cs"
proof -
  let ?cs = "List.map_filter (expected_change rt p q) (all_keys p q)"
  have "sorted_wrt (\<lambda>k l. change_rank k < change_rank l) (map change_key ?cs)"
    by (simp add: map_filter_keys [OF expected_change_key] sorted_wrt_filter sorted_all_keys)
  then show ?thesis
    using diff_payloads_eq [OF assms] expected_change_listed [of rt p q]
    by (fastforce simp: set_map_filter sorted_wrt_map)
qed

theorem diff_is_exact_witness:
  "\<exists>cs. diff_payloads witness_runtime payload_empty sample_payload = Inr cs
    \<and> set cs = {c. \<exists>k. expected_change witness_runtime payload_empty sample_payload k = Some c}"
  using diff_is_exact [OF wf_payload_empty wf_sample_payload] by blast

text \<open>
  C36: a comparison is complete: replaying the reported changes on the objects of the first payload
  gives the objects of the second, up to values with the same canonical JSON.
\<close>
theorem diff_replays:
  assumes "wf_payload rt p" and "wf_payload rt q" and "diff_payloads rt p q = Inr cs"
  shows "map_option (json_dumps rt) (foldl replay_change (object_at p) cs k)
    = map_option (json_dumps rt) (object_at q k)"
proof -
  from assms(3) have cs: "cs = List.map_filter (expected_change rt p q) (all_keys p q)"
    by (simp add: diff_payloads_eq [OF assms(1,2)])
  have "distinct (map change_key cs)"
    by (simp add: cs map_filter_keys [OF expected_change_key] distinct_filter)
      (simp add: all_keys_def)
  note step = replay_changes [OF this]
  show ?thesis
  proof (cases "find (\<lambda>c. change_key c = k) cs")
    case None
    then have "expected_change rt p q k = None"
    proof (rule contrapos_pp)
      assume "expected_change rt p q k \<noteq> None"
      then obtain c where c: "expected_change rt p q k = Some c" by blast
      then have "c \<in> set cs" unfolding cs set_map_filter by (blast intro: expected_change_listed)
      with expected_change_key [OF c] show "find (\<lambda>c. change_key c = k) cs \<noteq> None"
        by (auto simp: find_None_iff)
    qed
    with None show ?thesis by (simp add: step expected_change_after)
  next
    case (Some c)
    then have "c \<in> set cs" "change_key c = k" by (auto simp: find_Some_iff)
    then have "expected_change rt p q k = Some c"
      unfolding cs set_map_filter using expected_change_key by blast
    with Some show ?thesis by (simp add: step expected_change_after)
  qed
qed

theorem diff_replays_witness:
  "\<exists>cs. \<forall>k. map_option (json_dumps witness_runtime) (foldl replay_change (object_at sample_payload) cs k)
    = map_option (json_dumps witness_runtime) (object_at payload_empty k)"
  using diff_replays [OF wf_sample_payload wf_payload_empty] diff_payloads_eq [OF wf_sample_payload wf_payload_empty]
  by blast

text \<open>
  A change without fields.  Changes are detected on canonical JSON but the changed fields by
  Python's equality, for which \<open>True == 1\<close>: changing a variable's default from 1 to 1.0, or a
  parameter from true to 1, is reported as a change of no field.  (The sample runtime prints the
  float as \<open>1.0\<close>, as Python does.)
\<close>
theorem change_without_fields:
  "(let v = sample_variable\<lparr>variable_type := ''number'', variable_default := VInt 1\<rparr>;
        w = v\<lparr>variable_default := VFloat (Fin 1)\<rparr>
    in diff_payloads witness_runtime (payload_empty\<lparr>payload_variables := [v]\<rparr>) (payload_empty\<lparr>payload_variables := [w]\<rparr>)
      = Inr [\<lparr>oc_type = ''variable'', oc_id = variable_id v, oc_change = ''changed'', oc_fields = [],
          oc_before = Some (variable_to_dict v), oc_after = Some (variable_to_dict w)\<rparr>])"
  by (simp add: diff_payloads_def objects_of_def index_by_def all_objects_def payload_empty_def
      object_key_of_def Let_def object_changes_def variable_to_dict_def sample_variable_def
      changed_fields_def fields_of_def get_or_def witness_runtime_def int_str_def nat_str.simps)

end
