(* ===== verification/Adapters.thy ===== *)
theory Adapters
  imports Codec
begin

section \<open>Destination adapters (control/adapters.py)\<close>

text \<open>
  The adapters that turn a tag and a destination into the payload a preview or an export would
  send, their validation rules, and the registry that finds them by tag type or destination kind.
  The three classes are the constructors of \<open>adapter\<close>; the methods a class overrides are defined
  by cases, the inherited ones once.
\<close>

datatype adapter = GA4Adapter | SegmentAdapter | HttpWebhookAdapter

fun adapter_key :: "adapter \<Rightarrow> string" where
  "adapter_key GA4Adapter = ''ga4_event''"
| "adapter_key SegmentAdapter = ''segment_track''"
| "adapter_key HttpWebhookAdapter = ''http_webhook''"

fun destination_kind_of :: "adapter \<Rightarrow> string" where
  "destination_kind_of GA4Adapter = ''ga4''"
| "destination_kind_of SegmentAdapter = ''segment''"
| "destination_kind_of HttpWebhookAdapter = ''http_webhook''"

record capabilities =
  cap_export :: bool
  cap_browser :: bool
  cap_server :: bool

definition adapter_capabilities :: "adapter \<Rightarrow> capabilities" where
  "adapter_capabilities a = \<lparr>cap_export = True, cap_browser = False, cap_server = False\<rparr>"

definition capabilities_to_dict :: "capabilities \<Rightarrow> pyval" where
  "capabilities_to_dict c = VDict [(''export'', VBool (cap_export c)), (''browser'', VBool (cap_browser c)),
     (''server'', VBool (cap_server c))]"

record adapter_issue =
  issue_severity :: string
  issue_code :: string
  issue_message :: string

definition adapter_issue_to_dict :: "adapter_issue \<Rightarrow> pyval" where
  "adapter_issue_to_dict i = VDict [(''severity'', VStr (issue_severity i)), (''code'', VStr (issue_code i)),
     (''message'', VStr (issue_message i))]"

definition an_issue :: "string \<Rightarrow> string \<Rightarrow> string \<Rightarrow> adapter_issue" where
  "an_issue severity cd message = \<lparr>issue_severity = severity, issue_code = cd, issue_message = message\<rparr>"

record build_result =
  build_adapter :: string
  build_destination_id :: "string option"
  build_payload_out :: "pydict option"
  build_secret_refs :: "(string, string) dict"
  build_error :: "string option"

definition build_result_to_dict :: "build_result \<Rightarrow> pyval" where
  "build_result_to_dict r = VDict [
     (''simulation'', VBool True),
     (''would_send'', VBool False),
     (''adapter'', VStr (build_adapter r)),
     (''capability'', VStr ''export''),
     (''destination_id'', opt_str (build_destination_id r)),
     (''payload'', case build_payload_out r of None \<Rightarrow> VNone | Some d \<Rightarrow> VDict d),
     (''secret_refs'', VDict (map (\<lambda>(k, v). (k, VStr v)) (build_secret_refs r))),
     (''error'', opt_str (build_error r))]"

text \<open>\<open>_event_name\<close>.\<close>

definition event_name_of :: "tag \<Rightarrow> string option" where
  "event_name_of t =
     (case get_or (tag_parameters t) ''event_name'' (get_or (tag_parameters t) ''eventName'' VNone) of
        VStr s \<Rightarrow> if s = [] then None else Some s
      | _ \<Rightarrow> None)"

subsection \<open>Choosing destinations\<close>

text \<open>One turn of the loop over \<open>tag.destination_ids\<close>: a selected destination or an issue.\<close>

definition reference_destination ::
    "(string, destination) dict \<Rightarrow> string \<Rightarrow> string \<Rightarrow> destination + adapter_issue" where
  "reference_destination by_id kind i = (case map_of by_id i of
     None \<Rightarrow> Inr (an_issue ''error'' ''destination_missing''
       (''destination '' @ i @ '' does not exist''))
   | Some d \<Rightarrow>
       if destination_kind d \<noteq> kind
       then Inr (an_issue ''error'' ''destination_kind_mismatch''
         (''destination '' @ repr_str (destination_name d) @ '' has kind ''
           @ repr_str (destination_kind d) @ '', expected '' @ repr_str kind))
       else if \<not> destination_enabled d
       then Inr (an_issue ''warning'' ''destination_disabled''
         (''destination '' @ repr_str (destination_name d) @ '' is disabled''))
       else Inl d)"

definition referenced_destinations ::
    "tag \<Rightarrow> destination list \<Rightarrow> string \<Rightarrow> destination list \<times> adapter_issue list" where
  "referenced_destinations t ds kind =
     (let by_id = index_by destination_id ds;
          refs = map (reference_destination by_id kind) (tag_destination_ids t)
      in if tag_destination_ids t = [] then
           (let selected = filter (\<lambda>d. destination_kind d = kind \<and> destination_enabled d) ds
            in (selected,
                if selected = []
                then [an_issue ''warning'' ''destination_not_configured''
                  (''no enabled '' @ repr_str kind
                    @ '' destination is available; preview cannot build a payload'')]
                else [an_issue ''warning'' ''destination_implicit''
                  (''tag has no destination_ids; preview uses the first enabled ''
                    @ repr_str kind @ '' destination'')]))
         else (concat (map (case_sum (\<lambda>d. [d]) (\<lambda>_. [])) refs),
               concat (map (case_sum (\<lambda>_. []) (\<lambda>i. [i])) refs)))"

subsection \<open>Validation\<close>

definition WEBHOOK_METHODS :: "string list" where
  "WEBHOOK_METHODS = [''POST'', ''PUT'', ''PATCH'', ''GET'']"

text \<open>
  \<open>method not in self._METHODS\<close> hashes the method first, which lists and objects refuse.
\<close>

definition method_allowed :: "pyval \<Rightarrow> bool res" where
  "method_allowed m = (case m of
     VStr s \<Rightarrow> Inr (s \<in> set WEBHOOK_METHODS)
   | VList _ \<Rightarrow> Inl (TypeError (''unhashable type: '' @ repr_str ''list''))
   | VDict _ \<Rightarrow> Inl (TypeError (''unhashable type: '' @ repr_str ''dict''))
   | _ \<Rightarrow> Inr False)"

definition absolute_http_url :: "py_runtime \<Rightarrow> pyval \<Rightarrow> bool res" where
  "absolute_http_url rt url = (case url of
     VStr s \<Rightarrow> (case url_split rt s of
         Inl msg \<Rightarrow> Inl (ValueError msg)
       | Inr (sch, netloc, path) \<Rightarrow> Inr (sch \<in> {''http'', ''https''} \<and> netloc \<noteq> []))
   | _ \<Rightarrow> Inr False)"

text \<open>The \<open>validate_destination\<close> of the three classes, and the method call.\<close>

definition ga4_validate_destination :: "destination \<Rightarrow> adapter_issue list" where
  "ga4_validate_destination d =
     (case get_or (destination_config d) ''measurement_id'' VNone of
        VStr s \<Rightarrow> if s = []
          then [an_issue ''error'' ''measurement_id_required''
            ''GA4 destination config.measurement_id must be a non-empty string'']
          else []
      | _ \<Rightarrow> [an_issue ''error'' ''measurement_id_required''
            ''GA4 destination config.measurement_id must be a non-empty string''])"

definition segment_validate_destination :: "destination \<Rightarrow> adapter_issue list" where
  "segment_validate_destination d =
     (if ''write_key'' \<notin> set (keys (destination_secret_refs d))
      then [an_issue ''warning'' ''write_key_missing''
        ''Segment destination should provide secret_refs.write_key'']
      else [])"

definition webhook_validate_destination :: "py_runtime \<Rightarrow> destination \<Rightarrow> adapter_issue list res" where
  "webhook_validate_destination rt d =
     bindR (absolute_http_url rt (get_or (destination_config d) ''url'' VNone)) (\<lambda>url_ok.
     bindR (method_allowed (get_or (destination_config d) ''method'' (VStr ''POST''))) (\<lambda>method_ok.
       Inr ((if url_ok then []
             else [an_issue ''error'' ''invalid_url''
               ''http_webhook destination config.url must be an absolute http(s) URL''])
          @ (if method_ok then []
             else [an_issue ''error'' ''invalid_method''
               (''http_webhook method must be one of '' @ repr_str_list (sort WEBHOOK_METHODS))]))))"

definition validate_destination :: "py_runtime \<Rightarrow> adapter \<Rightarrow> destination \<Rightarrow> adapter_issue list res" where
  "validate_destination rt a d = (case a of
     GA4Adapter \<Rightarrow> Inr (ga4_validate_destination d)
   | SegmentAdapter \<Rightarrow> Inr (segment_validate_destination d)
   | HttpWebhookAdapter \<Rightarrow> webhook_validate_destination rt d)"

definition validate_tag :: "py_runtime \<Rightarrow> adapter \<Rightarrow> tag \<Rightarrow> destination list \<Rightarrow> adapter_issue list res" where
  "validate_tag rt a t ds =
     (let (selected, destination_issues) = referenced_destinations t ds (destination_kind_of a)
      in bindR (mapR (validate_destination rt a) selected) (\<lambda>issues.
        Inr ((if event_name_of t = None
              then [an_issue ''error'' ''event_name_required''
                ''tag.parameters.event_name must be a non-empty string'']
              else []) @ destination_issues @ concat issues)))"

subsection \<open>Building payloads\<close>

definition object_or_empty :: "pyval \<Rightarrow> pydict" where
  "object_or_empty v = (case v of VDict d \<Rightarrow> d | _ \<Rightarrow> [])"

text \<open>The \<open>_build_payload\<close> of the three classes: the payload, the secret references and the error.\<close>

type_synonym built = "pydict option \<times> (string, string) dict \<times> string option"

definition ga4_build_payload :: "tag \<Rightarrow> destination \<Rightarrow> pydict \<Rightarrow> built res" where
  "ga4_build_payload t d variables =
     (case get_or (tag_parameters t) ''parameters'' (VDict []) of
        VDict ps \<Rightarrow> bindR (dict_item (destination_config d) ''measurement_id'') (\<lambda>mid.
          Inr (Some [(''measurement_id'', mid), (''event_name'', opt_str (event_name_of t)),
              (''parameters'', VDict ps), (''variables'', VDict variables)],
            destination_secret_refs d, None))
      | _ \<Rightarrow> Inr (None, [], Some ''tag.parameters.parameters must be an object''))"

definition segment_build_payload :: "tag \<Rightarrow> destination \<Rightarrow> pydict \<Rightarrow> built" where
  "segment_build_payload t d variables =
     (Some [(''type'', VStr ''track''), (''event'', opt_str (event_name_of t)),
        (''properties'', VDict (object_or_empty (get_or (tag_parameters t) ''parameters'' (VDict [])))),
        (''variables'', VDict variables)],
      destination_secret_refs d, None)"

definition webhook_build_payload :: "tag \<Rightarrow> destination \<Rightarrow> pydict \<Rightarrow> pydict \<Rightarrow> built res" where
  "webhook_build_payload t d variables event =
     bindR (dict_item (destination_config d) ''url'') (\<lambda>url.
       Inr (Some [(''method'', get_or (destination_config d) ''method'' (VStr ''POST'')),
           (''url'', url),
           (''headers'', VDict (object_or_empty (get_or (destination_config d) ''headers'' (VDict [])))),
           (''body'', VDict [(''event'', VDict event),
             (''parameters'', VDict (object_or_empty (get_or (tag_parameters t) ''parameters'' (VDict [])))),
             (''variables'', VDict variables)])],
         destination_secret_refs d, None))"

definition build_payload :: "adapter \<Rightarrow> tag \<Rightarrow> destination \<Rightarrow> pydict \<Rightarrow> pydict \<Rightarrow> built res" where
  "build_payload a t d variables event = (case a of
     GA4Adapter \<Rightarrow> ga4_build_payload t d variables
   | SegmentAdapter \<Rightarrow> Inr (segment_build_payload t d variables)
   | HttpWebhookAdapter \<Rightarrow> webhook_build_payload t d variables event)"

lemmas build_payload_defs = build_payload_def ga4_build_payload_def segment_build_payload_def
  webhook_build_payload_def

lemmas validate_destination_defs = validate_destination_def ga4_validate_destination_def
  segment_validate_destination_def webhook_validate_destination_def

definition adapter_build ::
    "adapter \<Rightarrow> tag \<Rightarrow> destination list \<Rightarrow> pydict \<Rightarrow> pydict \<Rightarrow> build_result res" where
  "adapter_build a t ds variables event =
     (let (selected, issues) = referenced_destinations t ds (destination_kind_of a);
          errors = filter (\<lambda>i. issue_severity i = ''error'') issues;
          failed = (\<lambda>msg. \<lparr>build_adapter = adapter_key a, build_destination_id = None,
            build_payload_out = None, build_secret_refs = [], build_error = Some msg\<rparr>)
      in if errors \<noteq> [] then Inr (failed (join_with ''; '' (map issue_message errors)))
         else (case selected of
             [] \<Rightarrow> Inr (failed (''no enabled '' @ repr_str (destination_kind_of a) @ '' destination''))
           | d # _ \<Rightarrow> bindR (build_payload a t d variables event) (\<lambda>(payload, secret_refs, err).
               Inr \<lparr>build_adapter = adapter_key a, build_destination_id = Some (destination_id d),
                 build_payload_out = payload, build_secret_refs = secret_refs, build_error = err\<rparr>)))"

subsection \<open>The registry\<close>

type_synonym adapter_registry = "(string, adapter) dict"

definition register :: "adapter_registry \<Rightarrow> adapter \<Rightarrow> adapter_registry res" where
  "register r a =
     (if adapter_key a = [] \<or> adapter_key a \<in> set (keys r)
      then Inl (ValidationError (''duplicate or empty adapter key: '' @ repr_str (adapter_key a)))
      else Inr (dict_put r (adapter_key a) a))"

definition get_adapter :: "adapter_registry \<Rightarrow> string \<Rightarrow> adapter option" where
  "get_adapter r key = map_of r key"

definition registry_keys :: "adapter_registry \<Rightarrow> string list" where
  "registry_keys r = sort (keys r)"

definition get_by_destination_kind :: "adapter_registry \<Rightarrow> string \<Rightarrow> adapter option" where
  "get_by_destination_kind r kind = find (\<lambda>a. destination_kind_of a = kind) (map snd r)"

definition registry_capabilities :: "adapter_registry \<Rightarrow> pyval" where
  "registry_capabilities r = VDict (map (\<lambda>k. (k, case map_of r k of
      Some a \<Rightarrow> capabilities_to_dict (adapter_capabilities a) | None \<Rightarrow> VNone)) (registry_keys r))"

definition default_adapter_registry :: "adapter_registry res" where
  "default_adapter_registry =
     bindR (register [] GA4Adapter) (\<lambda>r.
     bindR (register r SegmentAdapter) (\<lambda>r.
     register r HttpWebhookAdapter))"

subsection \<open>What callers rely on\<close>

locale adapter_contract =
  fixes vali :: "destination \<Rightarrow> adapter_issue list res"
    and build :: "tag \<Rightarrow> destination \<Rightarrow> pydict \<Rightarrow> pydict \<Rightarrow> built res"
  assumes validated_builds: "vali d = Inr issues \<Longrightarrow> (\<forall>i \<in> set issues. issue_severity i \<noteq> ''error'') \<Longrightarrow>
      \<exists>r. build t d vs ev = Inr r"
    and payload_or_error: "build t d vs ev = Inr (payload, refs, e) \<Longrightarrow> payload = None \<longleftrightarrow> e \<noteq> None"
    and only_references: "build t d vs ev = Inr (payload, refs, e) \<Longrightarrow>
      refs = [] \<or> refs = destination_secret_refs d"
begin

lemma all_validated_build:
  assumes "mapR vali ds = Inr issues" and "\<forall>i \<in> set (concat issues). issue_severity i \<noteq> ''error''"
    and "d \<in> set ds"
  shows "\<exists>r. build t d vs ev = Inr r"
proof -
  from assms(1,3) obtain ys where "vali d = Inr ys" "ys \<in> set issues"
    by (induction ds arbitrary: issues) (auto simp: bindR_Inr_iff)
  with assms(2) show ?thesis by (intro validated_builds [of d ys]) auto
qed

end

lemma method_allowed_Inr: "method_allowed m = Inr b \<Longrightarrow> b \<longleftrightarrow> (\<exists>s \<in> set WEBHOOK_METHODS. m = VStr s)"
  by (cases m) (auto simp: method_allowed_def)

lemma absolute_http_url_True: "absolute_http_url rt v = Inr True \<Longrightarrow> \<exists>s. v = VStr s"
  by (cases v) (auto simp: absolute_http_url_def)

lemma validated_builds_payload:
  assumes "validate_destination rt a d = Inr issues" and "\<forall>i \<in> set issues. issue_severity i \<noteq> ''error''"
  shows "\<exists>r. build_payload a t d vs ev = Inr r"
proof (cases a)
  case GA4Adapter
  with assms show ?thesis
    by (auto simp: validate_destination_defs build_payload_defs an_issue_def get_or_def dict_item_def Let_def
        split: pyval.splits option.splits)
next
  case HttpWebhookAdapter
  from assms have "absolute_http_url rt (get_or (destination_config d) ''url'' VNone) = Inr True"
    by (auto simp: HttpWebhookAdapter validate_destination_defs an_issue_def bindR_Inr_iff split: if_splits)
  then show ?thesis
    by (auto dest!: absolute_http_url_True simp: HttpWebhookAdapter build_payload_defs get_or_def
        dict_item_def Let_def split: option.splits)
qed (simp add: build_payload_defs Let_def)

lemma build_payload_parts:
  "build_payload a t d vs ev = Inr (payload, refs, e) \<Longrightarrow>
     (payload = None \<longleftrightarrow> e \<noteq> None) \<and> (refs = [] \<or> refs = destination_secret_refs d)"
  by (cases a) (auto simp: build_payload_defs Let_def bindR_Inr_iff split: pyval.splits)

interpretation adapters: adapter_contract "validate_destination rt a" "build_payload a"
  by unfold_locales (erule (1) validated_builds_payload, auto dest: build_payload_parts)

lemma registered_kinds:
  "default_adapter_registry = Inr [(''ga4_event'', GA4Adapter), (''segment_track'', SegmentAdapter),
     (''http_webhook'', HttpWebhookAdapter)]"
  by (simp add: default_adapter_registry_def register_def)

lemma selected_destinations:
  assumes "referenced_destinations t ds kind = (selected, issues)" and "d \<in> set selected"
  shows "d \<in> set ds \<and> destination_kind d = kind \<and> destination_enabled d
    \<and> (tag_destination_ids t \<noteq> [] \<longrightarrow> destination_id d \<in> set (tag_destination_ids t))"
proof (cases "tag_destination_ids t = []")
  case True
  with assms show ?thesis by (auto simp: referenced_destinations_def Let_def)
next
  case False
  have one: "i = destination_id d \<and> d \<in> set ds \<and> destination_kind d = kind \<and> destination_enabled d"
    if "reference_destination (index_by destination_id ds) kind i = Inl d" for i
    using that by (auto simp: reference_destination_def dest: index_by_SomeD split: if_splits option.splits)
  from False assms obtain i where "i \<in> set (tag_destination_ids t)"
    "reference_destination (index_by destination_id ds) kind i = Inl d"
    by (auto simp: referenced_destinations_def Let_def split: sum.splits)
  with one show ?thesis by blast
qed

subsection \<open>Properties\<close>

text \<open>
  C30: once a tag has passed validation without errors, building its payload cannot raise, whatever
  the event and the variables: the result carries either a payload or an error text, never both,
  and the destination it was built for is one of the container's, enabled, of the adapter's kind,
  and one the tag names when it names any.
\<close>
theorem validated_tag_builds:
  assumes "validate_tag rt a t ds = Inr issues" and "\<forall>i \<in> set issues. issue_severity i \<noteq> ''error''"
  shows "\<exists>r. adapter_build a t ds vs ev = Inr r \<and> (build_payload_out r = None \<longleftrightarrow> build_error r \<noteq> None)
    \<and> (\<forall>i. build_destination_id r = Some i \<longrightarrow> (\<exists>d \<in> set ds. destination_id d = i \<and> destination_enabled d
          \<and> destination_kind d = destination_kind_of a
          \<and> (tag_destination_ids t \<noteq> [] \<longrightarrow> i \<in> set (tag_destination_ids t))))"
proof -
  obtain selected dis where ref: "referenced_destinations t ds (destination_kind_of a) = (selected, dis)"
    by fastforce
  from assms ref obtain iss where iss: "mapR (validate_destination rt a) selected = Inr iss"
    and noerr: "\<forall>i \<in> set (concat iss). issue_severity i \<noteq> ''error''" "\<forall>i \<in> set dis. issue_severity i \<noteq> ''error''"
    by (auto simp: validate_tag_def bindR_Inr_iff ball_Un)
  then have nil: "filter (\<lambda>i. issue_severity i = ''error'') dis = []" by (simp add: filter_empty_conv)
  show ?thesis
  proof (cases selected)
    case Nil
    with ref nil show ?thesis by (auto simp: adapter_build_def)
  next
    case (Cons d rest)
    with adapters.all_validated_build [OF iss noerr(1), of d t vs ev] obtain payload refs e where
      b: "build_payload a t d vs ev = Inr (payload, refs, e)" by auto
    from adapters.payload_or_error [OF b] selected_destinations [OF ref, of d] b ref nil Cons
    show ?thesis by (auto simp: adapter_build_def)
  qed
qed

definition sample_destination :: destination where
  "sample_destination = \<lparr>destination_id = ''00000000-0000-4000-8000-000000000002'', destination_name = ''ga'',
     destination_kind = ''ga4'', destination_config = [(''measurement_id'', VStr ''G-1'')],
     destination_secret_refs = [], destination_enabled = True\<rparr>"

definition sample_tag :: tag where
  "sample_tag = \<lparr>tag_id = ''00000000-0000-4000-8000-000000000003'', tag_name = ''buy'',
     tag_type = ''ga4_event'', tag_description = [], tag_parameters = [(''event_name'', VStr ''buy'')],
     tag_trigger_ids = [], tag_variable_ids = [], tag_consent_purpose = None,
     tag_destination_ids = [''00000000-0000-4000-8000-000000000002''], tag_enabled = True,
     tag_adapter_version = ''1'', tag_compatibility = DEFAULT_COMPATIBILITY, tag_source_evidence = None\<rparr>"

theorem validated_tag_builds_witness:
  "\<exists>r. adapter_build GA4Adapter sample_tag [sample_destination] [] [] = Inr r
    \<and> (build_payload_out r = None \<longleftrightarrow> build_error r \<noteq> None)
    \<and> (\<forall>i. build_destination_id r = Some i \<longrightarrow> (\<exists>d \<in> set [sample_destination]. destination_id d = i
          \<and> destination_enabled d \<and> destination_kind d = destination_kind_of GA4Adapter
          \<and> (tag_destination_ids sample_tag \<noteq> [] \<longrightarrow> i \<in> set (tag_destination_ids sample_tag))))"
  by (rule validated_tag_builds [of witness_runtime _ _ _ "[]"])
    (simp_all add: validate_tag_def referenced_destinations_def reference_destination_def
      index_by_def sample_tag_def sample_destination_def validate_destination_defs get_or_def
      event_name_of_def)

end
