(* ===== verification/Variables.thy ===== *)
theory Variables
  imports Codec
begin

section \<open>Variable resolution (control/variables.py)\<close>

text \<open>
  \<open>VariableResolver\<close>: its index of variables and its context are arguments, its cache is threaded
  through every call, and its set of ids being visited, which a \<open>finally\<close> block restores, is an
  argument of the recursion.  The test for sensitive names comes from
  \<^verbatim>\<open>observability/events.py\<close>.
\<close>

subsection \<open>Sensitive names\<close>

definition SENSITIVE_KEY_MARKERS :: "string list" where
  "SENSITIVE_KEY_MARKERS = [''password'', ''passwd'', ''token'', ''secret'', ''authorization'', ''auth'',
     ''credit_card'', ''card_number'', ''cvv'', ''cvc'', ''ssn'', ''api_key'', ''session'', ''csrf'']"

definition is_sensitive_key :: "string \<Rightarrow> bool" where
  "is_sensitive_key key \<longleftrightarrow> list_ex (\<lambda>marker. str_contains marker (py_lower key)) SENSITIVE_KEY_MARKERS"

definition REDACTED :: string where "REDACTED = ''[REDACTED]''"

definition directly_sensitive_ref :: "variable \<Rightarrow> bool" where
  "directly_sensitive_ref v \<longleftrightarrow> variable_sensitive v
     \<or> (variable_source v \<in> {''data_layer'', ''event'', ''consent''}
         \<and> (case variable_source_ref v of
              VStr s \<Rightarrow> is_sensitive_key (last (split_on (CHR ''.'') s)) | _ \<Rightarrow> False))
     \<or> (variable_source v = ''dom''
         \<and> (case variable_source_ref v of
              VStr s \<Rightarrow> is_sensitive_key s
            | VDict d \<Rightarrow> (case map_of d ''attribute'' of Some (VStr a) \<Rightarrow> is_sensitive_key a | _ \<Rightarrow> False)
            | _ \<Rightarrow> False))"

type_synonym variable_index = "(string, variable) dict"

definition variable_index_of :: "variable list \<Rightarrow> variable_index" where
  "variable_index_of vs = index_by variable_id vs"

text \<open>
  \<open>_sensitive\<close>: a depth-first search along computed references with one shared set of seen ids.
  The search is by id; the code passes the variable it finds under that id.
\<close>

function sensitive_dfs :: "variable_index \<Rightarrow> string \<Rightarrow> string list \<Rightarrow> bool \<times> string list"
  and sensitive_any :: "variable_index \<Rightarrow> string list \<Rightarrow> string list \<Rightarrow> bool \<times> string list" where
  "sensitive_dfs by_id i seen = (case map_of by_id i of
     None \<Rightarrow> (False, seen)
   | Some v \<Rightarrow>
       if directly_sensitive_ref v then (True, seen)
       else if variable_source v \<noteq> ''computed'' then (False, seen)
       else if i \<in> set seen then (False, seen)
       else sensitive_any by_id (iter_variable_ids (variable_source_ref v)) (i # seen))"
| "sensitive_any by_id [] seen = (False, seen)"
| "sensitive_any by_id (d # ds) seen =
     (let (found, seen') = sensitive_dfs by_id d seen
      in if found then (True, seen') else sensitive_any by_id ds seen')"
  by pat_completeness auto

termination
proof -
  have grows: "sensitive_dfs_sensitive_any_dom (Inl (by_id, i, seen)) \<Longrightarrow>
      set seen \<subseteq> set (snd (sensitive_dfs by_id i seen))"
    "sensitive_dfs_sensitive_any_dom (Inr (by_id, ds, seen)) \<Longrightarrow>
      set seen \<subseteq> set (snd (sensitive_any by_id ds seen))" for by_id i ds seen
  proof (induction by_id i seen and by_id ds seen rule: sensitive_dfs_sensitive_any.pinduct)
    case (1 by_id i seen)
    show ?case
    proof (cases "map_of by_id i")
      case None
      with "1.hyps" show ?thesis by (simp add: sensitive_dfs.psimps)
    next
      case (Some v)
      with "1.hyps" "1.IH" [OF Some] show ?thesis
        by (auto simp: sensitive_dfs.psimps)
    qed
  next
    case (3 by_id d ds seen)
    obtain found seen' where first: "sensitive_dfs by_id d seen = (found, seen')" by fastforce
    from "3.hyps" "3.IH"(1) "3.IH"(2) [OF first [symmetric] refl] first show ?case
      by (cases found) (auto simp: sensitive_any.psimps)
  qed (simp add: sensitive_any.psimps)
  show ?thesis
  proof (relation "measures [\<lambda>x. case x of
      Inl (by_id, _, seen) \<Rightarrow> card (set (keys by_id) - set seen)
    | Inr (by_id, _, seen) \<Rightarrow> card (set (keys by_id) - set seen),
    \<lambda>x. case x of Inl _ \<Rightarrow> 0 | Inr (_, ds, _) \<Rightarrow> Suc (length ds)]", goal_cases)
    case 1
    then show ?case by simp
  next
    case (2 by_id i seen v)
    then have "i \<in> set (keys by_id)"
      by (metis map_of_eq_None_keys option.distinct(1))
    with 2 have "card (set (keys by_id) - set (i # seen)) < card (set (keys by_id) - set seen)"
      by (intro psubset_card_mono) auto
    then show ?case by simp
  next
    case (3 by_id d ds seen)
    then show ?case by simp
  next
    case (4 by_id d ds seen x found seen')
    then have "set seen \<subseteq> set seen'"
      using grows(1) [of by_id d seen] by (metis snd_conv)
    then have "card (set (keys by_id) - set seen') \<le> card (set (keys by_id) - set seen)"
      by (intro card_mono) auto
    then show ?case by auto
  qed
qed

declare sensitive_dfs.simps [simp del]

definition sensitive :: "variable_index \<Rightarrow> string \<Rightarrow> bool" where
  "sensitive by_id i = fst (sensitive_dfs by_id i [])"

subsection \<open>Resolved variables\<close>

record resolved_variable =
  resolved_id :: string
  resolved_name :: string
  resolved_type :: string
  resolved_status :: string
  resolved_value :: pyval
  resolved_error :: "string option"
  resolved_sensitive :: bool

definition RESOLVED :: "string list" where
  "RESOLVED = [''resolved'', ''default'']"

definition redacted_value :: "resolved_variable \<Rightarrow> pyval" where
  "redacted_value r =
     (if resolved_sensitive r \<and> resolved_status r \<in> set RESOLVED then VStr REDACTED else resolved_value r)"

definition to_trace_dict :: "resolved_variable \<Rightarrow> pyval" where
  "to_trace_dict r = VDict ([
     (''variable_id'', VStr (resolved_id r)),
     (''name'', VStr (resolved_name r)),
     (''type'', VStr (resolved_type r)),
     (''status'', VStr (resolved_status r)),
     (''value'', redacted_value r),
     (''sensitive'', VBool (resolved_sensitive r))]
     @ (case resolved_error r of None \<Rightarrow> [] | Some e \<Rightarrow> [(''error'', VStr e)]))"

text \<open>\<open>_type_matches\<close>.\<close>

definition type_matches :: "pyval \<Rightarrow> string \<Rightarrow> bool" where
  "type_matches v value_type =
     (if value_type = ''json'' then True
      else if value_type = ''null'' then v = VNone
      else if value_type = ''string'' then is_str v
      else if value_type = ''number'' then is_number v
      else if value_type = ''boolean'' then is_bool v
      else if value_type = ''list'' then is_list v
      else False)"

subsection \<open>Where a value comes from\<close>

text \<open>\<open>_dom_value\<close>; \<open>None\<close> stands for the pair with \<open>MISSING\<close>.\<close>

definition TEXT_KEYS :: "string list" where
  "TEXT_KEYS = [''text'', ''textContent'', ''innerText'']"

definition dict_key :: "pyval \<Rightarrow> string option res" where
  "dict_key k = (case k of
     VStr s \<Rightarrow> Inr (Some s)
   | VList _ \<Rightarrow> Inl (TypeError (''unhashable type: '' @ repr_str ''list''))
   | VDict _ \<Rightarrow> Inl (TypeError (''unhashable type: '' @ repr_str ''dict''))
   | _ \<Rightarrow> Inr None)"

definition lookup_key :: "pydict \<Rightarrow> string option \<Rightarrow> pyval option" where
  "lookup_key d k = (case k of None \<Rightarrow> None | Some s \<Rightarrow> map_of d s)"

definition dom_value :: "pydict \<Rightarrow> pyval \<Rightarrow> pyval option res" where
  "dom_value ctx ref = (case get_or ctx ''dom'' (VDict []) of
     VDict nodes \<Rightarrow> (case ref of
         VStr sel \<Rightarrow> (case get_or nodes sel VNone of
             VNone \<Rightarrow> Inr None
           | VDict node \<Rightarrow> Inr (case find (\<lambda>k. k \<in> set (keys node)) TEXT_KEYS of
               Some k \<Rightarrow> map_of node k | None \<Rightarrow> None)
           | v \<Rightarrow> Inr (Some v))
       | VDict r \<Rightarrow>
           bindR (bindR (dict_item r ''selector'') dict_key) (\<lambda>sel.
           case lookup_key nodes sel of
             None \<Rightarrow> Inr None
           | Some VNone \<Rightarrow> Inr None
           | Some (VDict node) \<Rightarrow>
               bindR (dict_key (get_or r ''attribute'' (VStr ''text''))) (\<lambda>attribute.
                 if attribute \<in> set (map Some TEXT_KEYS)
                 then Inr (lookup_key node attribute)
                 else (case get_or node ''attributes'' (VDict []) of
                     VDict attributes \<Rightarrow> Inr (lookup_key attributes attribute)
                   | _ \<Rightarrow> Inr None))
           | Some v \<Rightarrow> Inr (Some v))
       | _ \<Rightarrow> Inl (TypeError (type_name ref @ '' object is not subscriptable'')))
   | _ \<Rightarrow> Inr None)"

definition page_key :: "string \<Rightarrow> string" where
  "page_key source =
     (if source = ''page_url'' then ''url'' else if source = ''page_path'' then ''path''
      else if source = ''page_title'' then ''title'' else ''referrer'')"

text \<open>\<open>_source_value\<close>; \<open>rv\<close> is the method \<open>_resolve_reference\<close>.\<close>

definition source_value ::
    "py_runtime \<Rightarrow> pydict \<Rightarrow> variable \<Rightarrow> (string \<Rightarrow> 's \<Rightarrow> pyval option res \<times> 's) \<Rightarrow> 's
     \<Rightarrow> pyval option res \<times> 's" where
  "source_value rt ctx v rv s =
     (let source = variable_source v in
      if source = ''static'' then (Inr (Some (variable_default v)), s)
      else if source \<in> set PAGE_SOURCES then
        (Inr (case get_or ctx ''page'' (VDict []) of
            VDict page \<Rightarrow> map_of page (page_key source) | _ \<Rightarrow> None), s)
      else if source \<in> {''data_layer'', ''event'', ''consent''} then
        (case variable_source_ref v of
           VStr path \<Rightarrow> (resolve_path (get_or ctx source (VDict [])) path, s)
         | ref \<Rightarrow> (Inl (AttributeError (type_name ref @ '' object has no attribute split'')), s))
      else if source = ''dom'' then (dom_value ctx (variable_source_ref v), s)
      else if source = ''computed'' then evaluate_expression rt rv (variable_source_ref v) s
      else (Inr None, s))"

lemma source_value_cong [fundef_cong]:
  assumes "v = v'" and "s = s'" and "\<And>i t. rv i t = rv' i t"
  shows "source_value rt ctx v rv s = source_value rt ctx v' rv' s'"
proof -
  have "rv = rv'" using assms(3) by (intro ext)
  with assms show ?thesis by simp
qed

subsection \<open>Resolution\<close>

definition a_result ::
    "variable \<Rightarrow> string \<Rightarrow> pyval \<Rightarrow> string option \<Rightarrow> bool \<Rightarrow> resolved_variable" where
  "a_result v status val err sens = \<lparr>resolved_id = variable_id v, resolved_name = variable_name v,
     resolved_type = variable_type v, resolved_status = status, resolved_value = val,
     resolved_error = err, resolved_sensitive = sens\<rparr>"

text \<open>
  \<open>_resolve_value\<close>, from the outcome of \<open>_source_value\<close>.  It catches \<open>ExpressionError\<close> and
  \<open>ValueError\<close>; any other exception leaves the resolver.
\<close>

definition resolve_value ::
    "variable_index \<Rightarrow> variable \<Rightarrow> pyval option res \<Rightarrow> resolved_variable res" where
  "resolve_value by_id v outcome =
     (let sens = sensitive by_id (variable_id v);
          typed = (\<lambda>val status.
            if \<not> type_matches val (variable_type v)
            then a_result v ''error'' VNone
              (Some (''resolved value is not of type '' @ variable_type v)) sens
            else a_result v status val None sens)
      in case outcome of
        Inl e \<Rightarrow> if expr_error e then Inr (a_result v ''error'' VNone (Some (exn_message e)) sens) else Inl e
      | Inr None \<Rightarrow>
          if variable_default v \<noteq> VNone then Inr (typed (variable_default v) ''default'')
          else Inr (a_result v ''missing'' VNone None sens)
      | Inr (Some val) \<Rightarrow> Inr (typed val ''resolved''))"

text \<open>\<open>_resolve_reference\<close>, from the result of \<open>resolve\<close>.\<close>

definition reference_value :: "resolved_variable \<Rightarrow> pyval option res" where
  "reference_value r =
     (if resolved_status r \<in> set RESOLVED then Inr (Some (resolved_value r))
      else if resolved_status r = ''missing'' then Inr None
      else Inl (ExpressionError (''variable '' @ repr_str (resolved_name r) @ '' could not be resolved: ''
        @ (case resolved_error r of Some e \<Rightarrow> if e = [] then resolved_status r else e
             | None \<Rightarrow> resolved_status r))))"

definition unknown_variable :: "string \<Rightarrow> resolved_variable" where
  "unknown_variable i = \<lparr>resolved_id = i, resolved_name = i, resolved_type = ''unknown'',
     resolved_status = ''error'', resolved_value = VNone,
     resolved_error = Some (''unknown variable '' @ i), resolved_sensitive = False\<rparr>"

type_synonym variable_cache = "(string, resolved_variable) dict"

function resolve_variable ::
    "py_runtime \<Rightarrow> variable_index \<Rightarrow> pydict \<Rightarrow> string list \<Rightarrow> string \<Rightarrow> variable_cache \<Rightarrow>
     resolved_variable res \<times> variable_cache" where
  "resolve_variable rt by_id ctx visiting i cache = (case map_of cache i of
     Some r \<Rightarrow> (Inr r, cache)
   | None \<Rightarrow> (case map_of by_id i of
       None \<Rightarrow> (Inr (unknown_variable i), dict_put cache i (unknown_variable i))
     | Some v \<Rightarrow>
         if \<not> variable_enabled v then
           (let r = a_result v ''disabled'' VNone None (sensitive by_id i)
            in (Inr r, dict_put cache i r))
         else if i \<in> set visiting then
           (let r = a_result v ''error'' VNone (Some ''computed variable cycle'') (variable_sensitive v)
            in (Inr r, dict_put cache i r))
         else
           (let (outcome, cache') = source_value rt ctx v
              (\<lambda>j c. bindS (resolve_variable rt by_id ctx (i # visiting) j c)
                 (\<lambda>r c'. (reference_value r, c'))) cache
            in bindS (resolve_value by_id v outcome, cache') (\<lambda>r c. (Inr r, dict_put c i r)))))"
  by pat_completeness auto
termination
proof (relation "measure (\<lambda>(rt, by_id, ctx, visiting, i, cache). card (set (keys by_id) - set visiting))",
    goal_cases)
  case 1
  then show ?case by simp
next
  case (2 rt by_id ctx visiting i cache v j c)
  then have "i \<in> set (keys by_id)"
    by (metis map_of_eq_None_keys option.distinct(1))
  with 2 have "card (set (keys by_id) - set (i # visiting)) < card (set (keys by_id) - set visiting)"
    by (intro psubset_card_mono) auto
  then show ?case by simp
qed

declare resolve_variable.simps [simp del]

text \<open>\<open>resolve_all\<close>: every declared variable in order, with one cache.\<close>

fun resolve_each ::
    "py_runtime \<Rightarrow> variable_index \<Rightarrow> pydict \<Rightarrow> string list \<Rightarrow> variable_cache \<Rightarrow>
     resolved_variable list res \<times> variable_cache" where
  "resolve_each rt by_id ctx [] cache = (Inr [], cache)"
| "resolve_each rt by_id ctx (i # ids) cache =
     bindS (resolve_variable rt by_id ctx [] i cache) (\<lambda>r cache'.
     bindS (resolve_each rt by_id ctx ids cache') (\<lambda>rs cache''. (Inr (r # rs), cache'')))"

definition resolve_all :: "py_runtime \<Rightarrow> variable list \<Rightarrow> pydict \<Rightarrow> resolved_variable list res" where
  "resolve_all rt vs ctx = fst (resolve_each rt (variable_index_of vs) ctx (map variable_id vs) [])"

subsection \<open>No exception leaves the resolver\<close>

definition wf_index :: "py_runtime \<Rightarrow> variable_index \<Rightarrow> bool" where
  "wf_index rt by_id \<longleftrightarrow> (\<forall>i v. map_of by_id i = Some v \<longrightarrow> wf_variable rt v \<and> variable_id v = i)"

lemma wf_index_of: "(\<forall>v \<in> set vs. wf_variable rt v) \<Longrightarrow> wf_index rt (variable_index_of vs)"
  by (auto simp: wf_index_def variable_index_of_def dest: index_by_SomeD)

lemma dom_ref_shape:
  assumes "source_ref rt ''dom'' ref = Inr ref"
  shows "(\<exists>s. ref = VStr s) \<or> (\<exists>d sel. ref = VDict d \<and> map_of d ''selector'' = Some (VStr sel)
    \<and> (\<forall>a. map_of d ''attribute'' = Some a \<longrightarrow> is_str a))"
proof (cases ref)
  case (VDict d)
  with assms show ?thesis
    by (cases "map_of d ''attribute''")
      (auto simp: source_ref_def PAGE_SOURCES_def bindR_Inr_iff cfg_mapping_Inr cfg_string_Inr
        dict_item_Inr Let_def)
qed (use assms in \<open>auto simp: source_ref_def PAGE_SOURCES_def split: if_splits\<close>)

lemma dom_value_total:
  assumes "source_ref rt ''dom'' ref = Inr ref"
  shows "\<exists>r. dom_value ctx ref = Inr r"
  using dom_ref_shape [OF assms]
proof
  assume "\<exists>s. ref = VStr s"
  then show ?thesis
    by (auto simp: dom_value_def split: pyval.splits option.splits)
next
  assume "\<exists>d sel. ref = VDict d \<and> map_of d ''selector'' = Some (VStr sel)
    \<and> (\<forall>a. map_of d ''attribute'' = Some a \<longrightarrow> is_str a)"
  then obtain d sel where d: "ref = VDict d" "map_of d ''selector'' = Some (VStr sel)"
    and "\<forall>a. map_of d ''attribute'' = Some a \<longrightarrow> is_str a" by blast
  then obtain a where "get_or d ''attribute'' (VStr ''text'') = VStr a"
    by (cases "map_of d ''attribute''"; cases "the (map_of d ''attribute'')") (auto simp: get_or_def)
  with d show ?thesis
    by (auto simp: dom_value_def dict_item_def dict_key_def split: pyval.splits option.splits)
qed

lemma source_value_error:
  assumes "wf_variable rt v" and "source_value rt ctx v rv s = (Inl e, s')"
    and rv: "\<And>i t t' y. rv i t = (Inl y, t') \<Longrightarrow> expr_error y"
  shows "expr_error e"
proof -
  have ref: "source_ref rt (variable_source v) (variable_source_ref v) = Inr (variable_source_ref v)"
    using assms(1) by (simp add: wf_variable_def)
  consider "variable_source v \<in> {''data_layer'', ''event'', ''consent''}" | "variable_source v = ''dom''"
    | "variable_source v = ''computed''"
    | "variable_source v \<notin> {''data_layer'', ''event'', ''consent'', ''dom'', ''computed''}" by blast
  then show ?thesis
  proof cases
    case 1
    then have "variable_source v \<notin> set PAGE_SOURCES" "variable_source v \<noteq> ''static''"
      by (auto simp: PAGE_SOURCES_def)
    with 1 ref obtain p where "variable_source_ref v = VStr p"
      by (cases "variable_source_ref v") (auto simp: source_ref_def)
    with 1 assms(2) show ?thesis
      by (auto simp: source_value_def PAGE_SOURCES_def resolve_path_def dest!: resolve_parts_error)
  next
    case 2
    with ref dom_value_total [of rt "variable_source_ref v" ctx] assms(2) show ?thesis
      by (auto simp: source_value_def PAGE_SOURCES_def)
  next
    case 3
    with ref have "validate_expression rt (variable_source_ref v) = Inr (variable_source_ref v)"
      by (simp add: source_ref_def PAGE_SOURCES_def)
    from evaluate_ok_error [OF validate_expression_ok [OF this] _ rv] 3 assms(2) show ?thesis
      by (auto simp: source_value_def PAGE_SOURCES_def)
  next
    case 4
    with assms(2) show ?thesis by (auto simp: source_value_def Let_def split: if_splits)
  qed
qed

lemma resolve_value_ok: "(\<forall>e. outcome = Inl e \<longrightarrow> expr_error e) \<Longrightarrow> \<exists>r. resolve_value by_id v outcome = Inr r"
  by (auto simp: resolve_value_def Let_def split: sum.splits option.splits)

lemma resolve_value_id: "resolve_value by_id v outcome = Inr r \<Longrightarrow> resolved_id r = variable_id v"
  by (auto simp: resolve_value_def Let_def a_result_def split: sum.splits option.splits if_splits)

lemma reference_value_error: "reference_value r = Inl e \<Longrightarrow> expr_error e"
  by (auto simp: reference_value_def split: if_splits)

lemma resolve_variable_total:
  assumes "wf_index rt by_id"
  shows "\<exists>r cache'. resolve_variable rt by_id ctx visiting i cache = (Inr r, cache')"
  using assms
proof (induction rt by_id ctx visiting i cache rule: resolve_variable.induct)
  case (1 rt by_id ctx visiting i cache)
  show ?case
  proof (cases "map_of cache i = None \<and> (\<exists>v. map_of by_id i = Some v \<and> variable_enabled v \<and> i \<notin> set visiting)")
    case False
    then show ?thesis
      by (subst resolve_variable.simps) (auto simp: Let_def split: option.splits)
  next
    case True
    then obtain v where v: "map_of by_id i = Some v" "variable_enabled v" "i \<notin> set visiting"
      and none: "map_of cache i = None" by blast
    let ?rv = "\<lambda>j c. bindS (resolve_variable rt by_id ctx (i # visiting) j c) (\<lambda>r c'. (reference_value r, c'))"
    obtain outcome c where out: "source_value rt ctx v ?rv cache = (outcome, c)" by fastforce
    have rv: "expr_error y" if "?rv j t = (Inl y, t')" for j t t' y
    proof -
      obtain r c' where "resolve_variable rt by_id ctx (i # visiting) j t = (Inr r, c')"
        using "1.IH" [OF none v(1) _ v(3)] v(2) "1.prems" by blast
      with that show ?thesis by (auto dest: reference_value_error)
    qed
    have "\<forall>e. outcome = Inl e \<longrightarrow> expr_error e"
    proof (intro allI impI)
      fix e assume "outcome = Inl e"
      with out have eq: "source_value rt ctx v ?rv cache = (Inl e, c)" by simp
      have "wf_variable rt v" using "1.prems" v(1) by (simp add: wf_index_def)
      then show "expr_error e" by (rule source_value_error [OF _ eq]) (erule rv)
    qed
    from resolve_value_ok [OF this] obtain r where "resolve_value by_id v outcome = Inr r" by blast
    with v none out show ?thesis by (subst resolve_variable.simps) simp
  qed
qed

lemma resolve_each_total:
  "wf_index rt by_id \<Longrightarrow> \<exists>rs cache'. resolve_each rt by_id ctx ids cache = (Inr rs, cache')"
proof (induction ids arbitrary: cache)
  case (Cons i ids)
  obtain r c where "resolve_variable rt by_id ctx [] i cache = (Inr r, c)"
    using resolve_variable_total Cons.prems by blast
  moreover obtain rs c' where "resolve_each rt by_id ctx ids c = (Inr rs, c')"
    using Cons by blast
  ultimately show ?case by simp
qed simp

subsection \<open>What a resolved variable says\<close>

text \<open>
  The invariant of the cache: an entry is about its key, a value it holds has the declared type
  and carries the sensitivity of the variable, and an entry without a value holds null.
\<close>

definition good_result :: "variable_index \<Rightarrow> string \<Rightarrow> resolved_variable \<Rightarrow> bool" where
  "good_result by_id i r \<longleftrightarrow> resolved_id r = i \<and>
     (if resolved_status r \<in> set RESOLVED
      then (\<exists>v. map_of by_id i = Some v \<and> variable_enabled v \<and> resolved_type r = variable_type v
          \<and> resolved_name r = variable_name v \<and> type_matches (resolved_value r) (variable_type v)
          \<and> resolved_sensitive r = sensitive by_id i)
      else resolved_value r = VNone)"

definition good_cache :: "variable_index \<Rightarrow> variable_cache \<Rightarrow> bool" where
  "good_cache by_id cache \<longleftrightarrow> (\<forall>i r. map_of cache i = Some r \<longrightarrow> good_result by_id i r)"

lemma good_cache_put: "good_cache by_id c \<Longrightarrow> good_result by_id i r \<Longrightarrow> good_cache by_id (dict_put c i r)"
  by (simp add: good_cache_def)

lemma good_unknown: "good_result by_id i (unknown_variable i)"
  by (simp add: good_result_def unknown_variable_def RESOLVED_def)

lemma good_valueless:
  "variable_id v = i \<Longrightarrow> status \<notin> set RESOLVED \<Longrightarrow> good_result by_id i (a_result v status VNone err sens)"
  by (simp add: good_result_def a_result_def)

lemma resolve_value_good:
  assumes "resolve_value by_id v outcome = Inr r" and "map_of by_id i = Some v" and "variable_id v = i"
    and "variable_enabled v"
  shows "good_result by_id i r"
  using assms
  by (auto simp: resolve_value_def good_result_def a_result_def RESOLVED_def Let_def
      split: sum.splits option.splits if_splits)

lemma source_value_preserves:
  assumes "I s" and "\<And>j t. I t \<Longrightarrow> I (snd (rv j t))"
  shows "I (snd (source_value rt ctx v rv s))"
  using assms evaluate_preserves [where I = I]
  by (auto simp: source_value_def Let_def split: pyval.splits)

lemma resolve_variable_good:
  assumes "\<forall>i v. map_of by_id i = Some v \<longrightarrow> variable_id v = i" and "good_cache by_id cache"
  shows "good_cache by_id (snd (resolve_variable rt by_id ctx visiting i cache)) \<and>
    (\<forall>r. fst (resolve_variable rt by_id ctx visiting i cache) = Inr r \<longrightarrow> good_result by_id i r)"
  using assms
proof (induction rt by_id ctx visiting i cache rule: resolve_variable.induct)
  case (1 rt by_id ctx visiting i cache)
  show ?case
  proof (cases "map_of cache i = None \<and> (\<exists>v. map_of by_id i = Some v \<and> variable_enabled v \<and> i \<notin> set visiting)")
    case False
    then show ?thesis using "1.prems"
      by (subst (1 2) resolve_variable.simps)
        (auto simp: Let_def RESOLVED_def intro!: good_cache_put good_unknown good_valueless
          split: option.splits, auto simp: good_cache_def)
  next
    case True
    then obtain v where v: "map_of by_id i = Some v" "variable_enabled v" "i \<notin> set visiting"
      and none: "map_of cache i = None" by blast
    let ?rv = "\<lambda>j c. bindS (resolve_variable rt by_id ctx (i # visiting) j c) (\<lambda>r c'. (reference_value r, c'))"
    obtain outcome c where out: "source_value rt ctx v ?rv cache = (outcome, c)" by fastforce
    have "good_cache by_id (snd (?rv j t))" if "good_cache by_id t" for j t
      using "1.IH" [OF none v(1) _ v(3), of t j] v(2) "1.prems"(1) that
      by (cases "resolve_variable rt by_id ctx (i # visiting) j t";
          cases "fst (resolve_variable rt by_id ctx (i # visiting) j t)") auto
    from source_value_preserves [where I = "good_cache by_id", OF "1.prems"(2) this]
    have "good_cache by_id (snd (source_value rt ctx v ?rv cache))" .
    with out have c: "good_cache by_id c" by simp
    show ?thesis
    proof (cases "resolve_value by_id v outcome")
      case (Inl e)
      with v none out c show ?thesis by (subst (1 2) resolve_variable.simps) simp
    next
      case (Inr r)
      from resolve_value_good [OF Inr v(1) _ v(2)] "1.prems"(1) v(1) have "good_result by_id i r" by blast
      with Inr v none out c show ?thesis
        by (subst (1 2) resolve_variable.simps) (simp add: good_cache_put)
    qed
  qed
qed

lemma resolve_each_good:
  assumes "\<forall>i v. map_of by_id i = Some v \<longrightarrow> variable_id v = i" and "good_cache by_id cache"
    and "fst (resolve_each rt by_id ctx ids cache) = Inr rs"
  shows "list_all2 (good_result by_id) ids rs"
  using assms(2,3)
proof (induction ids arbitrary: cache rs)
  case (Cons i ids)
  obtain x c where x: "resolve_variable rt by_id ctx [] i cache = (x, c)" by fastforce
  with Cons.prems(2) obtain r where r: "x = Inr r" by (cases x) auto
  with resolve_variable_good [OF assms(1) Cons.prems(1), of rt ctx "[]" i] x
  have "good_result by_id i r" "good_cache by_id c" by auto
  moreover obtain y c' where y: "resolve_each rt by_id ctx ids c = (y, c')" by fastforce
  moreover from Cons.prems(2) x r y obtain rs' where "y = Inr rs'" "rs = r # rs'" by (cases y) auto
  ultimately show ?case using Cons.IH [of c rs'] by simp
qed simp

subsection \<open>Sensitivity is reachability\<close>

definition refs_of :: "variable_index \<Rightarrow> string \<Rightarrow> string list" where
  "refs_of by_id i = (case map_of by_id i of
     None \<Rightarrow> []
   | Some v \<Rightarrow> if variable_source v = ''computed'' then iter_variable_ids (variable_source_ref v) else [])"

definition ref_rel :: "variable_index \<Rightarrow> (string \<times> string) set" where
  "ref_rel by_id = {(i, j). j \<in> set (refs_of by_id i)}"

definition direct :: "variable_index \<Rightarrow> string \<Rightarrow> bool" where
  "direct by_id i \<longleftrightarrow> (\<exists>v. map_of by_id i = Some v \<and> directly_sensitive_ref v)"

lemma sensitive_found:
  "fst (sensitive_dfs by_id i seen) \<Longrightarrow> \<exists>j. (i, j) \<in> (ref_rel by_id)\<^sup>* \<and> direct by_id j"
  "fst (sensitive_any by_id ds seen) \<Longrightarrow> \<exists>d \<in> set ds. \<exists>j. (d, j) \<in> (ref_rel by_id)\<^sup>* \<and> direct by_id j"
proof (induction by_id i seen and by_id ds seen rule: sensitive_dfs_sensitive_any.induct)
  case (1 by_id i seen)
  show ?case
  proof (cases "direct by_id i")
    case False
    with "1.prems" obtain v where v: "map_of by_id i = Some v" "\<not> directly_sensitive_ref v"
      "variable_source v = ''computed''" "i \<notin> set seen"
      "fst (sensitive_any by_id (iter_variable_ids (variable_source_ref v)) (i # seen))"
      by (subst (asm) sensitive_dfs.simps) (auto simp: direct_def split: option.splits if_splits)
    with "1.IH" [OF v(1,2)] obtain d j where d: "d \<in> set (iter_variable_ids (variable_source_ref v))"
      and j: "(d, j) \<in> (ref_rel by_id)\<^sup>*" "direct by_id j" by blast
    from d v have "(i, d) \<in> ref_rel by_id" by (simp add: ref_rel_def refs_of_def)
    with j show ?thesis by (meson converse_rtrancl_into_rtrancl)
  qed auto
next
  case (3 by_id d ds seen)
  obtain found seen' where "sensitive_dfs by_id d seen = (found, seen')" by fastforce
  with 3 show ?case by (cases found) auto
qed simp

definition leaf :: "variable_index \<Rightarrow> string \<Rightarrow> bool" where
  "leaf by_id i \<longleftrightarrow> \<not> direct by_id i \<and> refs_of by_id i = []"

definition explored :: "variable_index \<Rightarrow> string set \<Rightarrow> string set \<Rightarrow> bool" where
  "explored by_id S T \<longleftrightarrow> S \<subseteq> T \<and>
     (\<forall>x \<in> T - S. \<not> direct by_id x \<and> (\<forall>y \<in> set (refs_of by_id x). y \<in> T \<or> leaf by_id y))"

lemma explored_trans: "explored by_id S T \<Longrightarrow> explored by_id T U \<Longrightarrow> explored by_id S U"
  unfolding explored_def by blast

lemma sensitive_not_found:
  "sensitive_dfs by_id i seen = (False, seen') \<Longrightarrow>
     explored by_id (set seen) (set seen') \<and> (i \<in> set seen' \<or> leaf by_id i)"
  "sensitive_any by_id ds seen = (False, seen') \<Longrightarrow>
     explored by_id (set seen) (set seen') \<and> (\<forall>d \<in> set ds. d \<in> set seen' \<or> leaf by_id d)"
proof (induction by_id i seen and by_id ds seen arbitrary: seen' and seen'
    rule: sensitive_dfs_sensitive_any.induct)
  case (1 by_id i seen)
  show ?case
  proof (cases "map_of by_id i")
    case None
    with "1.prems" show ?thesis
      by (subst (asm) sensitive_dfs.simps) (auto simp: explored_def leaf_def direct_def refs_of_def)
  next
    case (Some v)
    have nd: "\<not> directly_sensitive_ref v"
      using "1.prems" Some by (subst (asm) sensitive_dfs.simps) (auto split: if_splits)
    show ?thesis
    proof (cases "variable_source v = ''computed'' \<and> i \<notin> set seen")
      case False
      with nd Some "1.prems" show ?thesis
        by (subst (asm) sensitive_dfs.simps)
          (auto simp: explored_def leaf_def direct_def refs_of_def split: if_splits)
    next
      case True
      with nd Some "1.prems" have rec:
        "sensitive_any by_id (iter_variable_ids (variable_source_ref v)) (i # seen) = (False, seen')"
        by (subst (asm) sensitive_dfs.simps) simp
      from "1.IH" [OF Some nd _ _ rec] True have ex: "explored by_id (set (i # seen)) (set seen')"
        and ref: "\<forall>d \<in> set (iter_variable_ids (variable_source_ref v)). d \<in> set seen' \<or> leaf by_id d"
        by auto
      have i: "\<not> direct by_id i \<and> (\<forall>d \<in> set (refs_of by_id i). d \<in> set seen' \<or> leaf by_id d)"
        using nd ref Some True by (simp add: direct_def refs_of_def)
      have "\<not> direct by_id x \<and> (\<forall>y \<in> set (refs_of by_id x). y \<in> set seen' \<or> leaf by_id y)"
        if "x \<in> set seen' - set seen" for x
      proof (cases "x = i")
        case False
        with that have "x \<in> set seen' - set (i # seen)" by simp
        with ex show ?thesis unfolding explored_def by (metis (no_types, lifting))
      qed (use i in simp)
      with ex show ?thesis by (simp add: explored_def)
    qed
  qed
next
  case (2 by_id seen)
  then show ?case by (simp add: explored_def)
next
  case (3 by_id d ds seen)
  obtain found s where first: "sensitive_dfs by_id d seen = (found, s)" by fastforce
  with "3.prems" have "\<not> found" and rest: "sensitive_any by_id ds s = (False, seen')"
    by (auto split: if_splits)
  with first have "sensitive_dfs by_id d seen = (False, s)" by simp
  from "3.IH"(1) [OF this] have one: "explored by_id (set seen) (set s)" "d \<in> set s \<or> leaf by_id d"
    by simp_all
  from "3.IH"(2) [OF first [symmetric] refl \<open>\<not> found\<close> rest]
  have two: "explored by_id (set s) (set seen')" "\<forall>d \<in> set ds. d \<in> set seen' \<or> leaf by_id d"
    by simp_all
  from two(1) have "set s \<subseteq> set seen'" by (simp add: explored_def)
  with one(2) two(2) show ?case
    using explored_trans [OF one(1) two(1)] by auto
qed

lemma explored_reach:
  assumes "explored by_id {} T" and "i \<in> T \<or> leaf by_id i" and "(i, j) \<in> (ref_rel by_id)\<^sup>*"
  shows "j \<in> T \<or> leaf by_id j"
  using assms(3,2)
  by (induction rule: rtrancl_induct)
    (use assms(1) in \<open>auto simp: explored_def ref_rel_def leaf_def\<close>)

lemma sensitive_iff_reachable:
  "sensitive by_id i \<longleftrightarrow> (\<exists>j. (i, j) \<in> (ref_rel by_id)\<^sup>* \<and> direct by_id j)"
proof
  assume "sensitive by_id i"
  then show "\<exists>j. (i, j) \<in> (ref_rel by_id)\<^sup>* \<and> direct by_id j"
    unfolding sensitive_def by (rule sensitive_found)
next
  assume reach: "\<exists>j. (i, j) \<in> (ref_rel by_id)\<^sup>* \<and> direct by_id j"
  show "sensitive by_id i"
  proof (rule ccontr)
    assume "\<not> sensitive by_id i"
    then obtain T where "sensitive_dfs by_id i [] = (False, T)"
      by (cases "sensitive_dfs by_id i []") (simp add: sensitive_def)
    from sensitive_not_found(1) [OF this] reach explored_reach [of by_id "set T" i]
    show False by (auto simp: leaf_def explored_def)
  qed
qed

subsection \<open>Properties\<close>

lemma index_ids: "\<forall>i v. map_of (variable_index_of vs) i = Some v \<longrightarrow> variable_id v = i"
  by (auto simp: variable_index_of_def dest: index_by_SomeD)

text \<open>
  C33: resolution is total.  For variables that passed validation, whatever the event context, no
  exception leaves the resolver: every variable is answered, in declaration order, each answer
  about its own variable.
\<close>
theorem resolution_total:
  assumes "\<forall>v \<in> set vs. wf_variable rt v"
  shows "\<exists>rs. resolve_all rt vs ctx = Inr rs \<and> map resolved_id rs = map variable_id vs"
proof -
  obtain rs c where rs: "resolve_each rt (variable_index_of vs) ctx (map variable_id vs) [] = (Inr rs, c)"
    using resolve_each_total [OF wf_index_of [OF assms]] by blast
  have "list_all2 (good_result (variable_index_of vs)) (map variable_id vs) rs"
    using resolve_each_good [OF index_ids, of vs "[]" rt ctx "map variable_id vs" rs] rs
    by (simp add: good_cache_def)
  then have "list_all2 (\<lambda>i r. i = resolved_id r) (map variable_id vs) rs"
    by (rule list_all2_mono) (simp add: good_result_def)
  then have "map variable_id vs = map resolved_id rs"
    by (simp add: list_all2_conv_all_nth list_eq_iff_nth_eq)
  with rs show ?thesis by (simp add: resolve_all_def)
qed

theorem resolution_total_witness:
  "\<exists>rs. resolve_all witness_runtime [sample_variable] [] = Inr rs
    \<and> map resolved_id rs = map variable_id [sample_variable]"
  by (rule resolution_total) (use wf_sample_payload in \<open>simp add: wf_payload_def sample_payload_def\<close>)

text \<open>
  C34: what a resolved variable says is true.  Every answer with a value (status \<open>resolved\<close> or
  \<open>default\<close>) belongs to an enabled variable, its value has the declared type, and its sensitivity
  flag is the one of the variable; an answer with any other status holds null.
\<close>
theorem resolved_values_typed:
  assumes "resolve_all rt vs ctx = Inr rs" and "r \<in> set rs"
  shows "if resolved_status r \<in> set RESOLVED
    then \<exists>v \<in> set vs. variable_id v = resolved_id r \<and> variable_enabled v \<and> resolved_type r = variable_type v
      \<and> type_matches (resolved_value r) (variable_type v)
      \<and> resolved_sensitive r = sensitive (variable_index_of vs) (variable_id v)
    else resolved_value r = VNone"
proof -
  have "list_all2 (good_result (variable_index_of vs)) (map variable_id vs) rs"
    using assms(1) resolve_each_good [OF index_ids, of vs "[]" rt ctx "map variable_id vs" rs]
    by (simp add: resolve_all_def good_cache_def)
  with assms(2) obtain i where good: "good_result (variable_index_of vs) i r"
    by (auto simp: list_all2_conv_all_nth in_set_conv_nth)
  then show ?thesis
    using index_by_SomeD [of variable_id vs i]
    by (fastforce simp: good_result_def variable_index_of_def)
qed

text \<open>
  C32: sensitivity is reachability.  A variable counts as sensitive exactly when a chain of
  computed references (of any length, through cycles or not) leads from it to a variable that is
  marked sensitive or reads a sensitive key.
\<close>
theorem sensitivity_is_reachability:
  "sensitive by_id i \<longleftrightarrow> (\<exists>j. (i, j) \<in> (ref_rel by_id)\<^sup>* \<and> direct by_id j)"
  by (rule sensitive_iff_reachable)

text \<open>
  C39: the trace hides the value of a sensitive variable: if a chain of computed references leads
  from a resolved variable to a sensitive one, the value in its trace entry is the redaction mark.
\<close>
theorem trace_redacts_sensitive_values:
  assumes "resolve_all rt vs ctx = Inr rs" and "r \<in> set rs" and "resolved_status r \<in> set RESOLVED"
    and "(resolved_id r, j) \<in> (ref_rel (variable_index_of vs))\<^sup>*" and "direct (variable_index_of vs) j"
  shows "\<exists>d. to_trace_dict r = VDict d \<and> map_of d ''value'' = Some (VStr REDACTED)"
proof -
  have "list_all2 (good_result (variable_index_of vs)) (map variable_id vs) rs"
    using assms(1) resolve_each_good [OF index_ids, of vs "[]" rt ctx "map variable_id vs" rs]
    by (simp add: resolve_all_def good_cache_def)
  with assms(2) obtain i where "good_result (variable_index_of vs) i r"
    by (auto simp: list_all2_conv_all_nth in_set_conv_nth)
  with assms(3-5) have "resolved_sensitive r"
    by (auto simp: good_result_def sensitive_iff_reachable)
  with assms(3) show ?thesis by (simp add: to_trace_dict_def redacted_value_def)
qed

definition secret_variable :: variable where
  "secret_variable = \<lparr>variable_id = ''a'', variable_name = ''pin'', variable_type = ''string'',
     variable_source = ''static'', variable_source_ref = VNone, variable_default = VStr ''hunter2'',
     variable_sensitive = True, variable_enabled = True\<rparr>"

definition derived_variable :: variable where
  "derived_variable = \<lparr>variable_id = ''b'', variable_name = ''num'', variable_type = ''number'',
     variable_source = ''computed'',
     variable_source_ref = VDict [(''op'', VStr ''to_number''),
       (''arg'', VDict [(''op'', VStr ''variable''), (''id'', VStr ''a'')])],
     variable_default = VNone, variable_sensitive = False, variable_enabled = True\<rparr>"

lemmas resolve_defs = resolve_all_def variable_index_of_def index_by_def resolve_variable.simps
  source_value_def resolve_value_def a_result_def type_matches_def sensitive_def sensitive_dfs.simps
  directly_sensitive_ref_def PAGE_SOURCES_def

lemma resolve_secret:
  "resolve_all witness_runtime [secret_variable] [] = Inr [a_result secret_variable ''resolved'' (VStr ''hunter2'') None True]"
  by (simp add: resolve_defs secret_variable_def)

theorem resolved_values_typed_witness:
  "if resolved_status (a_result secret_variable ''resolved'' (VStr ''hunter2'') None True) \<in> set RESOLVED
    then \<exists>v \<in> set [secret_variable].
      variable_id v = resolved_id (a_result secret_variable ''resolved'' (VStr ''hunter2'') None True)
      \<and> variable_enabled v
      \<and> resolved_type (a_result secret_variable ''resolved'' (VStr ''hunter2'') None True) = variable_type v
      \<and> type_matches (resolved_value (a_result secret_variable ''resolved'' (VStr ''hunter2'') None True)) (variable_type v)
      \<and> resolved_sensitive (a_result secret_variable ''resolved'' (VStr ''hunter2'') None True)
        = sensitive (variable_index_of [secret_variable]) (variable_id v)
    else resolved_value (a_result secret_variable ''resolved'' (VStr ''hunter2'') None True) = VNone"
  by (rule resolved_values_typed [OF resolve_secret]) simp

theorem trace_redacts_sensitive_values_witness:
  "\<exists>d. to_trace_dict (a_result secret_variable ''resolved'' (VStr ''hunter2'') None True) = VDict d
    \<and> map_of d ''value'' = Some (VStr REDACTED)"
  by (rule trace_redacts_sensitive_values [OF resolve_secret, of _ "''a''"])
    (simp_all add: a_result_def RESOLVED_def secret_variable_def direct_def variable_index_of_def
      index_by_def directly_sensitive_ref_def)

text \<open>
  The redaction has a hole.  It covers the value of a resolved variable, not the error text of
  a failed one, and the conversion errors quote the raw value: a computed variable over a
  sensitive one that fails to convert puts the secret into its trace entry, although the entry is
  marked sensitive.
\<close>
theorem conversion_error_leaks_sensitive_value:
  "\<exists>a b d. resolve_all witness_runtime [secret_variable, derived_variable] [] = Inr [a, b]
    \<and> resolved_sensitive b \<and> to_trace_dict b = VDict d
    \<and> map_of d ''error'' = Some (VStr (''cannot convert '' @ repr_str ''hunter2'' @ '' to a number''))"
  by (simp add: resolve_defs secret_variable_def derived_variable_def evaluate_expression.simps
    iter_variable_ids.simps get_or_def dict_item_def UNARY_OPS_def RESOLVED_def reference_value_def
    unary_op_def to_number_def py_strip_def py_lstrip_def is_space_def integer_text_def is_decimal_def
    witness_runtime_def to_trace_dict_def redacted_value_def)

end
