(* ===== verification/Validation.thy ===== *)
theory Validation
  imports Adapters Variables
begin

section \<open>Whole-payload validation (control/validation.py)\<close>

text \<open>
  The checks that run over a complete payload before a revision may be activated.  The code
  appends every issue to one of two lists; here each loop returns its issues in order and the
  report splits the stream by severity, which gives the same two lists.
\<close>

record validation_issue =
  vi_severity :: string
  vi_code :: string
  vi_message :: string
  vi_object_type :: "string option"
  vi_object_id :: "string option"

definition vissue :: "string \<Rightarrow> string \<Rightarrow> string \<Rightarrow> string \<Rightarrow> string \<Rightarrow> validation_issue" where
  "vissue severity cd message obj_type obj_id = \<lparr>vi_severity = severity, vi_code = cd,
     vi_message = message, vi_object_type = Some obj_type, vi_object_id = Some obj_id\<rparr>"

definition validation_issue_to_dict :: "validation_issue \<Rightarrow> pyval" where
  "validation_issue_to_dict i = VDict [
     (''severity'', VStr (vi_severity i)),
     (''code'', VStr (vi_code i)),
     (''message'', VStr (vi_message i)),
     (''object_type'', opt_str (vi_object_type i)),
     (''object_id'', opt_str (vi_object_id i))]"

record validation_report =
  report_errors :: "validation_issue list"
  report_warnings :: "validation_issue list"
  report_counts :: "(string, nat) dict"

definition report_valid :: "validation_report \<Rightarrow> bool" where
  "report_valid r \<longleftrightarrow> report_errors r = []"

definition report_to_dict :: "validation_report \<Rightarrow> pyval" where
  "report_to_dict r = VDict [
     (''valid'', VBool (report_valid r)),
     (''errors'', VList (map validation_issue_to_dict (report_errors r))),
     (''warnings'', VList (map validation_issue_to_dict (report_warnings r))),
     (''counts'', VDict (map (\<lambda>(k, n). (k, VInt (int n))) (report_counts r)))]"

text \<open>\<open>_condition_variable_ids\<close>.\<close>

definition own_variable_id :: "pydict \<Rightarrow> string list" where
  "own_variable_id d = (case map_of d ''path'' of
     Some (VStr p) \<Rightarrow> if prefix ''variables.'' p then [split_on (CHR ''.'') p ! 1] else []
   | _ \<Rightarrow> [])"

function condition_variable_ids :: "pyval \<Rightarrow> string list res" where
  "condition_variable_ids c = (case c of
     VDict d \<Rightarrow> (case map_of d ''conditions'' of
         None \<Rightarrow> Inr (own_variable_id d)
       | Some (VList cs) \<Rightarrow> bindR (mapR condition_variable_ids cs) (\<lambda>ids.
           Inr (own_variable_id d @ concat ids))
       | Some (VStr _) \<Rightarrow> Inr (own_variable_id d)
       | Some (VDict _) \<Rightarrow> Inr (own_variable_id d)
       | Some v \<Rightarrow> Inl (TypeError (type_name v @ '' object is not iterable'')))
   | _ \<Rightarrow> Inr [])"
  by pat_completeness auto
termination
  by (relation "measure size") (auto dest!: size_map_of size_list_elem)

declare condition_variable_ids.simps [simp del]

text \<open>
  \<open>_computed_cycle\<close>: a depth-first search.  The set \<open>visiting\<close>, from which an id is removed on the
  way back, is an argument; \<open>done\<close> is threaded.
\<close>

function computed_cycle :: "variable_index \<Rightarrow> string \<Rightarrow> string list \<Rightarrow> string list \<Rightarrow> bool \<times> string list"
  and computed_cycle_any ::
    "variable_index \<Rightarrow> string list \<Rightarrow> string list \<Rightarrow> string list \<Rightarrow> bool \<times> string list" where
  "computed_cycle by_id i visiting finished =
     (if i \<in> set visiting then (True, finished)
      else if i \<in> set finished then (False, finished)
      else (case map_of by_id i of
          None \<Rightarrow> (False, finished)
        | Some v \<Rightarrow>
            if variable_source v \<noteq> ''computed'' then (False, finished)
            else (let (found, finished') =
                computed_cycle_any by_id (iter_variable_ids (variable_source_ref v)) (i # visiting) finished
              in if found then (True, finished') else (False, i # finished'))))"
| "computed_cycle_any by_id [] visiting finished = (False, finished)"
| "computed_cycle_any by_id (d # ds) visiting finished =
     (let (found, finished') = computed_cycle by_id d visiting finished
      in if found then (True, finished') else computed_cycle_any by_id ds visiting finished')"
  by pat_completeness auto
termination
proof (relation "measures [\<lambda>x. case x of
      Inl (by_id, _, visiting, _) \<Rightarrow> card (set (keys by_id) - set visiting)
    | Inr (by_id, _, visiting, _) \<Rightarrow> card (set (keys by_id) - set visiting),
    \<lambda>x. case x of Inl _ \<Rightarrow> 0 | Inr (_, ds, _) \<Rightarrow> Suc (length ds)]", goal_cases)
  case (2 by_id i visiting finished v)
  then have "i \<in> set (keys by_id)"
    by (metis map_of_eq_None_keys option.distinct(1))
  with 2 have "card (set (keys by_id) - set (i # visiting)) < card (set (keys by_id) - set visiting)"
    by (intro psubset_card_mono) auto
  then show ?case by simp
qed simp_all

declare computed_cycle.simps [simp del]

subsection \<open>The loops\<close>

fun duplicate_issues :: "managed_object list \<Rightarrow> (string, string) dict \<Rightarrow> validation_issue list" where
  "duplicate_issues [] seen = []"
| "duplicate_issues (obj # objs) seen =
     (case map_of seen (object_id obj) of
        None \<Rightarrow> []
      | Some other \<Rightarrow> [vissue ''error'' ''duplicate_object_id''
          (''id '' @ repr_str (object_id obj) @ '' is used by both '' @ other @ '' and '' @ object_type obj)
          (object_type obj) (object_id obj)])
     @ duplicate_issues objs (dict_put seen (object_id obj) (object_type obj))"

definition adapter_issues :: "string \<Rightarrow> string \<Rightarrow> adapter_issue list \<Rightarrow> validation_issue list" where
  "adapter_issues obj_type obj_id issues = map (\<lambda>i. vissue
     (issue_severity i) (issue_code i) (issue_message i) obj_type obj_id) issues"

definition destination_issues ::
    "py_runtime \<Rightarrow> adapter_registry \<Rightarrow> destination \<Rightarrow> validation_issue list res" where
  "destination_issues rt registry d = (case get_by_destination_kind registry (destination_kind d) of
     None \<Rightarrow> Inr [vissue ''warning'' ''unknown_destination_kind''
       (''no adapter knows destination kind '' @ repr_str (destination_kind d))
       ''destination'' (destination_id d)]
   | Some a \<Rightarrow> bindR (validate_destination rt a d) (\<lambda>issues.
       Inr (adapter_issues ''destination'' (destination_id d) issues)))"

definition missing_refs ::
    "string list \<Rightarrow> string list \<Rightarrow> string \<Rightarrow> string \<Rightarrow> string \<Rightarrow> string \<Rightarrow> validation_issue list" where
  "missing_refs ids known cd text obj_type obj_id =
     map (\<lambda>i. vissue ''error'' cd (text @ i) obj_type obj_id) (filter (\<lambda>i. i \<notin> set known) ids)"

definition trigger_issues :: "string list \<Rightarrow> trigger \<Rightarrow> validation_issue list res" where
  "trigger_issues variable_ids t =
     bindR (condition_variable_ids (trigger_conditions t)) (\<lambda>ids.
       Inr (missing_refs ids variable_ids ''variable_reference_missing''
         ''condition references missing variable '' ''trigger'' (trigger_id t)))"

definition variable_issues :: "variable_index \<Rightarrow> string list \<Rightarrow> variable \<Rightarrow> validation_issue list" where
  "variable_issues by_variable variable_ids v =
     (if variable_source v \<noteq> ''computed'' then []
      else missing_refs (iter_variable_ids (variable_source_ref v)) variable_ids
          ''variable_reference_missing'' ''computed expression references missing variable ''
          ''variable'' (variable_id v)
        @ (if fst (computed_cycle by_variable (variable_id v) [] [])
           then [vissue ''error'' ''variable_cycle'' ''computed variable references form a cycle''
             ''variable'' (variable_id v)]
           else []))"

definition draft_warnings :: "tag \<Rightarrow> validation_issue list" where
  "draft_warnings t =
     (case get_or (case tag_source_evidence t of None \<Rightarrow> [] | Some e \<Rightarrow> e) ''warnings'' (VList []) of
        VList ws \<Rightarrow> concat (map (\<lambda>w. case w of
            VStr s \<Rightarrow> if s = [] then [] else [vissue ''warning'' ''draft_warning'' s ''tag'' (tag_id t)]
          | _ \<Rightarrow> []) ws)
      | _ \<Rightarrow> [])"

definition tag_issues ::
    "py_runtime \<Rightarrow> adapter_registry \<Rightarrow> destination list \<Rightarrow> string list \<Rightarrow> string list \<Rightarrow> string list \<Rightarrow> tag
     \<Rightarrow> validation_issue list res" where
  "tag_issues rt registry ds trigger_ids variable_ids destination_ids t =
     (let early =
          missing_refs (tag_trigger_ids t) trigger_ids ''trigger_reference_missing''
            ''tag references missing trigger '' ''tag'' (tag_id t)
          @ missing_refs (tag_variable_ids t) variable_ids ''variable_reference_missing''
            ''tag references missing variable '' ''tag'' (tag_id t)
          @ missing_refs (tag_destination_ids t) destination_ids ''destination_reference_missing''
            ''tag references missing destination '' ''tag'' (tag_id t)
          @ (if tag_trigger_ids t = [] then [vissue ''warning'' ''tag_without_trigger''
              ''tag has no trigger_ids and cannot fire'' ''tag'' (tag_id t)] else [])
          @ (if tag_destination_ids t = [] then [vissue ''warning'' ''tag_without_destination''
              ''tag has no destination_ids'' ''tag'' (tag_id t)] else [])
          @ (if tag_consent_purpose t = None then [vissue ''warning'' ''tag_without_consent_purpose''
              ''tag has no consent purpose; it is not consent-gated'' ''tag'' (tag_id t)] else [])
      in case get_adapter registry (tag_type t) of
           None \<Rightarrow> Inr (early @ [vissue ''error'' ''unknown_adapter''
             (''no adapter is registered for tag type '' @ repr_str (tag_type t)) ''tag'' (tag_id t)])
         | Some a \<Rightarrow> bindR (validate_tag rt a t ds) (\<lambda>issues.
             Inr (early @ adapter_issues ''tag'' (tag_id t) issues @ draft_warnings t)))"

definition payload_issues :: "py_runtime \<Rightarrow> adapter_registry \<Rightarrow> payload \<Rightarrow> validation_issue list res" where
  "payload_issues rt registry p =
     (let trigger_ids = map trigger_id (payload_triggers p);
          variable_ids = map variable_id (payload_variables p);
          destination_ids = map destination_id (payload_destinations p);
          by_variable = variable_index_of (payload_variables p)
      in bindR (mapR (destination_issues rt registry) (payload_destinations p)) (\<lambda>from_destinations.
         bindR (mapR (trigger_issues variable_ids) (payload_triggers p)) (\<lambda>from_triggers.
         bindR (mapR (tag_issues rt registry (payload_destinations p) trigger_ids variable_ids destination_ids)
           (payload_tags p)) (\<lambda>from_tags.
           Inr (duplicate_issues (all_objects p) [] @ concat from_destinations @ concat from_triggers
             @ concat (map (variable_issues by_variable variable_ids) (payload_variables p))
             @ concat from_tags)))))"

definition validate_config_payload ::
    "py_runtime \<Rightarrow> adapter_registry \<Rightarrow> payload \<Rightarrow> validation_report res" where
  "validate_config_payload rt registry p = bindR (payload_issues rt registry p) (\<lambda>issues.
     Inr \<lparr>report_errors = filter (\<lambda>i. vi_severity i = ''error'') issues,
       report_warnings = filter (\<lambda>i. vi_severity i \<noteq> ''error'') issues,
       report_counts = [(''tags'', length (payload_tags p)), (''triggers'', length (payload_triggers p)),
         (''variables'', length (payload_variables p)), (''destinations'', length (payload_destinations p))]\<rparr>)"

subsection \<open>The cycle check\<close>

definition cyclic_from :: "variable_index \<Rightarrow> string \<Rightarrow> bool" where
  "cyclic_from by_id i \<longleftrightarrow> (\<exists>j. (i, j) \<in> (ref_rel by_id)\<^sup>* \<and> (j, j) \<in> (ref_rel by_id)\<^sup>+)"

lemma cyclic_from_step: "cyclic_from by_id i \<longleftrightarrow> (\<exists>d \<in> set (refs_of by_id i). cyclic_from by_id d)"
proof
  assume "cyclic_from by_id i"
  then obtain j where j: "(i, j) \<in> (ref_rel by_id)\<^sup>*" "(j, j) \<in> (ref_rel by_id)\<^sup>+"
    by (auto simp: cyclic_from_def)
  from j(1) have "\<exists>d. (i, d) \<in> ref_rel by_id \<and> cyclic_from by_id d"
  proof (cases rule: converse_rtranclE)
    case base
    with j(2) obtain d where "(i, d) \<in> ref_rel by_id" "(d, i) \<in> (ref_rel by_id)\<^sup>*"
      by (meson tranclD)
    with base j(2) show ?thesis by (auto simp: cyclic_from_def)
  next
    case (step d)
    with j(2) show ?thesis by (auto simp: cyclic_from_def)
  qed
  then show "\<exists>d \<in> set (refs_of by_id i). cyclic_from by_id d" by (auto simp: ref_rel_def)
next
  assume "\<exists>d \<in> set (refs_of by_id i). cyclic_from by_id d"
  then show "cyclic_from by_id i"
    by (auto simp: cyclic_from_def ref_rel_def intro: converse_rtrancl_into_rtrancl)
qed

lemma refs_of_computed:
  "map_of by_id i = Some v \<Longrightarrow> variable_source v = ''computed'' \<Longrightarrow>
     refs_of by_id i = iter_variable_ids (variable_source_ref v)"
  by (simp add: refs_of_def)

lemma computed_cycle_sound:
  "fst (computed_cycle by_id i visiting finished) \<Longrightarrow>
     (\<And>u. u \<in> set visiting \<Longrightarrow> (u, i) \<in> (ref_rel by_id)\<^sup>+) \<Longrightarrow> cyclic_from by_id i"
  "fst (computed_cycle_any by_id ds visiting finished) \<Longrightarrow>
     (\<And>u d. u \<in> set visiting \<Longrightarrow> d \<in> set ds \<Longrightarrow> (u, d) \<in> (ref_rel by_id)\<^sup>+) \<Longrightarrow>
     \<exists>d \<in> set ds. cyclic_from by_id d"
proof (induction by_id i visiting finished and by_id ds visiting finished
    rule: computed_cycle_computed_cycle_any.induct)
  case (1 by_id i visiting finished)
  show ?case
  proof (cases "i \<in> set visiting")
    case True
    with "1.prems"(2) show ?thesis by (auto simp: cyclic_from_def)
  next
    case False
    with "1.prems"(1) obtain v where v: "i \<notin> set finished" "map_of by_id i = Some v"
      "variable_source v = ''computed''"
      "fst (computed_cycle_any by_id (iter_variable_ids (variable_source_ref v)) (i # visiting) finished)"
      by (subst (asm) computed_cycle.simps) (auto split: if_splits option.splits prod.splits)
    let ?ds = "iter_variable_ids (variable_source_ref v)"
    have edge: "(i, d) \<in> ref_rel by_id" if "d \<in> set ?ds" for d
      using that v by (simp add: ref_rel_def refs_of_computed)
    have "(u, d) \<in> (ref_rel by_id)\<^sup>+" if "u \<in> set (i # visiting)" "d \<in> set ?ds" for u d
      using that(1) "1.prems"(2) [of u] edge [OF that(2)] by (auto intro: trancl_into_trancl)
    from "1.IH" [OF False v(1,2) _ v(4) this] v(3)
    obtain d where "d \<in> set ?ds" "cyclic_from by_id d" by auto
    with v show ?thesis by (subst cyclic_from_step) (auto simp: refs_of_computed)
  qed
next
  case (3 by_id d ds visiting finished)
  obtain found f where first: "computed_cycle by_id d visiting finished = (found, f)" by fastforce
  show ?case
  proof (cases found)
    case True
    with first "3.IH"(1) "3.prems"(2) show ?thesis by auto
  next
    case False
    with first "3.prems"(1) have "fst (computed_cycle_any by_id ds visiting f)" by simp
    from "3.IH"(2) [OF first [symmetric] refl False this] "3.prems"(2) show ?thesis by auto
  qed
qed simp

lemma computed_cycle_complete:
  "computed_cycle by_id i visiting finished = (False, f) \<Longrightarrow>
     (\<forall>x \<in> set finished. \<not> cyclic_from by_id x) \<Longrightarrow>
     (\<forall>x \<in> set f. \<not> cyclic_from by_id x) \<and> \<not> cyclic_from by_id i"
  "computed_cycle_any by_id ds visiting finished = (False, f) \<Longrightarrow>
     (\<forall>x \<in> set finished. \<not> cyclic_from by_id x) \<Longrightarrow>
     (\<forall>x \<in> set f. \<not> cyclic_from by_id x) \<and> (\<forall>d \<in> set ds. \<not> cyclic_from by_id d)"
proof (induction by_id i visiting finished and by_id ds visiting finished arbitrary: f and f
    rule: computed_cycle_computed_cycle_any.induct)
  case (1 by_id i visiting finished)
  have nv: "i \<notin> set visiting"
    using "1.prems"(1) by (subst (asm) computed_cycle.simps) (auto split: if_splits)
  show ?case
  proof (cases "i \<in> set finished \<or> refs_of by_id i = []")
    case True
    then have safe: "\<not> cyclic_from by_id i"
      using "1.prems"(2) by (auto simp: cyclic_from_step [of by_id i])
    have "set f \<subseteq> insert i (set finished)"
      using "1.prems"(1) nv True
      by (subst (asm) computed_cycle.simps)
        (auto simp: refs_of_def split: if_splits option.splits prod.splits)
    with safe "1.prems"(2) show ?thesis by auto
  next
    case False
    then obtain v where v: "map_of by_id i = Some v" "variable_source v = ''computed''"
      by (auto simp: refs_of_def split: option.splits if_splits)
    with "1.prems"(1) nv False obtain g where g: "f = i # g"
      "computed_cycle_any by_id (iter_variable_ids (variable_source_ref v)) (i # visiting) finished = (False, g)"
      by (subst (asm) computed_cycle.simps) (auto split: if_splits prod.splits)
    from "1.IH" [OF nv _ v(1) _ g(2) "1.prems"(2)] False v(2)
    have "\<forall>x \<in> set g. \<not> cyclic_from by_id x"
      and "\<forall>d \<in> set (iter_variable_ids (variable_source_ref v)). \<not> cyclic_from by_id d" by auto
    with g(1) v show ?thesis by (auto simp: cyclic_from_step [of by_id i] refs_of_computed)
  qed
next
  case (3 by_id d ds visiting finished)
  obtain found g where first: "computed_cycle by_id d visiting finished = (found, g)" by fastforce
  with "3.prems"(1) have nf: "\<not> found" and rest: "computed_cycle_any by_id ds visiting g = (False, f)"
    by (auto split: if_splits)
  with first have "computed_cycle by_id d visiting finished = (False, g)" by simp
  from "3.IH"(1) [OF this "3.prems"(2)] have "\<forall>x \<in> set g. \<not> cyclic_from by_id x" "\<not> cyclic_from by_id d"
    by simp_all
  with "3.IH"(2) [OF first [symmetric] refl nf rest] show ?case by auto
qed simp

lemma computed_cycle_iff: "fst (computed_cycle by_id i [] []) \<longleftrightarrow> cyclic_from by_id i"
proof
  assume "fst (computed_cycle by_id i [] [])"
  then show "cyclic_from by_id i" by (rule computed_cycle_sound) simp
next
  assume "cyclic_from by_id i"
  then show "fst (computed_cycle by_id i [] [])"
    using computed_cycle_complete(1) [of by_id i "[]" "[]"] by (metis (full_types) empty_iff empty_set prod.collapse)
qed

subsection \<open>What a valid report means\<close>

definition closed_payload :: "py_runtime \<Rightarrow> adapter_registry \<Rightarrow> payload \<Rightarrow> bool" where
  "closed_payload rt registry p \<longleftrightarrow>
     distinct (map object_id (all_objects p)) \<and>
     (\<forall>t \<in> set (payload_triggers p). \<exists>ids. condition_variable_ids (trigger_conditions t) = Inr ids
        \<and> set ids \<subseteq> variable_id ` set (payload_variables p)) \<and>
     (\<forall>v \<in> set (payload_variables p). variable_source v = ''computed'' \<longrightarrow>
        set (iter_variable_ids (variable_source_ref v)) \<subseteq> variable_id ` set (payload_variables p)
        \<and> \<not> cyclic_from (variable_index_of (payload_variables p)) (variable_id v)) \<and>
     (\<forall>t \<in> set (payload_tags p).
        set (tag_trigger_ids t) \<subseteq> trigger_id ` set (payload_triggers p)
        \<and> set (tag_variable_ids t) \<subseteq> variable_id ` set (payload_variables p)
        \<and> set (tag_destination_ids t) \<subseteq> destination_id ` set (payload_destinations p)
        \<and> (\<exists>a issues. get_adapter registry (tag_type t) = Some a
              \<and> validate_tag rt a t (payload_destinations p) = Inr issues
              \<and> (\<forall>i \<in> set issues. issue_severity i \<noteq> ''error'')))"

abbreviation no_errors :: "validation_issue list \<Rightarrow> bool" where
  "no_errors issues \<equiv> \<forall>i \<in> set issues. vi_severity i \<noteq> ''error''"

lemma no_duplicates:
  "no_errors (duplicate_issues objs seen) \<Longrightarrow>
     distinct (map object_id objs) \<and> (\<forall>x \<in> set objs. map_of seen (object_id x) = None)"
proof (induction objs arbitrary: seen)
  case (Cons x xs)
  have "map_of seen (object_id x) = None"
    using Cons.prems by (cases "map_of seen (object_id x)") (auto simp: vissue_def)
  moreover from Cons.prems have "no_errors (duplicate_issues xs (dict_put seen (object_id x) (object_type x)))"
    by auto
  from Cons.IH [OF this] have "distinct (map object_id xs)"
    "\<forall>y \<in> set xs. object_id y \<noteq> object_id x \<and> map_of seen (object_id y) = None"
    by (auto split: if_splits)
  ultimately show ?case by auto
qed simp

lemma no_missing_refs: "no_errors (missing_refs ids known cd text ty i) \<longleftrightarrow> set ids \<subseteq> set known"
  by (auto simp: missing_refs_def vissue_def)

lemma no_adapter_issues:
  "no_errors (adapter_issues ty i issues) \<longleftrightarrow> (\<forall>x \<in> set issues. issue_severity x \<noteq> ''error'')"
  by (auto simp: adapter_issues_def vissue_def)

lemma no_trigger_issues:
  "trigger_issues known t = Inr issues \<Longrightarrow> no_errors issues \<Longrightarrow>
     \<exists>ids. condition_variable_ids (trigger_conditions t) = Inr ids \<and> set ids \<subseteq> set known"
  by (auto simp: trigger_issues_def bindR_Inr_iff no_missing_refs)

lemma no_variable_issues:
  "no_errors (variable_issues idx known v) \<Longrightarrow> variable_source v = ''computed'' \<Longrightarrow>
     set (iter_variable_ids (variable_source_ref v)) \<subseteq> set known \<and> \<not> cyclic_from idx (variable_id v)"
  by (auto simp: variable_issues_def no_missing_refs ball_Un computed_cycle_iff vissue_def split: if_splits)

lemma no_tag_issues:
  assumes "tag_issues rt registry ds ts vs dsts t = Inr issues" and "no_errors issues"
  shows "set (tag_trigger_ids t) \<subseteq> set ts \<and> set (tag_variable_ids t) \<subseteq> set vs
    \<and> set (tag_destination_ids t) \<subseteq> set dsts
    \<and> (\<exists>a found. get_adapter registry (tag_type t) = Some a \<and> validate_tag rt a t ds = Inr found
         \<and> (\<forall>i \<in> set found. issue_severity i \<noteq> ''error''))"
proof (cases "get_adapter registry (tag_type t)")
  case None
  with assms show ?thesis by (auto simp: tag_issues_def Let_def vissue_def)
next
  case (Some a)
  with assms(1) obtain found where found: "validate_tag rt a t ds = Inr found"
    by (auto simp: tag_issues_def Let_def bindR_Inr_iff)
  with Some assms have "no_errors (missing_refs (tag_trigger_ids t) ts ''trigger_reference_missing''
            ''tag references missing trigger '' ''tag'' (tag_id t))"
    "no_errors (missing_refs (tag_variable_ids t) vs ''variable_reference_missing''
            ''tag references missing variable '' ''tag'' (tag_id t))"
    "no_errors (missing_refs (tag_destination_ids t) dsts ''destination_reference_missing''
            ''tag references missing destination '' ''tag'' (tag_id t))"
    "no_errors (adapter_issues ''tag'' (tag_id t) found)"
    by (auto simp: tag_issues_def Let_def)
  with Some found show ?thesis by (auto simp: no_missing_refs no_adapter_issues)
qed

lemma valid_report_closed:
  assumes "validate_config_payload rt registry p = Inr r" and "report_valid r"
  shows "closed_payload rt registry p"
proof -
  let ?ts = "map trigger_id (payload_triggers p)" and ?vs = "map variable_id (payload_variables p)"
    and ?ds = "map destination_id (payload_destinations p)"
    and ?idx = "variable_index_of (payload_variables p)"
  from assms obtain issues where all: "payload_issues rt registry p = Inr issues" and ne: "no_errors issues"
    by (auto simp: validate_config_payload_def bindR_Inr_iff report_valid_def filter_empty_conv)
  from all obtain fd ft ft' where
    tr: "mapR (trigger_issues ?vs) (payload_triggers p) = Inr ft"
    and tg: "mapR (tag_issues rt registry (payload_destinations p) ?ts ?vs ?ds) (payload_tags p) = Inr ft'"
    and issues: "issues = duplicate_issues (all_objects p) [] @ concat fd @ concat ft
             @ concat (map (variable_issues ?idx ?vs) (payload_variables p)) @ concat ft'"
    by (auto simp: payload_issues_def Let_def bindR_Inr_iff)
  have each: "\<exists>ys. f x = Inr ys \<and> no_errors ys"
    if "mapR f xs = Inr iss" and "no_errors (concat iss)" and "x \<in> set xs"
    for f :: "'z \<Rightarrow> validation_issue list res" and xs iss x
    using that by (induction xs arbitrary: iss) (auto simp: bindR_Inr_iff)
  have ne_parts: "no_errors (duplicate_issues (all_objects p) [])" "no_errors (concat ft)"
    "no_errors (concat (map (variable_issues ?idx ?vs) (payload_variables p)))" "no_errors (concat ft')"
    using ne by (auto simp: issues)
  show ?thesis
    unfolding closed_payload_def
  proof (intro conjI ballI impI)
    show "distinct (map object_id (all_objects p))" using no_duplicates ne_parts(1) by blast
  next
    fix t assume "t \<in> set (payload_triggers p)"
    with each [OF tr ne_parts(2)] no_trigger_issues
    show "\<exists>ids. condition_variable_ids (trigger_conditions t) = Inr ids
        \<and> set ids \<subseteq> variable_id ` set (payload_variables p)" by fastforce
  next
    fix v assume v: "v \<in> set (payload_variables p)" "variable_source v = ''computed''"
    with ne_parts(3) have "no_errors (variable_issues ?idx ?vs v)" by auto
    from no_variable_issues [OF this v(2)]
    show "set (iter_variable_ids (variable_source_ref v)) \<subseteq> variable_id ` set (payload_variables p)"
      "\<not> cyclic_from ?idx (variable_id v)" by auto
  next
    fix t assume "t \<in> set (payload_tags p)"
    then obtain ys where "tag_issues rt registry (payload_destinations p) ?ts ?vs ?ds t = Inr ys" "no_errors ys"
      using each [OF tg ne_parts(4)] by blast
    from no_tag_issues [OF this]
    show "set (tag_trigger_ids t) \<subseteq> trigger_id ` set (payload_triggers p)"
      "set (tag_variable_ids t) \<subseteq> variable_id ` set (payload_variables p)"
      "set (tag_destination_ids t) \<subseteq> destination_id ` set (payload_destinations p)"
      "\<exists>a issues. get_adapter registry (tag_type t) = Some a
              \<and> validate_tag rt a t (payload_destinations p) = Inr issues
              \<and> (\<forall>i \<in> set issues. issue_severity i \<noteq> ''error'')" by auto
  qed
qed

subsection \<open>Properties\<close>

text \<open>
  C29: what a valid report guarantees.  No two objects of any kind share an id, every id that a
  condition, a computed expression or a tag refers to is declared, no computed variable leads into
  a reference cycle, and every tag has a registered adapter that found no error in it.
\<close>
theorem valid_report_means_closed:
  assumes "validate_config_payload rt registry p = Inr r" and "report_valid r"
  shows "closed_payload rt registry p"
  using assms by (rule valid_report_closed)

definition full_payload :: payload where
  "full_payload = \<lparr>payload_tags = [sample_tag], payload_triggers = [],
     payload_variables = [sample_variable], payload_destinations = [sample_destination]\<rparr>"

lemma validate_full_payload:
  "\<exists>r. validate_config_payload witness_runtime [(''ga4_event'', GA4Adapter)] full_payload = Inr r \<and> report_valid r"
  by (simp add: validate_config_payload_def payload_issues_def full_payload_def all_objects_def
    sample_tag_def sample_variable_def sample_destination_def report_valid_def destination_issues_def
    get_by_destination_kind_def validate_destination_defs get_or_def tag_issues_def get_adapter_def
    validate_tag_def referenced_destinations_def reference_destination_def index_by_def event_name_of_def
    adapter_issues_def missing_refs_def vissue_def variable_issues_def draft_warnings_def)

theorem valid_report_means_closed_witness:
  "closed_payload witness_runtime [(''ga4_event'', GA4Adapter)] full_payload"
  using validate_full_payload valid_report_means_closed by blast

text \<open>
  C37: the depth-first search for cycles is exact: from a fresh state it answers true exactly when
  following computed references from the variable leads to one that reaches itself.
\<close>
theorem cycle_check_exact:
  "fst (computed_cycle by_id i [] []) \<longleftrightarrow>
     (\<exists>j. (i, j) \<in> (ref_rel by_id)\<^sup>* \<and> (j, j) \<in> (ref_rel by_id)\<^sup>+)"
  unfolding computed_cycle_iff cyclic_from_def ..

definition list_method_destination :: destination where
  "list_method_destination = \<lparr>destination_id = ''00000000-0000-4000-8000-000000000004'',
     destination_name = ''hook'', destination_kind = ''http_webhook'',
     destination_config = [(''url'', VStr ''https://x''), (''method'', VList [VStr ''POST''])],
     destination_secret_refs = [], destination_enabled = True\<rparr>"

text \<open>
  Validation can crash instead of reporting.  A webhook destination whose \<open>method\<close> is a list is
  well-formed configuration, but the membership test hashes it and the \<open>TypeError\<close> leaves
  \<open>validate_config_payload\<close>.
\<close>
theorem list_method_crashes_validation:
  "wf_payload witness_runtime (payload_empty\<lparr>payload_destinations := [list_method_destination]\<rparr>)
    \<and> bindR default_adapter_registry (\<lambda>registry. validate_config_payload witness_runtime registry
        (payload_empty\<lparr>payload_destinations := [list_method_destination]\<rparr>))
      = Inl (TypeError (''unhashable type: '' @ repr_str ''list''))"
  by (simp add: wf_payload_def payload_empty_def wf_destination_def list_method_destination_def
    is_uuid_def is_lower_hex_def is_decimal_def good_name_def validate_name_def py_strip_def
    py_lstrip_def is_space_def is_control_def MAX_NAME_LENGTH_def registered_kinds
    validate_config_payload_def payload_issues_def destination_issues_def get_by_destination_kind_def
    validate_destination_defs absolute_http_url_def witness_runtime_def get_or_def method_allowed_def)

end
