(* ===== verification/Preview.thy ===== *)
theory Preview
  imports Validation "HOL-Library.Product_Lexorder" "HOL-Library.Multiset"
begin

section \<open>Event preview (control/preview.py)\<close>

text \<open>
  The simulation of one event through a payload: normalisation of the event, the consent state,
  variable resolution, trigger matching, the decision about each tag and the adapter results.
  The measured time is an argument, the only part of the trace that is no function of the input.
\<close>

subsection \<open>Redaction\<close>

fun redact :: "pyval \<Rightarrow> pyval" where
  "redact (VDict d) =
     VDict (map (\<lambda>p. (fst p, if is_sensitive_key (fst p) then VStr REDACTED else redact (snd p))) d)"
| "redact (VList xs) = VList (map redact xs)"
| "redact v = v"

subsection \<open>Events and consent\<close>

definition mapping_field :: "pydict \<Rightarrow> string \<Rightarrow> pydict res" where
  "mapping_field event key = (case get_or event key (VDict []) of
     VNone \<Rightarrow> Inr []
   | VDict d \<Rightarrow> Inr d
   | _ \<Rightarrow> Inl (ValidationError (''event.'' @ key @ '' must be an object'')))"

definition consent_item :: "string \<Rightarrow> string \<times> pyval \<Rightarrow> (string \<times> bool) res" where
  "consent_item field p =
     (if fst p = [] then Inl (ValidationError (field @ '' keys must be non-empty strings''))
      else (case snd p of
          VBool b \<Rightarrow> Inr (fst p, b)
        | _ \<Rightarrow> Inl (ValidationError (field @ ''.'' @ fst p @ '' must be a boolean''))))"

definition consent_map :: "pyval \<Rightarrow> string \<Rightarrow> (string, bool) dict res" where
  "consent_map v field = (case v of
     VNone \<Rightarrow> Inr []
   | VDict d \<Rightarrow> mapR (consent_item field) d
   | _ \<Rightarrow> Inl (ValidationError (field @ '' must be an object'')))"

record normalized_event =
  ev_name :: string
  ev_type :: string
  ev_properties :: pydict
  ev_page :: pydict
  ev_dom :: pydict
  ev_data_layer :: pydict
  ev_consent :: "(string, bool) dict"
  ev_stored_consent :: "(string, bool) dict"

definition consent_value :: "(string, bool) dict \<Rightarrow> pyval" where
  "consent_value c = VDict (map (\<lambda>(k, b). (k, VBool b)) c)"

text \<open>The dictionary \<open>normalize_event\<close> returns, with its keys in order.\<close>

definition event_items :: "normalized_event \<Rightarrow> pydict" where
  "event_items e = [
     (''name'', VStr (ev_name e)),
     (''type'', VStr (ev_type e)),
     (''properties'', VDict (ev_properties e)),
     (''page'', VDict (ev_page e)),
     (''dom'', VDict (ev_dom e)),
     (''data_layer'', VDict (ev_data_layer e)),
     (''consent'', consent_value (ev_consent e)),
     (''stored_consent'', consent_value (ev_stored_consent e))]"

definition nonempty_text :: "pyval \<Rightarrow> string \<Rightarrow> string res" where
  "nonempty_text v message = (case v of
     VStr s \<Rightarrow> if s = [] then Inl (ValidationError message) else Inr s
   | _ \<Rightarrow> Inl (ValidationError message))"

definition page_with_path :: "py_runtime \<Rightarrow> pydict \<Rightarrow> pydict res" where
  "page_with_path rt page =
     (if ''path'' \<in> set (keys page) then Inr page
      else (case get_or page ''url'' VNone of
          VStr url \<Rightarrow> (case url_split rt url of
              Inl msg \<Rightarrow> Inl (ValueError msg)
            | Inr (sch, netloc, path) \<Rightarrow>
                Inr (dict_put page ''path'' (VStr (if path = [] then ''/'' else path))))
        | _ \<Rightarrow> Inr page))"

definition normalize_event :: "py_runtime \<Rightarrow> pyval \<Rightarrow> normalized_event res" where
  "normalize_event rt event = (case event of
     VDict e \<Rightarrow>
       bindR (nonempty_text (get_or e ''name'' VNone) ''event.name must be a non-empty string'') (\<lambda>name.
       bindR (nonempty_text (get_or e ''type'' (VStr ''custom_event''))
         ''event.type must be a non-empty string'') (\<lambda>event_type.
       bindR (mapping_field e ''properties'') (\<lambda>properties.
       bindR (bindR (mapping_field e ''page'') (page_with_path rt)) (\<lambda>page.
       bindR (mapping_field e ''dom'') (\<lambda>dm.
       bindR (mapping_field e ''data_layer'') (\<lambda>data_layer.
       bindR (consent_map (get_or e ''consent'' VNone) ''event.consent'') (\<lambda>consent.
       bindR (consent_map (get_or e ''stored_consent'' VNone) ''event.stored_consent'') (\<lambda>stored.
       Inr \<lparr>ev_name = name, ev_type = event_type, ev_properties = properties, ev_page = page,
         ev_dom = dm, ev_data_layer = data_layer, ev_consent = consent, ev_stored_consent = stored\<rparr>))))))))
   | _ \<Rightarrow> Inl (ValidationError ''event must be a JSON object''))"

definition consent_state ::
    "normalized_event \<Rightarrow> pydict \<Rightarrow> pydict \<Rightarrow> (string, bool) dict res" where
  "consent_state e default_consent consent_override =
     bindR (consent_map (VDict default_consent) ''default_consent'') (\<lambda>base.
     bindR (consent_map (VDict consent_override) ''consent'') (\<lambda>override.
       Inr (dict_update (dict_update (dict_update base (ev_stored_consent e)) (ev_consent e)) override)))"

definition CONTEXT_KEYS :: "string list" where
  "CONTEXT_KEYS = [''page'', ''dom'', ''data_layer'', ''consent'', ''stored_consent'', ''properties'']"

definition set_default :: "pydict \<Rightarrow> string \<times> pyval \<Rightarrow> pydict" where
  "set_default d p = (if fst p \<in> set (keys d) then d else dict_put d (fst p) (snd p))"

definition event_core :: "normalized_event \<Rightarrow> pydict" where
  "event_core e =
     (let core = [(''name'', VStr (ev_name e)), (''type'', VStr (ev_type e)),
            (''properties'', VDict (ev_properties e))];
          core = foldl (\<lambda>d (k, v). dict_put d k v) core
            (filter (\<lambda>(k, v). k \<notin> set CONTEXT_KEYS \<and> k \<notin> {''name'', ''type''}) (event_items e))
      in foldl set_default core (ev_properties e))"

definition condition_context :: "normalized_event \<Rightarrow> (string, bool) dict \<Rightarrow> pydict \<Rightarrow> pydict" where
  "condition_context e consent variables = [
     (''event'', VDict (event_core e)),
     (''page'', VDict (ev_page e)),
     (''dom'', VDict (ev_dom e)),
     (''data_layer'', VDict (ev_data_layer e)),
     (''consent'', consent_value consent),
     (''variables'', VDict variables)]"

subsection \<open>Triggers\<close>

definition TRIGGER_EVENT_TYPES :: "(string, string) dict" where
  "TRIGGER_EVENT_TYPES = [(''page_view'', ''page_view''), (''custom_event'', ''custom_event''),
     (''click'', ''click''), (''link_click'', ''link_click''), (''form_submit'', ''form_submit''),
     (''route_change'', ''route_change''), (''consent_change'', ''consent_change'')]"

definition trigger_type_matches :: "string \<Rightarrow> string \<Rightarrow> bool" where
  "trigger_type_matches kind event_type = (case map_of TRIGGER_EVENT_TYPES kind of
     None \<Rightarrow> True | Some expected \<Rightarrow> expected = event_type)"

definition ordered_triggers :: "trigger list \<Rightarrow> (nat \<times> trigger) list" where
  "ordered_triggers ts = sort_key (\<lambda>(i, t). (- trigger_priority t, i)) (enumerate 0 ts)"

text \<open>One turn of the loop over the triggers: whether it matched and why.\<close>

definition match_trigger :: "normalized_event \<Rightarrow> pydict \<Rightarrow> trigger \<Rightarrow> (bool \<times> string) res" where
  "match_trigger e ctx t =
     (if \<not> trigger_enabled t then Inr (False, ''disabled'')
      else if \<not> trigger_type_matches (trigger_type t) (ev_type e) then Inr (False, ''event_type_mismatch'')
      else bindR (evaluate_condition (trigger_conditions t) (VDict ctx)) (\<lambda>holds.
        Inr (if holds then (True, ''matched'') else (False, ''conditions_not_met''))))"

definition trigger_entry :: "nat \<Rightarrow> trigger \<Rightarrow> bool \<times> string \<Rightarrow> pyval" where
  "trigger_entry i t m = VDict [
     (''trigger_id'', VStr (trigger_id t)),
     (''name'', VStr (trigger_name t)),
     (''type'', VStr (trigger_type t)),
     (''priority'', VInt (trigger_priority t)),
     (''matched'', VBool (fst m)),
     (''reason'', VStr (snd m)),
     (''declaration_index'', VInt (int i))]"

definition match_triggers ::
    "normalized_event \<Rightarrow> pydict \<Rightarrow> trigger list \<Rightarrow> (nat \<times> trigger \<times> bool \<times> string) list res" where
  "match_triggers e ctx ts = mapR (\<lambda>(i, t). bindR (match_trigger e ctx t) (\<lambda>m. Inr (i, t, m)))
     (ordered_triggers ts)"

definition matched_ids :: "(nat \<times> trigger \<times> bool \<times> string) list \<Rightarrow> string list" where
  "matched_ids ms = map (\<lambda>(i, t, m). trigger_id t) (filter (\<lambda>(i, t, m). fst m) ms)"

subsection \<open>Tags\<close>

definition tag_variables :: "tag \<Rightarrow> (string, resolved_variable) dict \<Rightarrow> pydict" where
  "tag_variables t resolutions = foldl (\<lambda>d i. case map_of resolutions i of
       None \<Rightarrow> dict_put d i VNone
     | Some r \<Rightarrow>
         if resolved_status r \<in> set RESOLVED then dict_put d (resolved_name r) (redacted_value r)
         else dict_put d (resolved_name r) VNone) [] (tag_variable_ids t)"

definition blocked_reason :: "tag \<Rightarrow> string list \<Rightarrow> (string, bool) dict \<Rightarrow> string option" where
  "blocked_reason t matched consent =
     (if \<not> tag_enabled t then Some ''disabled''
      else if tag_trigger_ids t = [] then Some ''no_trigger''
      else if matched = [] then Some ''conditions_not_met''
      else (case tag_consent_purpose t of
          None \<Rightarrow> None
        | Some purpose \<Rightarrow> (case map_of consent purpose of
            None \<Rightarrow> Some ''consent_missing''
          | Some granted \<Rightarrow> if \<not> granted then Some ''consent_denied'' else None)))"

text \<open>\<open>f"{exc}"\<close>: the text of a \<open>KeyError\<close> is the repr of its key.\<close>

definition exn_str :: "exn \<Rightarrow> string" where
  "exn_str e = (case e of KeyError k \<Rightarrow> repr_str k | _ \<Rightarrow> exn_message e)"

definition failed_result :: "tag \<Rightarrow> string \<Rightarrow> pyval" where
  "failed_result t err = VDict [(''simulation'', VBool True), (''would_send'', VBool False),
     (''adapter'', VStr (tag_type t)), (''error'', VStr err)]"

text \<open>The adapter result of a selected tag and the error it adds, if any.\<close>

definition preview_adapter ::
    "adapter_registry \<Rightarrow> payload \<Rightarrow> (string, resolved_variable) dict \<Rightarrow> pydict \<Rightarrow> tag
     \<Rightarrow> pyval \<times> string option" where
  "preview_adapter registry p resolutions redacted_event t = (case get_adapter registry (tag_type t) of
     None \<Rightarrow> (let err = ''no adapter is registered for tag type '' @ repr_str (tag_type t)
       in (failed_result t err, Some err))
   | Some a \<Rightarrow> (case adapter_build a t (payload_destinations p) (tag_variables t resolutions) redacted_event of
       Inl e \<Rightarrow> (let err = ''adapter failed: '' @ exn_str e in (failed_result t err, Some err))
     | Inr r \<Rightarrow> (redact (build_result_to_dict r),
         case build_error r of None \<Rightarrow> None | Some m \<Rightarrow> if m = [] then None else Some m)))"

record tag_item =
  ti_tag :: tag
  ti_blocked :: "string option"
  ti_matched :: "string list"
  ti_result :: pyval
  ti_error :: "string option"

definition tag_item_of ::
    "adapter_registry \<Rightarrow> payload \<Rightarrow> (string, resolved_variable) dict \<Rightarrow> pydict \<Rightarrow> (string, bool) dict
     \<Rightarrow> string list \<Rightarrow> tag \<Rightarrow> tag_item" where
  "tag_item_of registry p resolutions redacted_event consent matched_trigger_ids t =
     (let matched = filter (\<lambda>i. i \<in> set matched_trigger_ids) (tag_trigger_ids t);
          blocked = blocked_reason t matched consent;
          (result, err) = (if blocked = None then preview_adapter registry p resolutions redacted_event t
            else (VNone, None))
      in \<lparr>ti_tag = t, ti_blocked = blocked, ti_matched = matched, ti_result = result, ti_error = err\<rparr>)"

definition tag_entry :: "tag_item \<Rightarrow> pyval" where
  "tag_entry i = VDict [
     (''tag_id'', VStr (tag_id (ti_tag i))),
     (''name'', VStr (tag_name (ti_tag i))),
     (''type'', VStr (tag_type (ti_tag i))),
     (''enabled'', VBool (tag_enabled (ti_tag i))),
     (''selected'', VBool (ti_blocked i = None)),
     (''blocked_reason'', opt_str (ti_blocked i)),
     (''matched_trigger_ids'', str_list (ti_matched i)),
     (''consent_purpose'', opt_str (tag_consent_purpose (ti_tag i))),
     (''adapter_result'', ti_result i)]"

definition error_entries :: "tag_item list \<Rightarrow> pyval list" where
  "error_entries items = concat (map (\<lambda>i. case ti_error i of
     None \<Rightarrow> []
   | Some err \<Rightarrow> [VDict [(''tag_id'', VStr (tag_id (ti_tag i))), (''error'', VStr err)]]) items)"

subsection \<open>The preview\<close>

record preview_data =
  pd_event :: normalized_event
  pd_consent :: "(string, bool) dict"
  pd_resolutions :: "resolved_variable list"
  pd_context :: pydict
  pd_triggers :: "(nat \<times> trigger \<times> bool \<times> string) list"
  pd_tags :: "tag_item list"

definition raw_variables :: "resolved_variable list \<Rightarrow> pydict" where
  "raw_variables rs = foldl (\<lambda>d r. dict_put d (resolved_id r) (resolved_value r)) []
     (filter (\<lambda>r. resolved_status r \<in> set RESOLVED) rs)"

definition preview_data_of ::
    "py_runtime \<Rightarrow> adapter_registry \<Rightarrow> payload \<Rightarrow> pyval \<Rightarrow> pydict \<Rightarrow> pydict \<Rightarrow> preview_data res" where
  "preview_data_of rt registry p event default_consent consent_override =
     bindR (normalize_event rt event) (\<lambda>e.
     bindR (consent_state e default_consent consent_override) (\<lambda>consent.
     bindR (resolve_all rt (payload_variables p) (condition_context e consent [])) (\<lambda>resolutions.
     let ctx = condition_context e consent (raw_variables resolutions) in
     bindR (match_triggers e ctx (payload_triggers p)) (\<lambda>triggers.
     let redacted_event = (case redact (VDict (event_items e)) of VDict d \<Rightarrow> d | _ \<Rightarrow> []);
         tags = map (tag_item_of registry p (index_by resolved_id resolutions) redacted_event consent
           (matched_ids triggers)) (payload_tags p)
     in Inr \<lparr>pd_event = e, pd_consent = consent, pd_resolutions = resolutions, pd_context = ctx,
          pd_triggers = triggers, pd_tags = tags\<rparr>))))"

definition preview_event ::
    "py_runtime \<Rightarrow> adapter_registry \<Rightarrow> payload \<Rightarrow> pyval \<Rightarrow> string option \<Rightarrow> string option \<Rightarrow> string option
     \<Rightarrow> pydict \<Rightarrow> pydict \<Rightarrow> pyval \<Rightarrow> pyval res" where
  "preview_event rt registry p event container_id config_version revision_status default_consent
      consent_override timing =
     bindR (preview_data_of rt registry p event default_consent consent_override) (\<lambda>d.
     Inr (VDict [
       (''simulation'', VBool True),
       (''trace_version'', VStr ''1''),
       (''container_id'', opt_str container_id),
       (''config_version'', opt_str config_version),
       (''revision_status'', opt_str revision_status),
       (''event'', redact (VDict (event_items (pd_event d)))),
       (''consent'', consent_value (pd_consent d)),
       (''variables'', VList (map to_trace_dict (pd_resolutions d))),
       (''triggers'', VList (map (\<lambda>(i, t, m). trigger_entry i t m) (pd_triggers d))),
       (''tags'', VList (map tag_entry (pd_tags d))),
       (''errors'', VList (error_entries (pd_tags d))),
       (''timing_ms'', timing)]))"

subsection \<open>Laws\<close>

lemma preview_parts:
  assumes "preview_data_of rt registry p event dc oc = Inr d"
  shows "normalize_event rt event = Inr (pd_event d)"
    and "consent_state (pd_event d) dc oc = Inr (pd_consent d)"
    and "resolve_all rt (payload_variables p) (condition_context (pd_event d) (pd_consent d) [])
      = Inr (pd_resolutions d)"
    and "match_triggers (pd_event d) (pd_context d) (payload_triggers p) = Inr (pd_triggers d)"
    and "\<exists>ev. pd_tags d = map (tag_item_of registry p (index_by resolved_id (pd_resolutions d)) ev
       (pd_consent d) (matched_ids (pd_triggers d))) (payload_tags p)"
  using assms by (auto simp: preview_data_of_def Let_def bindR_Inr_iff simp del: map_eq_conv)

lemma matched_trigger_fired:
  assumes "match_triggers e ctx ts = Inr ms" and "i \<in> set (matched_ids ms)"
  shows "\<exists>t \<in> set ts. trigger_id t = i \<and> trigger_enabled t \<and> trigger_type_matches (trigger_type t) (ev_type e)
    \<and> evaluate_condition (trigger_conditions t) (VDict ctx) = Inr True"
proof -
  from assms(2) obtain n t m where m: "(n, t, m) \<in> set ms" "fst m" "trigger_id t = i"
    by (auto simp: matched_ids_def)
  with assms(1) obtain n' where "(n', t) \<in> set (ordered_triggers ts)" and fire: "match_trigger e ctx t = Inr m"
    by (fastforce simp: match_triggers_def bindR_Inr_iff dest: mapR_Inr_set)
  then have "t \<in> set ts"
    by (auto simp: ordered_triggers_def in_set_enumerate_eq)
  moreover from fire m(2) have "trigger_enabled t \<and> trigger_type_matches (trigger_type t) (ev_type e)
      \<and> evaluate_condition (trigger_conditions t) (VDict ctx) = Inr True"
    by (auto simp: match_trigger_def bindR_Inr_iff split: if_splits)
  ultimately show ?thesis using m(3) by blast
qed

lemma tag_item_parts:
  "ti_tag (tag_item_of registry p res ev c ms t) = t"
  "ti_matched (tag_item_of registry p res ev c ms t) = filter (\<lambda>i. i \<in> set ms) (tag_trigger_ids t)"
  "ti_blocked (tag_item_of registry p res ev c ms t)
     = blocked_reason t (filter (\<lambda>i. i \<in> set ms) (tag_trigger_ids t)) c"
  by (auto simp: tag_item_of_def Let_def split: prod.splits)

lemma not_blocked:
  "blocked_reason t matched c = None \<longleftrightarrow> tag_enabled t \<and> tag_trigger_ids t \<noteq> [] \<and> matched \<noteq> []
     \<and> (\<forall>purpose. tag_consent_purpose t = Some purpose \<longrightarrow> map_of c purpose = Some True)"
  by (auto simp: blocked_reason_def split: option.splits)

lemma map_of_rev_distinct: "distinct (keys d) \<Longrightarrow> map_of (rev d) = map_of d"
  by (subst map_of_inject_set) (simp_all add: keys_def rev_map [symmetric])

lemma map_of_consent_state:
  assumes "consent_state e dc oc = Inr c" and "distinct (keys (ev_stored_consent e))"
    and "distinct (keys (ev_consent e))" and "consent_map (VDict dc) ''default_consent'' = Inr base"
    and "consent_map (VDict oc) ''consent'' = Inr override" and "distinct (keys override)"
  shows "map_of c = map_of base ++ map_of (ev_stored_consent e) ++ map_of (ev_consent e) ++ map_of override"
  using assms by (auto simp: consent_state_def bindR_Inr_iff map_of_dict_update map_of_rev_distinct)

lemma mset_ordered: "mset (map snd (ordered_triggers ts)) = mset ts"
proof -
  have "mset (map snd (ordered_triggers ts)) = image_mset snd (mset (enumerate 0 ts))"
    unfolding ordered_triggers_def by (simp only: mset_map mset_sort)
  also have "\<dots> = mset ts" by (simp only: mset_map [symmetric] map_snd_enumerate)
  finally show ?thesis .
qed

lemma ordered_by_priority:
  "sorted_wrt (\<lambda>(i, t) (j, u). trigger_priority t > trigger_priority u
     \<or> trigger_priority t = trigger_priority u \<and> i \<le> j) (ordered_triggers ts)"
proof -
  have "sorted (map (\<lambda>(i, t). (- trigger_priority t, i)) (ordered_triggers ts))"
    unfolding ordered_triggers_def by (rule sorted_sort_key)
  then show ?thesis
    unfolding sorted_map by (rule sorted_wrt_mono_rel [rotated]) auto
qed

subsection \<open>Redaction\<close>

fun redacted :: "pyval \<Rightarrow> bool" where
  "redacted (VDict d) = (\<forall>p \<in> set d. if is_sensitive_key (fst p) then snd p = VStr REDACTED else redacted (snd p))"
| "redacted (VList xs) = (\<forall>x \<in> set xs. redacted x)"
| "redacted v = True"

lemma redact_redacted: "redacted (redact v)"
  by (induction v rule: redact.induct) auto

lemma redact_fixed: "redacted v \<Longrightarrow> redact v = v"
proof (induction v rule: redact.induct)
  case (1 d)
  then have "map (\<lambda>p. (fst p, if is_sensitive_key (fst p) then VStr REDACTED else redact (snd p))) d = d"
    by (intro map_idI) (auto simp: prod_eq_iff)
  then show ?case by simp
next
  case (2 xs)
  then show ?case by (simp add: map_idI)
qed simp_all

subsection \<open>Errors\<close>

lemma consent_map_error: "consent_map v f = Inl x \<Longrightarrow> is_value_error x"
  by (auto simp: consent_map_def consent_item_def dest!: mapR_Inl_exn split: pyval.splits if_splits)

lemma nonempty_text_error: "nonempty_text v m = Inl x \<Longrightarrow> is_value_error x"
  by (auto simp: nonempty_text_def split: pyval.splits if_splits)

lemma mapping_field_error: "mapping_field e k = Inl x \<Longrightarrow> is_value_error x"
  by (auto simp: mapping_field_def split: pyval.splits)

lemma page_with_path_error: "page_with_path rt page = Inl x \<Longrightarrow> is_value_error x"
  by (auto simp: page_with_path_def split: pyval.splits if_splits sum.splits)

lemmas event_errors = nonempty_text_error mapping_field_error page_with_path_error consent_map_error

lemma normalize_event_error:
  assumes "normalize_event rt event = Inl x"
  shows "is_value_error x"
proof (cases event)
  case (VDict e)
  with assms show ?thesis
    unfolding normalize_event_def bindR_Inl_iff by (auto dest: event_errors simp: bindR_Inl_iff)
qed (use assms in \<open>auto simp: normalize_event_def\<close>)

lemma validated_evaluation_error:
  assumes "validate_condition rt c = Inr c" and "evaluate_condition c ctx = Inl x"
  shows "is_value_error x"
proof -
  from assms(1) obtain t where t: "c = cond_dict t" "cond_ok t" by (rule validate_condition_sound)
  from evaluate_validated_error [OF t(2), of ctx x] assms(2) t(1) show ?thesis by auto
qed

lemma match_triggers_error:
  assumes "match_triggers e ctx ts = Inl x" and "\<forall>t \<in> set ts. wf_trigger rt t"
  shows "is_value_error x"
proof -
  from mapR_Inl_exn [OF assms(1) [unfolded match_triggers_def]] obtain n t where
    "(n, t) \<in> set (ordered_triggers ts)" and fail: "match_trigger e ctx t = Inl x"
    by (auto simp: bindR_Inl_iff)
  then have "wf_trigger rt t" using assms(2)
    by (auto simp: ordered_triggers_def in_set_enumerate_eq)
  with fail show ?thesis
    by (auto simp: match_trigger_def bindR_Inl_iff wf_trigger_def dest: validated_evaluation_error
        split: if_splits)
qed

lemma preview_error:
  assumes "preview_data_of rt registry p event dc oc = Inl x" and "wf_payload rt p"
  shows "is_value_error x"
proof -
  have total: "resolve_all rt (payload_variables p) ctx \<noteq> Inl y" for ctx y
  proof -
    obtain rs c where "resolve_each rt (variable_index_of (payload_variables p)) ctx
        (map variable_id (payload_variables p)) [] = (Inr rs, c)"
      using resolve_each_total wf_index_of assms(2) by (metis wf_payload_def)
    then show ?thesis by (simp add: resolve_all_def)
  qed
  from assms(1) consider "normalize_event rt event = Inl x"
    | e where "consent_state e dc oc = Inl x"
    | e ctx where "match_triggers e ctx (payload_triggers p) = Inl x"
    by (auto simp: preview_data_of_def Let_def bindR_Inl_iff total)
  then show ?thesis
  proof cases
    case 2
    then show ?thesis by (auto simp: consent_state_def bindR_Inl_iff dest: consent_map_error)
  next
    case 3
    with assms(2) show ?thesis by (auto simp: wf_payload_def intro: match_triggers_error)
  qed (rule normalize_event_error)
qed

subsection \<open>Properties\<close>

text \<open>
  C38: what it takes for a tag to fire in a preview.  A selected tag is enabled; one of its triggers
  is enabled, matches the type of the event and has conditions that evaluate to true in the event's
  context; and if the tag names a consent purpose, that purpose is granted in the consent state.
\<close>
theorem selected_tag_is_entitled:
  assumes "preview_data_of rt registry p event dc oc = Inr d" and "item \<in> set (pd_tags d)"
    and "ti_blocked item = None"
  shows "ti_tag item \<in> set (payload_tags p) \<and> tag_enabled (ti_tag item)
    \<and> (\<exists>t \<in> set (payload_triggers p). trigger_id t \<in> set (tag_trigger_ids (ti_tag item))
         \<and> trigger_enabled t \<and> trigger_type_matches (trigger_type t) (ev_type (pd_event d))
         \<and> evaluate_condition (trigger_conditions t) (VDict (pd_context d)) = Inr True)
    \<and> (\<forall>purpose. tag_consent_purpose (ti_tag item) = Some purpose \<longrightarrow>
         map_of (pd_consent d) purpose = Some True)"
proof -
  from preview_parts(5) [OF assms(1)] assms(2) obtain ev t where t: "t \<in> set (payload_tags p)"
    and item: "item = tag_item_of registry p (index_by resolved_id (pd_resolutions d)) ev
       (pd_consent d) (matched_ids (pd_triggers d)) t"
    by auto
  from assms(3) have free: "tag_enabled t" "filter (\<lambda>i. i \<in> set (matched_ids (pd_triggers d))) (tag_trigger_ids t) \<noteq> []"
    "\<forall>purpose. tag_consent_purpose t = Some purpose \<longrightarrow> map_of (pd_consent d) purpose = Some True"
    by (simp_all add: item tag_item_parts not_blocked)
  from free(2) obtain i where "i \<in> set (tag_trigger_ids t)" "i \<in> set (matched_ids (pd_triggers d))"
    by (auto simp: filter_empty_conv)
  with matched_trigger_fired [OF preview_parts(4) [OF assms(1)]] t free(1,3) show ?thesis
    unfolding item tag_item_parts by blast
qed

definition preview_payload :: payload where
  "preview_payload = \<lparr>
     payload_tags = [sample_tag\<lparr>tag_trigger_ids := [''t1''], tag_consent_purpose := Some ''ads''\<rparr>],
     payload_triggers = [\<lparr>trigger_id = ''t1'', trigger_name = ''all'', trigger_type = ''custom_event'',
       trigger_conditions = ALL_TRUE, trigger_priority = 0, trigger_enabled = True\<rparr>],
     payload_variables = [], payload_destinations = [sample_destination]\<rparr>"

definition preview_input :: pyval where
  "preview_input = VDict [(''name'', VStr ''buy''), (''consent'', VDict [(''ads'', VBool True)])]"

lemmas preview_defs = preview_data_of_def preview_payload_def preview_input_def normalize_event_def
  nonempty_text_def mapping_field_def page_with_path_def consent_map_def consent_item_def
  consent_state_def get_or_def resolve_all_def match_triggers_def match_trigger_def
  ordered_triggers_def trigger_type_matches_def TRIGGER_EVENT_TYPES_def ALL_TRUE_def dict_update_def
  dict_item_def tag_item_of_def matched_ids_def blocked_reason_def sample_tag_def

lemma preview_selects:
  "\<exists>d item. preview_data_of witness_runtime [] preview_payload preview_input [] [] = Inr d
     \<and> item \<in> set (pd_tags d) \<and> ti_blocked item = None \<and> pd_consent d = [(''ads'', True)]"
  by (simp add: preview_defs evaluate_condition.simps Let_def split_def, simp add: image_iff)

theorem selected_tag_is_entitled_witness:
  "\<exists>(d :: preview_data) (item :: tag_item). ti_blocked item = None \<and> ti_tag item \<in> set (payload_tags preview_payload)
    \<and> map_of (pd_consent d) ''ads'' = Some True"
proof -
  from preview_selects obtain d item where
    "preview_data_of witness_runtime [] preview_payload preview_input [] [] = Inr d"
    "item \<in> set (pd_tags d)" "ti_blocked item = None" by blast
  with selected_tag_is_entitled [OF this] show ?thesis
    by (intro exI [of _ d] exI [of _ item]) (auto simp: preview_payload_def)
qed

text \<open>
  Precedence of consent: a purpose is decided by the caller's override if it names it, else by
  the event's consent, else by the stored consent, else by the container's default.
\<close>
theorem consent_precedence:
  assumes "consent_state e dc oc = Inr c" and "distinct (keys (ev_stored_consent e))"
    and "distinct (keys (ev_consent e))" and "consent_map (VDict dc) ''default_consent'' = Inr base"
    and "consent_map (VDict oc) ''consent'' = Inr override" and "distinct (keys override)"
  shows "map_of c = map_of base ++ map_of (ev_stored_consent e) ++ map_of (ev_consent e) ++ map_of override"
  using assms by (rule map_of_consent_state)

theorem consent_precedence_witness:
  "map_of [(''ads'', False)] = map_of [(''ads'', True)] ++ map_of [] ++ map_of [(''ads'', True)]
     ++ map_of [(''ads'', False)]"
  using consent_precedence [of "\<lparr>ev_name = ''n'', ev_type = ''t'', ev_properties = [], ev_page = [],
      ev_dom = [], ev_data_layer = [], ev_consent = [(''ads'', True)], ev_stored_consent = []\<rparr>"
      "[(''ads'', VBool True)]" "[(''ads'', VBool False)]" "[(''ads'', False)]" "[(''ads'', True)]"
      "[(''ads'', False)]"]
  by (simp add: consent_state_def consent_map_def consent_item_def dict_update_def)

text \<open>
  Redaction is complete and stable: at every depth of the result, through objects and lists, a
  key that looks sensitive holds the redaction mark, and redacting again changes nothing.
\<close>
theorem redaction_complete:
  "redacted (redact v) \<and> redact (redact v) = redact v"
  using redact_redacted redact_fixed by blast

text \<open>
  Triggers are visited by descending priority, ties in declaration order, each exactly once.
\<close>
theorem trigger_order:
  "mset (map snd (ordered_triggers ts)) = mset ts
    \<and> sorted_wrt (\<lambda>(i, t) (j, u). trigger_priority t > trigger_priority u
         \<or> trigger_priority t = trigger_priority u \<and> i \<le> j) (ordered_triggers ts)"
  using mset_ordered ordered_by_priority by blast

text \<open>
  A preview of a well-formed payload fails only with a \<open>ValueError\<close> (of which
  \<open>ValidationError\<close> is a subclass), whatever value is passed as the event: variables, adapters and
  destinations never make it fail.
\<close>
theorem preview_fails_with_value_errors:
  assumes "wf_payload rt p" and "preview_data_of rt registry p event dc oc = Inl x"
  shows "is_value_error x"
  using preview_error [OF assms(2,1)] .

theorem preview_fails_with_value_errors_witness:
  "is_value_error (ValidationError ''event must be a JSON object'')"
  by (rule preview_fails_with_value_errors [OF wf_sample_payload, of "[]" VNone "[]" "[]"])
    (simp add: preview_data_of_def normalize_event_def)

end
