(* ===== verification/Drafting.thy ===== *)
theory Drafting
  imports Preview Models
begin

section \<open>Recommendations to draft configuration (control/draft.py)\<close>

text \<open>
  A discovery recommendation becomes a tag and the trigger that fires it.  A recommendation is a
  mapping or an object, of which the code reads the attributes by name.  The fresh ids the code draws
  come from a supply, numbered in the order of the draws.
\<close>

datatype recommendation = RMapping pydict | RObject pydict

definition TRIGGER_TYPE_MAP :: "(string, string) dict" where
  "TRIGGER_TYPE_MAP = [(''click'', ''click''), (''submit'', ''form_submit''),
     (''form_submit'', ''form_submit''), (''page_view'', ''page_view''),
     (''route_change'', ''route_change'')]"

text \<open>\<open>str(v)\<close>, and the double 0.7 of the confidence test.\<close>

definition py_str :: "py_runtime \<Rightarrow> pyval \<Rightarrow> string" where
  "py_str rt v = (case v of VStr s \<Rightarrow> s | _ \<Rightarrow> py_repr rt v)"

definition LOW_CONFIDENCE :: py_float where
  "LOW_CONFIDENCE = Fin (3152519739159347 / 4503599627370496)"

text \<open>\<open>list(x or ())\<close>.\<close>

definition list_or_empty :: "pyval \<Rightarrow> pyval res" where
  "list_or_empty v = (if truthy v then bindR (py_iter v) (\<lambda>xs. Inr (VList xs)) else Inr (VList []))"

definition nonempty_field :: "pydict \<Rightarrow> string \<Rightarrow> string res" where
  "nonempty_field data key = (case get_or data key VNone of
     VStr s \<Rightarrow> if s = []
       then Inl (ValidationError (''recommendation.'' @ key @ '' must be a non-empty string'')) else Inr s
   | _ \<Rightarrow> Inl (ValidationError (''recommendation.'' @ key @ '' must be a non-empty string'')))"

definition RECOMMENDATION_DEFAULTS :: pydict where
  "RECOMMENDATION_DEFAULTS = [
     (''trigger_type'', VStr ''custom_event''),
     (''selector_fallbacks'', VList []),
     (''event_category'', VStr []),
     (''business_objective'', VStr []),
     (''confidence'', VFloat (Fin 0)),
     (''rationale'', VStr []),
     (''page_url'', VStr [])]"

definition as_mapping :: "recommendation \<Rightarrow> pydict res" where
  "as_mapping r =
     bindR (case r of
         RMapping d \<Rightarrow> Inr d
       | RObject a \<Rightarrow> bindR (list_or_empty (get_or a ''selector_fallbacks'' (VList []))) (\<lambda>fallbacks. Inr [
           (''event_name'', get_or a ''event_name'' VNone),
           (''trigger_type'', get_or a ''trigger_type'' VNone),
           (''selector'', get_or a ''selector'' VNone),
           (''selector_fallbacks'', fallbacks),
           (''event_category'', get_or a ''event_category'' (VStr [])),
           (''business_objective'', get_or a ''business_objective'' (VStr [])),
           (''confidence'', get_or a ''confidence'' (VFloat (Fin 0))),
           (''rationale'', get_or a ''rationale'' (VStr [])),
           (''page_url'', get_or a ''page_url'' (VStr []))])) (\<lambda>data.
     bindR (nonempty_field data ''event_name'') (\<lambda>_.
     bindR (nonempty_field data ''selector'') (\<lambda>_.
     Inr (foldl set_default data RECOMMENDATION_DEFAULTS))))"

definition warnings_for :: "pydict \<Rightarrow> string list \<Rightarrow> string option \<Rightarrow> string list" where
  "warnings_for data destination_ids consent_purpose =
     (if destination_ids = [] then [''No destination selected; the draft has no destination_ids.''] else [])
     @ (if consent_purpose = None
        then [''No consent purpose declared; the draft is not consent-gated.''] else [])
     @ (case num_of (get_or data ''confidence'' VNone) of
          Some x \<Rightarrow> if float_lt x LOW_CONFIDENCE
            then [''Low discovery confidence; review before approval.''] else []
        | None \<Rightarrow> [])
     @ (case get_or data ''selector'' (VStr []) of
          VStr s \<Rightarrow> if str_contains ''>'' s \<or> str_contains '':nth-child'' s
            then [''Selector is positional and may be brittle across page changes.''] else []
        | _ \<Rightarrow> [])
     @ (if \<not> truthy (get_or data ''page_url'' VNone)
        then [''Recommendation has no source page URL.''] else [])"

record draft_conversion =
  dc_tag :: tag
  dc_trigger :: trigger
  dc_warnings :: "string list"

definition draft_conversion_to_dict :: "draft_conversion \<Rightarrow> pyval" where
  "draft_conversion_to_dict c = VDict [
     (''tag'', tag_to_dict (dc_tag c)),
     (''trigger'', trigger_to_dict (dc_trigger c)),
     (''warnings'', str_list (dc_warnings c))]"

text \<open>The field \<open>event_name\<close> of a mapping \<open>_as_mapping\<close> returned.\<close>

definition event_name_field :: "pydict \<Rightarrow> string" where
  "event_name_field data = (case get_or data ''event_name'' VNone of VStr s \<Rightarrow> s | _ \<Rightarrow> [])"

definition selector_field :: "pydict \<Rightarrow> string" where
  "selector_field data = (case get_or data ''selector'' VNone of VStr s \<Rightarrow> s | _ \<Rightarrow> [])"

definition draft_condition :: "string \<Rightarrow> pyval" where
  "draft_condition event_name = VDict [
     (''op'', VStr ''equals''), (''path'', VStr ''event.name''), (''value'', VStr event_name)]"

definition draft_trigger_type :: "py_runtime \<Rightarrow> pydict \<Rightarrow> string" where
  "draft_trigger_type rt data =
     (case map_of TRIGGER_TYPE_MAP (py_str rt (get_or data ''trigger_type'' VNone)) of
        Some t \<Rightarrow> t | None \<Rightarrow> ''custom_event'')"

definition draft_from_recommendation ::
    "py_runtime \<Rightarrow> string \<Rightarrow> string \<Rightarrow> recommendation \<Rightarrow> string \<Rightarrow> string list \<Rightarrow> string option
     \<Rightarrow> draft_conversion res" where
  "draft_from_recommendation rt trigger_uuid tag_uuid recommendation akey destination_ids consent_purpose =
     bindR (as_mapping recommendation) (\<lambda>data.
     let event_name = event_name_field data; kind = draft_trigger_type rt data in
     bindR (trigger_create rt trigger_uuid (event_name @ '' - '' @ kind) kind
       (Some (draft_condition event_name)) 0 True) (\<lambda>trigger.
     let warnings = warnings_for data destination_ids consent_purpose in
     bindR (tag_create rt tag_uuid event_name akey (py_str rt (get_or data ''rationale'' (VStr [])))
       [(''event_name'', VStr event_name),
        (''event_category'', get_or data ''event_category'' (VStr [])),
        (''business_objective'', get_or data ''business_objective'' (VStr []))]
       [trigger_id trigger] [] consent_purpose destination_ids True ''1'' []
       (Some [(''recommendation'', VDict data), (''warnings'', str_list warnings)])) (\<lambda>tag.
     Inr \<lparr>dc_tag = tag, dc_trigger = trigger, dc_warnings = warnings\<rparr>)))"

text \<open>
  The loop over the recommendations: the conversions made so far, the warnings, the identities seen.
  Conversion number \<open>n\<close> draws the fresh ids \<open>2 n\<close> and \<open>2 n + 1\<close>.
\<close>

fun draft_loop ::
    "py_runtime \<Rightarrow> (nat \<Rightarrow> string) \<Rightarrow> string \<Rightarrow> string list \<Rightarrow> string option \<Rightarrow> recommendation list
     \<Rightarrow> draft_conversion list \<Rightarrow> string list \<Rightarrow> (string \<times> string) list
     \<Rightarrow> (draft_conversion list \<times> string list) res" where
  "draft_loop rt ids akey destination_ids consent_purpose [] made warnings seen = Inr (made, warnings)"
| "draft_loop rt ids akey destination_ids consent_purpose (r # rs) made warnings seen =
     bindR (as_mapping r) (\<lambda>data.
       let identity = (event_name_field data, selector_field data); n = length made in
       if identity \<in> set seen
       then draft_loop rt ids akey destination_ids consent_purpose rs made
         (warnings @ [''Duplicate recommendation '' @ fst identity @ ''@'' @ snd identity @ '' was skipped.'']) seen
       else bindR (draft_from_recommendation rt (ids (2 * n)) (ids (2 * n + 1)) (RMapping data)
           akey destination_ids consent_purpose) (\<lambda>c.
         draft_loop rt ids akey destination_ids consent_purpose rs (made @ [c])
           (warnings @ dc_warnings c) (identity # seen)))"

record draft_payload =
  dp_payload :: payload
  dp_warnings :: "string list"

definition draft_payload_to_dict :: "draft_payload \<Rightarrow> pyval" where
  "draft_payload_to_dict d = VDict [
     (''payload'', payload_to_dict (dp_payload d)),
     (''warnings'', str_list (dp_warnings d))]"

text \<open>\<open>dict.fromkeys(warnings)\<close> keeps the first occurrence of each.\<close>

definition draft_payload_from_recommendations ::
    "py_runtime \<Rightarrow> (nat \<Rightarrow> string) \<Rightarrow> recommendation list \<Rightarrow> string \<Rightarrow> string list \<Rightarrow> string option
     \<Rightarrow> draft_payload res" where
  "draft_payload_from_recommendations rt ids recommendations akey destination_ids consent_purpose =
     bindR (draft_loop rt ids akey destination_ids consent_purpose recommendations [] [] [])
       (\<lambda>(made, warnings).
     if made = [] then Inl (ValidationError ''no recommendations were provided for draft conversion'')
     else Inr \<lparr>dp_payload = payload_empty\<lparr>payload_tags := map dc_tag made,
         payload_triggers := map dc_trigger made\<rparr>,
       dp_warnings = rev (remdups (rev warnings))\<rparr>)"

subsection \<open>Laws\<close>

definition linked :: "draft_conversion \<Rightarrow> bool" where
  "linked c \<longleftrightarrow> tag_trigger_ids (dc_tag c) = [trigger_id (dc_trigger c)]
     \<and> trigger_conditions (dc_trigger c) = draft_condition (tag_name (dc_tag c))
     \<and> trigger_enabled (dc_trigger c) \<and> tag_enabled (dc_tag c)"

lemma validate_draft_condition:
  "validate_condition rt (draft_condition n) = Inr w \<Longrightarrow> w = draft_condition n"
  by (auto simp: draft_condition_def validate_condition_def res_simps validate_node.simps validate_value_def
      dict_item_def check_keys_def LOGICAL_OPS_def COMPARISON_OPS_def NUMERIC_OPS_def STRING_OPS_def
      split: if_splits)

lemma draft_from_recommendation_Inr:
  assumes "draft_from_recommendation rt i j r k ds cp = Inr c" and "is_uuid i" and "is_uuid j"
  shows "wf_tag (dc_tag c)" "wf_trigger rt (dc_trigger c)" "trigger_id (dc_trigger c) = i"
    "tag_id (dc_tag c) = j" "linked c" "\<exists>data. as_mapping r = Inr data \<and> tag_name (dc_tag c) = event_name_field data"
proof -
  from assms(1) obtain data t g where d: "as_mapping r = Inr data"
    and g: "trigger_create rt i (event_name_field data @ '' - '' @ draft_trigger_type rt data)
       (draft_trigger_type rt data) (Some (draft_condition (event_name_field data))) 0 True = Inr g"
    and t: "tag_create rt j (event_name_field data) k (py_str rt (get_or data ''rationale'' (VStr [])))
       [(''event_name'', VStr (event_name_field data)),
        (''event_category'', get_or data ''event_category'' (VStr [])),
        (''business_objective'', get_or data ''business_objective'' (VStr []))]
       [trigger_id g] [] cp ds True ''1'' []
       (Some [(''recommendation'', VDict data), (''warnings'', str_list (warnings_for data ds cp))]) = Inr t"
    and c: "c = \<lparr>dc_tag = t, dc_trigger = g, dc_warnings = warnings_for data ds cp\<rparr>"
    by (auto simp: draft_from_recommendation_def bindR_Inr_iff Let_def)
  from trigger_create_wf [OF g assms(2)] tag_create_wf [OF t assms(3)] c
  show "wf_tag (dc_tag c)" "wf_trigger rt (dc_trigger c)" "trigger_id (dc_trigger c) = i"
    "tag_id (dc_tag c) = j" by simp_all
  have "trigger_conditions g = draft_condition (event_name_field data)" "trigger_enabled g"
    using g by (auto simp: trigger_create_def bindR_Inr_iff cfg_bool_Inr dest!: validate_draft_condition)
  moreover have "tag_trigger_ids t = [trigger_id g]" "tag_name t = event_name_field data" "tag_enabled t"
    using t by (auto simp: tag_create_def bindR_Inr_iff id_list_Inr validate_name_Inr)
  ultimately show "linked c" "\<exists>data. as_mapping r = Inr data \<and> tag_name (dc_tag c) = event_name_field data"
    using c d by (auto simp: linked_def)
qed

lemma set_default_keep: "map_of d k = Some v \<Longrightarrow> map_of (foldl set_default d xs) k = Some v"
proof (induction xs arbitrary: d)
  case (Cons p xs)
  have "map_of (set_default d p) k = Some v"
    using Cons.prems map_of_eq_None_keys [of d k] by (auto simp: set_default_def)
  with Cons.IH show ?case by simp
qed simp

lemma put_other: "k \<notin> fst ` set xs \<Longrightarrow> map_of (foldl (\<lambda>d (k, v). dict_put d k v) d xs) k = map_of d k"
  by (induction xs arbitrary: d) auto

lemma set_default_other: "k \<notin> set (keys xs) \<Longrightarrow> map_of (foldl set_default d xs) k = map_of d k"
  by (induction xs arbitrary: d) (auto simp: set_default_def keys_def)

lemma as_mapping_fields:
  assumes "as_mapping (RMapping d) = Inr d'"
  shows "event_name_field d' = event_name_field d"
  using assms set_default_other [of "''event_name''" RECOMMENDATION_DEFAULTS d]
  by (auto simp: as_mapping_def bindR_Inr_iff event_name_field_def get_or_def RECOMMENDATION_DEFAULTS_def)

definition identity_of :: "pydict \<Rightarrow> string \<times> string" where
  "identity_of data = (event_name_field data, selector_field data)"

definition loop_inv :: "py_runtime \<Rightarrow> (nat \<Rightarrow> string) \<Rightarrow> draft_conversion list \<Rightarrow> (string \<times> string) list \<Rightarrow> bool" where
  "loop_inv rt ids made seen \<longleftrightarrow>
     (\<forall>c \<in> set made. wf_tag (dc_tag c) \<and> wf_trigger rt (dc_trigger c) \<and> linked c)
     \<and> map (\<lambda>c. trigger_id (dc_trigger c)) made = map (\<lambda>n. ids (2 * n)) [0..<length made]
     \<and> map (\<lambda>c. tag_id (dc_tag c)) made = map (\<lambda>n. ids (2 * n + 1)) [0..<length made]
     \<and> distinct seen \<and> map (\<lambda>c. tag_name (dc_tag c)) made = map fst (rev seen)"

lemma loop_inv_step:
  assumes "loop_inv rt ids made seen" and "\<And>n. is_uuid (ids n)" and "identity_of data \<notin> set seen"
    and "draft_from_recommendation rt (ids (2 * length made)) (ids (2 * length made + 1)) (RMapping data)
      k ds cp = Inr c"
  shows "loop_inv rt ids (made @ [c]) (identity_of data # seen)"
proof -
  note c = draft_from_recommendation_Inr [OF assms(4,2,2)]
  from c(6) as_mapping_fields have "tag_name (dc_tag c) = fst (identity_of data)"
    by (auto simp: identity_of_def)
  with assms(1,3) c(1-5) show ?thesis by (auto simp: loop_inv_def)
qed

lemma draft_loop_inv:
  assumes "draft_loop rt ids k ds cp rs made ws seen = Inr (made', ws')" and "loop_inv rt ids made seen"
    and "\<And>n. is_uuid (ids n)"
  shows "\<exists>datas seen'. mapR as_mapping rs = Inr datas \<and> loop_inv rt ids made' seen'
    \<and> set seen' = set seen \<union> identity_of ` set datas \<and> length made' \<le> length made + length rs"
  using assms(1,2)
proof (induction rs arbitrary: made ws seen)
  case (Cons r rs)
  from Cons.prems(1) obtain data where data: "as_mapping r = Inr data"
    by (auto simp: bindR_Inr_iff)
  note fold = identity_of_def [symmetric]
  show ?case
  proof (cases "identity_of data \<in> set seen")
    case True
    with Cons.prems(1) data have "\<exists>ws. draft_loop rt ids k ds cp rs made ws seen = Inr (made', ws')"
      by (auto simp: Let_def fold)
    with Cons.IH Cons.prems(2) obtain datas seen' where "mapR as_mapping rs = Inr datas"
      "loop_inv rt ids made' seen'" "set seen' = set seen \<union> identity_of ` set datas"
      "length made' \<le> length made + length rs" by blast
    with True data show ?thesis by (intro exI [of _ "data # datas"] exI [of _ seen']) auto
  next
    case False
    with Cons.prems(1) data obtain c ws2 where
      c: "draft_from_recommendation rt (ids (2 * length made)) (ids (2 * length made + 1)) (RMapping data)
        k ds cp = Inr c"
      and rest: "draft_loop rt ids k ds cp rs (made @ [c]) ws2 (identity_of data # seen) = Inr (made', ws')"
      by (auto simp: Let_def fold bindR_Inr_iff)
    from Cons.IH [OF rest loop_inv_step [OF Cons.prems(2) assms(3) False c]] obtain datas seen' where
      "mapR as_mapping rs = Inr datas" "loop_inv rt ids made' seen'"
      "set seen' = set (identity_of data # seen) \<union> identity_of ` set datas"
      "length made' \<le> length (made @ [c]) + length rs" by blast
    with data show ?thesis by (intro exI [of _ "data # datas"] exI [of _ seen']) auto
  qed
qed auto

lemma loop_inv_payload:
  assumes "loop_inv rt ids made seen" and "inj_on ids {..<2 * length made}"
  shows "wf_payload rt (payload_empty\<lparr>payload_tags := map dc_tag made, payload_triggers := map dc_trigger made\<rparr>)"
proof -
  have "distinct (map (\<lambda>n. ids (2 * n)) [0..<length made])" "distinct (map (\<lambda>n. ids (2 * n + 1)) [0..<length made])"
    using assms(2) by (auto simp: distinct_map intro!: inj_onI dest!: inj_onD)
  with assms(1) show ?thesis
    by (auto simp: wf_payload_def payload_empty_def loop_inv_def comp_def)
qed

subsection \<open>Properties\<close>

text \<open>
  A draft made from recommendations, with fresh UUIDs distinct among the ones drawn, is a well-formed payload with
  exactly one tag per distinct pair of event name and selector, named after the event; the \<open>i\<close>-th tag
  is enabled and fired by the \<open>i\<close>-th trigger alone, which asks for the event of that name.
\<close>
theorem draft_is_well_formed:
  assumes "draft_payload_from_recommendations rt ids rs akey ds cp = Inr d"
    and "\<And>n. is_uuid (ids n)" and "inj_on ids {..<2 * length rs}"
  shows "wf_payload rt (dp_payload d) \<and> payload_tags (dp_payload d) \<noteq> []
    \<and> list_all2 (\<lambda>t g. tag_enabled t \<and> tag_trigger_ids t = [trigger_id g] \<and> trigger_enabled g
         \<and> trigger_conditions g = draft_condition (tag_name t))
       (payload_tags (dp_payload d)) (payload_triggers (dp_payload d))
    \<and> (\<exists>datas identities. mapR as_mapping rs = Inr datas \<and> distinct identities
         \<and> set identities = identity_of ` set datas
         \<and> map tag_name (payload_tags (dp_payload d)) = map fst identities)"
proof -
  from assms(1) obtain made ws where loop: "draft_loop rt ids akey ds cp rs [] [] [] = Inr (made, ws)"
    and d: "made \<noteq> []" "dp_payload d = payload_empty\<lparr>payload_tags := map dc_tag made,
      payload_triggers := map dc_trigger made\<rparr>"
    by (auto simp: draft_payload_from_recommendations_def bindR_Inr_iff split: if_splits)
  have "loop_inv rt ids [] []" by (simp add: loop_inv_def)
  from draft_loop_inv [OF loop this assms(2)] obtain datas seen where
    seen: "mapR as_mapping rs = Inr datas" "loop_inv rt ids made seen" "set seen = identity_of ` set datas"
      and few: "length made \<le> length rs"
    by auto
  have "inj_on ids {..<2 * length made}" by (rule inj_on_subset [OF assms(3)]) (use few in auto)
  note wf = loop_inv_payload [OF seen(2) this]
  have "map tag_name (payload_tags (dp_payload d)) = map fst (rev seen)" "distinct (rev seen)"
    "list_all2 (\<lambda>t g. tag_enabled t \<and> tag_trigger_ids t = [trigger_id g] \<and> trigger_enabled g
         \<and> trigger_conditions g = draft_condition (tag_name t)) (map dc_tag made) (map dc_trigger made)"
    using seen(2) d(2) by (auto simp: loop_inv_def comp_def linked_def list_all2_conv_all_nth)
  with d seen wf show ?thesis
    by (intro conjI exI [of _ datas] exI [of _ "rev seen"]) (simp_all add: payload_empty_def)
qed

definition sample_ids :: "nat \<Rightarrow> string" where
  "sample_ids n = (if n = 0 then ''00000000-0000-4000-8000-00000000000a''
     else ''00000000-0000-4000-8000-00000000000b'')"

definition sample_recommendation :: recommendation where
  "sample_recommendation = RMapping [(''event_name'', VStr ''buy''), (''selector'', VStr ''b'')]"

lemma sample_ids_uuid: "is_uuid (sample_ids n)"
  by (simp add: sample_ids_def is_uuid_def is_lower_hex_def is_decimal_def)

lemma validate_sample_condition:
  "validate_condition witness_runtime (draft_condition ''buy'') = Inr (draft_condition ''buy'')"
proof -
  have "utf8_length (json_dumps witness_runtime (cond_dict (CCompare ''equals'' ''event.name'' (VStr ''buy''))))
    \<le> MAX_CONDITION_BYTES"
    by (simp add: json_str_def json_char_def utf8_length_def MAX_CONDITION_BYTES_def)
  then show ?thesis
    using validate_condition_complete [of "CCompare ''equals'' ''event.name'' (VStr ''buy'')" witness_runtime]
    by (simp add: draft_condition_def op_lists good_path_def validate_path_def unsafe_segment_def
      value_fits_def ALLOWED_NAMESPACES_def MAX_PATH_LENGTH_def MAX_CONDITION_NODES_def is_alnum_def
      is_lower_latin_def)
qed

definition sample_data :: pydict where
  "sample_data = [(''event_name'', VStr ''buy''), (''selector'', VStr ''b'')] @ RECOMMENDATION_DEFAULTS"

lemma as_mapping_sample:
  "as_mapping sample_recommendation = Inr sample_data" "as_mapping (RMapping sample_data) = Inr sample_data"
  by (simp_all add: as_mapping_def sample_recommendation_def sample_data_def nonempty_field_def get_or_def
      set_default_def RECOMMENDATION_DEFAULTS_def)

lemma sample_names: "good_name ''buy''" "good_name ''buy - custom_event''"
  by (simp_all add: good_name_def validate_name_def py_strip_def py_lstrip_def is_space_def is_control_def
      MAX_NAME_LENGTH_def)

lemma sample_data_fields:
  "event_name_field sample_data = ''buy''" "draft_trigger_type rt sample_data = ''custom_event''"
  "finite_val (VDict sample_data)"
  "get_or sample_data ''rationale'' (VStr []) = VStr []" "get_or sample_data ''event_category'' (VStr []) = VStr []"
  "get_or sample_data ''business_objective'' (VStr []) = VStr []"
  by (simp_all add: sample_data_def RECOMMENDATION_DEFAULTS_def event_name_field_def draft_trigger_type_def
      get_or_def py_str_def TRIGGER_TYPE_MAP_def)

lemma draft_conversion_sample:
  "\<exists>c. draft_from_recommendation witness_runtime (sample_ids 0) (sample_ids 1) (RMapping sample_data)
     ''ga4_event'' [] None = Inr c"
proof -
  obtain g where g: "trigger_create witness_runtime (sample_ids 0) ''buy - custom_event'' ''custom_event''
      (Some (draft_condition ''buy'')) 0 True = Inr g"
    using validate_sample_condition sample_names
    by (simp add: trigger_create_def cfg_string_def check_trigger_type_def TRIGGER_TYPES_def cfg_int_def cfg_bool_def)
  then have "trigger_id g = sample_ids 0" using trigger_create_wf [OF g sample_ids_uuid] by blast
  then have "\<exists>t. tag_create witness_runtime (sample_ids 1) ''buy'' ''ga4_event'' []
       [(''event_name'', VStr ''buy''), (''event_category'', VStr []), (''business_objective'', VStr [])]
       [trigger_id g] [] None [] True ''1'' []
       (Some [(''recommendation'', VDict sample_data), (''warnings'', str_list ws)]) = Inr t" for ws
    using sample_names sample_data_fields(3)
    by (simp add: tag_create_def cfg_string_def cfg_mapping_def id_list_def str_list_def sample_ids_uuid
        cfg_purpose_def opt_str_def DEFAULT_COMPATIBILITY_def)
  with g show ?thesis
    by (simp add: draft_from_recommendation_def as_mapping_sample sample_data_fields py_str_def Let_def)
      (metis bindR_simps(2))
qed

lemma draft_sample:
  "\<exists>d. draft_payload_from_recommendations witness_runtime sample_ids [sample_recommendation] ''ga4_event'' [] None
     = Inr d"
  using draft_conversion_sample
  by (auto simp: draft_payload_from_recommendations_def as_mapping_sample Let_def)

theorem draft_is_well_formed_witness:
  "\<exists>p. wf_payload witness_runtime p \<and> payload_tags p \<noteq> []"
proof -
  from draft_sample obtain d where d: "draft_payload_from_recommendations witness_runtime sample_ids
    [sample_recommendation] ''ga4_event'' [] None = Inr d" ..
  have "inj_on sample_ids {..<2 * length [sample_recommendation]}"
    by (auto simp: inj_on_def sample_ids_def)
  from draft_is_well_formed [OF d sample_ids_uuid this] show ?thesis by blast
qed

text \<open>
  The trigger of a draft fires on its event and no other: in the context of a preview its
  condition is true exactly when the event has the recommended name, whatever the event's properties,
  the consent and the variables.
\<close>
theorem draft_trigger_fires_on_its_event:
  "evaluate_condition (draft_condition n) (VDict (condition_context e consent vars)) = Inr (ev_name e = n)"
proof -
  have "map_of (event_core e) ''name'' = Some (VStr (ev_name e))"
    unfolding event_core_def Let_def
    by (rule set_default_keep, subst put_other) auto
  then show ?thesis
    by (simp add: draft_condition_def evaluate_condition.simps condition_context_def get_or_def
        dict_item_def resolve_path_def compare_op_def strict_equal_def is_bool_def is_number_def
        eq_commute [of n])
qed

end
