(* ===== verification/Service.thy ===== *)
theory Service
  imports Store Revision_Diff Drafting Validation
begin

section \<open>The control-plane service: scopes, containers, revisions (control/service.py)\<close>

text \<open>
  Each method of \<open>ControlPlaneService\<close> runs under the store lock, so it is one operation on the world.
  \<open>AuditEvent.create\<close>, \<open>Workspace.create\<close> and the like draw their id and timestamp here and then
  validate.
\<close>

definition DEFAULT_ORGANIZATION_NAME :: string where "DEFAULT_ORGANIZATION_NAME = ''Default organization''"
definition DEFAULT_WORKSPACE_NAME :: string where "DEFAULT_WORKSPACE_NAME = ''Default workspace''"

text \<open>\<open>except NotFoundError\<close>, and an optional text in an f-string.\<close>

definition on_not_found :: "'a res \<Rightarrow> 'a res \<Rightarrow> 'a res" where
  "on_not_found r h = (case r of Inl (NotFoundError _) \<Rightarrow> h | _ \<Rightarrow> r)"

definition opt_text :: "string option \<Rightarrow> string" where
  "opt_text x = (case x of None \<Rightarrow> ''None'' | Some s \<Rightarrow> s)"

definition opt_repr :: "string option \<Rightarrow> string" where
  "opt_repr x = (case x of None \<Rightarrow> ''None'' | Some s \<Rightarrow> repr_str s)"

definition stamped :: "machine \<Rightarrow> (string \<Rightarrow> string \<Rightarrow> 'a res) \<Rightarrow> 'a op" where
  "stamped m build = bindW (new_id m) (\<lambda>i. bindW (utc_now m) (\<lambda>now. liftW (build i now)))"

subsection \<open>Scopes\<close>

definition meta_id :: "pydict \<Rightarrow> string \<Rightarrow> string option" where
  "meta_id meta key = (case get_or meta key VNone of VStr s \<Rightarrow> Some s | _ \<Rightarrow> None)"

definition new_workspace :: "machine \<Rightarrow> string \<Rightarrow> string \<Rightarrow> string \<Rightarrow> workspace op" where
  "new_workspace m org name created_by =
     bindW (stamped m (\<lambda>i now. workspace_create (m_rt m) i now org name created_by)) (\<lambda>ws.
     bindW (save_workspace m ws) (\<lambda>_. retW ws))"

definition first_workspace :: "machine \<Rightarrow> string \<Rightarrow> workspace op" where
  "first_workspace m org = bindW (readW (list_workspaces m org)) (\<lambda>wss.
     case wss of ws # _ \<Rightarrow> retW ws | [] \<Rightarrow> new_workspace m org DEFAULT_WORKSPACE_NAME ''local'')"

definition ensure_default_scope :: "machine \<Rightarrow> (string \<times> string) op" where
  "ensure_default_scope m = bindW (readW (read_meta m)) (\<lambda>meta.
     case meta_id meta ''default_org_id'' of
       Some org \<Rightarrow>
         bindW (readW (\<lambda>w. on_not_found (get_organization m org w)
           (Inl (CorruptStoreError (''default organization '' @ org @ '' is missing from the store''))))) (\<lambda>x.
         case meta_id meta ''default_workspace_id'' of
           Some ws \<Rightarrow> bindW (readW (\<lambda>w. on_not_found (get_workspace m org ws w)
             (Inl (CorruptStoreError (''default workspace '' @ ws @ '' is missing from the store'')))))
             (\<lambda>y. retW (org_id x, ws_id y))
         | None \<Rightarrow> bindW (first_workspace m org) (\<lambda>ws.
             bindW (write_meta m (dict_put meta ''default_workspace_id'' (VStr (ws_id ws)))) (\<lambda>_.
             retW (org_id x, ws_id ws))))
     | None \<Rightarrow>
         bindW (readW (list_organizations m)) (\<lambda>orgs.
         bindW (case orgs of
             x # _ \<Rightarrow> retW x
           | [] \<Rightarrow> bindW (stamped m (\<lambda>i now. organization_create i now DEFAULT_ORGANIZATION_NAME ''local'')) (\<lambda>x.
               bindW (save_organization m x) (\<lambda>_. retW x))) (\<lambda>x.
         bindW (first_workspace m (org_id x)) (\<lambda>ws.
         bindW (write_meta m (dict_put (dict_put meta ''default_org_id'' (VStr (org_id x)))
           ''default_workspace_id'' (VStr (ws_id ws)))) (\<lambda>_.
         retW (org_id x, ws_id ws))))))"

definition create_organization :: "machine \<Rightarrow> string \<Rightarrow> string \<Rightarrow> organization op" where
  "create_organization m name created_by =
     bindW (stamped m (\<lambda>i now. organization_create i now name created_by)) (\<lambda>x.
     bindW (save_organization m x) (\<lambda>_.
     bindW (new_workspace m (org_id x) DEFAULT_WORKSPACE_NAME ''local'') (\<lambda>ws.
     bindW (readW (read_meta m)) (\<lambda>meta.
     bindW (if meta_id meta ''default_org_id'' = None
       then write_meta m (dict_put (dict_put meta ''default_org_id'' (VStr (org_id x)))
         ''default_workspace_id'' (VStr (ws_id ws)))
       else retW ()) (\<lambda>_. retW x)))))"

definition organizations_by_name :: "machine \<Rightarrow> world \<Rightarrow> organization list res" where
  "organizations_by_name m w = bindR (list_organizations m w) (\<lambda>xs.
     Inr (sort_key (\<lambda>x. py_casefold (org_name x)) xs))"

definition create_workspace :: "machine \<Rightarrow> string \<Rightarrow> string \<Rightarrow> string \<Rightarrow> workspace op" where
  "create_workspace m org name created_by =
     bindW (readW (get_organization m org)) (\<lambda>_.
     bindW (new_workspace m org name created_by) (\<lambda>ws.
     bindW (readW (read_meta m)) (\<lambda>meta.
     bindW (if meta_id meta ''default_org_id'' = Some org \<and> meta_id meta ''default_workspace_id'' = None
       then write_meta m (dict_put meta ''default_workspace_id'' (VStr (ws_id ws))) else retW ()) (\<lambda>_.
     retW ws))))"

definition workspaces_by_name :: "machine \<Rightarrow> string \<Rightarrow> world \<Rightarrow> workspace list res" where
  "workspaces_by_name m org w = bindR (list_workspaces m org w) (\<lambda>xs.
     Inr (sort_key (\<lambda>x. py_casefold (ws_name x)) xs))"

definition only_workspace :: "string \<Rightarrow> workspace list \<Rightarrow> string res" where
  "only_workspace org wss = (case wss of
     [] \<Rightarrow> Inl (NotFoundError (''organization '' @ org @ '' has no workspaces''))
   | [ws] \<Rightarrow> Inr (ws_id ws)
   | _ \<Rightarrow> Inl (ValidationError ''multiple workspaces exist; specify workspace_id explicitly''))"

definition checked_workspace :: "machine \<Rightarrow> string \<Rightarrow> string \<Rightarrow> (string \<times> string) op" where
  "checked_workspace m org ws = bindW (liftW (validate_id (m_rt m) (VStr ws) ''workspace_id'')) (\<lambda>ws'.
     bindW (readW (get_workspace m org ws')) (\<lambda>x. retW (ws_org_id x, ws_id x)))"

definition resolve_scope :: "machine \<Rightarrow> string option \<Rightarrow> string option \<Rightarrow> (string \<times> string) op" where
  "resolve_scope m org ws = bindW (readW (read_meta m)) (\<lambda>meta.
     case org of
       None \<Rightarrow> bindW (ensure_default_scope m) (\<lambda>(org', default_ws).
         case ws of None \<Rightarrow> retW (org', default_ws) | Some i \<Rightarrow> checked_workspace m org' i)
     | Some o1 \<Rightarrow> bindW (liftW (validate_id (m_rt m) (VStr o1) ''org_id'')) (\<lambda>org'.
         bindW (readW (get_organization m org')) (\<lambda>_.
         let ws' = (if ws = None \<and> meta_id meta ''default_org_id'' = Some org'
           then meta_id meta ''default_workspace_id'' else ws) in
         bindW (case ws' of
             Some i \<Rightarrow> retW i
           | None \<Rightarrow> bindW (readW (list_workspaces m org')) (\<lambda>wss. liftW (only_workspace org' wss)))
           (checked_workspace m org'))))"

subsection \<open>Containers\<close>

definition assert_container_id_available ::
    "machine \<Rightarrow> string \<Rightarrow> string \<Rightarrow> string option \<Rightarrow> world \<Rightarrow> unit res" where
  "assert_container_id_available m org container_id ignore w =
     bindR (normalize_container_id (VStr container_id)) (\<lambda>normalized.
     bindR (list_containers m org w) (\<lambda>cs.
     if list_ex (\<lambda>c. uniqueness_key c = normalized \<and> Some (uniqueness_key c) \<noteq> map_option py_casefold ignore) cs
     then Inl (ConflictError (''container ID '' @ repr_str container_id @ '' already exists in organization '' @ org))
     else Inr ()))"

definition create_container ::
    "machine \<Rightarrow> string \<Rightarrow> string option \<Rightarrow> string option \<Rightarrow> string option \<Rightarrow> string \<Rightarrow> string list
     \<Rightarrow> pydict list \<Rightarrow> string \<Rightarrow> container op" where
  "create_container m container_id name org ws description site_urls external_refs created_by =
     bindW (liftW (validate_container_id (VStr container_id))) (\<lambda>_.
     bindW (resolve_scope m org ws) (\<lambda>(org', ws').
     bindW (readW (assert_container_id_available m org' container_id None)) (\<lambda>_.
     bindW (utc_now m) (\<lambda>now.
     bindW (liftW (container_create (m_rt m) now container_id org' ws' name description site_urls
       external_refs created_by)) (\<lambda>c.
     bindW (save_container m c) (\<lambda>_. retW c))))))"

text \<open>The organization an optional argument denotes.\<close>

definition scope_org :: "machine \<Rightarrow> string option \<Rightarrow> string op" where
  "scope_org m org = (case org of
     None \<Rightarrow> bindW (ensure_default_scope m) (\<lambda>(org', _). retW org')
   | Some o1 \<Rightarrow> bindW (liftW (validate_id (m_rt m) (VStr o1) ''org_id'')) (\<lambda>org'.
       bindW (readW (get_organization m org')) (\<lambda>_. retW org')))"

definition containers_by_id :: "machine \<Rightarrow> string option \<Rightarrow> container list op" where
  "containers_by_id m org = bindW (scope_org m org) (\<lambda>org'.
     bindW (readW (list_containers m org')) (\<lambda>cs. retW (sort_key (\<lambda>c. py_casefold (ct_id c)) cs)))"

definition find_container :: "machine \<Rightarrow> string \<Rightarrow> string option \<Rightarrow> container op" where
  "find_container m container_id org = bindW (scope_org m org) (\<lambda>org'.
     readW (\<lambda>w. on_not_found (get_container m org' container_id w)
       (Inl (NotFoundError (''container '' @ repr_str container_id @ '' not found in organization '' @ org')))))"

subsection \<open>Revisions\<close>

definition record_event ::
    "machine \<Rightarrow> container \<Rightarrow> string \<Rightarrow> string \<Rightarrow> string \<Rightarrow> string option \<Rightarrow> string option \<Rightarrow> string option
     \<Rightarrow> string option \<Rightarrow> string option \<Rightarrow> pydict \<Rightarrow> audit_event op" where
  "record_event m c action actor result env version previous chk previous_chk details =
     bindW (stamped m (\<lambda>i now. audit_create (m_rt m) i now (ct_id c) action actor result env version
       previous chk previous_chk details)) (append_audit_event m c)"

definition expect_parent :: "machine \<Rightarrow> string option \<Rightarrow> string option \<Rightarrow> unit res" where
  "expect_parent m expected_parent latest_version = (case expected_parent of
     None \<Rightarrow> Inr ()
   | Some v \<Rightarrow> bindR (validate_id (m_rt m) (VStr v) ''expected_parent'') (\<lambda>_.
       if Some v \<noteq> latest_version
       then Inl (ConflictError (''expected parent '' @ v @ '' but latest revision is '' @ opt_text latest_version))
       else Inr ()))"

definition next_number :: "revision option \<Rightarrow> pyval" where
  "next_number latest = (case latest of None \<Rightarrow> VInt 1 | Some r \<Rightarrow> VInt (number_of (rev_number r) + 1))"

text \<open>\<open>create_revision\<close> on the container it found.\<close>

definition add_revision ::
    "machine \<Rightarrow> container \<Rightarrow> payload_arg \<Rightarrow> string option \<Rightarrow> string \<Rightarrow> string \<Rightarrow> string \<Rightarrow> revision op" where
  "add_revision m c payload expected_parent created_by notes status =
     bindW (readW (list_revisions m c)) (\<lambda>rs.
     let latest = latest_of rs; latest_version = map_option rev_version latest in
     bindW (liftW (expect_parent m expected_parent latest_version)) (\<lambda>_.
     bindW (stamped m (\<lambda>i now. revision_create (m_rt m) i now (ct_id c) (next_number latest) latest_version
       payload status created_by notes)) (\<lambda>r.
     bindW (save_revision m c r) (\<lambda>_.
     bindW (record_event m c ''revision.created'' created_by ''success'' None (Some (rev_version r))
       (rev_parent r) (Some (rev_checksum r)) None
       [(''revision_number'', rev_number r), (''status'', VStr (rev_status r))]) (\<lambda>_.
     retW r)))))"

definition create_revision ::
    "machine \<Rightarrow> string \<Rightarrow> payload_arg \<Rightarrow> string option \<Rightarrow> string option \<Rightarrow> string \<Rightarrow> string \<Rightarrow> string
     \<Rightarrow> revision op" where
  "create_revision m container_id payload org expected_parent created_by notes status =
     bindW (find_container m container_id org) (\<lambda>c.
     add_revision m c payload expected_parent created_by notes status)"

definition find_revision :: "machine \<Rightarrow> string \<Rightarrow> container \<Rightarrow> string \<Rightarrow> world \<Rightarrow> revision res" where
  "find_revision m container_id c version w = on_not_found (get_revision m c version w)
     (Inl (NotFoundError (''revision '' @ repr_str version @ '' not found for container '' @ repr_str container_id)))"

definition service_get_revision :: "machine \<Rightarrow> string \<Rightarrow> string \<Rightarrow> string option \<Rightarrow> revision op" where
  "service_get_revision m container_id version org =
     bindW (find_container m container_id org) (\<lambda>c. readW (find_revision m container_id c version))"

definition service_list_revisions :: "machine \<Rightarrow> string \<Rightarrow> string option \<Rightarrow> revision list op" where
  "service_list_revisions m container_id org =
     bindW (find_container m container_id org) (\<lambda>c. readW (list_revisions m c))"

definition load_revision ::
    "machine \<Rightarrow> string \<Rightarrow> string option \<Rightarrow> string option \<Rightarrow> (container \<times> revision) op" where
  "load_revision m container_id version org =
     bindW (find_container m container_id org) (\<lambda>c.
     bindW (readW (list_revisions m c)) (\<lambda>rs.
     if rs = []
     then raiseW (NotFoundError (''container '' @ repr_str container_id @ '' has no configuration revisions''))
     else case version of
       None \<Rightarrow> retW (c, last rs)
     | Some v \<Rightarrow> bindW (liftW (validate_id (m_rt m) (VStr v) ''config_version'')) (\<lambda>v'.
         bindW (readW (find_revision m container_id c v')) (\<lambda>r. retW (c, r)))))"

text \<open>\<open>validate_config_payload(payload)\<close> with the default registry.\<close>

definition default_validation :: "machine \<Rightarrow> payload \<Rightarrow> validation_report res" where
  "default_validation m p = bindR default_adapter_registry (\<lambda>registry.
     validate_config_payload (m_rt m) registry p)"

definition validate_config :: "machine \<Rightarrow> string \<Rightarrow> string option \<Rightarrow> string option \<Rightarrow> validation_report op" where
  "validate_config m container_id version org =
     bindW (load_revision m container_id version org) (\<lambda>(_, r). liftW (default_validation m (rev_payload r)))"

definition service_preview ::
    "machine \<Rightarrow> string \<Rightarrow> pyval \<Rightarrow> string option \<Rightarrow> string option \<Rightarrow> pydict \<Rightarrow> pydict \<Rightarrow> pyval \<Rightarrow> pyval op" where
  "service_preview m container_id event version org default_consent consent timing =
     bindW (load_revision m container_id version org) (\<lambda>(c, r).
     liftW (bindR default_adapter_registry (\<lambda>registry.
       preview_event (m_rt m) registry (rev_payload r) event (Some (ct_id c)) (Some (rev_version r))
         (Some (rev_status r)) default_consent consent timing)))"

record draft_result =
  dr_revision :: revision
  dr_warnings :: "string list"
  dr_tags :: nat
  dr_triggers :: nat

definition draft_result_to_dict :: "draft_result \<Rightarrow> pyval" where
  "draft_result_to_dict d = VDict [
     (''config_version'', VStr (rev_version (dr_revision d))),
     (''revision_number'', rev_number (dr_revision d)),
     (''status'', VStr (rev_status (dr_revision d))),
     (''checksum'', VStr (rev_checksum (dr_revision d))),
     (''warnings'', str_list (dr_warnings d)),
     (''tag_count'', VInt (int (dr_tags d))),
     (''trigger_count'', VInt (int (dr_triggers d)))]"

text \<open>The conversion draws two ids per tag; the ids a failed conversion drew are never used again.\<close>

definition draft_op ::
    "machine \<Rightarrow> recommendation list \<Rightarrow> string \<Rightarrow> string list \<Rightarrow> string option \<Rightarrow> draft_payload op" where
  "draft_op m rs akey destination_ids consent_purpose w =
     (let r = draft_payload_from_recommendations (m_rt m) (\<lambda>n. m_new_id m (w_drawn w + n)) rs akey
        destination_ids consent_purpose
      in (r, w\<lparr>w_drawn := w_drawn w + 2 * (case r of Inr d \<Rightarrow> length (payload_tags (dp_payload d))
           | Inl _ \<Rightarrow> length rs)\<rparr>))"

definition create_draft_from_recommendations ::
    "machine \<Rightarrow> string \<Rightarrow> recommendation list \<Rightarrow> string \<Rightarrow> string list \<Rightarrow> string option \<Rightarrow> string option
     \<Rightarrow> string option \<Rightarrow> string \<Rightarrow> string \<Rightarrow> draft_result op" where
  "create_draft_from_recommendations m container_id rs akey destination_ids consent_purpose org
      expected_parent created_by notes =
     bindW (draft_op m rs akey destination_ids consent_purpose) (\<lambda>d.
     bindW (create_revision m container_id (Parsed (dp_payload d)) org expected_parent created_by notes ''draft'')
       (\<lambda>r. retW \<lparr>dr_revision = r, dr_warnings = dp_warnings d,
         dr_tags = length (payload_tags (dp_payload d)),
         dr_triggers = length (payload_triggers (dp_payload d))\<rparr>))"

definition service_diff ::
    "machine \<Rightarrow> string \<Rightarrow> string option \<Rightarrow> string option \<Rightarrow> string option \<Rightarrow> revision_diff op" where
  "service_diff m container_id from_version to_version org =
     bindW (find_container m container_id org) (\<lambda>c.
     bindW (readW (list_revisions m c)) (\<lambda>rs.
     if rs = []
     then raiseW (NotFoundError (''container '' @ repr_str container_id @ '' has no configuration revisions''))
     else
       bindW (case to_version of None \<Rightarrow> retW (last rs) | Some v \<Rightarrow> readW (get_revision m c v)) (\<lambda>revision_to.
       bindW (case from_version of
           None \<Rightarrow> (case rev_parent revision_to of
               None \<Rightarrow> raiseW (ValidationError ''revision has no parent; specify --from explicitly'')
             | Some parent \<Rightarrow> readW (get_revision m c parent))
         | Some v \<Rightarrow> readW (get_revision m c v)) (\<lambda>revision_from.
       liftW (diff_revisions (m_rt m) revision_from revision_to)))))"

subsection \<open>Environments\<close>

text \<open>\<open>create_environment\<close> on the container it found.\<close>

definition add_environment :: "machine \<Rightarrow> container \<Rightarrow> string \<Rightarrow> bool \<Rightarrow> string \<Rightarrow> environment op" where
  "add_environment m c name protected created_by =
     bindW (readW (list_environments m c)) (\<lambda>es.
     bindW (liftW (anyR (\<lambda>e. bindR (validate_name (VStr name)) (\<lambda>name'.
       Inr (py_casefold (env_label e) = py_casefold name'))) es)) (\<lambda>taken.
     if taken
     then raiseW (ConflictError (''environment name '' @ repr_str name @ '' already exists in container ''
       @ repr_str (ct_id c)))
     else
       bindW (stamped m (\<lambda>i now. environment_create (m_rt m) i now (ct_org_id c) (ct_id c) name protected
         created_by)) (\<lambda>e.
       bindW (save_environment m c e) (\<lambda>_.
       bindW (record_event m c ''environment.created'' created_by ''success'' (Some (env_id e)) None None None None
         [(''name'', VStr (env_label e)), (''protected'', VBool (env_protected e))]) (\<lambda>_.
       retW e)))))"

definition create_environment ::
    "machine \<Rightarrow> string \<Rightarrow> string \<Rightarrow> bool \<Rightarrow> string option \<Rightarrow> string \<Rightarrow> environment op" where
  "create_environment m container_id name protected org created_by =
     bindW (find_container m container_id org) (\<lambda>c. add_environment m c name protected created_by)"

definition service_list_environments :: "machine \<Rightarrow> string \<Rightarrow> string option \<Rightarrow> environment list op" where
  "service_list_environments m container_id org =
     bindW (find_container m container_id org) (\<lambda>c. readW (list_environments m c))"

definition resolve_environment :: "machine \<Rightarrow> container \<Rightarrow> string \<Rightarrow> world \<Rightarrow> environment res" where
  "resolve_environment m c ref w =
     bindR (case validate_id (m_rt m) (VStr ref) ''environment_id'' of
         Inl _ \<Rightarrow> Inr None
       | Inr i \<Rightarrow> on_not_found (bindR (get_environment m c i w) (\<lambda>e. Inr (Some e))) (Inr None)) (\<lambda>found.
     case found of
       Some e \<Rightarrow> Inr e
     | None \<Rightarrow> bindR (list_environments m c w) (\<lambda>es.
         case filter (\<lambda>e. py_casefold (env_label e) = py_casefold ref) es of
           [] \<Rightarrow> Inl (NotFoundError (''environment '' @ repr_str ref @ '' not found in container '' @ repr_str (ct_id c)))
         | [e] \<Rightarrow> Inr e
         | _ \<Rightarrow> Inl (ConflictError (''environment name '' @ repr_str ref @ '' is ambiguous in container ''
             @ repr_str (ct_id c)))))"

definition service_get_environment :: "machine \<Rightarrow> string \<Rightarrow> string \<Rightarrow> string option \<Rightarrow> environment op" where
  "service_get_environment m container_id ref org =
     bindW (find_container m container_id org) (\<lambda>c. readW (resolve_environment m c ref))"

subsection \<open>Audit log and container reports\<close>

definition service_list_audit_events :: "machine \<Rightarrow> string \<Rightarrow> int option \<Rightarrow> string option \<Rightarrow> audit_event list op" where
  "service_list_audit_events m container_id limit org =
     (if (case limit of None \<Rightarrow> False | Some n \<Rightarrow> n < 1)
      then raiseW (ValidationError ''limit must be a positive integer'')
      else bindW (find_container m container_id org) (\<lambda>c.
        bindW (readW (list_audit_events m c)) (\<lambda>es.
        retW (case limit of None \<Rightarrow> rev es | Some n \<Rightarrow> take (nat n) (rev es)))))"

record container_report =
  cr_container_id :: string
  cr_count :: nat
  cr_latest_version :: "string option"
  cr_latest_checksum :: "string option"
  cr_objects :: nat
  cr_schema :: string

definition container_report_to_dict :: "container_report \<Rightarrow> pyval" where
  "container_report_to_dict r = VDict [
     (''container_id'', VStr (cr_container_id r)),
     (''revision_count'', VInt (int (cr_count r))),
     (''latest_config_version'', opt_str (cr_latest_version r)),
     (''latest_checksum'', opt_str (cr_latest_checksum r)),
     (''payload_objects'', VInt (int (cr_objects r))),
     (''schema_version'', VStr (cr_schema r)),
     (''valid'', VBool True)]"

definition validate_container :: "machine \<Rightarrow> string \<Rightarrow> string option \<Rightarrow> container_report op" where
  "validate_container m container_id org =
     bindW (find_container m container_id org) (\<lambda>c.
     bindW (readW (list_revisions m c)) (\<lambda>rs.
     bindW (liftW (mapR (\<lambda>r. bindR (verify_revision (m_rt m) r) (\<lambda>_.
       ensure_supported_schema (m_rt m) (VStr (rev_schema r)))) rs)) (\<lambda>_.
     retW \<lparr>cr_container_id = ct_id c, cr_count = length rs,
       cr_latest_version = map_option rev_version (latest_of rs),
       cr_latest_checksum = map_option rev_checksum (latest_of rs),
       cr_objects = (case latest_of rs of None \<Rightarrow> 0 | Some r \<Rightarrow> object_count (rev_payload r)),
       cr_schema = CURRENT_SCHEMA_VERSION\<rparr>)))"

subsection \<open>What the operations leave alone\<close>

interpretation agree: frame "agree_on dir"
  by unfold_locales (simp_all add: agree_on_def)

lemma agree_on_files: "w_files w' = w_files w \<Longrightarrow> agree_on dir w w'"
  by (simp add: agree_on_def)

lemma draws_agree: "keeps (agree_on dir) (new_id m)" "keeps (agree_on dir) (utc_now m)"
  by (simp_all add: keeps_def op_simps agree_on_def)

lemma stamped_agree: "keeps (agree_on dir) (stamped m build)"
  unfolding stamped_def by (intro agree.rules draws_agree)

lemma stamped_grows: "keeps grows (stamped m build)"
  unfolding stamped_def by (intro grows.rules) (simp_all add: keeps_def op_simps grows_def)

lemma write_exclusive_agree: "\<not> in_dir dir p \<Longrightarrow> keeps (agree_on dir) (write_document_exclusive m p kind v)"
  using write_document_exclusive_run [of m p kind v]
  by (auto simp: keeps_def agree_on_put agree.refl) (metis agree.refl agree_on_put prod.collapse)

lemma write_agree: "\<not> in_dir dir p \<Longrightarrow> keeps (agree_on dir) (write_document m p kind v)"
  using write_document_run [of m p kind v]
  by (auto simp: keeps_def agree_on_put agree.refl) (metis agree.refl agree_on_put prod.collapse)

lemma keeps_lift_bind:
  assumes "frame P" and "\<And>x. r = Inr x \<Longrightarrow> keeps P (f x)"
  shows "keeps P (bindW (liftW r) f)"
proof (cases r)
  case (Inl e)
  then show ?thesis using frame.refl [OF assms(1)] by (simp add: keeps_def bindW_def op_simps)
next
  case (Inr x)
  with assms(2) [OF Inr] show ?thesis by (simp add: keeps_def bindW_def op_simps)
qed

lemma append_audit_event_agree:
  assumes "\<And>a. audit_dir m c = Inr a \<Longrightarrow> a \<noteq> dir"
  shows "keeps (agree_on dir) (append_audit_event m c e)"
  unfolding append_audit_event_def Let_def
  by (intro agree.rules keeps_lift_bind agree.frame_axioms write_exclusive_agree) (use assms in auto)

lemma record_event_agree:
  assumes "\<And>a. audit_dir m c = Inr a \<Longrightarrow> a \<noteq> dir"
  shows "keeps (agree_on dir) (record_event m c action actor result env version previous chk pchk details)"
  unfolding record_event_def
  by (intro agree.rules stamped_agree append_audit_event_agree assms)

lemma record_event_grows:
  "keeps grows (record_event m c action actor result env version previous chk pchk details)"
  unfolding record_event_def by (intro grows.rules stamped_grows append_audit_event_grows)

lemma save_revision_agree:
  assumes "\<And>a. revision_dir m c = Inr a \<Longrightarrow> a \<noteq> dir"
  shows "keeps (agree_on dir) (save_revision m c r)"
  unfolding save_revision_def
  by (intro agree.rules keeps_lift_bind agree.frame_axioms write_exclusive_agree) (use assms in auto)

lemma save_environment_agree:
  assumes "\<And>a. environment_dir m c = Inr a \<Longrightarrow> a \<noteq> dir"
  shows "keeps (agree_on dir) (save_environment m c e)"
  unfolding save_environment_def
  by (intro agree.rules keeps_lift_bind agree.frame_axioms write_agree) (use assms in auto)

lemma add_revision_agree:
  assumes "\<And>a. revision_dir m c = Inr a \<Longrightarrow> a \<noteq> dir" and "\<And>a. audit_dir m c = Inr a \<Longrightarrow> a \<noteq> dir"
  shows "keeps (agree_on dir) (add_revision m c payload parent by' notes status)"
  unfolding add_revision_def Let_def
  by (intro agree.rules stamped_agree save_revision_agree record_event_agree assms)

lemma add_revision_grows: "keeps grows (add_revision m c payload parent by' notes status)"
  unfolding add_revision_def Let_def
  by (intro grows.rules stamped_grows save_revision_grows record_event_grows)

lemma grows_load: "grows w w' \<Longrightarrow> load m kind parse p w = Inr x \<Longrightarrow> load m kind parse p w' = Inr x"
proof -
  assume g: "grows w w'" and l: "load m kind parse p w = Inr x"
  from l have "map_of (w_files w) p \<noteq> None"
    by (cases "map_of (w_files w) p") (auto simp: load_def read_document_def)
  with g have "map_of (w_files w') p = map_of (w_files w) p"
    by (simp add: grows_def map_le_def dom_def)
  with l show ?thesis by (simp add: load_cong [of w' p w])
qed

lemma grows_get_revision: "grows w w' \<Longrightarrow> get_revision m c v w = Inr r \<Longrightarrow> get_revision m c v w' = Inr r"
  unfolding get_revision_def bindR_Inr_iff Let_def by (elim exE conjE) (fastforce dest: grows_load)

subsection \<open>Creating a revision\<close>

text \<open>A machine whose fresh ids are UUIDs and whose timestamps are not empty.\<close>

definition good_machine :: "machine \<Rightarrow> bool" where
  "good_machine m \<longleftrightarrow> (\<forall>n. is_uuid (m_new_id m n)) \<and> (\<forall>n. m_now m n \<noteq> [])"

lemma good_machineD: "good_machine m \<Longrightarrow> is_uuid (m_new_id m n)" "good_machine m \<Longrightarrow> m_now m n \<noteq> []"
  by (simp_all add: good_machine_def)

lemma stamped_Inr:
  "stamped m build w = (Inr x, w') \<longleftrightarrow> build (m_new_id m (w_drawn w)) (m_now m (w_ticks w)) = Inr x
     \<and> w' = w\<lparr>w_drawn := Suc (w_drawn w), w_ticks := Suc (w_ticks w)\<rparr>"
  by (auto simp: stamped_def op_simps)

definition arg_ok :: "py_runtime \<Rightarrow> payload_arg \<Rightarrow> bool" where
  "arg_ok rt a = (case a of Parsed p \<Rightarrow> wf_payload rt p | _ \<Rightarrow> True)"

lemma parse_payload_arg_wf: "arg_ok rt a \<Longrightarrow> parse_payload_arg rt a = Inr p \<Longrightarrow> wf_payload rt p"
  by (auto simp: arg_ok_def parse_payload_arg_def wf_payload_empty split: payload_arg.splits
      intro: payload_codec.parse_inv)

text \<open>Versions of a history: numbered from 1, each the parent of the next.\<close>

definition chain :: "revision list \<Rightarrow> bool" where
  "chain rs \<longleftrightarrow> (\<forall>i < length rs. number_of (rev_number (rs ! i)) = int i + 1
     \<and> rev_parent (rs ! i) = (if i = 0 then None else Some (rev_version (rs ! (i - 1)))))"

lemma chain_Nil [simp]: "chain []"
  by (simp add: chain_def)

lemma chain_snoc:
  "chain (rs @ [r]) \<longleftrightarrow> chain rs \<and> number_of (rev_number r) = int (length rs) + 1
     \<and> rev_parent r = map_option rev_version (latest_of rs)"
proof -
  have "(\<forall>i < length (rs @ [r]). P i) \<longleftrightarrow> (\<forall>i < length rs. P i) \<and> P (length rs)" for P
    by (auto simp: less_Suc_eq)
  then show ?thesis
    unfolding chain_def by (cases rs rule: rev_cases) (auto simp: nth_append latest_of_def)
qed

lemma chain_last_number: "chain rs \<Longrightarrow> rs \<noteq> [] \<Longrightarrow> number_of (rev_number (last rs)) = int (length rs)"
  by (cases rs rule: rev_cases) (auto simp: chain_snoc)

lemma sorted_numbers: "list_revisions m c w = Inr rs \<Longrightarrow> sorted (map (\<lambda>r. number_of (rev_number r)) rs)"
  by (auto simp: list_revisions_def bindR_Inr_iff)

lemma next_number_above:
  assumes "list_revisions m c w = Inr rs" and "y \<in> set rs"
  shows "number_of (rev_number y) < number_of (next_number (latest_of rs))"
proof -
  let ?k = "\<lambda>r. number_of (rev_number r)"
  from assms(2) have "rs \<noteq> []" by auto
  then obtain zs z where rs: "rs = zs @ [z]" by (cases rs rule: rev_cases) auto
  with sorted_numbers [OF assms(1)] assms(2) have "?k y \<le> ?k z" by (auto simp: sorted_append)
  then show ?thesis by (simp add: next_number_def latest_of_def rs number_of_def)
qed

definition event_of_revision :: "machine \<Rightarrow> container \<Rightarrow> string \<Rightarrow> revision \<Rightarrow> audit_event op" where
  "event_of_revision m c by' r = record_event m c ''revision.created'' by' ''success'' None
     (Some (rev_version r)) (rev_parent r) (Some (rev_checksum r)) None
     [(''revision_number'', rev_number r), (''status'', VStr (rev_status r))]"

lemma add_revision_saved:
  assumes "good_machine m" and "arg_ok (m_rt m) payload"
    and "list_revisions m c w = Inr rs" and "expect_parent m parent (map_option rev_version (latest_of rs)) = Inr u"
    and "stamped m (\<lambda>i now. revision_create (m_rt m) i now (ct_id c) (next_number (latest_of rs))
      (map_option rev_version (latest_of rs)) payload status by' notes) w = (Inr r, w1)"
    and "save_revision m c r w1 = (Inr u', w2)"
  shows "wf_revision (m_rt m) r" and "list_revisions m c w2 = Inr (rs @ [r])"
    and "get_revision m c (rev_version r) w2 = Inr r"
    and "rev_number r = next_number (latest_of rs)" "rev_parent r = map_option rev_version (latest_of rs)"
proof -
  let ?i = "m_new_id m (w_drawn w)"
  from assms(5) have r: "revision_create (m_rt m) ?i (m_now m (w_ticks w)) (ct_id c) (next_number (latest_of rs))
      (map_option rev_version (latest_of rs)) payload status by' notes = Inr r" and w1: "w_files w1 = w_files w"
    by (auto simp: stamped_Inr)
  note facts = revision_create_Inr [OF r]
  from facts show num: "rev_number r = next_number (latest_of rs)"
    and "rev_parent r = map_option rev_version (latest_of rs)" by blast+
  from facts assms(2) have "wf_payload (m_rt m) (rev_payload r)" by (blast intro: parse_payload_arg_wf)
  with revision_create_wf [OF r] assms(1) show wf: "wf_revision (m_rt m) r"
    by (simp add: good_machineD)
  from save_revision_Inr [OF assms(6) wf] obtain dir where "revision_dir m c = Inr dir" by blast
  from list_revisions_agree [OF this agree_on_files [OF w1]] assms(3)
  have "list_revisions m c w1 = Inr rs" by simp
  from list_revisions_after_save [OF assms(6) wf this] num next_number_above [OF assms(3)]
  show "list_revisions m c w2 = Inr (rs @ [r])" by simp
  from get_revision_after_save [OF assms(6) wf] show "get_revision m c (rev_version r) w2 = Inr r" .
qed

lemma add_revision_Inr:
  assumes "add_revision m c payload parent by' notes status w = (Inr r, w')"
    and "good_machine m" and "arg_ok (m_rt m) payload"
  shows "\<exists>rs. list_revisions m c w = Inr rs \<and> list_revisions m c w' = Inr (rs @ [r])
    \<and> get_revision m c (rev_version r) w' = Inr r \<and> rev_number r = next_number (latest_of rs)
    \<and> rev_parent r = map_option rev_version (latest_of rs) \<and> wf_revision (m_rt m) r
    \<and> (\<forall>v. parent = Some v \<longrightarrow> rev_parent r = Some v)"
proof -
  from assms(1) obtain rs w1 w2 where rs: "list_revisions m c w = Inr rs"
    and ep: "expect_parent m parent (map_option rev_version (latest_of rs)) = Inr ()"
    and st: "stamped m (\<lambda>i now. revision_create (m_rt m) i now (ct_id c) (next_number (latest_of rs))
      (map_option rev_version (latest_of rs)) payload status by' notes) w = (Inr r, w1)"
    and sv: "save_revision m c r w1 = (Inr (), w2)"
    and ev: "\<exists>e. event_of_revision m c by' r w2 = (Inr e, w')"
    by (auto simp: add_revision_def op_simps Let_def event_of_revision_def)
  note saved = add_revision_saved [OF assms(2,3) rs ep st sv]
  from save_revision_Inr [OF sv saved(1)] obtain dir where dir: "revision_dir m c = Inr dir" by blast
  have "audit_dir m c = Inr a \<Longrightarrow> a \<noteq> dir" for a using dir by (auto simp: dirs_def sub_dir_Inr)
  then have "keeps (agree_on dir) (event_of_revision m c by' r)"
    unfolding event_of_revision_def by (rule record_event_agree)
  with ev have ag: "agree_on dir w2 w'" by (auto dest: keepsD)
  have "rev_parent r = Some v" if "parent = Some v" for v
    using ep that unfolding saved(5)
    by (simp add: expect_parent_def bindR_Inr_iff split: if_splits) (metis map_option_eq_Some)
  with saved rs list_revisions_agree [OF dir ag] get_revision_agree [OF dir ag] show ?thesis by auto
qed

lemma record_event_Inr:
  assumes "record_event m c action actor result env version previous chk pchk details w = (Inr s, w')"
    and "good_machine m"
  shows "\<exists>es. list_audit_events m c w = Inr es \<and> list_audit_events m c w' = Inr (es @ [s])
    \<and> au_sequence s = next_sequence es \<and> au_action s = action \<and> au_actor s = actor \<and> au_result s = result
    \<and> au_environment_id s = env \<and> au_config_version s = version \<and> au_previous_version s = previous
    \<and> au_checksum s = chk \<and> au_previous_checksum s = pchk \<and> au_details s = details"
proof -
  let ?w1 = "w\<lparr>w_drawn := Suc (w_drawn w), w_ticks := Suc (w_ticks w)\<rparr>"
  have w1: "w_files ?w1 = w_files w" by simp
  from assms(1) obtain e where e: "audit_create (m_rt m) (m_new_id m (w_drawn w)) (m_now m (w_ticks w)) (ct_id c)
      action actor result env version previous chk pchk details = Inr e"
    and ap: "append_audit_event m c e ?w1 = (Inr s, w')"
    unfolding record_event_def bindW_Inr stamped_Inr by blast
  from audit_create_wf [OF e] assms(2) have wf: "wf_audit_event e" by (simp add: good_machineD)
  from append_audit_event_Inr [OF ap wf] obtain es dir where
    a: "list_audit_events m c ?w1 = Inr es" "s = e\<lparr>au_sequence := next_sequence es\<rparr>"
      "audit_dir m c = Inr dir" "list_audit_events m c w' = Inr (es @ [s])" by blast
  with list_audit_events_agree [OF a(3) agree_on_files [OF w1]] e show ?thesis
    by (auto simp: audit_create_Inr)
qed

lemma add_revision_events:
  assumes "add_revision m c payload parent by' notes status w = (Inr r, w')"
    and "good_machine m" and "arg_ok (m_rt m) payload"
  shows "\<exists>es e. list_audit_events m c w = Inr es \<and> list_audit_events m c w' = Inr (es @ [e])
    \<and> au_action e = ''revision.created'' \<and> au_config_version e = Some (rev_version r)
    \<and> au_checksum e = Some (rev_checksum r)"
proof -
  let ?w1 = "w\<lparr>w_drawn := Suc (w_drawn w), w_ticks := Suc (w_ticks w)\<rparr>"
  from assms(1) obtain w2 e where sv: "save_revision m c r ?w1 = (Inr (), w2)"
    and ev: "record_event m c ''revision.created'' by' ''success'' None (Some (rev_version r)) (rev_parent r)
       (Some (rev_checksum r)) None [(''revision_number'', rev_number r), (''status'', VStr (rev_status r))] w2
      = (Inr e, w')"
    by (auto simp: add_revision_def op_simps Let_def stamped_Inr)
  from record_event_Inr [OF ev assms(2)] obtain es where es: "list_audit_events m c w2 = Inr es"
    "list_audit_events m c w' = Inr (es @ [e])" "au_action e = ''revision.created''"
    "au_config_version e = Some (rev_version r)" "au_checksum e = Some (rev_checksum r)" by blast
  from es(1) obtain dir where dir: "audit_dir m c = Inr dir"
    by (auto simp: list_audit_events_def bindR_Inr_iff)
  then have "revision_dir m c = Inr a \<Longrightarrow> a \<noteq> dir" for a by (auto simp: dirs_def sub_dir_Inr)
  from keepsD [OF save_revision_agree [OF this] sv] have "agree_on dir ?w1 w2" by blast
  then have "agree_on dir w w2" by (simp add: agree_on_def)
  from list_audit_events_agree [OF dir this] es show ?thesis by auto
qed

lemma audit_dir_ok: "wf_container c \<Longrightarrow> \<exists>dir. container_dir m (ct_org_id c) (ct_id c) = Inr dir"
  by (rule container_dir_ok) (simp_all add: wf_container_def)

text \<open>When the audit log can be read and the next fresh id is new in it, an event is recorded.\<close>

lemma record_event_ok:
  assumes "good_machine m" and "wf_container c" and "audit_dir m c = Inr dir"
    and "list_audit_events m c w = Inr es" and "\<not> path_exists w (dir @ [json_name (m_new_id m (w_drawn w))])"
    and "action \<noteq> []" and "actor \<noteq> []" and "result = ''success'' \<or> result = ''failed''"
    and "opt_ok is_uuid env" and "opt_ok is_uuid version" and "opt_ok is_uuid previous"
    and "opt_ok (\<lambda>s. s \<noteq> []) chk" and "opt_ok (\<lambda>s. s \<noteq> []) pchk" and "finite_val (VDict details)"
  shows "\<exists>s doc. record_event m c action actor result env version previous chk pchk details w =
    (Inr s, put (dir @ [json_name (m_new_id m (w_drawn w))]) doc
       (w\<lparr>w_drawn := Suc (w_drawn w), w_ticks := Suc (w_ticks w)\<rparr>))"
proof -
  let ?i = "m_new_id m (w_drawn w)" and ?w1 = "w\<lparr>w_drawn := Suc (w_drawn w), w_ticks := Suc (w_ticks w)\<rparr>"
  have "good_container_id (ct_id c)" using assms(2) by (simp add: wf_container_def)
  with assms obtain e where e: "audit_create (m_rt m) ?i (m_now m (w_ticks w)) (ct_id c)
      action actor result env version previous chk pchk details = Inr e"
    by (simp add: audit_create_Inr del: finite_val.simps)
  then have fields: "au_container_id e = ct_id c" "au_id e = ?i" by (auto simp: audit_create_Inr)
  have wf: "wf_audit_event e" using audit_create_wf [OF e] assms(1) by (simp add: good_machineD)
  have "list_audit_events m c ?w1 = Inr es"
    using list_audit_events_agree [OF assms(3) agree_on_files, of ?w1 w] assms(4) by simp
  from append_audit_event_ok [OF wf fields(1) assms(3) this] assms(5) obtain doc where
    "append_audit_event m c e ?w1 = (Inr (e\<lparr>au_sequence := next_sequence es\<rparr>), put (dir @ [json_name ?i]) doc ?w1)"
    by (auto simp: fields path_exists_def)
  moreover have "stamped m (\<lambda>i now. audit_create (m_rt m) i now (ct_id c) action actor result env version
      previous chk pchk details) w = (Inr e, ?w1)"
    using e by (simp add: stamped_Inr)
  ultimately show ?thesis unfolding record_event_def by (auto simp: bindW_step)
qed

lemma add_revision_ok:
  assumes "good_machine m" and "wf_container c" and "container_dir m (ct_org_id c) (ct_id c) = Inr dir"
    and "list_revisions m c w = Inr rs" and "list_audit_events m c w = Inr es"
    and "\<not> path_exists w (dir @ [''revisions'', json_name (m_new_id m (w_drawn w))])"
    and "\<not> path_exists w (dir @ [''audit'', json_name (m_new_id m (w_drawn w + 1))])"
    and "parse_payload_arg (m_rt m) payload = Inr p" and "wf_payload (m_rt m) p"
    and "status \<in> set REVISION_STATUSES" and "by' \<noteq> []"
    and "parent = None \<or> parent = map_option rev_version (latest_of rs)"
  shows "\<exists>r w'. add_revision m c payload parent by' notes status w = (Inr r, w') \<and> w_drawn w' = w_drawn w + 2
    \<and> rev_payload r = p \<and> rev_version r = m_new_id m (w_drawn w) \<and> (\<forall>q. path_exists w' q \<longrightarrow> path_exists w q
      \<or> q = dir @ [''revisions'', json_name (m_new_id m (w_drawn w))]
      \<or> q = dir @ [''audit'', json_name (m_new_id m (w_drawn w + 1))])"
proof -
  let ?i = "m_new_id m (w_drawn w)" and ?w1 = "w\<lparr>w_drawn := Suc (w_drawn w), w_ticks := Suc (w_ticks w)\<rparr>"
  have dirs: "revision_dir m c = Inr (dir @ [''revisions''])" "audit_dir m c = Inr (dir @ [''audit''])"
    using assms(3) by (simp_all add: dirs_def sub_dir_def)
  have latest: "opt_ok is_uuid (map_option rev_version (latest_of rs))"
    using list_revisions_wf [OF assms(4)] by (auto simp: latest_of_def wf_revision_def)
  have number: "1 \<le> number_of (next_number (latest_of rs))"
  proof (cases "rs = []")
    case False
    with list_revisions_wf [OF assms(4), of "last rs"] have "1 \<le> number_of (rev_number (last rs))"
      by (simp add: wf_revision_def)
    with False show ?thesis by (simp add: latest_of_def next_number_def number_of_def [of "VInt _"])
  qed (simp add: latest_of_def next_number_def number_of_def)
  have cid: "good_container_id (ct_id c)" using assms(2) by (simp add: wf_container_def)
  have ep: "expect_parent m parent (map_option rev_version (latest_of rs)) = Inr ()"
    using assms(12) latest
    by (cases "map_option rev_version (latest_of rs)") (auto simp: expect_parent_def)
  obtain r where r: "revision_create (m_rt m) ?i (m_now m (w_ticks w)) (ct_id c) (next_number (latest_of rs))
      (map_option rev_version (latest_of rs)) payload status by' notes = Inr r"
  proof -
    have "\<exists>d. revision_checksum (m_rt m) (ct_id c) ?i (next_number (latest_of rs)) SCHEMA_VERSION
        (map_option rev_version (latest_of rs)) p = Inr d"
      using payload_to_dict_finite [OF assms(9)] finite_number_of [OF number]
      by (simp add: revision_checksum_def checksum_def)
    with assms(8,10,11) cid number latest that show thesis
      by (auto simp: revision_create_def mdl_parsers optional_id)
  qed
  then have st: "stamped m (\<lambda>i now. revision_create (m_rt m) i now (ct_id c) (next_number (latest_of rs))
      (map_option rev_version (latest_of rs)) payload status by' notes) w = (Inr r, ?w1)"
    by (simp add: stamped_Inr)
  note facts = revision_create_Inr [OF r]
  have wf: "wf_revision (m_rt m) r"
    using revision_create_wf [OF r] facts assms(1,8,9) by (simp add: good_machineD)
  from revision_file.writes [where m = m and w = ?w1 and p = "dir @ [''revisions'', json_name ?i]", OF wf]
    assms(6) obtain doc where
    "write_document_exclusive m (dir @ [''revisions'', json_name ?i]) ''config_revision'' (revision_to_dict r) ?w1
       = (Inr (), put (dir @ [''revisions'', json_name ?i]) doc ?w1)"
    by (auto simp: path_exists_def)
  then have sv: "save_revision m c r ?w1 = (Inr (), put (dir @ [''revisions'', json_name ?i]) doc ?w1)" (is "_ = (_, ?w2)")
    using facts dirs by (simp add: save_revision_def bindW_def op_simps)
  have "agree_on (dir @ [''audit'']) w ?w2"
    by (auto simp: agree_on_def map_of_put in_dir_def butlast_append)
  from list_audit_events_agree [OF dirs(2) this] assms(5) have au: "list_audit_events m c ?w2 = Inr es" by simp
  have new: "\<not> path_exists ?w2 (dir @ [''audit'', json_name (m_new_id m (w_drawn ?w2))])"
    using assms(7) by (simp add: path_exists_def map_of_put)
  have "rev_checksum r \<noteq> []"
    using facts by (metis revision_checksum_nonempty verify_revision_Inr)
  then obtain s doc' where "record_event m c ''revision.created'' by' ''success'' None
     (Some (rev_version r)) (rev_parent r) (Some (rev_checksum r)) None
     [(''revision_number'', rev_number r), (''status'', VStr (rev_status r))] ?w2 = (Inr s,
       put (dir @ [''audit''] @ [json_name (m_new_id m (w_drawn ?w2))]) doc'
         (?w2\<lparr>w_drawn := Suc (w_drawn ?w2), w_ticks := Suc (w_ticks ?w2)\<rparr>))" (is "_ = (_, ?w3)")
    using record_event_ok [OF assms(1,2) dirs(2) au, of "''revision.created''" by' "''success''" None
       "Some (rev_version r)" "rev_parent r" "Some (rev_checksum r)" None
       "[(''revision_number'', rev_number r), (''status'', VStr (rev_status r))]"] new assms(11) wf
    by (auto simp: wf_revision_def finite_number_of)
  then have "add_revision m c payload parent by' notes status w = (Inr r, ?w3)"
    using assms(4) ep st sv
    by (simp add: add_revision_def Let_def bindW_def op_simps)
  then show ?thesis
    using facts assms(8) by (intro exI [of _ r] exI [of _ ?w3]) (simp add: path_exists_def map_of_put)
qed

lemma on_not_found_Inr:
  "on_not_found r h = Inr x \<longleftrightarrow> r = Inr x \<or> (\<exists>e. r = Inl (NotFoundError e) \<and> h = Inr x)"
proof (cases r)
  case (Inl e)
  then show ?thesis by (cases e) (auto simp: on_not_found_def)
qed (simp add: on_not_found_def)

lemma find_container_Inr:
  "find_container m i org w = (Inr c, w') \<Longrightarrow> \<exists>o1. get_container m o1 i w' = Inr c"
  unfolding find_container_def bindW_Inr op_simps prod.inject on_not_found_Inr by blast

lemma find_container_wf: "find_container m i org w = (Inr c, w') \<Longrightarrow> wf_container c"
  by (auto dest!: find_container_Inr get_container_wf)

lemma create_container_Inr:
  assumes "create_container m i name org ws description urls refs by' w = (Inr c, w')" and "good_machine m"
  shows "wf_container c \<and> ct_id c = i \<and> (\<exists>w1 w2 cs.
    resolve_scope m org ws w = (Inr (ct_org_id c, ct_workspace_id c), w1)
    \<and> list_containers m (ct_org_id c) w1 = Inr cs \<and> (\<forall>d \<in> set cs. uniqueness_key d \<noteq> py_casefold i)
    \<and> save_container m c w2 = (Inr (), w'))"
proof -
  from assms(1) obtain org' ws' w1 where sc: "resolve_scope m org ws w = (Inr (org', ws'), w1)"
    and av: "assert_container_id_available m org' i None w1 = Inr ()"
    and cc: "container_create (m_rt m) (m_now m (w_ticks w1)) i org' ws' name description urls refs by' = Inr c"
    and sv: "save_container m c (w1\<lparr>w_ticks := Suc (w_ticks w1)\<rparr>) = (Inr (), w')"
    by (auto simp: create_container_def op_simps)
  note facts = container_create_Inr [OF cc]
  have "wf_container c" using container_create_wf [OF cc] assms(2) by (simp add: good_machineD)
  moreover from av facts obtain cs where "list_containers m org' w1 = Inr cs"
    "\<forall>d \<in> set cs. uniqueness_key d \<noteq> py_casefold i"
    by (auto simp: assert_container_id_available_def bindR_Inr_iff normalize_container_id_def list_ex_iff
        split: if_splits)
  ultimately show ?thesis using sc sv facts by auto
qed

subsection \<open>A concrete store\<close>

definition document_of :: "string \<Rightarrow> pyval \<Rightarrow> string + pyval" where
  "document_of kind data = Inr (VDict [(''schema_version'', VStr CURRENT_SCHEMA_VERSION),
     (''kind'', VStr kind), (''data'', data)])"

lemma read_document_of:
  "map_of (w_files w) p = Some (document_of kind (VDict d)) \<Longrightarrow> kind \<in> set DOCUMENT_KINDS
     \<Longrightarrow> read_document m p kind w = Inr d"
  by (rule read_written) (auto simp: wrap_document_Inr document_of_def)

definition shop_org :: organization where
  "shop_org = \<lparr>org_id = sample_uuid 98, org_name = ''Shop'', org_created_at = ''2024'', org_created_by = ''local''\<rparr>"

definition shop_workspace :: workspace where
  "shop_workspace = \<lparr>ws_id = sample_uuid 99, ws_org_id = sample_uuid 98, ws_name = ''Shop'',
     ws_created_at = ''2024'', ws_created_by = ''local''\<rparr>"

definition shop_world :: world where
  "shop_world = \<lparr>w_files = [
     (metadata_path, document_of ''store'' (VDict [(''store_id'', VStr (sample_uuid 97)),
       (''created_at'', VStr ''2024''), (''default_org_id'', VNone), (''default_workspace_id'', VNone)])),
     (organization_path (sample_uuid 98), document_of ''organization'' (organization_to_dict shop_org)),
     ([''orgs'', sample_uuid 98, ''workspaces'', json_name (sample_uuid 99)],
       document_of ''workspace'' (workspace_to_dict shop_workspace))], w_drawn = 0, w_ticks = 0\<rparr>"

lemma good_sample_machine: "good_machine sample_machine"
  by (simp add: good_machine_def sample_uuid_ok)

text \<open>The worlds that have the same files near the root.\<close>

definition shop_roots :: "world \<Rightarrow> bool" where
  "shop_roots w \<longleftrightarrow> (\<forall>p. length p \<le> 4 \<longrightarrow> map_of (w_files w) p = map_of (w_files shop_world) p)"

lemma shop_roots_shop: "shop_roots shop_world"
  by (simp add: shop_roots_def)

lemma shop_roots_at:
  assumes "shop_roots w"
  shows "map_of (w_files w) metadata_path = map_of (w_files shop_world) metadata_path"
    and "map_of (w_files w) (organization_path x) = map_of (w_files shop_world) (organization_path x)"
    and "map_of (w_files w) [a, b, c, d] = map_of (w_files shop_world) [a, b, c, d]"
  using assms by (simp_all add: shop_roots_def metadata_path_def organization_path_def)

lemma shop_reads:
  assumes "shop_roots w"
  shows "\<exists>meta. read_meta sample_machine w = Inr meta"
    and "get_workspace sample_machine (sample_uuid 98) (sample_uuid 99) w = Inr shop_workspace"
proof -
  have "read_document sample_machine metadata_path ''store'' w = Inr [
      (''store_id'', VStr (sample_uuid 97)), (''created_at'', VStr ''2024''), (''default_org_id'', VNone),
      (''default_workspace_id'', VNone)]"
    by (rule read_document_of) (simp_all add: shop_roots_at [OF assms] shop_world_def DOCUMENT_KINDS_def)
  then show "\<exists>meta. read_meta sample_machine w = Inr meta"
    by (simp add: read_meta_def META_KEYS_def dict_item_def sample_uuid_ok)
  have "workspace_from_dict rt (workspace_to_dict shop_workspace) = Inr shop_workspace" for rt
    by (rule workspace_reparse) (simp add: wf_workspace_def shop_workspace_def sample_uuid_ok good_shop)
  then show "get_workspace sample_machine (sample_uuid 98) (sample_uuid 99) w = Inr shop_workspace"
  proof -
    assume parse: "\<And>rt. workspace_from_dict rt (workspace_to_dict shop_workspace) = Inr shop_workspace"
    obtain d where d: "workspace_to_dict shop_workspace = VDict d" by (simp add: workspace_to_dict_def)
    have "read_document sample_machine [''orgs'', sample_uuid 98, ''workspaces'', json_name (sample_uuid 99)]
        ''workspace'' w = Inr d"
      by (rule read_document_of)
        (simp_all add: shop_roots_at [OF assms] shop_world_def DOCUMENT_KINDS_def metadata_path_def organization_path_def d [symmetric])
    with parse [unfolded d] show ?thesis
      by (simp add: get_workspace_def workspace_dir_def load_def sample_uuid_ok Let_def)
        (simp add: shop_workspace_def)
  qed
qed

lemma shop_organization:
  assumes "map_of (w_files w) (organization_path (sample_uuid 98)) = Some (document_of ''organization'' (organization_to_dict shop_org))"
  shows "get_organization sample_machine (sample_uuid 98) w = Inr shop_org"
proof -
  have "organization_from_dict rt (organization_to_dict shop_org) = Inr shop_org" for rt
    by (rule organization_reparse) (simp add: wf_organization_def shop_org_def sample_uuid_ok good_shop)
  then have parse: "organization_from_dict rt (organization_to_dict shop_org) = Inr shop_org" for rt .
  obtain d where d: "organization_to_dict shop_org = VDict d" by (simp add: organization_to_dict_def)
  have "read_document sample_machine (organization_path (sample_uuid 98)) ''organization'' w = Inr d"
    by (rule read_document_of) (simp_all add: assms DOCUMENT_KINDS_def d [symmetric])
  with parse [unfolded d] show ?thesis
    by (simp add: get_organization_def load_def sample_uuid_ok) (simp add: shop_org_def)
qed

lemma shop_paths: "path_exists shop_world p \<Longrightarrow> length p \<le> 4"
  by (auto simp: path_exists_def shop_world_def metadata_path_def organization_path_def split: if_splits)

lemma shop_scope:
  assumes "shop_roots w"
  shows "resolve_scope sample_machine (Some (sample_uuid 98)) (Some (sample_uuid 99)) w
     = (Inr (sample_uuid 98, sample_uuid 99), w)"
proof -
  obtain meta where meta: "read_meta sample_machine w = Inr meta" using shop_reads(1) [OF assms] by blast
  have org: "get_organization sample_machine (sample_uuid 98) w = Inr shop_org"
    by (rule shop_organization)
      (simp add: shop_roots_at [OF assms], simp add: shop_world_def metadata_path_def organization_path_def)
  show ?thesis
    using meta org shop_reads(2) [OF assms]
    by (simp add: resolve_scope_def bindW_def op_simps sample_uuid_ok checked_workspace_def shop_workspace_def)
qed

lemma shop_available:
  assumes "good_container_id i"
  shows "assert_container_id_available sample_machine (sample_uuid 98) i None shop_world = Inr ()"
proof -
  have "glob_below shop_world [''orgs'', sample_uuid 98, ''containers''] ''container.json'' = []"
    by (simp add: glob_below_def shop_world_def metadata_path_def organization_path_def)
  then have "list_containers sample_machine (sample_uuid 98) shop_world = Inr []"
    by (simp add: list_containers_def load_all_def sample_uuid_ok)
  with assms show ?thesis
    by (simp add: assert_container_id_available_def normalize_container_id_def)
qed

lemma create_shop:
  "\<exists>c w. create_container sample_machine ''Shop'' None (Some (sample_uuid 98)) (Some (sample_uuid 99)) [] [] []
     ''local'' shop_world = (Inr c, w) \<and> ct_org_id c = sample_uuid 98
     \<and> save_container sample_machine c (shop_world\<lparr>w_ticks := 1\<rparr>) = (Inr (), w)"
proof -
  obtain c where c: "container_create witness_runtime ''2024'' ''Shop'' (sample_uuid 98) (sample_uuid 99) None [] [] []
      ''local'' = Inr c"
    by (simp add: container_create_def mdl_parsers good_shop sample_uuid_ok external_refs_of_def
        object_tuple_def str_list_def string_tuple_def)
  note facts = container_create_Inr [OF c]
  obtain dir where "container_dir sample_machine (ct_org_id c) (ct_id c) = Inr dir"
    using facts container_dir_ok sample_uuid_ok good_shop(1) by metis
  then have "\<exists>w. save_container sample_machine c (shop_world\<lparr>w_ticks := 1\<rparr>) = (Inr (), w)"
    using facts
    by (simp add: save_container_def bindW_def op_simps write_document_def wrap_document_def DOCUMENT_KINDS_def
        container_to_dict_def atomic_write_def put_file_def str_list_def)
  with shop_scope [OF shop_roots_shop] shop_available [OF good_shop(1)] c facts show ?thesis
    by (auto simp: create_container_def bindW_def op_simps good_shop shop_world_def)
qed

text \<open>The store of the witnesses, once its container was created: it has no revision, environment or event yet.\<close>

lemma shop:
  "\<exists>c w dir. find_container sample_machine ''Shop'' (Some (sample_uuid 98)) w = (Inr c, w) \<and> wf_container c
     \<and> ct_id c = ''Shop'' \<and> container_dir sample_machine (ct_org_id c) (ct_id c) = Inr dir \<and> length dir = 4
     \<and> list_revisions sample_machine c w = Inr [] \<and> list_environments sample_machine c w = Inr []
     \<and> list_audit_events sample_machine c w = Inr [] \<and> (\<forall>p. path_exists w p \<longrightarrow> length p \<le> 5)
     \<and> w_drawn w = 0 \<and> finite_val (container_to_dict c) \<and> shop_roots w"
proof -
  obtain c w where cw: "create_container sample_machine ''Shop'' None (Some (sample_uuid 98)) (Some (sample_uuid 99))
      [] [] [] ''local'' shop_world = (Inr c, w)" and org: "ct_org_id c = sample_uuid 98"
    and sv: "save_container sample_machine c (shop_world\<lparr>w_ticks := 1\<rparr>) = (Inr (), w)" (is "save_container _ _ ?w2 = _")
    using create_shop by blast
  from create_container_Inr [OF cw good_sample_machine] have wf: "wf_container c" "ct_id c = ''Shop''"
    by blast+
  obtain dir where dir: "container_dir sample_machine (ct_org_id c) (ct_id c) = Inr dir"
    using audit_dir_ok [OF wf(1)] by blast
  then have len: "length dir = 4" by (auto simp: container_dir_Inr)
  from sv dir have wr: "write_document sample_machine (dir @ [''container.json'']) ''container''
      (container_to_dict c) ?w2 = (Inr (), w)"
    by (auto simp: save_container_def op_simps)
  from write_document_run [OF wr] obtain doc where w: "w = put (dir @ [''container.json'']) doc ?w2" by auto
  have paths: "length p \<le> 5" if "path_exists w p" for p
    using that len shop_paths [of p] by (auto simp: w path_exists_def map_of_put split: if_splits)
  have none: "glob_json w (dir @ [n]) = []" for n
  proof -
    have "\<not> in_dir (dir @ [n]) p" if "path_exists w p" for p
      using paths [OF that] len by (auto simp: in_dir_def dest!: arg_cong [of "butlast p" _ length])
    then have "set (glob_json w (dir @ [n])) = {}" by (auto simp: set_glob_json)
    then show ?thesis by simp
  qed
  have lists: "list_revisions sample_machine c w = Inr []" "list_environments sample_machine c w = Inr []"
    "list_audit_events sample_machine c w = Inr []"
    using dir none by (simp_all add: list_revisions_def list_environments_def list_audit_events_def load_all_def
      dirs_def sub_dir_def)
  have "get_organization sample_machine (sample_uuid 98) w = Inr shop_org"
    using len
    by (intro shop_organization) (auto simp: w map_of_put shop_world_def metadata_path_def organization_path_def)
  moreover have "load sample_machine ''container'' (container_from_dict witness_runtime) (dir @ [''container.json'']) w = Inr c"
    using container_writes [OF wf(1) wr] by simp
  ultimately have "find_container sample_machine ''Shop'' (Some (sample_uuid 98)) w = (Inr c, w)"
    using dir wf org
    by (simp add: find_container_def bindW_def op_simps scope_org_def sample_uuid_ok on_not_found_def
        get_container_def uniqueness_key_def)
  moreover have "w_drawn w = 0" by (simp add: w shop_world_def)
  moreover have "finite_val (container_to_dict c)"
    using wr by (rule write_document_finite)
  moreover have "shop_roots w"
    using len by (auto simp: shop_roots_def w map_of_put)
  ultimately show ?thesis using wf dir len lists paths by blast
qed

lemma shop_revision:
  assumes "find_container sample_machine ''Shop'' (Some (sample_uuid 98)) w = (Inr c, w)" "wf_container c"
    "container_dir sample_machine (ct_org_id c) (ct_id c) = Inr dir" "length dir = 4"
    "list_revisions sample_machine c w = Inr []" "list_audit_events sample_machine c w = Inr []"
    "\<forall>p. path_exists w p \<longrightarrow> length p \<le> 5"
  shows "\<exists>r w'. create_revision sample_machine ''Shop'' NoPayload (Some (sample_uuid 98)) None ''local'' [] ''draft'' w
    = (Inr r, w') "
proof -
  have "parse_payload_arg witness_runtime NoPayload = Inr payload_empty" by (simp add: parse_payload_arg_def)
  with add_revision_ok [OF good_sample_machine assms(2,3,5,6), of NoPayload payload_empty "''draft''" "''local''" None "[]"]
    assms(1,4,7)
  show ?thesis by (fastforce simp: wf_payload_empty REVISION_STATUSES_def create_revision_def bindW_def)
qed

subsection \<open>Properties\<close>

text \<open>
  Creating a revision extends the history and the audit log.  On success the container's
  revisions are the earlier ones followed by the new one, which is numbered one above the latest,
  names it as its parent, can be fetched by its version, and is the expected parent's child if one
  was given; the audit log gained exactly the event that names its version and checksum.
\<close>
theorem revision_extends_history:
  assumes "create_revision m i payload org parent by' notes status w = (Inr r, w')"
    and "good_machine m" and "arg_ok (m_rt m) payload"
  shows "\<exists>c w1 rs es e. find_container m i org w = (Inr c, w1)
    \<and> list_revisions m c w1 = Inr rs \<and> list_revisions m c w' = Inr (rs @ [r])
    \<and> rev_number r = next_number (latest_of rs) \<and> rev_parent r = map_option rev_version (latest_of rs)
    \<and> get_revision m c (rev_version r) w' = Inr r \<and> (\<forall>v. parent = Some v \<longrightarrow> rev_parent r = Some v)
    \<and> list_audit_events m c w1 = Inr es \<and> list_audit_events m c w' = Inr (es @ [e])
    \<and> au_action e = ''revision.created'' \<and> au_config_version e = Some (rev_version r)
    \<and> au_checksum e = Some (rev_checksum r)"
proof -
  from assms(1) obtain c w1 where c: "find_container m i org w = (Inr c, w1)"
    and add: "add_revision m c payload parent by' notes status w1 = (Inr r, w')"
    by (auto simp: create_revision_def op_simps)
  from add_revision_events [OF add assms(2,3)] add_revision_Inr [OF add assms(2,3)] c
  show ?thesis by blast
qed

theorem revision_extends_history_witness:
  "\<exists>c w' r. list_revisions sample_machine c w' = Inr [r] \<and> rev_number r = VInt 1 \<and> rev_parent r = None"
proof -
  from shop obtain c w dir where s: "find_container sample_machine ''Shop'' (Some (sample_uuid 98)) w = (Inr c, w)"
    "wf_container c" "container_dir sample_machine (ct_org_id c) (ct_id c) = Inr dir" "length dir = 4"
    "list_revisions sample_machine c w = Inr []" "list_audit_events sample_machine c w = Inr []"
    "\<forall>p. path_exists w p \<longrightarrow> length p \<le> 5" by blast
  from shop_revision [OF s] obtain r w' where "create_revision sample_machine ''Shop'' NoPayload
      (Some (sample_uuid 98)) None ''local'' [] ''draft'' w = (Inr r, w')" by blast
  from revision_extends_history [OF this good_sample_machine] s(1,5) show ?thesis
    by (auto simp: arg_ok_def next_number_def latest_of_def)
qed

text \<open>
  Optimistic concurrency.  If the expected parent is a version but not the latest one, nothing is
  created: the result is a \<open>ConflictError\<close> and the world is the one in which the container was found.
\<close>
theorem stale_parent_refused:
  assumes "find_container m i org w = (Inr c, w1)" and "list_revisions m c w1 = Inr rs"
    and "is_uuid v" and "map_option rev_version (latest_of rs) \<noteq> Some v"
  shows "\<exists>msg. create_revision m i payload org (Some v) by' notes status w = (Inl (ConflictError msg), w1)"
proof -
  from assms(3,4) obtain msg where
    "expect_parent m (Some v) (map_option rev_version (latest_of rs)) = Inl (ConflictError msg)"
    by (auto simp: expect_parent_def)
  with assms(1,2) show ?thesis
    by (simp add: create_revision_def add_revision_def bindW_def op_simps Let_def)
qed

theorem stale_parent_refused_witness:
  "\<exists>w w1 msg. create_revision sample_machine ''Shop'' NoPayload (Some (sample_uuid 98)) (Some (sample_uuid 5))
     ''local'' [] ''draft'' w = (Inl (ConflictError msg), w1)"
proof -
  from shop obtain c w where s: "find_container sample_machine ''Shop'' (Some (sample_uuid 98)) w = (Inr c, w)"
    "list_revisions sample_machine c w = Inr []" by blast
  have "map_option rev_version (latest_of []) \<noteq> Some (sample_uuid 5)" by (simp add: latest_of_def)
  from stale_parent_refused [OF s sample_uuid_ok this] show ?thesis by blast
qed

text \<open>
  Container ids are unique up to case.  When \<open>create_container\<close> succeeds, no container of the
  organization had an id that casefolds to the same text, and from then on the new container is found
  under every spelling of its id.
\<close>
theorem container_ids_unique:
  assumes "create_container m i name org ws description urls refs by' w = (Inr c, w')" and "good_machine m"
    and "good_container_id j" and "py_casefold j = py_casefold i"
  shows "(\<exists>w1 cs. resolve_scope m org ws w = (Inr (ct_org_id c, ct_workspace_id c), w1)
      \<and> list_containers m (ct_org_id c) w1 = Inr cs \<and> (\<forall>d \<in> set cs. uniqueness_key d \<noteq> py_casefold i))
    \<and> get_container m (ct_org_id c) j w' = Inr c"
proof -
  from create_container_Inr [OF assms(1,2)] obtain w2 where "wf_container c" "ct_id c = i"
    "save_container m c w2 = (Inr (), w')" by blast
  then have "get_container m (ct_org_id c) j w' = Inr c"
    using saved_container_found assms(3,4) by (simp add: uniqueness_key_def)
  with create_container_Inr [OF assms(1,2)] show ?thesis by blast
qed

theorem container_ids_unique_witness:
  "\<exists>c w. get_container sample_machine (ct_org_id c) ''sHOP'' w = Inr c"
proof -
  have "py_casefold ''sHOP'' = py_casefold ''Shop''"
    by (simp add: py_casefold_def lower_shop) (simp add: lower_lower is_upper_latin_def)
  with create_shop show ?thesis
    using container_ids_unique [OF _ good_sample_machine good_shop(2)] by blast
qed

end
