(* ===== verification/Activation.thy ===== *)
theory Activation
  imports Service
begin

section \<open>Activation and rollback of environments (control/service.py)\<close>

text \<open>
  An environment points to the current revision and remembers the previous one.  Activation and
  rollback share their checks and the switch of the pointers, which are written out twice in the
  code; here each is one definition.  A refused attempt is recorded in the audit log and then raised.
\<close>

subsection \<open>Operations\<close>

definition validated_revision ::
    "machine \<Rightarrow> container \<Rightarrow> string \<Rightarrow> world \<Rightarrow> (revision \<times> validation_report) res" where
  "validated_revision m c version w = bindR (find_revision m (ct_id c) c version w) (\<lambda>r.
     bindR (default_validation m (rev_payload r)) (\<lambda>report. Inr (r, report)))"

definition record_failure ::
    "machine \<Rightarrow> container \<Rightarrow> environment \<Rightarrow> string \<Rightarrow> string \<Rightarrow> string \<Rightarrow> string option \<Rightarrow> audit_event op" where
  "record_failure m c e action actor reason tgt =
     record_event m c action actor ''failed'' (Some (env_id e)) tgt (env_current e) None None
       [(''reason'', VStr reason)]"

definition check_protected ::
    "machine \<Rightarrow> container \<Rightarrow> environment \<Rightarrow> string \<Rightarrow> string \<Rightarrow> string \<Rightarrow> bool \<Rightarrow> unit op" where
  "check_protected m c e action actor tgt allow_protected =
     (if env_protected e \<and> \<not> allow_protected
      then bindW (record_failure m c e action actor ''protected_environment'' (Some tgt)) (\<lambda>_.
        raiseW (ValidationError (''environment '' @ repr_str (env_label e)
          @ '' is protected; explicit allow_protected is required'')))
      else retW ())"

definition check_expected ::
    "machine \<Rightarrow> container \<Rightarrow> environment \<Rightarrow> string \<Rightarrow> string \<Rightarrow> string \<Rightarrow> string option \<Rightarrow> unit op" where
  "check_expected m c e action actor tgt expected_current = (case expected_current of
     None \<Rightarrow> retW ()
   | Some v \<Rightarrow> bindW (liftW (validate_id (m_rt m) (VStr v) ''expected_current'')) (\<lambda>v'.
       if Some v' \<noteq> env_current e
       then bindW (record_failure m c e action actor ''stale_environment'' (Some tgt)) (\<lambda>_.
         raiseW (ConflictError (''expected current '' @ v' @ '' but environment is at ''
           @ opt_text (env_current e))))
       else retW ()))"

definition checked_revision ::
    "machine \<Rightarrow> container \<Rightarrow> environment \<Rightarrow> string \<Rightarrow> string \<Rightarrow> string \<Rightarrow> revision op" where
  "checked_revision m c e action actor tgt =
     bindW (readW (validated_revision m c tgt)) (\<lambda>(r, report).
     if \<not> report_valid report
     then bindW (record_failure m c e action actor ''invalid_revision'' (Some tgt)) (\<lambda>_.
       raiseW (ValidationError (''revision '' @ repr_str tgt @ '' failed validation: ''
         @ join_with ''; '' (map vi_message (report_errors report)))))
     else retW r)"

definition previous_checksum :: "machine \<Rightarrow> container \<Rightarrow> string option \<Rightarrow> world \<Rightarrow> string option res" where
  "previous_checksum m c version w = (case version of
     None \<Rightarrow> Inr None
   | Some v \<Rightarrow> bindR (get_revision m c v w) (\<lambda>r. Inr (Some (rev_checksum r))))"

definition switched :: "environment \<Rightarrow> string \<Rightarrow> string \<Rightarrow> string \<Rightarrow> environment" where
  "switched e tgt now actor = e\<lparr>env_previous := env_current e, env_current := Some tgt,
     env_updated_at := Some now, env_updated_by := Some actor\<rparr>"

definition switch_environment ::
    "machine \<Rightarrow> container \<Rightarrow> environment \<Rightarrow> string \<Rightarrow> string \<Rightarrow> revision \<Rightarrow> string
     \<Rightarrow> (environment \<times> audit_event) op" where
  "switch_environment m c e action actor r tgt =
     bindW (readW (previous_checksum m c (env_current e))) (\<lambda>previous_chk.
     bindW (utc_now m) (\<lambda>now.
     let updated = switched e tgt now actor in
     bindW (save_environment m c updated) (\<lambda>_.
     bindW (record_event m c action actor ''success'' (Some (env_id e)) (Some tgt) (env_current e)
       (Some (rev_checksum r)) previous_chk
       [(''environment'', VStr (env_label e)), (''protected'', VBool (env_protected e))]) (\<lambda>event.
     retW (updated, event)))))"

record activation_result =
  ar_environment :: environment
  ar_previous :: "string option"
  ar_changed :: bool
  ar_event :: "audit_event option"

definition activation_result_to_dict :: "activation_result \<Rightarrow> pyval" where
  "activation_result_to_dict a = VDict [
     (''environment'', environment_to_dict (ar_environment a)),
     (''previous_config_version'', opt_str (ar_previous a)),
     (''changed'', VBool (ar_changed a)),
     (''audit_event'', case ar_event a of None \<Rightarrow> VNone | Some e \<Rightarrow> audit_to_dict e)]"

text \<open>\<open>activate_environment\<close> and \<open>rollback_environment\<close> on the container and environment found.\<close>

definition activation_target :: "machine \<Rightarrow> container \<Rightarrow> string option \<Rightarrow> string op" where
  "activation_target m c version =
     bindW (case version of
         Some v \<Rightarrow> retW v
       | None \<Rightarrow> bindW (readW (latest_revision m c)) (\<lambda>latest. case latest of
           None \<Rightarrow> raiseW (NotFoundError (''container '' @ repr_str (ct_id c) @ '' has no configuration revisions''))
         | Some r \<Rightarrow> retW (rev_version r))) (\<lambda>tgt.
     liftW (validate_id (m_rt m) (VStr tgt) ''config_version''))"

definition activate ::
    "machine \<Rightarrow> container \<Rightarrow> environment \<Rightarrow> string option \<Rightarrow> string option \<Rightarrow> bool \<Rightarrow> string
     \<Rightarrow> activation_result op" where
  "activate m c e version expected_current allow_protected actor =
     bindW (activation_target m c version) (\<lambda>tgt.
     bindW (check_protected m c e ''environment.activated'' actor tgt allow_protected) (\<lambda>_.
     bindW (check_expected m c e ''environment.activated'' actor tgt expected_current) (\<lambda>_.
     bindW (checked_revision m c e ''environment.activated'' actor tgt) (\<lambda>r.
     if env_current e = Some tgt
     then retW \<lparr>ar_environment = e, ar_previous = env_previous e, ar_changed = False, ar_event = None\<rparr>
     else bindW (switch_environment m c e ''environment.activated'' actor r tgt) (\<lambda>(updated, event).
       retW \<lparr>ar_environment = updated, ar_previous = env_current e, ar_changed = True,
         ar_event = Some event\<rparr>)))))"

definition rollback ::
    "machine \<Rightarrow> container \<Rightarrow> environment \<Rightarrow> string option \<Rightarrow> bool \<Rightarrow> string \<Rightarrow> activation_result op" where
  "rollback m c e expected_current allow_protected actor = (case env_previous e of
     None \<Rightarrow> bindW (record_failure m c e ''environment.rolled_back'' actor ''no_previous_revision'' None) (\<lambda>_.
       raiseW (ValidationError (''environment '' @ repr_str (env_label e)
         @ '' has no previous revision to roll back to'')))
   | Some tgt \<Rightarrow>
       bindW (check_protected m c e ''environment.rolled_back'' actor tgt allow_protected) (\<lambda>_.
       bindW (check_expected m c e ''environment.rolled_back'' actor tgt expected_current) (\<lambda>_.
       bindW (checked_revision m c e ''environment.rolled_back'' actor tgt) (\<lambda>r.
       bindW (switch_environment m c e ''environment.rolled_back'' actor r tgt) (\<lambda>(updated, event).
       retW \<lparr>ar_environment = updated, ar_previous = env_current e, ar_changed = True,
         ar_event = Some event\<rparr>)))))"

definition activate_environment ::
    "machine \<Rightarrow> string \<Rightarrow> string \<Rightarrow> string option \<Rightarrow> string option \<Rightarrow> bool \<Rightarrow> string option \<Rightarrow> string
     \<Rightarrow> activation_result op" where
  "activate_environment m container_id ref version expected_current allow_protected org actor =
     bindW (find_container m container_id org) (\<lambda>c.
     bindW (readW (resolve_environment m c ref)) (\<lambda>e.
     activate m c e version expected_current allow_protected actor))"

definition rollback_environment ::
    "machine \<Rightarrow> string \<Rightarrow> string \<Rightarrow> string option \<Rightarrow> bool \<Rightarrow> string option \<Rightarrow> string
     \<Rightarrow> activation_result op" where
  "rollback_environment m container_id ref expected_current allow_protected org actor =
     bindW (find_container m container_id org) (\<lambda>c.
     bindW (readW (resolve_environment m c ref)) (\<lambda>e.
     rollback m c e expected_current allow_protected actor))"

subsection \<open>What the operations leave alone\<close>

lemma record_failure_agree:
  "(\<And>a. audit_dir m c = Inr a \<Longrightarrow> a \<noteq> dir) \<Longrightarrow> keeps (agree_on dir) (record_failure m c e action actor reason tgt)"
  unfolding record_failure_def by (rule record_event_agree)

lemma record_failure_grows: "keeps grows (record_failure m c e action actor reason tgt)"
  unfolding record_failure_def by (rule record_event_grows)

lemma checks_agree:
  assumes "\<And>a. audit_dir m c = Inr a \<Longrightarrow> a \<noteq> dir"
  shows "keeps (agree_on dir) (check_protected m c e action actor tgt allow)"
    and "keeps (agree_on dir) (check_expected m c e action actor tgt expected)"
    and "keeps (agree_on dir) (checked_revision m c e action actor tgt)"
    and "keeps (agree_on dir) (activation_target m c version)"
proof -
  note rules = agree.rules record_failure_agree assms
  show "keeps (agree_on dir) (check_protected m c e action actor tgt allow)"
    unfolding check_protected_def by (intro rules)
  show "keeps (agree_on dir) (check_expected m c e action actor tgt expected)"
    unfolding check_expected_def by (intro rules)
  show "keeps (agree_on dir) (checked_revision m c e action actor tgt)"
    unfolding checked_revision_def split_def by (intro rules)
  show "keeps (agree_on dir) (activation_target m c version)"
    unfolding activation_target_def by (intro rules)
qed

lemma switch_agree:
  assumes "\<And>a. audit_dir m c = Inr a \<Longrightarrow> a \<noteq> dir" and "\<And>a. environment_dir m c = Inr a \<Longrightarrow> a \<noteq> dir"
  shows "keeps (agree_on dir) (switch_environment m c e action actor r tgt)"
  unfolding switch_environment_def Let_def
  by (intro agree.rules draws_agree save_environment_agree record_event_agree assms)

lemma activate_agree:
  assumes "\<And>a. audit_dir m c = Inr a \<Longrightarrow> a \<noteq> dir" and "\<And>a. environment_dir m c = Inr a \<Longrightarrow> a \<noteq> dir"
  shows "keeps (agree_on dir) (activate m c e version expected allow actor)"
  unfolding activate_def split_def by (intro agree.rules checks_agree switch_agree assms)

lemma rollback_agree:
  assumes "\<And>a. audit_dir m c = Inr a \<Longrightarrow> a \<noteq> dir" and "\<And>a. environment_dir m c = Inr a \<Longrightarrow> a \<noteq> dir"
  shows "keeps (agree_on dir) (rollback m c e expected allow actor)"
  unfolding rollback_def split_def
  by (intro agree.rules checks_agree switch_agree record_failure_agree assms)

subsection \<open>When the checks pass\<close>

lemma check_protected_Inr:
  "check_protected m c e action actor tgt allow w = (Inr u, w') \<longleftrightarrow> (env_protected e \<longrightarrow> allow) \<and> w' = w"
  by (auto simp: check_protected_def op_simps)

lemma check_expected_Inr:
  "check_expected m c e action actor tgt expected w = (Inr u, w') \<longleftrightarrow>
     (\<forall>v. expected = Some v \<longrightarrow> is_uuid v \<and> env_current e = Some v) \<and> w' = w"
  by (auto simp: check_expected_def op_simps validate_id_Inr split: option.splits)

text \<open>A version that is stored, intact and valid.\<close>

definition valid_version :: "machine \<Rightarrow> container \<Rightarrow> world \<Rightarrow> string \<Rightarrow> revision \<Rightarrow> bool" where
  "valid_version m c w v r \<longleftrightarrow> get_revision m c v w = Inr r
     \<and> (\<exists>report. default_validation m (rev_payload r) = Inr report \<and> report_valid report)"

lemma checked_revision_Inr:
  "checked_revision m c e action actor tgt w = (Inr r, w') \<longleftrightarrow> valid_version m c w tgt r \<and> w' = w"
  by (auto simp: checked_revision_def op_simps validated_revision_def find_revision_def bindR_Inr_iff
      on_not_found_Inr valid_version_def)

lemma activation_target_Inr:
  "activation_target m c version w = (Inr tgt, w') \<Longrightarrow> w' = w \<and> is_uuid tgt \<and> (\<forall>v. version = Some v \<longrightarrow> tgt = v)"
  by (auto simp: activation_target_def op_simps validate_id_Inr split: option.splits)

lemma wf_switched:
  "wf_environment e \<Longrightarrow> is_uuid tgt \<Longrightarrow> now \<noteq> [] \<Longrightarrow> actor \<noteq> [] \<Longrightarrow> wf_environment (switched e tgt now actor)"
  by (simp add: wf_environment_def switched_def)

lemma switched_fields [simp]:
  "env_current (switched e tgt now actor) = Some tgt" "env_previous (switched e tgt now actor) = env_current e"
  "env_id (switched e tgt now actor) = env_id e" "env_container_id (switched e tgt now actor) = env_container_id e"
  "env_label (switched e tgt now actor) = env_label e" "env_protected (switched e tgt now actor) = env_protected e"
  by (simp_all add: switched_def)

lemma switch_Inr:
  assumes "switch_environment m c e action actor r tgt w = (Inr (updated, event), w')"
    and "good_machine m" and "wf_environment e" and "is_uuid tgt"
  shows "\<exists>now es. updated = switched e tgt now actor \<and> get_environment m c (env_id e) w' = Inr updated
    \<and> list_audit_events m c w = Inr es \<and> list_audit_events m c w' = Inr (es @ [event])
    \<and> au_action event = action \<and> au_result event = ''success'' \<and> au_config_version event = Some tgt
    \<and> au_environment_id event = Some (env_id e) \<and> au_checksum event = Some (rev_checksum r)"
proof -
  let ?now = "m_now m (w_ticks w)" and ?w1 = "w\<lparr>w_ticks := Suc (w_ticks w)\<rparr>"
  from assms(1) obtain pchk w2 where up: "updated = switched e tgt ?now actor"
    and sv: "save_environment m c updated ?w1 = (Inr (), w2)"
    and ev: "record_event m c action actor ''success'' (Some (env_id e)) (Some tgt) (env_current e)
       (Some (rev_checksum r)) pchk [(''environment'', VStr (env_label e)), (''protected'', VBool (env_protected e))] w2
      = (Inr event, w')"
    by (auto simp: switch_environment_def op_simps Let_def)
  from ev have "actor \<noteq> []" by (auto simp: record_event_def op_simps stamped_Inr audit_create_Inr)
  with up assms(2-4) have wf: "wf_environment updated" by (simp add: wf_switched good_machineD)
  from save_environment_Inr [OF sv] wf obtain dir where
    dir: "environment_dir m c = Inr dir" "env_container_id updated = ct_id c"
      "load m ''environment'' (environment_from_dict (m_rt m)) (dir @ [json_name (env_id updated)]) w2 = Inr updated"
    by blast
  have "is_uuid (env_id updated)" using wf by (simp add: wf_environment_def)
  with dir have got: "get_environment m c (env_id updated) w2 = Inr updated" by (simp add: get_environment_load)
  have "audit_dir m c = Inr a \<Longrightarrow> a \<noteq> dir" for a using dir(1) by (auto simp: dirs_def sub_dir_Inr)
  from keepsD [OF record_event_agree [OF this] ev] get_environment_agree [OF dir(1)] got
  have got': "get_environment m c (env_id updated) w' = Inr updated" by metis
  from record_event_Inr [OF ev assms(2)] obtain es where es: "list_audit_events m c w2 = Inr es"
    "list_audit_events m c w' = Inr (es @ [event])" "au_action event = action" "au_result event = ''success''"
    "au_config_version event = Some tgt" "au_environment_id event = Some (env_id e)"
    "au_checksum event = Some (rev_checksum r)" by blast
  from es(1) obtain adir where adir: "audit_dir m c = Inr adir"
    by (auto simp: list_audit_events_def bindR_Inr_iff)
  then have "environment_dir m c = Inr a \<Longrightarrow> a \<noteq> adir" for a by (auto simp: dirs_def sub_dir_Inr)
  from keepsD [OF save_environment_agree [OF this] sv] have "agree_on adir ?w1 w2" by blast
  then have "agree_on adir w w2" by (simp add: agree_on_def)
  from list_audit_events_agree [OF adir this] es got' up show ?thesis by auto
qed

lemma activate_Inr:
  assumes "activate m c e version expected allow actor w = (Inr a, w')"
  shows "\<exists>tgt r. is_uuid tgt \<and> (\<forall>v. version = Some v \<longrightarrow> tgt = v) \<and> (env_protected e \<longrightarrow> allow)
    \<and> (\<forall>v. expected = Some v \<longrightarrow> env_current e = Some v) \<and> valid_version m c w tgt r
    \<and> (if env_current e = Some tgt
       then a = \<lparr>ar_environment = e, ar_previous = env_previous e, ar_changed = False, ar_event = None\<rparr> \<and> w' = w
       else \<exists>updated event. switch_environment m c e ''environment.activated'' actor r tgt w = (Inr (updated, event), w')
         \<and> a = \<lparr>ar_environment = updated, ar_previous = env_current e, ar_changed = True, ar_event = Some event\<rparr>)"
proof -
  from assms obtain tgt w1 where t: "activation_target m c version w = (Inr tgt, w1)"
    and rest: "bindW (check_protected m c e ''environment.activated'' actor tgt allow) (\<lambda>_.
     bindW (check_expected m c e ''environment.activated'' actor tgt expected) (\<lambda>_.
     bindW (checked_revision m c e ''environment.activated'' actor tgt) (\<lambda>r.
     if env_current e = Some tgt
     then retW \<lparr>ar_environment = e, ar_previous = env_previous e, ar_changed = False, ar_event = None\<rparr>
     else bindW (switch_environment m c e ''environment.activated'' actor r tgt) (\<lambda>(updated, event).
       retW \<lparr>ar_environment = updated, ar_previous = env_current e, ar_changed = True,
         ar_event = Some event\<rparr>)))) w1 = (Inr a, w')"
    by (auto simp: activate_def bindW_Inr)
  from activation_target_Inr [OF t] have w1: "w1 = w" "is_uuid tgt" "\<forall>v. version = Some v \<longrightarrow> tgt = v" by blast+
  from rest show ?thesis
    unfolding bindW_Inr check_protected_Inr check_expected_Inr checked_revision_Inr w1(1)
    using w1(2,3) by (auto simp: op_simps split: if_splits)
qed

lemma rollback_Inr:
  assumes "rollback m c e expected allow actor w = (Inr a, w')"
  shows "\<exists>tgt r updated event. env_previous e = Some tgt \<and> (env_protected e \<longrightarrow> allow)
    \<and> (\<forall>v. expected = Some v \<longrightarrow> env_current e = Some v) \<and> valid_version m c w tgt r
    \<and> switch_environment m c e ''environment.rolled_back'' actor r tgt w = (Inr (updated, event), w')
    \<and> a = \<lparr>ar_environment = updated, ar_previous = env_current e, ar_changed = True, ar_event = Some event\<rparr>"
  using assms
  by (auto simp: rollback_def bindW_Inr check_protected_Inr check_expected_Inr checked_revision_Inr op_run
      split: option.splits)

lemma single_Inr:
  "(case zs of [] \<Rightarrow> Inl a | [e] \<Rightarrow> Inr e | _ \<Rightarrow> Inl b) = Inr x \<longleftrightarrow> zs = [x]"
  by (auto split: list.split)

lemma resolve_environment_loaded:
  assumes "resolve_environment m c ref w = Inr e"
  shows "\<exists>dir p. environment_dir m c = Inr dir \<and> in_dir dir p
    \<and> load m ''environment'' (environment_from_dict (m_rt m)) p w = Inr e"
proof -
  let ?hits = "filter (\<lambda>e. py_casefold (env_label e) = py_casefold ref)"
  from assms consider i where "on_not_found (bindR (get_environment m c i w) (\<lambda>e. Inr (Some e))) (Inr None) = Inr (Some e)"
    | es where "list_environments m c w = Inr es" "?hits es = [e]"
    unfolding resolve_environment_def bindR_Inr_iff
    by (elim exE conjE) (simp add: bindR_Inr_iff single_Inr split: sum.splits option.splits; blast)
  then show ?thesis
  proof cases
    case 1
    then show ?thesis
      by (auto simp: on_not_found_Inr bindR_Inr_iff get_environment_def Let_def split: if_splits)
        (blast intro: in_dir_append [THEN iffD2] suffix_json_name)
  next
    case 2
    then have "e \<in> set (?hits es)" by simp
    with 2(1) show ?thesis
      by (auto simp: list_environments_def load_all_def bindR_Inr_iff set_glob_json dest!: mapR_Inr_set)
  qed
qed

lemma resolve_environment_wf: "resolve_environment m c ref w = Inr e \<Longrightarrow> wf_environment e"
  by (auto dest!: resolve_environment_loaded simp: load_def bindR_Inr_iff dest: environment_codec.parse_inv)

subsection \<open>Refused and failed attempts\<close>

lemma bindW_cases:
  "bindW n f w = (x, w') \<Longrightarrow> (\<exists>e. n w = (Inl e, w') \<and> x = Inl e) \<or> (\<exists>y w1. n w = (Inr y, w1) \<and> f y w1 = (x, w'))"
  by (auto simp: bindW_def split: prod.splits sum.splits)

text \<open>An operation that writes nothing but new files, and none among the environments.\<close>

definition quiet :: "machine \<Rightarrow> container \<Rightarrow> world \<Rightarrow> world \<Rightarrow> bool" where
  "quiet m c w w' \<longleftrightarrow> grows w w' \<and> (\<forall>dir. environment_dir m c = Inr dir \<longrightarrow> agree_on dir w w')"

interpretation quiet: frame "quiet m c"
  by unfold_locales (auto simp: quiet_def intro: grows.refl grows.trans agree.refl agree.trans)

lemma quietI:
  "keeps grows f \<Longrightarrow> (\<And>dir. environment_dir m c = Inr dir \<Longrightarrow> keeps (agree_on dir) f) \<Longrightarrow> keeps (quiet m c) f"
  by (auto simp: keeps_def quiet_def)

lemma record_event_quiet:
  "keeps (quiet m c) (record_event m c action actor result env version previous chk pchk details)"
  by (intro quietI record_event_grows record_event_agree) (auto simp: dirs_def sub_dir_Inr)

lemma record_failure_quiet: "keeps (quiet m c) (record_failure m c e action actor reason tgt)"
  unfolding record_failure_def by (rule record_event_quiet)

lemma draws_quiet: "keeps (quiet m c) (new_id m')" "keeps (quiet m c) (utc_now m')" "keeps (quiet m c) (stamped m' build)"
  by (simp_all add: keeps_def stamped_def bindW_def op_simps quiet_def grows_def agree_on_def split: sum.split)

lemma checks_quiet:
  "keeps (quiet m c) (check_protected m c e action actor tgt allow)"
  "keeps (quiet m c) (check_expected m c e action actor tgt expected)"
  "keeps (quiet m c) (checked_revision m c e action actor tgt)"
  "keeps (quiet m c) (activation_target m c version)"
  unfolding check_protected_def check_expected_def checked_revision_def activation_target_def split_def
  by (intro quiet.rules record_failure_quiet)+

lemma guardE:
  assumes "bindW g f w = (x, w')" and "keeps (quiet m c) g" and "\<And>y w1. g w = (Inr y, w1) \<Longrightarrow> w1 = w"
    and "quiet m c w w' \<Longrightarrow> P" and "\<And>y. g w = (Inr y, w) \<Longrightarrow> f y w = (x, w') \<Longrightarrow> P"
  shows P
  using bindW_cases [OF assms(1)]
proof (elim disjE exE conjE)
  fix e assume "g w = (Inl e, w')"
  from assms(4) [OF keepsD [OF assms(2) this]] show P .
next
  fix y w1 assume g: "g w = (Inr y, w1)" and f: "f y w1 = (x, w')"
  from assms(3) [OF g] have "w1 = w" .
  from assms(5) [OF g [unfolded this] f [unfolded this]] show P .
qed

lemma bindW_pair:
  "bindW s (\<lambda>(u, v). retW (g u v)) w = (x, w') \<Longrightarrow> \<exists>y. s w = (y, w') \<and> (\<forall>err. x = Inl err \<longrightarrow> y = Inl err)"
  by (cases "s w") (auto simp: bindW_def retW_def split: sum.splits)

lemmas checks_Inr = check_protected_Inr check_expected_Inr checked_revision_Inr

lemma activate_cases:
  assumes "activate m c e version expected allow actor w = (x, w')"
  shows "quiet m c w w' \<or> (\<exists>tgt r. is_uuid tgt \<and> valid_version m c w tgt r
    \<and> (\<exists>y. switch_environment m c e ''environment.activated'' actor r tgt w = (y, w')
         \<and> (\<forall>err. x = Inl err \<longrightarrow> y = Inl err)))" (is "?Q \<or> ?S")
  using assms unfolding activate_def
proof (rule guardE [OF _ checks_quiet(4)])
  fix tgt
  assume t: "activation_target m c version w = (Inr tgt, w)"
  from activation_target_Inr [OF t] have tgt: "is_uuid tgt" by blast
  assume "bindW (check_protected m c e ''environment.activated'' actor tgt allow) (\<lambda>_.
     bindW (check_expected m c e ''environment.activated'' actor tgt expected) (\<lambda>_.
     bindW (checked_revision m c e ''environment.activated'' actor tgt) (\<lambda>r.
     if env_current e = Some tgt
     then retW \<lparr>ar_environment = e, ar_previous = env_previous e, ar_changed = False, ar_event = None\<rparr>
     else bindW (switch_environment m c e ''environment.activated'' actor r tgt) (\<lambda>(updated, event).
       retW \<lparr>ar_environment = updated, ar_previous = env_current e, ar_changed = True,
         ar_event = Some event\<rparr>)))) w = (x, w')"
  then show "?Q \<or> ?S"
  proof (elim guardE [OF _ checks_quiet(1)] guardE [OF _ checks_quiet(2)] guardE [OF _ checks_quiet(3)])
    fix r
    assume "checked_revision m c e ''environment.activated'' actor tgt w = (Inr r, w)"
    then have r: "valid_version m c w tgt r" by (simp add: checks_Inr)
    assume last: "(if env_current e = Some tgt
      then retW \<lparr>ar_environment = e, ar_previous = env_previous e, ar_changed = False, ar_event = None\<rparr>
      else bindW (switch_environment m c e ''environment.activated'' actor r tgt) (\<lambda>(updated, event).
        retW \<lparr>ar_environment = updated, ar_previous = env_current e, ar_changed = True,
          ar_event = Some event\<rparr>)) w = (x, w')"
    show "?Q \<or> ?S"
    proof (cases "env_current e = Some tgt")
      case True
      with last have "w' = w" by (simp add: op_run)
      then show ?thesis by (simp add: quiet.refl)
    next
      case False
      with last have "\<exists>y. switch_environment m c e ''environment.activated'' actor r tgt w = (y, w')
          \<and> (\<forall>err. x = Inl err \<longrightarrow> y = Inl err)"
        by (intro bindW_pair) simp
      with r tgt show ?thesis by blast
    qed
  qed (auto simp: checks_Inr)
qed (auto dest: activation_target_Inr)

lemma rollback_cases:
  assumes "rollback m c e expected allow actor w = (x, w')"
  shows "quiet m c w w' \<or> (\<exists>tgt r. env_previous e = Some tgt \<and> valid_version m c w tgt r
    \<and> (\<exists>y. switch_environment m c e ''environment.rolled_back'' actor r tgt w = (y, w')
         \<and> (\<forall>err. x = Inl err \<longrightarrow> y = Inl err)))" (is "?Q \<or> ?S")
proof (cases "env_previous e")
  case None
  with assms keepsD [OF record_failure_quiet] show ?thesis
    by (fastforce simp: rollback_def op_run dest!: bindW_cases)
next
  case (Some tgt)
  with assms have "bindW (check_protected m c e ''environment.rolled_back'' actor tgt allow) (\<lambda>_.
     bindW (check_expected m c e ''environment.rolled_back'' actor tgt expected) (\<lambda>_.
     bindW (checked_revision m c e ''environment.rolled_back'' actor tgt) (\<lambda>r.
     bindW (switch_environment m c e ''environment.rolled_back'' actor r tgt) (\<lambda>(updated, event).
       retW \<lparr>ar_environment = updated, ar_previous = env_current e, ar_changed = True,
         ar_event = Some event\<rparr>)))) w = (x, w')"
    by (simp add: rollback_def)
  then show ?thesis
  proof (elim guardE [OF _ checks_quiet(1)] guardE [OF _ checks_quiet(2)] guardE [OF _ checks_quiet(3)])
    fix r
    assume "checked_revision m c e ''environment.rolled_back'' actor tgt w = (Inr r, w)"
    then have r: "valid_version m c w tgt r" by (simp add: checks_Inr)
    assume "bindW (switch_environment m c e ''environment.rolled_back'' actor r tgt) (\<lambda>(updated, event).
        retW \<lparr>ar_environment = updated, ar_previous = env_current e, ar_changed = True,
          ar_event = Some event\<rparr>) w = (x, w')"
    from bindW_pair [OF this] obtain y where "switch_environment m c e ''environment.rolled_back'' actor r tgt w = (y, w')"
        "\<forall>err. x = Inl err \<longrightarrow> y = Inl err"
      by blast
    then show ?thesis using r Some by blast
  qed (auto simp: checks_Inr)
qed

subsection \<open>The invariant of a container\<close>

definition pointers_ok :: "machine \<Rightarrow> container \<Rightarrow> world \<Rightarrow> environment \<Rightarrow> bool" where
  "pointers_ok m c w e \<longleftrightarrow>
     (\<forall>v. env_current e = Some v \<or> env_previous e = Some v \<longrightarrow> (\<exists>r. valid_version m c w v r))"

definition environments_ok :: "machine \<Rightarrow> container \<Rightarrow> world \<Rightarrow> bool" where
  "environments_ok m c w \<longleftrightarrow> (\<forall>dir p e. environment_dir m c = Inr dir \<and> in_dir dir p
     \<and> load m ''environment'' (environment_from_dict (m_rt m)) p w = Inr e \<longrightarrow> pointers_ok m c w e)"

definition history_ok :: "machine \<Rightarrow> container \<Rightarrow> world \<Rightarrow> bool" where
  "history_ok m c w \<longleftrightarrow> (\<exists>rs. list_revisions m c w = Inr rs \<and> chain rs)"

definition audit_ok :: "machine \<Rightarrow> container \<Rightarrow> world \<Rightarrow> bool" where
  "audit_ok m c w \<longleftrightarrow> (\<exists>es. list_audit_events m c w = Inr es
     \<and> map au_sequence es = map int [1..<Suc (length es)])"

lemma valid_version_grows: "grows w w' \<Longrightarrow> valid_version m c w v r \<Longrightarrow> valid_version m c w' v r"
  by (auto simp: valid_version_def dest: grows_get_revision)

lemma pointers_ok_grows: "grows w w' \<Longrightarrow> pointers_ok m c w e \<Longrightarrow> pointers_ok m c w' e"
  unfolding pointers_ok_def by (blast dest: valid_version_grows)

lemma environments_ok_quiet:
  assumes "quiet m c w w'" and "environments_ok m c w"
  shows "environments_ok m c w'"
  unfolding environments_ok_def
proof (intro allI impI, elim conjE)
  fix dir p e
  assume dir: "environment_dir m c = Inr dir" and p: "in_dir dir p"
    and l: "load m ''environment'' (environment_from_dict (m_rt m)) p w' = Inr e"
  from assms(1) dir p have "map_of (w_files w') p = map_of (w_files w) p" "grows w w'"
    by (auto simp: quiet_def agree_on_def)
  with l assms(2) dir p show "pointers_ok m c w' e"
    by (auto simp: environments_ok_def load_cong [of w' p w] intro: pointers_ok_grows)
qed

lemma environment_reparse_same:
  "environment_from_dict rt (environment_to_dict e) = Inr e' \<Longrightarrow> e' = e"
  unfolding environment_from_dict_def bindR_Inr_iff
  by (elim exE conjE) (simp add: environment_to_dict_def mdl_parsers get_or_def protected_Inr; clarsimp)

text \<open>Saving an environment with good pointers keeps the environments' pointers good.\<close>

lemma save_environment_ok_pointers:
  assumes "save_environment m c e w = (x, w')" and "environments_ok m c w" and "pointers_ok m c w e"
  shows "environments_ok m c w'"
proof (cases x)
  case (Inl err)
  have "w' = w"
    using assms(1) Inl write_document_run by (fastforce simp: save_environment_def bindW_Inl op_run split: if_splits)
  with assms(2) show ?thesis by simp
next
  case (Inr u)
  from save_environment_Inr [OF assms(1) [unfolded Inr]] obtain dir doc where
    dir: "environment_dir m c = Inr dir" and w': "w' = put (dir @ [json_name (env_id e)]) doc w" (is "_ = put ?p doc w")
    by blast
  have same: "e' = e" if "load m ''environment'' (environment_from_dict (m_rt m)) ?p w' = Inr e'" for e'
  proof -
    from assms(1) Inr dir have "write_document m ?p ''environment'' (environment_to_dict e) w = (Inr (), w')"
      by (auto simp: save_environment_def op_simps split: if_splits)
    from write_document_run [OF this] obtain doc' where
      d: "wrap_document ''environment'' (environment_to_dict e) = Inr doc'" "w' = put ?p doc' w" by auto
    obtain d' where "environment_to_dict e = VDict d'" by (simp add: environment_to_dict_def)
    with d that have "environment_from_dict (m_rt m) (environment_to_dict e) = Inr e'"
      by (simp add: load_def read_written map_of_put)
    then show ?thesis by (rule environment_reparse_same)
  qed
  have "revision_dir m c = Inr rd \<Longrightarrow> agree_on rd w w'" for rd
    unfolding w' agree_on_put using dir by (auto simp: dirs_def sub_dir_Inr)
  then have valid: "valid_version m c w' v r" if "valid_version m c w v r" for v r
    using that get_revision_agree [of m c _ w w' v]
    by (auto simp: valid_version_def) (auto simp: get_revision_def bindR_Inr_iff)
  show ?thesis
    unfolding environments_ok_def
  proof (intro allI impI, elim conjE)
    fix dir' p e'
    assume d': "environment_dir m c = Inr dir'" and p: "in_dir dir' p"
      and l: "load m ''environment'' (environment_from_dict (m_rt m)) p w' = Inr e'"
    have "pointers_ok m c w e'"
    proof (cases "p = ?p")
      case True
      with same l assms(3) show ?thesis by simp
    next
      case False
      then have "map_of (w_files w') p = map_of (w_files w) p" by (simp add: w' map_of_put)
      with l d' p assms(2) show ?thesis by (auto simp: environments_ok_def load_cong [of w' p w])
    qed
    with valid show "pointers_ok m c w' e'" unfolding pointers_ok_def by blast
  qed
qed

lemma bindW_reading: "bindW (readW f) g w = (case f w of Inl err \<Rightarrow> (Inl err, w) | Inr y \<Rightarrow> g y w)"
  by (simp add: bindW_def readW_def)

lemma bindW_clock: "bindW (utc_now m) g w = g (m_now m (w_ticks w)) (w\<lparr>w_ticks := Suc (w_ticks w)\<rparr>)"
  by (simp add: bindW_def op_run)

lemma switch_cases:
  assumes "switch_environment m c e action actor r tgt w = (x, w')"
  shows "w' = w \<or> (\<exists>now w1 y w2. quiet m c w w1
    \<and> save_environment m c (switched e tgt now actor) w1 = (y, w2) \<and> quiet m c w2 w')"
proof (cases "previous_checksum m c (env_current e) w")
  case (Inl err)
  with assms show ?thesis by (simp add: switch_environment_def bindW_reading)
next
  case (Inr pchk)
  let ?now = "m_now m (w_ticks w)" and ?w1 = "w\<lparr>w_ticks := Suc (w_ticks w)\<rparr>"
  have q: "quiet m c w ?w1" by (simp add: quiet_def grows_def agree_on_def)
  obtain y w2 where sv: "save_environment m c (switched e tgt ?now actor) ?w1 = (y, w2)" by fastforce
  have "quiet m c w2 w'"
  proof (cases y)
    case (Inl err)
    with assms Inr sv show ?thesis
      by (simp add: switch_environment_def bindW_reading bindW_clock Let_def bindW_stop quiet.refl)
  next
    case (Inr u)
    have k: "keeps (quiet m c) (bindW (record_event m c action actor ''success'' (Some (env_id e)) (Some tgt)
        (env_current e) (Some (rev_checksum r)) pchk
        [(''environment'', VStr (env_label e)), (''protected'', VBool (env_protected e))])
        (\<lambda>event. retW (switched e tgt ?now actor, event)))" (is "keeps _ ?rest")
      by (intro quiet.rules record_event_quiet)
    from assms sv Inr \<open>previous_checksum m c (env_current e) w = Inr pchk\<close> have "?rest w2 = (x, w')"
      by (simp add: switch_environment_def bindW_reading bindW_clock Let_def bindW_step)
    from keepsD [OF k this] show ?thesis .
  qed
  with q sv show ?thesis by blast
qed

lemma switch_environments_ok:
  assumes "switch_environment m c e action actor r tgt w = (x, w')" and "environments_ok m c w"
    and "pointers_ok m c w e" and "valid_version m c w tgt r"
  shows "environments_ok m c w'"
  using switch_cases [OF assms(1)]
proof (elim disjE exE conjE)
  assume "w' = w"
  with assms(2) show ?thesis by simp
next
  fix now w1 y w2
  assume q: "quiet m c w w1" and sv: "save_environment m c (switched e tgt now actor) w1 = (y, w2)"
    and q2: "quiet m c w2 w'"
  from q have g: "grows w w1" by (simp add: quiet_def)
  have "pointers_ok m c w1 (switched e tgt now actor)"
    using pointers_ok_grows [OF g assms(3)] valid_version_grows [OF g assms(4)]
    by (auto simp: pointers_ok_def)
  from environments_ok_quiet [OF q2 save_environment_ok_pointers [OF sv environments_ok_quiet [OF q assms(2)] this]]
  show ?thesis .
qed

end
