(* ===== verification/Lifecycle.thy ===== *)
theory Lifecycle
  imports Activation
begin

section \<open>The life of a container (control/service.py)\<close>

text \<open>
  The calls of the service on one container as a state machine: creating revisions and environments,
  activating and rolling back, and anything that happens elsewhere in the store.  Whatever the calls
  return, the history stays a chain, the audit log stays numbered without gaps, and the environments
  only ever point to stored, intact and valid revisions.
\<close>

subsection \<open>What happens elsewhere\<close>

definition untouched :: "container \<Rightarrow> machine \<Rightarrow> world \<Rightarrow> world \<Rightarrow> bool" where
  "untouched c m w w' \<longleftrightarrow> (\<forall>n dir. sub_dir m c n = Inr dir \<longrightarrow> agree_on dir w w')"

interpretation untouched: frame "untouched c m"
  by unfold_locales (auto simp: untouched_def intro: agree.refl, blast intro: agree.trans)

lemma untouchedI: "(\<And>dir. length dir = 5 \<Longrightarrow> keeps (agree_on dir) f) \<Longrightarrow> keeps (untouched c m) f"
  by (auto simp: keeps_def untouched_def sub_dir_Inr container_dir_Inr)

lemma shallow_write_agree: "length p \<noteq> 6 \<Longrightarrow> length dir = 5 \<Longrightarrow> keeps (agree_on dir) (write_document m p kind v)"
  by (rule write_agree) (auto simp: in_dir_def)

lemma ensure_default_scope_untouched: "length dir = 5 \<Longrightarrow> keeps (agree_on dir) (ensure_default_scope m)"
proof -
  assume len: "length dir = 5"
  note writes = shallow_write_agree [OF _ len]
  have ws: "keeps (agree_on dir) (save_workspace m x)" for x
    unfolding save_workspace_def
    by (intro agree.rules keeps_lift_bind agree.frame_axioms writes) (auto simp: workspace_dir_def bindR_Inr_iff)
  have org: "keeps (agree_on dir) (save_organization m x)" for x
    unfolding save_organization_def by (rule writes) (simp add: organization_path_def)
  have meta: "keeps (agree_on dir) (write_meta m d)" for d
    unfolding write_meta_def by (intro agree.rules writes) (simp add: metadata_path_def)
  have first: "keeps (agree_on dir) (first_workspace m o1)" for o1
    unfolding first_workspace_def new_workspace_def
    by (intro agree.bind agree.reading) (auto split: list.split intro!: agree.rules ws stamped_agree)
  show ?thesis
    unfolding ensure_default_scope_def
    by (intro agree.rules first meta)
      (auto split: list.split intro!: agree.rules org stamped_agree)
qed

lemma find_container_untouched: "keeps (untouched c m) (find_container m i org)"
proof (rule untouchedI)
  fix dir :: path
  assume len: "length dir = 5"
  have "keeps (agree_on dir) (scope_org m org)"
    unfolding scope_org_def split_def by (intro agree.rules ensure_default_scope_untouched len)
  then show "keeps (agree_on dir) (find_container m i org)"
    unfolding find_container_def by (intro agree.rules)
qed

subsection \<open>The audit log\<close>

text \<open>An attempt to record an event that fails leaves every file as it was.\<close>

lemma record_event_Inl:
  assumes "record_event m c action actor result env version previous chk pchk details w = (Inl err, w')"
  shows "w_files w' = w_files w"
proof -
  have st: "w_files w1 = w_files w" if "stamped m build w = (y, w1)" for y w1 and build :: "string \<Rightarrow> string \<Rightarrow> audit_event res"
    using that by (auto simp: stamped_def bindW_def op_run)
  have ap: "w_files w2 = w_files w1" if "append_audit_event m c e w1 = (Inl err, w2)" for e w1 w2
    using that write_document_exclusive_run
    by (fastforce simp: append_audit_event_def bindW_Inl op_run Let_def split: if_splits)
  from assms show ?thesis
    unfolding record_event_def bindW_Inl by (auto dest!: st ap)
qed

definition audit_kept :: "machine \<Rightarrow> container \<Rightarrow> world \<Rightarrow> world \<Rightarrow> bool" where
  "audit_kept m c w w' \<longleftrightarrow> (audit_ok m c w \<longrightarrow> audit_ok m c w')"

interpretation audit_kept: frame "audit_kept m c"
  by unfold_locales (auto simp: audit_kept_def)

lemma audit_ok_agree: "audit_dir m c = Inr dir \<Longrightarrow> agree_on dir w w' \<Longrightarrow> audit_ok m c w' \<longleftrightarrow> audit_ok m c w"
  by (simp add: audit_ok_def list_audit_events_agree)

lemma audit_kept_agree:
  assumes "\<And>dir. audit_dir m c = Inr dir \<Longrightarrow> keeps (agree_on dir) f"
  shows "keeps (audit_kept m c) f"
proof (cases "audit_dir m c")
  case (Inl err)
  then show ?thesis by (simp add: keeps_def audit_kept_def audit_ok_def list_audit_events_def)
next
  case (Inr dir)
  with assms [OF Inr] audit_ok_agree [OF Inr] show ?thesis unfolding keeps_def audit_kept_def by blast
qed

lemma next_sequence_numbered:
  "map au_sequence es = map int [1..<Suc (length es)] \<Longrightarrow> next_sequence es = int (length es) + 1"
proof (induction es rule: rev_induct)
  case (snoc e es)
  then have ih: "next_sequence es = int (length es) + 1" and e: "au_sequence e = int (length es) + 1" by auto
  have step: "foldr max (xs @ [x]) 0 = max (foldr max xs 0) x" if "0 \<le> x" for xs and x :: int
    using that by (induction xs) auto
  from ih e show ?case using step [of "au_sequence e" "map au_sequence es"] by (simp add: next_sequence_def)
qed (simp add: next_sequence_def)

lemma record_event_audit:
  assumes "good_machine m"
  shows "keeps (audit_kept m c) (record_event m c action actor result env version previous chk pchk details)"
    (is "keeps _ ?op")
proof -
  have "audit_kept m c w (snd (?op w))" for w
  proof (cases "?op w")
    case (Pair x w')
    show ?thesis
    proof (cases x)
      case (Inl err)
      with Pair have "w_files w' = w_files w" by (auto dest: record_event_Inl)
      then have "audit_ok m c w \<Longrightarrow> audit_ok m c w'"
        using audit_ok_agree agree_on_files by (fastforce simp: audit_ok_def list_audit_events_def bindR_Inr_iff)
      with Pair show ?thesis by (simp add: audit_kept_def)
    next
      case (Inr s)
      from record_event_Inr [OF Pair [unfolded Inr] assms] obtain es where
        es: "list_audit_events m c w = Inr es" "list_audit_events m c w' = Inr (es @ [s])"
          "au_sequence s = next_sequence es" by blast
      then show ?thesis using Pair next_sequence_numbered [of es] by (auto simp: audit_kept_def audit_ok_def)
    qed
  qed
  then show ?thesis by (simp add: keeps_def)
qed

lemma record_failure_audit: "good_machine m \<Longrightarrow> keeps (audit_kept m c) (record_failure m c e action actor reason tgt)"
  unfolding record_failure_def by (rule record_event_audit)

lemma quiet_steps_audit:
  "keeps (audit_kept m c) (new_id m')" "keeps (audit_kept m c) (utc_now m')" "keeps (audit_kept m c) (stamped m' build)"
  "keeps (audit_kept m c) (save_revision m c r)" "keeps (audit_kept m c) (save_environment m c e)"
  by (auto intro!: audit_kept_agree draws_agree stamped_agree save_revision_agree save_environment_agree
      simp: dirs_def sub_dir_Inr)

lemma checks_audit:
  assumes "good_machine m"
  shows "keeps (audit_kept m c) (check_protected m c e action actor tgt allow)"
    and "keeps (audit_kept m c) (check_expected m c e action actor tgt expected)"
    and "keeps (audit_kept m c) (checked_revision m c e action actor tgt)"
    and "keeps (audit_kept m c) (activation_target m c version)"
    and "keeps (audit_kept m c) (switch_environment m c e action actor r tgt)"
proof -
  note rules = audit_kept.rules record_failure_audit record_event_audit quiet_steps_audit assms
  show "keeps (audit_kept m c) (check_protected m c e action actor tgt allow)"
    unfolding check_protected_def by (intro rules)
  show "keeps (audit_kept m c) (check_expected m c e action actor tgt expected)"
    unfolding check_expected_def by (intro rules)
  show "keeps (audit_kept m c) (checked_revision m c e action actor tgt)"
    unfolding checked_revision_def split_def by (intro rules)
  show "keeps (audit_kept m c) (activation_target m c version)"
    unfolding activation_target_def by (intro rules)
  show "keeps (audit_kept m c) (switch_environment m c e action actor r tgt)"
    unfolding switch_environment_def Let_def by (intro rules)
qed

lemma operations_audit:
  assumes "good_machine m"
  shows "keeps (audit_kept m c) (add_revision m c payload parent by' notes status)"
    and "keeps (audit_kept m c) (add_environment m c name protected by')"
    and "keeps (audit_kept m c) (activate m c e version expected allow by')"
    and "keeps (audit_kept m c) (rollback m c e expected allow by')"
proof -
  note rules = audit_kept.rules checks_audit record_failure_audit record_event_audit quiet_steps_audit assms
  show "keeps (audit_kept m c) (add_revision m c payload parent by' notes status)"
    unfolding add_revision_def Let_def by (intro rules)
  show "keeps (audit_kept m c) (add_environment m c name protected by')"
    unfolding add_environment_def by (intro rules)
  show "keeps (audit_kept m c) (activate m c e version expected allow by')"
    unfolding activate_def split_def by (intro rules)
  show "keeps (audit_kept m c) (rollback m c e expected allow by')"
    unfolding rollback_def split_def by (intro rules)
qed

subsection \<open>The history of revisions\<close>

lemma history_ok_agree: "revision_dir m c = Inr dir \<Longrightarrow> agree_on dir w w' \<Longrightarrow> history_ok m c w' \<longleftrightarrow> history_ok m c w"
  by (simp add: history_ok_def list_revisions_agree)

lemma history_ok_keeps:
  assumes "\<And>dir. revision_dir m c = Inr dir \<Longrightarrow> keeps (agree_on dir) f" and "f w = (x, w')" and "history_ok m c w"
  shows "history_ok m c w'"
proof -
  from assms(3) obtain dir where dir: "revision_dir m c = Inr dir"
    by (auto simp: history_ok_def list_revisions_def bindR_Inr_iff)
  with history_ok_agree [OF dir keepsD [OF assms(1) [OF dir] assms(2)]] assms(3) show ?thesis by simp
qed

lemma history_ok_files:
  assumes "w_files w' = w_files w" and "history_ok m c w"
  shows "history_ok m c w'"
proof -
  from assms(2) obtain dir where "revision_dir m c = Inr dir"
    by (auto simp: history_ok_def list_revisions_def bindR_Inr_iff)
  from history_ok_agree [OF this agree_on_files [OF assms(1)]] assms(2) show ?thesis by simp
qed

lemma bindW_lift: "bindW (liftW r) g w = (case r of Inl err \<Rightarrow> (Inl err, w) | Inr y \<Rightarrow> g y w)"
  by (simp add: bindW_def liftW_def)

lemma add_revision_history:
  assumes "add_revision m c payload parent by' notes status w = (x, w')"
    and "good_machine m" and "arg_ok (m_rt m) payload" and "history_ok m c w"
  shows "history_ok m c w'"
proof -
  from assms(4) obtain rs where rs: "list_revisions m c w = Inr rs" and ch: "chain rs"
    by (auto simp: history_ok_def)
  let ?build = "\<lambda>i now. revision_create (m_rt m) i now (ct_id c) (next_number (latest_of rs))
      (map_option rev_version (latest_of rs)) payload status by' notes"
  let ?rest = "\<lambda>r. bindW (save_revision m c r) (\<lambda>_. bindW (event_of_revision m c by' r) (\<lambda>_. retW r))"
  have run: "add_revision m c payload parent by' notes status w =
      bindW (liftW (expect_parent m parent (map_option rev_version (latest_of rs))))
        (\<lambda>_. bindW (stamped m ?build) ?rest) w"
    by (simp add: add_revision_def bindW_reading rs Let_def event_of_revision_def)
  obtain y w1 where st: "stamped m ?build w = (y, w1)" by fastforce
  then have "w_files w1 = w_files w" by (auto simp: stamped_def bindW_def op_run)
  from history_ok_files [OF this assms(4)] have h1: "history_ok m c w1" .
  show ?thesis
  proof (cases "expect_parent m parent (map_option rev_version (latest_of rs))")
    case (Inl err)
    with run assms(1,4) show ?thesis by (simp add: bindW_lift)
  next
    case (Inr u)
    with run assms(1) have go: "bindW (stamped m ?build) ?rest w = (x, w')" by (simp add: bindW_lift)
    show ?thesis
    proof (cases y)
      case (Inl err)
      with go st h1 show ?thesis by (simp add: bindW_stop)
    next
      case y: (Inr r)
      with go st have go: "?rest r w1 = (x, w')" by (simp add: bindW_step)
      obtain z w2 where sv: "save_revision m c r w1 = (z, w2)" by fastforce
      show ?thesis
      proof (cases z)
        case (Inl err)
        have "w2 = w1"
          using sv Inl write_document_exclusive_run
          by (fastforce simp: save_revision_def bindW_Inl op_run split: if_splits)
        with go sv Inl h1 show ?thesis by (simp add: bindW_stop)
      next
        case (Inr u')
        note saved = add_revision_saved [OF assms(2,3) rs \<open>expect_parent _ _ _ = Inr u\<close> st [unfolded y] sv [unfolded Inr]]
        have "number_of (rev_number r) = int (length rs) + 1"
          using saved(4) chain_last_number [OF ch]
          by (cases "rs = []") (simp_all add: next_number_def latest_of_def number_of_def [of "VInt _"])
        with ch saved(2,5) have h2: "history_ok m c w2" by (simp add: history_ok_def chain_snoc)
        from go sv Inr have ev: "bindW (event_of_revision m c by' r) (\<lambda>_. retW r) w2 = (x, w')"
          by (simp add: bindW_step)
        have "keeps (agree_on dir) (bindW (event_of_revision m c by' r) (\<lambda>_. retW r))"
          if "revision_dir m c = Inr dir" for dir
          unfolding event_of_revision_def using that
          by (intro agree.rules record_event_agree) (auto simp: dirs_def sub_dir_Inr)
        from history_ok_keeps [OF this ev h2] show ?thesis .
      qed
    qed
  qed
qed

subsection \<open>The environments\<close>

lemma add_revision_quiet: "keeps (quiet m c) (add_revision m c payload parent by' notes status)"
  by (intro quietI add_revision_grows add_revision_agree) (auto simp: dirs_def sub_dir_Inr)

definition environments_kept :: "machine \<Rightarrow> container \<Rightarrow> world \<Rightarrow> world \<Rightarrow> bool" where
  "environments_kept m c w w' \<longleftrightarrow> (environments_ok m c w \<longrightarrow> environments_ok m c w')"

interpretation environments_kept: frame "environments_kept m c"
  by unfold_locales (auto simp: environments_kept_def)

lemma environments_kept_quiet: "keeps (quiet m c) f \<Longrightarrow> keeps (environments_kept m c) f"
  by (auto simp: keeps_def environments_kept_def intro: environments_ok_quiet)

lemma save_fresh_environment:
  "env_current e = None \<Longrightarrow> env_previous e = None \<Longrightarrow> keeps (environments_kept m c) (save_environment m c e)"
  using save_environment_ok_pointers [of m c e]
  by (auto simp: keeps_def environments_kept_def pointers_ok_def) (metis prod.collapse)

lemma add_environment_kept: "keeps (environments_kept m c) (add_environment m c name protected by')"
  unfolding add_environment_def
  by (intro environments_kept.bind_post environments_kept.rules save_fresh_environment
      environments_kept_quiet [OF record_event_quiet] environments_kept_quiet [OF draws_quiet(3)])
    (auto simp: stamped_Inr environment_create_Inr)

lemma add_environment_agree:
  assumes "\<And>a. audit_dir m c = Inr a \<Longrightarrow> a \<noteq> dir" and "\<And>a. environment_dir m c = Inr a \<Longrightarrow> a \<noteq> dir"
  shows "keeps (agree_on dir) (add_environment m c name protected by')"
  unfolding add_environment_def
  by (intro agree.rules stamped_agree save_environment_agree record_event_agree assms)

lemma resolve_environment_pointers:
  "environments_ok m c w \<Longrightarrow> resolve_environment m c ref w = Inr e \<Longrightarrow> pointers_ok m c w e"
  by (auto dest!: resolve_environment_loaded simp: environments_ok_def)

lemma activate_environments:
  assumes "activate m c e version expected allow by' w = (x, w')" and "environments_ok m c w" and "pointers_ok m c w e"
  shows "environments_ok m c w'"
  using activate_cases [OF assms(1)] environments_ok_quiet [OF _ assms(2)] switch_environments_ok [OF _ assms(2,3)]
  by blast

lemma rollback_environments:
  assumes "rollback m c e expected allow by' w = (x, w')" and "environments_ok m c w" and "pointers_ok m c w e"
  shows "environments_ok m c w'"
  using rollback_cases [OF assms(1)] environments_ok_quiet [OF _ assms(2)] switch_environments_ok [OF _ assms(2,3)]
  by blast

subsection \<open>The state machine\<close>

text \<open>
  One call on the container \<open>c\<close>, with any result, or any change elsewhere.
\<close>

inductive container_step :: "machine \<Rightarrow> container \<Rightarrow> world \<Rightarrow> world \<Rightarrow> bool" for m c where
  revision: "find_container m i org w = (Inr c, w1) \<Longrightarrow> arg_ok (m_rt m) payload
    \<Longrightarrow> create_revision m i payload org parent by' notes status w = (x, w') \<Longrightarrow> container_step m c w w'"
| environment: "find_container m i org w = (Inr c, w1)
    \<Longrightarrow> create_environment m i name protected org by' w = (y, w') \<Longrightarrow> container_step m c w w'"
| activation: "find_container m i org w = (Inr c, w1)
    \<Longrightarrow> activate_environment m i ref version expected allow org by' w = (z, w') \<Longrightarrow> container_step m c w w'"
| rollback: "find_container m i org w = (Inr c, w1)
    \<Longrightarrow> rollback_environment m i ref expected allow org by' w = (z, w') \<Longrightarrow> container_step m c w w'"
| elsewhere: "untouched c m w w' \<Longrightarrow> container_step m c w w'"

inductive container_reachable :: "machine \<Rightarrow> container \<Rightarrow> world \<Rightarrow> bool" for m c where
  start: "list_revisions m c w = Inr [] \<Longrightarrow> list_audit_events m c w = Inr []
    \<Longrightarrow> list_environments m c w = Inr [] \<Longrightarrow> container_reachable m c w"
| step: "container_reachable m c w \<Longrightarrow> container_step m c w w' \<Longrightarrow> container_reachable m c w'"

definition container_ok :: "machine \<Rightarrow> container \<Rightarrow> world \<Rightarrow> bool" where
  "container_ok m c w \<longleftrightarrow> history_ok m c w \<and> audit_ok m c w \<and> environments_ok m c w"

lemma container_ok_start:
  assumes "list_revisions m c w = Inr []" and "list_audit_events m c w = Inr []" and "list_environments m c w = Inr []"
  shows "container_ok m c w"
proof -
  have "\<not> load m ''environment'' (environment_from_dict (m_rt m)) p w = Inr e"
    if "environment_dir m c = Inr dir" "in_dir dir p" for dir p e
  proof
    assume l: "load m ''environment'' (environment_from_dict (m_rt m)) p w = Inr e"
    then have "path_exists w p"
      by (auto simp: load_def read_document_def path_exists_def bindR_Inr_iff split: option.splits)
    with that have "p \<in> set (glob_json w dir)" by (simp add: set_glob_json)
    moreover from assms(3) that(1) have "glob_json w dir = []"
      by (cases "glob_json w dir") (auto simp: list_environments_def load_all_def bindR_Inr_iff)
    ultimately show False by simp
  qed
  with assms(1,2) show ?thesis
    by (auto simp: container_ok_def history_ok_def audit_ok_def environments_ok_def)
qed

lemma container_ok_untouched:
  assumes "untouched c m w w'" and "container_ok m c w"
  shows "container_ok m c w'"
proof -
  from assms(2) obtain rd ad where rd: "revision_dir m c = Inr rd" and ad: "audit_dir m c = Inr ad"
    by (auto simp: container_ok_def history_ok_def audit_ok_def list_revisions_def list_audit_events_def bindR_Inr_iff)
  with assms(1) have ag: "agree_on rd w w'" "agree_on ad w w'" by (auto simp: untouched_def dirs_def)
  then have h: "history_ok m c w'" and a: "audit_ok m c w'"
    using assms(2) history_ok_agree [OF rd] audit_ok_agree [OF ad] by (auto simp: container_ok_def)
  have "pointers_ok m c w' e" if "pointers_ok m c w e" for e
    using that get_revision_agree [OF rd ag(1)] by (simp add: pointers_ok_def valid_version_def)
  moreover have "load m k f p w' = load m k f p w" if "environment_dir m c = Inr ed" "in_dir ed p"
    for ed p k and f :: "pyval \<Rightarrow> environment res"
    using assms(1) that by (intro load_cong) (auto simp: untouched_def dirs_def agree_on_def)
  ultimately have "environments_ok m c w'"
    using assms(2) by (fastforce simp: container_ok_def environments_ok_def)
  with h a show ?thesis by (simp add: container_ok_def)
qed

lemma container_ok_history:
  assumes "container_ok m c w" and "f w = (x, w')" and "\<And>dir. revision_dir m c = Inr dir \<Longrightarrow> keeps (agree_on dir) f"
  shows "history_ok m c w'"
  using history_ok_keeps [of m c f, OF assms(3,2)] assms(1) by (simp add: container_ok_def)

lemma container_step_ok:
  assumes "container_step m c w w'" and "good_machine m" and "container_ok m c w"
  shows "container_ok m c w'"
proof -
  have found: "container_ok m c w1" if "find_container m i org w = (Inr c, w1)" for i org w1
    using container_ok_untouched [OF keepsD [OF find_container_untouched that] assms(3)] .
  show ?thesis
    using assms(1)
  proof cases
    case (revision i org w1 payload parent by' comment status x)
    then have run: "add_revision m c payload parent by' comment status w1 = (x, w')"
      by (simp add: create_revision_def bindW_step)
    from add_revision_history [OF run assms(2) revision(2)] keepsD [OF operations_audit(1) [OF assms(2)] run]
      environments_ok_quiet [OF keepsD [OF add_revision_quiet run]] found [OF revision(1)]
    show ?thesis by (simp add: container_ok_def audit_kept_def)
  next
    case (environment i org w1 name protected by' y)
    then have run: "add_environment m c name protected by' w1 = (y, w')"
      by (simp add: create_environment_def bindW_step)
    have "history_ok m c w'"
      by (rule container_ok_history [OF found [OF environment(1)] run add_environment_agree])
        (auto simp: dirs_def sub_dir_Inr)
    with keepsD [OF operations_audit(2) [OF assms(2)] run] keepsD [OF add_environment_kept run] found [OF environment(1)]
    show ?thesis by (simp add: container_ok_def audit_kept_def environments_kept_def)
  next
    case (activation i org w1 ref version expected allow by' z)
    show ?thesis
    proof (cases "resolve_environment m c ref w1")
      case (Inl err)
      with activation found [OF activation(1)] show ?thesis
        by (simp add: activate_environment_def bindW_step bindW_reading)
    next
      case (Inr e)
      with activation have run: "activate m c e version expected allow by' w1 = (z, w')"
        by (simp add: activate_environment_def bindW_step bindW_reading)
      have "history_ok m c w'"
        by (rule container_ok_history [OF found [OF activation(1)] run activate_agree]) (auto simp: dirs_def sub_dir_Inr)
      with keepsD [OF operations_audit(3) [OF assms(2)] run] activate_environments [OF run]
        resolve_environment_pointers [OF _ Inr] found [OF activation(1)]
      show ?thesis by (simp add: container_ok_def audit_kept_def)
    qed
  next
    case (rollback i org w1 ref expected allow by' z)
    show ?thesis
    proof (cases "resolve_environment m c ref w1")
      case (Inl err)
      with rollback found [OF rollback(1)] show ?thesis
        by (simp add: rollback_environment_def bindW_step bindW_reading)
    next
      case (Inr e)
      with rollback have run: "Activation.rollback m c e expected allow by' w1 = (z, w')"
        by (simp add: rollback_environment_def bindW_step bindW_reading)
      have "history_ok m c w'"
        by (rule container_ok_history [OF found [OF rollback(1)] run rollback_agree]) (auto simp: dirs_def sub_dir_Inr)
      with keepsD [OF operations_audit(4) [OF assms(2)] run] rollback_environments [OF run]
        resolve_environment_pointers [OF _ Inr] found [OF rollback(1)]
      show ?thesis by (simp add: container_ok_def audit_kept_def)
    qed
  next
    case elsewhere
    from container_ok_untouched [OF this assms(3)] show ?thesis .
  qed
qed

lemma reachable_container_ok: "container_reachable m c w \<Longrightarrow> good_machine m \<Longrightarrow> container_ok m c w"
  by (induction rule: container_reachable.induct) (blast intro: container_ok_start container_step_ok)+

subsection \<open>When an attempt succeeds\<close>

lemma stored_checksum: "get_revision m c v w = Inr r \<Longrightarrow> rev_checksum r \<noteq> []"
  using get_revision_wf [of m c v w r] revision_checksum_nonempty
  by (fastforce simp: wf_revision_def verify_revision_Inr)

lemma previous_checksum_ok:
  assumes "pointers_ok m c w e"
  shows "\<exists>chk. previous_checksum m c (env_current e) w = Inr chk \<and> opt_ok (\<lambda>s. s \<noteq> []) chk"
proof (cases "env_current e")
  case (Some v)
  with assms obtain r where "get_revision m c v w = Inr r" by (auto simp: pointers_ok_def valid_version_def)
  with Some stored_checksum [OF this] show ?thesis by (simp add: previous_checksum_def)
qed (simp add: previous_checksum_def)

text \<open>
  What an attempt to switch an environment needs besides its checks: the environment belongs to the
  container, the audit log can be read, and the next fresh id is new in it.
\<close>

definition switchable :: "machine \<Rightarrow> container \<Rightarrow> environment \<Rightarrow> world \<Rightarrow> bool" where
  "switchable m c e w \<longleftrightarrow> wf_container c \<and> wf_environment e \<and> env_container_id e = ct_id c
     \<and> (\<exists>es. list_audit_events m c w = Inr es)
     \<and> (\<forall>dir. audit_dir m c = Inr dir \<longrightarrow> \<not> path_exists w (dir @ [json_name (m_new_id m (w_drawn w))]))"

text \<open>The files such an attempt may add: the environment's and one event's.\<close>

definition attempt_paths :: "machine \<Rightarrow> container \<Rightarrow> environment \<Rightarrow> world \<Rightarrow> world \<Rightarrow> bool" where
  "attempt_paths m c e w w' \<longleftrightarrow> w_drawn w' = Suc (w_drawn w) \<and> (\<forall>q. path_exists w' q \<longrightarrow> path_exists w q
     \<or> (\<exists>dir. environment_dir m c = Inr dir \<and> q = dir @ [json_name (env_id e)])
     \<or> (\<exists>dir. audit_dir m c = Inr dir \<and> q = dir @ [json_name (m_new_id m (w_drawn w))]))"

lemma switch_record_ok:
  assumes "good_machine m" and "switchable m c e w" and "is_uuid tgt" and "rev_checksum r \<noteq> []"
    and "opt_ok (\<lambda>s. s \<noteq> []) pchk" and "actor \<noteq> []" and "action \<noteq> []"
    and "save_environment m c (switched e tgt now actor) (w\<lparr>w_ticks := Suc (w_ticks w)\<rparr>) = (Inr u, w2)"
  shows "\<exists>event w'. record_event m c action actor ''success'' (Some (env_id e)) (Some tgt) (env_current e)
    (Some (rev_checksum r)) pchk [(''environment'', VStr (env_label e)), (''protected'', VBool (env_protected e))] w2
      = (Inr event, w') \<and> attempt_paths m c e w w'"
proof -
  from assms(2) obtain es dir where wf: "wf_container c" "wf_environment e"
    and es: "list_audit_events m c w = Inr es" and dir: "audit_dir m c = Inr dir"
    and new: "\<not> path_exists w (dir @ [json_name (m_new_id m (w_drawn w))])"
    by (auto simp: switchable_def list_audit_events_def bindR_Inr_iff)
  from save_environment_Inr [OF assms(8)] obtain ed doc where ed: "environment_dir m c = Inr ed"
    and w2: "w2 = put (ed @ [json_name (env_id e)]) doc (w\<lparr>w_ticks := Suc (w_ticks w)\<rparr>)" by auto
  from ed dir have ne: "ed \<noteq> dir" by (auto simp: dirs_def sub_dir_Inr)
  then have "agree_on dir w w2" by (auto simp: w2 agree_on_def map_of_put)
  from list_audit_events_agree [OF dir this] es have "list_audit_events m c w2 = Inr es" by simp
  moreover have "\<not> path_exists w2 (dir @ [json_name (m_new_id m (w_drawn w2))])"
    using new ne by (simp add: w2 path_exists_def map_of_put)
  ultimately obtain event doc' where "record_event m c action actor ''success'' (Some (env_id e)) (Some tgt)
      (env_current e) (Some (rev_checksum r)) pchk
      [(''environment'', VStr (env_label e)), (''protected'', VBool (env_protected e))] w2
    = (Inr event, put (dir @ [json_name (m_new_id m (w_drawn w2))]) doc'
        (w2\<lparr>w_drawn := Suc (w_drawn w2), w_ticks := Suc (w_ticks w2)\<rparr>))" (is "_ = (_, ?w')")
    using record_event_ok [OF assms(1) wf(1) dir, of w2 es action actor "''success''" "Some (env_id e)" "Some tgt"
        "env_current e" "Some (rev_checksum r)" pchk
        "[(''environment'', VStr (env_label e)), (''protected'', VBool (env_protected e))]"] assms(3-7) wf(2)
    by (auto simp: wf_environment_def)
  moreover have "attempt_paths m c e w ?w'"
    using ed dir by (simp add: attempt_paths_def w2 path_exists_def map_of_put)
  ultimately show ?thesis by blast
qed

lemma switch_ok:
  assumes "good_machine m" and "switchable m c e w" and "valid_version m c w tgt r" and "is_uuid tgt"
    and "pointers_ok m c w e" and "actor \<noteq> []" and "action \<noteq> []"
  shows "\<exists>updated event w'. switch_environment m c e action actor r tgt w = (Inr (updated, event), w')
    \<and> attempt_paths m c e w w'"
proof -
  let ?w1 = "w\<lparr>w_ticks := Suc (w_ticks w)\<rparr>" and ?e = "switched e tgt (m_now m (w_ticks w)) actor"
  from assms(2) obtain es where es: "list_audit_events m c w = Inr es" and cid: "env_container_id e = ct_id c"
    and wf: "wf_environment e" by (auto simp: switchable_def)
  then obtain ed where "environment_dir m c = Inr ed"
    by (auto simp: list_audit_events_def dirs_def sub_dir_Inr bindR_Inr_iff)
  moreover have "wf_environment ?e" using wf_switched [OF wf assms(4)] assms(1,6) by (simp add: good_machineD)
  ultimately obtain w2 where sv: "save_environment m c ?e ?w1 = (Inr (), w2)"
    using save_environment_ok [of ?e c m ed ?w1] cid by auto
  from previous_checksum_ok [OF assms(5)] obtain pchk where
    p: "previous_checksum m c (env_current e) w = Inr pchk" "opt_ok (\<lambda>s. s \<noteq> []) pchk" by blast
  have "rev_checksum r \<noteq> []"
    using assms(3) by (auto simp: valid_version_def dest: stored_checksum)
  from switch_record_ok [OF assms(1,2,4) this p(2) assms(6,7) sv] obtain event w' where
    "record_event m c action actor ''success'' (Some (env_id e)) (Some tgt) (env_current e) (Some (rev_checksum r)) pchk
       [(''environment'', VStr (env_label e)), (''protected'', VBool (env_protected e))] w2 = (Inr event, w')"
    "attempt_paths m c e w w'" by blast
  with sv p(1) show ?thesis
    by (simp add: switch_environment_def bindW_reading bindW_clock Let_def bindW_step op_run)
qed

lemma activate_ok:
  assumes "good_machine m" and "switchable m c e w" and "valid_version m c w v r"
    and "pointers_ok m c w e" and "actor \<noteq> []" and "env_protected e \<longrightarrow> allow"
    and "expected = None \<or> expected = env_current e"
  shows "\<exists>a w'. activate m c e (Some v) expected allow actor w = (Inr a, w') \<and> env_current (ar_environment a) = Some v
    \<and> (env_current e \<noteq> Some v \<longrightarrow> ar_changed a \<and> attempt_paths m c e w w')"
proof -
  have v: "is_uuid v" using assms(3) by (auto simp: valid_version_def get_revision_def bindR_Inr_iff validate_id_Inr)
  have "opt_ok is_uuid (env_current e)" using assms(2) by (simp add: switchable_def wf_environment_def)
  then have "is_uuid x" if "env_current e = Some x" for x using that by simp
  with assms(7) have ex: "check_expected m c e action actor v expected w = (Inr (), w)" for action
    by (auto simp: check_expected_Inr)
  have pr: "check_protected m c e action actor v allow w = (Inr (), w)" for action
    using assms(6) by (simp add: check_protected_Inr)
  have cr: "checked_revision m c e action actor v w = (Inr r, w)" for action
    using assms(3) by (simp add: checked_revision_Inr)
  have tgt: "activation_target m c (Some v) w = (Inr v, w)"
    using v by (simp add: activation_target_def bindW_def op_run)
  show ?thesis
  proof (cases "env_current e = Some v")
    case True
    with tgt pr ex cr show ?thesis by (simp add: activate_def bindW_step op_run)
  next
    case False
    from switch_ok [OF assms(1-3) v assms(4,5), of "''environment.activated''"] obtain updated event w' where
      sw: "switch_environment m c e ''environment.activated'' actor r v w = (Inr (updated, event), w')"
      "attempt_paths m c e w w'" by auto
    from sw(1) have "env_current updated = Some v" by (auto simp: switch_environment_def op_simps Let_def)
    with False tgt pr ex cr sw show ?thesis by (simp add: activate_def bindW_step op_run)
  qed
qed

lemma rollback_ok:
  assumes "good_machine m" and "switchable m c e w" and "env_previous e = Some v" and "pointers_ok m c w e"
    and "actor \<noteq> []" and "\<not> env_protected e"
  shows "\<exists>a w'. rollback m c e None False actor w = (Inr a, w')"
proof -
  from assms(3,4) obtain r where r: "valid_version m c w v r" by (auto simp: pointers_ok_def)
  then have v: "is_uuid v" by (auto simp: valid_version_def get_revision_def bindR_Inr_iff validate_id_Inr)
  have cr: "checked_revision m c e action actor v w = (Inr r, w)" for action
    using r by (simp add: checked_revision_Inr)
  from switch_ok [OF assms(1,2) r v assms(4,5), of "''environment.rolled_back''"] obtain updated event w' where
    "switch_environment m c e ''environment.rolled_back'' actor r v w = (Inr (updated, event), w')" by auto
  with assms(3,6) cr show ?thesis
    by (simp add: rollback_def check_protected_def check_expected_def bindW_step op_run)
qed

text \<open>An attempt to switch that raises leaves the environments alone, if its event can be recorded.\<close>

lemma switch_Inl:
  assumes "switch_environment m c e action actor r tgt w = (Inl err, w')" and "good_machine m"
    and "switchable m c e w" and "valid_version m c w tgt r" and "is_uuid tgt" and "actor \<noteq> []" and "action \<noteq> []"
  shows "w_files w' = w_files w"
proof (cases "previous_checksum m c (env_current e) w")
  case (Inl err')
  with assms(1) show ?thesis by (simp add: switch_environment_def bindW_reading)
next
  case (Inr pchk)
  let ?w1 = "w\<lparr>w_ticks := Suc (w_ticks w)\<rparr>" and ?e = "switched e tgt (m_now m (w_ticks w)) actor"
  obtain y w2 where sv: "save_environment m c ?e ?w1 = (y, w2)" by fastforce
  show ?thesis
  proof (cases y)
    case y: (Inl err')
    with assms(1) Inr sv have "w' = w2"
      by (simp add: switch_environment_def bindW_reading bindW_clock Let_def bindW_stop)
    moreover have "w2 = ?w1"
      using sv y write_document_run by (fastforce simp: save_environment_def bindW_Inl op_run split: if_splits)
    ultimately show ?thesis by simp
  next
    case y: (Inr u)
    have "opt_ok (\<lambda>s. s \<noteq> []) pchk"
      using Inr stored_checksum by (auto simp: previous_checksum_def bindR_Inr_iff split: option.splits)
    moreover have "rev_checksum r \<noteq> []"
      using assms(4) by (auto simp: valid_version_def dest: stored_checksum)
    ultimately obtain event w3 where "record_event m c action actor ''success'' (Some (env_id e)) (Some tgt)
        (env_current e) (Some (rev_checksum r)) pchk
        [(''environment'', VStr (env_label e)), (''protected'', VBool (env_protected e))] w2 = (Inr event, w3)"
      using switch_record_ok [OF assms(2,3,5) _ _ assms(6,7) sv [unfolded y]] by blast
    with assms(1) Inr sv y have False
      by (simp add: switch_environment_def bindW_reading bindW_clock Let_def bindW_step op_run)
    then show ?thesis ..
  qed
qed

lemma attempt_Inl:
  assumes "quiet m c w w' \<or> (\<exists>tgt r. is_uuid tgt \<and> valid_version m c w tgt r
      \<and> (\<exists>y. switch_environment m c e action actor r tgt w = (y, w') \<and> (\<forall>err. x = Inl err \<longrightarrow> y = Inl err)))"
    and "x = Inl err" and "good_machine m" and "switchable m c e w" and "actor \<noteq> []" and "action \<noteq> []"
  shows "quiet m c w w'"
  using assms(1)
proof (elim disjE exE conjE)
  fix tgt r y
  assume "is_uuid tgt" "valid_version m c w tgt r" "switch_environment m c e action actor r tgt w = (y, w')"
    "\<forall>err. x = Inl err \<longrightarrow> y = Inl err"
  with assms(2) have "w_files w' = w_files w" using switch_Inl [OF _ assms(3,4) _ _ assms(5,6)] by blast
  then show ?thesis by (simp add: quiet_def grows_def agree_on_files)
qed

lemma activation_step:
  assumes "find_container m i org w = (Inr c, w1)" and "resolve_environment m c ref w1 = Inr e"
  shows "activate_environment m i ref version expected allow org by' w = activate m c e version expected allow by' w1"
    and "rollback_environment m i ref expected allow org by' w = rollback m c e expected allow by' w1"
  using assms by (simp_all add: activate_environment_def rollback_environment_def bindW_step bindW_reading)

lemma activate_changed:
  assumes "activate m c e version expected allow by' w = (Inr a, w')" and "ar_changed a"
    and "good_machine m" and "wf_environment e"
  shows "\<exists>tgt now. env_current e \<noteq> Some tgt \<and> ar_environment a = switched e tgt now by'
    \<and> get_environment m c (env_id e) w' = Inr (ar_environment a)"
proof -
  from activate_Inr [OF assms(1)] assms(2) obtain tgt r updated event where
    "is_uuid tgt" "env_current e \<noteq> Some tgt" "ar_environment a = updated"
    "switch_environment m c e ''environment.activated'' by' r tgt w = (Inr (updated, event), w')"
    by (auto split: if_splits)
  with switch_Inr [OF _ assms(3,4)] show ?thesis by blast
qed

lemma resolve_by_id: "get_environment m c i w = Inr e \<Longrightarrow> resolve_environment m c i w = Inr e"
  by (auto simp: resolve_environment_def on_not_found_def get_environment_def bindR_Inr_iff validate_id_Inr)

end
