(* ===== verification/Shop_Scenario.thy ===== *)
theory Shop_Scenario
  imports Lifecycle
begin

section \<open>A concrete store\<close>

text \<open>
  Runs of the service on the sample machine for the witnesses: a container in which revisions and an
  environment are created and activated, with the fresh ids drawn on the way.
\<close>

subsection \<open>Calls on a container stay in its directories\<close>

abbreviation deep :: "path \<Rightarrow> bool" where "deep p \<equiv> length p = 6"

lemma deep_write:
  "length p = 6 \<Longrightarrow> keeps (outside deep) (write_document m p kind v)"
  "length p = 6 \<Longrightarrow> keeps (outside deep) (write_document_exclusive m p kind v)"
  using write_document_run [of m p kind v] write_document_exclusive_run [of m p kind v]
  by (auto simp: keeps_def outside_def map_of_put) (metis (no_types, lifting) map_of_put prod.collapse)+

lemma sub_dir_length: "sub_dir m c n = Inr dir \<Longrightarrow> length dir = 5"
  by (auto simp: sub_dir_Inr container_dir_Inr)

lemma saves_deep:
  "keeps (outside deep) (save_environment m c e)" "keeps (outside deep) (save_revision m c r)"
  "keeps (outside deep) (append_audit_event m c ev)" "keeps (outside deep) (stamped m build)"
  unfolding save_environment_def save_revision_def append_audit_event_def stamped_def Let_def
  by (intro outside.rules keeps_lift_bind outside.frame_axioms deep_write draws_keep;
      auto simp: dirs_def dest: sub_dir_length)+

lemma record_event_deep:
  "keeps (outside deep) (record_event m c action actor result env version previous chk pchk details)"
  unfolding record_event_def by (intro outside.rules saves_deep)

lemma add_deep:
  "keeps (outside deep) (add_environment m c name protected by')"
  "keeps (outside deep) (add_revision m c payload parent by' notes status)"
  unfolding add_environment_def add_revision_def Let_def
  by (intro outside.rules saves_deep record_event_deep)+

lemma activate_deep: "keeps (outside deep) (activate m c e version expected allow by')"
  unfolding activate_def activation_target_def check_protected_def check_expected_def checked_revision_def
    record_failure_def switch_environment_def split_def Let_def
  by (intro outside.rules saves_deep draws_keep record_event_deep)

lemma find_container_outside:
  assumes "outside deep w w'" and "find_container m i (Some org) w = (Inr c, w)"
  shows "find_container m i (Some org) w' = (Inr c, w')"
proof -
  have g: "get_organization m x w' = get_organization m x w" for x
  proof -
    have "load m k f (organization_path y) w' = load m k f (organization_path y) w" for k y and f :: "pyval \<Rightarrow> organization res"
      using assms(1) by (intro load_cong) (simp add: outside_def organization_path_def)
    then show ?thesis by (simp add: get_organization_def)
  qed
  have h: "get_container m x i w' = get_container m x i w" for x
    unfolding get_container_def Let_def
  proof (rule bindR_cong, rule HOL.refl)
    fix dir
    assume "container_dir m x i = Inr dir"
    then have "length (dir @ [''container.json'']) \<noteq> 6" by (auto simp: container_dir_Inr)
    then have "map_of (w_files w') (dir @ [''container.json'']) = map_of (w_files w) (dir @ [''container.json''])"
      using assms(1) by (simp add: outside_def)
    then show "bindR (load m ''container'' (container_from_dict (m_rt m)) (dir @ [''container.json'']) w')
        (\<lambda>c. if ct_org_id c \<noteq> x \<or> uniqueness_key c \<noteq> py_casefold i
          then Inl (CorruptStoreError (''container file '' @ path_text m (dir @ [''container.json'']) @ '' has inconsistent identity''))
          else Inr c)
      = bindR (load m ''container'' (container_from_dict (m_rt m)) (dir @ [''container.json'']) w)
        (\<lambda>c. if ct_org_id c \<noteq> x \<or> uniqueness_key c \<noteq> py_casefold i
          then Inl (CorruptStoreError (''container file '' @ path_text m (dir @ [''container.json'']) @ '' has inconsistent identity''))
          else Inr c)"
      by (simp add: load_cong [of w' _ w])
  qed
  from assms(2) show ?thesis
    by (auto simp: find_container_def scope_org_def op_simps g h)
qed

subsection \<open>A store about to activate a revision\<close>

lemma add_environment_ok:
  assumes "good_machine m" and "wf_container c" and "container_dir m (ct_org_id c) (ct_id c) = Inr dir"
    and "list_environments m c w = Inr []" and "list_audit_events m c w = Inr es"
    and "\<not> path_exists w (dir @ [''audit'', json_name (m_new_id m (w_drawn w + 1))])"
    and "good_name name" and "by' \<noteq> []"
  shows "\<exists>e w'. add_environment m c name protected by' w = (Inr e, w') \<and> wf_environment e
    \<and> resolve_environment m c (env_id e) w' = Inr e \<and> env_current e = None \<and> env_previous e = None
    \<and> env_protected e = protected \<and> env_container_id e = ct_id c \<and> env_id e = m_new_id m (w_drawn w) \<and> env_label e = name
    \<and> w_drawn w' = w_drawn w + 2 \<and> (\<exists>es'. list_audit_events m c w' = Inr es')
    \<and> (\<forall>q. path_exists w' q \<longrightarrow> path_exists w q
      \<or> q = dir @ [''environments'', json_name (m_new_id m (w_drawn w))]
      \<or> q = dir @ [''audit'', json_name (m_new_id m (w_drawn w + 1))])"
proof -
  let ?i = "m_new_id m (w_drawn w)" and ?w1 = "w\<lparr>w_drawn := Suc (w_drawn w), w_ticks := Suc (w_ticks w)\<rparr>"
  have dirs: "environment_dir m c = Inr (dir @ [''environments''])" "audit_dir m c = Inr (dir @ [''audit''])"
    using assms(3) by (simp_all add: dirs_def sub_dir_def)
  have cid: "good_container_id (ct_id c)" "is_uuid (ct_org_id c)" using assms(2) by (simp_all add: wf_container_def)
  define e where "e = \<lparr>env_id = ?i, env_org_id = ct_org_id c, env_container_id = ct_id c, env_label = name,
     env_protected = protected, env_current = None, env_created_at = m_now m (w_ticks w), env_created_by = by',
     env_previous = None, env_updated_at = None, env_updated_by = None\<rparr>"
  have st: "stamped m (\<lambda>i now. environment_create (m_rt m) i now (ct_org_id c) (ct_id c) name protected by') w
      = (Inr e, ?w1)"
    using cid assms(7,8) by (simp add: stamped_Inr environment_create_Inr e_def)
  have wf: "wf_environment e"
    using cid assms(1,7,8) by (simp add: e_def wf_environment_def good_machineD)
  from save_environment_ok [OF wf _ dirs(1), of ?w1] obtain doc where
    sv: "save_environment m c e ?w1 = (Inr (), put (dir @ [''environments'', json_name ?i]) doc ?w1)" (is "_ = (_, ?w2)")
    and rd: "\<And>w'. map_of (w_files w') (dir @ [''environments'', json_name ?i]) = Some (Inr (VDict doc)) \<Longrightarrow>
       load m ''environment'' (environment_from_dict (m_rt m)) (dir @ [''environments'', json_name ?i]) w' = Inr e"
    by (auto simp: e_def)
  have "agree_on (dir @ [''audit'']) w ?w2"
    by (auto simp: agree_on_def map_of_put in_dir_def butlast_append)
  from list_audit_events_agree [OF dirs(2) this] assms(5) have au: "list_audit_events m c ?w2 = Inr es" by simp
  have new: "\<not> path_exists ?w2 (dir @ [''audit'', json_name (m_new_id m (w_drawn ?w2))])"
    using assms(6) by (simp add: path_exists_def map_of_put)
  obtain s doc' where ev: "record_event m c ''environment.created'' by' ''success'' (Some (env_id e)) None None None None
     [(''name'', VStr (env_label e)), (''protected'', VBool (env_protected e))] ?w2 = (Inr s,
       put (dir @ [''audit''] @ [json_name (m_new_id m (w_drawn ?w2))]) doc'
         (?w2\<lparr>w_drawn := Suc (w_drawn ?w2), w_ticks := Suc (w_ticks ?w2)\<rparr>))" (is "_ = (_, ?w3)")
    using record_event_ok [OF assms(1,2) dirs(2) au, of "''environment.created''" by' "''success''" "Some (env_id e)"
        None None None None "[(''name'', VStr (env_label e)), (''protected'', VBool (env_protected e))]"]
      new assms(8) wf by (auto simp: wf_environment_def)
  from ev sv st assms(4) have run: "add_environment m c name protected by' w = (Inr e, ?w3)"
    by (simp add: add_environment_def bindW_reading bindW_lift bindW_step op_run)
  have "load m ''environment'' (environment_from_dict (m_rt m)) (dir @ [''environments'', json_name ?i]) ?w3 = Inr e"
    by (rule rd) (simp add: map_of_put)
  then have "get_environment m c ?i ?w3 = Inr e"
    using dirs(1) wf by (simp add: get_environment_load e_def wf_environment_def)
  then have "resolve_environment m c (env_id e) ?w3 = Inr e"
    using wf by (simp add: resolve_environment_def e_def wf_environment_def on_not_found_def)
  moreover from record_event_Inr [OF ev assms(1)] have "\<exists>es'. list_audit_events m c ?w3 = Inr es'" by blast
  ultimately show ?thesis
    using run wf
    by (intro exI [of _ e] exI [of _ ?w3]) (simp add: path_exists_def map_of_put e_def)
qed

lemma empty_payload_valid:
  "\<exists>report. default_validation m payload_empty = Inr report \<and> report_valid report"
  by (simp add: default_validation_def default_adapter_registry_def register_def validate_config_payload_def
      payload_issues_def payload_empty_def all_objects_def report_valid_def index_by_def)

lemma sample_uuid_other: "k < n \<Longrightarrow> n < 100 \<Longrightarrow> sample_uuid n \<noteq> sample_uuid k"
  by (simp add: sample_uuid_inj)

subsection \<open>States of the store\<close>

text \<open>The container, its directory, and how many ids were drawn: no other deep file is there.\<close>

definition shop_state :: "container \<Rightarrow> path \<Rightarrow> nat \<Rightarrow> world \<Rightarrow> bool" where
  "shop_state c dir n w \<longleftrightarrow> container_reachable sample_machine c w
     \<and> find_container sample_machine ''Shop'' (Some (sample_uuid 98)) w = (Inr c, w) \<and> wf_container c
     \<and> container_dir sample_machine (ct_org_id c) (ct_id c) = Inr dir \<and> w_drawn w = n \<and> finite_val (container_to_dict c)
     \<and> shop_roots w \<and> (\<forall>q. path_exists w q \<longrightarrow> length q \<le> 5 \<or> (\<exists>x k. k < n \<and> q = dir @ [x, json_name (sample_uuid k)]))"

lemma shop_stateD:
  assumes "shop_state c dir n w"
  shows "container_reachable sample_machine c w"
    "find_container sample_machine ''Shop'' (Some (sample_uuid 98)) w = (Inr c, w)" "wf_container c"
    "container_dir sample_machine (ct_org_id c) (ct_id c) = Inr dir" "w_drawn w = n" "length dir = 4"
    "revision_dir sample_machine c = Inr (dir @ [''revisions''])"
    "environment_dir sample_machine c = Inr (dir @ [''environments''])"
    "audit_dir sample_machine c = Inr (dir @ [''audit''])"
    "\<exists>rs. list_revisions sample_machine c w = Inr rs" "\<exists>es. list_audit_events sample_machine c w = Inr es"
proof -
  from assms show r: "container_reachable sample_machine c w"
    and "find_container sample_machine ''Shop'' (Some (sample_uuid 98)) w = (Inr c, w)" "wf_container c"
    and dir: "container_dir sample_machine (ct_org_id c) (ct_id c) = Inr dir" and "w_drawn w = n"
    by (simp_all add: shop_state_def)
  from dir show "length dir = 4" by (auto simp: container_dir_Inr)
  from dir show "revision_dir sample_machine c = Inr (dir @ [''revisions''])"
    "environment_dir sample_machine c = Inr (dir @ [''environments''])"
    "audit_dir sample_machine c = Inr (dir @ [''audit''])"
    by (simp_all add: dirs_def sub_dir_def)
  from reachable_container_ok [OF r good_sample_machine]
  show "\<exists>rs. list_revisions sample_machine c w = Inr rs" "\<exists>es. list_audit_events sample_machine c w = Inr es"
    by (auto simp: container_ok_def history_ok_def audit_ok_def)
qed

lemma shop_fresh:
  assumes "shop_state c dir n w" and "n \<le> k" and "k < 100"
  shows "\<not> path_exists w (dir @ [x, json_name (sample_uuid k)])"
proof
  assume "path_exists w (dir @ [x, json_name (sample_uuid k)])"
  with assms(1) shop_stateD(6) [OF assms(1)] obtain l where "l < n" "sample_uuid k = sample_uuid l"
    by (auto simp: shop_state_def)
  with assms(2,3) show False by (simp add: sample_uuid_inj)
qed

lemma shop_start:
  "\<exists>c dir w. shop_state c dir 0 w \<and> list_revisions sample_machine c w = Inr []
     \<and> list_environments sample_machine c w = Inr []"
proof -
  from shop obtain c w dir where s: "find_container sample_machine ''Shop'' (Some (sample_uuid 98)) w = (Inr c, w)"
    "wf_container c" "container_dir sample_machine (ct_org_id c) (ct_id c) = Inr dir"
    "list_revisions sample_machine c w = Inr []" "list_environments sample_machine c w = Inr []"
    "list_audit_events sample_machine c w = Inr []" "\<forall>p. path_exists w p \<longrightarrow> length p \<le> 5" "w_drawn w = 0" "finite_val (container_to_dict c)" "shop_roots w" by blast
  then have "container_reachable sample_machine c w" by (blast intro: container_reachable.start)
  with s show ?thesis by (auto simp: shop_state_def)
qed

lemma shop_state_step:
  assumes "shop_state c dir n w" and "container_step sample_machine c w w'" and "outside deep w w'" and "w_drawn w' = n'"
    and "n \<le> n'" and "\<And>q. path_exists w' q \<Longrightarrow> path_exists w q \<or> (\<exists>x k. k < n' \<and> q = dir @ [x, json_name (sample_uuid k)])"
  shows "shop_state c dir n' w'"
proof -
  have "length q \<le> 5 \<or> (\<exists>x k. k < n' \<and> q = dir @ [x, json_name (sample_uuid k)])" if "path_exists w' q" for q
  proof -
    from assms(6) [OF that] assms(1) show ?thesis
      using less_le_trans [OF _ assms(5)] unfolding shop_state_def by blast
  qed
  moreover have "finite_val (container_to_dict c)" using assms(1) by (simp add: shop_state_def)
  moreover have "shop_roots w'" using assms(1,3) by (auto simp: shop_state_def shop_roots_def outside_def)
  ultimately show ?thesis using shop_stateD [OF assms(1)] assms(2,4) find_container_outside [OF assms(3)]
    unfolding shop_state_def by (blast intro: container_reachable.step)
qed

lemma new_deep: "q = dir @ [x, json_name (sample_uuid k)] \<Longrightarrow> k < n \<Longrightarrow>
    \<exists>x k. k < n \<and> q = dir @ [x, json_name (sample_uuid k)]"
  by blast

lemma shop_add_revision:
  assumes "shop_state c dir n w" and "n + 2 \<le> 100" and "list_revisions sample_machine c w = Inr rs"
    and "n' = n + 2"
  shows "\<exists>r w'. shop_state c dir n' w' \<and> list_revisions sample_machine c w' = Inr (rs @ [r])
    \<and> rev_version r = sample_uuid n \<and> valid_version sample_machine c w' (sample_uuid n) r
    \<and> quiet sample_machine c w w'"
proof -
  note s = shop_stateD [OF assms(1)]
  from s(11) obtain es where es: "list_audit_events sample_machine c w = Inr es" ..
  have arg: "arg_ok (m_rt sample_machine) NoPayload" by (simp add: arg_ok_def)
  have "\<exists>r w'. add_revision sample_machine c NoPayload None ''local'' [] ''draft'' w = (Inr r, w') \<and> w_drawn w' = w_drawn w + 2
    \<and> rev_payload r = payload_empty \<and> rev_version r = m_new_id sample_machine (w_drawn w) \<and> (\<forall>q. path_exists w' q \<longrightarrow> path_exists w q
      \<or> q = dir @ [''revisions'', json_name (m_new_id sample_machine (w_drawn w))]
      \<or> q = dir @ [''audit'', json_name (m_new_id sample_machine (w_drawn w + 1))])"
    by (rule add_revision_ok [OF good_sample_machine s(3,4) assms(3) es])
      (use assms(2) shop_fresh [OF assms(1), of n] shop_fresh [OF assms(1), of "n + 1"] in
        \<open>auto simp: s(5) parse_payload_arg_def wf_payload_empty REVISION_STATUSES_def\<close>)
  then obtain r w' where add: "add_revision sample_machine c NoPayload None ''local'' [] ''draft'' w = (Inr r, w')"
    and r: "w_drawn w' = n + 2" "rev_payload r = payload_empty" "rev_version r = sample_uuid n"
    and paths: "\<And>q. path_exists w' q \<Longrightarrow> path_exists w q \<or> q = dir @ [''revisions'', json_name (sample_uuid n)]
      \<or> q = dir @ [''audit'', json_name (sample_uuid (n + 1))]" by (auto simp: s(5))
  have cr: "create_revision sample_machine ''Shop'' NoPayload (Some (sample_uuid 98)) None ''local'' [] ''draft'' w = (Inr r, w')"
    using add s(2) by (simp add: create_revision_def bindW_step)
  have "shop_state c dir (n + 2) w'"
  proof (rule shop_state_step [OF assms(1) container_step.revision [OF s(2) arg cr] keepsD [OF add_deep(2) add] r(1)])
    fix q
    assume "path_exists w' q"
    from paths [OF this] show "path_exists w q \<or> (\<exists>x k. k < n + 2 \<and> q = dir @ [x, json_name (sample_uuid k)])"
      by (elim disjE) (erule disjI1, (rule disjI2, erule new_deep, simp)+)
  qed simp
  with add_revision_Inr [OF add good_sample_machine arg] assms(3) r empty_payload_valid keepsD [OF add_revision_quiet add]
  show ?thesis unfolding assms(4) by (intro exI [of _ r] exI [of _ w']) (auto simp: valid_version_def)
qed

lemma shop_add_environment:
  assumes "shop_state c dir n w" and "n + 2 \<le> 100" and "list_environments sample_machine c w = Inr []"
    and "n' = n + 2"
  shows "\<exists>e w'. shop_state c dir n' w' \<and> resolve_environment sample_machine c (env_id e) w' = Inr e
    \<and> env_current e = None \<and> env_previous e = None \<and> \<not> env_protected e \<and> env_container_id e = ct_id c
    \<and> env_id e = sample_uuid n \<and> agree_on (dir @ [''revisions'']) w w' \<and> env_label e = ''Shop''"
proof -
  note s = shop_stateD [OF assms(1)]
  from s(11) obtain es where es: "list_audit_events sample_machine c w = Inr es" ..
  have "\<not> path_exists w (dir @ [''audit'', json_name (m_new_id sample_machine (w_drawn w + 1))])"
    using shop_fresh [OF assms(1), of "n + 1"] assms(2) by (simp add: s(5))
  from add_environment_ok [OF good_sample_machine s(3,4) assms(3) es this good_shop(3), of "''local''" False] obtain e w' where
    ae: "add_environment sample_machine c ''Shop'' False ''local'' w = (Inr e, w')"
      "resolve_environment sample_machine c (env_id e) w' = Inr e" "env_current e = None" "env_previous e = None"
      "\<not> env_protected e" "env_container_id e = ct_id c" "w_drawn w' = n + 2" "env_id e = sample_uuid n" "env_label e = ''Shop''"
    and paths: "\<And>q. path_exists w' q \<Longrightarrow> path_exists w q \<or> q = dir @ [''environments'', json_name (sample_uuid n)]
      \<or> q = dir @ [''audit'', json_name (sample_uuid (n + 1))]" by (auto simp: s(5))
  have ce: "create_environment sample_machine ''Shop'' ''Shop'' False (Some (sample_uuid 98)) ''local'' w = (Inr e, w')"
    using s(2) ae(1) by (simp add: create_environment_def bindW_step)
  have "shop_state c dir (n + 2) w'"
  proof (rule shop_state_step [OF assms(1) container_step.environment [OF s(2) ce] keepsD [OF add_deep(1) ae(1)] ae(7)])
    fix q
    assume "path_exists w' q"
    from paths [OF this] show "path_exists w q \<or> (\<exists>x k. k < n + 2 \<and> q = dir @ [x, json_name (sample_uuid k)])"
      by (elim disjE) (erule disjI1, (rule disjI2, erule new_deep, simp)+)
  qed simp
  moreover from keepsD [OF add_environment_agree ae(1), of "dir @ [''revisions'']"] s(8,9)
  have "agree_on (dir @ [''revisions'']) w w'" by auto
  ultimately show ?thesis unfolding assms(4) using ae(2-9) by blast
qed

text \<open>An environment of the store that is about to be switched.\<close>

lemma shop_switchable:
  assumes "shop_state c dir n w" and "n < 100" and "resolve_environment sample_machine c ref w = Inr e"
    and "env_container_id e = ct_id c"
  shows "switchable sample_machine c e w"
  using shop_stateD [OF assms(1)] shop_fresh [OF assms(1), of n] assms resolve_environment_wf [OF assms(3)]
  by (simp add: switchable_def)

lemma shop_activate:
  assumes "shop_state c dir n w" and "n < 100" and "resolve_environment sample_machine c (env_id e) w = Inr e"
    and "env_container_id e = ct_id c" and "env_id e = sample_uuid k" and "k < n" and "\<not> env_protected e"
    and "valid_version sample_machine c w v r" and "env_current e \<noteq> Some v" and "n' = n + 1"
  shows "\<exists>a w'. activate_environment sample_machine ''Shop'' (env_id e) (Some v) None False (Some (sample_uuid 98)) ''local'' w
      = (Inr a, w') \<and> ar_changed a \<and> env_current (ar_environment a) = Some v \<and> env_previous (ar_environment a) = env_current e
    \<and> shop_state c dir n' w' \<and> resolve_environment sample_machine c (env_id e) w' = Inr (ar_environment a)
    \<and> env_id (ar_environment a) = env_id e \<and> env_container_id (ar_environment a) = ct_id c
    \<and> \<not> env_protected (ar_environment a) \<and> env_label (ar_environment a) = env_label e
    \<and> agree_on (dir @ [''revisions'']) w w'"
proof -
  note s = shop_stateD [OF assms(1)]
  from reachable_container_ok [OF s(1) good_sample_machine] assms(3) have ptr: "pointers_ok sample_machine c w e"
    by (simp add: container_ok_def resolve_environment_pointers)
  from activate_ok [OF good_sample_machine shop_switchable [OF assms(1-4)] assms(8) ptr, of "''local''" False None] assms(7,9)
  obtain a w' where act: "activate sample_machine c e (Some v) None False ''local'' w = (Inr a, w')"
      "env_current (ar_environment a) = Some v" and ch: "ar_changed a" and paths: "attempt_paths sample_machine c e w w'"
    by auto
  from activate_changed [OF act(1) ch good_sample_machine resolve_environment_wf [OF assms(3)]] obtain tgt now where
    a: "ar_environment a = switched e tgt now ''local''" "get_environment sample_machine c (env_id e) w' = Inr (ar_environment a)"
    by blast
  have run: "activate_environment sample_machine ''Shop'' (env_id e) (Some v) None False (Some (sample_uuid 98)) ''local'' w
      = (Inr a, w')"
    using act(1) activation_step(1) [OF s(2) assms(3)] by simp
  have "shop_state c dir (n + 1) w'"
  proof (rule shop_state_step [OF assms(1) container_step.activation [OF s(2) run] keepsD [OF activate_deep act(1)]])
    show "w_drawn w' = n + 1" using paths by (simp add: attempt_paths_def s(5))
    fix q
    assume "path_exists w' q"
    with paths have "path_exists w q \<or> q = dir @ [''environments'', json_name (sample_uuid k)]
        \<or> q = dir @ [''audit'', json_name (sample_uuid n)]"
      by (auto simp: attempt_paths_def s(5,8,9) assms(5))
    with assms(6) show "path_exists w q \<or> (\<exists>x k. k < n + 1 \<and> q = dir @ [x, json_name (sample_uuid k)])"
      by (elim disjE) (erule disjI1, (rule disjI2, erule new_deep, simp)+)
  qed simp
  moreover from keepsD [OF activate_agree act(1), of "dir @ [''revisions'']"] s(8,9)
  have "agree_on (dir @ [''revisions'']) w w'" by auto
  ultimately show ?thesis unfolding assms(10) using run ch act(2) a resolve_by_id [OF a(2)] assms(4,7)
    by (intro exI [of _ a] exI [of _ w']) simp
qed

lemma valid_version_shop:
  "shop_state c dir n w \<Longrightarrow> agree_on (dir @ [''revisions'']) w w' \<Longrightarrow>
     valid_version sample_machine c w' v r \<longleftrightarrow> valid_version sample_machine c w v r"
  using get_revision_agree [OF shop_stateD(7)] by (simp add: valid_version_def)

text \<open>Two revisions, one environment that points nowhere yet.\<close>

lemma shop_ready:
  "\<exists>c dir w e r1 r2. shop_state c dir 6 w \<and> resolve_environment sample_machine c (env_id e) w = Inr e
     \<and> env_current e = None \<and> env_previous e = None \<and> \<not> env_protected e \<and> env_container_id e = ct_id c
     \<and> env_id e = sample_uuid 4 \<and> env_label e = ''Shop'' \<and> valid_version sample_machine c w (sample_uuid 0) r1
     \<and> valid_version sample_machine c w (sample_uuid 2) r2"
proof -
  from shop_start obtain c dir w0 where s0: "shop_state c dir 0 w0" "list_revisions sample_machine c w0 = Inr []"
    "list_environments sample_machine c w0 = Inr []" by blast
  have n: "(0::nat) + 2 \<le> 100" "(2::nat) = 0 + 2" "(2::nat) + 2 \<le> 100" "(4::nat) = 2 + 2" "(4::nat) + 2 \<le> 100"
    "(6::nat) = 4 + 2" by simp_all
  from shop_add_revision [OF s0(1) n(1) s0(2) n(2)] obtain r1 w1 where
    s1: "shop_state c dir 2 w1" "list_revisions sample_machine c w1 = Inr [r1]"
      "valid_version sample_machine c w1 (sample_uuid 0) r1" "quiet sample_machine c w0 w1" by auto
  from shop_add_revision [OF s1(1) n(3) s1(2) n(4)] obtain r2 w2 where
    s2: "shop_state c dir 4 w2" "valid_version sample_machine c w2 (sample_uuid 2) r2" "quiet sample_machine c w1 w2" by auto
  from s2(3) have "grows w1 w2" by (simp add: quiet_def)
  from valid_version_grows [OF this s1(3)] have v1: "valid_version sample_machine c w2 (sample_uuid 0) r1" .
  from s1(4) s2(3) have "quiet sample_machine c w0 w2" by (rule quiet.trans)
  with shop_stateD(8) [OF s0(1)] list_environments_agree s0(3) have "list_environments sample_machine c w2 = Inr []"
    by (auto simp: quiet_def)
  from shop_add_environment [OF s2(1) n(5) this n(6)] obtain e w3 where
    "shop_state c dir 6 w3" "resolve_environment sample_machine c (env_id e) w3 = Inr e"
      "env_current e = None" "env_previous e = None" "\<not> env_protected e" "env_container_id e = ct_id c"
      "env_id e = sample_uuid 4" "env_label e = ''Shop''" and ag: "agree_on (dir @ [''revisions'']) w2 w3" by auto
  with v1 s2(2) valid_version_shop [OF s2(1) ag] show ?thesis by blast
qed

text \<open>The store after the activation of its first revision, and after that of its second.\<close>

lemma shop_active:
  "\<exists>c dir w e v a w'. shop_state c dir 6 w \<and> shop_state c dir 7 w' \<and> container_reachable sample_machine c w'
     \<and> resolve_environment sample_machine c (env_id e) w = Inr e \<and> env_current e = None
     \<and> activate_environment sample_machine ''Shop'' (env_id e) (Some v) None False (Some (sample_uuid 98))
         ''local'' w = (Inr a, w') \<and> ar_changed a \<and> env_current (ar_environment a) = Some v
     \<and> resolve_environment sample_machine c (env_id e) w' = Inr (ar_environment a)
     \<and> env_label (ar_environment a) = ''Shop'' \<and> \<not> env_protected (ar_environment a)"
proof -
  from shop_ready obtain c dir w e r1 where s: "shop_state c dir 6 w"
    "resolve_environment sample_machine c (env_id e) w = Inr e" "env_current e = None" "\<not> env_protected e"
    "env_container_id e = ct_id c" "env_id e = sample_uuid 4" "valid_version sample_machine c w (sample_uuid 0) r1"
    "env_label e = ''Shop''" by blast
  from s(3) have "env_current e \<noteq> Some (sample_uuid 0)" by simp
  have n: "(6::nat) < 100" "(4::nat) < 6" "(7::nat) = 6 + 1" by simp_all
  from shop_activate [OF s(1) n(1) s(2,5,6) n(2) s(4,7) \<open>env_current e \<noteq> _\<close> n(3)] obtain a w' where
    "activate_environment sample_machine ''Shop'' (env_id e) (Some (sample_uuid 0)) None False (Some (sample_uuid 98)) ''local'' w
      = (Inr a, w')" "ar_changed a" "env_current (ar_environment a) = Some (sample_uuid 0)"
    "shop_state c dir 7 w'" "resolve_environment sample_machine c (env_id e) w' = Inr (ar_environment a)"
    "env_label (ar_environment a) = ''Shop''" "\<not> env_protected (ar_environment a)" using s(8) by auto
  with s(1-3) shop_stateD(1) [of c dir 7 w'] show ?thesis by blast
qed

end
