(* ===== verification/Container_Safety.thy ===== *)
theory Container_Safety
  imports Shop_Scenario
begin

section \<open>Safety of activation and rollback\<close>

text \<open>
  The properties of the state machine of a container and of its calls.
\<close>

subsection \<open>Properties\<close>



text \<open>
  C5: activation is safe.  When it succeeds the environment was unprotected or the caller allowed it;
  the caller's expectation of the current version, if any, was right; the version made current is the
  requested one, stored, intact and valid.  If it was current already nothing changed.  Otherwise the
  stored environment is the returned one, it remembers the version that was current, and the audit
  log gained exactly one event, the success that names the version, its checksum and the environment.
\<close>
theorem activation_is_safe:
  assumes "activate_environment m i ref version expected allow org by' w = (Inr a, w')" and "good_machine m"
  shows "\<exists>c w1 e tgt r. find_container m i org w = (Inr c, w1) \<and> resolve_environment m c ref w1 = Inr e
    \<and> (env_protected e \<longrightarrow> allow) \<and> (\<forall>v. expected = Some v \<longrightarrow> env_current e = Some v)
    \<and> (\<forall>v. version = Some v \<longrightarrow> tgt = v) \<and> valid_version m c w1 tgt r
    \<and> env_current (ar_environment a) = Some tgt
    \<and> (if env_current e = Some tgt then \<not> ar_changed a \<and> ar_environment a = e \<and> w' = w1
       else ar_changed a \<and> get_environment m c (env_id e) w' = Inr (ar_environment a)
         \<and> env_previous (ar_environment a) = env_current e
         \<and> (\<exists>es ev. list_audit_events m c w1 = Inr es \<and> list_audit_events m c w' = Inr (es @ [ev])
             \<and> au_action ev = ''environment.activated'' \<and> au_result ev = ''success''
             \<and> au_environment_id ev = Some (env_id e) \<and> au_config_version ev = Some tgt
             \<and> au_checksum ev = Some (rev_checksum r)))"
proof -
  from assms(1) obtain c w1 e where c: "find_container m i org w = (Inr c, w1)"
    and e: "resolve_environment m c ref w1 = Inr e"
    and act: "activate m c e version expected allow by' w1 = (Inr a, w')"
    by (auto simp: activate_environment_def op_simps)
  from activate_Inr [OF act] obtain tgt r where t: "is_uuid tgt" "\<forall>v. version = Some v \<longrightarrow> tgt = v"
    "env_protected e \<longrightarrow> allow" "\<forall>v. expected = Some v \<longrightarrow> env_current e = Some v" "valid_version m c w1 tgt r"
    and res: "if env_current e = Some tgt
       then a = \<lparr>ar_environment = e, ar_previous = env_previous e, ar_changed = False, ar_event = None\<rparr> \<and> w' = w1
       else \<exists>updated event. switch_environment m c e ''environment.activated'' by' r tgt w1 = (Inr (updated, event), w')
         \<and> a = \<lparr>ar_environment = updated, ar_previous = env_current e, ar_changed = True, ar_event = Some event\<rparr>"
    by blast
  show ?thesis
  proof (cases "env_current e = Some tgt")
    case True
    with c e t res show ?thesis by auto
  next
    case False
    with res obtain updated event where
      sw: "switch_environment m c e ''environment.activated'' by' r tgt w1 = (Inr (updated, event), w')"
      and a: "a = \<lparr>ar_environment = updated, ar_previous = env_current e, ar_changed = True, ar_event = Some event\<rparr>"
      by auto
    from switch_Inr [OF sw assms(2) resolve_environment_wf [OF e] t(1)] obtain now es where
      n: "updated = switched e tgt now by'" "get_environment m c (env_id e) w' = Inr updated"
        "list_audit_events m c w1 = Inr es" "list_audit_events m c w' = Inr (es @ [event])"
        "au_action event = ''environment.activated''" "au_result event = ''success''"
        "au_config_version event = Some tgt" "au_environment_id event = Some (env_id e)"
        "au_checksum event = Some (rev_checksum r)" by blast
    show ?thesis
      by (intro exI [of _ c] exI [of _ w1] exI [of _ e] exI [of _ tgt] exI [of _ r]) (use c e t False n in \<open>simp add: a\<close>)
  qed
qed

theorem activation_is_safe_witness:
  "\<exists>c w w1 e v r. resolve_environment sample_machine c (env_id e) w = Inr e \<and> env_current e = Some v
     \<and> valid_version sample_machine c w1 v r \<and> env_previous e = None"
proof -
  from shop_active obtain c dir w e v a w' where s: "shop_state c dir 6 w"
    "resolve_environment sample_machine c (env_id e) w = Inr e" "env_current e = None"
    "activate_environment sample_machine ''Shop'' (env_id e) (Some v) None False (Some (sample_uuid 98))
       ''local'' w = (Inr a, w')" "ar_changed a"
    by (elim exE conjE) (rule that)
  note find = shop_stateD(2) [OF s(1)]
  from activation_is_safe [OF s(4) good_sample_machine] find s(2,3) obtain tgt r where
    t: "valid_version sample_machine c w tgt r" "env_current (ar_environment a) = Some tgt"
    "get_environment sample_machine c (env_id e) w' = Inr (ar_environment a)" "env_previous (ar_environment a) = None"
    by auto
  have "env_id (ar_environment a) = env_id e"
    using activate_changed [OF _ s(5) good_sample_machine resolve_environment_wf [OF s(2)]] s(4)
    by (simp add: activation_step(1) [OF find s(2)]) (metis switched_fields(3))
  with t resolve_by_id [OF t(3)] show ?thesis
    by (intro exI [of _ c] exI [of _ w'] exI [of _ w] exI [of _ "ar_environment a"] exI [of _ tgt] exI [of _ r]) simp
qed



text \<open>
  C7: a rollback undoes an activation.  After a successful activation that changed the environment, a
  successful rollback makes the version current that was current before it, remembers the activated
  version, and keeps the identity, name and protection of the environment.
\<close>
theorem rollback_undoes_activation:
  assumes "resolve_environment m c ref w = Inr e"
    and "activate m c e version expected allow by1 w = (Inr a, w1)" and "ar_changed a" and "good_machine m"
    and "resolve_environment m c (env_id e) w1 = Inr e1"
    and "rollback m c e1 expected' allow' by2 w1 = (Inr b, w2)"
  shows "env_current (ar_environment b) = env_current e
    \<and> env_previous (ar_environment b) = env_current (ar_environment a)
    \<and> env_id (ar_environment b) = env_id e \<and> env_label (ar_environment b) = env_label e
    \<and> env_protected (ar_environment b) = env_protected e
    \<and> get_environment m c (env_id e) w2 = Inr (ar_environment b)"
proof -
  from activate_changed [OF assms(2,3,4) resolve_environment_wf [OF assms(1)]] obtain tgt now where
    a: "ar_environment a = switched e tgt now by1" "get_environment m c (env_id e) w1 = Inr (ar_environment a)" by blast
  from resolve_by_id [OF a(2)] assms(5) have e1: "e1 = switched e tgt now by1" by (simp add: a(1))
  from rollback_Inr [OF assms(6)] obtain tgt' r updated event where
    b: "env_current e = Some tgt'" "valid_version m c w1 tgt' r" "ar_environment b = updated"
      "switch_environment m c e1 ''environment.rolled_back'' by2 r tgt' w1 = (Inr (updated, event), w2)"
    by (auto simp: e1)
  have "is_uuid tgt'" using b(2) by (auto simp: valid_version_def get_revision_def bindR_Inr_iff validate_id_Inr)
  from switch_Inr [OF b(4) assms(4) resolve_environment_wf [OF assms(5)] this] obtain now' where
    "updated = switched e1 tgt' now' by2" "get_environment m c (env_id e1) w2 = Inr updated" by blast
  with b(1,3) show ?thesis by (simp add: e1 a(1))
qed

theorem rollback_undoes_activation_witness:
  "\<exists>c w v (b :: activation_result) (e :: environment). env_current (ar_environment b) = env_current e \<and> env_current e = Some v
     \<and> get_environment sample_machine c (env_id e) w = Inr (ar_environment b)"
proof -
  from shop_ready obtain c dir w e r1 r2 where s: "shop_state c dir 6 w"
    "resolve_environment sample_machine c (env_id e) w = Inr e" "env_current e = None" "\<not> env_protected e"
    "env_container_id e = ct_id c" "env_id e = sample_uuid 4" "valid_version sample_machine c w (sample_uuid 0) r1"
    "valid_version sample_machine c w (sample_uuid 2) r2"
    by (elim exE conjE) (rule that)
  have "env_current e \<noteq> Some (sample_uuid 0)" using s(3) by simp
  have n: "(6::nat) < 100" "(4::nat) < 6" "(7::nat) = 6 + 1" "(7::nat) < 100" "(4::nat) < 7" "(8::nat) = 7 + 1" by simp_all
  from shop_activate [OF s(1) n(1) s(2,5,6) n(2) s(4,7) \<open>env_current e \<noteq> _\<close> n(3)] obtain a :: activation_result and w1 where
    a: "env_current (ar_environment a) = Some (sample_uuid 0)" "shop_state c dir 7 w1"
      "resolve_environment sample_machine c (env_id (ar_environment a)) w1 = Inr (ar_environment a)"
      "env_id (ar_environment a) = sample_uuid 4" "env_container_id (ar_environment a) = ct_id c"
      "\<not> env_protected (ar_environment a)" "agree_on (dir @ [''revisions'']) w w1"
    by (auto simp: s(6))
  from valid_version_shop [OF s(1) a(7)] s(8) have v: "valid_version sample_machine c w1 (sample_uuid 2) r2" by simp
  have "env_current (ar_environment a) \<noteq> Some (sample_uuid 2)" by (simp add: a(1) sample_uuid_inj)
  from shop_activate [OF a(2) n(4) a(3,5,4) n(5) a(6) v this n(6)] obtain b w2 where
    b: "activate_environment sample_machine ''Shop'' (env_id (ar_environment a)) (Some (sample_uuid 2)) None False
        (Some (sample_uuid 98)) ''local'' w1 = (Inr b, w2)" "ar_changed b"
      "env_previous (ar_environment b) = Some (sample_uuid 0)" "shop_state c dir 8 w2"
      "resolve_environment sample_machine c (env_id (ar_environment a)) w2 = Inr (ar_environment b)"
      "env_container_id (ar_environment b) = ct_id c" "\<not> env_protected (ar_environment b)"
    by (auto simp: a(1))
  have act: "activate sample_machine c (ar_environment a) (Some (sample_uuid 2)) None False ''local'' w1 = (Inr b, w2)"
    using b(1) activation_step(1) [OF shop_stateD(2) [OF a(2)] a(3)] by simp
  have sw: "switchable sample_machine c (ar_environment b) w2"
    by (rule shop_switchable [OF b(4) _ b(5,6)]) simp
  from reachable_container_ok [OF shop_stateD(1) [OF b(4)] good_sample_machine] b(5)
  have "pointers_ok sample_machine c w2 (ar_environment b)"
    by (simp add: container_ok_def resolve_environment_pointers)
  from rollback_ok [OF good_sample_machine sw b(3) this, of "''local''"] b(7) obtain d w3 where
    "rollback sample_machine c (ar_environment b) None False ''local'' w2 = (Inr d, w3)" by auto
  from rollback_undoes_activation [OF a(3) act b(2) good_sample_machine b(5) this] a(1) show ?thesis by blast
qed

text \<open>
  C8: activation succeeds when it should.  In a store reached by calls on the container, a version
  that is stored, intact and valid becomes current, provided the caller may and expects the right
  version, the audit log has room for the event and the actor is not empty.
\<close>
theorem activation_succeeds:
  assumes "find_container m i org w = (Inr c, w1)" and "container_reachable m c w1" and "good_machine m"
    and "resolve_environment m c ref w1 = Inr e" and "switchable m c e w1" and "valid_version m c w1 v r"
    and "by' \<noteq> []" and "env_protected e \<longrightarrow> allow" and "expected = None \<or> expected = env_current e"
  shows "\<exists>a w'. activate_environment m i ref (Some v) expected allow org by' w = (Inr a, w')
    \<and> env_current (ar_environment a) = Some v"
proof -
  from reachable_container_ok [OF assms(2,3)] have "pointers_ok m c w1 e"
    using assms(4) by (simp add: container_ok_def resolve_environment_pointers)
  from activate_ok [OF assms(3,5,6) this assms(7,8,9)] show ?thesis
    unfolding activation_step(1) [OF assms(1,4)] by blast
qed

theorem activation_succeeds_witness:
  "\<exists>w ref v a w'. activate_environment sample_machine ''Shop'' ref (Some v) None False (Some (sample_uuid 98)) ''local'' w
     = (Inr a, w') \<and> env_current (ar_environment a) = Some v"
proof -
  from shop_ready obtain c dir w e r1 where s: "shop_state c dir 6 w"
    "resolve_environment sample_machine c (env_id e) w = Inr e" "\<not> env_protected e" "env_container_id e = ct_id c"
    "valid_version sample_machine c w (sample_uuid 0) r1"
    by (elim exE conjE) (rule that)
  have "switchable sample_machine c e w" by (rule shop_switchable [OF s(1) _ s(2,4)]) simp
  from activation_succeeds [OF shop_stateD(2,1) [OF s(1)] good_sample_machine s(2) this s(5), of "''local''" False None] s(3)
  show ?thesis by blast
qed

text \<open>
  An activation by nobody destroys the environment.  The caller's \<open>activated_by\<close> is only
  checked when the audit event is built, after the environment was saved: with an empty actor the call
  raises, but the switch has been stored, with an empty \<open>updated_by\<close>, and the environment can no longer
  be read.
\<close>
theorem activation_without_actor:
  assumes "find_container m i org w = (Inr c, w1)" and "resolve_environment m c ref w1 = Inr e"
    and "valid_version m c w1 v r" and "pointers_ok m c w1 e" and "env_current e \<noteq> Some v"
    and "\<not> env_protected e" and "env_container_id e = ct_id c" and "wf_container c"
  shows "\<exists>err err' w'. activate_environment m i ref (Some v) None False org [] w = (Inl err, w')
    \<and> get_environment m c (env_id e) w' = Inl err'"
proof -
  let ?w2 = "w1\<lparr>w_ticks := Suc (w_ticks w1)\<rparr>" and ?e = "switched e v (m_now m (w_ticks w1)) []"
  from assms(3) have v: "is_uuid v" by (auto simp: valid_version_def get_revision_def bindR_Inr_iff validate_id_Inr)
  from audit_dir_ok [OF assms(8)] obtain dir where "container_dir m (ct_org_id c) (ct_id c) = Inr dir" by blast
  then have dir: "environment_dir m c = Inr (dir @ [''environments''])" by (simp add: dirs_def sub_dir_def)
  from previous_checksum_ok [OF assms(4)] obtain pchk where p: "previous_checksum m c (env_current e) w1 = Inr pchk"
    by blast
  let ?p = "dir @ [''environments'', json_name (env_id e)]"
  obtain d where d: "environment_to_dict ?e = VDict d" by (simp add: environment_to_dict_def)
  let ?doc = "[(''schema_version'', VStr CURRENT_SCHEMA_VERSION), (''kind'', VStr ''environment''), (''data'', VDict d)]"
  have wrap: "wrap_document ''environment'' (VDict d) = Inr ?doc" by (simp add: wrap_document_Inr DOCUMENT_KINDS_def)
  have "finite_val (VDict d)" unfolding d [symmetric] by (simp add: environment_to_dict_def)
  with wrap have sv: "save_environment m c ?e ?w2 = (Inr (), put ?p ?doc ?w2)" (is "_ = (_, ?w3)")
    using assms(7) dir
    by (simp add: save_environment_def write_document_def atomic_write_def put_file_def put_def bindW_def op_run d)
  have get: "\<exists>err. get_environment m c (env_id e) ?w3 = Inl err"
  proof (cases "get_environment m c (env_id e) ?w3")
    case (Inr e')
    have "is_uuid (env_id e)" using resolve_environment_wf [OF assms(2)] by (simp add: wf_environment_def)
    with Inr dir have "load m ''environment'' (environment_from_dict (m_rt m)) ?p ?w3 = Inr e'"
      by (simp add: get_environment_load)
    then have parse: "environment_from_dict (m_rt m) (environment_to_dict ?e) = Inr e'"
      using read_written [OF wrap, of ?w3 ?p m] by (simp add: load_def map_of_put d)
    from environment_reparse_same [OF this] environment_from_dict_wf [OF this] have "wf_environment ?e" by simp
    then show ?thesis by (simp add: wf_environment_def switched_def)
  qed blast
  obtain err w4 where rec: "record_event m c ''environment.activated'' [] ''success'' (Some (env_id e)) (Some v) (env_current e)
      (Some (rev_checksum r)) pchk [(''environment'', VStr (env_label e)), (''protected'', VBool (env_protected e))] ?w3
      = (Inl err, w4)" (is "?rec = _")
  proof (cases ?rec)
    case (Pair y w4)
    moreover have "y \<noteq> Inr s" for s
      using Pair by (auto simp: record_event_def op_simps stamped_Inr audit_create_Inr)
    ultimately show thesis using that by (cases y) auto
  qed
  from record_event_Inl [OF rec] have "get_environment m c (env_id e) w4 = get_environment m c (env_id e) ?w3"
    by (intro get_environment_agree [OF dir] agree_on_files) simp
  moreover have "switch_environment m c e ''environment.activated'' [] r v w1 = (Inl err, w4)"
    using p sv rec by (simp add: switch_environment_def bindW_reading bindW_clock Let_def bindW_step bindW_stop)
  then have "activate m c e (Some v) None False [] w1 = (Inl err, w4)"
    using assms(3,5,6) v
    by (simp add: activate_def activation_target_def check_protected_def check_expected_def bindW_lift bindW_step op_run
        checked_revision_Inr bindW_stop)
  ultimately show ?thesis using get by (simp add: activation_step(1) [OF assms(1,2)])
qed

theorem activation_without_actor_witness:
  "\<exists>c w ref i v err err' w'. activate_environment sample_machine ''Shop'' ref (Some v) None False (Some (sample_uuid 98)) [] w
      = (Inl err, w') \<and> get_environment sample_machine c i w' = Inl err'"
proof -
  from shop_ready obtain c dir w e r1 where s: "shop_state c dir 6 w"
    "resolve_environment sample_machine c (env_id e) w = Inr e" "env_current e = None" "env_previous e = None"
    "\<not> env_protected e" "env_container_id e = ct_id c" "valid_version sample_machine c w (sample_uuid 0) r1"
    by (elim exE conjE) (rule that)
  note state = shop_stateD(2,3) [OF s(1)]
  have "pointers_ok sample_machine c w e" "env_current e \<noteq> Some (sample_uuid 0)"
    using s(3,4) by (simp_all add: pointers_ok_def)
  from activation_without_actor [OF state(1) s(2,7) this s(5,6) state(2)] show ?thesis by blast
qed

end
