(* ===== verification/Filing.thy ===== *)
theory Filing
  imports Lifecycle
begin

section \<open>How the files of a container are named\<close>

text \<open>
  Two more invariants of a container under the calls of the service: every environment is in the file
  its id names and no two environments have the same name up to case; every revision of the history can
  be fetched by its version and has the current schema.
\<close>

subsection \<open>Environments\<close>

abbreviation load_environment :: "machine \<Rightarrow> path \<Rightarrow> world \<Rightarrow> environment res" where
  "load_environment m p w \<equiv> load m ''environment'' (environment_from_dict (m_rt m)) p w"

definition filed :: "machine \<Rightarrow> container \<Rightarrow> path \<Rightarrow> world \<Rightarrow> bool" where
  "filed m c dir w \<longleftrightarrow> (\<forall>p e. in_dir dir p \<longrightarrow> load_environment m p w = Inr e \<longrightarrow>
     p = dir @ [json_name (env_id e)] \<and> env_container_id e = ct_id c)"

definition labelled :: "machine \<Rightarrow> path \<Rightarrow> world \<Rightarrow> bool" where
  "labelled m dir w \<longleftrightarrow> (\<forall>p q e f. in_dir dir p \<longrightarrow> in_dir dir q \<longrightarrow> load_environment m p w = Inr e
     \<longrightarrow> load_environment m q w = Inr f \<longrightarrow> py_casefold (env_label e) = py_casefold (env_label f) \<longrightarrow> p = q)"

definition named_ok :: "machine \<Rightarrow> container \<Rightarrow> world \<Rightarrow> bool" where
  "named_ok m c w \<longleftrightarrow> (\<forall>dir. environment_dir m c = Inr dir \<longrightarrow> filed m c dir w \<and> labelled m dir w)"

definition named_kept :: "machine \<Rightarrow> container \<Rightarrow> world \<Rightarrow> world \<Rightarrow> bool" where
  "named_kept m c w w' \<longleftrightarrow> (named_ok m c w \<longrightarrow> named_ok m c w')"

interpretation named_kept: frame "named_kept m c"
  by unfold_locales (auto simp: named_kept_def)

lemma named_agree:
  assumes "\<And>dir. environment_dir m c = Inr dir \<Longrightarrow> agree_on dir w w'" and "named_ok m c w"
  shows "named_ok m c w'"
proof -
  have "load_environment m p w' = load_environment m p w" if "environment_dir m c = Inr dir" "in_dir dir p" for dir p
    using assms(1) [OF that(1)] that(2) by (intro load_cong) (simp add: agree_on_def)
  with assms(2) show ?thesis by (simp add: named_ok_def filed_def labelled_def cong: imp_cong)
qed

lemma named_quiet: "quiet m c w w' \<Longrightarrow> named_ok m c w \<Longrightarrow> named_ok m c w'"
  by (rule named_agree) (simp_all add: quiet_def)

lemma named_kept_quiet: "keeps (quiet m c) f \<Longrightarrow> keeps (named_kept m c) f"
  by (auto simp: keeps_def named_kept_def intro: named_quiet)

text \<open>Saving an environment whose name belongs to no other file.\<close>

lemma save_environment_cases:
  assumes "save_environment m c e w = (x, w')"
  shows "w' = w \<or> (\<exists>dir doc. environment_dir m c = Inr dir \<and> env_container_id e = ct_id c
    \<and> w' = put (dir @ [json_name (env_id e)]) doc w
    \<and> (\<forall>e'. load_environment m (dir @ [json_name (env_id e)]) w' = Inr e' \<longrightarrow> e' = e))"
proof (cases x)
  case (Inl err)
  with assms write_document_run show ?thesis
    by (fastforce simp: save_environment_def bindW_Inl op_run split: if_splits)
next
  case (Inr u)
  from save_environment_Inr [OF assms [unfolded Inr]] obtain dir doc where
    dir: "environment_dir m c = Inr dir" "env_container_id e = ct_id c"
    and w': "w' = put (dir @ [json_name (env_id e)]) doc w" (is "_ = put ?p doc w")
    by blast
  have "e' = e" if "load_environment m ?p w' = Inr e'" for e'
  proof -
    from assms Inr dir have "write_document m ?p ''environment'' (environment_to_dict e) w = (Inr (), w')"
      by (auto simp: save_environment_def op_simps split: if_splits)
    from write_document_run [OF this] obtain doc' where
      d: "wrap_document ''environment'' (environment_to_dict e) = Inr doc'" "w' = put ?p doc' w" by auto
    obtain d' where "environment_to_dict e = VDict d'" by (simp add: environment_to_dict_def)
    with d that have "environment_from_dict (m_rt m) (environment_to_dict e) = Inr e'"
      by (simp add: load_def read_written map_of_put)
    then show ?thesis by (rule environment_reparse_same)
  qed
  with dir w' show ?thesis by blast
qed

lemma save_environment_named:
  assumes "save_environment m c e w = (x, w')" and "named_ok m c w"
    and "\<And>dir q f. environment_dir m c = Inr dir \<Longrightarrow> in_dir dir q \<Longrightarrow> load_environment m q w = Inr f
      \<Longrightarrow> py_casefold (env_label f) = py_casefold (env_label e) \<Longrightarrow> q = dir @ [json_name (env_id e)]"
  shows "named_ok m c w'"
  using save_environment_cases [OF assms(1)]
proof (elim disjE exE conjE)
  assume "w' = w"
  with assms(2) show ?thesis by simp
next
  fix dir doc
  let ?p = "dir @ [json_name (env_id e)]"
  assume dir: "environment_dir m c = Inr dir" and own: "env_container_id e = ct_id c" and w': "w' = put ?p doc w"
    and same: "\<forall>e'. load_environment m ?p w' = Inr e' \<longrightarrow> e' = e"
  have other: "load_environment m q w' = load_environment m q w" if "q \<noteq> ?p" for q
    using that by (intro load_cong) (simp add: w' map_of_put)
  from assms(2) dir have old: "filed m c dir w" "labelled m dir w" by (auto simp: named_ok_def)
  have "filed m c dir w'"
    unfolding filed_def
  proof (intro allI impI)
    fix p f
    assume "in_dir dir p" "load_environment m p w' = Inr f"
    then show "p = dir @ [json_name (env_id f)] \<and> env_container_id f = ct_id c"
      using same own old(1) other [of p] by (cases "p = ?p") (auto simp: filed_def)
  qed
  moreover have "labelled m dir w'"
    unfolding labelled_def
  proof (intro allI impI)
    fix p q f g
    assume l: "in_dir dir p" "in_dir dir q" "load_environment m p w' = Inr f" "load_environment m q w' = Inr g"
      "py_casefold (env_label f) = py_casefold (env_label g)"
    consider "p = ?p" "q = ?p" | "p = ?p" "q \<noteq> ?p" | "p \<noteq> ?p" "q = ?p" | "p \<noteq> ?p" "q \<noteq> ?p" by blast
    then show "p = q"
    proof cases
      case 1
      then show ?thesis by simp
    next
      case 2
      with l same other have "load_environment m q w = Inr g" "py_casefold (env_label g) = py_casefold (env_label e)" by auto
      from assms(3) [OF dir l(2) this] 2 show ?thesis by simp
    next
      case 3
      with l same other have "load_environment m p w = Inr f" "py_casefold (env_label f) = py_casefold (env_label e)" by auto
      from assms(3) [OF dir l(1) this] 3 show ?thesis by simp
    next
      case 4
      with l other have "load_environment m p w = Inr f" "load_environment m q w = Inr g" by simp_all
      with l(1,2,5) old(2) show ?thesis unfolding labelled_def by blast
    qed
  qed
  ultimately show ?thesis using dir by (simp add: named_ok_def)
qed

lemma switch_named:
  assumes "switch_environment m c e action actor r tgt w = (x, w')" and "named_ok m c w"
    and "environment_dir m c = Inr dir" and "in_dir dir p" and "load_environment m p w = Inr e"
  shows "named_ok m c w'"
  using switch_cases [OF assms(1)]
proof (elim disjE exE conjE)
  assume "w' = w"
  with assms(2) show ?thesis by simp
next
  fix now w1 y w2
  assume q: "quiet m c w w1" and sv: "save_environment m c (switched e tgt now actor) w1 = (y, w2)"
    and q2: "quiet m c w2 w'"
  from named_quiet [OF q assms(2)] have n1: "named_ok m c w1" .
  have "load_environment m p w1 = Inr e"
    using assms(3-5) q by (simp add: quiet_def agree_on_def load_cong [of w1 p w])
  moreover from this n1 assms(3,4) have "p = dir @ [json_name (env_id e)]" by (auto simp: named_ok_def filed_def)
  ultimately have "q = dir @ [json_name (env_id (switched e tgt now actor))]"
    if "in_dir dir q" "load_environment m q w1 = Inr f" "py_casefold (env_label f) = py_casefold (env_label e)" for q f
    using n1 assms(3,4) that by (simp add: named_ok_def labelled_def switched_def)
  then have "named_ok m c w2"
    using assms(3) by (intro save_environment_named [OF sv n1]) (simp_all add: switched_def)
  from named_quiet [OF q2 this] show ?thesis .
qed

lemma activate_named:
  assumes "activate m c e version expected allow by' w = (x, w')" and "named_ok m c w"
    and "resolve_environment m c ref w = Inr e"
  shows "named_ok m c w'"
  using activate_cases [OF assms(1)] named_quiet [OF _ assms(2)] resolve_environment_loaded [OF assms(3)]
    switch_named [OF _ assms(2)] by blast

lemma rollback_named:
  assumes "Activation.rollback m c e expected allow by' w = (x, w')" and "named_ok m c w"
    and "resolve_environment m c ref w = Inr e"
  shows "named_ok m c w'"
  using rollback_cases [OF assms(1)] named_quiet [OF _ assms(2)] resolve_environment_loaded [OF assms(3)]
    switch_named [OF _ assms(2)] by blast

text \<open>A new environment is refused when its name is taken.\<close>

lemma list_environments_set:
  assumes "list_environments m c w = Inr es" and "environment_dir m c = Inr dir"
  shows "e \<in> set es \<longleftrightarrow> (\<exists>p. in_dir dir p \<and> load_environment m p w = Inr e)"
proof -
  have ex: "path_exists w p" if "load_environment m p w = Inr e" for p e
    using that by (auto simp: load_def read_document_def path_exists_def bindR_Inr_iff split: option.splits)
  from assms have "mapR (\<lambda>p. load_environment m p w) (glob_json w dir) = Inr es"
    by (simp add: list_environments_def load_all_def)
  then have "e \<in> set es \<longleftrightarrow> (\<exists>p \<in> set (glob_json w dir). load_environment m p w = Inr e)" for e
    by (fastforce simp: mapR_Inr_list_all2 list_all2_conv_all_nth in_set_conv_nth)
  with ex show ?thesis by (auto simp: set_glob_json)
qed

lemma add_environment_named:
  assumes "add_environment m c name protected by' w = (x, w')" and "named_ok m c w"
  shows "named_ok m c w'"
proof (cases "list_environments m c w")
  case (Inl err)
  with assms show ?thesis by (simp add: add_environment_def bindW_reading)
next
  case (Inr es)
  let ?test = "anyR (\<lambda>e. bindR (validate_name (VStr name)) (\<lambda>name'. Inr (py_casefold (env_label e) = py_casefold name'))) es"
  let ?create = "bindW (stamped m (\<lambda>i now. environment_create (m_rt m) i now (ct_org_id c) (ct_id c) name protected by'))
    (\<lambda>e. bindW (save_environment m c e) (\<lambda>_.
       bindW (record_event m c ''environment.created'' by' ''success'' (Some (env_id e)) None None None None
         [(''name'', VStr (env_label e)), (''protected'', VBool (env_protected e))]) (\<lambda>_. retW e)))"
  from assms(1) Inr consider "w' = w" | "?test = Inr False" "?create w = (x, w')"
    by (auto simp: add_environment_def bindW_reading bindW_lift op_run split: sum.splits if_splits)
  then show ?thesis
  proof cases
    case 1
    with assms(2) show ?thesis by simp
  next
    case 2
    obtain y w1 where st: "stamped m (\<lambda>i now. environment_create (m_rt m) i now (ct_org_id c) (ct_id c) name protected by') w
        = (y, w1)" by fastforce
    from keepsD [OF draws_quiet(3) st] have q: "quiet m c w w1" .
    from named_quiet [OF q assms(2)] have n1: "named_ok m c w1" .
    show ?thesis
    proof (cases y)
      case (Inl err)
      with 2 st n1 show ?thesis by (simp add: bindW_stop)
    next
      case y: (Inr e)
      with st have e: "good_name name" "env_label e = name" by (auto simp: stamped_Inr environment_create_Inr)
      obtain z w2 where sv: "save_environment m c e w1 = (z, w2)" by fastforce
      have "named_ok m c w2"
      proof (rule save_environment_named [OF sv n1])
        fix dir q f
        assume dir: "environment_dir m c = Inr dir" and q': "in_dir dir q" and l: "load_environment m q w1 = Inr f"
          and label: "py_casefold (env_label f) = py_casefold (env_label e)"
        from q dir q' have "map_of (w_files w1) q = map_of (w_files w) q" by (simp add: quiet_def agree_on_def)
        with l q' list_environments_set [OF Inr dir] have "f \<in> set es" by (auto simp: load_cong [of w1 q w])
        then have "?test = Inr True"
          using e label by (auto simp: anyR_pure)
        with 2(1) show "q = dir @ [json_name (env_id e)]" by simp
      qed
      moreover have "keeps (named_kept m c) (bindW (record_event m c ''environment.created'' by' ''success'' (Some (env_id e))
          None None None None [(''name'', VStr (env_label e)), (''protected'', VBool (env_protected e))]) (\<lambda>_. retW e))" (is "keeps _ ?rest")
        by (intro named_kept.rules named_kept_quiet record_event_quiet)
      ultimately show ?thesis
        using 2(2) st y sv keepsD [of "named_kept m c" ?rest w2]
        by (cases z) (auto simp: bindW_step bindW_stop named_kept_def)
    qed
  qed
qed

subsection \<open>Revisions\<close>

definition fetched_ok :: "machine \<Rightarrow> container \<Rightarrow> world \<Rightarrow> bool" where
  "fetched_ok m c w \<longleftrightarrow> (\<forall>rs. list_revisions m c w = Inr rs \<longrightarrow>
     (\<forall>r \<in> set rs. get_revision m c (rev_version r) w = Inr r \<and> rev_schema r = SCHEMA_VERSION))"

lemma fetched_agree:
  assumes "revision_dir m c = Inr dir" and "agree_on dir w w'"
  shows "fetched_ok m c w' \<longleftrightarrow> fetched_ok m c w"
  by (simp add: fetched_ok_def list_revisions_agree [OF assms] get_revision_agree [OF assms])

lemma fetched_no_dir: "revision_dir m c = Inl err \<Longrightarrow> fetched_ok m c w"
  by (simp add: fetched_ok_def list_revisions_def)

lemma fetched_keeps:
  assumes "\<And>dir. revision_dir m c = Inr dir \<Longrightarrow> keeps (agree_on dir) f" and "f w = (x, w')" and "fetched_ok m c w"
  shows "fetched_ok m c w'"
proof (cases "revision_dir m c")
  case (Inl err)
  then show ?thesis by (rule fetched_no_dir)
next
  case (Inr dir)
  from fetched_agree [OF Inr keepsD [OF assms(1) [OF Inr] assms(2)]] assms(3) show ?thesis by simp
qed

definition fetched_kept :: "machine \<Rightarrow> container \<Rightarrow> world \<Rightarrow> world \<Rightarrow> bool" where
  "fetched_kept m c w w' \<longleftrightarrow> (fetched_ok m c w \<longrightarrow> fetched_ok m c w')"

interpretation fetched_kept: frame "fetched_kept m c"
  by unfold_locales (auto simp: fetched_kept_def)

lemma fetched_kept_agree:
  "(\<And>dir. revision_dir m c = Inr dir \<Longrightarrow> keeps (agree_on dir) f) \<Longrightarrow> keeps (fetched_kept m c) f"
  using fetched_keeps [of m c f] by (auto simp: keeps_def fetched_kept_def) (metis prod.collapse)

text \<open>A revision that is saved above the latest of the history.\<close>

lemma save_revision_fetched:
  assumes "save_revision m c r w = (Inr u, w')" and "wf_revision (m_rt m) r" and "list_revisions m c w = Inr rs"
    and "list_revisions m c w' = Inr (rs @ [r])" and "rev_schema r = SCHEMA_VERSION" and "fetched_ok m c w"
  shows "fetched_ok m c w'"
proof -
  from keepsD [OF save_revision_grows assms(1)] have g: "grows w w'" .
  have "get_revision m c (rev_version s) w' = Inr s \<and> rev_schema s = SCHEMA_VERSION" if "s \<in> set (rs @ [r])" for s
  proof (cases "s = r")
    case True
    with get_revision_after_save [OF assms(1,2)] assms(5) show ?thesis by simp
  next
    case False
    with that have "s \<in> set rs" by simp
    with assms(3,6) have "get_revision m c (rev_version s) w = Inr s" "rev_schema s = SCHEMA_VERSION"
      by (simp_all add: fetched_ok_def)
    with grows_get_revision [OF g] show ?thesis by blast
  qed
  with assms(4) show ?thesis by (simp add: fetched_ok_def)
qed

lemma add_revision_fetched:
  assumes "add_revision m c payload parent by' notes status w = (x, w')"
    and "good_machine m" and "arg_ok (m_rt m) payload" and "fetched_ok m c w"
  shows "fetched_ok m c w'"
proof (cases "list_revisions m c w")
  case (Inl err)
  with assms(1,4) show ?thesis by (simp add: add_revision_def bindW_reading)
next
  case (Inr rs)
  let ?build = "\<lambda>i now. revision_create (m_rt m) i now (ct_id c) (next_number (latest_of rs))
      (map_option rev_version (latest_of rs)) payload status by' notes"
  let ?rest = "\<lambda>r. bindW (save_revision m c r) (\<lambda>_. bindW (event_of_revision m c by' r) (\<lambda>_. retW r))"
  obtain y w1 where st: "stamped m ?build w = (y, w1)" by fastforce
  have agree: "keeps (agree_on dir) (stamped m ?build)" for dir by (rule stamped_agree)
  from assms(1) Inr consider "w' = w"
    | u where "expect_parent m parent (map_option rev_version (latest_of rs)) = Inr u" "bindW (stamped m ?build) ?rest w = (x, w')"
    by (auto simp: add_revision_def bindW_reading bindW_lift Let_def event_of_revision_def split: sum.splits)
  then show ?thesis
  proof cases
    case 1
    with assms(4) show ?thesis by simp
  next
    case 2
    have f1: "fetched_ok m c w1" by (rule fetched_keeps [OF agree st assms(4)])
    show ?thesis
    proof (cases y)
      case (Inl err)
      with 2 st f1 show ?thesis by (simp add: bindW_stop)
    next
      case y: (Inr r)
      with 2 st have go: "?rest r w1 = (x, w')" by (simp add: bindW_step)
      obtain z w2 where sv: "save_revision m c r w1 = (z, w2)" by fastforce
      show ?thesis
      proof (cases z)
        case (Inl err)
        have "w2 = w1"
          using sv Inl write_document_exclusive_run
          by (fastforce simp: save_revision_def bindW_Inl op_run split: if_splits)
        with go sv Inl f1 show ?thesis by (simp add: bindW_stop)
      next
        case (Inr u')
        note sv = sv [unfolded Inr]
        note saved = add_revision_saved [OF assms(2,3) \<open>list_revisions m c w = Inr rs\<close> 2(1) st [unfolded y] sv]
        from st y have "rev_schema r = SCHEMA_VERSION" and same: "w_files w1 = w_files w"
          by (auto simp: stamped_Inr dest!: revision_create_Inr)
        moreover have "list_revisions m c w1 = Inr rs"
        proof -
          from save_revision_Inr [OF sv saved(1)] obtain dir where "revision_dir m c = Inr dir" by blast
          from list_revisions_agree [OF this agree_on_files [OF same]] \<open>list_revisions m c w = Inr rs\<close> show ?thesis by simp
        qed
        ultimately have f2: "fetched_ok m c w2"
          using save_revision_fetched [OF sv saved(1) _ saved(2) _ f1] by simp
        from go sv have ev: "bindW (event_of_revision m c by' r) (\<lambda>_. retW r) w2 = (x, w')" by (simp add: bindW_step)
        have "keeps (fetched_kept m c) (bindW (event_of_revision m c by' r) (\<lambda>_. retW r))"
          unfolding event_of_revision_def
          by (intro fetched_kept.rules fetched_kept_agree record_event_agree) (auto simp: dirs_def sub_dir_Inr)
        from keepsD [OF this ev] f2 show ?thesis by (simp add: fetched_kept_def)
      qed
    qed
  qed
qed

subsection \<open>The state machine\<close>

definition files_ok :: "machine \<Rightarrow> container \<Rightarrow> world \<Rightarrow> bool" where
  "files_ok m c w \<longleftrightarrow> named_ok m c w \<and> fetched_ok m c w"

lemma files_ok_untouched:
  assumes "untouched c m w w'" and "files_ok m c w"
  shows "files_ok m c w'"
proof -
  have "named_ok m c w'"
    using assms named_agree [of m c w w'] by (simp add: files_ok_def untouched_def dirs_def)
  moreover have "fetched_ok m c w'"
    using assms fetched_agree [of m c _ w w'] fetched_no_dir [of m c]
    by (cases "revision_dir m c") (auto simp: files_ok_def untouched_def dirs_def)
  ultimately show ?thesis by (simp add: files_ok_def)
qed

lemma files_ok_start: "list_revisions m c w = Inr [] \<Longrightarrow> list_environments m c w = Inr [] \<Longrightarrow> files_ok m c w"
  using list_environments_set [of m c w "[]"]
  by (auto simp: files_ok_def named_ok_def filed_def labelled_def fetched_ok_def)

lemma container_step_files:
  assumes "container_step m c w w'" and "good_machine m" and "files_ok m c w"
  shows "files_ok m c w'"
proof -
  have found: "named_ok m c w1" "fetched_ok m c w1" if "find_container m i org w = (Inr c, w1)" for i org w1
    using files_ok_untouched [OF keepsD [OF find_container_untouched that] assms(3)] by (simp_all add: files_ok_def)
  show ?thesis
    using assms(1)
  proof cases
    case (revision i org w1 payload parent by' comment status x)
    then have run: "add_revision m c payload parent by' comment status w1 = (x, w')"
      by (simp add: create_revision_def bindW_step)
    from add_revision_fetched [OF run assms(2) revision(2)] named_quiet [OF keepsD [OF add_revision_quiet run]]
      found [OF revision(1)]
    show ?thesis by (simp add: files_ok_def)
  next
    case (environment i org w1 name protected by' y)
    then have run: "add_environment m c name protected by' w1 = (y, w')"
      by (simp add: create_environment_def bindW_step)
    have "fetched_ok m c w'"
      by (rule fetched_keeps [OF add_environment_agree run found(2) [OF environment(1)]]) (auto simp: dirs_def sub_dir_Inr)
    with add_environment_named [OF run found(1) [OF environment(1)]] show ?thesis by (simp add: files_ok_def)
  next
    case (activation i org w1 ref version expected allow by' z)
    show ?thesis
    proof (cases "resolve_environment m c ref w1")
      case (Inl err)
      with activation found [OF activation(1)] show ?thesis
        by (simp add: activate_environment_def bindW_step bindW_reading files_ok_def)
    next
      case (Inr e)
      with activation have run: "activate m c e version expected allow by' w1 = (z, w')"
        by (simp add: activate_environment_def bindW_step bindW_reading)
      have "fetched_ok m c w'"
        by (rule fetched_keeps [OF activate_agree run found(2) [OF activation(1)]]) (auto simp: dirs_def sub_dir_Inr)
      with activate_named [OF run found(1) [OF activation(1)] Inr] show ?thesis by (simp add: files_ok_def)
    qed
  next
    case (rollback i org w1 ref expected allow by' z)
    show ?thesis
    proof (cases "resolve_environment m c ref w1")
      case (Inl err)
      with rollback found [OF rollback(1)] show ?thesis
        by (simp add: rollback_environment_def bindW_step bindW_reading files_ok_def)
    next
      case (Inr e)
      with rollback have run: "Activation.rollback m c e expected allow by' w1 = (z, w')"
        by (simp add: rollback_environment_def bindW_step bindW_reading)
      have "fetched_ok m c w'"
        by (rule fetched_keeps [OF rollback_agree run found(2) [OF rollback(1)]]) (auto simp: dirs_def sub_dir_Inr)
      with rollback_named [OF run found(1) [OF rollback(1)] Inr] show ?thesis by (simp add: files_ok_def)
    qed
  next
    case elsewhere
    from files_ok_untouched [OF this assms(3)] show ?thesis .
  qed
qed

lemma reachable_files_ok: "container_reachable m c w \<Longrightarrow> good_machine m \<Longrightarrow> files_ok m c w"
  by (induction rule: container_reachable.induct) (blast intro: files_ok_start container_step_files)+

text \<open>What the listings of a reachable container contain.\<close>

lemma reachable_revisions:
  assumes "container_reachable m c w" and "good_machine m" and "list_revisions m c w = Inr rs"
  shows "chain rs" and "\<And>r. r \<in> set rs \<Longrightarrow> get_revision m c (rev_version r) w = Inr r \<and> rev_schema r = SCHEMA_VERSION"
    and "distinct (map rev_version rs)"
proof -
  from reachable_container_ok [OF assms(1,2)] reachable_files_ok [OF assms(1,2)]
  have ok: "history_ok m c w" "fetched_ok m c w" by (simp_all add: container_ok_def files_ok_def)
  from ok(1) assms(3) show ch: "chain rs" by (simp add: history_ok_def)
  from ok(2) assms(3) show fetch: "get_revision m c (rev_version r) w = Inr r \<and> rev_schema r = SCHEMA_VERSION"
    if "r \<in> set rs" for r using that by (simp add: fetched_ok_def)
  show "distinct (map rev_version rs)"
  proof (rule distinct_map [THEN iffD2], rule conjI)
    have number: "number_of (rev_number (rs ! i)) = int i + 1" if "i < length rs" for i
      using ch that by (simp add: chain_def)
    show "distinct rs"
      unfolding distinct_conv_nth
    proof (intro allI impI notI)
      fix i j
      assume "i < length rs" "j < length rs" "i \<noteq> j" "rs ! i = rs ! j"
      with number [of i] number [of j] show False by simp
    qed
    show "inj_on rev_version (set rs)" using fetch by (intro inj_onI) (metis sum.inject(2))
  qed
qed

lemma reachable_listings:
  assumes "container_reachable m c w" and "good_machine m"
    and "list_revisions m c w = Inr rs" and "list_environments m c w = Inr es"
  shows "chain rs" and "\<And>r. r \<in> set rs \<Longrightarrow> get_revision m c (rev_version r) w = Inr r \<and> rev_schema r = SCHEMA_VERSION"
    and "distinct (map rev_version rs)" and "\<And>e. e \<in> set es \<Longrightarrow> pointers_ok m c w e \<and> env_container_id e = ct_id c"
    and "distinct (map env_id es)" and "distinct (map (\<lambda>e. py_casefold (env_label e)) es)"
proof -
  note reachable_revisions [OF assms(1-3)]
  then show "chain rs" "\<And>r. r \<in> set rs \<Longrightarrow> get_revision m c (rev_version r) w = Inr r \<and> rev_schema r = SCHEMA_VERSION"
    "distinct (map rev_version rs)" by simp_all
  from reachable_container_ok [OF assms(1,2)] reachable_files_ok [OF assms(1,2)]
  have ok: "environments_ok m c w" "named_ok m c w" by (simp_all add: container_ok_def files_ok_def)
  obtain dir where dir: "environment_dir m c = Inr dir"
    using assms(4) by (auto simp: list_environments_def bindR_Inr_iff)
  note member = list_environments_set [OF assms(4) dir]
  have files: "filed m c dir w" "labelled m dir w" using ok(2) dir by (simp_all add: named_ok_def)
  show "pointers_ok m c w e \<and> env_container_id e = ct_id c" if "e \<in> set es" for e
    using that member files(1) ok(1) dir by (auto simp: environments_ok_def filed_def)
  have all: "list_all2 (\<lambda>p e. load_environment m p w = Inr e) (glob_json w dir) es"
    using assms(4) dir by (simp add: list_environments_def load_all_def mapR_Inr_list_all2)
  have name: "glob_json w dir ! i = dir @ [json_name (env_id (es ! i))]" "load_environment m (glob_json w dir ! i) w = Inr (es ! i)"
    "in_dir dir (glob_json w dir ! i)" if "i < length es" for i
  proof -
    from all that show l: "load_environment m (glob_json w dir ! i) w = Inr (es ! i)" by (simp add: list_all2_conv_all_nth)
    have "glob_json w dir ! i \<in> set (glob_json w dir)" using all that by (simp add: list_all2_lengthD)
    then show d: "in_dir dir (glob_json w dir ! i)" by (simp add: set_glob_json)
    with files(1) l show "glob_json w dir ! i = dir @ [json_name (env_id (es ! i))]" by (simp add: filed_def)
  qed
  have dist: "glob_json w dir ! i \<noteq> glob_json w dir ! j" if "i < length es" "j < length es" "i \<noteq> j" for i j
    using that list_all2_lengthD [OF all] by (simp add: nth_eq_iff_index_eq glob_json_eq)
  show "distinct (map env_id es)"
    using name(1) dist by (fastforce simp: distinct_conv_nth)
  show "distinct (map (\<lambda>e. py_casefold (env_label e)) es)"
    using name(2,3) dist files(2) by (simp add: distinct_conv_nth labelled_def) metis
qed

text \<open>A version that can be fetched is in the listing.\<close>

lemma fetched_listed:
  assumes "container_reachable m c w" and "good_machine m"
    and "list_revisions m c w = Inr rs" and "get_revision m c v w = Inr r"
  shows "v \<in> set (map rev_version rs)"
proof -
  let ?load = "\<lambda>p. load m ''config_revision'' (revision_from_dict (m_rt m)) p w"
  from assms(4) obtain dir where dir: "revision_dir m c = Inr dir" and v: "?load (dir @ [json_name v]) = Inr r"
    by (auto simp: get_revision_def Let_def bindR_Inr_iff validate_id_Inr split: if_splits)
  let ?k = "\<lambda>r. number_of (rev_number r)"
  from assms(3) dir obtain xs where xs: "list_all2 (\<lambda>p r. ?load p = Inr r) (glob_json w dir) xs" and rs: "rs = sort_key ?k xs"
    by (auto simp: list_revisions_def load_all_def bindR_Inr_iff mapR_Inr_list_all2)
  note l = reachable_revisions [OF assms(1-3)]
  have at: "\<exists>i < length xs. glob_json w dir ! i = dir @ [json_name u] \<and> xs ! i = s"
    if "?load (dir @ [json_name u]) = Inr s" for u s
  proof -
    from that have "path_exists w (dir @ [json_name u])"
      by (auto simp: load_def read_document_def path_exists_def bindR_Inr_iff split: option.splits)
    then have "dir @ [json_name u] \<in> set (glob_json w dir)" by (simp add: set_glob_json json_name_def suffix_def)
    with xs that show ?thesis by (fastforce simp: in_set_conv_nth list_all2_conv_all_nth)
  qed
  from at [OF v] obtain i where i: "i < length xs" "glob_json w dir ! i = dir @ [json_name v]" "xs ! i = r" by blast
  then have r: "r \<in> set rs" unfolding rs by (metis nth_mem set_sort)
  with l(2) [of r] dir have "?load (dir @ [json_name (rev_version r)]) = Inr r"
    by (auto simp: get_revision_def Let_def bindR_Inr_iff validate_id_Inr split: if_splits)
  from at [OF this] obtain j where j: "j < length xs" "glob_json w dir ! j = dir @ [json_name (rev_version r)]" "xs ! j = r"
    by blast
  have "distinct rs" using l(3) by (simp only: distinct_map)
  then have "distinct xs" by (simp add: rs)
  with i(1,3) j(1,3) have "i = j" by (metis nth_eq_iff_index_eq)
  with i j have "v = rev_version r" by (simp add: json_name_def)
  with r show ?thesis by simp
qed

lemma fetched_version:
  assumes "container_reachable m c w" and "good_machine m" and "get_revision m c v w = Inr r"
  shows "rev_version r = v"
proof -
  from reachable_container_ok [OF assms(1,2)] obtain rs where rs: "list_revisions m c w = Inr rs"
    by (auto simp: container_ok_def history_ok_def)
  from fetched_listed [OF assms(1,2) rs assms(3)] obtain s where "s \<in> set rs" "rev_version s = v" by auto
  with reachable_revisions(2) [OF assms(1,2) rs] assms(3) show ?thesis by (metis sum.inject(2))
qed

end
