(* ===== verification/Export_Import.thy ===== *)
theory Export_Import
  imports Shop_Scenario Filing
begin

section \<open>Export, import and clone of containers (control/service.py)\<close>

text \<open>
  A container is exported as one document and imported from one.  Parsing the document is pure and
  comes first; the import then either recognises the container it would create, or writes the
  container, its revisions and its environments, removing the whole tree again if a write fails.
  Without \<open>as_container_id\<close> the objects keep their identities; with it everything gets a new one.
\<close>

subsection \<open>Export\<close>

definition export_data :: "container \<Rightarrow> revision list \<Rightarrow> environment list \<Rightarrow> pydict" where
  "export_data c rs es = [
     (''container'', container_to_dict c),
     (''revisions'', VList (map revision_to_dict rs)),
     (''environments'', VList (map environment_to_dict es))]"

definition export_container :: "machine \<Rightarrow> string \<Rightarrow> string option \<Rightarrow> bool \<Rightarrow> pydict op" where
  "export_container m container_id org include_environments =
     bindW (find_container m container_id org) (\<lambda>c.
     bindW (readW (list_revisions m c)) (\<lambda>rs.
     bindW (if include_environments then readW (list_environments m c) else retW []) (\<lambda>es.
     liftW (wrap_document ''container_export'' (VDict (export_data c rs es))))))"

subsection \<open>Parsing an export\<close>

text \<open>
  The loop of \<open>_parse_export_revisions\<close>; the versions and numbers seen are those of the revisions
  parsed so far.
\<close>

fun export_revisions_loop ::
    "py_runtime \<Rightarrow> string \<Rightarrow> nat \<Rightarrow> revision list \<Rightarrow> pyval list \<Rightarrow> revision list res" where
  "export_revisions_loop rt cid i seen [] = Inr seen"
| "export_revisions_loop rt cid i seen (raw # raws) =
     bindR (revision_from_dict rt raw) (\<lambda>r.
     bindR (ensure_supported_schema rt (VStr (rev_schema r))) (\<lambda>_.
     if rev_container_id r \<noteq> cid
     then Inl (ValidationError (''revisions['' @ nat_str i @ ''] belongs to '' @ repr_str (rev_container_id r)
       @ '', not '' @ repr_str cid))
     else if rev_version r \<in> set (map rev_version seen)
     then Inl (ValidationError (''container export contains duplicate config_version '' @ repr_str (rev_version r)))
     else if number_of (rev_number r) \<in> set (map (\<lambda>s. number_of (rev_number s)) seen)
     then Inl (ValidationError (''container export contains duplicate revision_number ''
       @ py_repr rt (rev_number r)))
     else export_revisions_loop rt cid (Suc i) (seen @ [r]) raws))"

definition missing_parents :: "revision list \<Rightarrow> string list" where
  "missing_parents rs = sort (remdups (filter (\<lambda>v. v \<notin> set (map rev_version rs)) (List.map_filter rev_parent rs)))"

definition parse_export_revisions :: "py_runtime \<Rightarrow> pyval \<Rightarrow> container \<Rightarrow> revision list res" where
  "parse_export_revisions rt raws source = (case raws of
     VList xs \<Rightarrow> bindR (export_revisions_loop rt (ct_id source) 0 [] xs) (\<lambda>parsed.
       let rs = sort_key (\<lambda>r. number_of (rev_number r)) parsed in
       if missing_parents rs \<noteq> []
       then Inl (ValidationError (''container export references missing parent revision(s): ''
         @ join_with '', '' (missing_parents rs)))
       else Inr rs)
   | _ \<Rightarrow> Inl (ValidationError ''container export revisions must be a list''))"

definition check_reference :: "string list \<Rightarrow> nat \<Rightarrow> string \<Rightarrow> string option \<Rightarrow> unit res" where
  "check_reference versions i name referenced = (case referenced of
     None \<Rightarrow> Inr ()
   | Some v \<Rightarrow> if v \<in> set versions then Inr ()
       else Inl (ValidationError (''environments['' @ nat_str i @ ''] references missing config version ''
         @ repr_str v @ '' in '' @ name)))"

fun export_environments_loop ::
    "py_runtime \<Rightarrow> string \<Rightarrow> string list \<Rightarrow> nat \<Rightarrow> environment list \<Rightarrow> pyval list \<Rightarrow> environment list res" where
  "export_environments_loop rt cid versions i seen [] = Inr seen"
| "export_environments_loop rt cid versions i seen (raw # raws) =
     bindR (environment_from_dict rt raw) (\<lambda>e.
     if env_container_id e \<noteq> cid
     then Inl (ValidationError (''environments['' @ nat_str i @ ''] belongs to '' @ repr_str (env_container_id e)
       @ '', not '' @ repr_str cid))
     else if py_casefold (env_label e) \<in> set (map (\<lambda>s. py_casefold (env_label s)) seen)
     then Inl (ValidationError (''container export contains duplicate environment name '' @ repr_str (env_label e)))
     else bindR (check_reference versions i ''current_config_version'' (env_current e)) (\<lambda>_.
       bindR (check_reference versions i ''previous_config_version'' (env_previous e)) (\<lambda>_.
       export_environments_loop rt cid versions (Suc i) (seen @ [e]) raws)))"

definition parse_export_environments ::
    "py_runtime \<Rightarrow> pyval \<Rightarrow> container \<Rightarrow> revision list \<Rightarrow> environment list res" where
  "parse_export_environments rt raws source rs = (case raws of
     VList xs \<Rightarrow> export_environments_loop rt (ct_id source) (map rev_version rs) 0 [] xs
   | _ \<Rightarrow> Inl (ValidationError ''container export environments must be a list''))"

definition EXPORT_KEYS :: "string list" where
  "EXPORT_KEYS = [''container'', ''revisions'', ''environments'']"

text \<open>The part of \<open>import_container\<close> before the lock is taken.\<close>

definition parse_export ::
    "py_runtime \<Rightarrow> pyval \<Rightarrow> string option \<Rightarrow> (container \<times> revision list \<times> environment list) res" where
  "parse_export rt document as_id =
     bindR (unwrap_document rt document (Some ''container_export'')) (\<lambda>data.
     if unknown_keys data EXPORT_KEYS \<noteq> []
     then Inl (ValidationError (''container export contains unknown field(s): ''
       @ join_with '', '' (unknown_keys data EXPORT_KEYS)))
     else if missing_keys data [''container'', ''revisions''] \<noteq> []
     then Inl (ValidationError (''container export is missing field(s): ''
       @ join_with '', '' (missing_keys data [''container'', ''revisions''])))
     else bindR (dict_item data ''container'') (\<lambda>raw.
       bindR (container_from_dict rt raw) (\<lambda>source.
       bindR (case as_id of None \<Rightarrow> Inr () | Some i \<Rightarrow> bindR (validate_container_id (VStr i)) (\<lambda>_. Inr ())) (\<lambda>_.
       bindR (dict_item data ''revisions'') (\<lambda>raw_revisions.
       bindR (parse_export_revisions rt raw_revisions source) (\<lambda>rs.
       bindR (parse_export_environments rt (get_or data ''environments'' (VList [])) source rs) (\<lambda>es.
       Inr (source, rs, es))))))))"

subsection \<open>New identities\<close>

definition revision_fingerprints :: "revision list \<Rightarrow> (int \<times> string) list" where
  "revision_fingerprints rs = map (\<lambda>r. (number_of (rev_number r), rev_checksum r))
     (sort_key (\<lambda>r. number_of (rev_number r)) rs)"

fun remap_revisions ::
    "machine \<Rightarrow> string \<Rightarrow> string \<Rightarrow> (string, string) dict \<Rightarrow> revision list
     \<Rightarrow> (revision list \<times> (string, string) dict) op" where
  "remap_revisions m target_id created_by versions [] = retW ([], versions)"
| "remap_revisions m target_id created_by versions (r # rs) =
     bindW (case rev_parent r of
         None \<Rightarrow> retW None
       | Some p \<Rightarrow> (case map_of versions p of
           None \<Rightarrow> raiseW (ValidationError (''revision parent must appear before its child: '' @ repr_str p))
         | Some p' \<Rightarrow> retW (Some p'))) (\<lambda>new_parent.
     bindW (stamped m (\<lambda>i now. revision_create (m_rt m) i now target_id (rev_number r) new_parent
       (Parsed (rev_payload r)) ''draft'' created_by (rev_notes r))) (\<lambda>new_revision.
     bindW (remap_revisions m target_id created_by (dict_put versions (rev_version r) (rev_version new_revision)) rs)
       (\<lambda>(new_revisions, versions'). retW (new_revision # new_revisions, versions'))))"

definition remap_version :: "(string, string) dict \<Rightarrow> string option \<Rightarrow> string option res" where
  "remap_version versions v = (case v of
     None \<Rightarrow> Inr None
   | Some x \<Rightarrow> (case map_of versions x of None \<Rightarrow> Inl (KeyError x) | Some y \<Rightarrow> Inr (Some y)))"

definition remap_environment ::
    "machine \<Rightarrow> container \<Rightarrow> (string, string) dict \<Rightarrow> environment \<Rightarrow> environment op" where
  "remap_environment m tc versions e =
     bindW (liftW (remap_version versions (env_current e))) (\<lambda>new_current.
     bindW (liftW (remap_version versions (env_previous e))) (\<lambda>new_previous.
     bindW (new_id m) (\<lambda>i. bindW (utc_now m) (\<lambda>created_at. bindW (utc_now m) (\<lambda>updated_at.
     retW \<lparr>env_id = i, env_org_id = ct_org_id tc, env_container_id = ct_id tc,
       env_label = env_label e, env_protected = env_protected e, env_current = new_current,
       env_created_at = created_at, env_created_by = env_created_by e, env_previous = new_previous,
       env_updated_at = Some updated_at,
       env_updated_by = Some (case env_updated_by e of
         Some by' \<Rightarrow> (if by' \<noteq> [] then by' else env_created_by e) | None \<Rightarrow> env_created_by e)\<rparr>)))))"


subsection \<open>Import\<close>

record import_result =
  ir_container :: container
  ir_created :: bool
  ir_count :: nat
  ir_renamed_from :: "string option"

definition import_name :: "string option \<Rightarrow> string \<Rightarrow> string res" where
  "import_name name fallback = (case name of None \<Rightarrow> Inr fallback | Some n \<Rightarrow> validate_name (VStr n))"

text \<open>The container, revisions and environments to write, under their old or under new identities.\<close>

definition import_same ::
    "machine \<Rightarrow> string \<Rightarrow> string \<Rightarrow> string option \<Rightarrow> container \<Rightarrow> revision list \<Rightarrow> environment list
     \<Rightarrow> (container \<times> revision list \<times> environment list) op" where
  "import_same m org ws name source rs es =
     bindW (liftW (import_name name (ct_name source))) (\<lambda>name'.
     let tc = source\<lparr>ct_org_id := org, ct_workspace_id := ws, ct_name := name'\<rparr> in
     retW (tc, rs, map (\<lambda>e. e\<lparr>env_org_id := org, env_container_id := ct_id tc\<rparr>) es))"

definition import_renamed ::
    "machine \<Rightarrow> string \<Rightarrow> string \<Rightarrow> string \<Rightarrow> string option \<Rightarrow> string \<Rightarrow> container \<Rightarrow> revision list
     \<Rightarrow> environment list \<Rightarrow> (container \<times> revision list \<times> environment list) op" where
  "import_renamed m as_id org ws name created_by source rs es =
     bindW (liftW (import_name name (ct_name source @ '' (imported)''))) (\<lambda>name'.
     bindW (utc_now m) (\<lambda>now.
     let tc = source\<lparr>ct_id := as_id, ct_org_id := org, ct_workspace_id := ws, ct_name := name',
       ct_created_at := now, ct_created_by := created_by, ct_external_refs := []\<rparr> in
     bindW (remap_revisions m (ct_id tc) created_by [] rs) (\<lambda>(rs', versions).
     bindW (mapW (remap_environment m tc versions) es) (\<lambda>es'.
     retW (tc, rs', es')))))"

definition write_import :: "machine \<Rightarrow> container \<Rightarrow> revision list \<Rightarrow> environment list \<Rightarrow> unit op" where
  "write_import m tc rs es =
     catchW
       (bindW (save_container m tc) (\<lambda>_.
        bindW (mapW (save_revision m tc) rs) (\<lambda>_.
        bindW (mapW (save_environment m tc) es) (\<lambda>_. retW ()))))
       (\<lambda>err. bindW (remove_container_tree m (ct_org_id tc) (ct_id tc)) (\<lambda>_. raiseW err))"

definition import_existing ::
    "machine \<Rightarrow> string option \<Rightarrow> string \<Rightarrow> string \<Rightarrow> revision list \<Rightarrow> import_result op" where
  "import_existing m as_id org target_id rs =
     (if as_id \<noteq> None
      then raiseW (ConflictError (''container ID '' @ repr_str target_id @ '' already exists in organization '' @ org))
      else bindW (readW (get_container m org target_id)) (\<lambda>existing.
        bindW (readW (list_revisions m existing)) (\<lambda>existing_revisions.
        if revision_fingerprints existing_revisions \<noteq> revision_fingerprints rs
        then raiseW (ConflictError (''container '' @ repr_str target_id @ '' already exists with different revisions''))
        else retW \<lparr>ir_container = existing, ir_created = False, ir_count = length existing_revisions,
          ir_renamed_from = None\<rparr>)))"

definition import_new ::
    "machine \<Rightarrow> string option \<Rightarrow> string \<Rightarrow> string \<Rightarrow> string option \<Rightarrow> string \<Rightarrow> container \<Rightarrow> revision list
     \<Rightarrow> environment list \<Rightarrow> import_result op" where
  "import_new m as_id org ws name created_by source rs es =
     bindW (readW (assert_container_id_available m org (case as_id of None \<Rightarrow> ct_id source | Some i \<Rightarrow> i) None)) (\<lambda>_.
     bindW (case as_id of
         None \<Rightarrow> import_same m org ws name source rs es
       | Some i \<Rightarrow> import_renamed m i org ws name created_by source rs es) (\<lambda>(tc, rs', es').
     bindW (write_import m tc rs' es') (\<lambda>_.
     retW \<lparr>ir_container = tc, ir_created = True, ir_count = length rs',
       ir_renamed_from = (case as_id of
           None \<Rightarrow> None
         | Some i \<Rightarrow> if py_casefold i \<noteq> py_casefold (ct_id source) then Some (ct_id source) else None)\<rparr>)))"

definition import_container ::
    "machine \<Rightarrow> pyval \<Rightarrow> string option \<Rightarrow> string option \<Rightarrow> string option \<Rightarrow> string option \<Rightarrow> string
     \<Rightarrow> import_result op" where
  "import_container m document as_id name org ws created_by =
     bindW (liftW (parse_export (m_rt m) document as_id)) (\<lambda>(source, rs, es).
     bindW (resolve_scope m org ws) (\<lambda>(org', ws').
     let target_id = (case as_id of None \<Rightarrow> ct_id source | Some i \<Rightarrow> i) in
     bindW (readW (container_exists m org' target_id)) (\<lambda>exists.
     if exists then import_existing m as_id org' target_id rs
     else import_new m as_id org' ws' name created_by source rs es)))"

definition clone_container ::
    "machine \<Rightarrow> string \<Rightarrow> string \<Rightarrow> string option \<Rightarrow> string option \<Rightarrow> string option \<Rightarrow> string \<Rightarrow> import_result op" where
  "clone_container m source_id target_id name org ws created_by =
     bindW (export_container m source_id org True) (\<lambda>document.
     import_container m (VDict document) (Some target_id) name org ws created_by)"


subsection \<open>What parsing an export accepts\<close>

abbreviation versions_of :: "revision list \<Rightarrow> string list" where "versions_of rs \<equiv> map rev_version rs"
abbreviation numbers_of :: "revision list \<Rightarrow> int list" where "numbers_of rs \<equiv> map (\<lambda>r. number_of (rev_number r)) rs"
abbreviation folded_labels :: "environment list \<Rightarrow> string list" where
  "folded_labels es \<equiv> map (\<lambda>e. py_casefold (env_label e)) es"

definition importable_revision :: "py_runtime \<Rightarrow> string \<Rightarrow> revision \<Rightarrow> bool" where
  "importable_revision rt cid r \<longleftrightarrow> rev_container_id r = cid
     \<and> (\<exists>v. ensure_supported_schema rt (VStr (rev_schema r)) = Inr v)"

definition importable_environment :: "string \<Rightarrow> string list \<Rightarrow> environment \<Rightarrow> bool" where
  "importable_environment cid versions e \<longleftrightarrow> env_container_id e = cid
     \<and> (\<forall>v. env_current e = Some v \<or> env_previous e = Some v \<longrightarrow> v \<in> set versions)"

lemma mapR_Cons_Inr: "f x = Inr y \<Longrightarrow> mapR f (x # xs) = Inr ys \<longleftrightarrow> (\<exists>zs. mapR f xs = Inr zs \<and> ys = y # zs)"
  by (auto simp: bindR_Inr_iff)

lemma export_revisions_loop_Inr:
  assumes "distinct (versions_of seen)" and "distinct (numbers_of seen)"
  shows "export_revisions_loop rt cid i seen raws = Inr rs \<longleftrightarrow>
    (\<exists>ps. mapR (revision_from_dict rt) raws = Inr ps \<and> rs = seen @ ps \<and> list_all (importable_revision rt cid) ps
      \<and> distinct (versions_of rs) \<and> distinct (numbers_of rs))"
  using assms
proof (induction raws arbitrary: i seen)
  case Nil
  then show ?case by auto
next
  case (Cons raw raws)
  show ?case
  proof (cases "revision_from_dict rt raw")
    case (Inl err)
    then show ?thesis by simp
  next
    case (Inr r)
    note parsed = mapR_Cons_Inr [of "revision_from_dict rt", OF Inr]
    show ?thesis
    proof (cases "importable_revision rt cid r \<and> rev_version r \<notin> set (versions_of seen)
        \<and> number_of (rev_number r) \<notin> set (numbers_of seen)")
      case True
      with Cons.prems have "distinct (versions_of (seen @ [r]))" "distinct (numbers_of (seen @ [r]))" by auto
      note ih = Cons.IH [OF this, of "Suc i"]
      have "export_revisions_loop rt cid i seen (raw # raws) = export_revisions_loop rt cid (Suc i) (seen @ [r]) raws"
        using True Inr by (auto simp: importable_revision_def)
      with True show ?thesis unfolding parsed by (simp only: ih) auto
    next
      case False
      then have "export_revisions_loop rt cid i seen (raw # raws) \<noteq> Inr rs"
        using Inr by (auto simp: importable_revision_def bindR_Inr_iff)
      with False show ?thesis unfolding parsed by auto
    qed
  qed
qed

lemma export_environments_loop_Inr:
  assumes "distinct (folded_labels seen)"
  shows "export_environments_loop rt cid versions i seen raws = Inr es \<longleftrightarrow>
    (\<exists>ps. mapR (environment_from_dict rt) raws = Inr ps \<and> es = seen @ ps
      \<and> list_all (importable_environment cid versions) ps \<and> distinct (folded_labels es))"
  using assms
proof (induction raws arbitrary: i seen)
  case Nil
  then show ?case by auto
next
  case (Cons raw raws)
  have ref: "check_reference versions i n x = Inr u \<longleftrightarrow> (\<forall>v. x = Some v \<longrightarrow> v \<in> set versions)" for n x u
    by (auto simp: check_reference_def split: option.split)
  show ?case
  proof (cases "environment_from_dict rt raw")
    case (Inl err)
    then show ?thesis by simp
  next
    case (Inr e)
    note parsed = mapR_Cons_Inr [of "environment_from_dict rt", OF Inr]
    show ?thesis
    proof (cases "importable_environment cid versions e \<and> py_casefold (env_label e) \<notin> set (folded_labels seen)")
      case True
      with Cons.prems have "distinct (folded_labels (seen @ [e]))" by auto
      note ih = Cons.IH [OF this, of "Suc i"]
      have "check_reference versions i n (env_current e) = Inr ()" "check_reference versions i n (env_previous e) = Inr ()" for n
        using True by (auto simp: ref importable_environment_def)
      then have "export_environments_loop rt cid versions i seen (raw # raws)
          = export_environments_loop rt cid versions (Suc i) (seen @ [e]) raws"
        using True Inr by (auto simp: importable_environment_def)
      with True show ?thesis unfolding parsed by (simp only: ih) auto
    next
      case False
      then have "export_environments_loop rt cid versions i seen (raw # raws) \<noteq> Inr es"
        using Inr by (auto simp: importable_environment_def bindR_Inr_iff ref)
      with False show ?thesis unfolding parsed by auto
    qed
  qed
qed

text \<open>The exports that can be imported again.\<close>

definition consistent_export :: "py_runtime \<Rightarrow> container \<Rightarrow> revision list \<Rightarrow> environment list \<Rightarrow> bool" where
  "consistent_export rt c rs es \<longleftrightarrow> list_all (importable_revision rt (ct_id c)) rs
     \<and> distinct (versions_of rs) \<and> distinct (numbers_of rs) \<and> missing_parents rs = []
     \<and> list_all (importable_environment (ct_id c) (versions_of rs)) es \<and> distinct (folded_labels es)"

lemma mapR_printed: "(\<And>x. x \<in> set xs \<Longrightarrow> f (g x) = Inr x) \<Longrightarrow> mapR f (map g xs) = Inr xs"
  by (induction xs) auto

lemma parse_export_revisions_printed:
  assumes "\<And>r. r \<in> set rs \<Longrightarrow> wf_revision rt r" and "sorted (numbers_of rs)"
  shows "parse_export_revisions rt (VList (map revision_to_dict rs)) c = Inr rs' \<longleftrightarrow>
    rs' = rs \<and> list_all (importable_revision rt (ct_id c)) rs \<and> distinct (versions_of rs)
      \<and> distinct (numbers_of rs) \<and> missing_parents rs = []"
proof -
  have p: "mapR (revision_from_dict rt) (map revision_to_dict rs) = Inr rs"
    using assms(1) by (intro mapR_printed) (simp add: revision_codec.parse_print)
  have "sort_key (\<lambda>r. number_of (rev_number r)) rs = rs"
    using assms(2) by (rule sort_key_id_if_sorted)
  then show ?thesis
    by (auto simp: parse_export_revisions_def bindR_Inr_iff export_revisions_loop_Inr p Let_def)
qed

lemma parse_export_environments_printed:
  assumes "\<And>e. e \<in> set es \<Longrightarrow> wf_environment e"
  shows "parse_export_environments rt (VList (map environment_to_dict es)) c rs = Inr es' \<longleftrightarrow>
    es' = es \<and> list_all (importable_environment (ct_id c) (versions_of rs)) es \<and> distinct (folded_labels es)"
proof -
  have p: "mapR (environment_from_dict rt) (map environment_to_dict es) = Inr es"
    using assms by (intro mapR_printed) (simp add: environment_codec.parse_print)
  then show ?thesis
    by (auto simp: parse_export_environments_def export_environments_loop_Inr p)
qed

lemma parse_export_printed:
  assumes "wf_container c" and "\<And>r. r \<in> set rs \<Longrightarrow> wf_revision rt r" and "\<And>e. e \<in> set es \<Longrightarrow> wf_environment e"
    and "sorted (numbers_of rs)" and "wrap_document ''container_export'' (VDict (export_data c rs es)) = Inr d"
    and "\<And>i. as_id = Some i \<Longrightarrow> good_container_id i"
  shows "parse_export rt (VDict d) as_id = Inr parsed \<longleftrightarrow> parsed = (c, rs, es) \<and> consistent_export rt c rs es"
proof -
  have u: "unwrap_document rt (VDict d) (Some ''container_export'') = Inr (export_data c rs es)"
    using assms(5) by (simp add: wrap_unwrap)
  have k: "unknown_keys (export_data c rs es) EXPORT_KEYS = []" "missing_keys (export_data c rs es) [''container'', ''revisions''] = []"
    by (simp_all add: unknown_keys_empty_iff missing_keys_empty_iff export_data_def EXPORT_KEYS_def)
  have f: "dict_item (export_data c rs es) ''container'' = Inr (container_to_dict c)"
    "dict_item (export_data c rs es) ''revisions'' = Inr (VList (map revision_to_dict rs))"
    "get_or (export_data c rs es) ''environments'' x = VList (map environment_to_dict es)" for x
    by (simp_all add: export_data_def dict_item_def get_or_def)
  have i: "(case as_id of None \<Rightarrow> Inr () | Some i \<Rightarrow> bindR (validate_container_id (VStr i)) (\<lambda>_. Inr ())) = Inr ()"
    using assms(6) by (auto split: option.split)
  show ?thesis
    using assms(1-4)
    by (auto simp: parse_export_def u k f i bindR_Inr_iff container_reparse parse_export_revisions_printed
        parse_export_environments_printed consistent_export_def)
qed

subsection \<open>A failed import\<close>

lemma tree_write:
  "prefix dir p \<Longrightarrow> keeps (outside (prefix dir)) (write_document m p kind v)"
  "prefix dir p \<Longrightarrow> keeps (outside (prefix dir)) (write_document_exclusive m p kind v)"
  using write_document_run [of m p kind v] write_document_exclusive_run [of m p kind v]
  by (auto simp: keeps_def outside_def map_of_put) (metis (no_types, lifting) map_of_put prod.collapse)+

lemma tree_saves:
  assumes "container_dir m (ct_org_id tc) (ct_id tc) = Inr dir"
  shows "keeps (outside (prefix dir)) (save_container m tc)"
    and "keeps (outside (prefix dir)) (save_revision m tc r)"
    and "keeps (outside (prefix dir)) (save_environment m tc e)"
  unfolding save_container_def save_revision_def save_environment_def
  by (intro outside.rules keeps_lift_bind outside.frame_axioms tree_write; use assms in \<open>auto simp: dirs_def sub_dir_Inr\<close>)+

lemma catchW_Inl:
  "catchW f h w = (Inl err, w'') \<longleftrightarrow> (\<exists>e w'. f w = (Inl e, w') \<and> h e w' = (Inl err, w''))"
  by (auto simp: catchW_def split: prod.splits sum.splits)

lemma remove_tree_run:
  "remove_container_tree m org i w = (case container_dir m org i of
     Inl err \<Rightarrow> (Inl err, w)
   | Inr dir \<Rightarrow> (Inr (), w\<lparr>w_files := filter (\<lambda>f. \<not> prefix dir (fst f)) (w_files w)\<rparr>))"
  by (simp add: remove_container_tree_def bindW_lift)

lemma map_of_filter_keys: "map_of (filter (\<lambda>f. P (fst f)) xs) k = (if P k then map_of xs k else None)"
  by (induction xs) auto

lemma write_import_Inl:
  assumes "write_import m tc rs es w = (Inl err, w')"
  shows "w_files w' = w_files w \<or> (\<exists>dir. container_dir m (ct_org_id tc) (ct_id tc) = Inr dir
    \<and> (\<forall>p. map_of (w_files w') p = (if prefix dir p then None else map_of (w_files w) p)))"
proof (cases "container_dir m (ct_org_id tc) (ct_id tc)")
  case (Inl e)
  then have "save_container m tc w = (Inl e, w)" by (simp add: save_container_def bindW_lift)
  with assms Inl show ?thesis
    by (auto simp: write_import_def catchW_Inl bindW_stop remove_tree_run)
next
  case (Inr dir)
  let ?saves = "bindW (save_container m tc) (\<lambda>_. bindW (mapW (save_revision m tc) rs)
    (\<lambda>_. bindW (mapW (save_environment m tc) es) (\<lambda>_. retW ())))"
  from assms obtain e w1 where "?saves w = (Inl e, w1)" and w': "w' = w1\<lparr>w_files := filter (\<lambda>f. \<not> prefix dir (fst f)) (w_files w1)\<rparr>"
    by (auto simp: write_import_def catchW_Inl remove_tree_run Inr bindW_def op_run split: prod.splits sum.splits)
  moreover have "keeps (outside (prefix dir)) ?saves"
    by (intro outside.rules tree_saves Inr)
  ultimately have "outside (prefix dir) w w1" by (blast dest: keepsD)
  then have "map_of (w_files w') p = (if prefix dir p then None else map_of (w_files w) p)" for p
    using map_of_filter_keys [of "\<lambda>p. \<not> prefix dir p" "w_files w1" p] by (auto simp: w' outside_def)
  with Inr show ?thesis by blast
qed

lemma remap_same_files:
  "keeps same_files (remap_revisions m t by' versions rs)" "keeps same_files (remap_environment m tc vs e)"
proof -
  have st: "keeps same_files (stamped m build)" for build :: "string \<Rightarrow> string \<Rightarrow> revision res"
    unfolding stamped_def by (intro same_files.rules draws_keep)
  show "keeps same_files (remap_revisions m t by' versions rs)"
    by (induction rs arbitrary: versions) (auto simp: split_def intro!: same_files.rules st split: option.split)
  show "keeps same_files (remap_environment m tc vs e)"
    unfolding remap_environment_def by (intro same_files.rules draws_keep)
qed

lemma import_targets_same_files:
  "keeps same_files (import_same m org ws name source rs es)"
  "keeps same_files (import_renamed m i org ws name by' source rs es)"
  unfolding import_same_def import_renamed_def Let_def split_def
  by (intro same_files.rules draws_keep remap_same_files)+

text \<open>The container an import is about to write is the one whose id was looked up.\<close>

lemma import_targets_id:
  "import_same m org ws name source rs es w = (Inr (tc, rs', es'), w') \<Longrightarrow> ct_org_id tc = org \<and> ct_id tc = ct_id source"
  "import_renamed m i org ws name by' source rs es w = (Inr (tc, rs', es'), w') \<Longrightarrow> ct_org_id tc = org \<and> ct_id tc = i"
  by (auto simp: import_same_def import_renamed_def op_simps Let_def)

text \<open>What a failed import may do to the files: nothing, or drop a directory that held no container.\<close>

definition unharmed :: "world \<Rightarrow> world \<Rightarrow> bool" where
  "unharmed w w' \<longleftrightarrow> w_files w' = w_files w \<or> (\<exists>dir. \<not> path_exists w (dir @ [''container.json''])
    \<and> (\<forall>p. map_of (w_files w') p = (if prefix dir p then None else map_of (w_files w) p)))"

lemma import_new_Inl:
  assumes "import_new m as_id org ws name by' source rs es w = (Inl err, w')"
    and "container_exists m org (case as_id of None \<Rightarrow> ct_id source | Some i \<Rightarrow> i) w = Inr False"
  shows "unharmed w w'"
proof -
  let ?targets = "case as_id of None \<Rightarrow> import_same m org ws name source rs es
       | Some i \<Rightarrow> import_renamed m i org ws name by' source rs es"
  have k: "keeps same_files ?targets" by (simp add: import_targets_same_files split: option.split)
  obtain y w1 where t: "?targets w = (y, w1)" by fastforce
  from keepsD [OF k t] have same: "w_files w1 = w_files w" by (simp add: same_files_def)
  show ?thesis
  proof (cases "assert_container_id_available m org (case as_id of None \<Rightarrow> ct_id source | Some i \<Rightarrow> i) None w")
    case (Inl e)
    with assms(1) show ?thesis by (simp add: import_new_def bindW_reading unharmed_def)
  next
    case av: (Inr u)
    show ?thesis
    proof (cases y)
      case (Inl e)
      with assms(1) av t same show ?thesis by (auto simp: import_new_def bindW_reading bindW_stop unharmed_def)
    next
      case (Inr z)
      obtain tc rs' es' where z: "z = (tc, rs', es')" by (cases z) auto
      with t Inr import_targets_id have id: "ct_org_id tc = org" "ct_id tc = (case as_id of None \<Rightarrow> ct_id source | Some i \<Rightarrow> i)"
        by (auto split: option.splits)
      from assms(1) av t Inr z have "write_import m tc rs' es' w1 = (Inl err, w')"
        by (auto simp: import_new_def bindW_reading bindW_step bindW_Inl op_run)
      from write_import_Inl [OF this] assms(2) same show ?thesis
        by (auto simp: unharmed_def container_exists_def id bindR_Inr_iff)
    qed
  qed
qed

subsection \<open>Writing an import\<close>

lemma save_revision_ok:
  assumes "wf_revision (m_rt m) r" and "rev_container_id r = ct_id c" and "revision_dir m c = Inr dir"
    and "\<not> path_exists w (dir @ [json_name (rev_version r)])"
  shows "\<exists>doc. save_revision m c r w = (Inr (), put (dir @ [json_name (rev_version r)]) doc w)"
proof -
  from assms(1) have "verify_revision (m_rt m) r = Inr ()" by (simp add: wf_revision_def)
  moreover from revision_file.writes [where m = m and w = w and p = "dir @ [json_name (rev_version r)]", OF assms(1)] assms(4)
  obtain doc where "write_document_exclusive m (dir @ [json_name (rev_version r)]) ''config_revision'' (revision_to_dict r) w
      = (Inr (), put (dir @ [json_name (rev_version r)]) doc w)" by blast
  ultimately show ?thesis using assms(2,3)
    by (intro exI [of _ doc]) (simp add: save_revision_def bindW_def op_run)
qed

text \<open>The revisions of a history, written in order into an empty directory.\<close>

lemma save_revisions_ok:
  assumes "revision_dir m c = Inr dir" and "list_revisions m c w = Inr old"
    and "\<And>r. r \<in> set rs \<Longrightarrow> wf_revision (m_rt m) r \<and> rev_container_id r = ct_id c"
    and "distinct (versions_of rs)" and "\<And>r. r \<in> set rs \<Longrightarrow> \<not> path_exists w (dir @ [json_name (rev_version r)])"
    and "sorted_wrt (<) (numbers_of (old @ rs))"
  shows "\<exists>us w'. mapW (save_revision m c) rs w = (Inr us, w') \<and> list_revisions m c w' = Inr (old @ rs)
    \<and> (\<forall>q. q \<notin> (\<lambda>r. dir @ [json_name (rev_version r)]) ` set rs \<longrightarrow> map_of (w_files w') q = map_of (w_files w) q)"
  using assms(2-6)
proof (induction rs arbitrary: w old)
  case Nil
  then show ?case by (simp add: op_run)
next
  case (Cons r rs)
  from Cons.prems(2,4) save_revision_ok [OF _ _ assms(1)] obtain doc where
    sv: "save_revision m c r w = (Inr (), put (dir @ [json_name (rev_version r)]) doc w)" (is "_ = (_, ?w1)") by force
  have "number_of (rev_number y) < number_of (rev_number r)" if "y \<in> set old" for y
    using Cons.prems(5) that by (auto simp: sorted_wrt_append)
  with list_revisions_after_save [OF sv _ Cons.prems(1)] Cons.prems(2) have "list_revisions m c ?w1 = Inr (old @ [r])" by simp
  moreover have "\<not> path_exists ?w1 (dir @ [json_name (rev_version s)])" if "s \<in> set rs" for s
  proof -
    from Cons.prems(3) have "rev_version r \<notin> rev_version ` set rs" by simp
    with that have "rev_version s \<noteq> rev_version r" by (metis imageI)
    with Cons.prems(4) [of s] that show ?thesis by (simp add: path_exists_def map_of_put json_name_def)
  qed
  ultimately obtain us w' where "mapW (save_revision m c) rs ?w1 = (Inr us, w')" "list_revisions m c w' = Inr ((old @ [r]) @ rs)"
    "\<forall>q. q \<notin> (\<lambda>r. dir @ [json_name (rev_version r)]) ` set rs \<longrightarrow> map_of (w_files w') q = map_of (w_files ?w1) q"
    using Cons.IH [of ?w1 "old @ [r]"] Cons.prems(2,3,5) by auto
  with sv show ?case by (auto simp: bindW_step op_run map_of_put)
qed

lemma save_environments_ok:
  assumes "environment_dir m c = Inr dir"
    and "\<And>e. e \<in> set es \<Longrightarrow> wf_environment e \<and> env_container_id e = ct_id c" and "distinct (map env_id es)"
  shows "\<exists>us w'. mapW (save_environment m c) es w = (Inr us, w')
    \<and> (\<forall>e \<in> set es. get_environment m c (env_id e) w' = Inr e)
    \<and> (\<forall>q. q \<notin> (\<lambda>e. dir @ [json_name (env_id e)]) ` set es \<longrightarrow> map_of (w_files w') q = map_of (w_files w) q)"
  using assms(2,3)
proof (induction es arbitrary: w)
  case Nil
  then show ?case by (simp add: op_run)
next
  case (Cons e es)
  let ?p = "dir @ [json_name (env_id e)]"
  from Cons.prems(1) [of e] have wf: "wf_environment e" "env_container_id e = ct_id c" "is_uuid (env_id e)"
    by (auto simp: wf_environment_def)
  from save_environment_ok [OF wf(1,2) assms(1)] obtain doc where sv: "save_environment m c e w = (Inr (), put ?p doc w)"
    and ld: "\<And>w'. map_of (w_files w') ?p = Some (Inr (VDict doc)) \<Longrightarrow>
      load m ''environment'' (environment_from_dict (m_rt m)) ?p w' = Inr e" by blast
  from Cons.IH [of "put ?p doc w"] Cons.prems obtain us w' where
    r: "mapW (save_environment m c) es (put ?p doc w) = (Inr us, w')" "\<forall>e \<in> set es. get_environment m c (env_id e) w' = Inr e"
    "\<forall>q. q \<notin> (\<lambda>e. dir @ [json_name (env_id e)]) ` set es \<longrightarrow> map_of (w_files w') q = map_of (w_files (put ?p doc w)) q"
    by auto
  have "map_of (w_files w') ?p = Some (Inr (VDict doc))"
  proof -
    from Cons.prems(2) have "?p \<notin> (\<lambda>e. dir @ [json_name (env_id e)]) ` set es"
      by (auto simp: json_name_def image_iff)
    with r(3) have "map_of (w_files w') ?p = map_of (w_files (put ?p doc w)) ?p" by blast
    then show ?thesis by (simp add: map_of_put)
  qed
  from ld [OF this] wf assms(1) have "get_environment m c (env_id e) w' = Inr e" by (simp add: get_environment_load)
  with r sv show ?case by (auto simp: bindW_step op_run map_of_put)
qed

lemma save_container_ok:
  assumes "wf_container c" and "finite_val (container_to_dict c)" and "container_dir m (ct_org_id c) (ct_id c) = Inr dir"
  shows "\<exists>doc. save_container m c w = (Inr (), put (dir @ [''container.json'']) doc w)
    \<and> (\<forall>w'. map_of (w_files w') (dir @ [''container.json'']) = Some (Inr (VDict doc)) \<longrightarrow>
         get_container m (ct_org_id c) (ct_id c) w' = Inr c)"
proof -
  obtain d where d: "container_to_dict c = VDict d" by (simp add: container_to_dict_def)
  let ?doc = "[(''schema_version'', VStr CURRENT_SCHEMA_VERSION), (''kind'', VStr ''container''), (''data'', VDict d)]"
  have wrap: "wrap_document ''container'' (VDict d) = Inr ?doc" by (simp add: wrap_document_Inr DOCUMENT_KINDS_def)
  have "save_container m c w = (Inr (), put (dir @ [''container.json'']) ?doc w)"
    using assms(2,3) wrap
    by (simp add: save_container_def write_document_def atomic_write_def put_file_def put_def bindW_def op_run d)
  moreover have "get_container m (ct_org_id c) (ct_id c) w' = Inr c"
    if "map_of (w_files w') (dir @ [''container.json'']) = Some (Inr (VDict ?doc))" for w'
    using read_written [OF wrap that] assms(3) container_reparse [OF assms(1), of "m_rt m"]
    by (simp add: get_container_def load_def d uniqueness_key_def)
  ultimately show ?thesis by blast
qed

text \<open>An import into a directory without files succeeds and is read back whole.\<close>

lemma write_import_ok:
  assumes "wf_container c" and "finite_val (container_to_dict c)" and "container_dir m (ct_org_id c) (ct_id c) = Inr dir"
    and "\<And>p. path_exists w p \<Longrightarrow> \<not> prefix dir p"
    and "\<And>r. r \<in> set rs \<Longrightarrow> wf_revision (m_rt m) r \<and> rev_container_id r = ct_id c"
    and "distinct (versions_of rs)" and "sorted_wrt (<) (numbers_of rs)"
    and "\<And>e. e \<in> set es \<Longrightarrow> wf_environment e \<and> env_container_id e = ct_id c" and "distinct (map env_id es)"
  shows "\<exists>w'. write_import m c rs es w = (Inr (), w') \<and> get_container m (ct_org_id c) (ct_id c) w' = Inr c
    \<and> list_revisions m c w' = Inr rs \<and> (\<forall>e \<in> set es. get_environment m c (env_id e) w' = Inr e)"
proof -
  have dirs: "revision_dir m c = Inr (dir @ [''revisions''])" "environment_dir m c = Inr (dir @ [''environments''])"
    using assms(3) by (simp_all add: dirs_def sub_dir_def)
  from save_container_ok [OF assms(1-3)] obtain doc where sc: "save_container m c w = (Inr (), put (dir @ [''container.json'']) doc w)"
      (is "_ = (_, ?w1)")
    and gc: "\<And>w'. map_of (w_files w') (dir @ [''container.json'']) = Some (Inr (VDict doc)) \<Longrightarrow>
      get_container m (ct_org_id c) (ct_id c) w' = Inr c" by blast
  have new: "\<not> path_exists ?w1 (dir @ [x, y])" for x y
  proof -
    have "\<not> path_exists w (dir @ [x, y])" using assms(4) [of "dir @ [x, y]"] by auto
    then show ?thesis by (simp add: path_exists_def map_of_put)
  qed
  have "glob_json ?w1 (dir @ [''revisions'']) = []"
  proof -
    have "\<not> (path_exists ?w1 p \<and> in_dir (dir @ [''revisions'']) p)" for p
    proof
      assume p: "path_exists ?w1 p \<and> in_dir (dir @ [''revisions'']) p"
      then have b: "butlast p = dir @ [''revisions'']" and "p \<noteq> []" by (simp_all add: in_dir_def)
      from append_butlast_last_id [OF this(2)] have "p = dir @ [''revisions'', last p]" by (simp add: b)
      with p new show False by metis
    qed
    then have "set (glob_json ?w1 (dir @ [''revisions''])) = {}" by (simp add: set_glob_json)
    then show ?thesis by simp
  qed
  then have old: "list_revisions m c ?w1 = Inr []" by (simp add: list_revisions_def load_all_def dirs)
  have free: "\<not> path_exists ?w1 ((dir @ [''revisions'']) @ [json_name (rev_version r)])" for r :: revision
    using new by simp
  have "sorted_wrt (<) (numbers_of ([] @ rs))" using assms(7) by simp
  from save_revisions_ok [OF dirs(1) old assms(5,6) free this, unfolded append_Nil] obtain us w2 where
    sr: "mapW (save_revision m c) rs ?w1 = (Inr us, w2)" "list_revisions m c w2 = Inr rs"
    and f2: "\<forall>q. q \<notin> (\<lambda>r. (dir @ [''revisions'']) @ [json_name (rev_version r)]) ` set rs \<longrightarrow> map_of (w_files w2) q = map_of (w_files ?w1) q"
    by blast
  from save_environments_ok [OF dirs(2) assms(8,9), of w2] obtain us' w3 where
    se: "mapW (save_environment m c) es w2 = (Inr us', w3)" "\<forall>e \<in> set es. get_environment m c (env_id e) w3 = Inr e"
    and f3: "\<forall>q. q \<notin> (\<lambda>e. (dir @ [''environments'']) @ [json_name (env_id e)]) ` set es \<longrightarrow> map_of (w_files w3) q = map_of (w_files w2) q"
    by auto
  have "write_import m c rs es w = (Inr (), w3)"
    unfolding write_import_def by (rule catchW_ok) (simp add: sc sr(1) se(1) bindW_step op_run)
  moreover have "agree_on (dir @ [''revisions'']) w2 w3"
    unfolding agree_on_def by (intro allI impI f3 [rule_format]) (auto simp: in_dir_def butlast_append)
  with list_revisions_agree [OF dirs(1)] sr(2) have "list_revisions m c w3 = Inr rs" by simp
  moreover have "map_of (w_files w3) (dir @ [''container.json'']) = Some (Inr (VDict doc))"
  proof -
    let ?q = "dir @ [''container.json'']"
    have "map_of (w_files w3) ?q = map_of (w_files w2) ?q" by (rule f3 [rule_format]) auto
    also have "\<dots> = map_of (w_files ?w1) ?q" by (rule f2 [rule_format]) auto
    finally show ?thesis by (simp add: map_of_put)
  qed
  ultimately show ?thesis using gc se(2) by blast
qed

end
