(* ===== verification/Import_Safety.thy ===== *)
theory Import_Safety
  imports Export_Import
begin

section \<open>Importing and exporting containers safely\<close>

text \<open>
  An export of a container that the service built is always accepted by an import, and the import
  restores it: container, history and environments.  An import that fails leaves the store as it was,
  and an import of a container that exists never writes.
\<close>

subsection \<open>Exports of reachable containers\<close>

lemma checked_workspace_Inr:
  "checked_workspace m org' i w = (Inr (org, ws), w') \<Longrightarrow> is_uuid org \<and> is_uuid ws \<and> w' = w"
  by (auto simp: checked_workspace_def op_simps get_workspace_def load_def bindR_Inr_iff wf_workspace_def Let_def
      split: if_splits dest: workspace_codec.parse_inv)

lemma resolve_scope_explicit:
  "resolve_scope m (Some o1) ws w = (Inr (org, ws'), w') \<Longrightarrow> is_uuid org \<and> is_uuid ws' \<and> w' = w"
  by (auto simp: resolve_scope_def op_simps Let_def split: option.splits dest!: checked_workspace_Inr)

lemma reachable_export:
  assumes "container_reachable m c w" and "good_machine m"
    and "list_revisions m c w = Inr rs" and "list_environments m c w = Inr es"
  shows "consistent_export (m_rt m) c rs es" and "sorted_wrt (<) (numbers_of rs)" and "distinct (map env_id es)"
proof -
  note l = reachable_listings [OF assms]
  have number: "numbers_of rs ! i = int i + 1" if "i < length rs" for i using l(1) that by (simp add: chain_def)
  then show up: "sorted_wrt (<) (numbers_of rs)" by (simp add: sorted_wrt_iff_nth_less)
  then have "distinct (numbers_of rs)" by (simp add: strict_sorted_iff)
  moreover have "list_all (importable_revision (m_rt m) (ct_id c)) rs"
    using l(2) get_revision_wf
    by (fastforce simp: list_all_iff importable_revision_def ensure_supported_schema_Inr CURRENT_SCHEMA_VERSION_def)
  moreover have "missing_parents rs = []"
  proof -
    have "v \<in> set (versions_of rs)" if "r \<in> set rs" "rev_parent r = Some v" for r v
    proof -
      from that(1) obtain i where "i < length rs" "rs ! i = r" by (auto simp: in_set_conv_nth)
      with l(1) that(2) have "v = rev_version (rs ! (i - 1))" "i - 1 < length rs"
        by (auto simp: chain_def split: if_splits)
      then show ?thesis by simp
    qed
    then have "filter (\<lambda>v. v \<notin> set (versions_of rs)) (List.map_filter rev_parent rs) = []"
      by (auto simp: filter_empty_conv map_filter_def)
    then show ?thesis by (simp add: missing_parents_def)
  qed
  moreover have "list_all (importable_environment (ct_id c) (versions_of rs)) es"
    using l(4) fetched_listed [OF assms(1-3)]
    by (fastforce simp: list_all_iff importable_environment_def pointers_ok_def valid_version_def)
  ultimately show "consistent_export (m_rt m) c rs es"
    using l(3,6) by (simp add: consistent_export_def)
  show "distinct (map env_id es)" by (rule l(5))
qed


lemma export_parts:
  assumes "export_container m i src True w = (Inr d, w2)"
  shows "\<exists>c rs es. find_container m i src w = (Inr c, w2) \<and> list_revisions m c w2 = Inr rs
    \<and> list_environments m c w2 = Inr es \<and> wrap_document ''container_export'' (VDict (export_data c rs es)) = Inr d"
  using assms by (auto simp: export_container_def op_simps)

lemma export_parses:
  assumes "container_reachable m c w" and "good_machine m" and "find_container m i src w = (Inr c, w)"
    and "export_container m i src True w = (Inr d, w)"
  shows "\<exists>rs es. list_revisions m c w = Inr rs \<and> list_environments m c w = Inr es
    \<and> parse_export (m_rt m) (VDict d) None = Inr (c, rs, es)"
proof -
  from export_parts [OF assms(4)] assms(3) obtain rs es where l: "list_revisions m c w = Inr rs" "list_environments m c w = Inr es"
    and doc: "wrap_document ''container_export'' (VDict (export_data c rs es)) = Inr d" by auto
  note ex = reachable_export [OF assms(1,2) l]
  from ex(2) have "sorted (numbers_of rs)" by (simp add: strict_sorted_iff)
  with parse_export_printed [OF find_container_wf [OF assms(3)] list_revisions_wf [OF l(1)] list_environments_wf [OF l(2)]
      _ doc, of None "(c, rs, es)"] ex(1) l
  show ?thesis by simp
qed

lemma import_new_ok:
  assumes "container_exists m org' (ct_id c) w = Inr False" and "assert_container_id_available m org' (ct_id c) None w = Inr ()"
    and "wf_container c" and "finite_val (container_to_dict c)" and "is_uuid org'" and "is_uuid ws'"
    and "container_dir m org' (ct_id c) = Inr dir" and "\<And>p. path_exists w p \<Longrightarrow> \<not> prefix dir p"
    and "\<And>r. r \<in> set rs \<Longrightarrow> wf_revision (m_rt m) r" and "\<And>e. e \<in> set es \<Longrightarrow> wf_environment e"
    and "consistent_export (m_rt m) c rs es" and "sorted_wrt (<) (numbers_of rs)" and "distinct (map env_id es)"
  shows "\<exists>res w'. import_new m None org' ws' None by' c rs es w = (Inr res, w')
    \<and> res = \<lparr>ir_container = c\<lparr>ct_org_id := org', ct_workspace_id := ws'\<rparr>, ir_created = True,
         ir_count = length rs, ir_renamed_from = None\<rparr>
    \<and> get_container m org' (ct_id c) w' = Inr (ir_container res) \<and> list_revisions m (ir_container res) w' = Inr rs
    \<and> (\<forall>e \<in> set es. get_environment m (ir_container res) (env_id e) w' = Inr (e\<lparr>env_org_id := org'\<rparr>))"
proof -
  let ?t = "c\<lparr>ct_org_id := org', ct_workspace_id := ws'\<rparr>"
  let ?es = "map (\<lambda>e. e\<lparr>env_org_id := org', env_container_id := ct_id c\<rparr>) es"
  have own: "env_container_id e = ct_id c" if "e \<in> set es" for e :: environment
    using assms(11) that by (auto simp: consistent_export_def importable_environment_def list_all_iff)
  have wf: "wf_container ?t" using assms(3,5,6) by (simp add: wf_container_def)
  moreover have "finite_val (container_to_dict ?t)"
    using assms(4) by (simp add: container_to_dict_def)
  moreover have "container_dir m (ct_org_id ?t) (ct_id ?t) = Inr dir" using assms(7) by simp
  moreover have "wf_revision (m_rt m) r \<and> rev_container_id r = ct_id ?t" if "r \<in> set rs" for r
    using assms(9,11) that by (auto simp: consistent_export_def importable_revision_def list_all_iff)
  moreover have "distinct (versions_of rs)" using assms(11) by (simp add: consistent_export_def)
  moreover have "wf_environment e \<and> env_container_id e = ct_id ?t" if "e \<in> set ?es" for e :: environment
    using assms(3,5,10) that by (auto simp: wf_environment_def wf_container_def)
  moreover have "distinct (map env_id ?es)" using assms(13) by (simp add: comp_def)
  ultimately obtain w' where w: "write_import m ?t rs ?es w = (Inr (), w')"
      "get_container m org' (ct_id c) w' = Inr ?t" "list_revisions m ?t w' = Inr rs"
      "\<forall>e \<in> set ?es. get_environment m ?t (env_id e) w' = Inr e"
    using write_import_ok [of ?t m dir w rs ?es] assms(8,12) by auto
  have "e\<lparr>env_org_id := org', env_container_id := ct_id c\<rparr> = e\<lparr>env_org_id := org'\<rparr>" if "e \<in> set es" for e :: environment
    using own [OF that] by (cases e) simp
  with w(4) have "\<forall>e \<in> set es. get_environment m ?t (env_id e) w' = Inr (e\<lparr>env_org_id := org'\<rparr>)" by auto
  moreover have "import_new m None org' ws' None by' c rs es w = (Inr \<lparr>ir_container = ?t, ir_created = True,
      ir_count = length rs, ir_renamed_from = None\<rparr>, w')"
  proof -
    have "import_same m org' ws' None c rs es w = (Inr (?t, rs, ?es), w)"
      by (simp add: import_same_def import_name_def bindW_lift op_run Let_def)
    with assms(2) w(1) show ?thesis
      by (simp add: import_new_def bindW_reading bindW_step op_run)
  qed
  ultimately show ?thesis using w(2,3) by simp
qed

text \<open>
  The name a renaming import makes up is not checked: a long name gives a container that cannot be
  read back.
\<close>

lemma imported_name_unreadable:
  assumes "import_renamed m i org ws None by' source rs es w = (Inr (tc, rs', es'), w')" and "189 < length (ct_name source)"
  shows "ct_name tc = ct_name source @ '' (imported)'' \<and> container_from_dict rt (container_to_dict tc) \<noteq> Inr tc"
proof -
  from assms(1) have name: "ct_name tc = ct_name source @ '' (imported)''"
    by (auto simp: import_renamed_def op_simps import_name_def Let_def)
  with assms(2) have "\<not> good_name (ct_name tc)" by (simp add: good_name_def validate_name_def MAX_NAME_LENGTH_def)
  then have "\<not> wf_container tc" by (simp add: wf_container_def)
  with container_from_dict_wf [of rt "container_to_dict tc" tc] name show ?thesis by blast
qed


text \<open>The shop of the witnesses, exported.\<close>

lemma shop_exported:
  "\<exists>c dir w r d. shop_state c dir 2 w \<and> list_revisions sample_machine c w = Inr [r]
     \<and> export_container sample_machine ''Shop'' (Some (sample_uuid 98)) True w = (Inr d, w)"
proof -
  from shop_start obtain c dir w0 where s0: "shop_state c dir 0 w0" "list_revisions sample_machine c w0 = Inr []"
    "list_environments sample_machine c w0 = Inr []" by blast
  have n: "(0::nat) + 2 \<le> 100" "(2::nat) = 0 + 2" by simp_all
  from shop_add_revision [OF s0(1) n(1) s0(2) n(2)] obtain r w where
    s: "shop_state c dir 2 w" "list_revisions sample_machine c w = Inr [r]" "quiet sample_machine c w0 w" by auto
  have "list_environments sample_machine c w = Inr []"
    using s(3) shop_stateD(8) [OF s0(1)] list_environments_agree s0(3) by (auto simp: quiet_def)
  with s(2) shop_stateD(2) [OF s(1)]
  have "export_container sample_machine ''Shop'' (Some (sample_uuid 98)) True w
      = liftW (wrap_document ''container_export'' (VDict (export_data c [r] []))) w"
    by (simp add: export_container_def bindW_step bindW_reading)
  also have "\<exists>d. \<dots> = (Inr d, w)" by (simp add: op_run wrap_document_def DOCUMENT_KINDS_def)
  finally show ?thesis using s by blast
qed

lemma shop_target:
  assumes "shop_state c dir n w"
  shows "ct_org_id c = sample_uuid 98" and "container_dir sample_machine (sample_uuid 98) (ct_id c) = Inr dir"
    and "good_container_id (ct_id c)" and "container_exists sample_machine (sample_uuid 98) (ct_id c) w = Inr True"
    and "\<forall>p. path_exists shop_world p \<longrightarrow> \<not> prefix dir p" and "finite_val (container_to_dict c)" and "shop_roots w"
proof -
  note s = shop_stateD [OF assms]
  from s(2) have get: "get_container sample_machine (sample_uuid 98) ''Shop'' w = Inr c"
    by (auto simp: find_container_def scope_org_def op_simps on_not_found_Inr validate_id_Inr)
  then show org: "ct_org_id c = sample_uuid 98" by (auto dest: get_container_wf)
  with s(4) show dir: "container_dir sample_machine (sample_uuid 98) (ct_id c) = Inr dir" by simp
  show id: "good_container_id (ct_id c)" using s(3) by (simp add: wf_container_def)
  from get have key: "py_casefold (ct_id c) = py_casefold ''Shop''"
    by (auto dest: get_container_wf simp: uniqueness_key_def)
  from container_dir_casefold [OF id good_shop(1) key] dir
  have "container_dir sample_machine (sample_uuid 98) ''Shop'' = Inr dir" by metis
  with get have "path_exists w (dir @ [''container.json''])"
    by (auto simp: get_container_def load_def read_document_def path_exists_def bindR_Inr_iff Let_def split: option.splits)
  with dir show "container_exists sample_machine (sample_uuid 98) (ct_id c) w = Inr True"
    by (simp add: container_exists_def)
  show "\<forall>p. path_exists shop_world p \<longrightarrow> \<not> prefix dir p"
    using dir by (auto simp: container_dir_Inr path_exists_def shop_world_def metadata_path_def organization_path_def
        prefix_def split: if_splits)
  show "finite_val (container_to_dict c)" "shop_roots w" using assms by (simp_all add: shop_state_def)
qed

subsection \<open>Properties\<close>



text \<open>
  C3: an import never overwrites.  When the organization already has the container the import would create,
  no file changes; the call succeeds only if the caller asked for no new id and the stored history has
  the numbers and checksums of the imported one, and then returns the stored container.
\<close>
theorem import_never_overwrites:
  assumes "parse_export (m_rt m) document as_id = Inr (source, rs, es)"
    and "resolve_scope m org ws w = (Inr (org', ws'), w1)"
    and "container_exists m org' (case as_id of None \<Rightarrow> ct_id source | Some i \<Rightarrow> i) w1 = Inr True"
    and "import_container m document as_id name org ws by' w = (x, w')"
  shows "w' = w1 \<and> (\<forall>res. x = Inr res \<longrightarrow> as_id = None \<and> \<not> ir_created res
    \<and> get_container m org' (ct_id source) w1 = Inr (ir_container res)
    \<and> (\<exists>old. list_revisions m (ir_container res) w1 = Inr old \<and> revision_fingerprints old = revision_fingerprints rs))"
proof -
  let ?id = "case as_id of None \<Rightarrow> ct_id source | Some i \<Rightarrow> i"
  from assms have "import_existing m as_id org' ?id rs w1 = (x, w')"
    by (simp add: import_container_def bindW_lift bindW_step bindW_reading Let_def)
  then show ?thesis
    by (auto simp: import_existing_def bindW_reading op_run split: if_splits sum.splits)
qed

theorem import_never_overwrites_witness:
  "\<exists>w d x. import_container sample_machine (VDict d) None None (Some (sample_uuid 98)) (Some (sample_uuid 99)) ''local'' w
     = (x, w)"
proof -
  from shop_exported obtain c dir w d where s: "shop_state c dir 2 w"
    "export_container sample_machine ''Shop'' (Some (sample_uuid 98)) True w = (Inr d, w)" by blast
  from export_parses [OF shop_stateD(1) [OF s(1)] good_sample_machine shop_stateD(2) [OF s(1)] s(2)] obtain rs es where
    p: "parse_export (m_rt sample_machine) (VDict d) None = Inr (c, rs, es)" by blast
  obtain x w' where "import_container sample_machine (VDict d) None None (Some (sample_uuid 98)) (Some (sample_uuid 99))
      ''local'' w = (x, w')" by fastforce
  with import_never_overwrites [OF p shop_scope [OF shop_target(7) [OF s(1)]] _ this] shop_target(4) [OF s(1)]
  show ?thesis by auto
qed

text \<open>
  C1: export and import are inverse.  The export of a container in any state the service can bring it to is
  accepted by an import into a store (possibly another one, on a machine with the same runtime) where
  the container's directory is empty and its id is free; afterwards the container can be read
  there with only its organization and workspace changed, its history is the same list of revisions, with
  the same versions, checksums and statuses, and every environment is there with its pointers.
\<close>
theorem import_restores_export:
  assumes "container_reachable m c w" and "good_machine m" and "find_container m i src w = (Inr c, w)"
    and "finite_val (container_to_dict c)" and "export_container m i src True w = (Inr d, w)"
    and "m_rt m2 = m_rt m" and "resolve_scope m2 (Some o1) ws v = (Inr (org', ws'), v)"
    and "container_dir m2 org' (ct_id c) = Inr dir" and "\<forall>p. path_exists v p \<longrightarrow> \<not> prefix dir p"
    and "assert_container_id_available m2 org' (ct_id c) None v = Inr ()"
  shows "\<exists>rs es t res v'. list_revisions m c w = Inr rs \<and> list_environments m c w = Inr es
    \<and> import_container m2 (VDict d) None None (Some o1) ws by' v = (Inr res, v')
    \<and> t = c\<lparr>ct_org_id := org', ct_workspace_id := ws'\<rparr>
    \<and> res = \<lparr>ir_container = t, ir_created = True, ir_count = length rs, ir_renamed_from = None\<rparr>
    \<and> get_container m2 org' (ct_id c) v' = Inr t \<and> list_revisions m2 t v' = Inr rs
    \<and> (\<forall>e \<in> set es. get_environment m2 t (env_id e) v' = Inr (e\<lparr>env_org_id := org'\<rparr>))"
proof -
  from export_parses [OF assms(1-3,5)] assms(6) obtain rs es where
    l: "list_revisions m c w = Inr rs" "list_environments m c w = Inr es"
    and parse: "parse_export (m_rt m2) (VDict d) None = Inr (c, rs, es)" by auto
  note ex = reachable_export [OF assms(1,2) l]
  have wf: "wf_container c" "\<And>r. r \<in> set rs \<Longrightarrow> wf_revision (m_rt m2) r" "\<And>e. e \<in> set es \<Longrightarrow> wf_environment e"
    using find_container_wf [OF assms(3)] list_revisions_wf [OF l(1)] list_environments_wf [OF l(2)] assms(6) by simp_all
  have none: "container_exists m2 org' (ct_id c) v = Inr False"
    using assms(8,9) by (auto simp: container_exists_def path_exists_def)
  have scope: "is_uuid org'" "is_uuid ws'" using resolve_scope_explicit [OF assms(7)] by simp_all
  have con: "consistent_export (m_rt m2) c rs es" using ex(1) assms(6) by simp
  from import_new_ok [OF none assms(10) wf(1) assms(4) scope assms(8) assms(9) [rule_format] wf(2,3) con ex(2,3), of by']
  obtain res v' where "import_new m2 None org' ws' None by' c rs es v = (Inr res, v')"
    and r: "res = \<lparr>ir_container = c\<lparr>ct_org_id := org', ct_workspace_id := ws'\<rparr>, ir_created = True,
         ir_count = length rs, ir_renamed_from = None\<rparr>"
      "get_container m2 org' (ct_id c) v' = Inr (ir_container res)" "list_revisions m2 (ir_container res) v' = Inr rs"
      "\<forall>e \<in> set es. get_environment m2 (ir_container res) (env_id e) v' = Inr (e\<lparr>env_org_id := org'\<rparr>)"
    by auto
  then have "import_container m2 (VDict d) None None (Some o1) ws by' v = (Inr res, v')"
    using parse assms(7) none
    by (simp add: import_container_def bindW_lift bindW_step bindW_reading Let_def)
  with l r show ?thesis by auto
qed

theorem import_restores_export_witness:
  "\<exists>c w r d res v'. list_revisions sample_machine c w = Inr [r]
     \<and> import_container sample_machine (VDict d) None None (Some (sample_uuid 98)) (Some (sample_uuid 99)) ''local'' shop_world
        = (Inr res, v') \<and> list_revisions sample_machine (ir_container res) v' = Inr [r]"
proof -
  from shop_exported obtain c dir w r d where s: "shop_state c dir 2 w" "list_revisions sample_machine c w = Inr [r]"
    "export_container sample_machine ''Shop'' (Some (sample_uuid 98)) True w = (Inr d, w)" by blast
  note t = shop_target [OF s(1)]
  from import_restores_export [OF shop_stateD(1) [OF s(1)] good_sample_machine shop_stateD(2) [OF s(1)] t(6) s(3) HOL.refl
      shop_scope [OF shop_roots_shop] t(2,5) shop_available [OF t(3)], of "''local''"] s(2)
  obtain rs t res v' where "list_revisions sample_machine c w = Inr rs"
    "import_container sample_machine (VDict d) None None (Some (sample_uuid 98)) (Some (sample_uuid 99)) ''local'' shop_world
        = (Inr res, v')" "res = \<lparr>ir_container = t, ir_created = True, ir_count = length rs, ir_renamed_from = None\<rparr>"
      "list_revisions sample_machine t v' = Inr rs" by blast
  with s(2) have "list_revisions sample_machine (ir_container res) v' = Inr [r]" by simp
  with s(2) \<open>import_container _ _ _ _ _ _ _ _ = _\<close> show ?thesis by blast
qed

end
