(* ===== verification/Event_Contract.thy ===== *)
theory Event_Contract
  imports Ids
begin

section \<open>The event contract (events/contract.py)\<close>

text \<open>
  The validation and normalisation of collected events: the limits and patterns of the contract, the
  timestamp syntax, the test for sensitive property names, \<open>validate_event\<close>, \<open>parse_event\<close> and
  \<open>validate_batch\<close>.  Validation collects issues in the order the code appends them; an exception
  that is not an \<open>EventValidationError\<close> ends it.  Python tuples and mappings with keys that are not
  text do not occur in decoded JSON and are not modelled.
\<close>

subsection \<open>Limits and vocabularies\<close>

definition CONTRACT_SCHEMA_VERSION :: string where "CONTRACT_SCHEMA_VERSION = ''1.0''"
definition MAX_EVENT_BYTES :: nat where "MAX_EVENT_BYTES = 32768"
definition MAX_BATCH_EVENTS :: nat where "MAX_BATCH_EVENTS = 100"
definition MAX_PROPERTIES :: nat where "MAX_PROPERTIES = 100"
definition MAX_PROPERTY_DEPTH :: nat where "MAX_PROPERTY_DEPTH = 5"
definition MAX_PROPERTY_STRING :: nat where "MAX_PROPERTY_STRING = 2048"
definition MAX_ARRAY_ITEMS :: nat where "MAX_ARRAY_ITEMS = 100"
definition MAX_OBJECT_KEYS :: nat where "MAX_OBJECT_KEYS = 50"
definition MAX_EVENT_NAME_LENGTH :: nat where "MAX_EVENT_NAME_LENGTH = 80"
definition MAX_SUBJECT_LENGTH :: nat where "MAX_SUBJECT_LENGTH = 128"
definition MAX_CORRELATION_LENGTH :: nat where "MAX_CORRELATION_LENGTH = 128"
definition MAX_CONSENT_PURPOSES :: nat where "MAX_CONSENT_PURPOSES = 32"

definition PLATFORMS :: "string list" where "PLATFORMS = [''web'', ''android'', ''ios'', ''server'']"
definition CONSENT_SOURCES :: "string list" where "CONSENT_SOURCES = [''sdk'', ''host'', ''server'', ''unknown'']"
definition CONSENT_PROVENANCE :: "string list" where
  "CONSENT_PROVENANCE = [''explicit'', ''default'', ''stored'', ''unknown'']"
definition TOP_LEVEL_FIELDS :: "string list" where
  "TOP_LEVEL_FIELDS = [''schema_version'', ''event_id'', ''event_name'', ''timestamp'', ''source'',
     ''container_id'', ''config_version'', ''subject'', ''consent'', ''correlation'', ''properties'']"
definition SOURCE_FIELDS :: "string list" where
  "SOURCE_FIELDS = [''platform'', ''sdk_name'', ''sdk_version'', ''app_version'']"
definition SUBJECT_FIELDS :: "string list" where "SUBJECT_FIELDS = [''id'', ''type'']"
definition CONSENT_FIELDS :: "string list" where
  "CONSENT_FIELDS = [''purposes'', ''source'', ''provenance'', ''updated_at'']"
definition CORRELATION_FIELDS :: "string list" where "CORRELATION_FIELDS = [''correlation_id'', ''session_id'']"
definition REQUIRED_FIELDS :: "string list" where
  "REQUIRED_FIELDS = [''schema_version'', ''event_id'', ''event_name'', ''timestamp'', ''source'',
     ''container_id'', ''properties'']"

definition SENSITIVE_TOKENS :: "string list" where
  "SENSITIVE_TOKENS = [''password'', ''passwd'', ''passphrase'', ''secret'', ''token'', ''apikey'',
     ''credential'', ''credentials'', ''cvv'', ''cvc'', ''pin'', ''ssn'', ''socialsecurity'', ''email'',
     ''phone'', ''phonenumber'', ''address'', ''street'', ''postalcode'', ''zip'', ''iban'',
     ''accountnumber'', ''routingnumber'', ''taxid'', ''nationalid'', ''passport'', ''dob'',
     ''birthdate'', ''ip'', ''ipaddress'', ''latitude'', ''longitude'', ''geolocation'', ''cardnumber'',
     ''creditcard'', ''creditcardnumber'', ''securitycode'', ''routing'']"
definition SENSITIVE_PHRASES :: "string list" where
  "SENSITIVE_PHRASES = [''creditcard'', ''creditcardnumber'', ''cardnumber'', ''securitycode'',
     ''socialsecurity'', ''socialsecuritynumber'', ''phonenumber'', ''postalcode'', ''ipaddress'',
     ''dateofbirth'', ''bankaccount'', ''accountnumber'', ''routingnumber'', ''nationalid'', ''taxid'',
     ''passportnumber'']"
definition HASH_MARKERS :: "string list" where
  "HASH_MARKERS = [''hash'', ''hashed'', ''sha256'', ''sha512'', ''hmac'', ''digest'']"

subsection \<open>Issues\<close>

record event_issue =
  ei_code :: string
  ei_field :: string
  ei_message :: string

abbreviation issue :: "string \<Rightarrow> string \<Rightarrow> string \<Rightarrow> event_issue" where
  "issue c f t \<equiv> \<lparr>ei_code = c, ei_field = f, ei_message = t\<rparr>"

definition event_issue_to_dict :: "event_issue \<Rightarrow> pyval" where
  "event_issue_to_dict i = VDict [(''code'', VStr (ei_code i)), (''field'', VStr (ei_field i)),
     (''message'', VStr (ei_message i))]"

text \<open>\<open>EventValidationError\<close>: its message and its object form.\<close>

definition validation_message :: "event_issue list \<Rightarrow> string" where
  "validation_message issues =
     (let m = join_with ''; '' (map (\<lambda>i. ei_field i @ '': '' @ ei_message i) issues)
      in if m = [] then ''invalid event'' else m)"

definition validation_error_to_dict :: "event_issue list \<Rightarrow> pyval" where
  "validation_error_to_dict issues = VDict [(''error'', VStr ''invalid_event''),
     (''schema_version'', VStr CONTRACT_SCHEMA_VERSION), (''issues'', VList (map event_issue_to_dict issues))]"

text \<open>The checks of one event, one after the other; an exception in one is the result of all.\<close>

definition catR :: "event_issue list res list \<Rightarrow> event_issue list res" where
  "catR checks = bindR (mapR (\<lambda>r. r) checks) (\<lambda>issues. Inr (concat issues))"

text \<open>\<open>value in {...}\<close>: the set hashes the value first.\<close>

definition in_text_set :: "pyval \<Rightarrow> string list \<Rightarrow> bool res" where
  "in_text_set v xs = (case v of
     VStr s \<Rightarrow> Inr (s \<in> set xs)
   | VList _ \<Rightarrow> Inl (TypeError (''unhashable type: '' @ repr_str ''list''))
   | VDict _ \<Rightarrow> Inl (TypeError (''unhashable type: '' @ repr_str ''dict''))
   | _ \<Rightarrow> Inr False)"

subsection \<open>Patterns\<close>

definition is_hex :: "char \<Rightarrow> bool" where
  "is_hex c \<longleftrightarrow> is_decimal c \<or> c \<in> set ''abcdefABCDEF''"

definition is_word :: "char \<Rightarrow> bool" where
  "is_word c \<longleftrightarrow> is_ascii_letter c \<or> is_decimal c"

definition is_lower_ascii :: "char \<Rightarrow> bool" where
  "is_lower_ascii c \<longleftrightarrow> 97 \<le> code c \<and> code c \<le> (122::nat)"

text \<open>One character of a first class, then at most \<open>n\<close> of a second.\<close>

definition headed :: "(char \<Rightarrow> bool) \<Rightarrow> (char \<Rightarrow> bool) \<Rightarrow> nat \<Rightarrow> string \<Rightarrow> bool" where
  "headed p q n s \<longleftrightarrow> (case s of [] \<Rightarrow> False | c # rest \<Rightarrow> p c \<and> list_all q rest \<and> length rest \<le> n)"

definition event_id_shape :: "string \<Rightarrow> bool" where
  "event_id_shape s \<longleftrightarrow> (case split_on (CHR ''-'') s of
     [a, b, c, d, e] \<Rightarrow> length a = 8 \<and> length b = 4 \<and> length c = 4 \<and> length d = 4 \<and> length e = 12
       \<and> list_all is_hex (a @ b @ c @ d @ e)
   | _ \<Rightarrow> False)"

definition event_name_shape :: "string \<Rightarrow> bool" where
  "event_name_shape = headed is_ascii_letter (\<lambda>c. is_word c \<or> c \<in> set ''_.-'') 79"

definition event_container_shape :: "string \<Rightarrow> bool" where
  "event_container_shape = headed is_word (\<lambda>c. is_word c \<or> c \<in> set ''_.:-'') 127"

definition config_version_shape :: "string \<Rightarrow> bool" where
  "config_version_shape = headed is_word (\<lambda>c. is_word c \<or> c \<in> set ''_.:-'') 127"

definition sdk_name_shape :: "string \<Rightarrow> bool" where
  "sdk_name_shape = headed is_ascii_letter (\<lambda>c. is_word c \<or> c \<in> set ''_.-'') 63"

definition app_version_shape :: "string \<Rightarrow> bool" where
  "app_version_shape = headed is_word (\<lambda>c. is_word c \<or> c \<in> set ''_.+-'') 63"

definition property_key_shape :: "string \<Rightarrow> bool" where
  "property_key_shape = headed is_ascii_letter (\<lambda>c. is_word c \<or> c \<in> set ''_.-'') 63"

definition event_purpose_shape :: "string \<Rightarrow> bool" where
  "event_purpose_shape = headed is_lower_ascii (\<lambda>c. is_lower_ascii c \<or> is_decimal c \<or> c \<in> set ''_-'') 63"

definition safe_id_shape :: "string \<Rightarrow> bool" where
  "safe_id_shape s \<longleftrightarrow> s \<noteq> [] \<and> list_all (\<lambda>c. \<not> is_control c) s"

text \<open>\<open>_SDK_VERSION_RE\<close>: three runs of digits with dots between them, then optionally a suffix.\<close>

definition dotted_run :: "(string \<Rightarrow> bool) \<Rightarrow> string \<Rightarrow> bool" where
  "dotted_run rest s \<longleftrightarrow> takeWhile is_decimal s \<noteq> [] \<and> rest (dropWhile is_decimal s)"

definition after_dot :: "(string \<Rightarrow> bool) \<Rightarrow> string \<Rightarrow> bool" where
  "after_dot rest s \<longleftrightarrow> (case s of [] \<Rightarrow> False | c # s' \<Rightarrow> c = CHR ''.'' \<and> rest s')"

definition version_suffix :: "string \<Rightarrow> bool" where
  "version_suffix s \<longleftrightarrow> (case s of [] \<Rightarrow> True | c # s' \<Rightarrow> c \<in> set ''-+'' \<and> s' \<noteq> []
     \<and> list_all (\<lambda>c. is_word c \<or> c \<in> set ''.-'') s')"

definition sdk_version_shape :: "string \<Rightarrow> bool" where
  "sdk_version_shape = dotted_run (after_dot (dotted_run (after_dot (dotted_run version_suffix))))"

subsection \<open>Sensitive property names\<close>

text \<open>\<open>re.findall(r"[a-z0-9]+", text)\<close>: the maximal runs of a class.\<close>

lemma shorter_rest [termination_simp]: "length (dropWhile p s) < Suc (length s)"
  by (simp add: le_imp_less_Suc length_dropWhile_le)

fun runs :: "(char \<Rightarrow> bool) \<Rightarrow> string \<Rightarrow> string list" where
  "runs p [] = []"
| "runs p (c # s) = (if p c then (c # takeWhile p s) # runs p (dropWhile p s) else runs p s)"

definition name_tokens :: "string \<Rightarrow> string list" where
  "name_tokens key = runs (\<lambda>c. is_lower_ascii c \<or> is_decimal c) (py_lower key)"

definition is_sensitive_property :: "string \<Rightarrow> bool" where
  "is_sensitive_property key =
     (let tokens = name_tokens key; normalized = concat tokens;
        marked = (hd tokens \<in> set HASH_MARKERS \<or> last tokens \<in> set HASH_MARKERS)
      in if tokens = [] then False
         else if list_ex (\<lambda>phrase. str_contains phrase normalized) SENSITIVE_PHRASES then \<not> marked
         else if \<not> list_ex (\<lambda>t. t \<in> set SENSITIVE_TOKENS) tokens then False
         else \<not> marked)"

subsection \<open>Timestamps\<close>

text \<open>
  An aware \<open>datetime\<close> in UTC.  \<open>total_micros\<close> counts the microseconds from the start of year 1, so that
  \<open>(current - parsed).total_seconds()\<close> is a difference divided by a million; the code compares it with a
  whole number of seconds, a comparison the rounding of the division does not change.
\<close>

record datetime =
  dt_year :: nat
  dt_month :: nat
  dt_day :: nat
  dt_hour :: nat
  dt_minute :: nat
  dt_second :: nat
  dt_micro :: nat

definition leap_year :: "nat \<Rightarrow> bool" where
  "leap_year y \<longleftrightarrow> y mod 4 = 0 \<and> (y mod 100 \<noteq> 0 \<or> y mod 400 = 0)"

definition days_in_month :: "nat \<Rightarrow> nat \<Rightarrow> nat" where
  "days_in_month y m =
     (if m = 2 then (if leap_year y then 29 else 28) else if m \<in> {4, 6, 9, 11} then 30 else 31)"

definition valid_datetime :: "datetime \<Rightarrow> bool" where
  "valid_datetime d \<longleftrightarrow> 1 \<le> dt_year d \<and> dt_year d \<le> 9999 \<and> 1 \<le> dt_month d \<and> dt_month d \<le> 12
     \<and> 1 \<le> dt_day d \<and> dt_day d \<le> days_in_month (dt_year d) (dt_month d)
     \<and> dt_hour d \<le> 23 \<and> dt_minute d \<le> 59 \<and> dt_second d \<le> 59 \<and> dt_micro d \<le> 999999"

definition total_days :: "datetime \<Rightarrow> nat" where
  "total_days d = (let y = dt_year d - 1 in
     y * 365 + y div 4 - y div 100 + y div 400
     + sum_list (map (days_in_month (dt_year d)) [1..<dt_month d]) + dt_day d)"

definition total_micros :: "datetime \<Rightarrow> int" where
  "total_micros d =
     ((int (total_days d) * 86400 + int (dt_hour d) * 3600 + int (dt_minute d) * 60 + int (dt_second d)) * 1000000)
     + int (dt_micro d)"

text \<open>
  \<open>_TIMESTAMP_RE\<close>: nineteen characters of date and time, then \<open>Z\<close> or one to three digits between a dot
  and \<open>Z\<close>.
\<close>

definition fraction_shape :: "string \<Rightarrow> bool" where
  "fraction_shape r \<longleftrightarrow> r = ''Z'' \<or> (3 \<le> length r \<and> length r \<le> 5 \<and> hd r = CHR ''.'' \<and> last r = CHR ''Z''
     \<and> list_all is_decimal (butlast (tl r)))"

definition timestamp_shape :: "string \<Rightarrow> bool" where
  "timestamp_shape s \<longleftrightarrow> 20 \<le> length s
     \<and> list_all is_decimal (take 4 s) \<and> s ! 4 = CHR ''-'' \<and> list_all is_decimal (take 2 (drop 5 s)) \<and> s ! 7 = CHR ''-''
     \<and> list_all is_decimal (take 2 (drop 8 s)) \<and> s ! 10 = CHR ''T'' \<and> list_all is_decimal (take 2 (drop 11 s))
     \<and> s ! 13 = CHR '':'' \<and> list_all is_decimal (take 2 (drop 14 s)) \<and> s ! 16 = CHR '':''
     \<and> list_all is_decimal (take 2 (drop 17 s)) \<and> fraction_shape (drop 19 s)"

definition millis_of :: "string \<Rightarrow> nat" where
  "millis_of r = (let f = (if r = ''Z'' then ''0'' else butlast (tl r)) in
     digits_value (f @ replicate (3 - length f) (CHR ''0'')))"

definition parse_timestamp :: "pyval \<Rightarrow> datetime option" where
  "parse_timestamp v = (case v of
     VStr s \<Rightarrow>
       if \<not> timestamp_shape s then None
       else
         let d = \<lparr>dt_year = digits_value (take 4 s), dt_month = digits_value (take 2 (drop 5 s)),
           dt_day = digits_value (take 2 (drop 8 s)), dt_hour = digits_value (take 2 (drop 11 s)),
           dt_minute = digits_value (take 2 (drop 14 s)), dt_second = digits_value (take 2 (drop 17 s)),
           dt_micro = millis_of (drop 19 s) * 1000\<rparr>
         in if valid_datetime d then Some d else None
   | _ \<Rightarrow> None)"

definition padded :: "nat \<Rightarrow> nat \<Rightarrow> string" where
  "padded k n = (let t = nat_str n in replicate (k - length t) (CHR ''0'') @ t)"

definition format_timestamp :: "datetime \<Rightarrow> string" where
  "format_timestamp d = padded 4 (dt_year d) @ ''-'' @ padded 2 (dt_month d) @ ''-'' @ padded 2 (dt_day d) @ ''T''
     @ padded 2 (dt_hour d) @ '':'' @ padded 2 (dt_minute d) @ '':'' @ padded 2 (dt_second d) @ ''.''
     @ padded 3 (dt_micro d div 1000) @ ''Z''"

subsection \<open>Text and property values\<close>

definition has_control :: "bool \<Rightarrow> string \<Rightarrow> bool" where
  "has_control allow_whitespace s =
     list_ex (\<lambda>c. \<not> (allow_whitespace \<and> code c \<in> {9, 10, 13::nat}) \<and> is_control c) s"

definition check_string ::
    "pyval \<Rightarrow> string \<Rightarrow> nat \<Rightarrow> (string \<Rightarrow> bool) option \<Rightarrow> bool \<Rightarrow> bool \<Rightarrow> event_issue list" where
  "check_string v fld max_length pattern allow_whitespace required =
     (if v = VNone \<and> \<not> required then []
      else case v of
        VStr s \<Rightarrow>
          if required \<and> s = [] then [issue ''required'' fld ''must not be empty'']
          else if length s > max_length
          then [issue ''too_long'' fld (''must be at most '' @ nat_str max_length @ '' characters'')]
          else if has_control allow_whitespace s
          then [issue ''invalid_characters'' fld ''must not contain control characters'']
          else (case pattern of
              None \<Rightarrow> []
            | Some p \<Rightarrow> if \<not> p s then [issue ''invalid_format'' fld ''has an invalid format''] else [])
      | _ \<Rightarrow> [issue ''invalid_type'' fld ''must be a string''])"

text \<open>
  \<open>math.isfinite\<close> converts an integer to a float, which raises beyond the range of doubles: from
  2^1024 - 2^970 on, the midpoint of the largest double and 2^1024, rounding would overflow.
\<close>

definition too_large_int :: "int \<Rightarrow> bool" where
  "too_large_int i \<longleftrightarrow> 2 ^ 1024 - 2 ^ 970 \<le> \<bar>i\<bar>"

definition is_event_number :: "pyval \<Rightarrow> bool res" where
  "is_event_number v = (case v of
     VInt i \<Rightarrow> if too_large_int i then Inl (OverflowError ''int too large to convert to float'') else Inr True
   | VFloat f \<Rightarrow> Inr (is_finite f)
   | _ \<Rightarrow> Inr False)"

definition key_issues :: "string \<Rightarrow> string \<Rightarrow> event_issue list" where
  "key_issues key child =
     (if \<not> property_key_shape key
      then [issue ''invalid_key'' child ''property keys must match ^[A-Za-z][A-Za-z0-9_.-]{0,63}$'']
      else if is_sensitive_property key
      then [issue ''sensitive_property'' child ''sensitive property names are prohibited by the v1 contract'']
      else [])"

fun validate_properties :: "pyval \<Rightarrow> string \<Rightarrow> nat \<Rightarrow> event_issue list res"
  and validate_items :: "pyval list \<Rightarrow> string \<Rightarrow> nat \<Rightarrow> nat \<Rightarrow> event_issue list res"
  and validate_members :: "(string \<times> pyval) list \<Rightarrow> string \<Rightarrow> nat \<Rightarrow> event_issue list res" where
  "validate_properties v fld depth =
     (if depth > MAX_PROPERTY_DEPTH
      then Inr [issue ''too_deep'' fld (''must not exceed '' @ nat_str MAX_PROPERTY_DEPTH @ '' nested levels'')]
      else case v of
        VNone \<Rightarrow> Inr []
      | VBool _ \<Rightarrow> Inr []
      | VStr s \<Rightarrow> Inr ((if length s > MAX_PROPERTY_STRING
            then [issue ''too_long'' fld (''string values must be at most '' @ nat_str MAX_PROPERTY_STRING @ '' characters'')]
            else [])
          @ (if has_control True s
            then [issue ''invalid_characters'' fld ''must not contain control characters''] else []))
      | VList xs \<Rightarrow> bindR (validate_items xs fld 0 depth) (\<lambda>rest.
          Inr ((if length xs > MAX_ARRAY_ITEMS
            then [issue ''too_many_items'' fld (''must have at most '' @ nat_str MAX_ARRAY_ITEMS @ '' items'')]
            else []) @ rest))
      | VDict d \<Rightarrow> bindR (validate_members d fld depth) (\<lambda>rest.
          Inr ((if length d > MAX_OBJECT_KEYS
            then [issue ''too_many_keys'' fld (''must have at most '' @ nat_str MAX_OBJECT_KEYS @ '' keys'')]
            else []) @ rest))
      | _ \<Rightarrow> bindR (is_event_number v) (\<lambda>ok. Inr (if ok then []
          else [issue ''invalid_type'' fld ''must be a JSON string, number, boolean, null, array, or object''])))"
| "validate_items [] fld i depth = Inr []"
| "validate_items (x # xs) fld i depth =
     bindR (validate_properties x (fld @ ''['' @ nat_str i @ '']'') (Suc depth)) (\<lambda>here.
     bindR (validate_items xs fld (Suc i) depth) (\<lambda>rest. Inr (here @ rest)))"
| "validate_members [] fld depth = Inr []"
| "validate_members ((key, x) # d) fld depth =
     (let child = (if fld \<noteq> [] then fld @ ''.'' @ key else key) in
      bindR (validate_properties x child (Suc depth)) (\<lambda>here.
      bindR (validate_members d fld depth) (\<lambda>rest. Inr (key_issues key child @ here @ rest))))"

declare validate_properties.simps [simp del]

subsection \<open>Validating an event\<close>

definition present :: "pydict \<Rightarrow> string \<Rightarrow> (pyval \<Rightarrow> event_issue list res) \<Rightarrow> event_issue list res" where
  "present d k check = (case map_of d k of None \<Rightarrow> Inr [] | Some v \<Rightarrow> check v)"

text \<open>\<open>k in raw and raw.get(k) is not None\<close>.\<close>

definition present_value :: "pydict \<Rightarrow> string \<Rightarrow> (pyval \<Rightarrow> event_issue list res) \<Rightarrow> event_issue list res" where
  "present_value d k check = (case map_of d k of None \<Rightarrow> Inr [] | Some VNone \<Rightarrow> Inr [] | Some v \<Rightarrow> check v)"

definition unknown_issue :: "pydict \<Rightarrow> string list \<Rightarrow> string \<Rightarrow> event_issue list" where
  "unknown_issue d known fld = (let u = unknown_keys d known in
     if u \<noteq> [] then [issue ''unknown_field'' fld (''contains unknown field(s): '' @ join_with '', '' u)] else [])"

definition required_issues :: "pydict \<Rightarrow> string list \<Rightarrow> string \<Rightarrow> event_issue list" where
  "required_issues d required path =
     map (\<lambda>k. issue ''required'' (path @ k) ''is required'') (filter (\<lambda>k. map_of d k = None) required)"

text \<open>\<open>value not in {...}\<close> gives an issue.\<close>

definition member_issue :: "pyval \<Rightarrow> string list \<Rightarrow> event_issue \<Rightarrow> event_issue list res" where
  "member_issue v xs i = bindR (in_text_set v xs) (\<lambda>ok. Inr (if ok then [] else [i]))"

definition one_of :: "string list \<Rightarrow> string" where
  "one_of xs = ''must be one of: '' @ join_with '', '' (sort xs)"

text \<open>
  \<open>json.dumps\<close> of the contract lets the special floats through, so its text differs from the canonical
  JSON of the control plane in their spelling.
\<close>

definition json_float :: "py_runtime \<Rightarrow> py_float \<Rightarrow> string" where
  "json_float rt f = (case f of Fin _ \<Rightarrow> float_repr rt f | PInf \<Rightarrow> ''Infinity'' | NInf \<Rightarrow> ''-Infinity''
     | NaN \<Rightarrow> ''NaN'')"

definition event_json :: "py_runtime \<Rightarrow> pyval \<Rightarrow> string" where
  "event_json rt v = json_dumps (rt\<lparr>float_repr := json_float rt\<rparr>) v"

definition size_issues :: "py_runtime \<Rightarrow> pydict \<Rightarrow> nat \<Rightarrow> event_issue list" where
  "size_issues rt d max_bytes = (if utf8_length (event_json rt (VDict d)) > max_bytes
     then [issue ''too_large'' ''$'' (''event must be at most '' @ nat_str max_bytes @ '' bytes'')] else [])"

definition schema_issues :: "pydict \<Rightarrow> event_issue list res" where
  "schema_issues d = present d ''schema_version'' (\<lambda>v. Inr (if v \<noteq> VStr CONTRACT_SCHEMA_VERSION
     then [issue ''unsupported_schema'' ''schema_version'' (''must be '' @ repr_str CONTRACT_SCHEMA_VERSION)] else []))"

definition timestamp_issue :: "string \<Rightarrow> event_issue" where
  "timestamp_issue fld = issue ''invalid_timestamp'' fld ''must be an RFC 3339 UTC timestamp ending in Z''"

definition timestamp_issues :: "datetime \<Rightarrow> nat option \<Rightarrow> pyval \<Rightarrow> event_issue list" where
  "timestamp_issues now max_skew v = (case parse_timestamp v of
     None \<Rightarrow> [timestamp_issue ''timestamp'']
   | Some parsed \<Rightarrow> (case max_skew of
       None \<Rightarrow> []
     | Some s \<Rightarrow> if \<bar>total_micros now - total_micros parsed\<bar> > int s * 1000000
         then [issue ''timestamp_skew'' ''timestamp''
           (''is outside the allowed '' @ nat_str s @ ''-second clock-skew window'')]
         else []))"

definition source_issues :: "pyval \<Rightarrow> event_issue list res" where
  "source_issues v = (case v of
     VDict s \<Rightarrow> catR [
       Inr (unknown_issue s SOURCE_FIELDS ''source''),
       Inr (required_issues s [''platform'', ''sdk_name'', ''sdk_version''] ''source.''),
       member_issue (get_or s ''platform'' VNone) PLATFORMS
         (issue ''invalid_platform'' ''source.platform'' (one_of PLATFORMS)),
       Inr (check_string (get_or s ''sdk_name'' VNone) ''source.sdk_name'' 64 (Some sdk_name_shape) False True),
       Inr (check_string (get_or s ''sdk_version'' VNone) ''source.sdk_version'' 32 (Some sdk_version_shape) False True),
       present s ''app_version'' (\<lambda>a. Inr (check_string a ''source.app_version'' 64 (Some app_version_shape) False True))]
   | _ \<Rightarrow> Inr [issue ''invalid_type'' ''source'' ''must be an object''])"

definition subject_issues :: "pyval \<Rightarrow> event_issue list res" where
  "subject_issues v = (case v of
     VDict s \<Rightarrow> catR [
       Inr (unknown_issue s SUBJECT_FIELDS ''subject''),
       Inr (required_issues s [''id'', ''type''] ''subject.''),
       Inr (check_string (get_or s ''id'' VNone) ''subject.id'' MAX_SUBJECT_LENGTH (Some safe_id_shape) True True),
       member_issue (get_or s ''type'' VNone) [''user'', ''anonymous'']
         (issue ''invalid_subject_type'' ''subject.type'' (''must be '' @ repr_str ''user'' @ '' or '' @ repr_str ''anonymous''))]
   | _ \<Rightarrow> Inr [issue ''invalid_type'' ''subject'' ''must be an object''])"

definition purpose_issues :: "string \<times> pyval \<Rightarrow> event_issue list" where
  "purpose_issues p = (let fld = ''consent.purposes.'' @ fst p in
     (if \<not> event_purpose_shape (fst p) then [issue ''invalid_purpose'' fld ''purpose must match ^[a-z][a-z0-9_-]{0,63}$''] else [])
     @ (case snd p of VBool _ \<Rightarrow> [] | _ \<Rightarrow> [issue ''invalid_consent'' fld ''must be true or false'']))"

definition purposes_issues :: "pyval \<Rightarrow> event_issue list" where
  "purposes_issues v = (case v of
     VDict (p # ps) \<Rightarrow>
       (if length (p # ps) > MAX_CONSENT_PURPOSES
        then [issue ''too_many_purposes'' ''consent.purposes'' (''must have at most '' @ nat_str MAX_CONSENT_PURPOSES @ '' purposes'')]
        else []) @ concat (map purpose_issues (p # ps))
   | _ \<Rightarrow> [issue ''invalid_consent'' ''consent.purposes'' ''must be a non-empty object mapping purposes to booleans''])"

definition consent_issues :: "pyval \<Rightarrow> event_issue list res" where
  "consent_issues v = (case v of
     VDict c \<Rightarrow> catR [
       Inr (unknown_issue c CONSENT_FIELDS ''consent''),
       Inr (required_issues c [''purposes'', ''source'', ''provenance''] ''consent.''),
       Inr (purposes_issues (get_or c ''purposes'' VNone)),
       member_issue (get_or c ''source'' VNone) CONSENT_SOURCES
         (issue ''invalid_consent_source'' ''consent.source'' (one_of CONSENT_SOURCES)),
       member_issue (get_or c ''provenance'' VNone) CONSENT_PROVENANCE
         (issue ''invalid_consent_provenance'' ''consent.provenance'' (one_of CONSENT_PROVENANCE)),
       Inr (let updated_at = get_or c ''updated_at'' VNone in
         if updated_at \<noteq> VNone \<and> parse_timestamp updated_at = None then [timestamp_issue ''consent.updated_at''] else [])]
   | _ \<Rightarrow> Inr [issue ''invalid_type'' ''consent'' ''must be an object''])"

definition correlation_issues :: "pyval \<Rightarrow> event_issue list res" where
  "correlation_issues v = (case v of
     VDict c \<Rightarrow> catR (Inr (unknown_issue c CORRELATION_FIELDS ''correlation'')
       # map (\<lambda>k. present c k (\<lambda>x. Inr (check_string x (''correlation.'' @ k) MAX_CORRELATION_LENGTH None True True)))
           [''correlation_id'', ''session_id''])
   | _ \<Rightarrow> Inr [issue ''invalid_type'' ''correlation'' ''must be an object''])"

text \<open>At the top level a key of the wrong shape ends the check of its property.\<close>

definition property_issues :: "string \<times> pyval \<Rightarrow> event_issue list res" where
  "property_issues p = (let child = ''properties.'' @ fst p in
     if \<not> property_key_shape (fst p) then Inr (key_issues (fst p) child)
     else bindR (validate_properties (snd p) child 0) (\<lambda>rest. Inr (key_issues (fst p) child @ rest)))"

definition properties_issues :: "pyval \<Rightarrow> event_issue list res" where
  "properties_issues v = (case v of
     VDict d \<Rightarrow> catR (Inr (if length d > MAX_PROPERTIES
         then [issue ''too_many_properties'' ''properties'' (''must have at most '' @ nat_str MAX_PROPERTIES @ '' keys'')] else [])
       # map property_issues d)
   | _ \<Rightarrow> Inr [issue ''invalid_type'' ''properties'' ''must be an object''])"

definition validate_event ::
    "py_runtime \<Rightarrow> datetime \<Rightarrow> nat option \<Rightarrow> nat \<Rightarrow> pyval \<Rightarrow> event_issue list res" where
  "validate_event rt now max_skew max_bytes raw = (case raw of
     VDict d \<Rightarrow> catR [
       Inr (size_issues rt d max_bytes),
       Inr (unknown_issue d TOP_LEVEL_FIELDS ''$''),
       Inr (required_issues d REQUIRED_FIELDS []),
       schema_issues d,
       present d ''event_id'' (\<lambda>v. Inr (check_string v ''event_id'' 36 (Some event_id_shape) False True)),
       present d ''event_name'' (\<lambda>v. Inr (check_string v ''event_name'' MAX_EVENT_NAME_LENGTH (Some event_name_shape) False True)),
       present d ''timestamp'' (\<lambda>v. Inr (timestamp_issues now max_skew v)),
       present d ''source'' source_issues,
       present d ''container_id'' (\<lambda>v. Inr (check_string v ''container_id'' 128 (Some event_container_shape) False True)),
       present_value d ''config_version''
         (\<lambda>v. Inr (check_string v ''config_version'' 128 (Some config_version_shape) False True)),
       present_value d ''subject'' subject_issues,
       present_value d ''consent'' consent_issues,
       present_value d ''correlation'' correlation_issues,
       present d ''properties'' properties_issues]
   | _ \<Rightarrow> Inr [issue ''invalid_type'' ''$'' ''event must be a JSON object''])"

subsection \<open>Normalising an event\<close>

text \<open>
  \<open>EventValidationError\<close> carries its issues, so a rejected event is \<open>Inr (Inl issues)\<close> and an accepted one
  \<open>Inr (Inr event)\<close>; \<open>Inl\<close> is any other exception.
\<close>

definition pick :: "pydict \<Rightarrow> string list \<Rightarrow> pydict" where
  "pick d ks = concat (map (\<lambda>k. case map_of d k of None \<Rightarrow> [] | Some v \<Rightarrow> [(k, v)]) ks)"

definition normal_timestamp :: "pyval \<Rightarrow> pyval res" where
  "normal_timestamp v = (case parse_timestamp v of
     None \<Rightarrow> Inl (AttributeError ''NoneType object has no attribute astimezone'')
   | Some t \<Rightarrow> Inr (VStr (format_timestamp t)))"

definition sub_dict :: "pyval \<Rightarrow> pydict res" where
  "sub_dict v = (case v of VDict d \<Rightarrow> Inr d | _ \<Rightarrow> Inl (TypeError ''not a mapping''))"

definition normal_subject :: "pyval \<Rightarrow> pyval res" where
  "normal_subject v = bindR (sub_dict v) (\<lambda>s.
     bindR (dict_item s ''id'') (\<lambda>i. bindR (dict_item s ''type'') (\<lambda>t.
     Inr (VDict [(''id'', i), (''type'', t)]))))"

definition normal_purposes :: "pyval \<Rightarrow> pyval res" where
  "normal_purposes v = bindR (sub_dict v) (\<lambda>ps.
     Inr (VDict (map (\<lambda>p. (fst p, VBool (truthy (snd p)))) (sort_key fst ps))))"

definition normal_consent :: "pyval \<Rightarrow> pyval res" where
  "normal_consent v = bindR (sub_dict v) (\<lambda>c.
     bindR (bindR (dict_item c ''purposes'') normal_purposes) (\<lambda>purposes.
     bindR (dict_item c ''source'') (\<lambda>source.
     bindR (dict_item c ''provenance'') (\<lambda>provenance.
     let fixed = [(''purposes'', purposes), (''source'', source), (''provenance'', provenance)];
         updated_at = get_or c ''updated_at'' VNone
     in if updated_at = VNone then Inr (VDict fixed)
        else bindR (normal_timestamp updated_at) (\<lambda>t. Inr (VDict (fixed @ [(''updated_at'', t)])))))))"

definition optional_entry :: "pydict \<Rightarrow> string \<Rightarrow> (pyval \<Rightarrow> pyval res) \<Rightarrow> pydict res" where
  "optional_entry d k f = (case map_of d k of
     None \<Rightarrow> Inr [] | Some VNone \<Rightarrow> Inr [] | Some v \<Rightarrow> bindR (f v) (\<lambda>x. Inr [(k, x)]))"

definition normal_event :: "pydict \<Rightarrow> pydict res" where
  "normal_event d =
     bindR (dict_item d ''event_id'') (\<lambda>event_id.
     bindR (dict_item d ''event_name'') (\<lambda>event_name.
     bindR (bindR (dict_item d ''timestamp'') normal_timestamp) (\<lambda>timestamp.
     bindR (bindR (dict_item d ''source'') sub_dict) (\<lambda>source.
     bindR (dict_item d ''container_id'') (\<lambda>container_id.
     bindR (optional_entry d ''subject'' normal_subject) (\<lambda>subject.
     bindR (optional_entry d ''consent'' normal_consent) (\<lambda>consent.
     bindR (optional_entry d ''correlation'' (\<lambda>v. bindR (sub_dict v) (\<lambda>c. Inr (VDict (pick c CORRELATION_FIELDS)))))
       (\<lambda>correlation.
     bindR (bindR (dict_item d ''properties'') sub_dict) (\<lambda>properties.
     Inr ([(''schema_version'', VStr CONTRACT_SCHEMA_VERSION), (''event_id'', event_id), (''event_name'', event_name),
         (''timestamp'', timestamp), (''source'', VDict (pick source SOURCE_FIELDS)), (''container_id'', container_id)]
       @ pick d [''config_version''] @ subject @ consent @ correlation @ [(''properties'', VDict properties)]))))))))))"

type_synonym event_result = "event_issue list + pydict"

definition parse_event :: "py_runtime \<Rightarrow> datetime \<Rightarrow> nat option \<Rightarrow> nat \<Rightarrow> pyval \<Rightarrow> event_result res" where
  "parse_event rt now max_skew max_bytes raw =
     bindR (validate_event rt now max_skew max_bytes raw) (\<lambda>issues.
     if issues \<noteq> [] then Inr (Inl issues)
     else bindR (sub_dict raw) (\<lambda>d. bindR (normal_event d) (\<lambda>n. Inr (Inr n))))"

subsection \<open>Batches\<close>

text \<open>The loop of \<open>validate_batch\<close>: what it accepts, and the index and issues of what it rejects.\<close>

fun batch_loop ::
    "(pyval \<Rightarrow> event_result res) \<Rightarrow> nat \<Rightarrow> pyval list \<Rightarrow> (pydict list \<times> (nat \<times> event_issue list) list) res" where
  "batch_loop parse i [] = Inr ([], [])"
| "batch_loop parse i (e # es) =
     bindR (parse e) (\<lambda>r. bindR (batch_loop parse (Suc i) es) (\<lambda>(accepted, rejected).
     Inr (case r of Inr n \<Rightarrow> (n # accepted, rejected) | Inl issues \<Rightarrow> (accepted, (i, issues) # rejected))))"

definition validate_batch ::
    "py_runtime \<Rightarrow> datetime \<Rightarrow> nat option \<Rightarrow> nat \<Rightarrow> nat \<Rightarrow> pyval
     \<Rightarrow> (event_issue list + pydict list \<times> (nat \<times> event_issue list) list) res" where
  "validate_batch rt now max_skew max_bytes max_events raw = (case raw of
     VDict d \<Rightarrow>
       if unknown_keys d [''schema_version'', ''events''] \<noteq> []
       then Inr (Inl (unknown_issue d [''schema_version'', ''events''] ''$''))
       else if get_or d ''schema_version'' VNone \<noteq> VStr CONTRACT_SCHEMA_VERSION
       then Inr (Inl [issue ''unsupported_schema'' ''schema_version'' (''must be '' @ repr_str CONTRACT_SCHEMA_VERSION)])
       else (case get_or d ''events'' VNone of
           VList (e # es) \<Rightarrow>
             if length (e # es) > max_events
             then Inr (Inl [issue ''too_many_events'' ''events'' (''must have at most '' @ nat_str max_events @ '' events'')])
             else bindR (batch_loop (parse_event rt now max_skew max_bytes) 0 (e # es)) (\<lambda>r. Inr (Inr r))
         | _ \<Rightarrow> Inr (Inl [issue ''invalid_batch'' ''events'' ''must be a non-empty array'']))
   | _ \<Rightarrow> Inr (Inl [issue ''invalid_type'' ''$'' ''batch must be a JSON object'']))"

definition batch_document :: "pydict list \<Rightarrow> pyval" where
  "batch_document events = VDict [(''schema_version'', VStr CONTRACT_SCHEMA_VERSION), (''events'', VList (map VDict events))]"

text \<open>\<open>event_age_seconds\<close>, in microseconds.\<close>

definition event_age_micros :: "datetime \<Rightarrow> pydict \<Rightarrow> int" where
  "event_age_micros now event = (case parse_timestamp (get_or event ''timestamp'' VNone) of
     None \<Rightarrow> 0 | Some parsed \<Rightarrow> \<bar>total_micros now - total_micros parsed\<bar>)"

end
