(* ===== verification/Shield.thy ===== *)
theory Shield
  imports Event_Contract Secrets
begin

section \<open>The client of the PyTagShield data plane (ingest/pytagshield.py)\<close>

text \<open>
  The mapping of a normal event to PyTagShield's ingest shape, the request, and the reading of the answer.
  The network is an argument: what the server answers to a request, what the resolver
  says of a host name, and what \<^verbatim>\<open>urllib.parse\<close> and \<^verbatim>\<open>ipaddress\<close> make of a text.
\<close>

subsection \<open>Results\<close>

definition MAX_RESPONSE_BYTES :: nat where "MAX_RESPONSE_BYTES = 65536"

record forward_result =
  fr_forwarded :: bool
  fr_http_status :: "int option"
  fr_status :: string
  fr_event_id :: "string option"
  fr_destinations :: "string list"
  fr_enqueued :: "string list"
  fr_skipped :: "pydict list"
  fr_rejected :: "pydict list"
  fr_matched_routes :: "string list"
  fr_consent :: "(string, bool) dict"
  fr_consent_source :: "string option"
  fr_transient :: bool
  fr_error :: "string option"

text \<open>A result with the defaults of the class.\<close>

definition plain_result :: "bool \<Rightarrow> int option \<Rightarrow> string \<Rightarrow> bool \<Rightarrow> string option \<Rightarrow> forward_result" where
  "plain_result forwarded http_status st transient err = \<lparr>fr_forwarded = forwarded, fr_http_status = http_status,
     fr_status = st, fr_event_id = None, fr_destinations = [], fr_enqueued = [], fr_skipped = [], fr_rejected = [],
     fr_matched_routes = [], fr_consent = [], fr_consent_source = None, fr_transient = transient, fr_error = err\<rparr>"

definition text_or_none :: "string option \<Rightarrow> pyval" where
  "text_or_none x = (case x of None \<Rightarrow> VNone | Some s \<Rightarrow> VStr s)"

definition text_list :: "string list \<Rightarrow> pyval" where
  "text_list xs = VList (map VStr xs)"

definition forward_result_to_dict :: "forward_result \<Rightarrow> pyval" where
  "forward_result_to_dict r = VDict [
     (''forwarded'', VBool (fr_forwarded r)),
     (''http_status'', case fr_http_status r of None \<Rightarrow> VNone | Some n \<Rightarrow> VInt n),
     (''status'', VStr (fr_status r)),
     (''event_id'', text_or_none (fr_event_id r)),
     (''destinations'', text_list (fr_destinations r)),
     (''enqueued'', text_list (fr_enqueued r)),
     (''skipped'', VList (map VDict (fr_skipped r))),
     (''rejected'', VList (map VDict (fr_rejected r))),
     (''matched_routes'', text_list (fr_matched_routes r)),
     (''consent'', VDict (map (\<lambda>(k, b). (k, VBool b)) (fr_consent r))),
     (''consent_source'', text_or_none (fr_consent_source r)),
     (''transient'', VBool (fr_transient r)),
     (''error'', text_or_none (fr_error r))]"

subsection \<open>The address of the server\<close>

text \<open>What \<^verbatim>\<open>ipaddress\<close> says of an address, and the parts of a URL; reading a bad port raises.\<close>

record ip_flags =
  ip_private :: bool
  ip_loopback :: bool
  ip_link_local :: bool
  ip_multicast :: bool
  ip_reserved :: bool
  ip_unspecified :: bool

record url_parts =
  up_scheme :: string
  up_username :: "string option"
  up_password :: "string option"
  up_hostname :: "string option"
  up_port :: "int option res"

text \<open>The network as the client sees it.\<close>

record net =
  net_split :: "string \<Rightarrow> url_parts res"
  net_address :: "string \<Rightarrow> ip_flags option"
  net_resolve :: "string \<Rightarrow> int \<Rightarrow> string + string list"

definition is_public_address :: "net \<Rightarrow> string \<Rightarrow> bool" where
  "is_public_address n v = (case net_address n v of
     None \<Rightarrow> False
   | Some a \<Rightarrow> \<not> (ip_private a \<or> ip_loopback a \<or> ip_link_local a \<or> ip_multicast a \<or> ip_reserved a \<or> ip_unspecified a))"

definition given :: "string option \<Rightarrow> bool" where
  "given x \<longleftrightarrow> x \<noteq> None \<and> x \<noteq> Some []"

definition rstrip_slashes :: "string \<Rightarrow> string" where
  "rstrip_slashes s = rev (dropWhile (\<lambda>c. c = CHR ''/'') (rev s))"

definition check_addresses :: "net \<Rightarrow> url_parts \<Rightarrow> unit res" where
  "check_addresses n parsed = bindR (up_port parsed) (\<lambda>port.
     case net_resolve n (case up_hostname parsed of None \<Rightarrow> [] | Some h \<Rightarrow> h) (case port of None \<Rightarrow> 443 | Some p \<Rightarrow> if p = 0 then 443 else p) of
       Inl err \<Rightarrow> Inl (ValidationError (''PyTagShield hostname cannot be resolved: '' @ err))
     | Inr addresses \<Rightarrow>
         if addresses = [] \<or> \<not> list_all (is_public_address n) addresses
         then Inl (ValidationError (''PyTagShield URL resolves to a private, loopback, or reserved address; ''
           @ ''set allow_private_networks for an intentional self-hosted deployment''))
         else Inr ())"

definition validate_pytagshield_url :: "net \<Rightarrow> string \<Rightarrow> bool \<Rightarrow> string res" where
  "validate_pytagshield_url n v allow_private_networks = bindR (net_split n v) (\<lambda>parsed.
     if up_scheme parsed \<notin> {''https'', ''http''}
     then Inl (ValidationError ''PyTagShield URL must use https (or http for a loopback test)'')
     else if given (up_username parsed) \<or> given (up_password parsed)
     then Inl (ValidationError ''PyTagShield URL must not contain credentials'')
     else if \<not> given (up_hostname parsed)
     then Inl (ValidationError ''PyTagShield URL must include a hostname'')
     else if up_scheme parsed = ''http'' \<and> \<not> allow_private_networks
     then Inl (ValidationError ''PyTagShield URL must use HTTPS unless allow_private_networks is explicitly enabled'')
     else bindR (if \<not> allow_private_networks then check_addresses n parsed else Inr ()) (\<lambda>_.
       Inr (rstrip_slashes v)))"

record shield_client =
  sc_base_url :: string
  sc_timeout_seconds :: rat
  sc_token :: "string option"
  sc_endpoint :: string

text \<open>\<open>PyTagShieldClient\<close>: \<open>resolve\<close> is \<open>resolve_secret_ref\<close> on a parsed reference.\<close>

definition client_create :: "net \<Rightarrow> (secret_ref \<Rightarrow> string res) \<Rightarrow> string \<Rightarrow> string option \<Rightarrow> rat \<Rightarrow> bool \<Rightarrow> shield_client res" where
  "client_create n resolve base_url token_ref timeout_seconds allow_private_networks =
     bindR (validate_pytagshield_url n base_url allow_private_networks) (\<lambda>base.
     bindR (if given token_ref
       then bindR (parse_secret_ref (VStr (the token_ref))) (\<lambda>ref. bindR (resolve ref) (\<lambda>s. Inr (Some s))) else Inr None) (\<lambda>token.
     Inr \<lparr>sc_base_url = base, sc_timeout_seconds = max (1/2) (min timeout_seconds 30), sc_token = token,
       sc_endpoint = base @ ''/api/v1/event''\<rparr>))"

subsection \<open>The event PyTagShield takes\<close>

definition py_text :: "py_runtime \<Rightarrow> pyval \<Rightarrow> string" where
  "py_text rt v = (case v of VStr s \<Rightarrow> s | _ \<Rightarrow> py_repr rt v)"

definition replace_Z :: "string \<Rightarrow> string" where
  "replace_Z s = concat (map (\<lambda>c. if c = CHR ''Z'' then ''+00:00'' else [c]) s)"

text \<open>
  \<open>epoch_millis\<close> is what the standard library makes of an ISO timestamp: the moment in Unix seconds as a float, times 1000,
  truncated.  The properties of a normal event are a mapping; for other true values \<open>dict\<close> is taken to
  raise.
\<close>

definition distinct_id :: "py_runtime \<Rightarrow> pydict \<Rightarrow> pyval" where
  "distinct_id rt event =
     (let anonymous = (let i = get_or event ''event_id'' VNone in
            VStr (''anon:'' @ py_text rt (if truthy i then i else VStr ''unknown''))) in
      case get_or event ''subject'' VNone of
        VDict s \<Rightarrow> (case get_or s ''id'' VNone of VStr i \<Rightarrow> VStr i | _ \<Rightarrow> anonymous)
      | _ \<Rightarrow> anonymous)"

definition shield_consent :: "pydict \<Rightarrow> pydict" where
  "shield_consent event = (case get_or event ''consent'' VNone of
     VDict c \<Rightarrow> (case get_or c ''purposes'' VNone of
         VDict ps \<Rightarrow> [(''consent'', VDict (map (\<lambda>(k, v). (k, VBool (truthy v))) ps))]
       | _ \<Rightarrow> [])
   | _ \<Rightarrow> [])"

definition to_pytagshield_event :: "py_runtime \<Rightarrow> (string \<Rightarrow> int res) \<Rightarrow> pydict \<Rightarrow> pydict res" where
  "to_pytagshield_event rt epoch_millis event =
     bindR (epoch_millis (replace_Z (py_text rt (get_or event ''timestamp'' VNone)))) (\<lambda>millis.
     bindR (dict_item event ''event_name'') (\<lambda>name.
     bindR (let p = get_or event ''properties'' VNone in if truthy p then sub_dict p else Inr []) (\<lambda>properties.
     Inr ([(''event'', name), (''distinct_id'', distinct_id rt event), (''timestamp'', VInt millis),
       (''properties'', VDict properties)] @ shield_consent event))))"

subsection \<open>Requests and answers\<close>

record http_request =
  rq_url :: string
  rq_body :: pydict
  rq_headers :: "(string, string) dict"

text \<open>
  What comes back: a success with its body, an error status (a redirect is one), or the class name of a
  \<open>URLError\<close>, \<open>TimeoutError\<close> or \<open>OSError\<close>.  Other exceptions of the network stack pass through.
\<close>

datatype network_answer =
    Answer int string
  | HttpError int
  | NetworkError string

text \<open>The list of a key of the answer, as far as its items have the expected type.\<close>

definition items_of :: "pydict \<Rightarrow> string \<Rightarrow> pyval list res" where
  "items_of document k = py_iter (get_or document k (VList []))"

definition texts_of :: "pydict \<Rightarrow> string \<Rightarrow> string list res" where
  "texts_of document k = bindR (items_of document k) (\<lambda>xs.
     Inr (List.map_filter (\<lambda>x. case x of VStr s \<Rightarrow> Some s | _ \<Rightarrow> None) xs))"

definition mappings_of :: "pydict \<Rightarrow> string \<Rightarrow> pydict list res" where
  "mappings_of document k = bindR (items_of document k) (\<lambda>xs.
     Inr (List.map_filter (\<lambda>x. case x of VDict d \<Rightarrow> Some d | _ \<Rightarrow> None) xs))"

definition text_of :: "pydict \<Rightarrow> string \<Rightarrow> string option" where
  "text_of document k = (case get_or document k VNone of VStr s \<Rightarrow> Some s | _ \<Rightarrow> None)"

definition answer_consent :: "pydict \<Rightarrow> (string, bool) dict" where
  "answer_consent document = (case get_or document ''consent'' VNone of
     VDict c \<Rightarrow> List.map_filter (\<lambda>(k, v). case v of VBool b \<Rightarrow> Some (k, b) | _ \<Rightarrow> None) c
   | _ \<Rightarrow> [])"

definition refused :: "int \<Rightarrow> string \<Rightarrow> forward_result" where
  "refused http_status m = plain_result False (Some http_status) ''rejected'' False (Some m)"

definition INGEST_STATUSES :: "string list" where
  "INGEST_STATUSES = [''accepted'', ''partially_accepted'', ''backpressure'', ''rejected'']"

definition read_answer_document :: "int \<Rightarrow> pydict \<Rightarrow> forward_result res" where
  "read_answer_document http_status document = (let st = get_or document ''status'' VNone in
     bindR (in_text_set st INGEST_STATUSES) (\<lambda>known.
     if \<not> known then Inr (refused http_status ''PyTagShield returned an unexpected ingest status'')
     else
       bindR (texts_of document ''destinations'') (\<lambda>destinations.
       bindR (texts_of document ''enqueued'') (\<lambda>enqueued.
       bindR (mappings_of document ''skipped'') (\<lambda>skipped.
       bindR (mappings_of document ''rejected'') (\<lambda>rejected.
       bindR (texts_of document ''matched_routes'') (\<lambda>matched_routes.
       Inr \<lparr>fr_forwarded = st \<in> {VStr ''accepted'', VStr ''partially_accepted''}, fr_http_status = Some http_status,
         fr_status = (case st of VStr s \<Rightarrow> s | _ \<Rightarrow> []), fr_event_id = text_of document ''event_id'',
         fr_destinations = destinations, fr_enqueued = enqueued, fr_skipped = skipped, fr_rejected = rejected,
         fr_matched_routes = matched_routes, fr_consent = answer_consent document,
         fr_consent_source = text_of document ''consent_source'', fr_transient = (st = VStr ''backpressure''),
         fr_error = None\<rparr>)))))))"

text \<open>\<open>_parse\<close>: \<open>decode\<close> turns the bytes of the body into text, if they are UTF-8.\<close>

definition parse_answer :: "py_runtime \<Rightarrow> (string \<Rightarrow> string option) \<Rightarrow> int \<Rightarrow> string \<Rightarrow> forward_result res" where
  "parse_answer rt decode http_status raw =
     (if raw = [] then Inr (refused http_status ''PyTagShield returned an empty response'')
      else case decode raw of
        None \<Rightarrow> Inr (refused http_status ''PyTagShield returned non-JSON output'')
      | Some s \<Rightarrow> (case json_loads rt s of
          Inl _ \<Rightarrow> Inr (refused http_status ''PyTagShield returned non-JSON output'')
        | Inr (VDict document) \<Rightarrow> read_answer_document http_status document
        | Inr _ \<Rightarrow> Inr (refused http_status ''PyTagShield returned a non-object response'')))"

definition header_if_text :: "pydict \<Rightarrow> string \<Rightarrow> string \<Rightarrow> (string, string) dict" where
  "header_if_text d k header = (case get_or d k VNone of VStr s \<Rightarrow> [(header, s)] | _ \<Rightarrow> [])"

definition request_headers :: "py_runtime \<Rightarrow> string option \<Rightarrow> pydict \<Rightarrow> (string, string) dict" where
  "request_headers rt token event =
     [(''Content-Type'', ''application/json''), (''Accept'', ''application/json''),
      (''User-Agent'', ''pytagmanager-ingest/0.1''),
      (''x-pytagmanager-event-id'', py_text rt (get_or event ''event_id'' (VStr []))),
      (''x-pytagmanager-event-schema'', py_text rt (get_or event ''schema_version'' (VStr [])))]
     @ (if given token then [(''Authorization'', ''Bearer '' @ the token)] else [])
     @ (case get_or event ''correlation'' VNone of
          VDict c \<Rightarrow> header_if_text c ''correlation_id'' ''x-correlation-id'' @ header_if_text c ''session_id'' ''x-session-id''
        | _ \<Rightarrow> [])"

definition transient_code :: "int \<Rightarrow> bool" where
  "transient_code c \<longleftrightarrow> c = 408 \<or> c = 425 \<or> c = 429 \<or> c \<ge> 500"

definition read_answer :: "py_runtime \<Rightarrow> (string \<Rightarrow> string option) \<Rightarrow> network_answer \<Rightarrow> forward_result res" where
  "read_answer rt decode answer = (case answer of
     Answer http_status body \<Rightarrow>
       (let raw = take (MAX_RESPONSE_BYTES + 1) body in
        if length raw > MAX_RESPONSE_BYTES
        then Inr (refused http_status ''PyTagShield response exceeded the size limit'')
        else parse_answer rt decode http_status raw)
   | HttpError c \<Rightarrow> Inr (plain_result False (Some c)
       (if transient_code c then ''transient_error'' else ''rejected'') (transient_code c)
       (Some (''PyTagShield HTTP '' @ int_str c)))
   | NetworkError class_name \<Rightarrow> Inr (plain_result False None ''transient_error'' True
       (Some (''PyTagShield request failed: '' @ class_name))))"

definition client_forward ::
    "py_runtime \<Rightarrow> (string \<Rightarrow> int res) \<Rightarrow> (string \<Rightarrow> string option) \<Rightarrow> (http_request \<Rightarrow> network_answer res)
     \<Rightarrow> shield_client \<Rightarrow> pydict \<Rightarrow> forward_result res" where
  "client_forward rt epoch_millis decode send client event =
     bindR (to_pytagshield_event rt epoch_millis event) (\<lambda>payload.
     bindR (send \<lparr>rq_url = sc_endpoint client, rq_body = payload,
       rq_headers = request_headers rt (sc_token client) event\<rparr>) (read_answer rt decode))"

subsection \<open>What the results mean\<close>

lemma in_text_set_True: "in_text_set v xs = Inr True \<longleftrightarrow> (\<exists>s. v = VStr s \<and> s \<in> set xs)"
  by (cases v) (auto simp: in_text_set_def)

lemma get_or_VStr: "get_or d k VNone = VStr s \<longleftrightarrow> map_of d k = Some (VStr s)"
  by (auto simp: get_or_def split: option.split)

lemma read_answer_document_known:
  assumes "read_answer_document c document = Inr r"
  shows "(\<exists>m. r = refused c m) \<or> (\<exists>st. map_of document ''status'' = Some (VStr st) \<and> fr_status r = st
    \<and> fr_forwarded r = (st = ''accepted'' \<or> st = ''partially_accepted'') \<and> fr_transient r = (st = ''backpressure''))"
proof -
  from assms obtain known where k: "in_text_set (get_or document ''status'' VNone) INGEST_STATUSES = Inr known"
    by (auto simp: read_answer_document_def Let_def bindR_Inr_iff)
  show ?thesis
  proof (cases known)
    case False
    with assms k show ?thesis by (auto simp: read_answer_document_def Let_def)
  next
    case True
    with k obtain st where st: "get_or document ''status'' VNone = VStr st" by (auto simp: in_text_set_True)
    with assms k True have "fr_status r = st \<and> fr_forwarded r = (st = ''accepted'' \<or> st = ''partially_accepted'')
        \<and> fr_transient r = (st = ''backpressure'')"
      by (auto simp: read_answer_document_def Let_def bindR_Inr_iff)
    with st show ?thesis by (simp add: get_or_VStr)
  qed
qed

lemma parse_answer_cases:
  assumes "parse_answer rt decode c raw = Inr r"
  shows "(\<exists>m. r = refused c m) \<or> (\<exists>s document. decode raw = Some s \<and> json_loads rt s = Inr (VDict document)
    \<and> read_answer_document c document = Inr r)"
  using assms by (auto simp: parse_answer_def split: if_splits option.splits sum.splits pyval.splits)

text \<open>
  An accepted event whose answer has a null list: the client raises \<open>TypeError\<close> although PyTagShield has taken the event.
\<close>

lemma accepted_answer_can_raise:
  assumes "map_of document ''status'' = Some (VStr ''accepted'')" and "map_of document ''destinations'' = Some VNone"
  shows "\<exists>m. read_answer_document c document = Inl (TypeError m)"
  using assms by (auto simp: read_answer_document_def in_text_set_def INGEST_STATUSES_def get_or_def texts_of_def items_of_def)

lemma check_addresses_Inr:
  assumes "check_addresses n parsed = Inr ()"
  shows "\<exists>port addresses. net_resolve n (case up_hostname parsed of None \<Rightarrow> [] | Some h \<Rightarrow> h) port = Inr addresses
    \<and> addresses \<noteq> [] \<and> (\<forall>a \<in> set addresses. is_public_address n a)"
proof -
  from assms obtain port where "up_port parsed = Inr port" by (auto simp: check_addresses_def bindR_Inr_iff)
  with assms show ?thesis
    by (auto simp: check_addresses_def list_all_iff split: sum.splits if_splits)
qed

subsection \<open>Properties\<close>

text \<open>
  C27: what a forwarding result promises.  A result never says both that the event was forwarded and that it may be
  retried.  It says forwarded only after a success answer of bounded size that is a JSON object with
  status accepted or partially accepted; and it says retry exactly on back pressure, on the status codes 408,
  425, 429 and from 500 on, and on network errors.
\<close>
theorem forwarding_result_sound:
  assumes "read_answer rt decode answer = Inr r"
  shows "\<not> (fr_forwarded r \<and> fr_transient r)
    \<and> (fr_forwarded r \<longrightarrow> (\<exists>c body s document st. answer = Answer c body \<and> length body \<le> MAX_RESPONSE_BYTES \<and> decode body = Some s
          \<and> json_loads rt s = Inr (VDict document) \<and> map_of document ''status'' = Some (VStr st)
          \<and> (st = ''accepted'' \<or> st = ''partially_accepted'')))
    \<and> (fr_transient r \<longleftrightarrow> (case answer of
          Answer c body \<Rightarrow> fr_status r = ''backpressure''
        | HttpError c \<Rightarrow> c = 408 \<or> c = 425 \<or> c = 429 \<or> c \<ge> 500
        | NetworkError _ \<Rightarrow> True))"
proof (cases answer)
  case (Answer c body)
  show ?thesis
  proof (cases "length body > MAX_RESPONSE_BYTES")
    case True
    with Answer assms show ?thesis by (auto simp: read_answer_def Let_def refused_def plain_result_def)
  next
    case False
    with Answer assms have p: "parse_answer rt decode c body = Inr r" by (simp add: read_answer_def Let_def)
    from parse_answer_cases [OF p] have "(\<exists>m. r = refused c m) \<or> (\<exists>s document st. decode body = Some s
        \<and> json_loads rt s = Inr (VDict document) \<and> map_of document ''status'' = Some (VStr st) \<and> fr_status r = st
        \<and> fr_forwarded r = (st = ''accepted'' \<or> st = ''partially_accepted'') \<and> fr_transient r = (st = ''backpressure''))"
      using read_answer_document_known by blast
    then show ?thesis
    proof
      assume "\<exists>m. r = refused c m"
      with Answer show ?thesis by (auto simp: refused_def plain_result_def)
    next
      assume "\<exists>s document st. decode body = Some s
        \<and> json_loads rt s = Inr (VDict document) \<and> map_of document ''status'' = Some (VStr st) \<and> fr_status r = st
        \<and> fr_forwarded r = (st = ''accepted'' \<or> st = ''partially_accepted'') \<and> fr_transient r = (st = ''backpressure'')"
      with Answer False show ?thesis by auto
    qed
  qed
qed (use assms in \<open>auto simp: read_answer_def plain_result_def transient_code_def\<close>)

definition sample_answer :: "py_runtime" where
  "sample_answer = witness_runtime\<lparr>json_loads := (\<lambda>s. Inr (VDict [(''status'', VStr s)]))\<rparr>"

theorem forwarding_result_sound_witness:
  "\<exists>r. read_answer sample_answer Some (Answer 202 ''accepted'') = Inr r \<and> fr_forwarded r \<and> \<not> fr_transient r"
proof -
  have "\<exists>r. read_answer sample_answer Some (Answer 202 ''accepted'') = Inr r \<and> fr_forwarded r"
    by (simp add: Let_def read_answer_def MAX_RESPONSE_BYTES_def parse_answer_def sample_answer_def read_answer_document_def in_text_set_def
        INGEST_STATUSES_def get_or_def texts_of_def mappings_of_def items_of_def)
  then obtain r where r: "read_answer sample_answer Some (Answer 202 ''accepted'') = Inr r" "fr_forwarded r" by blast
  with forwarding_result_sound [OF r(1)] show ?thesis by blast
qed

text \<open>
  Unless private networks are allowed, the client only takes an HTTPS URL with a host name and without
  credentials, and every address its host resolves to is public.
\<close>
theorem only_public_https_servers:
  assumes "validate_pytagshield_url n v False = Inr base"
  shows "\<exists>parsed host port addresses. net_split n v = Inr parsed \<and> up_scheme parsed = ''https''
    \<and> \<not> given (up_username parsed) \<and> \<not> given (up_password parsed) \<and> up_hostname parsed = Some host \<and> host \<noteq> []
    \<and> net_resolve n host port = Inr addresses \<and> addresses \<noteq> []
    \<and> (\<forall>a \<in> set addresses. \<exists>flags. net_address n a = Some flags \<and> \<not> ip_private flags \<and> \<not> ip_loopback flags
         \<and> \<not> ip_link_local flags)"
proof -
  from assms obtain parsed host where p: "net_split n v = Inr parsed" "up_scheme parsed = ''https''"
    "\<not> given (up_username parsed)" "\<not> given (up_password parsed)" "up_hostname parsed = Some host" "host \<noteq> []"
    "check_addresses n parsed = Inr ()"
    by (auto simp: validate_pytagshield_url_def bindR_Inr_iff given_def [of "up_hostname _"] split: if_splits)
  from check_addresses_Inr [OF p(7)] p show ?thesis by (auto simp: is_public_address_def split: option.splits) blast
qed

definition sample_net :: net where
  "sample_net = \<lparr>net_split = (\<lambda>v. Inr \<lparr>up_scheme = ''https'', up_username = None, up_password = None,
       up_hostname = Some ''shield.example'', up_port = Inr None\<rparr>),
     net_address = (\<lambda>a. if a = ''192.0.2.1'' then Some \<lparr>ip_private = False, ip_loopback = False, ip_link_local = False,
       ip_multicast = False, ip_reserved = False, ip_unspecified = False\<rparr> else None),
     net_resolve = (\<lambda>h p. Inr [''192.0.2.1''])\<rparr>"

theorem only_public_https_servers_witness:
  "validate_pytagshield_url sample_net ''https://shield.example/'' False = Inr ''https://shield.example''
   \<and> (\<exists>flags. net_address sample_net ''192.0.2.1'' = Some flags \<and> \<not> ip_private flags)"
proof -
  have v: "validate_pytagshield_url sample_net ''https://shield.example/'' False = Inr ''https://shield.example''"
    by (simp add: validate_pytagshield_url_def check_addresses_def sample_net_def given_def rstrip_slashes_def is_public_address_def)
  from only_public_https_servers [OF v] obtain host port addresses where
    "net_resolve sample_net host port = Inr addresses"
    "\<forall>a \<in> set addresses. \<exists>flags. net_address sample_net a = Some flags \<and> \<not> ip_private flags" by blast
  then have "\<exists>flags. net_address sample_net ''192.0.2.1'' = Some flags \<and> \<not> ip_private flags"
    by (simp add: sample_net_def)
  with v show ?thesis by blast
qed

end
