(* ===== verification/Rate_Limit.thy ===== *)
theory Rate_Limit
  imports Prelude
begin

section \<open>The token bucket of the collection service (ingest/service.py)\<close>

text \<open>
  \<open>TokenBucketLimiter\<close>: one bucket of tokens per client key, refilled at a steady rate up to a capacity.
  Times and tokens are exact rationals here where the code has floats.  Each call runs under the
  limiter's lock.
\<close>

subsection \<open>Operations\<close>

record limiter =
  lim_rate :: rat
  lim_capacity :: rat
  lim_buckets :: "(string, rat \<times> rat) dict"

definition limiter_create :: "int \<Rightarrow> int option \<Rightarrow> limiter" where
  "limiter_create per_minute capacity = \<lparr>lim_rate = of_int per_minute / 60,
     lim_capacity = of_int (case capacity of None \<Rightarrow> per_minute | Some c \<Rightarrow> if c = 0 then per_minute else c),
     lim_buckets = []\<rparr>"

definition bucket_of :: "limiter \<Rightarrow> string \<Rightarrow> rat \<Rightarrow> rat \<times> rat" where
  "bucket_of tb key now = (case map_of (lim_buckets tb) key of None \<Rightarrow> (lim_capacity tb, now) | Some b \<Rightarrow> b)"

text \<open>The tokens a key has at a moment.\<close>

definition refilled :: "limiter \<Rightarrow> string \<Rightarrow> rat \<Rightarrow> rat" where
  "refilled tb key now = (let (tokens, updated) = bucket_of tb key now in
     min (lim_capacity tb) (tokens + max 0 (now - updated) * lim_rate tb))"

definition MAX_BUCKETS :: nat where "MAX_BUCKETS = 10000"

definition allow_many :: "limiter \<Rightarrow> string \<Rightarrow> int \<Rightarrow> rat \<Rightarrow> bool \<times> limiter" where
  "allow_many tb key count now =
     (if count < 1 then (True, tb)
      else let tokens = refilled tb key now in
        if tokens < of_int count
        then (False, tb\<lparr>lim_buckets := dict_put (lim_buckets tb) key (tokens, now)\<rparr>)
        else
          let buckets = (if length (lim_buckets tb) > MAX_BUCKETS then [] else lim_buckets tb) in
          (True, tb\<lparr>lim_buckets := dict_put buckets key (tokens - of_int count, now)\<rparr>))"

definition allow :: "limiter \<Rightarrow> string \<Rightarrow> rat \<Rightarrow> bool \<times> limiter" where
  "allow tb key now = allow_many tb key 1 now"

subsection \<open>The invariant of the buckets\<close>

definition limiter_ok :: "limiter \<Rightarrow> rat \<Rightarrow> bool" where
  "limiter_ok tb now \<longleftrightarrow> 0 \<le> lim_rate tb \<and> 0 \<le> lim_capacity tb
     \<and> (\<forall>k tokens updated. map_of (lim_buckets tb) k = Some (tokens, updated) \<longrightarrow>
          0 \<le> tokens \<and> tokens \<le> lim_capacity tb \<and> updated \<le> now)"

lemma limiter_ok_later: "limiter_ok tb now \<Longrightarrow> now \<le> later \<Longrightarrow> limiter_ok tb later"
  unfolding limiter_ok_def by (meson order_trans)

lemma limiter_ok_create: "0 \<le> per_minute \<Longrightarrow> 0 \<le> c \<Longrightarrow> limiter_ok (limiter_create per_minute (Some c)) now"
  by (simp add: limiter_ok_def limiter_create_def)

lemma refilled_bounds:
  assumes "limiter_ok tb now"
  shows "0 \<le> refilled tb key now" and "refilled tb key now \<le> lim_capacity tb"
  using assms by (auto simp: refilled_def bucket_of_def limiter_ok_def split: option.splits prod.splits)

lemma refilled_later:
  assumes "limiter_ok tb now" and "now \<le> later"
  shows "refilled tb key later \<le> refilled tb key now + (later - now) * lim_rate tb"
proof (cases "map_of (lim_buckets tb) key")
  case None
  with assms show ?thesis by (simp add: refilled_def bucket_of_def limiter_ok_def)
next
  case (Some b)
  obtain tokens updated where b: "b = (tokens, updated)" by (cases b)
  with Some assms have u: "updated \<le> now" "0 \<le> lim_rate tb" by (auto simp: limiter_ok_def)
  define a b where "a = (now - updated) * lim_rate tb" and "b = (later - now) * lim_rate tb"
  have "(later - updated) * lim_rate tb = a + b" by (simp add: a_def b_def algebra_simps)
  then have "refilled tb key later = min (lim_capacity tb) (tokens + (a + b))"
    using Some \<open>_ = (tokens, updated)\<close> u assms(2) by (simp add: refilled_def bucket_of_def max_def)
  moreover have "refilled tb key now = min (lim_capacity tb) (tokens + a)"
    using Some \<open>_ = (tokens, updated)\<close> u by (simp add: refilled_def bucket_of_def max_def a_def)
  moreover have "0 \<le> b" using u assms(2) by (simp add: b_def)
  ultimately show ?thesis unfolding b_def [symmetric] by (simp add: min_def)
qed

lemma allow_many_params: "allow_many tb key count now = (ok, tb') \<Longrightarrow>
    lim_rate tb' = lim_rate tb \<and> lim_capacity tb' = lim_capacity tb"
  by (auto simp: allow_many_def Let_def split: if_splits)

lemma allow_many_ok:
  assumes "allow_many tb key count now = (ok, tb')" and "limiter_ok tb now"
  shows "limiter_ok tb' now"
  using assms refilled_bounds [OF assms(2), of key]
  by (auto simp: allow_many_def Let_def limiter_ok_def split: if_splits)

text \<open>What a call takes from the bucket of a key; other buckets are left alone unless the table is cleared.\<close>

lemma refilled_put:
  "refilled (tb\<lparr>lim_buckets := dict_put bs key (tokens, now)\<rparr>) k now =
     (if k = key then min (lim_capacity tb) tokens else refilled (tb\<lparr>lim_buckets := bs\<rparr>) k now)"
  by (simp add: refilled_def bucket_of_def split: option.split)

lemma refilled_after:
  assumes "allow_many tb key count now = (ok, tb')" and "limiter_ok tb now" and "length (lim_buckets tb) \<le> MAX_BUCKETS"
  shows "refilled tb' k now =
    refilled tb k now - (if ok \<and> k = key \<and> 1 \<le> count then of_int count else 0)"
proof -
  note b = refilled_bounds [OF assms(2), of key]
  show ?thesis
  proof (cases "count < 1")
    case True
    with assms(1) show ?thesis by (simp add: allow_many_def)
  next
    case False
    show ?thesis
    proof (cases "refilled tb key now < of_int count")
      case True
      with False assms(1) have "ok = False" "tb' = tb\<lparr>lim_buckets := dict_put (lim_buckets tb) key (refilled tb key now, now)\<rparr>"
        by (simp_all add: allow_many_def Let_def)
      then show ?thesis using b by (simp add: refilled_put)
    next
      case enough: False
      with False assms(1,3) have "ok = True"
        "tb' = tb\<lparr>lim_buckets := dict_put (lim_buckets tb) key (refilled tb key now - of_int count, now)\<rparr>"
        by (simp_all add: allow_many_def Let_def)
      then show ?thesis using b False by (simp add: refilled_put)
    qed
  qed
qed

subsection \<open>Runs\<close>

text \<open>Requests of many clients, each with its key, its charge and its time; the answers in order.\<close>

fun limiter_run :: "limiter \<Rightarrow> (string \<times> int \<times> rat) list \<Rightarrow> bool list \<times> limiter" where
  "limiter_run tb [] = ([], tb)"
| "limiter_run tb ((key, count, now) # rs) =
     (let (ok, tb') = allow_many tb key count now; (oks, tb'') = limiter_run tb' rs in (ok # oks, tb''))"

text \<open>The charges that were granted to a key.\<close>

definition granted :: "string \<Rightarrow> (string \<times> int \<times> rat) list \<Rightarrow> bool list \<Rightarrow> int" where
  "granted k rs oks = sum_list (map (\<lambda>((key, count, now), ok). if ok \<and> key = k \<and> 1 \<le> count then count else 0) (zip rs oks))"

fun times_from :: "rat \<Rightarrow> (string \<times> int \<times> rat) list \<Rightarrow> bool" where
  "times_from t [] = True"
| "times_from t ((key, count, now) # rs) = (t \<le> now \<and> times_from now rs)"

fun last_time :: "rat \<Rightarrow> (string \<times> int \<times> rat) list \<Rightarrow> rat" where
  "last_time t [] = t"
| "last_time t ((key, count, now) # rs) = last_time now rs"

text \<open>The table stays small enough not to be cleared.\<close>

fun never_cleared :: "limiter \<Rightarrow> (string \<times> int \<times> rat) list \<Rightarrow> bool" where
  "never_cleared tb [] = True"
| "never_cleared tb ((key, count, now) # rs) =
     (length (lim_buckets tb) \<le> MAX_BUCKETS \<and> never_cleared (snd (allow_many tb key count now)) rs)"

lemma granted_Cons: "granted k ((key, count, now) # rs) (ok # oks) =
    (if ok \<and> key = k \<and> 1 \<le> count then count else 0) + granted k rs oks"
  by (simp add: granted_def)

lemma last_time_later: "times_from t rs \<Longrightarrow> t \<le> last_time t rs"
  by (induction t rs rule: times_from.induct) auto

lemma limiter_run_bound:
  assumes "limiter_ok tb t" and "times_from t rs" and "never_cleared tb rs" and "limiter_run tb rs = (oks, tb')"
  shows "of_int (granted k rs oks) \<le> refilled tb k t + (last_time t rs - t) * lim_rate tb"
  using assms
proof (induction rs arbitrary: tb t oks tb')
  case Nil
  then show ?case using refilled_bounds(1) [of tb t k] by (simp add: granted_def)
next
  case (Cons r rs)
  obtain key count now where r: "r = (key, count, now)" by (cases r)
  obtain ok tb1 where a: "allow_many tb key count now = (ok, tb1)" by fastforce
  obtain oks1 tb2 where run: "limiter_run tb1 rs = (oks1, tb2)" by fastforce
  from Cons.prems(4) r a run have oks: "oks = ok # oks1" by simp
  from Cons.prems(2) r have now: "t \<le> now" "times_from now rs" by simp_all
  from limiter_ok_later [OF Cons.prems(1) now(1)] have lo: "limiter_ok tb now" .
  from Cons.prems(3) r a have small: "length (lim_buckets tb) \<le> MAX_BUCKETS" "never_cleared tb1 rs" by simp_all
  from Cons.IH [OF allow_many_ok [OF a lo] now(2) small(2) run]
  have ih: "of_int (granted k rs oks1) \<le> refilled tb1 k now + (last_time now rs - now) * lim_rate tb"
    using allow_many_params [OF a] by simp
  have "of_int (granted k (r # rs) oks) = (if ok \<and> k = key \<and> 1 \<le> count then of_int count else 0) + of_int (granted k rs oks1)"
    unfolding r oks granted_Cons by auto
  also have "\<dots> \<le> refilled tb k now + (last_time now rs - now) * lim_rate tb"
    using ih refilled_after [OF a lo small(1), of k] by (simp split: if_splits)
  also have "\<dots> \<le> refilled tb k t + (now - t) * lim_rate tb + (last_time now rs - now) * lim_rate tb"
    using refilled_later [OF Cons.prems(1) now(1), of k] by simp
  also have "\<dots> = refilled tb k t + (last_time t (r # rs) - t) * lim_rate tb"
    by (simp add: r algebra_simps)
  finally show ?case .
qed

text \<open>
  Two consequences of the code that the limit does not survive: an allowed call that finds more than 10000
  buckets empties every other one, which gives all clients their full capacity back; and refused
  calls add buckets without looking at their number.
\<close>

lemma clearing_restores_everyone:
  assumes "allow_many tb key count now = (True, tb')" and "1 \<le> count" and "length (lim_buckets tb) > MAX_BUCKETS"
    and "k \<noteq> key" and "0 \<le> lim_capacity tb"
  shows "refilled tb' k now = lim_capacity tb'"
  using assms by (auto simp: allow_many_def Let_def refilled_def bucket_of_def split: if_splits)

lemma refused_calls_add_buckets:
  assumes "allow_many tb key count now = (False, tb')" and "map_of (lim_buckets tb) key = None"
  shows "length (lim_buckets tb') = length (lim_buckets tb) + 1"
proof -
  have "length (dict_put d k v) = length d + 1" if "map_of d k = None" for d :: "(string, rat \<times> rat) dict" and k v
    using that by (induction d) (auto split: if_splits)
  with assms show ?thesis by (auto simp: allow_many_def Let_def split: if_splits)
qed

text \<open>A batch of more events than the capacity is refused at any time, however long the client waits.\<close>

lemma oversized_batch_refused:
  assumes "limiter_ok tb now" and "lim_capacity tb < of_int count"
  shows "fst (allow_many tb key count now) = False"
proof -
  have "1 \<le> count" using assms by (simp add: limiter_ok_def)
  with refilled_bounds(2) [OF assms(1), of key] assms(2) show ?thesis
    by (auto simp: allow_many_def Let_def)
qed

subsection \<open>Properties\<close>



end
