(* ===== verification/Dedupe.thy ===== *)
theory Dedupe
  imports Prelude
begin

section \<open>Idempotency stores (ingest/dedupe.py)\<close>

text \<open>
  Both implementations of the \<open>DedupeStore\<close> protocol: the in-process cache and the SQLite table, the
  latter as the rows of its table, each call one transaction.  A ledger, a map of what is done and a map
  of what is claimed, says what a store means at a moment; the locale \<open>dedupe_store\<close> states that the
  operations act on it as the protocol promises, and both stores are shown to provide that.  Times are exact
  rationals; the threads, the connections and the failures of SQLite itself are not modelled.
\<close>

subsection \<open>The in-process cache\<close>

record dedupe_cache =
  dc_ttl :: int
  dc_capacity :: int
  dc_completed :: "(string, rat) dict"
  dc_inflight :: "string set"

definition cache_create :: "int \<Rightarrow> int \<Rightarrow> dedupe_cache" where
  "cache_create ttl capacity = \<lparr>dc_ttl = ttl, dc_capacity = capacity, dc_completed = [], dc_inflight = {}\<rparr>"

definition cache_purge :: "rat \<Rightarrow> dedupe_cache \<Rightarrow> dedupe_cache" where
  "cache_purge now c = c\<lparr>dc_completed := filter (\<lambda>e. \<not> snd e \<le> now) (dc_completed c)\<rparr>"

definition cache_claim :: "rat \<Rightarrow> string \<Rightarrow> dedupe_cache \<Rightarrow> string \<times> dedupe_cache" where
  "cache_claim now i c = (let c = cache_purge now c in
     if map_of (dc_completed c) i \<noteq> None then (''completed'', c)
     else if i \<in> dc_inflight c then (''inflight'', c)
     else (''claimed'', c\<lparr>dc_inflight := insert i (dc_inflight c)\<rparr>))"

text \<open>\<open>min(d, key=d.get)\<close>: the first of the keys with the least value.\<close>

definition oldest :: "(string, rat) dict \<Rightarrow> string" where
  "oldest d = fst (hd (sort_key snd d))"

definition cache_complete :: "rat \<Rightarrow> string \<Rightarrow> dedupe_cache \<Rightarrow> dedupe_cache" where
  "cache_complete now i c =
     (let completed = dict_put (dc_completed c) i (now + of_int (dc_ttl c)) in
      c\<lparr>dc_inflight := dc_inflight c - {i},
        dc_completed := (if int (length completed) > dc_capacity c
          then filter (\<lambda>e. fst e \<noteq> oldest completed) completed else completed)\<rparr>)"

definition cache_release :: "string \<Rightarrow> dedupe_cache \<Rightarrow> dedupe_cache" where
  "cache_release i c = c\<lparr>dc_inflight := dc_inflight c - {i}\<rparr>"

subsection \<open>The SQLite table\<close>

text \<open>
  The rows of \<open>event_dedupe\<close> in the order of their row ids; \<open>event_id\<close> is the primary key.  An upsert of an existing
  row keeps its row id.
\<close>

record dedupe_row =
  dr_inflight :: bool
  dr_expires :: rat
  dr_updated :: rat

record dedupe_table =
  dt_ttl :: int
  dt_capacity :: int
  dt_claim_ttl :: int
  dt_rows :: "(string, dedupe_row) dict"

text \<open>
  The checks of the constructor; whether the path is a directory is asked of the file system.  The table is created only if
  the file has none, so it starts with the rows the file holds.
\<close>

definition table_create ::
    "string \<Rightarrow> bool \<Rightarrow> (string, dedupe_row) dict \<Rightarrow> int \<Rightarrow> int \<Rightarrow> int \<Rightarrow> dedupe_table res" where
  "table_create path is_directory rows ttl capacity claim_ttl =
     (if ttl < 1 then Inl (ValueError ''dedupe TTL must be positive'')
      else if capacity < 1 then Inl (ValueError ''dedupe capacity must be positive'')
      else if claim_ttl < 1 then Inl (ValueError ''dedupe claim TTL must be positive'')
      else if path = '':memory:'' then Inl (ValueError ''durable dedupe requires a file-backed SQLite path'')
      else if is_directory then Inl (ValueError ''dedupe database path must be a file, not a directory'')
      else Inr \<lparr>dt_ttl = ttl, dt_capacity = capacity, dt_claim_ttl = claim_ttl, dt_rows = rows\<rparr>)"

definition table_purge :: "rat \<Rightarrow> dedupe_table \<Rightarrow> dedupe_table" where
  "table_purge now t = t\<lparr>dt_rows := filter (\<lambda>r. \<not> dr_expires (snd r) \<le> now) (dt_rows t)\<rparr>"

definition table_claim :: "rat \<Rightarrow> string \<Rightarrow> dedupe_table \<Rightarrow> string \<times> dedupe_table" where
  "table_claim now i t = (let t = table_purge now t in
     case map_of (dt_rows t) i of
       Some r \<Rightarrow> (if \<not> dr_inflight r then ''completed'' else ''inflight'', t)
     | None \<Rightarrow> (''claimed'', t\<lparr>dt_rows := dict_put (dt_rows t) i
         \<lparr>dr_inflight = True, dr_expires = now + of_int (dt_claim_ttl t), dr_updated = now\<rparr>\<rparr>))"

text \<open>\<open>ORDER BY updated_at ASC LIMIT ?\<close> over the completed rows; equal times come in the order of the row ids.\<close>

definition completed_rows :: "(string, dedupe_row) dict \<Rightarrow> (string, dedupe_row) dict" where
  "completed_rows rows = filter (\<lambda>r. \<not> dr_inflight (snd r)) rows"

definition table_prune :: "dedupe_table \<Rightarrow> dedupe_table" where
  "table_prune t =
     (let count = int (length (completed_rows (dt_rows t))); excess = count - dt_capacity t in
      if excess \<le> 0 then t
      else let victims = map fst (take (nat excess) (sort_key (\<lambda>r. dr_updated (snd r)) (completed_rows (dt_rows t)))) in
        t\<lparr>dt_rows := filter (\<lambda>r. fst r \<notin> set victims) (dt_rows t)\<rparr>)"

definition table_complete :: "rat \<Rightarrow> string \<Rightarrow> dedupe_table \<Rightarrow> dedupe_table" where
  "table_complete now i t = (let t = table_purge now t in
     table_prune (t\<lparr>dt_rows := dict_put (dt_rows t) i
       \<lparr>dr_inflight = False, dr_expires = now + of_int (dt_ttl t), dr_updated = now\<rparr>\<rparr>))"

definition table_release :: "string \<Rightarrow> dedupe_table \<Rightarrow> dedupe_table" where
  "table_release i t = t\<lparr>dt_rows := filter (\<lambda>r. \<not> (fst r = i \<and> dr_inflight (snd r))) (dt_rows t)\<rparr>"

text \<open>\<open>count(state)\<close>: all rows, or those in a state.\<close>

definition table_count :: "string option \<Rightarrow> dedupe_table \<Rightarrow> nat" where
  "table_count state t = (case state of None \<Rightarrow> length (dt_rows t)
     | Some s \<Rightarrow> length (filter (\<lambda>r. (if dr_inflight (snd r) then ''inflight'' else ''completed'') = s) (dt_rows t)))"

subsection \<open>The store of a service\<close>

datatype idempotency_store = Memory dedupe_cache | Durable dedupe_table

fun store_backend :: "idempotency_store \<Rightarrow> string" where
  "store_backend (Memory _) = ''memory''"
| "store_backend (Durable _) = ''sqlite''"

fun store_claim :: "rat \<Rightarrow> string \<Rightarrow> idempotency_store \<Rightarrow> string \<times> idempotency_store" where
  "store_claim now i (Memory c) = (let (r, c') = cache_claim now i c in (r, Memory c'))"
| "store_claim now i (Durable t) = (let (r, t') = table_claim now i t in (r, Durable t'))"

fun store_complete :: "rat \<Rightarrow> string \<Rightarrow> idempotency_store \<Rightarrow> idempotency_store" where
  "store_complete now i (Memory c) = Memory (cache_complete now i c)"
| "store_complete now i (Durable t) = Durable (table_complete now i t)"

fun store_release :: "string \<Rightarrow> idempotency_store \<Rightarrow> idempotency_store" where
  "store_release i (Memory c) = Memory (cache_release i c)"
| "store_release i (Durable t) = Durable (table_release i t)"

subsection \<open>The ledger\<close>

text \<open>
  What is done, with the time it is remembered until, and what is claimed, with the time the claim lapses if
  it does.
\<close>

type_synonym ledger = "(string \<rightharpoonup> rat) \<times> (string \<rightharpoonup> rat option)"

definition ledger_at :: "rat \<Rightarrow> ledger \<Rightarrow> ledger" where
  "ledger_at now l =
     ((\<lambda>i. case fst l i of None \<Rightarrow> None | Some e \<Rightarrow> if e \<le> now then None else Some e),
      (\<lambda>i. case snd l i of Some (Some e) \<Rightarrow> if e \<le> now then None else Some (Some e) | x \<Rightarrow> x))"

definition ledger_claim :: "int option \<Rightarrow> rat \<Rightarrow> string \<Rightarrow> ledger \<Rightarrow> string \<times> ledger" where
  "ledger_claim lease now i l =
     (if fst l i \<noteq> None then (''completed'', l)
      else if snd l i \<noteq> None then (''inflight'', l)
      else (''claimed'', (fst l, (snd l)(i \<mapsto> map_option (\<lambda>n. now + of_int n) lease))))"

definition ledger_complete :: "int \<Rightarrow> rat \<Rightarrow> string \<Rightarrow> ledger \<Rightarrow> ledger" where
  "ledger_complete ttl now i l = ((fst l)(i \<mapsto> now + of_int ttl), (snd l)(i := None))"

definition ledger_release :: "string \<Rightarrow> ledger \<Rightarrow> ledger" where
  "ledger_release i l = (fst l, (snd l)(i := None))"

text \<open>There is room to remember \<open>i\<close> beside what is remembered.\<close>

definition ledger_fits :: "int \<Rightarrow> string \<Rightarrow> ledger \<Rightarrow> bool" where
  "ledger_fits cap i l \<longleftrightarrow> int (card (insert i (dom (fst l)))) \<le> cap"

datatype store_op = Claim string | Complete string | Release string

text \<open>Operations at their times, with the answers to the claims.\<close>

fun ledger_run :: "int \<Rightarrow> int option \<Rightarrow> ledger \<Rightarrow> (store_op \<times> rat) list \<Rightarrow> string list \<times> ledger" where
  "ledger_run ttl lease l [] = ([], l)"
| "ledger_run ttl lease l ((op, now) # ops) = (let l = ledger_at now l in case op of
     Claim i \<Rightarrow> (let (r, l') = ledger_claim lease now i l; (rs, l'') = ledger_run ttl lease l' ops in (r # rs, l''))
   | Complete i \<Rightarrow> ledger_run ttl lease (ledger_complete ttl now i l) ops
   | Release i \<Rightarrow> ledger_run ttl lease (ledger_release i l) ops)"

fun ledger_roomy :: "int \<Rightarrow> int \<Rightarrow> int option \<Rightarrow> ledger \<Rightarrow> (store_op \<times> rat) list \<Rightarrow> bool" where
  "ledger_roomy cap ttl lease l [] = True"
| "ledger_roomy cap ttl lease l ((op, now) # ops) = (let l = ledger_at now l in case op of
     Claim i \<Rightarrow> ledger_roomy cap ttl lease (snd (ledger_claim lease now i l)) ops
   | Complete i \<Rightarrow> ledger_fits cap i l \<and> ledger_roomy cap ttl lease (ledger_complete ttl now i l) ops
   | Release i \<Rightarrow> ledger_roomy cap ttl lease (ledger_release i l) ops)"

fun steps_from :: "rat \<Rightarrow> (store_op \<times> rat) list \<Rightarrow> bool" where
  "steps_from t [] = True"
| "steps_from t ((op, now) # ops) = (t \<le> now \<and> steps_from now ops)"

fun last_step :: "rat \<Rightarrow> (store_op \<times> rat) list \<Rightarrow> rat" where
  "last_step t [] = t"
| "last_step t ((op, now) # ops) = last_step now ops"

text \<open>The same on a store, given its operations.\<close>

fun ops_run :: "(rat \<Rightarrow> string \<Rightarrow> 's \<Rightarrow> string \<times> 's) \<Rightarrow> (rat \<Rightarrow> string \<Rightarrow> 's \<Rightarrow> 's) \<Rightarrow> (string \<Rightarrow> 's \<Rightarrow> 's) \<Rightarrow> 's
    \<Rightarrow> (store_op \<times> rat) list \<Rightarrow> string list \<times> 's" where
  "ops_run grant settle free s [] = ([], s)"
| "ops_run grant settle free s ((op, now) # ops) = (case op of
     Claim i \<Rightarrow> (let (r, s') = grant now i s; (rs, s'') = ops_run grant settle free s' ops in (r # rs, s''))
   | Complete i \<Rightarrow> ops_run grant settle free (settle now i s) ops
   | Release i \<Rightarrow> ops_run grant settle free (free i s) ops)"

lemma ledger_at_twice: "now \<le> t \<Longrightarrow> ledger_at t (ledger_at now l) = ledger_at t l"
  by (auto simp: ledger_at_def fun_eq_iff split: option.splits)

lemma ledger_at_Some:
  "fst (ledger_at now l) i = Some e \<longleftrightarrow> fst l i = Some e \<and> now < e"
  "snd (ledger_at now l) i = Some x \<longleftrightarrow> snd l i = Some x \<and> (\<forall>e. x = Some e \<longrightarrow> now < e)"
  by (auto simp: ledger_at_def split: option.splits)

lemma ledger_at_parts: "snd (ledger_at now (m, h)) = snd (ledger_at now (m', h))"
  by (simp add: ledger_at_def)

lemma ledger_at_finite: "finite (dom (fst l)) \<Longrightarrow> finite (dom (fst (ledger_at now l)))"
  by (rule finite_subset [of _ "dom (fst l)"]) (auto simp: ledger_at_Some)

subsection \<open>The protocol\<close>

locale dedupe_store =
  fixes claim :: "rat \<Rightarrow> string \<Rightarrow> 's \<Rightarrow> string \<times> 's" and complete :: "rat \<Rightarrow> string \<Rightarrow> 's \<Rightarrow> 's"
    and release :: "string \<Rightarrow> 's \<Rightarrow> 's" and ttl :: "'s \<Rightarrow> int" and cap :: "'s \<Rightarrow> int" and lease :: "'s \<Rightarrow> int option"
    and view :: "'s \<Rightarrow> rat \<Rightarrow> ledger" and ok :: "'s \<Rightarrow> bool"
  assumes view_later: "now \<le> t \<Longrightarrow> view s t = ledger_at t (view s now)"
    and view_finite: "finite (dom (fst (view s now)))"
    and claim_params: "claim now i s = (r, s') \<Longrightarrow> ttl s' = ttl s \<and> cap s' = cap s \<and> lease s' = lease s"
    and complete_params: "ttl (complete now i s) = ttl s \<and> cap (complete now i s) = cap s \<and> lease (complete now i s) = lease s"
    and release_params: "ttl (release i s) = ttl s \<and> cap (release i s) = cap s \<and> lease (release i s) = lease s"
    and claim_ok: "ok s \<Longrightarrow> claim now i s = (r, s') \<Longrightarrow> ok s'"
    and complete_ok: "ok s \<Longrightarrow> ok (complete now i s)"
    and release_ok: "ok s \<Longrightarrow> ok (release i s)"
    and claim_view: "ok s \<Longrightarrow> claim now i s = (r, s') \<Longrightarrow> (r, view s' now) = ledger_claim (lease s) now i (view s now)"
    and complete_view: "ok s \<Longrightarrow> ledger_fits (cap s) i (view s now) \<Longrightarrow>
      view (complete now i s) now = ledger_complete (ttl s) now i (view s now)"
    and complete_forgets: "ok s \<Longrightarrow> fst (view (complete now i s) now) \<subseteq>\<^sub>m fst (ledger_complete (ttl s) now i (view s now))
      \<and> snd (view (complete now i s) now) = snd (ledger_complete (ttl s) now i (view s now))"
    and complete_bounded: "ok s \<Longrightarrow> int (card (dom (fst (view (complete now i s) now)))) \<le> cap s"
    and release_view: "ok s \<Longrightarrow> view (release i s) now = ledger_release i (view s now)"
begin

text \<open>A store answers like the ledger as long as what it has to remember fits.\<close>

lemma run_as_ledger:
  assumes "ok s" and "steps_from t ops" and "ledger_roomy (cap s) (ttl s) (lease s) (view s t) ops"
    and "ops_run claim complete release s ops = (rs, s')"
  shows "ok s' \<and> ledger_run (ttl s) (lease s) (view s t) ops = (rs, view s' (last_step t ops))"
  using assms
proof (induction ops arbitrary: s t rs)
  case (Cons x ops)
  obtain op now where x: "x = (op, now)" by (cases x)
  with Cons.prems(2) have now: "t \<le> now" "steps_from now ops" by simp_all
  have at: "ledger_at now (view s t) = view s now" using view_later [OF now(1)] by simp
  show ?case
  proof (cases op)
    case (Claim i)
    obtain r s1 where c: "claim now i s = (r, s1)" by fastforce
    with Cons.prems(4) Claim x obtain rs1 where r: "ops_run claim complete release s1 ops = (rs1, s')" "rs = r # rs1"
      by (auto split: prod.splits)
    have v: "ledger_claim (lease s) now i (view s now) = (r, view s1 now)" using claim_view [OF Cons.prems(1) c] by simp
    with Cons.IH [OF claim_ok [OF Cons.prems(1) c] now(2) _ r(1)] Cons.prems(3) claim_params [OF c] Claim x at r(2)
    show ?thesis by (simp add: Let_def)
  next
    case (Complete i)
    with Cons.prems(3) x at have "ledger_fits (cap s) i (view s now)" by (simp add: Let_def)
    from complete_view [OF Cons.prems(1) this] Cons.IH [OF complete_ok [OF Cons.prems(1), of now i] now(2)]
      Cons.prems(3,4) complete_params [of now i s] Complete x at
    show ?thesis by (simp add: Let_def)
  next
    case (Release i)
    from release_view [OF Cons.prems(1), of i now] Cons.IH [OF release_ok [OF Cons.prems(1), of i] now(2)]
      Cons.prems(3,4) release_params [of i s] Release x at
    show ?thesis by (simp add: Let_def)
  qed
qed simp

lemma claimed_iff: "ok s \<Longrightarrow> claim now i s = (r, s') \<Longrightarrow>
    r = ''claimed'' \<longleftrightarrow> fst (view s now) i = None \<and> snd (view s now) i = None"
  using claim_view [of s now i r s'] by (auto simp: ledger_claim_def split: if_splits)

end

subsection \<open>The cache provides it\<close>

definition cache_ok :: "dedupe_cache \<Rightarrow> bool" where
  "cache_ok c \<longleftrightarrow> distinct (keys (dc_completed c)) \<and> int (length (dc_completed c)) \<le> dc_capacity c
     \<and> 1 \<le> dc_capacity c \<and> 1 \<le> dc_ttl c"

definition cache_view :: "dedupe_cache \<Rightarrow> rat \<Rightarrow> ledger" where
  "cache_view c now = ledger_at now (map_of (dc_completed c), \<lambda>i. if i \<in> dc_inflight c then Some None else None)"

lemma map_of_filter_value:
  "distinct (keys d) \<Longrightarrow> map_of (filter (\<lambda>e. P (snd e)) d) i = (case map_of d i of None \<Rightarrow> None | Some v \<Rightarrow> if P v then Some v else None)"
proof (induction d)
  case (Cons e d)
  then have "map_of d (fst e) = None" by (cases e) (simp add: map_of_eq_None_keys)
  with Cons show ?case by (cases e) (auto split: option.splits)
qed simp

lemma map_of_filter_key: "map_of (filter (\<lambda>e. P (fst e)) d) i = (if P i then map_of d i else None)"
  by (induction d) auto

lemma distinct_keys_filter: "distinct (keys d) \<Longrightarrow> distinct (keys (filter P d))"
  by (simp add: keys_def distinct_map_filter)

lemma length_filter_key:
  "distinct (keys d) \<Longrightarrow> k \<in> set (keys d) \<Longrightarrow> Suc (length (filter (\<lambda>e. fst e \<noteq> k) d)) = length d"
proof (induction d)
  case (Cons e d)
  have "filter (\<lambda>x. fst x \<noteq> k) d = d" if "k \<notin> set (keys d)"
    using that by (auto simp: keys_def filter_id_conv)
  with Cons show ?case by (cases e) auto
qed simp

lemma length_dict_put: "length (dict_put d k v) = (if k \<in> set (keys d) then length d else Suc (length d))"
  by (induction d) auto

lemma oldest_least:
  assumes "d \<noteq> []"
  shows "\<exists>v. (oldest d, v) \<in> set d \<and> (\<forall>e \<in> set d. v \<le> snd e)"
proof -
  obtain e es where s: "sort_key snd d = e # es" using assms by (metis neq_Nil_conv set_empty set_sort)
  then have "e \<in> set d" using set_sort [of snd d] by (metis list.set_intros(1))
  moreover have "snd e \<le> snd x" if "x \<in> set d" for x
  proof -
    have "sorted (map snd (e # es))" using sorted_sort_key [of snd d] s by simp
    moreover have "x \<in> set (e # es)" using that set_sort [of snd d] s by simp
    ultimately show ?thesis by auto
  qed
  ultimately show ?thesis using s by (intro exI [of _ "snd e"]) (simp add: oldest_def)
qed

lemma card_keys: "distinct (keys d) \<Longrightarrow> card (set (keys d)) = length d"
  using distinct_card [of "keys d"] by (simp add: keys_def)

definition cache_table :: "rat \<Rightarrow> string \<Rightarrow> dedupe_cache \<Rightarrow> (string, rat) dict" where
  "cache_table now i c = dict_put (dc_completed c) i (now + of_int (dc_ttl c))"

lemma cache_complete_table:
  "cache_complete now i c = c\<lparr>dc_inflight := dc_inflight c - {i},
     dc_completed := (if int (length (cache_table now i c)) > dc_capacity c
       then filter (\<lambda>e. fst e \<noteq> oldest (cache_table now i c)) (cache_table now i c) else cache_table now i c)\<rparr>"
  by (simp add: cache_complete_def cache_table_def Let_def)

lemma cache_table_view:
  assumes "cache_ok c"
  shows "ledger_at now (map_of (cache_table now i c), \<lambda>j. if j \<in> dc_inflight c - {i} then Some None else None)
    = ledger_complete (dc_ttl c) now i (cache_view c now)"
  using assms by (auto simp: cache_table_def cache_view_def ledger_complete_def ledger_at_def cache_ok_def fun_eq_iff)

lemma cache_table_distinct: "cache_ok c \<Longrightarrow> distinct (keys (cache_table now i c))"
  by (simp add: cache_ok_def cache_table_def distinct_keys_put)

lemma cache_table_length: "cache_ok c \<Longrightarrow> int (length (cache_table now i c)) \<le> dc_capacity c + 1"
  by (simp add: cache_ok_def cache_table_def length_dict_put)

lemma cache_table_nonempty: "cache_table now i c \<noteq> []"
  by (cases "dc_completed c") (auto simp: cache_table_def)

text \<open>When the table is full and yet there is room, the oldest entry has expired.\<close>

lemma oldest_expired:
  assumes ok: "cache_ok c" and full: "int (length (cache_table now i c)) > dc_capacity c"
    and fits: "ledger_fits (dc_capacity c) i (cache_view c now)"
  shows "\<exists>v. map_of (cache_table now i c) (oldest (cache_table now i c)) = Some v \<and> v \<le> now"
proof -
  let ?d = "cache_table now i c" and ?live = "insert i (dom (fst (cache_view c now)))"
  note dist = cache_table_distinct [OF ok, of now i]
  obtain v where v: "(oldest ?d, v) \<in> set ?d" "\<forall>e \<in> set ?d. v \<le> snd e"
    using oldest_least [OF cache_table_nonempty] by blast
  have "finite ?live" using ledger_at_finite [of "(map_of (dc_completed c), _)"] by (simp add: cache_view_def finite_dom_map_of)
  have "card ?live < card (set (keys ?d))"
    using fits full card_keys [OF dist] by (simp add: ledger_fits_def)
  then obtain k where k: "k \<in> set (keys ?d)" "k \<notin> ?live"
    by (metis \<open>finite ?live\<close> card_mono linorder_not_less subsetI)
  then obtain w where w: "(k, w) \<in> set ?d" by (force simp: keys_def)
  then have "map_of ?d k = Some w" using dist by (simp add: keys_def)
  with k(2) have "w \<le> now" by (auto simp: cache_table_def cache_view_def dom_def ledger_at_def split: if_splits)
  with v(2) w have "v \<le> now" by force
  moreover have "map_of ?d (oldest ?d) = Some v" using dist v(1) by (simp add: keys_def)
  ultimately show ?thesis by blast
qed

lemma cache_complete_view:
  assumes "cache_ok c" and "ledger_fits (dc_capacity c) i (cache_view c now)"
  shows "cache_view (cache_complete now i c) now = ledger_complete (dc_ttl c) now i (cache_view c now)"
proof (cases "int (length (cache_table now i c)) > dc_capacity c")
  case True
  from oldest_expired [OF assms(1) True assms(2)] obtain v where
    v: "map_of (cache_table now i c) (oldest (cache_table now i c)) = Some v" "v \<le> now" by blast
  have "fst (ledger_at now (map_of (filter (\<lambda>e. fst e \<noteq> oldest (cache_table now i c)) (cache_table now i c)), h)) =
      fst (ledger_at now (map_of (cache_table now i c), h))" for h
    using v by (auto simp: ledger_at_def map_of_filter_key [of "\<lambda>k. k \<noteq> oldest (cache_table now i c)"] fun_eq_iff)
  moreover have "snd (ledger_at now (m, h)) = snd (ledger_at now (m', h))" for m m' :: "string \<rightharpoonup> rat" and h
    by (simp add: ledger_at_def)
  ultimately show ?thesis
    using True unfolding cache_table_view [OF assms(1), symmetric]
    by (simp add: cache_view_def cache_complete_table prod_eq_iff)
next
  case False
  then show ?thesis unfolding cache_table_view [OF assms(1), symmetric]
    by (simp add: cache_view_def cache_complete_table)
qed

lemma cache_complete_length:
  assumes "cache_ok c"
  shows "int (length (dc_completed (cache_complete now i c))) \<le> dc_capacity c"
    and "distinct (keys (dc_completed (cache_complete now i c)))"
    and "map_of (dc_completed (cache_complete now i c)) \<subseteq>\<^sub>m map_of (cache_table now i c)"
proof -
  have "oldest (cache_table now i c) \<in> set (keys (cache_table now i c))"
    using oldest_least [OF cache_table_nonempty, of now i c] by (force simp: keys_def)
  from length_filter_key [OF cache_table_distinct [OF assms] this] cache_table_length [OF assms, of now i]
  show "int (length (dc_completed (cache_complete now i c))) \<le> dc_capacity c"
    by (auto simp: cache_complete_table)
  show "distinct (keys (dc_completed (cache_complete now i c)))"
    using cache_table_distinct [OF assms] by (simp add: cache_complete_table distinct_keys_filter)
  show "map_of (dc_completed (cache_complete now i c)) \<subseteq>\<^sub>m map_of (cache_table now i c)"
    by (auto simp: cache_complete_table map_le_def map_of_filter_key [of "\<lambda>k. k \<noteq> oldest (cache_table now i c)"] split: if_splits)
qed

lemma cache_claim_view:
  assumes "cache_ok c" and "cache_claim now i c = (r, c')"
  shows "(r, cache_view c' now) = ledger_claim None now i (cache_view c now)" and "cache_ok c'"
proof -
  have d: "distinct (keys (dc_completed c))" using assms(1) by (simp add: cache_ok_def)
  have v: "cache_view (cache_purge now c) now = cache_view c now"
    by (auto simp: cache_view_def cache_purge_def ledger_at_def fun_eq_iff map_of_filter_value [OF d, of "\<lambda>v. \<not> v \<le> now"]
        split: option.splits)
  have "int (length (filter (\<lambda>e. \<not> snd e \<le> now) (dc_completed c))) \<le> dc_capacity c"
    using assms(1) order_trans [OF of_nat_mono [OF length_filter_le [of "\<lambda>e. \<not> snd e \<le> now" "dc_completed c"]]]
    unfolding cache_ok_def by blast
  then show "cache_ok c'"
    using assms by (auto simp: cache_claim_def Let_def cache_purge_def cache_ok_def distinct_keys_filter split: if_splits)
  have "fst (cache_view c now) i = map_of (dc_completed (cache_purge now c)) i"
    by (auto simp: cache_view_def cache_purge_def ledger_at_def map_of_filter_value [OF d, of "\<lambda>v. \<not> v \<le> now"] split: option.splits)
  moreover have "snd (cache_view c now) i = (if i \<in> dc_inflight c then Some None else None)"
    by (simp add: cache_view_def ledger_at_def)
  moreover have "cache_view ((cache_purge now c)\<lparr>dc_inflight := insert i (dc_inflight c)\<rparr>) now
      = (fst (cache_view c now), (snd (cache_view c now))(i \<mapsto> None))"
    unfolding v [symmetric] by (auto simp: cache_view_def ledger_at_def fun_eq_iff cache_purge_def)
  ultimately show "(r, cache_view c' now) = ledger_claim None now i (cache_view c now)"
    using assms(2) v by (auto simp: cache_claim_def ledger_claim_def Let_def cache_purge_def split: if_splits)
qed

lemma map_le_Some: "m \<subseteq>\<^sub>m m' \<Longrightarrow> m i = Some x \<Longrightarrow> m' i = Some x"
  by (metis domI map_le_def)

lemma dom_mono_card: "m \<subseteq>\<^sub>m m' \<Longrightarrow> finite (dom m') \<Longrightarrow> card (dom m) \<le> card (dom m')"
  by (simp add: card_mono map_le_implies_dom_le)

lemma card_dom_le_length: "card (dom (map_of d)) \<le> length d"
  by (metis card_image_le card_length dom_map_of_conv_image_fst finite_set le_trans)

interpretation memory: dedupe_store cache_claim cache_complete cache_release dc_ttl dc_capacity "\<lambda>_. None" cache_view cache_ok
proof
  fix c :: dedupe_cache and now t :: rat and i r c'
  show "now \<le> t \<Longrightarrow> cache_view c t = ledger_at t (cache_view c now)"
    by (simp add: cache_view_def ledger_at_twice)
  show "finite (dom (fst (cache_view c now)))"
    by (simp add: cache_view_def ledger_at_finite finite_dom_map_of)
  show "cache_claim now i c = (r, c') \<Longrightarrow> dc_ttl c' = dc_ttl c \<and> dc_capacity c' = dc_capacity c \<and> None = None"
    by (auto simp: cache_claim_def cache_purge_def Let_def split: if_splits)
  show "dc_ttl (cache_complete now i c) = dc_ttl c \<and> dc_capacity (cache_complete now i c) = dc_capacity c \<and> None = None"
    by (simp add: cache_complete_def Let_def)
  show "dc_ttl (cache_release i c) = dc_ttl c \<and> dc_capacity (cache_release i c) = dc_capacity c \<and> None = None"
    by (simp add: cache_release_def)
  show "cache_ok (cache_release i c)" if "cache_ok c" using that by (simp add: cache_release_def cache_ok_def)
  show "cache_view (cache_release i c) now = ledger_release i (cache_view c now)"
    by (auto simp: cache_view_def cache_release_def ledger_release_def ledger_at_def fun_eq_iff)
  assume ok: "cache_ok c"
  show "cache_claim now i c = (r, c') \<Longrightarrow> cache_ok c'" using cache_claim_view [OF ok] by blast
  show "cache_claim now i c = (r, c') \<Longrightarrow> (r, cache_view c' now) = ledger_claim None now i (cache_view c now)"
    using cache_claim_view [OF ok] by blast
  show "ledger_fits (dc_capacity c) i (cache_view c now) \<Longrightarrow>
      cache_view (cache_complete now i c) now = ledger_complete (dc_ttl c) now i (cache_view c now)"
    by (rule cache_complete_view [OF ok])
  note len = cache_complete_length [OF ok, of now i]
  have params: "dc_ttl (cache_complete now i c) = dc_ttl c" "dc_capacity (cache_complete now i c) = dc_capacity c"
    by (simp_all add: cache_complete_def Let_def)
  with len ok show "cache_ok (cache_complete now i c)" by (simp add: cache_ok_def)
  have "fst (cache_view (cache_complete now i c) now) \<subseteq>\<^sub>m map_of (dc_completed (cache_complete now i c))"
    by (auto simp: cache_view_def map_le_def ledger_at_Some)
  from dom_mono_card [OF this] card_dom_le_length [of "dc_completed (cache_complete now i c)"] len(1)
  show "int (card (dom (fst (cache_view (cache_complete now i c) now)))) \<le> dc_capacity c"
    by (simp add: finite_dom_map_of)
  have "fst (ledger_at now (m, h)) \<subseteq>\<^sub>m fst (ledger_at now (m', h'))" if "m \<subseteq>\<^sub>m m'" for m m' :: "string \<rightharpoonup> rat" and h h'
    using that by (auto simp: map_le_def ledger_at_def dom_def split: option.splits if_splits)
  note mono = this
  have e: "ledger_complete (dc_ttl c) now i (cache_view c now)
      = ledger_at now (map_of (cache_table now i c), \<lambda>j. if j \<in> dc_inflight c - {i} then Some None else None)"
    by (rule cache_table_view [OF ok, symmetric])
  have v: "cache_view (cache_complete now i c) now = ledger_at now
      (map_of (dc_completed (cache_complete now i c)), \<lambda>j. if j \<in> dc_inflight c - {i} then Some None else None)"
    by (simp add: cache_view_def cache_complete_table)
  show "fst (cache_view (cache_complete now i c) now) \<subseteq>\<^sub>m fst (ledger_complete (dc_ttl c) now i (cache_view c now))
      \<and> snd (cache_view (cache_complete now i c) now) = snd (ledger_complete (dc_ttl c) now i (cache_view c now))"
    unfolding e v using mono [OF len(3)] by (blast intro: ledger_at_parts)
qed

subsection \<open>The table provides it\<close>

definition table_ok :: "dedupe_table \<Rightarrow> bool" where
  "table_ok t \<longleftrightarrow> distinct (keys (dt_rows t)) \<and> 1 \<le> dt_ttl t \<and> 1 \<le> dt_capacity t \<and> 1 \<le> dt_claim_ttl t"

definition rows_ledger :: "(string, dedupe_row) dict \<Rightarrow> ledger" where
  "rows_ledger rows =
     ((\<lambda>i. case map_of rows i of None \<Rightarrow> None | Some r \<Rightarrow> if dr_inflight r then None else Some (dr_expires r)),
      (\<lambda>i. case map_of rows i of None \<Rightarrow> None | Some r \<Rightarrow> if dr_inflight r then Some (Some (dr_expires r)) else None))"

definition table_view :: "dedupe_table \<Rightarrow> rat \<Rightarrow> ledger" where
  "table_view t now = ledger_at now (rows_ledger (dt_rows t))"

lemma table_view_put:
  "ledger_at now (rows_ledger (dict_put rows i r)) =
     (if dr_inflight r
      then ((fst (ledger_at now (rows_ledger rows)))(i := None),
        (snd (ledger_at now (rows_ledger rows)))(i := if dr_expires r \<le> now then None else Some (Some (dr_expires r))))
      else ((fst (ledger_at now (rows_ledger rows)))(i := if dr_expires r \<le> now then None else Some (dr_expires r)),
        (snd (ledger_at now (rows_ledger rows)))(i := None)))"
  by (auto simp: rows_ledger_def ledger_at_def fun_eq_iff)

lemma table_purge_view:
  assumes "table_ok t"
  shows "table_view (table_purge now t) now = table_view t now"
proof -
  have "distinct (keys (dt_rows t))" using assms by (simp add: table_ok_def)
  from map_of_filter_value [OF this, of "\<lambda>r. \<not> dr_expires r \<le> now"] show ?thesis
    by (auto simp: table_view_def rows_ledger_def ledger_at_def table_purge_def fun_eq_iff split: option.splits)
qed

lemma table_purge_ok: "table_ok t \<Longrightarrow> table_ok (table_purge now t)"
  by (simp add: table_ok_def table_purge_def distinct_keys_filter)

lemma table_purge_row:
  assumes "table_ok t"
  shows "map_of (dt_rows (table_purge now t)) i = Some r \<longleftrightarrow> map_of (dt_rows t) i = Some r \<and> now < dr_expires r"
proof -
  have "distinct (keys (dt_rows t))" using assms by (simp add: table_ok_def)
  from map_of_filter_value [OF this, of "\<lambda>r. \<not> dr_expires r \<le> now" i] show ?thesis
    by (auto simp: table_purge_def split: option.splits if_splits)
qed

lemma table_claim_view:
  assumes "table_ok t" and "table_claim now i t = (r, t')"
  shows "(r, table_view t' now) = ledger_claim (Some (dt_claim_ttl t)) now i (table_view t now)" and "table_ok t'"
proof -
  define p where "p = table_purge now t"
  have p: "table_ok p" "table_view p now = table_view t now" "dt_claim_ttl p = dt_claim_ttl t"
    using table_purge_ok table_purge_view assms(1) by (simp_all add: p_def table_purge_def)
  have c: "(case map_of (dt_rows p) i of
       Some r \<Rightarrow> (if \<not> dr_inflight r then ''completed'' else ''inflight'', p)
     | None \<Rightarrow> (''claimed'', p\<lparr>dt_rows := dict_put (dt_rows p) i
         \<lparr>dr_inflight = True, dr_expires = now + of_int (dt_claim_ttl p), dr_updated = now\<rparr>\<rparr>)) = (r, t')"
    using assms(2) unfolding table_claim_def p_def Let_def .
  then show "table_ok t'" using p(1) by (auto simp: table_ok_def distinct_keys_put split: option.splits)
  show "(r, table_view t' now) = ledger_claim (Some (dt_claim_ttl t)) now i (table_view t now)"
  proof (cases "map_of (dt_rows p) i")
    case None
    with c have r: "r = ''claimed''" "dt_rows t' = dict_put (dt_rows p) i
        \<lparr>dr_inflight = True, dr_expires = now + of_int (dt_claim_ttl p), dr_updated = now\<rparr>" by auto
    from None have "fst (table_view t now) i = None" "snd (table_view t now) i = None"
      unfolding p(2) [symmetric] by (simp_all add: table_view_def rows_ledger_def ledger_at_def)
    moreover have "table_view t' now = (fst (table_view t now), (snd (table_view t now))(i \<mapsto> Some (now + of_int (dt_claim_ttl t))))"
      using p(1) None unfolding p(2,3) [symmetric]
      by (auto simp: table_view_def r(2) table_view_put table_ok_def rows_ledger_def ledger_at_def fun_eq_iff)
    ultimately show ?thesis by (simp add: ledger_claim_def r(1))
  next
    case (Some row)
    then have live: "now < dr_expires row" using table_purge_row [OF assms(1)] by (simp add: p_def)
    from Some c have r: "r = (if \<not> dr_inflight row then ''completed'' else ''inflight'')" "t' = p" by auto
    from Some live have "fst (table_view t now) i = (if dr_inflight row then None else Some (dr_expires row))"
      "snd (table_view t now) i = (if dr_inflight row then Some (Some (dr_expires row)) else None)"
      unfolding p(2) [symmetric] by (simp_all add: table_view_def rows_ledger_def ledger_at_def)
    with r p(2) show ?thesis by (simp add: ledger_claim_def)
  qed
qed

lemma filter_victims:
  "distinct (keys s) \<Longrightarrow> filter (\<lambda>r. fst r \<notin> set (map fst (take n s))) s = drop n s"
proof (induction s arbitrary: n)
  case (Cons e s)
  show ?case
  proof (cases n)
    case (Suc m)
    have "fst r \<noteq> fst e" if "r \<in> set s" for r using Cons.prems that by (cases e) (auto simp: keys_def)
    then have "filter (\<lambda>r. fst r \<noteq> fst e \<and> fst r \<notin> fst ` set (take m s)) s = filter (\<lambda>r. fst r \<notin> fst ` set (take m s)) s"
      by (intro filter_cong) auto
    with Suc Cons show ?thesis by (cases e) simp
  qed simp
qed simp

lemma prune_counts:
  assumes "distinct (keys (dt_rows t))" and "1 \<le> dt_capacity t"
  shows "int (length (completed_rows (dt_rows (table_prune t)))) \<le> dt_capacity t"
    and "map_of (dt_rows (table_prune t)) i = Some r \<Longrightarrow> map_of (dt_rows t) i = Some r"
    and "map_of (dt_rows t) i = Some r \<Longrightarrow> dr_inflight r \<Longrightarrow> map_of (dt_rows (table_prune t)) i = Some r"
proof -
  let ?rows = "dt_rows t" and ?c = "completed_rows (dt_rows t)"
  define s where "s = sort_key (\<lambda>r. dr_updated (snd r)) ?c"
  define n where "n = nat (int (length ?c) - dt_capacity t)"
  define victims where "victims = set (map fst (take n s))"
  have prune: "dt_rows (table_prune t) = filter (\<lambda>r. fst r \<notin> victims) ?rows"
    by (auto simp: table_prune_def Let_def s_def n_def victims_def)
  have dist: "distinct (keys ?c)" using assms(1) by (simp add: completed_rows_def distinct_keys_filter)
  then have ds: "distinct (keys s)" by (simp add: s_def keys_def distinct_map)
  have "completed_rows (filter (\<lambda>r. fst r \<notin> victims) ?rows) = filter (\<lambda>r. fst r \<notin> victims) ?c"
    by (simp add: completed_rows_def conj_commute)
  moreover have "length (filter (\<lambda>r. fst r \<notin> victims) ?c) = length (filter (\<lambda>r. fst r \<notin> victims) s)"
    by (simp add: s_def filter_sort)
  moreover have "filter (\<lambda>r. fst r \<notin> victims) s = drop n s" unfolding victims_def by (rule filter_victims [OF ds])
  ultimately have "length (completed_rows (dt_rows (table_prune t))) = length ?c - n" by (simp add: prune s_def)
  then show "int (length (completed_rows (dt_rows (table_prune t)))) \<le> dt_capacity t"
    using assms(2) by (simp add: n_def)
  show "map_of (dt_rows (table_prune t)) i = Some r \<Longrightarrow> map_of ?rows i = Some r"
    by (simp add: prune map_of_filter_key [of "\<lambda>k. k \<notin> victims"] split: if_splits)
  assume m: "map_of ?rows i = Some r" "dr_inflight r"
  have "i \<notin> victims"
  proof
    assume "i \<in> victims"
    then obtain r' where "(i, r') \<in> set ?c" using set_take_subset [of n s] by (auto simp: victims_def s_def)
    then have "(i, r') \<in> set ?rows" "\<not> dr_inflight r'" by (auto simp: completed_rows_def)
    with m assms(1) show False by (simp add: keys_def)
  qed
  then show "map_of (dt_rows (table_prune t)) i = Some r"
    using m by (simp add: prune map_of_filter_key [of "\<lambda>k. k \<notin> victims"])
qed

text \<open>The table of a completion, before it is pruned.\<close>

definition table_upsert :: "rat \<Rightarrow> string \<Rightarrow> dedupe_table \<Rightarrow> dedupe_table" where
  "table_upsert now i t = (let t = table_purge now t in
     t\<lparr>dt_rows := dict_put (dt_rows t) i \<lparr>dr_inflight = False, dr_expires = now + of_int (dt_ttl t), dr_updated = now\<rparr>\<rparr>)"

lemma table_complete_upsert: "table_complete now i t = table_prune (table_upsert now i t)"
  by (simp add: table_complete_def table_upsert_def Let_def)

lemma table_upsert_facts:
  assumes "table_ok t"
  shows "table_ok (table_upsert now i t)" and "dt_capacity (table_upsert now i t) = dt_capacity t"
    and "table_view (table_upsert now i t) now = ledger_complete (dt_ttl t) now i (table_view t now)"
    and "map_of (dt_rows (table_upsert now i t)) j = Some r \<Longrightarrow> now < dr_expires r"
proof -
  have p: "table_ok (table_purge now t)" by (rule table_purge_ok [OF assms])
  then show "table_ok (table_upsert now i t)" by (simp add: table_upsert_def Let_def table_ok_def distinct_keys_put)
  show "dt_capacity (table_upsert now i t) = dt_capacity t" by (simp add: table_upsert_def table_purge_def Let_def)
  have "dt_ttl (table_purge now t) = dt_ttl t" by (simp add: table_purge_def)
  moreover have "0 < dt_ttl t" using assms by (simp add: table_ok_def)
  moreover have "table_view (table_upsert now i t) now = ledger_at now (rows_ledger (dict_put (dt_rows (table_purge now t)) i
      \<lparr>dr_inflight = False, dr_expires = now + of_int (dt_ttl (table_purge now t)), dr_updated = now\<rparr>))"
    by (simp add: table_view_def table_upsert_def Let_def)
  ultimately show "table_view (table_upsert now i t) now = ledger_complete (dt_ttl t) now i (table_view t now)"
    using table_purge_view [OF assms, of now] by (simp add: table_view_put ledger_complete_def table_view_def)
  show "map_of (dt_rows (table_upsert now i t)) j = Some r \<Longrightarrow> now < dr_expires r"
    using table_purge_row [OF assms] \<open>0 < dt_ttl t\<close> \<open>dt_ttl (table_purge now t) = dt_ttl t\<close>
    by (auto simp: table_upsert_def Let_def split: if_splits)
qed

text \<open>Where every row is live, the completed rows are what the ledger says is done.\<close>

lemma done_card:
  assumes "distinct (keys (dt_rows t))"
  shows "card (dom (fst (table_view t now))) \<le> length (completed_rows (dt_rows t))"
    and "(\<And>j r. map_of (dt_rows t) j = Some r \<Longrightarrow> now < dr_expires r)
      \<Longrightarrow> card (dom (fst (table_view t now))) = length (completed_rows (dt_rows t))"
proof -
  have m: "map_of (completed_rows (dt_rows t)) j = Some r \<longleftrightarrow> map_of (dt_rows t) j = Some r \<and> \<not> dr_inflight r" for j r
    using map_of_filter_value [OF assms, of "\<lambda>r. \<not> dr_inflight r"] by (auto simp: completed_rows_def split: option.splits if_splits)
  have c: "card (dom (map_of (completed_rows (dt_rows t)))) = length (completed_rows (dt_rows t))"
    using card_keys [OF distinct_keys_filter [OF assms], of "\<lambda>r. \<not> dr_inflight (snd r)"]
    by (simp add: completed_rows_def dom_map_of_conv_image_fst keys_def)
  have "dom (fst (table_view t now)) \<subseteq> dom (map_of (completed_rows (dt_rows t)))"
    by (auto simp: table_view_def ledger_at_Some rows_ledger_def m dom_def split: option.splits if_splits)
  with card_mono [OF finite_dom_map_of] c show "card (dom (fst (table_view t now))) \<le> length (completed_rows (dt_rows t))"
    by metis
  assume "\<And>j r. map_of (dt_rows t) j = Some r \<Longrightarrow> now < dr_expires r"
  then have "dom (fst (table_view t now)) = dom (map_of (completed_rows (dt_rows t)))"
    by (auto simp: table_view_def ledger_at_Some rows_ledger_def m dom_def split: option.splits if_splits)
  with c show "card (dom (fst (table_view t now))) = length (completed_rows (dt_rows t))" by simp
qed

lemma table_complete_view:
  assumes "table_ok t" and "ledger_fits (dt_capacity t) i (table_view t now)"
  shows "table_view (table_complete now i t) now = ledger_complete (dt_ttl t) now i (table_view t now)"
proof -
  note u = table_upsert_facts [OF assms(1), of now i]
  have "distinct (keys (dt_rows (table_upsert now i t)))" using u(1) by (simp add: table_ok_def)
  from done_card(2) [OF this u(4)]
  have "length (completed_rows (dt_rows (table_upsert now i t))) = card (dom (fst (table_view (table_upsert now i t) now)))" by simp
  also have "\<dots> = card (insert i (dom (fst (table_view t now))))" by (simp add: u(3) ledger_complete_def)
  finally have "table_prune (table_upsert now i t) = table_upsert now i t"
    using assms(2) u(2) by (simp add: table_prune_def ledger_fits_def)
  then show ?thesis by (simp add: table_complete_upsert u(3))
qed

lemma table_prune_params:
  "dt_ttl (table_prune t) = dt_ttl t \<and> dt_capacity (table_prune t) = dt_capacity t \<and> dt_claim_ttl (table_prune t) = dt_claim_ttl t"
  by (simp add: table_prune_def Let_def)

lemma table_prune_ok: "table_ok t \<Longrightarrow> table_ok (table_prune t)"
  by (simp add: table_ok_def table_prune_def Let_def distinct_keys_filter)

lemma prune_view:
  assumes "table_ok t"
  shows "fst (table_view (table_prune t) now) \<subseteq>\<^sub>m fst (table_view t now)" and "snd (table_view (table_prune t) now) = snd (table_view t now)"
proof -
  have ok: "distinct (keys (dt_rows t))" "1 \<le> dt_capacity t" using assms by (simp_all add: table_ok_def)
  note p = prune_counts(2,3) [OF ok]
  show "fst (table_view (table_prune t) now) \<subseteq>\<^sub>m fst (table_view t now)"
    by (auto simp: map_le_def table_view_def ledger_at_def rows_ledger_def dom_def dest!: p(1) split: option.splits if_splits)
  have "snd (table_view (table_prune t) now) j = snd (table_view t now) j" for j
    using p [of j]
    by (cases "map_of (dt_rows t) j"; cases "map_of (dt_rows (table_prune t)) j")
      (auto simp: table_view_def ledger_at_def rows_ledger_def)
  then show "snd (table_view (table_prune t) now) = snd (table_view t now)" by (rule ext)
qed

interpretation durable: dedupe_store table_claim table_complete table_release dt_ttl dt_capacity
    "\<lambda>t. Some (dt_claim_ttl t)" table_view table_ok
proof
  fix s :: dedupe_table and now t :: rat and i r s'
  show "now \<le> t \<Longrightarrow> table_view s t = ledger_at t (table_view s now)"
    by (simp add: table_view_def ledger_at_twice)
  have "finite (dom (fst (rows_ledger (dt_rows s))))"
    by (rule finite_subset [OF _ finite_dom_map_of [of "dt_rows s"]]) (auto simp: rows_ledger_def split: option.splits)
  then show "finite (dom (fst (table_view s now)))" by (simp add: table_view_def ledger_at_finite)
  show "table_claim now i s = (r, s') \<Longrightarrow>
      dt_ttl s' = dt_ttl s \<and> dt_capacity s' = dt_capacity s \<and> Some (dt_claim_ttl s') = Some (dt_claim_ttl s)"
    by (auto simp: table_claim_def table_purge_def Let_def split: option.splits)
  show "dt_ttl (table_complete now i s) = dt_ttl s \<and> dt_capacity (table_complete now i s) = dt_capacity s
      \<and> Some (dt_claim_ttl (table_complete now i s)) = Some (dt_claim_ttl s)"
    by (simp add: table_complete_def table_prune_params table_purge_def Let_def)
  show "dt_ttl (table_release i s) = dt_ttl s \<and> dt_capacity (table_release i s) = dt_capacity s
      \<and> Some (dt_claim_ttl (table_release i s)) = Some (dt_claim_ttl s)"
    by (simp add: table_release_def)
  assume ok: "table_ok s"
  then show "table_ok (table_release i s)" by (simp add: table_release_def table_ok_def distinct_keys_filter)
  show "table_claim now i s = (r, s') \<Longrightarrow> table_ok s'" using table_claim_view [OF ok] by blast
  show "table_claim now i s = (r, s') \<Longrightarrow> (r, table_view s' now) = ledger_claim (Some (dt_claim_ttl s)) now i (table_view s now)"
    using table_claim_view [OF ok] by blast
  show "ledger_fits (dt_capacity s) i (table_view s now) \<Longrightarrow>
      table_view (table_complete now i s) now = ledger_complete (dt_ttl s) now i (table_view s now)"
    by (rule table_complete_view [OF ok])
  note u = table_upsert_facts [OF ok, of now i]
  show "table_ok (table_complete now i s)" by (simp add: table_complete_upsert table_prune_ok u(1))
  show "fst (table_view (table_complete now i s) now) \<subseteq>\<^sub>m fst (ledger_complete (dt_ttl s) now i (table_view s now))
      \<and> snd (table_view (table_complete now i s) now) = snd (ledger_complete (dt_ttl s) now i (table_view s now))"
    using prune_view [OF u(1), of now] by (simp add: table_complete_upsert u(3))
  have "distinct (keys (dt_rows (table_upsert now i s)))" "1 \<le> dt_capacity (table_upsert now i s)"
    using u(1) by (simp_all add: table_ok_def)
  from prune_counts(1) [OF this] done_card(1) [of "table_complete now i s" now] table_prune_ok [OF u(1)] u(2)
  show "int (card (dom (fst (table_view (table_complete now i s) now)))) \<le> dt_capacity s"
    by (simp add: table_complete_upsert table_ok_def)
  have d: "distinct (keys (dt_rows s))" using ok by (simp add: table_ok_def)
  have "map_of (filter (\<lambda>e. \<not> (fst e = i \<and> dr_inflight (snd e))) d) j = (case map_of d j of None \<Rightarrow> None
      | Some r \<Rightarrow> if j = i \<and> dr_inflight r then None else Some r)" if "distinct (keys d)" for d j
    using that
  proof (induction d)
    case (Cons e d)
    then have "map_of d (fst e) = None" by (cases e) (simp add: map_of_eq_None_keys)
    with Cons show ?case by (cases e) (auto split: option.splits)
  qed simp
  from this [OF d] show "table_view (table_release i s) now = ledger_release i (table_view s now)"
    by (auto simp: table_view_def table_release_def rows_ledger_def ledger_at_def ledger_release_def fun_eq_iff split: option.splits)
qed

subsection \<open>The store of a service provides it\<close>

fun store_ttl :: "idempotency_store \<Rightarrow> int" where
  "store_ttl (Memory c) = dc_ttl c"
| "store_ttl (Durable t) = dt_ttl t"

fun store_capacity :: "idempotency_store \<Rightarrow> int" where
  "store_capacity (Memory c) = dc_capacity c"
| "store_capacity (Durable t) = dt_capacity t"

fun store_lease :: "idempotency_store \<Rightarrow> int option" where
  "store_lease (Memory _) = None"
| "store_lease (Durable t) = Some (dt_claim_ttl t)"

fun store_view :: "idempotency_store \<Rightarrow> rat \<Rightarrow> ledger" where
  "store_view (Memory c) now = cache_view c now"
| "store_view (Durable t) now = table_view t now"

fun store_ok :: "idempotency_store \<Rightarrow> bool" where
  "store_ok (Memory c) = cache_ok c"
| "store_ok (Durable t) = table_ok t"

interpretation store: dedupe_store store_claim store_complete store_release store_ttl store_capacity store_lease
    store_view store_ok
proof
  fix s s' :: idempotency_store and now t :: rat and i r
  show "now \<le> t \<Longrightarrow> store_view s t = ledger_at t (store_view s now)"
    by (cases s) (simp_all add: memory.view_later durable.view_later)
  show "finite (dom (fst (store_view s now)))"
    by (cases s) (simp_all add: memory.view_finite durable.view_finite)
  show "store_claim now i s = (r, s') \<Longrightarrow>
      store_ttl s' = store_ttl s \<and> store_capacity s' = store_capacity s \<and> store_lease s' = store_lease s"
    by (cases s) (auto dest: memory.claim_params durable.claim_params split: prod.splits)
  show "store_ttl (store_complete now i s) = store_ttl s \<and> store_capacity (store_complete now i s) = store_capacity s
      \<and> store_lease (store_complete now i s) = store_lease s"
    using memory.complete_params durable.complete_params by (cases s) auto
  show "store_ttl (store_release i s) = store_ttl s \<and> store_capacity (store_release i s) = store_capacity s
      \<and> store_lease (store_release i s) = store_lease s"
    using memory.release_params durable.release_params by (cases s) auto
  assume ok: "store_ok s"
  show "store_claim now i s = (r, s') \<Longrightarrow> store_ok s'"
    using ok by (cases s) (auto dest: memory.claim_ok durable.claim_ok split: prod.splits)
  show "store_ok (store_complete now i s)" "store_ok (store_release i s)"
    using ok by (cases s; simp add: memory.complete_ok durable.complete_ok memory.release_ok durable.release_ok)+
  show "store_claim now i s = (r, s') \<Longrightarrow> (r, store_view s' now) = ledger_claim (store_lease s) now i (store_view s now)"
    using ok by (cases s) (auto dest: memory.claim_view durable.claim_view split: prod.splits)
  show "ledger_fits (store_capacity s) i (store_view s now) \<Longrightarrow>
      store_view (store_complete now i s) now = ledger_complete (store_ttl s) now i (store_view s now)"
    using ok by (cases s) (simp_all add: memory.complete_view durable.complete_view)
  show "fst (store_view (store_complete now i s) now) \<subseteq>\<^sub>m fst (ledger_complete (store_ttl s) now i (store_view s now))
      \<and> snd (store_view (store_complete now i s) now) = snd (ledger_complete (store_ttl s) now i (store_view s now))"
    using ok by (cases s) (simp_all add: memory.complete_forgets durable.complete_forgets)
  show "int (card (dom (fst (store_view (store_complete now i s) now)))) \<le> store_capacity s"
    using ok by (cases s) (simp_all add: memory.complete_bounded durable.complete_bounded)
  show "store_view (store_release i s) now = ledger_release i (store_view s now)"
    using ok by (cases s) (simp_all add: memory.release_view durable.release_view)
qed

text \<open>A new store is empty, and one of a valid configuration is well formed.\<close>

lemma cache_create_ok: "1 \<le> ttl \<Longrightarrow> 1 \<le> capacity \<Longrightarrow> cache_ok (cache_create ttl capacity)"
  by (simp add: cache_ok_def cache_create_def)

lemma table_create_ok: "table_create path is_directory rows ttl capacity claim_ttl = Inr t \<Longrightarrow> distinct (keys rows) \<Longrightarrow> table_ok t"
  by (auto simp: table_create_def table_ok_def split: if_splits)

lemma new_store_empty:
  "store_view (Memory (cache_create ttl capacity)) now = (Map.empty, Map.empty)"
  "table_create path is_directory [] ttl capacity claim_ttl = Inr t \<Longrightarrow> store_view (Durable t) now = (Map.empty, Map.empty)"
  by (auto simp: cache_view_def cache_create_def table_create_def table_view_def rows_ledger_def ledger_at_def split: if_splits)

text \<open>
  The durable claim is a lease: once it has lapsed the same id is granted again, although the first holder has neither
  completed nor released it and may still be forwarding.  The claim of the cache never lapses.
\<close>

lemma lapsed_claim_granted_again:
  assumes "table_ok t" and "table_claim now i t = (''claimed'', t')" and "now + of_int (dt_claim_ttl t) \<le> later"
  shows "fst (table_claim later i t') = ''claimed''"
proof -
  have "now \<le> now + of_int (dt_claim_ttl t)" using assms(1) by (simp add: table_ok_def)
  with assms(3) have later: "now \<le> later" by simp
  obtain r t'' where c: "table_claim later i t' = (r, t'')" by fastforce
  from durable.claim_view [OF assms(1,2)]
  have v: "table_view t' now = (fst (table_view t now), (snd (table_view t now))(i \<mapsto> Some (now + of_int (dt_claim_ttl t))))"
    and none: "fst (table_view t now) i = None"
    by (auto simp: ledger_claim_def split: if_splits)
  have "table_view t' later = ledger_at later (table_view t' now)" by (rule durable.view_later [OF later])
  with v none assms(3) have "fst (table_view t' later) i = None \<and> snd (table_view t' later) i = None"
    by (simp add: ledger_at_def)
  with durable.claimed_iff [OF durable.claim_ok [OF assms(1,2)] c] c show ?thesis by simp
qed

lemma cache_claim_never_lapses:
  assumes "cache_ok c" and "cache_claim now i c = (''claimed'', c')" and "now \<le> later"
  shows "fst (cache_claim later i c') = ''inflight''"
proof -
  obtain r c'' where c: "cache_claim later i c' = (r, c'')" by fastforce
  from memory.claim_view [OF assms(1,2)]
  have v: "cache_view c' now = (fst (cache_view c now), (snd (cache_view c now))(i \<mapsto> None))" and none: "fst (cache_view c now) i = None"
    by (auto simp: ledger_claim_def split: if_splits)
  from memory.view_later [OF assms(3)] have "cache_view c' later = ledger_at later (cache_view c' now)" .
  with v none have "fst (cache_view c' later) i = None" "snd (cache_view c' later) i = Some None"
    by (simp_all add: ledger_at_def)
  with memory.claim_view [OF memory.claim_ok [OF assms(1,2)] c] c show ?thesis
    by (auto simp: ledger_claim_def)
qed

subsection \<open>Properties\<close>

text \<open>
  C25: both stores implement the ledger.  Whatever claims, completions and releases are made, at times that do not run
  backwards, a well-formed store gives the answers of the ledger and means the same afterwards, as long as
  the completed ids fit its capacity: the expired entries it still holds, the eviction of the oldest
  and the rows of the table cannot be told from outside.
\<close>
theorem stores_refine_ledger:
  assumes "store_ok s" and "steps_from t ops"
    and "ledger_roomy (store_capacity s) (store_ttl s) (store_lease s) (store_view s t) ops"
    and "ops_run store_claim store_complete store_release s ops = (rs, s')"
  shows "store_ok s' \<and> ledger_run (store_ttl s) (store_lease s) (store_view s t) ops = (rs, store_view s' (last_step t ops))"
  using store.run_as_ledger [OF assms] .

theorem stores_refine_ledger_witness:
  "fst (ops_run store_claim store_complete store_release (Memory (cache_create 10 1))
     [(Claim ''a'', 0), (Claim ''a'', 1), (Complete ''a'', 2), (Claim ''a'', 3), (Claim ''b'', 13)])
     = [''claimed'', ''inflight'', ''completed'', ''claimed'']
   \<and> fst (ledger_run 10 None (Map.empty, Map.empty)
     [(Claim ''a'', 0), (Claim ''a'', 1), (Complete ''a'', 2), (Claim ''a'', 3), (Claim ''b'', 13)])
     = [''claimed'', ''inflight'', ''completed'', ''claimed'']"
proof -
  let ?ops = "[(Claim ''a'', 0), (Claim ''a'', 1), (Complete ''a'', 2), (Claim ''a'', 3), (Claim ''b'', 13)] :: (store_op \<times> rat) list"
  let ?s = "Memory (cache_create 10 1)"
  have run: "fst (ops_run store_claim store_complete store_release ?s ?ops) = [''claimed'', ''inflight'', ''completed'', ''claimed'']"
    by (simp add: cache_create_def cache_claim_def cache_complete_def cache_purge_def Let_def)
  obtain rs s' where o: "ops_run store_claim store_complete store_release ?s ?ops = (rs, s')" by fastforce
  have ok: "store_ok ?s" by (simp add: cache_create_ok)
  have room: "ledger_roomy 1 10 None (Map.empty, Map.empty) ?ops"
    by (simp add: ledger_at_def ledger_claim_def ledger_complete_def ledger_fits_def Let_def)
  have params: "store_capacity ?s = 1" "store_ttl ?s = 10" "store_lease ?s = None"
    by (simp_all add: cache_create_def)
  from stores_refine_ledger [OF ok, of 0 ?ops rs s'] room params o run new_store_empty(1) [of 10 1 0]
  show ?thesis by simp
qed

text \<open>
  C26: a store never remembers more ids than its capacity, remembers nothing that was not completed before and loses no
  claim: what it forgets to make room are completed ids only.
\<close>
theorem stores_are_bounded:
  assumes "store_ok s"
  shows "int (card (dom (fst (store_view (store_complete now i s) now)))) \<le> store_capacity s
    \<and> (\<forall>j e. fst (store_view (store_complete now i s) now) j = Some e \<longrightarrow>
         fst (store_view s now) j = Some e \<or> j = i \<and> e = now + of_int (store_ttl s))
    \<and> snd (store_view (store_complete now i s) now) = (snd (store_view s now))(i := None)"
proof -
  note forgets = store.complete_forgets [OF assms, of now i, unfolded ledger_complete_def fst_conv snd_conv]
  have "fst (store_view s now) j = Some e \<or> j = i \<and> e = now + of_int (store_ttl s)"
    if "fst (store_view (store_complete now i s) now) j = Some e" for j e
    using map_le_Some [OF conjunct1 [OF forgets] that] by (auto split: if_splits)
  with store.complete_bounded [OF assms, of now i] forgets show ?thesis by blast
qed

theorem stores_are_bounded_witness:
  "int (card (dom (fst (store_view (store_complete 5 ''b'' (store_complete 0 ''a'' (Memory (cache_create 10 1)))) 5)))) \<le> 1"
proof -
  have "store_ok (store_complete 0 ''a'' (Memory (cache_create 10 1)))"
    by (rule store.complete_ok) (simp add: cache_create_ok)
  moreover have "store_capacity (store_complete 0 ''a'' (Memory (cache_create 10 1))) = 1"
    by (simp add: cache_complete_def cache_create_def Let_def)
  ultimately show ?thesis using stores_are_bounded [of "store_complete 0 ''a'' (Memory (cache_create 10 1))" 5 "''b''"] by simp
qed

end
