(* ===== verification/Ingest.thy ===== *)
theory Ingest
  imports Shield Rate_Limit Dedupe
begin

section \<open>The collection service (ingest/service.py)\<close>

text \<open>
  \<open>IngestConfig\<close>, \<open>IngestResult\<close> and \<open>IngestService\<close>.  The state of a service is its limiter and its idempotency store; a
  third field records the events it has passed to its forwarder.  What the code reads from the clocks and
  what the forwarder does with an event come in an \<open>attempt\<close>.  \<open>_process_validated\<close> is split where it calls the forwarder, because
  other threads run while it waits for the answer.
\<close>

subsection \<open>Configuration\<close>

record ingest_config =
  ic_allowed_containers :: "string list option"
  ic_max_body_bytes :: int
  ic_max_batch_events :: int
  ic_dedupe_ttl_seconds :: int
  ic_dedupe_capacity :: int
  ic_dedupe_claim_ttl_seconds :: int
  ic_dedupe_store_path :: "string option"
  ic_rate_limit_per_minute :: int
  ic_api_token_ref :: "string option"
  ic_cors_origins :: "string list"
  ic_trusted_proxy_cidrs :: "string list"
  ic_real_ip_header :: string
  ic_path :: string

definition default_config :: ingest_config where
  "default_config = \<lparr>ic_allowed_containers = None, ic_max_body_bytes = 65536, ic_max_batch_events = 100,
     ic_dedupe_ttl_seconds = 86400, ic_dedupe_capacity = 100000, ic_dedupe_claim_ttl_seconds = 60,
     ic_dedupe_store_path = None, ic_rate_limit_per_minute = 120, ic_api_token_ref = None, ic_cors_origins = [''*''],
     ic_trusted_proxy_cidrs = [], ic_real_ip_header = ''X-Forwarded-For'', ic_path = ''/api/v1/events''\<rparr>"

definition header_shape :: "string \<Rightarrow> bool" where
  "header_shape s \<longleftrightarrow> s \<noteq> [] \<and> list_all (\<lambda>c. is_word c \<or> c = CHR ''-'') s"

text \<open>\<open>network\<close> is \<open>str(ipaddress.ip_network(text, strict=False))\<close> where that does not raise.\<close>

definition proxy_networks :: "(string \<Rightarrow> string option) \<Rightarrow> string list \<Rightarrow> string list res" where
  "proxy_networks network cidrs = mapR (\<lambda>v. case network (py_strip v) of
     None \<Rightarrow> Inl (ValueError (''invalid trusted proxy CIDR: '' @ repr_str v)) | Some n \<Rightarrow> Inr n) cidrs"

definition config_check :: "(string \<Rightarrow> string option) \<Rightarrow> ingest_config \<Rightarrow> ingest_config res" where
  "config_check network c = (let header = py_strip (ic_real_ip_header c) in
     if ic_max_body_bytes c < 1 then Inl (ValueError ''max_body_bytes must be positive'')
     else if ic_max_batch_events c < 1 \<or> ic_max_batch_events c > 100
     then Inl (ValueError ''max_batch_events must be between 1 and 100'')
     else if ic_rate_limit_per_minute c < 1 then Inl (ValueError ''rate_limit_per_minute must be positive'')
     else if ic_dedupe_ttl_seconds c < 1 then Inl (ValueError ''dedupe_ttl_seconds must be positive'')
     else if ic_dedupe_claim_ttl_seconds c < 1 then Inl (ValueError ''dedupe_claim_ttl_seconds must be positive'')
     else if ic_dedupe_store_path c = Some [] then Inl (ValueError ''dedupe_store_path must not be empty'')
     else if ic_cors_origins c = [] then Inl (ValueError ''at least one CORS origin must be configured'')
     else if ''*'' \<in> set (ic_cors_origins c) \<and> length (ic_cors_origins c) \<noteq> 1
     then Inl (ValueError ''wildcard CORS origin cannot be combined with named origins'')
     else if \<not> header_shape header then Inl (ValueError ''real IP header must be a valid HTTP header name'')
     else bindR (proxy_networks network (ic_trusted_proxy_cidrs c)) (\<lambda>networks.
       if \<not> prefix ''/'' (ic_path c) \<or> CHR ''?'' \<in> set (ic_path c) \<or> CHR ''#'' \<in> set (ic_path c)
       then Inl (ValueError ''collection path must be an absolute path without query/fragment'')
       else Inr (c\<lparr>ic_real_ip_header := header, ic_trusted_proxy_cidrs := networks\<rparr>)))"

subsection \<open>Results\<close>

record ingest_result =
  ir_status :: string
  ir_event_id :: "string option"
  ir_event_name :: "string option"
  ir_accepted :: bool
  ir_duplicate :: bool
  ir_forwarded :: bool
  ir_forward :: pyval
  ir_errors :: "pyval list"
  ir_retryable :: bool

definition ingest_result_to_dict :: "ingest_result \<Rightarrow> pyval" where
  "ingest_result_to_dict r = VDict [(''status'', VStr (ir_status r)), (''event_id'', text_or_none (ir_event_id r)),
     (''event_name'', text_or_none (ir_event_name r)), (''accepted'', VBool (ir_accepted r)),
     (''duplicate'', VBool (ir_duplicate r)), (''forwarded'', VBool (ir_forwarded r)), (''forward'', ir_forward r),
     (''errors'', VList (ir_errors r)), (''retryable'', VBool (ir_retryable r))]"

definition message_error :: "string \<Rightarrow> pyval" where
  "message_error m = VDict [(''message'', VStr m)]"

text \<open>The results the service builds: without an event, and for an event.\<close>

definition anonymous_result :: "string \<Rightarrow> bool \<Rightarrow> pyval list \<Rightarrow> ingest_result" where
  "anonymous_result st retryable errs = \<lparr>ir_status = st, ir_event_id = None, ir_event_name = None, ir_accepted = False,
     ir_duplicate = False, ir_forwarded = False, ir_forward = VNone, ir_errors = errs, ir_retryable = retryable\<rparr>"

definition event_outcome :: "string \<Rightarrow> string \<Rightarrow> string \<Rightarrow> bool \<Rightarrow> ingest_result" where
  "event_outcome i name st accepted = \<lparr>ir_status = st, ir_event_id = Some i, ir_event_name = Some name, ir_accepted = accepted,
     ir_duplicate = False, ir_forwarded = False, ir_forward = VNone, ir_errors = [], ir_retryable = False\<rparr>"

subsection \<open>The service\<close>

record ingest_service =
  sv_config :: ingest_config
  sv_forwarding :: bool
  sv_limiter :: limiter
  sv_dedupe :: idempotency_store
  sv_api_token :: "string option"
  sv_calls :: "pydict list"

text \<open>
  The environment of the constructor: whether a path is a directory, the rows the table of a path already
  holds, and the secrets.
\<close>

record ingest_env =
  en_is_directory :: "string \<Rightarrow> bool"
  en_rows :: "string \<Rightarrow> (string, dedupe_row) dict"
  en_resolve :: "secret_ref \<Rightarrow> string res"

definition service_store :: "ingest_env \<Rightarrow> ingest_config \<Rightarrow> idempotency_store res" where
  "service_store env c =
     (if given (ic_dedupe_store_path c)
      then let path = the (ic_dedupe_store_path c) in
        bindR (table_create path (en_is_directory env path) (en_rows env path) (ic_dedupe_ttl_seconds c)
          (ic_dedupe_capacity c) (ic_dedupe_claim_ttl_seconds c)) (\<lambda>t. Inr (Durable t))
      else Inr (Memory (cache_create (ic_dedupe_ttl_seconds c) (ic_dedupe_capacity c))))"

definition service_create :: "ingest_env \<Rightarrow> ingest_config \<Rightarrow> bool \<Rightarrow> ingest_service res" where
  "service_create env c forwarding =
     bindR (service_store env c) (\<lambda>store.
     bindR (if given (ic_api_token_ref c)
       then bindR (parse_secret_ref (VStr (the (ic_api_token_ref c)))) (\<lambda>ref. bindR (en_resolve env ref) (\<lambda>t. Inr (Some t)))
       else Inr None) (\<lambda>token.
     Inr \<lparr>sv_config = c, sv_forwarding = forwarding, sv_limiter = limiter_create (ic_rate_limit_per_minute c) None,
       sv_dedupe = store, sv_api_token = token, sv_calls = []\<rparr>))"

text \<open>
  What happens around one event: the clock of the store when it claims and when it settles, and what the
  forwarder returns or raises.
\<close>

record attempt =
  at_claim :: rat
  at_outcome :: "forward_result res"
  at_settle :: rat

fun exn_class :: "exn \<Rightarrow> string" where
  "exn_class (ValidationError _) = ''ValidationError''"
| "exn_class (NotFoundError _) = ''NotFoundError''"
| "exn_class (ConflictError _) = ''ConflictError''"
| "exn_class (CorruptStoreError _) = ''CorruptStoreError''"
| "exn_class (SchemaVersionError _) = ''SchemaVersionError''"
| "exn_class (SecretError _) = ''SecretError''"
| "exn_class (ExpressionError _) = ''ExpressionError''"
| "exn_class (ValueError _) = ''ValueError''"
| "exn_class (KeyError _) = ''KeyError''"
| "exn_class (IndexError _) = ''IndexError''"
| "exn_class (TypeError _) = ''TypeError''"
| "exn_class (AttributeError _) = ''AttributeError''"
| "exn_class (OverflowError _) = ''OverflowError''"

definition container_allowed :: "ingest_config \<Rightarrow> pydict \<Rightarrow> bool res" where
  "container_allowed c event = (case ic_allowed_containers c of
     None \<Rightarrow> Inr True
   | Some allowed \<Rightarrow> bindR (dict_item event ''container_id'') (\<lambda>v. in_text_set v allowed))"

text \<open>
  Up to the call of the forwarder: \<open>Inl\<close> is the result of an event that is not forwarded, \<open>Inr\<close> the id and name of
  one that is.
\<close>

definition process_begin ::
    "py_runtime \<Rightarrow> ingest_service \<Rightarrow> attempt \<Rightarrow> pydict \<Rightarrow> (ingest_result + string \<times> string) res \<times> ingest_service" where
  "process_begin rt s a event =
     (case bindR (dict_item event ''event_id'') (\<lambda>i. bindR (dict_item event ''event_name'') (\<lambda>name.
         bindR (container_allowed (sv_config s) event) (\<lambda>ok. Inr (py_text rt i, py_text rt name, ok)))) of
       Inl e \<Rightarrow> (Inl e, s)
     | Inr (i, name, ok) \<Rightarrow>
         if \<not> ok
         then (Inr (Inl ((event_outcome i name ''rejected'' False)
           \<lparr>ir_errors := [message_error ''container is not allowed by this endpoint'']\<rparr>)), s)
         else let (answer, d) = store_claim (at_claim a) i (sv_dedupe s); s = s\<lparr>sv_dedupe := d\<rparr> in
           if answer = ''completed''
           then (Inr (Inl ((event_outcome i name ''duplicate'' True)\<lparr>ir_duplicate := True\<rparr>)), s)
           else if answer = ''inflight''
           then (Inr (Inl ((event_outcome i name ''in_progress'' True)\<lparr>ir_duplicate := True, ir_retryable := True\<rparr>)), s)
           else if \<not> sv_forwarding s
           then (Inr (Inl (event_outcome i name ''accepted'' True)),
             s\<lparr>sv_dedupe := store_complete (at_settle a) i (sv_dedupe s)\<rparr>)
           else (Inr (Inr (i, name)), s\<lparr>sv_calls := sv_calls s @ [event]\<rparr>))"

definition error_or :: "string option \<Rightarrow> string \<Rightarrow> string" where
  "error_or e m = (if given e then the e else m)"

text \<open>From the answer of the forwarder on.\<close>

definition process_finish :: "ingest_service \<Rightarrow> attempt \<Rightarrow> string \<Rightarrow> string \<Rightarrow> ingest_result \<times> ingest_service" where
  "process_finish s a i name =
     (let completed = s\<lparr>sv_dedupe := store_complete (at_settle a) i (sv_dedupe s)\<rparr>;
          released = s\<lparr>sv_dedupe := store_release i (sv_dedupe s)\<rparr>
      in case at_outcome a of
        Inl e \<Rightarrow> ((event_outcome i name ''transient_error'' False)
          \<lparr>ir_retryable := True, ir_errors := [message_error (''forwarder failure: '' @ exn_class e)]\<rparr>, released)
      | Inr r \<Rightarrow>
          if fr_transient r
          then ((event_outcome i name ''transient_error'' False)
            \<lparr>ir_retryable := True, ir_forwarded := fr_forwarded r, ir_forward := forward_result_to_dict r,
             ir_errors := [message_error (error_or (fr_error r) ''transient forwarding failure'')]\<rparr>, released)
          else if \<not> fr_forwarded r
          then ((event_outcome i name ''rejected'' False)
            \<lparr>ir_forward := forward_result_to_dict r,
             ir_errors := [message_error (error_or (fr_error r) ''PyTagShield rejected the event'')]\<rparr>, completed)
          else ((event_outcome i name ''forwarded'' True)
            \<lparr>ir_forwarded := True, ir_forward := forward_result_to_dict r\<rparr>, completed))"

definition process_validated :: "py_runtime \<Rightarrow> ingest_service \<Rightarrow> attempt \<Rightarrow> pydict \<Rightarrow> ingest_result res \<times> ingest_service" where
  "process_validated rt s a event = (case process_begin rt s a event of
     (Inl e, s') \<Rightarrow> (Inl e, s')
   | (Inr (Inl r), s') \<Rightarrow> (Inr r, s')
   | (Inr (Inr (i, name)), s') \<Rightarrow> (let (r, s'') = process_finish s' a i name in (Inr r, s'')))"

subsection \<open>Requests\<close>

definition client_key :: "string option \<Rightarrow> string" where
  "client_key client_ip = (if given client_ip then the client_ip else ''unknown'')"

text \<open>
  One event; \<open>now\<close> is the time of day and \<open>tick\<close> the monotonic clock of the limiter.  The limiter has been
  charged even if the rest raises.
\<close>

definition ingest_event ::
    "py_runtime \<Rightarrow> datetime \<Rightarrow> rat \<Rightarrow> attempt \<Rightarrow> string option \<Rightarrow> pyval \<Rightarrow> ingest_service \<Rightarrow> ingest_result res \<times> ingest_service" where
  "ingest_event rt now tick a client_ip raw s =
     (let (ok, tb) = allow (sv_limiter s) (client_key client_ip) tick; s = s\<lparr>sv_limiter := tb\<rparr> in
      if \<not> ok then (Inr (anonymous_result ''rate_limited'' True [message_error ''rate limit exceeded'']), s)
      else case parse_event rt now (Some 86400) MAX_EVENT_BYTES raw of
        Inl e \<Rightarrow> (Inl e, s)
      | Inr (Inl issues) \<Rightarrow> (Inr (anonymous_result ''rejected'' False (map event_issue_to_dict issues)), s)
      | Inr (Inr event) \<Rightarrow> process_validated rt s a event)"

text \<open>The accepted events of a batch, one after the other; \<open>attempts\<close> numbers what happens around them.\<close>

fun process_all :: "py_runtime \<Rightarrow> (nat \<Rightarrow> attempt) \<Rightarrow> nat \<Rightarrow> ingest_service \<Rightarrow> pydict list \<Rightarrow> ingest_result list res \<times> ingest_service" where
  "process_all rt attempts k s [] = (Inr [], s)"
| "process_all rt attempts k s (e # es) = (case process_validated rt s (attempts k) e of
     (Inl x, s') \<Rightarrow> (Inl x, s')
   | (Inr r, s') \<Rightarrow> (case process_all rt attempts (Suc k) s' es of
       (Inl x, s'') \<Rightarrow> (Inl x, s'')
     | (Inr rs, s'') \<Rightarrow> (Inr (r # rs), s'')))"

text \<open>The results in the order of the batch: the rejected ones under their indices, the others in turn.\<close>

fun order_results :: "nat list \<Rightarrow> (nat \<times> event_issue list) list \<Rightarrow> ingest_result list \<Rightarrow> ingest_result list res" where
  "order_results [] rejected results = Inr []"
| "order_results (i # rest) rejected results = (case map_of rejected i of
     Some issues \<Rightarrow> bindR (order_results rest rejected results)
       (\<lambda>rs. Inr (anonymous_result ''rejected'' False (map event_issue_to_dict issues) # rs))
   | None \<Rightarrow> (case results of
       [] \<Rightarrow> Inl (IndexError ''list index out of range'')
     | r # results' \<Rightarrow> bindR (order_results rest rejected results') (\<lambda>rs. Inr (r # rs))))"

record batch_result =
  ib_accepted :: bool
  ib_status :: string
  ib_results :: "ingest_result list"
  ib_errors :: "pyval list"

definition batch_result_to_dict :: "batch_result \<Rightarrow> pyval" where
  "batch_result_to_dict r = VDict [(''accepted'', VBool (ib_accepted r)), (''status'', VStr (ib_status r)),
     (''results'', VList (map ingest_result_to_dict (ib_results r))), (''errors'', VList (ib_errors r))]"

definition batch_refused :: "string \<Rightarrow> pyval list \<Rightarrow> batch_result" where
  "batch_refused st errs = \<lparr>ib_accepted = False, ib_status = st, ib_results = [], ib_errors = errs\<rparr>"

definition batch_summary :: "ingest_result list \<Rightarrow> bool \<Rightarrow> bool \<times> string" where
  "batch_summary results any_rejected =
     (let has_retryable = list_ex ir_retryable results;
          has_rejected = (any_rejected \<or> list_ex (\<lambda>r. ir_status r = ''rejected'') results);
          all_accepted = (\<not> has_rejected \<and> list_all (\<lambda>r. ir_accepted r \<or> ir_duplicate r) results);
          st = (if has_retryable then ''partial''
            else if has_rejected then (if results = [] then ''rejected'' else ''partial'')
            else if all_accepted then ''accepted'' else ''partial'')
      in (all_accepted \<and> \<not> has_retryable, st))"

definition batch_charge :: "pydict \<Rightarrow> int" where
  "batch_charge raw = (case get_or raw ''events'' VNone of VList es \<Rightarrow> if es \<noteq> [] then int (length es) else 1 | _ \<Rightarrow> 1)"

definition ingest_batch ::
    "py_runtime \<Rightarrow> datetime \<Rightarrow> rat \<Rightarrow> (nat \<Rightarrow> attempt) \<Rightarrow> string option \<Rightarrow> pydict \<Rightarrow> ingest_service \<Rightarrow> batch_result res \<times> ingest_service" where
  "ingest_batch rt now tick attempts client_ip raw s =
     (let (ok, tb) = allow_many (sv_limiter s) (client_key client_ip) (batch_charge raw) tick; s = s\<lparr>sv_limiter := tb\<rparr> in
      if \<not> ok then (Inr (batch_refused ''rate_limited'' [message_error ''rate limit exceeded'']), s)
      else case validate_batch rt now (Some 86400) MAX_EVENT_BYTES (nat (ic_max_batch_events (sv_config s))) (VDict raw) of
        Inl e \<Rightarrow> (Inl e, s)
      | Inr (Inl issues) \<Rightarrow> (Inr (batch_refused ''rejected'' (map event_issue_to_dict issues)), s)
      | Inr (Inr (accepted, rejected)) \<Rightarrow> (case process_all rt attempts 0 s accepted of
          (Inl e, s') \<Rightarrow> (Inl e, s')
        | (Inr results, s') \<Rightarrow> (case order_results [0..<length accepted + length rejected] rejected results of
            Inl e \<Rightarrow> (Inl e, s')
          | Inr ordered \<Rightarrow> (let (acc, st) = batch_summary results (rejected \<noteq> []) in
              (Inr \<lparr>ib_accepted = acc, ib_status = st, ib_results = ordered, ib_errors = []\<rparr>, s')))))"

end
