(* ===== verification/Serving.thy ===== *)
theory Serving
  imports Ingest
begin

section \<open>Requests in flight: what is forwarded, and how often\<close>

text \<open>
  A service that forwards, as other threads see it: events are claimed and sent, answers come back in any
  order, and a service with a durable store may be restarted at any moment, which loses the events in
  flight.  The log records what was sent and what became of it.
\<close>

subsection \<open>The machine\<close>

datatype log_entry = Sent string rat | Failed string rat | Settled string rat

fun entry_id :: "log_entry \<Rightarrow> string" where
  "entry_id (Sent i _) = i"
| "entry_id (Failed i _) = i"
| "entry_id (Settled i _) = i"

record world =
  wd_service :: ingest_service
  wd_pending :: "(string \<times> string) list"
  wd_log :: "log_entry list"
  wd_now :: rat

text \<open>An answer after which the event may be sent again.\<close>

definition retry_outcome :: "forward_result res \<Rightarrow> bool" where
  "retry_outcome r = (case r of Inl _ \<Rightarrow> True | Inr x \<Rightarrow> fr_transient x)"

inductive serving :: "py_runtime \<Rightarrow> world \<Rightarrow> world \<Rightarrow> bool" for rt where
  answered: "process_begin rt (wd_service w) a event = (Inr (Inl r), s') \<Longrightarrow> wd_now w \<le> at_claim a \<Longrightarrow>
    serving rt w (w\<lparr>wd_service := s', wd_now := at_claim a\<rparr>)"
| sent: "process_begin rt (wd_service w) a event = (Inr (Inr (i, name)), s') \<Longrightarrow> wd_now w \<le> at_claim a \<Longrightarrow>
    serving rt w (w\<lparr>wd_service := s', wd_pending := (i, name) # wd_pending w,
      wd_log := Sent i (at_claim a) # wd_log w, wd_now := at_claim a\<rparr>)"
| finished: "(i, name) \<in> set (wd_pending w) \<Longrightarrow> process_finish (wd_service w) a i name = (r, s') \<Longrightarrow> wd_now w \<le> at_settle a \<Longrightarrow>
    serving rt w (w\<lparr>wd_service := s', wd_pending := remove1 (i, name) (wd_pending w),
      wd_log := (if retry_outcome (at_outcome a) then Failed else Settled) i (at_settle a) # wd_log w,
      wd_now := at_settle a\<rparr>)"
| restarted: "sv_dedupe (wd_service w) = Durable t \<Longrightarrow>
    en_rows env (the (ic_dedupe_store_path (sv_config (wd_service w)))) = dt_rows t \<Longrightarrow>
    service_create env (sv_config (wd_service w)) True = Inr s' \<Longrightarrow>
    serving rt w (w\<lparr>wd_service := s', wd_pending := []\<rparr>)"

inductive_cases servingE: "serving rt w w'"

text \<open>The last entry about an id; when the log allows it to be sent again.\<close>

definition last_of :: "string \<Rightarrow> log_entry list \<Rightarrow> log_entry option" where
  "last_of i es = find (\<lambda>e. entry_id e = i) es"

definition may_send :: "int \<Rightarrow> int option \<Rightarrow> string \<Rightarrow> rat \<Rightarrow> log_entry list \<Rightarrow> bool" where
  "may_send ttl lease i now es = (case last_of i es of
     None \<Rightarrow> True
   | Some (Sent _ t) \<Rightarrow> (case lease of None \<Rightarrow> False | Some n \<Rightarrow> t + of_int n \<le> now)
   | Some (Failed _ _) \<Rightarrow> True
   | Some (Settled _ t) \<Rightarrow> t + of_int ttl \<le> now)"

fun orderly :: "int \<Rightarrow> int option \<Rightarrow> log_entry list \<Rightarrow> bool" where
  "orderly ttl lease [] = True"
| "orderly ttl lease (e # es) = (orderly ttl lease es \<and> (case e of Sent i t \<Rightarrow> may_send ttl lease i t es | _ \<Rightarrow> True))"

subsection \<open>What the steps do to the store\<close>

lemma claim_answers:
  assumes "store_ok d" and "store_claim now i d = (r, d')"
  shows "r = ''claimed'' \<or> r = ''completed'' \<or> r = ''inflight''"
  using store.claim_view [OF assms] by (auto simp: ledger_claim_def split: if_splits)

lemma begin_attempt:
  "at_claim a = at_claim b \<Longrightarrow> at_settle a = at_settle b \<Longrightarrow> process_begin rt s a e = process_begin rt s b e"
  by (simp only: process_begin_def)

lemma begin_sends:
  assumes "process_begin rt s a event = (Inr (Inr (i, name)), s')" and "store_ok (sv_dedupe s)"
  shows "\<exists>d. store_claim (at_claim a) i (sv_dedupe s) = (''claimed'', d) \<and> sv_forwarding s
    \<and> s' = s\<lparr>sv_dedupe := d, sv_calls := sv_calls s @ [event]\<rparr> \<and> container_allowed (sv_config s) event = Inr True"
proof -
  obtain answer d where c: "store_claim (at_claim a) i (sv_dedupe s) = (answer, d)" by fastforce
  with assms claim_answers [OF assms(2) c] show ?thesis
    by (auto simp: process_begin_def Let_def bindR_Inr_iff split: sum.splits prod.splits if_splits)
qed

lemma begin_answers:
  assumes "process_begin rt s a event = (Inr (Inl r), s')" and "store_ok (sv_dedupe s)" and "sv_forwarding s"
  shows "s' = s \<or> (\<exists>i answer d. store_claim (at_claim a) i (sv_dedupe s) = (answer, d) \<and> answer \<noteq> ''claimed'' \<and> s' = s\<lparr>sv_dedupe := d\<rparr>)"
  using assms by (auto simp: process_begin_def Let_def split: sum.splits prod.splits if_splits)

lemma finish_store:
  assumes "process_finish s a i name = (r, s')"
  shows "s' = s\<lparr>sv_dedupe := (if retry_outcome (at_outcome a) then store_release i (sv_dedupe s)
    else store_complete (at_settle a) i (sv_dedupe s))\<rparr>"
  using assms by (auto simp: process_finish_def retry_outcome_def Let_def split: sum.splits if_splits)

subsection \<open>The log and the ledger\<close>

definition entry_kept :: "int \<Rightarrow> int option \<Rightarrow> rat \<Rightarrow> ledger \<Rightarrow> string \<Rightarrow> log_entry list \<Rightarrow> bool" where
  "entry_kept ttl lease now l i es = (case last_of i es of
     Some (Sent _ t) \<Rightarrow> snd l i = Some (map_option (\<lambda>n. t + of_int n) lease) \<or> (\<exists>n. lease = Some n \<and> t + of_int n \<le> now)
   | Some (Settled _ t) \<Rightarrow> fst l i = Some (t + of_int ttl) \<or> t + of_int ttl \<le> now
   | _ \<Rightarrow> True)"

definition tracks :: "int \<Rightarrow> int option \<Rightarrow> rat \<Rightarrow> ledger \<Rightarrow> log_entry list \<Rightarrow> bool" where
  "tracks ttl lease now l es \<longleftrightarrow> dom (fst l) \<subseteq> entry_id ` set es \<and> (\<forall>i. entry_kept ttl lease now l i es)"

lemma last_of_Cons: "last_of i (e # es) = (if entry_id e = i then Some e else last_of i es)"
  by (simp add: last_of_def)

lemma tracks_later:
  assumes "tracks ttl lease now l es" and "now \<le> t"
  shows "tracks ttl lease t (ledger_at t l) es"
  unfolding tracks_def
proof (intro conjI allI)
  show "dom (fst (ledger_at t l)) \<subseteq> entry_id ` set es"
    using assms(1) by (auto simp: tracks_def ledger_at_Some)
  fix i
  have "entry_kept ttl lease now l i es" using assms(1) by (simp add: tracks_def)
  then show "entry_kept ttl lease t (ledger_at t l) i es"
    using assms(2)
    by (cases lease) (auto simp: entry_kept_def ledger_at_def split: option.splits log_entry.splits)
qed

lemma entry_kept_other:
  "entry_id e \<noteq> j \<Longrightarrow> fst l' j = fst l j \<Longrightarrow> snd l' j = snd l j \<Longrightarrow>
    entry_kept ttl lease now l' j (e # es) = entry_kept ttl lease now l j es"
  by (simp add: entry_kept_def last_of_Cons split: option.split log_entry.split)

text \<open>A new entry about \<open>i\<close>, and a ledger that differs at \<open>i\<close> only.\<close>

lemma tracks_entry:
  assumes "tracks ttl lease now l es" and "entry_id e = i" and "entry_kept ttl lease now l' i (e # es)"
    and "\<And>j. j \<noteq> i \<Longrightarrow> fst l' j = fst l j \<and> snd l' j = snd l j"
  shows "tracks ttl lease now l' (e # es)"
  unfolding tracks_def
proof (intro conjI allI)
  have "dom (fst l') \<subseteq> insert i (dom (fst l))" using assms(4) by force
  then show "dom (fst l') \<subseteq> entry_id ` set (e # es)" using assms(1,2) by (auto simp: tracks_def)
  fix j
  show "entry_kept ttl lease now l' j (e # es)"
    using assms(1,2,3) assms(4) [of j] by (cases "j = i") (simp_all add: entry_kept_other tracks_def)
qed

lemma tracks_send:
  assumes "tracks ttl lease now l es" and "fst l i = None" and "snd l i = None"
  shows "may_send ttl lease i now es"
    and "tracks ttl lease now (fst l, (snd l)(i \<mapsto> map_option (\<lambda>n. now + of_int n) lease)) (Sent i now # es)"
proof -
  have k: "entry_kept ttl lease now l j es" for j using assms(1) by (simp add: tracks_def)
  from k [of i] assms(2,3) show "may_send ttl lease i now es"
    by (auto simp: entry_kept_def may_send_def split: option.splits log_entry.splits)
  show "tracks ttl lease now (fst l, (snd l)(i \<mapsto> map_option (\<lambda>n. now + of_int n) lease)) (Sent i now # es)"
    by (rule tracks_entry [OF assms(1), of _ i]) (simp_all add: entry_kept_def last_of_Cons)
qed

lemma tracks_complete:
  "tracks ttl lease now l es \<Longrightarrow> tracks ttl lease now (ledger_complete ttl now i l) (Settled i now # es)"
  by (erule tracks_entry [where i = i]) (simp_all add: entry_kept_def last_of_Cons ledger_complete_def)

lemma tracks_release:
  "tracks ttl lease now l es \<Longrightarrow> tracks ttl lease now (ledger_release i l) (Failed i now # es)"
  by (erule tracks_entry [where i = i]) (simp_all add: entry_kept_def last_of_Cons ledger_release_def)

subsection \<open>The invariant\<close>

definition store_matches :: "ingest_config \<Rightarrow> idempotency_store \<Rightarrow> bool" where
  "store_matches c d \<longleftrightarrow> store_ttl d = ic_dedupe_ttl_seconds c \<and> store_capacity d = ic_dedupe_capacity c
     \<and> store_lease d = (if given (ic_dedupe_store_path c) then Some (ic_dedupe_claim_ttl_seconds c) else None)"

definition world_ok :: "world \<Rightarrow> bool" where
  "world_ok w \<longleftrightarrow> (let d = sv_dedupe (wd_service w) in
     store_ok d \<and> sv_forwarding (wd_service w) \<and> store_matches (sv_config (wd_service w)) d
     \<and> tracks (store_ttl d) (store_lease d) (wd_now w) (store_view d (wd_now w)) (wd_log w)
     \<and> orderly (store_ttl d) (store_lease d) (wd_log w))"

definition sent_ids :: "world \<Rightarrow> string set" where
  "sent_ids w = entry_id ` set (wd_log w)"

lemma service_create_store:
  assumes "service_create env c fwd = Inr s"
  shows "service_store env c = Inr (sv_dedupe s) \<and> sv_config s = c \<and> sv_forwarding s = fwd \<and> sv_calls s = []"
  using assms by (auto simp: service_create_def bindR_Inr_iff)

lemma table_create_Inr: "table_create path is_directory rows ttl capacity claim_ttl = Inr t \<longleftrightarrow>
    1 \<le> ttl \<and> 1 \<le> capacity \<and> 1 \<le> claim_ttl \<and> path \<noteq> '':memory:'' \<and> \<not> is_directory
    \<and> t = \<lparr>dt_ttl = ttl, dt_capacity = capacity, dt_claim_ttl = claim_ttl, dt_rows = rows\<rparr>"
  by (auto simp: table_create_def)

lemma restart_keeps_store:
  assumes "service_create env c True = Inr s'" and "store_matches c (Durable t)"
    and "en_rows env (the (ic_dedupe_store_path c)) = dt_rows t"
  shows "sv_dedupe s' = Durable t"
proof -
  from assms(2) have g: "given (ic_dedupe_store_path c)" and p: "dt_ttl t = ic_dedupe_ttl_seconds c"
    "dt_capacity t = ic_dedupe_capacity c" "dt_claim_ttl t = ic_dedupe_claim_ttl_seconds c"
    by (simp_all add: store_matches_def split: if_splits)
  from service_create_store [OF assms(1)] g assms(3)
  have "sv_dedupe s' = Durable \<lparr>dt_ttl = ic_dedupe_ttl_seconds c, dt_capacity = ic_dedupe_capacity c,
      dt_claim_ttl = ic_dedupe_claim_ttl_seconds c, dt_rows = dt_rows t\<rparr>"
    by (auto simp: service_store_def bindR_Inr_iff table_create_Inr Let_def)
  with p show ?thesis by simp
qed

lemma serving_config: "serving rt w w' \<Longrightarrow> world_ok w \<Longrightarrow> sv_config (wd_service w') = sv_config (wd_service w)"
proof (erule servingE)
  fix a event r s'
  assume w: "world_ok w" "w' = w\<lparr>wd_service := s', wd_now := at_claim a\<rparr>" "process_begin rt (wd_service w) a event = (Inr (Inl r), s')"
  then show ?thesis using begin_answers [OF w(3)] by (auto simp: world_ok_def Let_def)
next
  fix a event i name s'
  assume w: "world_ok w" "w' = w\<lparr>wd_service := s', wd_pending := (i, name) # wd_pending w,
      wd_log := Sent i (at_claim a) # wd_log w, wd_now := at_claim a\<rparr>" "process_begin rt (wd_service w) a event = (Inr (Inr (i, name)), s')"
  then show ?thesis using begin_sends [OF w(3)] by (auto simp: world_ok_def Let_def)
qed (auto dest: finish_store service_create_store)

lemma world_ok_step:
  assumes "serving rt w w'" and ok: "world_ok w"
    and room: "int (card (sent_ids w')) \<le> ic_dedupe_capacity (sv_config (wd_service w))"
  shows "world_ok w'"
proof -
  define d where "d = sv_dedupe (wd_service w)"
  have w: "store_ok d" "sv_forwarding (wd_service w)" "store_matches (sv_config (wd_service w)) d"
    "tracks (store_ttl d) (store_lease d) (wd_now w) (store_view d (wd_now w)) (wd_log w)"
    "orderly (store_ttl d) (store_lease d) (wd_log w)"
    using ok by (simp_all add: world_ok_def d_def Let_def)
  have later: "tracks (store_ttl d) (store_lease d) t (store_view d t) (wd_log w)" if "wd_now w \<le> t" for t
    using tracks_later [OF w(4) that] store.view_later [OF that, of d] by simp
  from assms(1) show ?thesis
  proof cases
    case (answered a event r s')
    from begin_answers [OF answered(2) w(1) [unfolded d_def] w(2)] show ?thesis
    proof
      assume "s' = wd_service w"
      with answered w later show ?thesis by (simp add: world_ok_def d_def Let_def)
    next
      assume "\<exists>i answer d'. store_claim (at_claim a) i (sv_dedupe (wd_service w)) = (answer, d') \<and> answer \<noteq> ''claimed''
        \<and> s' = (wd_service w)\<lparr>sv_dedupe := d'\<rparr>"
      then obtain i answer d' where c: "store_claim (at_claim a) i d = (answer, d')" "answer \<noteq> ''claimed''"
        "s' = (wd_service w)\<lparr>sv_dedupe := d'\<rparr>" by (auto simp: d_def)
      from store.claim_view [OF w(1) c(1)] c(2) have "store_view d' (at_claim a) = store_view d (at_claim a)"
        by (auto simp: ledger_claim_def split: if_splits)
      with answered c w later [OF answered(3)] store.claim_params [OF c(1)] store.claim_ok [OF w(1) c(1)]
      show ?thesis by (simp add: world_ok_def Let_def store_matches_def)
    qed
  next
    case (sent a event i name s')
    from begin_sends [OF sent(2) w(1) [unfolded d_def]] obtain d' where
      c: "store_claim (at_claim a) i d = (''claimed'', d')" and s': "s' = (wd_service w)\<lparr>sv_dedupe := d', sv_calls := sv_calls (wd_service w) @ [event]\<rparr>"
      by (auto simp: d_def)
    from store.claim_view [OF w(1) c] have v: "store_view d' (at_claim a)
        = (fst (store_view d (at_claim a)), (snd (store_view d (at_claim a)))(i \<mapsto> map_option (\<lambda>n. at_claim a + of_int n) (store_lease d)))"
      and none: "fst (store_view d (at_claim a)) i = None" "snd (store_view d (at_claim a)) i = None"
      by (auto simp: ledger_claim_def split: if_splits)
    from tracks_send [OF later [OF sent(3)] none] sent s' w v store.claim_params [OF c] store.claim_ok [OF w(1) c]
    show ?thesis by (simp add: world_ok_def Let_def store_matches_def)
  next
    case (finished i name a r s')
    note s' = finish_store [OF finished(3)]
    show ?thesis
    proof (cases "retry_outcome (at_outcome a)")
      case True
      with finished s' w tracks_release [OF later [OF finished(4)], of i] store.release_view [OF w(1), of i]
        store.release_params [of i d] store.release_ok [OF w(1), of i]
      show ?thesis by (simp add: world_ok_def Let_def store_matches_def d_def [symmetric])
    next
      case False
      have "insert i (dom (fst (store_view d (at_settle a)))) \<subseteq> sent_ids w'"
        using later [OF finished(4)] finished(1) by (auto simp: tracks_def sent_ids_def)
      moreover have "finite (sent_ids w')" by (simp add: sent_ids_def)
      ultimately have "card (insert i (dom (fst (store_view d (at_settle a))))) \<le> card (sent_ids w')" by (rule card_mono [rotated])
      with room w(3) have "ledger_fits (store_capacity d) i (store_view d (at_settle a))"
        by (simp add: ledger_fits_def store_matches_def)
      from store.complete_view [OF w(1) this] False finished s' w tracks_complete [OF later [OF finished(4)], of i]
        store.complete_params [of "at_settle a" i d] store.complete_ok [OF w(1), of "at_settle a" i]
      show ?thesis by (simp add: world_ok_def Let_def store_matches_def d_def [symmetric])
    qed
  next
    case (restarted t env s')
    with w(3) have "store_matches (sv_config (wd_service w)) (Durable t)" by (simp add: d_def)
    from restart_keeps_store [OF restarted(4) this restarted(3)] restarted service_create_store [OF restarted(4)] w
    show ?thesis by (simp add: world_ok_def Let_def d_def)
  qed
qed

subsection \<open>Runs\<close>

text \<open>A new service that forwards, with an empty store.\<close>

definition world_start :: "ingest_env \<Rightarrow> ingest_config \<Rightarrow> world \<Rightarrow> bool" where
  "world_start env c w \<longleftrightarrow> service_create env c True = Inr (wd_service w) \<and> wd_pending w = [] \<and> wd_log w = []
     \<and> 1 \<le> ic_dedupe_ttl_seconds c \<and> 1 \<le> ic_dedupe_capacity c
     \<and> en_rows env (the (ic_dedupe_store_path c)) = []"

lemma config_check_ttl: "config_check network c0 = Inr c \<Longrightarrow> 1 \<le> ic_dedupe_ttl_seconds c \<and> 1 \<le> ic_dedupe_claim_ttl_seconds c"
  by (auto simp: config_check_def Let_def bindR_Inr_iff split: if_splits)

lemma world_start_ok:
  assumes "world_start env c w"
  shows "world_ok w" and "sv_config (wd_service w) = c"
proof -
  from assms have s: "service_create env c True = Inr (wd_service w)" and l: "wd_log w = []"
    and p: "1 \<le> ic_dedupe_ttl_seconds c" "1 \<le> ic_dedupe_capacity c" "en_rows env (the (ic_dedupe_store_path c)) = []"
    by (simp_all add: world_start_def)
  note c = service_create_store [OF s]
  then show "sv_config (wd_service w) = c" by simp
  from c have st: "service_store env c = Inr (sv_dedupe (wd_service w))" by simp
  have "store_ok (sv_dedupe (wd_service w)) \<and> store_matches c (sv_dedupe (wd_service w))
      \<and> store_view (sv_dedupe (wd_service w)) (wd_now w) = (Map.empty, Map.empty)"
  proof (cases "given (ic_dedupe_store_path c)")
    case True
    with st p(3) obtain t where t: "Durable t = sv_dedupe (wd_service w)" and tc: "table_create (the (ic_dedupe_store_path c))
        (en_is_directory env (the (ic_dedupe_store_path c))) [] (ic_dedupe_ttl_seconds c) (ic_dedupe_capacity c)
        (ic_dedupe_claim_ttl_seconds c) = Inr t"
      by (auto simp: service_store_def Let_def bindR_Inr_iff)
    have "store_matches c (Durable t)" using tc True by (auto simp: table_create_Inr store_matches_def)
    moreover have "store_ok (Durable t)" using table_create_ok [OF tc] by simp
    ultimately show ?thesis using new_store_empty(2) [OF tc, of "wd_now w"] unfolding t [symmetric] by blast
  next
    case False
    with st have m: "sv_dedupe (wd_service w) = Memory (cache_create (ic_dedupe_ttl_seconds c) (ic_dedupe_capacity c))"
      by (simp add: service_store_def)
    then show ?thesis using p False new_store_empty(1) by (simp add: store_matches_def cache_create_ok) (simp add: cache_create_def)
  qed
  with c l show "world_ok w" by (simp add: world_ok_def Let_def tracks_def entry_kept_def last_of_def)
qed

lemma serving_log: "serving rt w w' \<Longrightarrow> set (wd_log w) \<subseteq> set (wd_log w')"
  by (erule servingE) auto

lemma reach_ok:
  assumes "(serving rt)\<^sup>*\<^sup>* w0 w" and "world_ok w0" and "int (card (sent_ids w)) \<le> ic_dedupe_capacity (sv_config (wd_service w0))"
  shows "world_ok w \<and> sv_config (wd_service w) = sv_config (wd_service w0)"
  using assms
proof (induction rule: rtranclp_induct)
  case (step w w')
  have "card (sent_ids w) \<le> card (sent_ids w')"
    using serving_log [OF step.hyps(2)] by (auto simp: sent_ids_def intro: card_mono)
  with step have ih: "world_ok w" "sv_config (wd_service w) = sv_config (wd_service w0)" by simp_all
  with world_ok_step [OF step.hyps(2) ih(1)] serving_config [OF step.hyps(2) ih(1)] step.prems(2) show ?case by simp
qed simp

lemma orderly_append: "orderly ttl lease (newer @ es) \<Longrightarrow> orderly ttl lease es"
  by (induction newer) auto

lemma find_append: "find P (xs @ ys) = (case find P xs of None \<Rightarrow> find P ys | Some x \<Rightarrow> Some x)"
  by (induction xs) auto

lemma may_send_again:
  assumes "may_send ttl lease i t2 (middle @ Sent i t1 # older)" and "\<And>t. Failed i t \<notin> set middle"
  shows "(\<exists>t. Settled i t \<in> set middle \<and> t + of_int ttl \<le> t2)
    \<or> (\<exists>n t. lease = Some n \<and> Sent i t \<in> set (middle @ [Sent i t1]) \<and> t + of_int n \<le> t2)"
proof (cases "find (\<lambda>e. entry_id e = i) middle")
  case None
  then have "last_of i (middle @ Sent i t1 # older) = Some (Sent i t1)"
    by (simp add: last_of_def find_append)
  with assms(1) show ?thesis by (auto simp: may_send_def split: option.splits)
next
  case (Some e)
  then have "last_of i (middle @ Sent i t1 # older) = Some e" by (simp add: last_of_def find_append)
  moreover have "e \<in> set middle" "entry_id e = i" using Some by (auto simp: find_Some_iff)
  ultimately show ?thesis using assms by (cases e) (auto simp: may_send_def split: option.splits)
qed

subsection \<open>Properties\<close>


definition sample_env :: ingest_env where
  "sample_env = \<lparr>en_is_directory = (\<lambda>_. False), en_rows = (\<lambda>_. []), en_resolve = (\<lambda>_. Inr ''token'')\<rparr>"

definition sample_service :: "dedupe_cache \<Rightarrow> pydict list \<Rightarrow> ingest_service" where
  "sample_service c calls = \<lparr>sv_config = default_config, sv_forwarding = True, sv_limiter = limiter_create 120 None,
     sv_dedupe = Memory c, sv_api_token = None, sv_calls = calls\<rparr>"

definition sample_call :: pydict where
  "sample_call = [(''event_id'', VStr ''a''), (''event_name'', VStr ''n'')]"

definition sample_attempt :: "rat \<Rightarrow> attempt" where
  "sample_attempt t = \<lparr>at_claim = t, at_outcome = Inr (plain_result True (Some 202) ''accepted'' False None), at_settle = t + 1\<rparr>"

lemma sample_begin:
  "process_begin witness_runtime (sample_service (cache_create 86400 100000) []) (sample_attempt 0) sample_call
    = (Inr (Inr (''a'', ''n'')), sample_service ((cache_create 86400 100000)\<lparr>dc_inflight := {''a''}\<rparr>) [sample_call])"
  "process_begin witness_runtime (sample_service ((cache_create 86400 100000)\<lparr>dc_completed := [(''a'', 86401)]\<rparr>) cs)
      (sample_attempt 86402) sample_call
    = (Inr (Inr (''a'', ''n'')), sample_service ((cache_create 86400 100000)\<lparr>dc_inflight := {''a''}\<rparr>) (cs @ [sample_call]))"
  by (simp_all add: process_begin_def sample_service_def sample_call_def sample_attempt_def dict_item_def container_allowed_def
      default_config_def py_text_def cache_claim_def cache_purge_def cache_create_def Let_def)

lemma sample_finish:
  "process_finish (sample_service ((cache_create 86400 100000)\<lparr>dc_inflight := {''a''}\<rparr>) cs) (sample_attempt 0) ''a'' ''n''
    = ((event_outcome ''a'' ''n'' ''forwarded'' True)\<lparr>ir_forwarded := True,
        ir_forward := forward_result_to_dict (plain_result True (Some 202) ''accepted'' False None)\<rparr>,
       sample_service ((cache_create 86400 100000)\<lparr>dc_completed := [(''a'', 86401)]\<rparr>) cs)"
  by (simp add: process_finish_def sample_service_def sample_attempt_def plain_result_def cache_complete_def cache_create_def Let_def)

definition sample_world :: world where
  "sample_world = \<lparr>wd_service = sample_service (cache_create 86400 100000) [], wd_pending = [], wd_log = [], wd_now = 0\<rparr>"

lemma sample_world_start: "world_start sample_env default_config sample_world"
  by (simp add: world_start_def sample_world_def sample_service_def service_create_def service_store_def given_def
      default_config_def sample_env_def)

lemma sample_run:
  "\<exists>w. (serving witness_runtime)\<^sup>*\<^sup>* sample_world w \<and> wd_log w = [Sent ''a'' 86402, Settled ''a'' 1, Sent ''a'' 0]"
proof -
  let ?rt = witness_runtime
  let ?w1 = "sample_world\<lparr>wd_service := sample_service ((cache_create 86400 100000)\<lparr>dc_inflight := {''a''}\<rparr>) [sample_call],
    wd_pending := [(''a'', ''n'')], wd_log := [Sent ''a'' 0], wd_now := 0\<rparr>"
  let ?w2 = "?w1\<lparr>wd_service := sample_service ((cache_create 86400 100000)\<lparr>dc_completed := [(''a'', 86401)]\<rparr>) [sample_call],
    wd_pending := [], wd_log := [Settled ''a'' 1, Sent ''a'' 0], wd_now := 1\<rparr>"
  have a: "at_claim (sample_attempt t) = t" "at_settle (sample_attempt t) = t + 1"
    "\<not> retry_outcome (at_outcome (sample_attempt t))" for t
    by (simp_all add: sample_attempt_def retry_outcome_def plain_result_def)
  have "serving ?rt sample_world ?w1"
    using serving.sent [of ?rt sample_world "sample_attempt 0" sample_call] sample_begin(1) a
    by (simp add: sample_world_def)
  moreover have "serving ?rt ?w1 ?w2"
    using serving.finished [of "''a''" "''n''" ?w1 "sample_attempt 0"] sample_finish a by simp
  moreover have "\<exists>w. serving ?rt ?w2 w \<and> wd_log w = [Sent ''a'' 86402, Settled ''a'' 1, Sent ''a'' 0]"
    using serving.sent [of ?rt ?w2 "sample_attempt 86402" sample_call] sample_begin(2) a by fastforce
  ultimately show ?thesis by (meson converse_rtranclp_into_rtranclp r_into_rtranclp)
qed


text \<open>
  C21: a failure that calls for a retry does not lose the event.  When the forwarder raises or reports a transient failure, the
  answer says retryable, the claim is given back, and the same event is sent again by the next
  attempt, whenever it comes.
\<close>
theorem transient_failure_is_retried:
  assumes "store_ok (sv_dedupe s)" and "process_begin rt s a event = (Inr (Inr (i, name)), s1)"
    and "process_finish s1 a i name = (r, s2)" and "retry_outcome (at_outcome a)" and "at_claim a \<le> at_claim b"
  shows "ir_status r = ''transient_error'' \<and> ir_retryable r \<and> \<not> ir_accepted r
    \<and> (\<exists>s3. process_begin rt s2 b event = (Inr (Inr (i, name)), s3) \<and> sv_calls s3 = sv_calls s1 @ [event])"
proof -
  from begin_sends [OF assms(2,1)] obtain d where c: "store_claim (at_claim a) i (sv_dedupe s) = (''claimed'', d)"
    and s1: "s1 = s\<lparr>sv_dedupe := d, sv_calls := sv_calls s @ [event]\<rparr>" and fwd: "sv_forwarding s"
    and allowed: "container_allowed (sv_config s) event = Inr True" by blast
  have s2: "s2 = s1\<lparr>sv_dedupe := store_release i d\<rparr>" using finish_store [OF assms(3)] assms(4) s1 by simp
  have ok: "store_ok d" "store_ok (store_release i d)"
    using store.claim_ok [OF assms(1) c] store.release_ok by blast+
  obtain answer d' where c': "store_claim (at_claim b) i (store_release i d) = (answer, d')" by fastforce
  from store.claim_view [OF assms(1) c]
  have v: "fst (store_view d (at_claim a)) i = None" by (auto simp: ledger_claim_def split: if_splits)
  have "store_view (store_release i d) (at_claim b) = ledger_release i (ledger_at (at_claim b) (store_view d (at_claim a)))"
    by (simp only: store.release_view [OF ok(1)] store.view_later [OF assms(5), of d])
  with v have "answer = ''claimed''"
    using store.claimed_iff [OF ok(2) c'] by (simp add: ledger_release_def ledger_at_def)
  moreover from assms(2) obtain vi vn where "dict_item event ''event_id'' = Inr vi" "dict_item event ''event_name'' = Inr vn"
    "i = py_text rt vi" "name = py_text rt vn"
    by (auto simp: process_begin_def Let_def bindR_Inr_iff split: sum.splits prod.splits if_splits)
  ultimately have "process_begin rt s2 b event = (Inr (Inr (i, name)), s2\<lparr>sv_dedupe := d', sv_calls := sv_calls s2 @ [event]\<rparr>)"
    using c' allowed fwd by (simp add: process_begin_def s2 s1 Let_def)
  moreover have "sv_calls s2 = sv_calls s1" by (simp add: s2)
  moreover have "ir_status r = ''transient_error'' \<and> ir_retryable r \<and> \<not> ir_accepted r"
    using assms(3,4) by (auto simp: process_finish_def retry_outcome_def event_outcome_def Let_def split: sum.splits if_splits)
  ultimately show ?thesis by simp
qed

theorem transient_failure_is_retried_witness:
  "\<exists>s1 s2 s3 r. process_begin witness_runtime (sample_service (cache_create 86400 100000) [])
       ((sample_attempt 0)\<lparr>at_outcome := Inl (ValueError ''x'')\<rparr>) sample_call = (Inr (Inr (''a'', ''n'')), s1)
     \<and> process_finish s1 ((sample_attempt 0)\<lparr>at_outcome := Inl (ValueError ''x'')\<rparr>) ''a'' ''n'' = (r, s2) \<and> ir_retryable r
     \<and> process_begin witness_runtime s2 (sample_attempt 9) sample_call = (Inr (Inr (''a'', ''n'')), s3)"
proof -
  let ?a = "(sample_attempt 0)\<lparr>at_outcome := Inl (ValueError ''x'')\<rparr>"
  let ?s = "sample_service (cache_create 86400 100000) []"
  have "process_begin witness_runtime ?s ?a sample_call = process_begin witness_runtime ?s (sample_attempt 0) sample_call"
    by (rule begin_attempt) simp_all
  with sample_begin(1) obtain s1 where b: "process_begin witness_runtime ?s ?a sample_call = (Inr (Inr (''a'', ''n'')), s1)" by simp
  obtain r s2 where f: "process_finish s1 ?a ''a'' ''n'' = (r, s2)" by fastforce
  have "store_ok (sv_dedupe ?s)" by (simp add: sample_service_def cache_create_ok)
  moreover have "retry_outcome (at_outcome ?a)" "at_claim ?a \<le> at_claim (sample_attempt 9)"
    by (simp_all add: retry_outcome_def sample_attempt_def)
  ultimately show ?thesis using transient_failure_is_retried [OF _ b f, of "sample_attempt 9"] b f by blast
qed

end
