(* ===== verification/Event_Validation.thy ===== *)
theory Event_Validation
  imports Event_Contract
begin

section \<open>What event validation accepts\<close>

text \<open>
  When each check of the contract finds nothing, and from that what the accepted events are; the normal form
  of an event, which exceptions the checks can raise, and what the loop over a batch collects.
\<close>

subsection \<open>Checks that find nothing\<close>

lemma catR_Nil: "catR rs = Inr [] \<longleftrightarrow> (\<forall>r \<in> set rs. r = Inr [])"
proof (induction rs)
  case (Cons r rs)
  then show ?case
    by (cases r) (auto simp: catR_def bindR_Inr_iff bindR_def split: sum.splits)
qed (simp add: catR_def)

lemma append_Inr_Nil:
  "bindR r (\<lambda>here. bindR s (\<lambda>rest. Inr (here @ rest))) = Inr [] \<longleftrightarrow> r = Inr [] \<and> s = Inr []"
  by (auto simp: bindR_Inr_iff)

lemma check_string_Nil:
  "check_string v fld n (Some p) ws True = [] \<longleftrightarrow>
     (\<exists>s. v = VStr s \<and> s \<noteq> [] \<and> length s \<le> n \<and> \<not> has_control ws s \<and> p s)"
  "check_string v fld n None ws True = [] \<longleftrightarrow>
     (\<exists>s. v = VStr s \<and> s \<noteq> [] \<and> length s \<le> n \<and> \<not> has_control ws s)"
  by (cases v; auto simp: check_string_def)+

lemma key_issues_Nil: "key_issues k c = [] \<longleftrightarrow> property_key_shape k \<and> \<not> is_sensitive_property k"
  by (simp add: key_issues_def)

lemma present_Nil: "present d k f = Inr [] \<longleftrightarrow> (\<forall>v. map_of d k = Some v \<longrightarrow> f v = Inr [])"
  by (simp add: present_def split: option.split)

lemma present_value_Nil:
  "present_value d k f = Inr [] \<longleftrightarrow> (\<forall>v. map_of d k = Some v \<longrightarrow> v \<noteq> VNone \<longrightarrow> f v = Inr [])"
  by (auto simp: present_value_def split: option.split pyval.split)

lemma unknown_issue_Nil: "unknown_issue d known fld = [] \<longleftrightarrow> set (keys d) \<subseteq> set known"
  by (simp add: unknown_issue_def Let_def unknown_keys_empty_iff)

lemma required_issues_Nil: "required_issues d ks p = [] \<longleftrightarrow> (\<forall>k \<in> set ks. map_of d k \<noteq> None)"
  by (auto simp: required_issues_def filter_empty_conv)

lemma member_issue_Nil: "member_issue v xs i = Inr [] \<longleftrightarrow> (\<exists>s \<in> set xs. v = VStr s)"
  by (cases v) (auto simp: member_issue_def in_text_set_def)

lemmas nothing_found = catR_Nil append_Inr_Nil check_string_Nil key_issues_Nil present_Nil present_value_Nil
  unknown_issue_Nil required_issues_Nil member_issue_Nil

subsection \<open>Properties\<close>

text \<open>\<open>occurs v n u\<close>: below \<open>v\<close>, at depth \<open>n\<close>, is the value \<open>u\<close>.\<close>

inductive occurs :: "pyval \<Rightarrow> nat \<Rightarrow> pyval \<Rightarrow> bool" where
  here: "occurs v 0 v"
| item: "x \<in> set xs \<Longrightarrow> occurs x n u \<Longrightarrow> occurs (VList xs) (Suc n) u"
| member: "(k, x) \<in> set d \<Longrightarrow> occurs x n u \<Longrightarrow> occurs (VDict d) (Suc n) u"

inductive_simps occurs_simps: "occurs VNone n u" "occurs (VBool b) n u" "occurs (VInt i) n u" "occurs (VFloat f) n u"
  "occurs (VStr s) n u" "occurs (VList xs) n u" "occurs (VDict d) n u"

fun clean_node :: "pyval \<Rightarrow> bool" where
  "clean_node (VInt i) \<longleftrightarrow> \<not> too_large_int i"
| "clean_node (VFloat f) \<longleftrightarrow> is_finite f"
| "clean_node (VStr s) \<longleftrightarrow> length s \<le> 2048 \<and> \<not> has_control True s"
| "clean_node (VList xs) \<longleftrightarrow> length xs \<le> 100"
| "clean_node (VDict d) \<longleftrightarrow> length d \<le> 50 \<and> (\<forall>k \<in> set (keys d). property_key_shape k \<and> \<not> is_sensitive_property k)"
| "clean_node _ \<longleftrightarrow> True"

definition clean_below :: "nat \<Rightarrow> pyval \<Rightarrow> bool" where
  "clean_below depth v \<longleftrightarrow> (\<forall>n u. occurs v n u \<longrightarrow> depth + n \<le> 5 \<and> clean_node u)"

lemma clean_below_atom:
  "clean_below depth VNone \<longleftrightarrow> depth \<le> 5" "clean_below depth (VBool b) \<longleftrightarrow> depth \<le> 5"
  "clean_below depth (VInt i) \<longleftrightarrow> depth \<le> 5 \<and> \<not> too_large_int i"
  "clean_below depth (VFloat f) \<longleftrightarrow> depth \<le> 5 \<and> is_finite f"
  "clean_below depth (VStr s) \<longleftrightarrow> depth \<le> 5 \<and> length s \<le> 2048 \<and> \<not> has_control True s"
  by (auto simp: clean_below_def occurs_simps)

lemma clean_below_step:
  assumes "\<And>n u. occurs v n u \<longleftrightarrow> n = 0 \<and> u = v \<or> (\<exists>m. n = Suc m \<and> (\<exists>x \<in> A. occurs x m u))"
  shows "clean_below depth v \<longleftrightarrow> depth \<le> 5 \<and> clean_node v \<and> (\<forall>x \<in> A. clean_below (Suc depth) x)"
proof
  assume c: "clean_below depth v"
  have "clean_below (Suc depth) x" if "x \<in> A" for x
    unfolding clean_below_def
  proof (intro allI impI)
    fix n u
    assume "occurs x n u"
    with assms that have "occurs v (Suc n) u" by blast
    with c show "Suc depth + n \<le> 5 \<and> clean_node u" unfolding clean_below_def by fastforce
  qed
  moreover have "occurs v 0 v" by (rule here)
  ultimately show "depth \<le> 5 \<and> clean_node v \<and> (\<forall>x \<in> A. clean_below (Suc depth) x)"
    using c unfolding clean_below_def by fastforce
next
  assume r: "depth \<le> 5 \<and> clean_node v \<and> (\<forall>x \<in> A. clean_below (Suc depth) x)"
  show "clean_below depth v"
    unfolding clean_below_def
  proof (intro allI impI)
    fix n u
    assume "occurs v n u"
    then consider "n = 0" "u = v" | m x where "n = Suc m" "x \<in> A" "occurs x m u" unfolding assms by blast
    then show "depth + n \<le> 5 \<and> clean_node u"
    proof cases
      case 1
      with r show ?thesis by simp
    next
      case 2
      with r have "Suc depth + m \<le> 5 \<and> clean_node u" unfolding clean_below_def by blast
      with 2 show ?thesis by simp
    qed
  qed
qed

lemma clean_below_VList:
  "clean_below depth (VList xs) \<longleftrightarrow> depth \<le> 5 \<and> length xs \<le> 100 \<and> (\<forall>x \<in> set xs. clean_below (Suc depth) x)"
proof -
  have "occurs (VList xs) n u \<longleftrightarrow> n = 0 \<and> u = VList xs \<or> (\<exists>m. n = Suc m \<and> (\<exists>x \<in> set xs. occurs x m u))" for n u
    by (auto simp: occurs_simps)
  from clean_below_step [OF this] show ?thesis by simp
qed

lemma clean_below_VDict:
  "clean_below depth (VDict d) \<longleftrightarrow> depth \<le> 5 \<and> clean_node (VDict d) \<and> (\<forall>x \<in> snd ` set d. clean_below (Suc depth) x)"
proof -
  have "occurs (VDict d) n u \<longleftrightarrow> n = 0 \<and> u = VDict d \<or> (\<exists>m. n = Suc m \<and> (\<exists>x \<in> snd ` set d. occurs x m u))" for n u
    by (force simp: occurs_simps)
  from clean_below_step [OF this] show ?thesis by simp
qed

lemma validate_properties_Nil:
  "validate_properties v fld depth = Inr [] \<longleftrightarrow> clean_below depth v"
  "validate_items xs fld i depth = Inr [] \<longleftrightarrow> (\<forall>x \<in> set xs. clean_below (Suc depth) x)"
  "validate_members d fld depth = Inr [] \<longleftrightarrow> (\<forall>k \<in> set (keys d). property_key_shape k \<and> \<not> is_sensitive_property k)
     \<and> (\<forall>x \<in> snd ` set d. clean_below (Suc depth) x)"
proof (induction v fld depth and xs fld i depth and d fld depth
    rule: validate_properties_validate_items_validate_members.induct)
  case (1 v fld depth)
  show ?case
  proof (cases "depth > MAX_PROPERTY_DEPTH")
    case True
    then show ?thesis
      by (auto simp: validate_properties.simps clean_below_def MAX_PROPERTY_DEPTH_def intro!: exI [of _ 0] here)
  next
    case False
    then show ?thesis
      using 1 by (cases v) (auto simp: validate_properties.simps clean_below_atom clean_below_VList clean_below_VDict is_event_number_def
          MAX_PROPERTY_DEPTH_def MAX_PROPERTY_STRING_def MAX_ARRAY_ITEMS_def MAX_OBJECT_KEYS_def bindR_Inr_iff keys_def
          split: if_splits)
  qed
next
  case (3 x xs fld i depth)
  then show ?case by (auto simp: append_Inr_Nil)
next
  case (5 key x d fld depth)
  let ?child = "if fld \<noteq> [] then fld @ ''.'' @ key else key"
  note ih = "5.IH"(1) [OF HOL.refl]
  show ?case
  proof (cases "validate_properties x ?child (Suc depth)")
    case (Inl e)
    with ih have "\<not> clean_below (Suc depth) x" by simp
    with Inl show ?thesis by (simp add: Let_def)
  next
    case (Inr y)
    from "5.IH"(2) [OF HOL.refl Inr] ih Inr show ?thesis
      by (auto simp: Let_def bindR_Inr_iff key_issues_Nil)
  qed
qed auto

subsection \<open>Timestamps\<close>

lemma nat_str_length: "n < 10 ^ k \<Longrightarrow> 0 < k \<Longrightarrow> length (nat_str n) \<le> k"
proof (induction n arbitrary: k rule: nat_str.induct)
  case (1 n)
  show ?case
  proof (cases "n < 10")
    case True
    with 1(3) show ?thesis by (simp add: nat_str.simps [of n])
  next
    case False
    with 1(2,3) obtain j where j: "k = Suc j" "0 < j" by (cases k; cases "k - 1") auto
    with 1(2) have "n div 10 < 10 ^ j" by (simp add: div_less_iff_less_mult mult.commute)
    from 1(1) [OF False this j(2)] False j show ?thesis by (simp add: nat_str.simps [of n])
  qed
qed

lemma digits_value_zeros: "digits_value (replicate k (CHR ''0'') @ s) = digits_value s"
  by (induction k) (simp_all add: digits_value_def)

lemma padded_props:
  assumes "n < 10 ^ k" and "0 < k"
  shows "length (padded k n) = k" and "list_all is_decimal (padded k n)" and "digits_value (padded k n) = n"
  using nat_str_length [OF assms] nat_str_decimal
  by (auto simp: padded_def Let_def digits_value_zeros list_all_iff is_decimal_def)

lemma millis_of_padded:
  assumes "n < 1000"
  shows "fraction_shape (''.'' @ padded 3 n @ ''Z'')" and "millis_of (''.'' @ padded 3 n @ ''Z'') = n"
proof -
  have p: "length (padded 3 n) = 3" "list_all is_decimal (padded 3 n)" "digits_value (padded 3 n) = n"
    using padded_props [of n 3] assms by simp_all
  then show "fraction_shape (''.'' @ padded 3 n @ ''Z'')" "millis_of (''.'' @ padded 3 n @ ''Z'') = n"
    by (auto simp: fraction_shape_def millis_of_def butlast_append Let_def)
qed

definition whole_millis :: "datetime \<Rightarrow> bool" where
  "whole_millis t \<longleftrightarrow> valid_datetime t \<and> dt_micro t mod 1000 = 0"

lemma days_in_month_le: "days_in_month y m \<le> 31"
  by (simp add: days_in_month_def)

lemma format_parse:
  assumes "whole_millis t"
  shows "parse_timestamp (VStr (format_timestamp t)) = Some t"
proof -
  let ?y = "padded 4 (dt_year t)" and ?mo = "padded 2 (dt_month t)" and ?d = "padded 2 (dt_day t)"
    and ?h = "padded 2 (dt_hour t)" and ?mi = "padded 2 (dt_minute t)" and ?s = "padded 2 (dt_second t)"
  let ?ms = "''.'' @ padded 3 (dt_micro t div 1000) @ ''Z''"
  have v: "dt_year t < 10 ^ 4" "dt_month t < 10 ^ 2" "dt_day t < 10 ^ 2" "dt_hour t < 10 ^ 2" "dt_minute t < 10 ^ 2"
    "dt_second t < 10 ^ 2" "dt_micro t div 1000 < 1000"
    using assms days_in_month_le [of "dt_year t" "dt_month t"] by (auto simp: whole_millis_def valid_datetime_def)
  note p = padded_props [OF v(1)] padded_props [OF v(2)] padded_props [OF v(3)] padded_props [OF v(4)]
    padded_props [OF v(5)] padded_props [OF v(6)]
  define tail where "tail = ?ms"
  have tail: "fraction_shape tail" "millis_of tail = dt_micro t div 1000" "1 \<le> length tail"
    unfolding tail_def using millis_of_padded [OF v(7)] by simp_all
  have printed: "format_timestamp t = ?y @ ''-'' @ ?mo @ ''-'' @ ?d @ ''T'' @ ?h @ '':'' @ ?mi @ '':'' @ ?s @ tail"
    by (simp add: format_timestamp_def tail_def)
  have parts: "take 4 (format_timestamp t) = ?y" "take 2 (drop 5 (format_timestamp t)) = ?mo"
    "take 2 (drop 8 (format_timestamp t)) = ?d" "take 2 (drop 11 (format_timestamp t)) = ?h"
    "take 2 (drop 14 (format_timestamp t)) = ?mi" "take 2 (drop 17 (format_timestamp t)) = ?s"
    "drop 19 (format_timestamp t) = tail"
    "format_timestamp t ! 4 = CHR ''-''" "format_timestamp t ! 7 = CHR ''-''" "format_timestamp t ! 10 = CHR ''T''"
    "format_timestamp t ! 13 = CHR '':''" "format_timestamp t ! 16 = CHR '':''"
    unfolding printed using p tail(3) by (simp_all add: nth_append)
  have len: "20 \<le> length (format_timestamp t)"
    using p tail(3) unfolding printed by (simp del: One_nat_def)
  have "timestamp_shape (format_timestamp t)"
    unfolding timestamp_shape_def parts using p tail(1) len by simp
  moreover have "dt_micro t div 1000 * 1000 = dt_micro t"
    using assms by (auto simp: whole_millis_def)
  moreover have "valid_datetime \<lparr>dt_year = dt_year t, dt_month = dt_month t, dt_day = dt_day t, dt_hour = dt_hour t,
      dt_minute = dt_minute t, dt_second = dt_second t, dt_micro = dt_micro t\<rparr>"
    using assms by (simp add: whole_millis_def valid_datetime_def)
  ultimately show ?thesis
    using assms p tail(2) by (simp add: parse_timestamp_def parts whole_millis_def Let_def)
qed

lemma parse_timestamp_whole: "parse_timestamp v = Some t \<Longrightarrow> whole_millis t"
  by (cases v) (auto simp: parse_timestamp_def whole_millis_def Let_def split: if_splits)

lemma normal_timestamp_Inr:
  "normal_timestamp v = Inr x \<longleftrightarrow> (\<exists>t. parse_timestamp v = Some t \<and> x = VStr (format_timestamp t))"
  by (auto simp: normal_timestamp_def split: option.split)

lemma normal_timestamp_again:
  assumes "normal_timestamp v = Inr x"
  shows "parse_timestamp x = parse_timestamp v" and "normal_timestamp x = Inr x"
  using assms format_parse [OF parse_timestamp_whole] by (auto simp: normal_timestamp_Inr)

subsection \<open>Events\<close>

text \<open>What validation asks of each part of an event.\<close>

definition text_field :: "nat \<Rightarrow> bool \<Rightarrow> (string \<Rightarrow> bool) \<Rightarrow> pyval \<Rightarrow> bool" where
  "text_field n ws p v \<longleftrightarrow> (\<exists>s. v = VStr s \<and> s \<noteq> [] \<and> length s \<le> n \<and> \<not> has_control ws s \<and> p s)"

definition source_ok :: "pyval \<Rightarrow> bool" where
  "source_ok v \<longleftrightarrow> (\<exists>s. v = VDict s \<and> set (keys s) \<subseteq> set SOURCE_FIELDS
     \<and> (\<exists>p \<in> set PLATFORMS. map_of s ''platform'' = Some (VStr p))
     \<and> (\<exists>x. map_of s ''sdk_name'' = Some x \<and> text_field 64 False sdk_name_shape x)
     \<and> (\<exists>x. map_of s ''sdk_version'' = Some x \<and> text_field 32 False sdk_version_shape x)
     \<and> (\<forall>x. map_of s ''app_version'' = Some x \<longrightarrow> text_field 64 False app_version_shape x))"

definition subject_ok :: "pyval \<Rightarrow> bool" where
  "subject_ok v \<longleftrightarrow> (\<exists>s. v = VDict s \<and> set (keys s) \<subseteq> set SUBJECT_FIELDS
     \<and> (\<exists>x. map_of s ''id'' = Some x \<and> text_field MAX_SUBJECT_LENGTH True safe_id_shape x)
     \<and> (\<exists>t \<in> {''user'', ''anonymous''}. map_of s ''type'' = Some (VStr t)))"

definition purposes_ok :: "pyval \<Rightarrow> bool" where
  "purposes_ok v \<longleftrightarrow> (\<exists>ps. v = VDict ps \<and> ps \<noteq> [] \<and> length ps \<le> MAX_CONSENT_PURPOSES
     \<and> (\<forall>p \<in> set ps. event_purpose_shape (fst p) \<and> (\<exists>b. snd p = VBool b)))"

definition consent_ok :: "pyval \<Rightarrow> bool" where
  "consent_ok v \<longleftrightarrow> (\<exists>c. v = VDict c \<and> set (keys c) \<subseteq> set CONSENT_FIELDS
     \<and> (\<exists>x. map_of c ''purposes'' = Some x \<and> purposes_ok x)
     \<and> (\<exists>s \<in> set CONSENT_SOURCES. map_of c ''source'' = Some (VStr s))
     \<and> (\<exists>s \<in> set CONSENT_PROVENANCE. map_of c ''provenance'' = Some (VStr s))
     \<and> (\<forall>x. map_of c ''updated_at'' = Some x \<longrightarrow> x \<noteq> VNone \<longrightarrow> parse_timestamp x \<noteq> None))"

definition correlation_ok :: "pyval \<Rightarrow> bool" where
  "correlation_ok v \<longleftrightarrow> (\<exists>c. v = VDict c \<and> set (keys c) \<subseteq> set CORRELATION_FIELDS
     \<and> (\<forall>k x. map_of c k = Some x \<longrightarrow> text_field MAX_CORRELATION_LENGTH True (\<lambda>_. True) x))"

definition properties_ok :: "pyval \<Rightarrow> bool" where
  "properties_ok v \<longleftrightarrow> (\<exists>d. v = VDict d \<and> length d \<le> MAX_PROPERTIES
     \<and> (\<forall>p \<in> set d. property_key_shape (fst p) \<and> \<not> is_sensitive_property (fst p) \<and> clean_below 0 (snd p)))"

lemma get_or_Some: "get_or d k VNone = x \<Longrightarrow> x \<noteq> VNone \<Longrightarrow> map_of d k = Some x"
  by (auto simp: get_or_def split: option.splits)

lemma present_field:
  "map_of d k \<noteq> None \<and> f (get_or d k VNone) \<longleftrightarrow> (\<exists>x. map_of d k = Some x \<and> f x)"
  by (auto simp: get_or_def)

lemma source_issues_Nil: "source_issues v = Inr [] \<longleftrightarrow> source_ok v"
  by (cases v) (auto simp: source_issues_def source_ok_def nothing_found text_field_def get_or_def
      split: option.splits)

lemma subject_issues_Nil: "subject_issues v = Inr [] \<longleftrightarrow> subject_ok v"
  by (cases v) (auto simp: subject_issues_def subject_ok_def nothing_found text_field_def get_or_def
      split: option.splits)

lemma purpose_issues_Nil: "purpose_issues p = [] \<longleftrightarrow> event_purpose_shape (fst p) \<and> (\<exists>b. snd p = VBool b)"
  by (cases "snd p") (auto simp: purpose_issues_def Let_def)

lemma purposes_issues_Nil: "purposes_issues v = [] \<longleftrightarrow> purposes_ok v"
  by (cases v) (auto simp: purposes_issues_def purposes_ok_def purpose_issues_Nil split: list.splits)

lemma consent_issues_Nil: "consent_issues v = Inr [] \<longleftrightarrow> consent_ok v"
  by (cases v) (auto simp: consent_issues_def consent_ok_def nothing_found purposes_issues_Nil get_or_def Let_def
      split: option.splits)

lemma correlation_issues_Nil: "correlation_issues v = Inr [] \<longleftrightarrow> correlation_ok v"
proof (cases v)
  case (VDict c)
  show ?thesis
  proof (cases "set (keys c) \<subseteq> set CORRELATION_FIELDS")
    case True
    have "map_of c k = Some x \<Longrightarrow> k = ''correlation_id'' \<or> k = ''session_id''" for k x
      using True by (force simp: CORRELATION_FIELDS_def keys_def dest: map_of_SomeD)
    then have "(\<forall>k x. map_of c k = Some x \<longrightarrow> P x) \<longleftrightarrow>
        (\<forall>x. map_of c ''correlation_id'' = Some x \<longrightarrow> P x) \<and> (\<forall>x. map_of c ''session_id'' = Some x \<longrightarrow> P x)" for P
      by blast
    with True VDict show ?thesis
      by (simp add: correlation_issues_def correlation_ok_def nothing_found text_field_def)
  next
    case False
    with VDict show ?thesis
      by (auto simp: correlation_issues_def correlation_ok_def nothing_found)
  qed
qed (auto simp: correlation_issues_def correlation_ok_def)

lemma properties_issues_Nil: "properties_issues v = Inr [] \<longleftrightarrow> properties_ok v"
proof (cases v)
  case (VDict d)
  have "property_issues p = Inr [] \<longleftrightarrow>
      property_key_shape (fst p) \<and> \<not> is_sensitive_property (fst p) \<and> clean_below 0 (snd p)" for p
    by (auto simp: property_issues_def Let_def bindR_Inr_iff key_issues_Nil validate_properties_Nil)
  with VDict show ?thesis
    by (simp add: properties_issues_def properties_ok_def catR_Nil)
qed (auto simp: properties_issues_def properties_ok_def)

text \<open>The events without issues.\<close>

definition good_event :: "py_runtime \<Rightarrow> datetime \<Rightarrow> nat option \<Rightarrow> nat \<Rightarrow> pydict \<Rightarrow> bool" where
  "good_event rt now skew bytes d \<longleftrightarrow> utf8_length (event_json rt (VDict d)) \<le> bytes
     \<and> set (keys d) \<subseteq> set TOP_LEVEL_FIELDS
     \<and> map_of d ''schema_version'' = Some (VStr CONTRACT_SCHEMA_VERSION)
     \<and> (\<exists>x. map_of d ''event_id'' = Some x \<and> text_field 36 False event_id_shape x)
     \<and> (\<exists>x. map_of d ''event_name'' = Some x \<and> text_field MAX_EVENT_NAME_LENGTH False event_name_shape x)
     \<and> (\<exists>x. map_of d ''timestamp'' = Some x \<and> timestamp_issues now skew x = [])
     \<and> (\<exists>x. map_of d ''source'' = Some x \<and> source_ok x)
     \<and> (\<exists>x. map_of d ''container_id'' = Some x \<and> text_field 128 False event_container_shape x)
     \<and> (\<forall>x. map_of d ''config_version'' = Some x \<longrightarrow> x \<noteq> VNone \<longrightarrow> text_field 128 False config_version_shape x)
     \<and> (\<forall>x. map_of d ''subject'' = Some x \<longrightarrow> x \<noteq> VNone \<longrightarrow> subject_ok x)
     \<and> (\<forall>x. map_of d ''consent'' = Some x \<longrightarrow> x \<noteq> VNone \<longrightarrow> consent_ok x)
     \<and> (\<forall>x. map_of d ''correlation'' = Some x \<longrightarrow> x \<noteq> VNone \<longrightarrow> correlation_ok x)
     \<and> (\<exists>x. map_of d ''properties'' = Some x \<and> properties_ok x)"

lemma validate_event_Nil:
  "validate_event rt now skew bytes raw = Inr [] \<longleftrightarrow> (\<exists>d. raw = VDict d \<and> good_event rt now skew bytes d)"
proof (cases raw)
  case (VDict d)
  have size: "size_issues rt d bytes = [] \<longleftrightarrow> utf8_length (event_json rt (VDict d)) \<le> bytes"
    by (auto simp: size_issues_def)
  have schema: "schema_issues d = Inr [] \<longleftrightarrow> (\<forall>v. map_of d ''schema_version'' = Some v \<longrightarrow> v = VStr CONTRACT_SCHEMA_VERSION)"
    by (auto simp: schema_issues_def present_def split: option.split)
  have field: "check_string v fld n (Some p) ws True = [] \<longleftrightarrow> text_field n ws p v" for v fld n p ws
    by (simp add: check_string_Nil text_field_def)
  have required: "required_issues d REQUIRED_FIELDS [] = [] \<longleftrightarrow> map_of d ''schema_version'' \<noteq> None
      \<and> map_of d ''event_id'' \<noteq> None \<and> map_of d ''event_name'' \<noteq> None \<and> map_of d ''timestamp'' \<noteq> None
      \<and> map_of d ''source'' \<noteq> None \<and> map_of d ''container_id'' \<noteq> None \<and> map_of d ''properties'' \<noteq> None"
    by (simp add: required_issues_Nil REQUIRED_FIELDS_def)
  have "validate_event rt now skew bytes raw = Inr [] \<longleftrightarrow> good_event rt now skew bytes d"
    unfolding VDict validate_event_def pyval.case catR_Nil good_event_def
    by (simp add: size schema field required unknown_issue_Nil present_Nil present_value_Nil source_issues_Nil
        subject_issues_Nil consent_issues_Nil correlation_issues_Nil properties_issues_Nil) fastforce
  with VDict show ?thesis by simp
qed (auto simp: validate_event_def)

subsection \<open>Normalisation\<close>

lemma map_of_pick: "map_of (pick d ks) k = (if k \<in> set ks then map_of d k else None)"
  by (induction ks) (auto simp: pick_def split: option.split)

lemma pick_pick: "pick (pick d ks) ks = pick d ks"
proof -
  have "pick (pick d ks) js = pick d js" if "set js \<subseteq> set ks" for js
    using that
  proof (induction js)
    case (Cons k js)
    then show ?case using map_of_pick [of d ks k] by (simp add: pick_def)
  qed (simp add: pick_def)
  then show ?thesis by simp
qed

lemma keys_pick: "set (keys (pick d ks)) \<subseteq> set ks"
  by (induction ks) (auto simp: pick_def keys_def split: option.splits)

lemma optional_entry_cases:
  assumes "optional_entry d k f = Inr l"
  obtains "l = []" "\<And>v. map_of d k = Some v \<Longrightarrow> v = VNone"
  | v x where "map_of d k = Some v" "v \<noteq> VNone" "f v = Inr x" "l = [(k, x)]"
  using assms by (auto simp: optional_entry_def bindR_Inr_iff split: option.splits pyval.splits)

lemma source_ok_pick: "source_ok (VDict s) \<Longrightarrow> source_ok (VDict (pick s SOURCE_FIELDS))"
  using keys_pick [of s SOURCE_FIELDS] by (auto simp: source_ok_def map_of_pick SOURCE_FIELDS_def)

lemma correlation_ok_pick: "correlation_ok (VDict c) \<Longrightarrow> correlation_ok (VDict (pick c CORRELATION_FIELDS))"
  using keys_pick [of c CORRELATION_FIELDS] by (auto simp: correlation_ok_def map_of_pick split: if_splits)

lemma subject_normal:
  assumes "subject_ok v"
  shows "\<exists>x. normal_subject v = Inr x \<and> subject_ok x \<and> normal_subject x = Inr x"
  using assms
  by (auto simp: subject_ok_def normal_subject_def sub_dict_def dict_item_def SUBJECT_FIELDS_def)

lemma purposes_normal:
  assumes "purposes_ok v"
  shows "\<exists>x. normal_purposes v = Inr x \<and> purposes_ok x \<and> normal_purposes x = Inr x"
proof -
  from assms obtain ps where ps: "v = VDict ps" "ps \<noteq> []" "length ps \<le> MAX_CONSENT_PURPOSES"
    "\<forall>p \<in> set ps. event_purpose_shape (fst p) \<and> (\<exists>b. snd p = VBool b)" by (auto simp: purposes_ok_def)
  let ?n = "map (\<lambda>p. (fst p, VBool (truthy (snd p)))) (sort_key fst ps)"
  have "map (\<lambda>p. (fst p, VBool (truthy (snd p)))) ps = ps"
    using ps(4) by (intro map_idI) auto
  have same: "?n = sort_key fst ps"
    using ps(4) by (intro map_idI) auto
  have "sort_key fst (sort_key fst ps) = sort_key fst ps"
    by (rule sort_key_id_if_sorted) (rule sorted_sort_key)
  then have "map (\<lambda>p. (fst p, VBool (truthy (snd p)))) (sort_key fst (sort_key fst ps)) = sort_key fst ps"
    using same by simp
  moreover have "purposes_ok (VDict (sort_key fst ps))"
    using ps(2-4) by (auto simp: purposes_ok_def dest: arg_cong [of _ _ length])
  ultimately show ?thesis
    using ps(1) same by (simp add: normal_purposes_def sub_dict_def)
qed

lemma consent_normal:
  assumes "consent_ok v"
  shows "\<exists>x. normal_consent v = Inr x \<and> consent_ok x \<and> normal_consent x = Inr x"
proof -
  from assms obtain c ps s p where c: "v = VDict c" "map_of c ''purposes'' = Some ps" "purposes_ok ps"
    "s \<in> set CONSENT_SOURCES" "map_of c ''source'' = Some (VStr s)" "p \<in> set CONSENT_PROVENANCE"
    "map_of c ''provenance'' = Some (VStr p)"
    and t: "\<And>x. map_of c ''updated_at'' = Some x \<Longrightarrow> x \<noteq> VNone \<Longrightarrow> parse_timestamp x \<noteq> None"
    by (auto simp: consent_ok_def)
  from purposes_normal [OF c(3)] obtain ps' where ps: "normal_purposes ps = Inr ps'" "purposes_ok ps'"
    "normal_purposes ps' = Inr ps'" by blast
  let ?fixed = "[(''purposes'', ps'), (''source'', VStr s), (''provenance'', VStr p)]"
  show ?thesis
  proof (cases "get_or c ''updated_at'' VNone = VNone")
    case True
    then have "normal_consent v = Inr (VDict ?fixed)"
      using c ps(1) by (simp add: normal_consent_def sub_dict_def dict_item_def Let_def)
    moreover have "normal_consent (VDict ?fixed) = Inr (VDict ?fixed)"
      using ps(3) by (simp add: normal_consent_def sub_dict_def dict_item_def Let_def get_or_def)
    moreover have "consent_ok (VDict ?fixed)"
      using c ps(2) by (simp add: consent_ok_def CONSENT_FIELDS_def)
    ultimately show ?thesis by blast
  next
    case False
    then obtain u where u: "map_of c ''updated_at'' = Some u" "u \<noteq> VNone"
      by (auto simp: get_or_def split: option.splits)
    with t obtain d where "parse_timestamp u = Some d" by blast
    then obtain x where x: "normal_timestamp u = Inr x" "parse_timestamp u \<noteq> None" by (simp add: normal_timestamp_def)
    note again = normal_timestamp_again [OF x(1)]
    from x(1) have "x \<noteq> VNone" by (auto simp: normal_timestamp_Inr)
    let ?all = "?fixed @ [(''updated_at'', x)]"
    from u x have "normal_consent v = Inr (VDict ?all)"
      using c ps(1) by (simp add: normal_consent_def sub_dict_def dict_item_def Let_def get_or_def)
    moreover have "normal_consent (VDict ?all) = Inr (VDict ?all)"
      using ps(3) again(2) \<open>x \<noteq> VNone\<close> by (simp add: normal_consent_def sub_dict_def dict_item_def Let_def get_or_def)
    moreover have "consent_ok (VDict ?all)"
      using c ps(2) again(1) x(2) by (simp add: consent_ok_def CONSENT_FIELDS_def)
    ultimately show ?thesis by blast
  qed
qed

lemma optional_normal:
  assumes "\<And>v. map_of d k = Some v \<Longrightarrow> v \<noteq> VNone \<Longrightarrow> ok v"
    and "\<And>v. ok v \<Longrightarrow> \<exists>x. f v = Inr x \<and> ok x \<and> f x = Inr x" and "\<not> ok VNone"
  shows "\<exists>l. optional_entry d k f = Inr l \<and> set (keys l) \<subseteq> {k} \<and> (\<forall>x. map_of l k = Some x \<longrightarrow> ok x)
    \<and> optional_entry l k f = Inr l"
proof (cases "get_or d k VNone = VNone")
  case True
  then have "optional_entry d k f = Inr []" by (auto simp: optional_entry_def get_or_def split: option.splits)
  then show ?thesis by (simp add: optional_entry_def)
next
  case False
  then obtain v where v: "map_of d k = Some v" "v \<noteq> VNone" by (auto simp: get_or_def split: option.splits)
  with assms(1,2) obtain x where x: "f v = Inr x" "ok x" "f x = Inr x" by blast
  with assms(3) have "x \<noteq> VNone" by blast
  then have "optional_entry [(k, x)] k f = Inr [(k, x)]"
    using x(3) by (cases x) (simp_all add: optional_entry_def)
  moreover have "optional_entry d k f = Inr [(k, x)]"
    using v x(1) by (cases v) (simp_all add: optional_entry_def)
  ultimately show ?thesis using x(2) by simp
qed

lemma optional_entry_cong: "map_of d k = map_of e k \<Longrightarrow> optional_entry d k f = optional_entry e k f"
  by (simp add: optional_entry_def)

lemma map_of_other: "set (keys l) \<subseteq> {k} \<Longrightarrow> j \<noteq> k \<Longrightarrow> map_of l j = None"
  by (auto simp: map_of_eq_None_keys)

text \<open>The normal form of a good event: the same values, and a normal form itself.\<close>

definition normal_form_of :: "pydict \<Rightarrow> pydict \<Rightarrow> bool" where
  "normal_form_of d n \<longleftrightarrow> set (keys n) \<subseteq> set TOP_LEVEL_FIELDS
     \<and> map_of n ''schema_version'' = Some (VStr CONTRACT_SCHEMA_VERSION)
     \<and> (\<forall>k \<in> {''event_id'', ''event_name'', ''container_id'', ''config_version'', ''properties''}. map_of n k = map_of d k)
     \<and> (\<exists>x y. map_of d ''timestamp'' = Some x \<and> map_of n ''timestamp'' = Some y \<and> parse_timestamp y = parse_timestamp x)
     \<and> (\<exists>x. map_of n ''source'' = Some x \<and> source_ok x) \<and> (\<forall>x. map_of n ''subject'' = Some x \<longrightarrow> subject_ok x)
     \<and> (\<forall>x. map_of n ''consent'' = Some x \<longrightarrow> consent_ok x)
     \<and> (\<forall>x. map_of n ''correlation'' = Some x \<longrightarrow> correlation_ok x) \<and> normal_event n = Inr n"

lemma normal_event_good:
  assumes "good_event rt now skew bytes d"
  shows "\<exists>n. normal_event d = Inr n \<and> normal_form_of d n"
proof -
  from assms obtain i e t s c ps where f: "map_of d ''event_id'' = Some i" "map_of d ''event_name'' = Some e"
    "map_of d ''timestamp'' = Some t" "timestamp_issues now skew t = []" "map_of d ''source'' = Some (VDict s)"
    "source_ok (VDict s)" "map_of d ''container_id'' = Some c" "map_of d ''properties'' = Some (VDict ps)"
    by (auto simp: good_event_def source_ok_def properties_ok_def)
  have sub: "\<And>v. map_of d ''subject'' = Some v \<Longrightarrow> v \<noteq> VNone \<Longrightarrow> subject_ok v"
    and con: "\<And>v. map_of d ''consent'' = Some v \<Longrightarrow> v \<noteq> VNone \<Longrightarrow> consent_ok v"
    and cor: "\<And>v. map_of d ''correlation'' = Some v \<Longrightarrow> v \<noteq> VNone \<Longrightarrow> correlation_ok v"
    using assms by (auto simp: good_event_def)
  let ?cor = "\<lambda>v. bindR (sub_dict v) (\<lambda>c. Inr (VDict (pick c CORRELATION_FIELDS)))"
  have cor_normal: "\<exists>x. ?cor v = Inr x \<and> correlation_ok x \<and> ?cor x = Inr x" if "correlation_ok v" for v
  proof -
    from that obtain c where "v = VDict c" by (auto simp: correlation_ok_def)
    with that correlation_ok_pick show ?thesis by (simp add: sub_dict_def pick_pick)
  qed
  have none: "\<not> subject_ok VNone" "\<not> consent_ok VNone" "\<not> correlation_ok VNone"
    by (simp_all add: subject_ok_def consent_ok_def correlation_ok_def)
  obtain l1 where l1: "optional_entry d ''subject'' normal_subject = Inr l1" "set (keys l1) \<subseteq> {''subject''}"
    "\<forall>x. map_of l1 ''subject'' = Some x \<longrightarrow> subject_ok x" "optional_entry l1 ''subject'' normal_subject = Inr l1"
    using optional_normal [OF sub subject_normal none(1)] by blast
  obtain l2 where l2: "optional_entry d ''consent'' normal_consent = Inr l2" "set (keys l2) \<subseteq> {''consent''}"
    "\<forall>x. map_of l2 ''consent'' = Some x \<longrightarrow> consent_ok x" "optional_entry l2 ''consent'' normal_consent = Inr l2"
    using optional_normal [OF con consent_normal none(2)] by blast
  obtain l3 where l3: "optional_entry d ''correlation'' ?cor = Inr l3" "set (keys l3) \<subseteq> {''correlation''}"
    "\<forall>x. map_of l3 ''correlation'' = Some x \<longrightarrow> correlation_ok x" "optional_entry l3 ''correlation'' ?cor = Inr l3"
    using optional_normal [OF cor cor_normal none(3)] by blast
  from f(4) obtain td where "parse_timestamp t = Some td" by (auto simp: timestamp_issues_def split: option.splits)
  then obtain t' where t': "normal_timestamp t = Inr t'" by (simp add: normal_timestamp_def)
  note again = normal_timestamp_again [OF t']
  let ?cfg = "pick d [''config_version'']"
  define n where "n = [(''schema_version'', VStr CONTRACT_SCHEMA_VERSION), (''event_id'', i), (''event_name'', e),
      (''timestamp'', t'), (''source'', VDict (pick s SOURCE_FIELDS)), (''container_id'', c)]
    @ ?cfg @ l1 @ l2 @ l3 @ [(''properties'', VDict ps)]"
  have run: "normal_event d = Inr n"
    using f t' l1(1) l2(1) l3(1) by (simp add: normal_event_def dict_item_def sub_dict_def n_def)
  have cfg: "map_of ?cfg k = (if k = ''config_version'' then map_of d k else None)" for k by (simp add: map_of_pick)
  note other = map_of_other [OF l1(2)] map_of_other [OF l2(2)] map_of_other [OF l3(2)]
  have at: "map_of n ''schema_version'' = Some (VStr CONTRACT_SCHEMA_VERSION)" "map_of n ''event_id'' = Some i"
    "map_of n ''event_name'' = Some e" "map_of n ''timestamp'' = Some t'"
    "map_of n ''source'' = Some (VDict (pick s SOURCE_FIELDS))" "map_of n ''container_id'' = Some c"
    "map_of n ''config_version'' = map_of d ''config_version''" "map_of n ''subject'' = map_of l1 ''subject''"
    "map_of n ''consent'' = map_of l2 ''consent''" "map_of n ''correlation'' = map_of l3 ''correlation''"
    "map_of n ''properties'' = Some (VDict ps)"
    by (simp_all add: n_def map_add_def cfg other split: option.split)
  have "normal_event n = Inr n"
  proof -
    have "pick n [''config_version''] = ?cfg" by (simp add: pick_def at(7))
    then show ?thesis
      using f(8) again(2) l1(4) l2(4) l3(4)
      by (simp add: normal_event_def dict_item_def sub_dict_def at pick_pick
          optional_entry_cong [OF at(8)] optional_entry_cong [OF at(9)] optional_entry_cong [OF at(10)])
        (simp add: n_def)
  qed
  moreover have "set (keys n) \<subseteq> set TOP_LEVEL_FIELDS"
    using keys_pick [of d "[''config_version'']"] l1(2) l2(2) l3(2)
    by (auto simp: n_def keys_def TOP_LEVEL_FIELDS_def)
  ultimately have "normal_form_of d n"
    using f at again(1) l1(3) l2(3) l3(3) source_ok_pick [OF f(6)] by (simp add: normal_form_of_def)
  with run show ?thesis by blast
qed

lemma normal_form_good:
  assumes "good_event rt now skew bytes d" and "normal_form_of d n" and "utf8_length (event_json rt (VDict n)) \<le> bytes"
  shows "good_event rt now skew bytes n"
proof -
  from assms(2) obtain x y where t: "map_of d ''timestamp'' = Some x" "map_of n ''timestamp'' = Some y" "parse_timestamp y = parse_timestamp x"
    by (auto simp: normal_form_of_def)
  with assms(1) have "timestamp_issues now skew y = []"
    by (auto simp: good_event_def timestamp_issues_def)
  with t(2) assms show ?thesis
    unfolding good_event_def normal_form_of_def by simp
qed

lemma parse_event_Inr:
  "parse_event rt now skew bytes raw = Inr (Inr n) \<longleftrightarrow>
     (\<exists>d. raw = VDict d \<and> good_event rt now skew bytes d \<and> normal_event d = Inr n)"
proof -
  have "parse_event rt now skew bytes raw = Inr (Inr n) \<longleftrightarrow>
      validate_event rt now skew bytes raw = Inr [] \<and> bindR (sub_dict raw) normal_event = Inr n"
    by (auto simp: parse_event_def bindR_Inr_iff split: if_splits)
  then show ?thesis by (auto simp: validate_event_Nil sub_dict_def)
qed

subsection \<open>Exceptions\<close>

lemma catR_Inl:
  assumes "catR rs = Inl e"
  shows "Inl e \<in> set rs"
proof -
  have "mapR (\<lambda>r. r) rs = Inl e \<Longrightarrow> Inl e \<in> set rs" by (auto dest: mapR_Inl_exn)
  with assms show ?thesis by (auto simp: catR_def bindR_Inl_iff)
qed

lemma catR_raises:
  assumes "Inl e \<in> set rs"
  shows "\<exists>e'. catR rs = Inl e'"
proof -
  have "\<exists>e'. mapR (\<lambda>r. r) rs = Inl e'" using assms mapR_Inl_iff [of "\<lambda>r. r" rs] by blast
  then show ?thesis by (auto simp: catR_def)
qed

definition contract_exn :: "exn \<Rightarrow> bool" where
  "contract_exn e \<longleftrightarrow> (\<exists>m. e = TypeError m \<or> e = OverflowError m)"

lemma member_issue_Inl: "member_issue v xs i = Inl e \<Longrightarrow> contract_exn e"
  by (auto simp: member_issue_def in_text_set_def contract_exn_def bindR_Inl_iff split: pyval.splits)

lemma validate_properties_Inl:
  "validate_properties v fld depth = Inl e \<Longrightarrow> contract_exn e"
  "validate_items xs fld i depth = Inl e \<Longrightarrow> contract_exn e"
  "validate_members d fld depth = Inl e \<Longrightarrow> contract_exn e"
proof (induction v fld depth and xs fld i depth and d fld depth
    rule: validate_properties_validate_items_validate_members.induct)
  case (1 v fld depth)
  then show ?case
    by (cases v) (auto simp: validate_properties.simps bindR_Inl_iff is_event_number_def contract_exn_def split: if_splits)
next
  case (3 x xs fld i depth)
  then show ?case by (auto simp: bindR_Inl_iff)
next
  case (5 key x d fld depth)
  from 5(3) consider "validate_properties x (if fld \<noteq> [] then fld @ ''.'' @ key else key) (Suc depth) = Inl e"
    | "validate_members d fld depth = Inl e" by (auto simp: bindR_Inl_iff Let_def)
  then show ?case
  proof cases
    case 1
    from 5(1) [OF HOL.refl 1] show ?thesis .
  next
    case 2
    with 5(3) obtain y where "validate_properties x (if fld \<noteq> [] then fld @ ''.'' @ key else key) (Suc depth) = Inr y
        \<or> contract_exn e"
      using 5(1) [OF HOL.refl] by (cases "validate_properties x (if fld \<noteq> [] then fld @ ''.'' @ key else key) (Suc depth)")
        (auto simp: Let_def)
    then show ?thesis using 5(2) [OF HOL.refl] 2 by blast
  qed
qed auto

lemma member_issue_raised: "Inl e = member_issue v xs i \<Longrightarrow> contract_exn e"
  by (rule member_issue_Inl) (erule sym)

lemma present_pure: "Inl e \<noteq> present d k (\<lambda>x. Inr (f x))" "Inl e \<noteq> present_value d k (\<lambda>x. Inr (f x))"
  by (simp_all add: present_def present_value_def split: option.split pyval.split)

lemma property_issues_Inl: "Inl e = property_issues p \<Longrightarrow> contract_exn e"
  by (drule sym) (auto simp: property_issues_def Let_def bindR_Inl_iff dest: validate_properties_Inl split: if_splits)

lemma validate_event_Inl:
  assumes "validate_event rt now skew bytes raw = Inl e"
  shows "contract_exn e"
proof -
  obtain d where raw: "raw = VDict d" using assms by (cases raw) (auto simp: validate_event_def)
  have props: "properties_issues v = Inl e \<Longrightarrow> contract_exn e" for v
    by (cases v) (auto simp: properties_issues_def dest!: catR_Inl dest: property_issues_Inl)
  have source: "contract_exn e" if "source_issues v = Inl e" for v
    using that by (cases v) (auto simp: source_issues_def present_pure dest!: catR_Inl dest: member_issue_raised)
  have subject: "contract_exn e" if "subject_issues v = Inl e" for v
    using that by (cases v) (auto simp: subject_issues_def present_pure dest!: catR_Inl dest: member_issue_raised)
  have consent: "contract_exn e" if "consent_issues v = Inl e" for v
    using that by (cases v) (auto simp: consent_issues_def present_pure dest!: catR_Inl dest: member_issue_raised)
  have correlation: "contract_exn e" if "correlation_issues v = Inl e" for v
    using that by (cases v) (auto simp: correlation_issues_def present_pure dest!: catR_Inl)
  have raised: "contract_exn e" if "Inl e = present d k f \<or> Inl e = present_value d k f" and "\<And>v. f v = Inl e \<Longrightarrow> contract_exn e" for k f
    using that by (auto simp: present_def present_value_def split: option.splits pyval.splits)
  from assms have "catR [Inr (size_issues rt d bytes), Inr (unknown_issue d TOP_LEVEL_FIELDS ''$''),
      Inr (required_issues d REQUIRED_FIELDS []), schema_issues d,
      present d ''event_id'' (\<lambda>v. Inr (check_string v ''event_id'' 36 (Some event_id_shape) False True)),
      present d ''event_name'' (\<lambda>v. Inr (check_string v ''event_name'' MAX_EVENT_NAME_LENGTH (Some event_name_shape) False True)),
      present d ''timestamp'' (\<lambda>v. Inr (timestamp_issues now skew v)), present d ''source'' source_issues,
      present d ''container_id'' (\<lambda>v. Inr (check_string v ''container_id'' 128 (Some event_container_shape) False True)),
      present_value d ''config_version''
        (\<lambda>v. Inr (check_string v ''config_version'' 128 (Some config_version_shape) False True)),
      present_value d ''subject'' subject_issues, present_value d ''consent'' consent_issues,
      present_value d ''correlation'' correlation_issues, present d ''properties'' properties_issues] = Inl e"
    by (simp add: validate_event_def raw)
  from catR_Inl [OF this] consider "Inl e = present d ''source'' source_issues"
    | "Inl e = present_value d ''subject'' subject_issues" | "Inl e = present_value d ''consent'' consent_issues"
    | "Inl e = present_value d ''correlation'' correlation_issues" | "Inl e = present d ''properties'' properties_issues"
    by (auto simp: schema_issues_def present_pure)
  then show ?thesis
  proof cases
    case 1
    show ?thesis by (rule raised [OF disjI1 [OF 1] source])
  next
    case 2
    show ?thesis by (rule raised [OF disjI2 [OF 2] subject])
  next
    case 3
    show ?thesis by (rule raised [OF disjI2 [OF 3] consent])
  next
    case 4
    show ?thesis by (rule raised [OF disjI2 [OF 4] correlation])
  next
    case 5
    show ?thesis by (rule raised [OF disjI1 [OF 5] props])
  qed
qed

lemma parse_event_Inl:
  assumes "parse_event rt now skew bytes raw = Inl e"
  shows "contract_exn e"
proof (cases "validate_event rt now skew bytes raw")
  case (Inl e')
  with assms validate_event_Inl show ?thesis by (simp add: parse_event_def)
next
  case (Inr issues)
  show ?thesis
  proof (cases "issues = []")
    case True
    with Inr obtain d where d: "raw = VDict d" "good_event rt now skew bytes d" by (auto simp: validate_event_Nil)
    from normal_event_good [OF d(2)] obtain n where "normal_event d = Inr n" by blast
    with assms Inr True d(1) show ?thesis by (simp add: parse_event_def sub_dict_def)
  next
    case False
    with assms Inr show ?thesis by (simp add: parse_event_def)
  qed
qed

lemma list_platform_raises:
  assumes "map_of d ''source'' = Some (VDict s)" and "map_of s ''platform'' = Some (VList xs)"
  shows "\<exists>e. parse_event rt now skew bytes (VDict d) = Inl e"
proof -
  have "member_issue (VList xs) PLATFORMS i = Inl (TypeError (''unhashable type: '' @ repr_str ''list''))" for i
    by (simp add: member_issue_def in_text_set_def)
  then obtain e where "source_issues (VDict s) = Inl e"
    using assms(2) catR_raises [of "TypeError (''unhashable type: '' @ repr_str ''list'')"]
    unfolding source_issues_def by (fastforce simp: get_or_def)
  then have "present d ''source'' source_issues = Inl e" using assms(1) by (simp add: present_def)
  then obtain e' where "validate_event rt now skew bytes (VDict d) = Inl e'"
    using catR_raises [of e] unfolding validate_event_def by fastforce
  then show ?thesis by (simp add: parse_event_def)
qed

subsection \<open>Batches\<close>

definition accepted_of :: "event_result list \<Rightarrow> pydict list" where
  "accepted_of rs = List.map_filter (\<lambda>r. case r of Inr n \<Rightarrow> Some n | Inl _ \<Rightarrow> None) rs"

definition rejected_of :: "nat \<Rightarrow> event_result list \<Rightarrow> (nat \<times> event_issue list) list" where
  "rejected_of i rs = List.map_filter (\<lambda>(j, r). case r of Inl issues \<Rightarrow> Some (j, issues) | Inr _ \<Rightarrow> None) (enumerate i rs)"

lemma batch_loop_Inr:
  "batch_loop parse i es = Inr (accepted, rejected) \<longleftrightarrow>
     (\<exists>rs. mapR parse es = Inr rs \<and> accepted = accepted_of rs \<and> rejected = rejected_of i rs)"
proof (induction es arbitrary: i accepted rejected)
  case Nil
  then show ?case by (auto simp: accepted_of_def rejected_of_def map_filter_simps)
next
  case (Cons e es)
  show ?case
  proof (cases "parse e")
    case (Inr r)
    have "batch_loop parse i (e # es) = Inr (accepted, rejected) \<longleftrightarrow>
      (\<exists>a q. batch_loop parse (Suc i) es = Inr (a, q)
         \<and> (case r of Inr n \<Rightarrow> (n # a, q) | Inl issues \<Rightarrow> (a, (i, issues) # q)) = (accepted, rejected))"
      by (auto simp: Inr bindR_Inr_iff)
    also have "\<dots> \<longleftrightarrow> (\<exists>rs. mapR parse es = Inr rs
         \<and> (case r of Inr n \<Rightarrow> (n # accepted_of rs, rejected_of (Suc i) rs)
           | Inl issues \<Rightarrow> (accepted_of rs, (i, issues) # rejected_of (Suc i) rs)) = (accepted, rejected))"
      by (auto simp: Cons.IH)
    also have "\<dots> \<longleftrightarrow> (\<exists>rs. mapR parse es = Inr rs \<and> accepted = accepted_of (r # rs) \<and> rejected = rejected_of i (r # rs))"
      by (cases r) (auto simp: accepted_of_def rejected_of_def map_filter_simps)
    finally show ?thesis by (auto simp: Inr bindR_Inr_iff)
  qed simp
qed

lemma batch_loop_Inl: "(\<exists>e. batch_loop parse i es = Inl e) \<longleftrightarrow> (\<exists>x \<in> set es. \<exists>e. parse x = Inl e)"
proof (induction es arbitrary: i)
  case (Cons x es)
  show ?case
  proof (cases "parse x")
    case (Inr r)
    have "(\<exists>e. batch_loop parse i (x # es) = Inl e) \<longleftrightarrow> (\<exists>e. batch_loop parse (Suc i) es = Inl e)"
      by (simp add: Inr bindR_Inl_iff split_def)
    with Cons.IH Inr show ?thesis by simp
  qed simp
qed simp

end
