(* ===== verification/Event_Safety.thy ===== *)
theory Event_Safety
  imports Event_Validation
begin

section \<open>What the event contract guarantees\<close>

text \<open>
  An accepted event has exactly the shape of the contract, at every depth of its properties;
  normalising it again changes nothing; a batch loses no event and keeps their order, unless one event
  aborts it.
\<close>

subsection \<open>A concrete event\<close>

definition sample_source :: pydict where
  "sample_source = [(''platform'', VStr ''web''), (''sdk_name'', VStr ''web''), (''sdk_version'', VStr ''1.0.0'')]"

definition sample_event :: pydict where
  "sample_event = [(''schema_version'', VStr ''1.0''), (''event_id'', VStr ''0000000a-0000-0000-0000-00000000000B''),
     (''event_name'', VStr ''buy''), (''timestamp'', VStr ''2024-02-29T10:00:00.5Z''), (''source'', VDict sample_source),
     (''container_id'', VStr ''shop''), (''properties'', VDict [(''items'', VList [VInt 1, VStr ''x''])])]"

definition sample_now :: datetime where
  "sample_now = \<lparr>dt_year = 2024, dt_month = 2, dt_day = 29, dt_hour = 10, dt_minute = 0, dt_second = 1, dt_micro = 0\<rparr>"

lemma replicate_2: "replicate 2 c = [c, c]"
  by (simp add: numeral_2_eq_2)

lemma sample_timestamp:
  "parse_timestamp (VStr ''2024-02-29T10:00:00.5Z'') = Some (sample_now\<lparr>dt_second := 0, dt_micro := 500000\<rparr>)"
  by (simp add: parse_timestamp_def timestamp_shape_def fraction_shape_def is_decimal_def digits_value_def millis_of_def
      valid_datetime_def days_in_month_def leap_year_def sample_now_def replicate_2)

lemma sample_skew: "timestamp_issues sample_now (Some 86400) (VStr ''2024-02-29T10:00:00.5Z'') = []"
  by (simp add: timestamp_issues_def sample_timestamp total_micros_def total_days_def sample_now_def)

lemmas letters = is_word_def is_ascii_letter_def is_decimal_def is_hex_def is_control_def

lemma sample_source_ok: "source_ok (VDict sample_source)"
  by (simp add: source_ok_def sample_source_def SOURCE_FIELDS_def PLATFORMS_def text_field_def has_control_def
      sdk_name_shape_def headed_def sdk_version_shape_def dotted_run_def after_dot_def version_suffix_def letters)

lemma sample_properties_ok: "properties_ok (VDict [(''items'', VList [VInt 1, VStr ''x''])])"
proof -
  have "\<not> too_large_int 1" by (simp add: too_large_int_def)
  then have "clean_below 0 (VList [VInt 1, VStr ''x''])"
    by (simp add: clean_below_VList clean_below_atom has_control_def letters)
  moreover have "property_key_shape ''items''"
    by (simp add: property_key_shape_def headed_def letters)
  moreover have "\<not> is_sensitive_property ''items''"
    by (simp add: is_sensitive_property_def name_tokens_def py_lower_def lower_char_def is_upper_latin_def
        is_lower_ascii_def is_decimal_def SENSITIVE_PHRASES_def SENSITIVE_TOKENS_def)
  ultimately show ?thesis by (simp add: properties_ok_def MAX_PROPERTIES_def)
qed

lemma sample_event_good:
  assumes "utf8_length (event_json rt (VDict sample_event)) \<le> bytes"
  shows "good_event rt sample_now (Some 86400) bytes sample_event"
  unfolding good_event_def
proof (intro conjI)
  show "\<exists>x. map_of sample_event ''event_id'' = Some x \<and> text_field 36 False event_id_shape x"
    by (simp add: sample_event_def text_field_def event_id_shape_def has_control_def letters)
  show "\<exists>x. map_of sample_event ''event_name'' = Some x \<and> text_field MAX_EVENT_NAME_LENGTH False event_name_shape x"
    by (simp add: sample_event_def text_field_def event_name_shape_def headed_def has_control_def letters MAX_EVENT_NAME_LENGTH_def)
  show "\<exists>x. map_of sample_event ''container_id'' = Some x \<and> text_field 128 False event_container_shape x"
    by (simp add: sample_event_def text_field_def event_container_shape_def headed_def has_control_def letters)
  show "\<exists>x. map_of sample_event ''timestamp'' = Some x \<and> timestamp_issues sample_now (Some 86400) x = []"
    using sample_skew by (simp add: sample_event_def)
qed (use assms sample_source_ok sample_properties_ok in
    \<open>simp_all add: sample_event_def TOP_LEVEL_FIELDS_def CONTRACT_SCHEMA_VERSION_def\<close>)

lemma sample_event_size: "utf8_length (event_json witness_runtime (VDict sample_event)) \<le> 32768"
  by (simp add: event_json_def sample_event_def sample_source_def json_str_def json_char_def utf8_length_def int_str_def
      nat_str.simps)

lemma sample_event_parses:
  "\<exists>n. parse_event witness_runtime sample_now (Some 86400) MAX_EVENT_BYTES (VDict sample_event) = Inr (Inr n)"
  using normal_event_good [OF sample_event_good [OF sample_event_size]] sample_event_good [OF sample_event_size]
  by (auto simp: parse_event_Inr MAX_EVENT_BYTES_def)

subsection \<open>Properties\<close>


text \<open>
  C18: nothing sensitive or unbounded is accepted.  In the properties of an accepted event, at every depth
  and at most five levels down, every key has the property pattern and is not a sensitive name, text has at
  most 2048 characters and no control characters, numbers are finite and fit a double, lists have at most
  100 items and objects at most 50 keys; the event's id, name and container match their patterns.
\<close>
theorem accepted_event_is_clean:
  assumes "parse_event rt now skew bytes raw = Inr (Inr n)"
  shows "\<exists>i e c ps. map_of n ''event_id'' = Some (VStr i) \<and> event_id_shape i
    \<and> map_of n ''event_name'' = Some (VStr e) \<and> event_name_shape e
    \<and> map_of n ''container_id'' = Some (VStr c) \<and> event_container_shape c
    \<and> map_of n ''properties'' = Some (VDict ps) \<and> length ps \<le> 100
    \<and> (\<forall>p \<in> set ps. property_key_shape (fst p) \<and> \<not> is_sensitive_property (fst p)
         \<and> (\<forall>m u. occurs (snd p) m u \<longrightarrow> m \<le> 5 \<and> clean_node u))"
proof -
  from assms obtain d where d: "good_event rt now skew bytes d" "normal_event d = Inr n" by (auto simp: parse_event_Inr)
  with normal_event_good [OF d(1)] have "normal_form_of d n" by simp
  with d(1) show ?thesis
    by (auto simp: good_event_def normal_form_of_def text_field_def properties_ok_def clean_below_def MAX_PROPERTIES_def)
qed

theorem accepted_event_is_clean_witness:
  "\<exists>n ps. parse_event witness_runtime sample_now (Some 86400) MAX_EVENT_BYTES (VDict sample_event) = Inr (Inr n)
     \<and> map_of n ''properties'' = Some (VDict ps) \<and> length ps \<le> 100"
  using sample_event_parses accepted_event_is_clean by blast

text \<open>
  C19: normalisation is idempotent.  The normal form of an accepted event passes validation again, if it is
  not too large, and is its own normal form: timestamps, consent and the selected fields are already normal.
  (It can be too large where the event was not: milliseconds are added to its timestamps.)
\<close>
theorem normalisation_idempotent:
  assumes "parse_event rt now skew bytes raw = Inr (Inr n)" and "utf8_length (event_json rt (VDict n)) \<le> bytes"
  shows "parse_event rt now skew bytes (VDict n) = Inr (Inr n)"
proof -
  from assms(1) obtain d where d: "good_event rt now skew bytes d" "normal_event d = Inr n" by (auto simp: parse_event_Inr)
  with normal_event_good [OF d(1)] have f: "normal_form_of d n" by simp
  from normal_form_good [OF d(1) f assms(2)] f show ?thesis
    by (auto simp: parse_event_Inr normal_form_of_def)
qed

theorem normalisation_idempotent_witness:
  "\<exists>n bytes. parse_event witness_runtime sample_now (Some 86400) bytes (VDict n) = Inr (Inr n)
     \<and> map_of n ''event_name'' = Some (VStr ''buy'')"
proof -
  from normal_event_good [OF sample_event_good [OF sample_event_size]] obtain n where
    n: "normal_event sample_event = Inr n" "normal_form_of sample_event n" by blast
  let ?bytes = "max 32768 (utf8_length (event_json witness_runtime (VDict n)))"
  have "utf8_length (event_json witness_runtime (VDict sample_event)) \<le> ?bytes" using sample_event_size by linarith
  from sample_event_good [OF this] n(1)
  have "parse_event witness_runtime sample_now (Some 86400) ?bytes (VDict sample_event) = Inr (Inr n)"
    by (auto simp: parse_event_Inr)
  moreover have "utf8_length (event_json witness_runtime (VDict n)) \<le> ?bytes" by simp
  ultimately have "parse_event witness_runtime sample_now (Some 86400) ?bytes (VDict n) = Inr (Inr n)"
    by (rule normalisation_idempotent)
  moreover have "map_of n ''event_name'' = Some (VStr ''buy'')"
    using n(2) by (simp add: normal_form_of_def sample_event_def)
  ultimately show ?thesis by blast
qed

text \<open>
  A batch loses no event and keeps the order.  Every event of an accepted batch is either in the accepted list, as its
  normal form, or in the rejected list, under its index and with its issues, and both lists are in the
  order of the batch.
\<close>
theorem batch_is_partitioned:
  assumes "validate_batch rt now skew bytes max_events raw = Inr (Inr (accepted, rejected))"
  shows "\<exists>d es rs. raw = VDict d \<and> map_of d ''events'' = Some (VList es) \<and> es \<noteq> [] \<and> length es \<le> max_events
    \<and> mapR (parse_event rt now skew bytes) es = Inr rs
    \<and> accepted = List.map_filter (\<lambda>r. case r of Inr n \<Rightarrow> Some n | Inl _ \<Rightarrow> None) rs
    \<and> rejected = List.map_filter (\<lambda>(i, r). case r of Inl issues \<Rightarrow> Some (i, issues) | Inr _ \<Rightarrow> None) (enumerate 0 rs)
    \<and> length accepted + length rejected = length es"
proof -
  from assms obtain d es where d: "raw = VDict d" "get_or d ''events'' VNone = VList es" "es \<noteq> []" "length es \<le> max_events"
    and l: "batch_loop (parse_event rt now skew bytes) 0 es = Inr (accepted, rejected)"
    by (auto simp: validate_batch_def bindR_Inr_iff split: pyval.splits if_splits list.splits)
  from d(2) have "map_of d ''events'' = Some (VList es)" by (auto simp: get_or_def split: option.splits)
  moreover from l obtain rs where rs: "mapR (parse_event rt now skew bytes) es = Inr rs" "accepted = accepted_of rs"
    "rejected = rejected_of 0 rs" by (auto simp: batch_loop_Inr)
  moreover have "length (accepted_of rs) + length (rejected_of i rs) = length rs" for i
    by (induction rs arbitrary: i) (auto simp: accepted_of_def rejected_of_def map_filter_simps split: sum.split)
  with rs have "length accepted + length rejected = length es" by (simp add: mapR_length)
  ultimately show ?thesis using d by (auto simp: accepted_of_def rejected_of_def)
qed

theorem batch_is_partitioned_witness:
  "\<exists>accepted rejected. validate_batch witness_runtime sample_now (Some 86400) MAX_EVENT_BYTES 100
     (batch_document [sample_event, []]) = Inr (Inr (accepted, rejected)) \<and> length accepted + length rejected = 2"
proof -
  from sample_event_parses obtain n where
    n: "parse_event witness_runtime sample_now (Some 86400) MAX_EVENT_BYTES (VDict sample_event) = Inr (Inr n)" by blast
  have "\<not> good_event witness_runtime sample_now (Some 86400) MAX_EVENT_BYTES []" by (simp add: good_event_def)
  moreover have "\<exists>issues. validate_event witness_runtime sample_now (Some 86400) MAX_EVENT_BYTES (VDict []) = Inr issues"
    by (simp add: validate_event_def catR_def schema_issues_def present_def present_value_def)
  ultimately obtain issues where
    "parse_event witness_runtime sample_now (Some 86400) MAX_EVENT_BYTES (VDict []) = Inr (Inl issues)"
    by (auto simp: parse_event_def validate_event_Nil) (metis list.distinct(1) validate_event_Nil pyval.inject(6))
  with n obtain accepted rejected where b: "validate_batch witness_runtime sample_now (Some 86400) MAX_EVENT_BYTES 100
     (batch_document [sample_event, []]) = Inr (Inr (accepted, rejected))"
    by (simp add: validate_batch_def batch_document_def unknown_keys_def get_or_def)
  from batch_is_partitioned [OF this] b show ?thesis
    by (auto simp: batch_document_def)
qed

text \<open>
  An event can abort its whole batch.  A source platform that is a list is not reported as an issue:
  testing it for membership in a set raises \<open>TypeError\<close>, which \<open>validate_batch\<close> does not catch, so the call fails
  for every event of the batch, whatever the others are.
\<close>
theorem one_event_aborts_batch:
  assumes "map_of d ''source'' = Some (VDict s)" and "map_of s ''platform'' = Some (VList xs)" and "d \<in> set ds"
    and "length ds \<le> max_events"
  shows "\<exists>err. validate_batch rt now skew bytes max_events (batch_document ds) = Inl err
    \<and> (\<exists>m. err = TypeError m \<or> err = OverflowError m)"
proof -
  have "VDict d \<in> set (map VDict ds)" using assms(3) by simp
  with list_platform_raises [OF assms(1,2), of rt now skew bytes]
  obtain err where err: "batch_loop (parse_event rt now skew bytes) 0 (map VDict ds) = Inl err"
    using batch_loop_Inl [of "parse_event rt now skew bytes" 0 "map VDict ds"] by blast
  have "batch_loop parse i es = Inl e \<Longrightarrow> \<exists>x. parse x = Inl e" for parse :: "pyval \<Rightarrow> event_result res" and i es e
    by (induction es arbitrary: i) (auto simp: bindR_Inl_iff)
  from this [OF err] have "contract_exn err" by (auto dest: parse_event_Inl)
  moreover have "validate_batch rt now skew bytes max_events (batch_document ds) = Inl err"
    using err assms(3,4)
    by (cases ds) (auto simp: validate_batch_def batch_document_def unknown_keys_def get_or_def)
  ultimately show ?thesis by (auto simp: contract_exn_def)
qed

theorem one_event_aborts_batch_witness:
  "\<exists>err. validate_batch witness_runtime sample_now (Some 86400) MAX_EVENT_BYTES 100
     (batch_document [sample_event, [(''source'', VDict [(''platform'', VList [])])]]) = Inl err"
  using one_event_aborts_batch [of "[(''source'', VDict [(''platform'', VList [])])]" "[(''platform'', VList [])]" "[]"
    "[sample_event, [(''source'', VDict [(''platform'', VList [])])]]" 100 witness_runtime sample_now "Some 86400" MAX_EVENT_BYTES]
  by auto

text \<open>
  Timestamps survive printing.  A valid moment with whole milliseconds prints to a text that the
  contract's pattern accepts and that parses back to it, and whatever text parses has that form.
\<close>
theorem timestamp_roundtrip:
  assumes "valid_datetime t" and "dt_micro t mod 1000 = 0"
  shows "parse_timestamp (VStr (format_timestamp t)) = Some t
    \<and> (parse_timestamp v = Some u \<longrightarrow> valid_datetime u \<and> dt_micro u mod 1000 = 0)"
  using format_parse [of t] assms parse_timestamp_whole [of v u] by (auto simp: whole_millis_def)

theorem timestamp_roundtrip_witness:
  "parse_timestamp (VStr (format_timestamp sample_now)) = Some sample_now"
proof -
  have "valid_datetime sample_now" "dt_micro sample_now mod 1000 = 0"
    by (simp_all add: sample_now_def valid_datetime_def days_in_month_def leap_year_def)
  with timestamp_roundtrip [of sample_now VNone sample_now] show ?thesis by blast
qed

end
