(* ===== verification/Ingest_Safety.thy ===== *)
theory Ingest_Safety
  imports Serving Event_Safety
begin

section \<open>What the collection service lets through and what it answers\<close>

text \<open>
  Only events the contract accepts, for containers the endpoint allows, ever reach the forwarder; and the
  answer to a batch has one result per event, in its order.
\<close>

subsection \<open>Requests\<close>

datatype request =
    OneEvent pyval attempt
  | EventBatch pydict "nat \<Rightarrow> attempt"

text \<open>A request with the clocks it is served at and the address it comes from; exceptions leave the state as it is then.\<close>

fun serve :: "py_runtime \<Rightarrow> request \<times> datetime \<times> rat \<times> string option \<Rightarrow> ingest_service \<Rightarrow> ingest_service" where
  "serve rt (OneEvent raw a, now, tick, client_ip) s = snd (ingest_event rt now tick a client_ip raw s)"
| "serve rt (EventBatch raw attempts, now, tick, client_ip) s = snd (ingest_batch rt now tick attempts client_ip raw s)"

definition vetted :: "py_runtime \<Rightarrow> ingest_config \<Rightarrow> pydict \<Rightarrow> bool" where
  "vetted rt c e \<longleftrightarrow> container_allowed c e = Inr True
     \<and> (\<exists>now raw. parse_event rt now (Some 86400) MAX_EVENT_BYTES raw = Inr (Inr e))"

lemma vettedI: "container_allowed c e = Inr True \<Longrightarrow> parse_event rt now (Some 86400) MAX_EVENT_BYTES raw = Inr (Inr e) \<Longrightarrow> vetted rt c e"
  unfolding vetted_def by blast

lemma begin_calls:
  assumes "process_begin rt s a event = (r, s')"
  shows "sv_config s' = sv_config s
    \<and> (sv_calls s' = sv_calls s \<or> sv_calls s' = sv_calls s @ [event] \<and> container_allowed (sv_config s) event = Inr True)"
  using assms by (auto simp: process_begin_def Let_def bindR_Inr_iff split: sum.splits prod.splits if_splits)

lemma validated_calls:
  assumes "process_validated rt s a event = (r, s')"
  shows "sv_config s' = sv_config s
    \<and> (sv_calls s' = sv_calls s \<or> sv_calls s' = sv_calls s @ [event] \<and> container_allowed (sv_config s) event = Inr True)"
proof -
  obtain r1 s1 where b: "process_begin rt s a event = (r1, s1)" by fastforce
  have "sv_config s' = sv_config s1 \<and> sv_calls s' = sv_calls s1"
    using assms b by (auto simp: process_validated_def dest!: finish_store split: sum.splits prod.splits)
  with begin_calls [OF b] show ?thesis by simp
qed

lemma process_all_calls:
  assumes "process_all rt attempts k s es = (r, s')"
  shows "sv_config s' = sv_config s
    \<and> (\<forall>e \<in> set (sv_calls s'). e \<in> set (sv_calls s) \<or> e \<in> set es \<and> container_allowed (sv_config s) e = Inr True)"
  using assms
proof (induction es arbitrary: k s r s')
  case (Cons e es)
  obtain r1 s1 where v: "process_validated rt s (attempts k) e = (r1, s1)" by fastforce
  show ?case
  proof (cases r1)
    case (Inl x)
    with Cons.prems v validated_calls [OF v] show ?thesis by auto
  next
    case (Inr y)
    obtain r2 s2 where p: "process_all rt attempts (Suc k) s1 es = (r2, s2)" by fastforce
    with Cons.prems v Inr have "s' = s2" by (auto split: sum.splits)
    with Cons.IH [OF p] validated_calls [OF v] show ?thesis by auto
  qed
qed simp

lemma ingest_event_calls:
  assumes "\<forall>e \<in> set (sv_calls s). vetted rt (sv_config s) e" and "ingest_event rt now tick a client_ip raw s = (r, s')"
  shows "sv_config s' = sv_config s \<and> (\<forall>e \<in> set (sv_calls s'). vetted rt (sv_config s) e)"
proof -
  obtain ok tb where l: "allow (sv_limiter s) (client_key client_ip) tick = (ok, tb)" by fastforce
  show ?thesis
  proof (cases "ok \<and> (\<exists>event. parse_event rt now (Some 86400) MAX_EVENT_BYTES raw = Inr (Inr event))")
    case True
    then obtain event where p: "parse_event rt now (Some 86400) MAX_EVENT_BYTES raw = Inr (Inr event)" by blast
    with True l assms(2) have "process_validated rt (s\<lparr>sv_limiter := tb\<rparr>) a event = (r, s')"
      by (simp add: ingest_event_def Let_def)
    from validated_calls [OF this] p assms(1) show ?thesis by (auto intro: vettedI)
  next
    case False
    with l assms(2) have "s' = s\<lparr>sv_limiter := tb\<rparr>"
      by (auto simp: ingest_event_def Let_def split: if_splits sum.splits)
    with assms(1) show ?thesis by simp
  qed
qed

lemma validate_batch_loop:
  assumes "validate_batch rt now skew bytes n (VDict d) = Inr (Inr (accepted, rejected))"
  shows "\<exists>es rs. map_of d ''events'' = Some (VList es) \<and> es \<noteq> [] \<and> mapR (parse_event rt now skew bytes) es = Inr rs
    \<and> accepted = accepted_of rs \<and> rejected = rejected_of 0 rs"
proof -
  from assms obtain es where e: "get_or d ''events'' VNone = VList es" "es \<noteq> []"
    and l: "batch_loop (parse_event rt now skew bytes) 0 es = Inr (accepted, rejected)"
    by (auto simp: validate_batch_def bindR_Inr_iff simp del: batch_loop.simps split: pyval.splits if_splits list.splits)
  from e(1) have "map_of d ''events'' = Some (VList es)" by (auto simp: get_or_def split: option.splits)
  with e(2) l show ?thesis by (auto simp: batch_loop_Inr)
qed

lemma accepted_parsed:
  assumes "validate_batch rt now skew bytes n (VDict d) = Inr (Inr (accepted, rejected))" and "e \<in> set accepted"
  shows "\<exists>raw. parse_event rt now skew bytes raw = Inr (Inr e)"
proof -
  from validate_batch_loop [OF assms(1)] obtain es rs where
    rs: "mapR (parse_event rt now skew bytes) es = Inr rs" "accepted = accepted_of rs" by blast
  with assms(2) have "Inr e \<in> set rs" by (auto simp: accepted_of_def map_filter_def split: sum.splits)
  from mapR_Inr_set [OF rs(1) this] show ?thesis by blast
qed

lemma ingest_batch_calls:
  assumes "\<forall>e \<in> set (sv_calls s). vetted rt (sv_config s) e" and "ingest_batch rt now tick attempts client_ip raw s = (r, s')"
  shows "sv_config s' = sv_config s \<and> (\<forall>e \<in> set (sv_calls s'). vetted rt (sv_config s) e)"
proof -
  obtain ok tb where l: "allow_many (sv_limiter s) (client_key client_ip) (batch_charge raw) tick = (ok, tb)" by fastforce
  let ?v = "validate_batch rt now (Some 86400) MAX_EVENT_BYTES (nat (ic_max_batch_events (sv_config s))) (VDict raw)"
  show ?thesis
  proof (cases "ok \<and> (\<exists>accepted rejected. ?v = Inr (Inr (accepted, rejected)))")
    case True
    then obtain accepted rejected where v: "?v = Inr (Inr (accepted, rejected))" by blast
    obtain r1 s1 where p: "process_all rt attempts 0 (s\<lparr>sv_limiter := tb\<rparr>) accepted = (r1, s1)" by fastforce
    with True l v assms(2) have "s' = s1"
      by (auto simp: ingest_batch_def Let_def split: sum.splits prod.splits)
    with process_all_calls [OF p] accepted_parsed [OF v] assms(1) show ?thesis by (auto intro: vettedI dest!: bspec)
  next
    case False
    with l assms(2) have "s' = s\<lparr>sv_limiter := tb\<rparr>"
      by (auto simp: ingest_batch_def Let_def split: if_splits sum.splits prod.splits)
    with assms(1) show ?thesis by simp
  qed
qed

lemma serve_calls:
  assumes "\<forall>e \<in> set (sv_calls s). vetted rt (sv_config s) e"
  shows "sv_config (serve rt q s) = sv_config s \<and> (\<forall>e \<in> set (sv_calls (serve rt q s)). vetted rt (sv_config s) e)"
proof -
  obtain k now tick client_ip where q: "q = (k, now, tick, client_ip)" by (cases q)
  show ?thesis
  proof (cases k)
    case (OneEvent raw a)
    with q ingest_event_calls [OF assms prod.collapse [symmetric]] show ?thesis by simp
  next
    case (EventBatch raw attempts)
    with q ingest_batch_calls [OF assms prod.collapse [symmetric]] show ?thesis by simp
  qed
qed

subsection \<open>Answers\<close>

lemma parsed_fields:
  assumes "parse_event rt now skew bytes raw = Inr (Inr n)"
  shows "\<exists>i e c. map_of n ''event_id'' = Some (VStr i) \<and> map_of n ''event_name'' = Some (VStr e) \<and> map_of n ''container_id'' = Some (VStr c)"
proof -
  from assms obtain d where d: "good_event rt now skew bytes d" "normal_event d = Inr n" by (auto simp: parse_event_Inr)
  with normal_event_good [OF d(1)] have "normal_form_of d n" by simp
  with d(1) show ?thesis by (auto simp: good_event_def normal_form_of_def text_field_def)
qed

text \<open>An event of the contract never raises, and its result carries its id and name.\<close>

definition answers :: "pydict \<Rightarrow> ingest_result \<Rightarrow> bool" where
  "answers e r \<longleftrightarrow> (\<exists>i name. map_of e ''event_id'' = Some (VStr i) \<and> map_of e ''event_name'' = Some (VStr name)
     \<and> ir_event_id r = Some i \<and> ir_event_name r = Some name)"

lemma event_outcome_fields [simp]:
  "ir_event_id (event_outcome i name st accepted) = Some i" "ir_event_name (event_outcome i name st accepted) = Some name"
  by (simp_all add: event_outcome_def)

lemma process_validated_answers:
  assumes "parse_event rt now skew bytes raw = Inr (Inr e)"
  shows "\<exists>r s'. process_validated rt s a e = (Inr r, s') \<and> answers e r"
proof -
  from parsed_fields [OF assms] obtain i name c where f: "map_of e ''event_id'' = Some (VStr i)"
    "map_of e ''event_name'' = Some (VStr name)" "map_of e ''container_id'' = Some (VStr c)" by blast
  then have "\<exists>ok. container_allowed (sv_config s) e = Inr ok"
    by (auto simp: container_allowed_def dict_item_def in_text_set_def split: option.split)
  then obtain ok where ok: "container_allowed (sv_config s) e = Inr ok" by blast
  obtain r1 s1 where b: "process_begin rt s a e = (r1, s1)" by fastforce
  have r1: "(\<exists>r. r1 = Inr (Inl r) \<and> ir_event_id r = Some i \<and> ir_event_name r = Some name) \<or> r1 = Inr (Inr (i, name))"
  proof -
    obtain answer d' where c: "store_claim (at_claim a) i (sv_dedupe s) = (answer, d')" by fastforce
    from b f ok c have "(if \<not> ok then (Inr (Inl ((event_outcome i name ''rejected'' False)
           \<lparr>ir_errors := [message_error ''container is not allowed by this endpoint'']\<rparr>)), s)
         else let s = s\<lparr>sv_dedupe := d'\<rparr> in
           if answer = ''completed''
           then (Inr (Inl ((event_outcome i name ''duplicate'' True)\<lparr>ir_duplicate := True\<rparr>)), s)
           else if answer = ''inflight''
           then (Inr (Inl ((event_outcome i name ''in_progress'' True)\<lparr>ir_duplicate := True, ir_retryable := True\<rparr>)), s)
           else if \<not> sv_forwarding s
           then (Inr (Inl (event_outcome i name ''accepted'' True)),
             s\<lparr>sv_dedupe := store_complete (at_settle a) i (sv_dedupe s)\<rparr>)
           else (Inr (Inr (i, name)), s\<lparr>sv_calls := sv_calls s @ [e]\<rparr>)) = (r1, s1)"
      by (simp only: process_begin_def dict_item_def py_text_def option.case pyval.case bindR_simps sum.case prod.case Let_def)
    then show ?thesis
      by (cases ok; cases "answer = ''completed''"; cases "answer = ''inflight''"; cases "sv_forwarding s") (auto simp: Let_def)
  qed
  have fin: "ir_event_id (fst (process_finish s1 a i name)) = Some i \<and> ir_event_name (fst (process_finish s1 a i name)) = Some name"
    by (simp add: process_finish_def Let_def split: sum.split)
  from r1 b fin f show ?thesis by (auto simp: process_validated_def answers_def split: prod.splits)
qed

lemma process_all_answers:
  assumes "\<And>e. e \<in> set es \<Longrightarrow> \<exists>now skew bytes raw. parse_event rt now skew bytes raw = Inr (Inr e)"
  shows "\<exists>rs s'. process_all rt attempts k s es = (Inr rs, s') \<and> list_all2 answers es rs"
  using assms
proof (induction es arbitrary: k s)
  case (Cons e es)
  from Cons.prems [of e] obtain now skew bytes raw where "parse_event rt now skew bytes raw = Inr (Inr e)" by auto
  from process_validated_answers [OF this] obtain r s1 where "process_validated rt s (attempts k) e = (Inr r, s1)" "answers e r"
    by blast
  moreover obtain rs s2 where "process_all rt attempts (Suc k) s1 es = (Inr rs, s2)" "list_all2 answers es rs"
    using Cons.IH [of "Suc k" s1] Cons.prems by auto
  ultimately show ?case by simp
qed simp

definition issues_result :: "event_issue list \<Rightarrow> ingest_result" where
  "issues_result issues = anonymous_result ''rejected'' False (map event_issue_to_dict issues)"

definition result_for :: "event_result \<Rightarrow> ingest_result \<Rightarrow> bool" where
  "result_for x r = (case x of Inl issues \<Rightarrow> r = issues_result issues | Inr e \<Rightarrow> answers e r)"

lemma rejected_of_before: "k < j \<Longrightarrow> map_of (rejected_of j rs) k = None"
  by (induction rs arbitrary: j) (auto simp: rejected_of_def map_filter_simps split: sum.splits)

lemma rejected_of_Cons: "rejected_of j (r # rs) = (case r of Inl issues \<Rightarrow> (j, issues) # rejected_of (Suc j) rs | Inr _ \<Rightarrow> rejected_of (Suc j) rs)"
  by (auto simp: rejected_of_def map_filter_simps split: sum.split)

lemma accepted_of_Cons: "accepted_of (r # rs) = (case r of Inl _ \<Rightarrow> accepted_of rs | Inr n \<Rightarrow> n # accepted_of rs)"
  by (auto simp: accepted_of_def map_filter_simps split: sum.split)

lemma order_results_ok:
  assumes "list_all2 answers (accepted_of rs) results" and "\<And>k. j \<le> k \<Longrightarrow> map_of rejected k = map_of (rejected_of j rs) k"
  shows "\<exists>out. order_results [j..<j + length rs] rejected results = Inr out \<and> list_all2 result_for rs out
    \<and> set out = set results \<union> {issues_result issues | issues. Inl issues \<in> set rs}"
  using assms
proof (induction rs arbitrary: j results)
  case Nil
  then show ?case by (simp add: accepted_of_def map_filter_simps)
next
  case (Cons x rs)
  have upt: "[j..<j + length (x # rs)] = j # [Suc j..<Suc j + length rs]" by (simp add: upt_rec)
  have later: "map_of rejected k = map_of (rejected_of (Suc j) rs) k" if "Suc j \<le> k" for k
    using Cons.prems(2) [of k] that by (simp add: rejected_of_Cons split: sum.splits)
  have here: "map_of rejected j = (case x of Inl issues \<Rightarrow> Some issues | Inr _ \<Rightarrow> None)"
    using Cons.prems(2) [of j] by (simp add: rejected_of_Cons rejected_of_before split: sum.split)
  show ?case
  proof (cases x)
    case (Inl issues)
    with Cons.prems(1) have "list_all2 answers (accepted_of rs) results" by (simp add: accepted_of_Cons)
    from Cons.IH [OF this later] obtain out where o: "order_results [Suc j..<Suc j + length rs] rejected results = Inr out"
      "list_all2 result_for rs out" "set out = set results \<union> {issues_result issues | issues. Inl issues \<in> set rs}" by blast
    then have "order_results [j..<j + length (x # rs)] rejected results = Inr (issues_result issues # out)"
      unfolding upt using here Inl by (simp add: issues_result_def)
    moreover have "list_all2 result_for (x # rs) (issues_result issues # out)" using o(2) Inl by (simp add: result_for_def)
    moreover have "set (issues_result issues # out) = set results \<union> {issues_result issues | issues. Inl issues \<in> set (x # rs)}"
      using o(3) Inl by auto
    ultimately show ?thesis by blast
  next
    case (Inr e)
    with Cons.prems(1) obtain r results' where r: "results = r # results'" "answers e r" "list_all2 answers (accepted_of rs) results'"
      by (auto simp: accepted_of_Cons list_all2_Cons1)
    from Cons.IH [OF r(3) later] obtain out where o: "order_results [Suc j..<Suc j + length rs] rejected results' = Inr out"
      "list_all2 result_for rs out" "set out = set results' \<union> {issues_result issues | issues. Inl issues \<in> set rs}" by blast
    then have "order_results [j..<j + length (x # rs)] rejected results = Inr (r # out)"
      unfolding upt using here Inr r(1) by simp
    moreover have "list_all2 result_for (x # rs) (r # out)" using o(2) Inr r(2) by (simp add: result_for_def)
    moreover have "set (r # out) = set results \<union> {issues_result issues | issues. Inl issues \<in> set (x # rs)}"
      using o(3) Inr r(1) by auto
    ultimately show ?thesis by blast
  qed
qed

lemma accepted_rejected_length: "length (accepted_of rs) + length (rejected_of j rs) = length rs"
  by (induction rs arbitrary: j) (auto simp: accepted_of_Cons rejected_of_Cons split: sum.split, simp_all add: accepted_of_def rejected_of_def map_filter_simps)

lemma rejected_of_Nil: "rejected_of j rs \<noteq> [] \<longleftrightarrow> (\<exists>issues. Inl issues \<in> set rs)"
  by (induction rs arbitrary: j) (auto simp: rejected_of_Cons split: sum.splits, simp_all add: rejected_of_def map_filter_simps)

text \<open>A result the client need not look at again.\<close>

definition taken :: "ingest_result \<Rightarrow> bool" where
  "taken r \<longleftrightarrow> (ir_accepted r \<or> ir_duplicate r) \<and> \<not> ir_retryable r \<and> ir_status r \<noteq> ''rejected''"

lemma batch_summary_taken:
  "fst (batch_summary results any_rejected) \<longleftrightarrow> \<not> any_rejected \<and> (\<forall>r \<in> set results. taken r)"
  by (auto simp: batch_summary_def taken_def Let_def list_ex_iff list_all_iff)

subsection \<open>Properties\<close>

text \<open>
  C16: only vetted events are forwarded.  Whatever requests a new service has served, every event it has
  passed to its forwarder is the normal form of an event the contract accepted when it came in, and its
  container is one the endpoint allows.
\<close>
theorem only_vetted_events_forwarded:
  assumes "service_create env c forwarding = Inr s" and "e \<in> set (sv_calls (fold (serve rt) requests s))"
  shows "vetted rt c e"
proof -
  have "sv_config (fold (serve rt) requests s) = sv_config s \<and> (\<forall>e \<in> set (sv_calls (fold (serve rt) requests s)). vetted rt (sv_config s) e)"
    if "\<forall>e \<in> set (sv_calls s). vetted rt (sv_config s) e" for s
    using that
  proof (induction requests arbitrary: s)
    case (Cons q requests)
    from serve_calls [OF Cons.prems, of q] Cons.IH [of "serve rt q s"] show ?case by simp
  qed simp
  from this [of s] service_create_store [OF assms(1)] assms(2) show ?thesis by simp
qed

lemma sample_normal:
  "\<exists>n. parse_event witness_runtime sample_now (Some 86400) MAX_EVENT_BYTES (VDict Event_Safety.sample_event) = Inr (Inr n)"
  by (rule sample_event_parses)

lemma sample_served:
  assumes "parse_event witness_runtime sample_now (Some 86400) MAX_EVENT_BYTES (VDict Event_Safety.sample_event) = Inr (Inr n)"
  shows "n \<in> set (sv_calls (serve witness_runtime (OneEvent (VDict Event_Safety.sample_event) (sample_attempt 0), sample_now, 0, None)
    (sample_service (cache_create 86400 100000) [])))"
proof -
  from parsed_fields [OF assms] obtain i name where f: "map_of n ''event_id'' = Some (VStr i)" "map_of n ''event_name'' = Some (VStr name)"
    by blast
  have "fst (allow (limiter_create 120 None) (client_key None) 0) = True"
    by (simp add: allow_def allow_many_def limiter_create_def refilled_def bucket_of_def MAX_BUCKETS_def Let_def)
  then obtain tb where "allow (limiter_create 120 None) (client_key None) 0 = (True, tb)" by (metis prod.collapse)
  then have "ingest_event witness_runtime sample_now 0 (sample_attempt 0) None (VDict Event_Safety.sample_event)
      (sample_service (cache_create 86400 100000) []) = process_validated witness_runtime
      ((sample_service (cache_create 86400 100000) [])\<lparr>sv_limiter := tb\<rparr>) (sample_attempt 0) n"
    using assms by (simp add: ingest_event_def sample_service_def Let_def)
  moreover have "\<exists>s'. process_begin witness_runtime ((sample_service (cache_create 86400 100000) [])\<lparr>sv_limiter := tb\<rparr>) (sample_attempt 0) n
      = (Inr (Inr (i, name)), s') \<and> sv_calls s' = [n]"
    using f by (simp add: process_begin_def sample_service_def dict_item_def container_allowed_def default_config_def py_text_def
        cache_claim_def cache_purge_def cache_create_def Let_def)
  ultimately show ?thesis by (auto simp: process_validated_def dest!: finish_store split: prod.splits)
qed

theorem only_vetted_events_forwarded_witness:
  "\<exists>n. vetted witness_runtime default_config n \<and> n \<in> set (sv_calls (fold (serve witness_runtime)
     [(OneEvent (VDict Event_Safety.sample_event) (sample_attempt 0), sample_now, 0, None)] (sample_service (cache_create 86400 100000) [])))"
proof -
  from sample_normal obtain n where
    n: "parse_event witness_runtime sample_now (Some 86400) MAX_EVENT_BYTES (VDict Event_Safety.sample_event) = Inr (Inr n)" by blast
  let ?q = "[(OneEvent (VDict Event_Safety.sample_event) (sample_attempt 0), sample_now, 0, None)]"
  have "service_create sample_env default_config True = Inr (sample_service (cache_create 86400 100000) [])"
    using sample_world_start by (simp add: world_start_def sample_world_def)
  from only_vetted_events_forwarded [OF this, of n witness_runtime ?q] sample_served [OF n]
  show ?thesis by auto
qed


definition sample_batch :: pydict where
  "sample_batch = [(''schema_version'', VStr CONTRACT_SCHEMA_VERSION), (''events'', VList [VDict Event_Safety.sample_event, VDict []])]"

lemma sample_batch_valid:
  "\<exists>accepted rejected. validate_batch witness_runtime sample_now (Some 86400) MAX_EVENT_BYTES 100 (VDict sample_batch)
     = Inr (Inr (accepted, rejected))"
proof -
  from sample_normal obtain n where
    n: "parse_event witness_runtime sample_now (Some 86400) MAX_EVENT_BYTES (VDict Event_Safety.sample_event) = Inr (Inr n)" by blast
  have "\<not> good_event witness_runtime sample_now (Some 86400) MAX_EVENT_BYTES []" by (simp add: good_event_def)
  moreover have "\<exists>issues. validate_event witness_runtime sample_now (Some 86400) MAX_EVENT_BYTES (VDict []) = Inr issues"
    by (simp add: validate_event_def catR_def schema_issues_def present_def present_value_def)
  ultimately obtain issues where
    "parse_event witness_runtime sample_now (Some 86400) MAX_EVENT_BYTES (VDict []) = Inr (Inl issues)"
    by (auto simp: parse_event_def validate_event_Nil) (metis list.distinct(1) validate_event_Nil pyval.inject(6))
  with n show ?thesis by (simp add: validate_batch_def sample_batch_def unknown_keys_def get_or_def)
qed




end
