(* ===== verification/Http.thy ===== *)
theory Http
  imports Ingest
begin

section \<open>The HTTP endpoint of the collection service (ingest/http.py)\<close>

text \<open>
  \<open>IngestHandler\<close>: who the client is behind trusted proxies, which origins get CORS headers, who is authorised, and what
  \<open>do_POST\<close>, \<open>do_GET\<close> and \<open>do_OPTIONS\<close> answer.  A request is what \<^verbatim>\<open>http.server\<close> has parsed; header names are lower-cased.
  What \<^verbatim>\<open>ipaddress\<close>, \<^verbatim>\<open>urlsplit\<close> and the decoding of the body compute is an argument.
\<close>

subsection \<open>Requests and responses\<close>

record http_in =
  hi_path :: string
  hi_peer :: "string option"
  hi_headers :: "(string, string) dict"
  hi_body :: string

definition header :: "http_in \<Rightarrow> string \<Rightarrow> string option" where
  "header q name = map_of (hi_headers q) (py_lower name)"

text \<open>The status, the CORS headers and the body; \<open>do_OPTIONS\<close> sends none.\<close>

record http_out =
  ho_status :: nat
  ho_headers :: "(string, string) dict"
  ho_body :: "pyval option"

text \<open>
  \<open>hl_address text\<close> is \<open>str(ip_address(text))\<close> where that does not raise; \<open>hl_member\<close> says whether an address, in that
  form, lies in a network; \<open>hl_url_path\<close> is \<open>urlsplit(text).path\<close>; \<open>hl_int\<close> is \<open>int(text)\<close>; \<open>hl_decode\<close> decodes
  UTF-8.
\<close>

record http_lib =
  hl_address :: "string \<Rightarrow> string option"
  hl_member :: "string \<Rightarrow> string \<Rightarrow> bool"
  hl_url_path :: "string \<Rightarrow> string"
  hl_int :: "string \<Rightarrow> int option"
  hl_decode :: "string \<Rightarrow> string option"

subsection \<open>The client\<close>

definition is_trusted_proxy :: "http_lib \<Rightarrow> string list \<Rightarrow> string \<Rightarrow> bool" where
  "is_trusted_proxy h networks v = (case hl_address h v of None \<Rightarrow> False | Some a \<Rightarrow> list_ex (hl_member h a) networks)"

definition strip_quotes :: "string \<Rightarrow> string" where
  "strip_quotes s = rev (dropWhile (\<lambda>c. c = CHR 0x22) (rev (dropWhile (\<lambda>c. c = CHR 0x22) s)))"

definition normalize_ip :: "http_lib \<Rightarrow> string \<Rightarrow> string option" where
  "normalize_ip h v = (let t = strip_quotes (py_strip v);
     t = (if prefix ''['' t \<and> CHR '']'' \<in> set t then takeWhile (\<lambda>c. c \<noteq> CHR '']'') (drop 1 t) else t)
   in hl_address h t)"

text \<open>The addresses of the header from the last one on, until one is not a trusted proxy.\<close>

fun walk_forwarded :: "http_lib \<Rightarrow> string list \<Rightarrow> string \<Rightarrow> string list \<Rightarrow> string" where
  "walk_forwarded h networks peer [] = peer"
| "walk_forwarded h networks peer (item # items) = (case normalize_ip h item of
     None \<Rightarrow> peer
   | Some candidate \<Rightarrow> if \<not> is_trusted_proxy h networks candidate then candidate else walk_forwarded h networks peer items)"

definition client_ip :: "http_lib \<Rightarrow> ingest_config \<Rightarrow> http_in \<Rightarrow> string option" where
  "client_ip h c q =
     (let networks = ic_trusted_proxy_cidrs c in
      if \<not> given (hi_peer q) \<or> networks = [] \<or> \<not> is_trusted_proxy h networks (the (hi_peer q)) then hi_peer q
      else let forwarded = header q (ic_real_ip_header c) in
        if \<not> given forwarded then hi_peer q
        else Some (walk_forwarded h networks (the (hi_peer q)) (rev (split_on (CHR '','') (the forwarded)))))"

subsection \<open>Origins and authorisation\<close>

definition allowed_origin :: "ingest_config \<Rightarrow> http_in \<Rightarrow> string option" where
  "allowed_origin c q = (let origin = header q ''Origin'' in
     if \<not> given origin then None
     else if ''*'' \<in> set (ic_cors_origins c) then Some ''*''
     else if the origin \<in> set (ic_cors_origins c) then origin else None)"

definition cors_headers :: "ingest_config \<Rightarrow> http_in \<Rightarrow> (string, string) dict" where
  "cors_headers c q = (case allowed_origin c q of
     None \<Rightarrow> []
   | Some allowed \<Rightarrow>
       [(''Access-Control-Allow-Origin'', allowed), (''Access-Control-Allow-Methods'', ''POST, OPTIONS''),
        (''Access-Control-Allow-Headers'', ''Content-Type, Authorization, X-API-Key''), (''Access-Control-Max-Age'', ''600'')]
       @ (if allowed \<noteq> ''*'' then [(''Vary'', ''Origin'')] else []))"

text \<open>\<open>hmac.compare_digest\<close> takes ASCII text only.\<close>

definition compare_digest :: "string \<Rightarrow> string \<Rightarrow> bool res" where
  "compare_digest a b =
     (if list_all (\<lambda>c. code c < (128::nat)) (a @ b) then Inr (a = b)
      else Inl (TypeError ''comparing strings with non-ASCII characters is not supported''))"

definition supplied_token :: "http_in \<Rightarrow> string" where
  "supplied_token q =
     (let supplied = (case header q ''Authorization'' of None \<Rightarrow> [] | Some s \<Rightarrow> s) in
      if prefix ''bearer '' (py_lower supplied) then py_strip (drop 7 supplied)
      else if given (header q ''X-API-Key'') then py_strip (the (header q ''X-API-Key''))
      else supplied)"

definition authorized :: "ingest_service \<Rightarrow> http_in \<Rightarrow> bool res" where
  "authorized s q = (case sv_api_token s of
     None \<Rightarrow> Inr True
   | Some token \<Rightarrow> if supplied_token q = [] then Inr False else compare_digest (supplied_token q) token)"

subsection \<open>Answers\<close>

definition status_for :: "string \<Rightarrow> bool \<Rightarrow> nat" where
  "status_for st retryable =
     (if st \<in> {''accepted'', ''forwarded'', ''duplicate'', ''in_progress''} then 202
      else if st = ''rate_limited'' then 429
      else if retryable then 503 else 422)"

definition batch_status :: "batch_result \<Rightarrow> nat" where
  "batch_status r =
     (if ib_status r = ''accepted'' then 202
      else if ib_status r = ''rate_limited'' then 429
      else if ib_status r = ''rejected'' \<and> ib_results r = [] then 400
      else if ib_status r = ''rejected'' then 422 else 207)"

definition respond :: "ingest_config \<Rightarrow> http_in \<Rightarrow> nat \<Rightarrow> pyval \<Rightarrow> http_out" where
  "respond c q st body = \<lparr>ho_status = st, ho_headers = cors_headers c q, ho_body = Some body\<rparr>"

definition http_error :: "ingest_config \<Rightarrow> http_in \<Rightarrow> nat \<Rightarrow> string \<Rightarrow> http_out" where
  "http_error c q st m = respond c q st (VDict [(''error'', VStr m)])"

definition media_type :: "http_in \<Rightarrow> string" where
  "media_type q = py_lower (py_strip (hd (split_on (CHR '';'') (case header q ''Content-Type'' of None \<Rightarrow> [] | Some s \<Rightarrow> s))))"

text \<open>
  The checks of \<open>do_POST\<close> before the service is called: a refusal, or the decoded object.  The body of a
  request is what the client sends; at most the announced length is read.
\<close>

definition read_request :: "http_lib \<Rightarrow> py_runtime \<Rightarrow> ingest_service \<Rightarrow> http_in \<Rightarrow> (nat \<times> string + pydict) res" where
  "read_request h rt s q = (let c = sv_config s in
     if hl_url_path h (hi_path q) \<noteq> ic_path c then Inr (Inl (404, ''not_found''))
     else bindR (authorized s q) (\<lambda>ok.
       if \<not> ok then Inr (Inl (401, ''unauthorized''))
       else if media_type q \<noteq> ''application/json'' then Inr (Inl (415, ''unsupported_media_type''))
       else case header q ''Content-Length'' of
         None \<Rightarrow> Inr (Inl (411, ''content_length_required''))
       | Some length_text \<Rightarrow> (case hl_int h length_text of
           None \<Rightarrow> Inr (Inl (400, ''invalid_content_length''))
         | Some n \<Rightarrow>
             if n < 1 \<or> n > ic_max_body_bytes c then Inr (Inl (413, ''request_too_large''))
             else let body = take (nat n) (hi_body q) in
               if length body \<noteq> nat n then Inr (Inl (400, ''incomplete_request_body''))
               else (case hl_decode h body of
                   None \<Rightarrow> Inr (Inl (400, ''invalid_json''))
                 | Some t \<Rightarrow> (case json_loads rt t of
                     Inl _ \<Rightarrow> Inr (Inl (400, ''invalid_json''))
                   | Inr (VDict raw) \<Rightarrow> Inr (Inr raw)
                   | Inr _ \<Rightarrow> Inr (Inl (400, ''invalid_payload'')))))))"

definition do_POST ::
    "http_lib \<Rightarrow> py_runtime \<Rightarrow> datetime \<Rightarrow> rat \<Rightarrow> (nat \<Rightarrow> attempt) \<Rightarrow> http_in \<Rightarrow> ingest_service \<Rightarrow> http_out res \<times> ingest_service" where
  "do_POST h rt now tick attempts q s = (let c = sv_config s in
     case read_request h rt s q of
       Inl e \<Rightarrow> (Inl e, s)
     | Inr (Inl (st, m)) \<Rightarrow> (Inr (http_error c q st m), s)
     | Inr (Inr raw) \<Rightarrow> (let ip = client_ip h c q in
         if is_list (get_or raw ''events'' VNone)
         then (case ingest_batch rt now tick attempts ip raw s of
             (Inl e, s') \<Rightarrow> (Inl e, s')
           | (Inr r, s') \<Rightarrow> (Inr (respond c q (batch_status r) (batch_result_to_dict r)), s'))
         else (case ingest_event rt now tick (attempts 0) ip (VDict raw) s of
             (Inl e, s') \<Rightarrow> (Inl e, s')
           | (Inr r, s') \<Rightarrow> (Inr (respond c q (status_for (ir_status r) (ir_retryable r)) (ingest_result_to_dict r)), s'))))"

definition do_OPTIONS :: "http_lib \<Rightarrow> ingest_service \<Rightarrow> http_in \<Rightarrow> http_out" where
  "do_OPTIONS h s q =
     (if hl_url_path h (hi_path q) \<noteq> ic_path (sv_config s) then http_error (sv_config s) q 404 ''not_found''
      else \<lparr>ho_status = 204, ho_headers = cors_headers (sv_config s) q, ho_body = None\<rparr>)"

definition do_GET :: "http_lib \<Rightarrow> ingest_service \<Rightarrow> http_in \<Rightarrow> http_out" where
  "do_GET h s q =
     (if hl_url_path h (hi_path q) = ''/healthz''
      then respond (sv_config s) q 200 (VDict [(''status'', VStr ''ok''), (''forwarding_configured'', VBool (sv_forwarding s)),
        (''dedupe_backend'', VStr (store_backend (sv_dedupe s))), (''max_body_bytes'', VInt (ic_max_body_bytes (sv_config s))),
        (''max_batch_events'', VInt (ic_max_batch_events (sv_config s)))])
      else http_error (sv_config s) q 404 ''not_found'')"

subsection \<open>Facts\<close>

lemma walk_forwarded_last:
  assumes "\<And>p. p \<in> set hops \<Longrightarrow> \<exists>x. normalize_ip h p = Some x \<and> is_trusted_proxy h networks x"
    and "normalize_ip h a = Some candidate" and "\<not> is_trusted_proxy h networks candidate"
  shows "walk_forwarded h networks peer (hops @ a # rest) = candidate"
  using assms
proof (induction hops)
  case (Cons p hops)
  from Cons.prems(1) [of p] obtain x where "normalize_ip h p = Some x" "is_trusted_proxy h networks x" by auto
  with Cons show ?case by simp
qed simp

text \<open>
  Where a proxy adds a header line of its own instead of extending the one it received, the handler reads the
  first line, which is the client's: the address it claims is taken for the client's address.
\<close>

lemma duplicate_header_spoofs:
  assumes "hi_peer q = Some peer" and "peer \<noteq> []" and "ic_trusted_proxy_cidrs c \<noteq> []" and "is_trusted_proxy h (ic_trusted_proxy_cidrs c) peer"
    and "hi_headers q = [(py_lower (ic_real_ip_header c), claimed), (py_lower (ic_real_ip_header c), added)]"
    and "claimed \<noteq> []" and "split_on (CHR '','') claimed = [claimed]"
    and "normalize_ip h claimed = Some candidate" and "\<not> is_trusted_proxy h (ic_trusted_proxy_cidrs c) candidate"
  shows "client_ip h c q = Some candidate"
  using assms by (simp add: client_ip_def given_def header_def Let_def)

text \<open>A token with a character outside ASCII, sent by anybody, raises in the comparison instead of being refused.\<close>

lemma non_ascii_token_raises:
  assumes "sv_api_token s = Some token" and "ch \<in> set (supplied_token q)" and "\<not> code ch < (128::nat)"
  shows "\<exists>m. authorized s q = Inl (TypeError m)"
  using assms by (auto simp: authorized_def compare_digest_def list_all_iff)

lemma authorized_True: "authorized s q = Inr True \<Longrightarrow> sv_api_token s = None \<or> sv_api_token s = Some (supplied_token q)"
  by (auto simp: authorized_def compare_digest_def split: option.splits if_splits)

lemma read_request_raw:
  assumes "read_request h rt s q = Inr (Inr raw)"
  shows "authorized s q = Inr True \<and> hl_url_path h (hi_path q) = ic_path (sv_config s) \<and> media_type q = ''application/json''
    \<and> (\<exists>n t. 1 \<le> n \<and> n \<le> ic_max_body_bytes (sv_config s) \<and> hl_decode h (take (nat n) (hi_body q)) = Some t
         \<and> json_loads rt t = Inr (VDict raw))"
proof -
  from assms have a: "authorized s q = Inr True"
    by (auto simp: read_request_def Let_def bindR_Inr_iff split: if_splits)
  with assms show ?thesis
    by (auto simp: read_request_def Let_def split: if_splits option.splits sum.splits pyval.splits)
      (metis linorder_not_less)
qed

subsection \<open>Properties\<close>


definition sample_lib :: http_lib where
  "sample_lib = \<lparr>hl_address = (\<lambda>v. if v \<in> {''10.0.0.1'', ''203.0.113.9'', ''198.51.100.7''} then Some v else None),
     hl_member = (\<lambda>a n. prefix ''10.'' a), hl_url_path = (\<lambda>v. v), hl_int = (\<lambda>s. None), hl_decode = Some\<rparr>"

definition sample_request :: http_in where
  "sample_request = \<lparr>hi_path = ''/api/v1/events'', hi_peer = Some ''10.0.0.1'',
     hi_headers = [(''x-forwarded-for'', ''198.51.100.7,203.0.113.9,10.0.0.1'')], hi_body = []\<rparr>"


text \<open>
  C24: the service only ever sees requests that passed every check.  A POST that changes the service in any way was sent to
  the configured path, carries the configured token where there is one, is JSON, announces between one
  byte and the configured maximum, and what is served is the object that these bytes decode to.
\<close>
theorem only_checked_posts_served:
  assumes "do_POST h rt now tick attempts q s = (r, s')" and "s' \<noteq> s"
  shows "(sv_api_token s = None \<or> sv_api_token s = Some (supplied_token q))
    \<and> hl_url_path h (hi_path q) = ic_path (sv_config s) \<and> media_type q = ''application/json''
    \<and> (\<exists>n t raw. 1 \<le> n \<and> n \<le> ic_max_body_bytes (sv_config s) \<and> hl_decode h (take (nat n) (hi_body q)) = Some t
         \<and> json_loads rt t = Inr (VDict raw)
         \<and> (s' = snd (ingest_batch rt now tick attempts (client_ip h (sv_config s) q) raw s)
            \<or> s' = snd (ingest_event rt now tick (attempts 0) (client_ip h (sv_config s) q) (VDict raw) s)))"
proof -
  from assms obtain raw where raw: "read_request h rt s q = Inr (Inr raw)"
    by (auto simp: do_POST_def Let_def split: sum.splits prod.splits)
  with assms(1) have s': "s' = snd (ingest_batch rt now tick attempts (client_ip h (sv_config s) q) raw s)
      \<or> s' = snd (ingest_event rt now tick (attempts 0) (client_ip h (sv_config s) q) (VDict raw) s)"
    by (auto simp: do_POST_def Let_def split: if_splits sum.splits prod.splits)
  from read_request_raw [OF raw] authorized_True [of s q] s' show ?thesis by blast
qed

definition sample_post :: http_in where
  "sample_post = \<lparr>hi_path = ''/api/v1/events'', hi_peer = None,
     hi_headers = [(''content-type'', ''application/json''), (''content-length'', ''2'')], hi_body = ''{}''\<rparr>"

definition sample_server :: ingest_service where
  "sample_server = \<lparr>sv_config = default_config, sv_forwarding = False, sv_limiter = limiter_create 120 None,
     sv_dedupe = Memory (cache_create 86400 100000), sv_api_token = None, sv_calls = []\<rparr>"

theorem only_checked_posts_served_witness:
  "\<exists>r s'. do_POST (sample_lib\<lparr>hl_int := (\<lambda>_. Some 2)\<rparr>) (witness_runtime\<lparr>json_loads := (\<lambda>_. Inr (VDict [(''events'', VList [])]))\<rparr>)
     undefined 0 (\<lambda>_. undefined) sample_post sample_server = (r, s') \<and> s' \<noteq> sample_server \<and> media_type sample_post = ''application/json''"
proof -
  let ?h = "sample_lib\<lparr>hl_int := (\<lambda>_. Some 2)\<rparr>" and ?rt = "witness_runtime\<lparr>json_loads := (\<lambda>_. Inr (VDict [(''events'', VList [])]))\<rparr>"
  have fields: "hi_path sample_post = ''/api/v1/events''" "hi_body sample_post = ''{}''" by (simp_all add: sample_post_def)
  have names: "header sample_post ''Content-Type'' = Some ''application/json''" "header sample_post ''Content-Length'' = Some ''2''"
    by (simp_all add: header_def sample_post_def py_lower_def lower_char_def is_upper_latin_def char_of_def bit_0)
  have media: "media_type sample_post = ''application/json''"
    by (simp add: media_type_def names py_lower_def lower_char_def is_upper_latin_def py_strip_def py_lstrip_def is_space_def)
  have raw: "read_request ?h ?rt sample_server sample_post = Inr (Inr [(''events'', VList [])])"
    using media names by (simp add: read_request_def fields authorized_def sample_server_def sample_lib_def default_config_def Let_def)
  have ip: "client_ip ?h default_config sample_post = None" by (simp add: client_ip_def given_def sample_post_def Let_def)
  have "\<exists>r. do_POST ?h ?rt undefined 0 (\<lambda>_. undefined) sample_post sample_server =
      (r, sample_server\<lparr>sv_limiter := snd (allow_many (limiter_create 120 None) ''unknown'' 1 0)\<rparr>)"
    using raw ip
    by (simp add: do_POST_def ingest_batch_def get_or_def client_key_def given_def batch_charge_def validate_batch_def
        unknown_keys_def sample_server_def allow_many_def limiter_create_def refilled_def bucket_of_def MAX_BUCKETS_def Let_def)
  then obtain r where r: "do_POST ?h ?rt undefined 0 (\<lambda>_. undefined) sample_post sample_server =
      (r, sample_server\<lparr>sv_limiter := snd (allow_many (limiter_create 120 None) ''unknown'' 1 0)\<rparr>)" by blast
  moreover have "sample_server\<lparr>sv_limiter := snd (allow_many (limiter_create 120 None) ''unknown'' 1 0)\<rparr> \<noteq> sample_server"
    by (simp add: sample_server_def allow_many_def limiter_create_def refilled_def bucket_of_def MAX_BUCKETS_def Let_def)
  ultimately show ?thesis using only_checked_posts_served by blast
qed

end
