(* ===== verification/Projection.thy ===== *)
theory Projection
  imports Service Shield
begin

section \<open>The projection onto PyTagShield (control/pytagshield.py)\<close>

text \<open>
  A managed payload is turned into the configuration of the delivery gateway PyTagShield: one route
  for every tag whose triggers are constraints on the event name, one destination entry for every
  pair of a destination and a consent purpose.  Whatever cannot be expressed is reported as an error
  and its tag is left out.  The gateway itself is not part of the repository; a route pattern is
  read with the documented meaning of its wildcards, \<open>glob\<close>.
\<close>

subsection \<open>Issues\<close>

record shield_issue =
  si_severity :: string
  si_code :: string
  si_message :: string
  si_tag_id :: "string option"
  si_destination_id :: "string option"

definition shield_issue_to_dict :: "shield_issue \<Rightarrow> pyval" where
  "shield_issue_to_dict i = VDict [
     (''severity'', VStr (si_severity i)), (''code'', VStr (si_code i)), (''message'', VStr (si_message i)),
     (''tag_id'', opt_str (si_tag_id i)), (''destination_id'', opt_str (si_destination_id i))]"

record shield_export =
  sx_config :: pydict
  sx_errors :: "shield_issue list"
  sx_warnings :: "shield_issue list"

definition shield_exportable :: "shield_export \<Rightarrow> bool" where
  "shield_exportable x \<longleftrightarrow> sx_errors x = []"

definition shield_export_to_dict :: "shield_export \<Rightarrow> pyval" where
  "shield_export_to_dict x = VDict [
     (''exportable'', VBool (shield_exportable x)), (''config'', VDict (sx_config x)),
     (''errors'', VList (map shield_issue_to_dict (sx_errors x))),
     (''warnings'', VList (map shield_issue_to_dict (sx_warnings x)))]"

text \<open>The two lists the code appends to while it works.\<close>

record issue_log =
  il_errors :: "shield_issue list"
  il_warnings :: "shield_issue list"

definition shield_error :: "string \<Rightarrow> string \<Rightarrow> string option \<Rightarrow> string option \<Rightarrow> issue_log \<Rightarrow> issue_log" where
  "shield_error cd message tag dest lg = lg\<lparr>il_errors := il_errors lg @
     [\<lparr>si_severity = ''error'', si_code = cd, si_message = message, si_tag_id = tag, si_destination_id = dest\<rparr>]\<rparr>"

definition shield_warning :: "string \<Rightarrow> string \<Rightarrow> string option \<Rightarrow> string option \<Rightarrow> issue_log \<Rightarrow> issue_log" where
  "shield_warning cd message tag dest lg = lg\<lparr>il_warnings := il_warnings lg @
     [\<lparr>si_severity = ''warning'', si_code = cd, si_message = message, si_tag_id = tag, si_destination_id = dest\<rparr>]\<rparr>"

lemma shield_log_simps [simp]:
  "il_errors (shield_error cd m t d lg) \<noteq> []" "length (il_errors (shield_error cd m t d lg)) = Suc (length (il_errors lg))"
  "il_errors (shield_warning cd m t d lg) = il_errors lg"
  by (simp_all add: shield_error_def shield_warning_def)

subsection \<open>Event-name patterns of a condition\<close>

text \<open>
  \<open>_UnsupportedTrigger\<close> is caught by the caller, any other exception is not.  The sets of patterns
  are lists without repetitions; their order is settled when they are sorted.
\<close>

datatype trigger_error =
    UnsupportedTrigger string
  | Raised exn

definition is_mapping :: "pyval \<Rightarrow> bool" where
  "is_mapping v = (case v of VDict _ \<Rightarrow> True | _ \<Rightarrow> False)"

definition usable_text :: "pyval \<Rightarrow> bool" where
  "usable_text v = (case v of VStr s \<Rightarrow> s \<noteq> [] | _ \<Rightarrow> False)"

definition text_of :: "pyval \<Rightarrow> string" where
  "text_of v = (case v of VStr s \<Rightarrow> s | _ \<Rightarrow> [])"

text \<open>\<open>[child for child in condition.get("conditions", ()) if isinstance(child, Mapping)]\<close>.\<close>

definition mapping_children :: "pydict \<Rightarrow> pyval list res" where
  "mapping_children d = bindR (py_iter (get_or d ''conditions'' (VList []))) (\<lambda>cs. Inr (filter is_mapping cs))"

lemma size_mapping_children:
  assumes "mapping_children d = Inr cs"
  shows "size_list size cs < size (VDict d)"
proof -
  obtain xs where xs: "py_iter (get_or d ''conditions'' (VList [])) = Inr xs" "cs = filter is_mapping xs"
    using assms by (auto simp: mapping_children_def bindR_Inr_iff)
  have le: "size_list size (filter is_mapping ys) \<le> size_list size ys" for ys by (induction ys) auto
  show ?thesis
  proof (cases "map_of d ''conditions''")
    case None
    with xs show ?thesis by (simp add: get_or_def)
  next
    case (Some v)
    with xs have it: "py_iter v = Inr xs" by (simp add: get_or_def)
    have "size_list size cs \<le> size v"
    proof (cases v)
      case (VStr s)
      with it have "filter is_mapping xs = []" by (auto simp: is_mapping_def filter_empty_conv)
      with xs show ?thesis by simp
    next
      case (VDict e)
      with it have "filter is_mapping xs = []" by (auto simp: is_mapping_def filter_empty_conv)
      with xs show ?thesis by simp
    qed (use it xs le in \<open>auto intro: le_SucI\<close>)
    with size_map_of [OF Some] show ?thesis by simp
  qed
qed

function patterns_from_condition :: "pyval \<Rightarrow> trigger_error + string list option"
  and all_patterns :: "pyval list \<Rightarrow> string list option \<Rightarrow> trigger_error + string list"
  and any_patterns :: "pyval list \<Rightarrow> string list \<Rightarrow> trigger_error + string list" where
  "patterns_from_condition condition = (case condition of
     VDict d \<Rightarrow>
       (let op = get_or d ''op'' VNone; path = get_or d ''path'' VNone; v = get_or d ''value'' VNone in
        if is_list op \<or> is_mapping op
        then Inl (Raised (TypeError (''unhashable type: '' @ repr_str (type_name op))))
        else if (op = VStr ''equals'' \<or> op = VStr ''matches_glob'') \<and> path = VStr ''event.name'' then
          (if \<not> usable_text v then Inl (UnsupportedTrigger ''event.name comparison has no usable pattern'')
           else Inr (Some [text_of v]))
        else if op = VStr ''in'' \<and> path = VStr ''event.name'' then
          (case v of
             VList (x # xs) \<Rightarrow>
               if list_ex (\<lambda>item. \<not> usable_text item) (x # xs)
               then Inl (UnsupportedTrigger (''event.name '' @ repr_str ''in'' @ '' contains a non-string pattern''))
               else Inr (Some (remdups (map text_of (x # xs))))
           | _ \<Rightarrow> Inl (UnsupportedTrigger (''event.name '' @ repr_str ''in'' @ '' condition has no usable patterns'')))
        else if op = VStr ''all'' then
          (case mapping_children d of
             Inl e \<Rightarrow> Inl (Raised e)
           | Inr children \<Rightarrow>
               if children = [] then Inr None
               else (case all_patterns children None of
                   Inl e \<Rightarrow> Inl e
                 | Inr combined \<Rightarrow>
                     if combined = [] then Inl (UnsupportedTrigger ''conditions require contradictory event names'')
                     else Inr (Some combined)))
        else if op = VStr ''any'' then
          (case mapping_children d of
             Inl e \<Rightarrow> Inl (Raised e)
           | Inr children \<Rightarrow>
               if children = [] then Inl (UnsupportedTrigger (''empty '' @ repr_str ''any'' @ '' condition''))
               else (case any_patterns children [] of Inl e \<Rightarrow> Inl e | Inr combined \<Rightarrow> Inr (Some combined)))
        else Inl (UnsupportedTrigger ''condition cannot be represented by PyTagShield match rules''))
   | _ \<Rightarrow> Inl (Raised (AttributeError (type_name condition @ '' object has no attribute '' @ repr_str ''get''))))"
| "all_patterns [] combined = Inr (case combined of None \<Rightarrow> [] | Some ps \<Rightarrow> ps)"
| "all_patterns (child # children) combined = (case patterns_from_condition child of
     Inl e \<Rightarrow> Inl e
   | Inr None \<Rightarrow> Inl (UnsupportedTrigger ''condition mixes event.name with unsupported predicates'')
   | Inr (Some ps) \<Rightarrow> all_patterns children
       (Some (case combined of None \<Rightarrow> ps | Some qs \<Rightarrow> filter (\<lambda>q. q \<in> set ps) qs)))"
| "any_patterns [] combined = Inr combined"
| "any_patterns (child # children) combined = (case patterns_from_condition child of
     Inl e \<Rightarrow> Inl e
   | Inr None \<Rightarrow> Inl (UnsupportedTrigger ''condition branch has no event.name constraint'')
   | Inr (Some ps) \<Rightarrow> any_patterns children (List.union combined ps))"
  by pat_completeness auto
termination
  by (relation "measure (\<lambda>x. case x of Inl v \<Rightarrow> 2 * size v
        | Inr (Inl (cs, _)) \<Rightarrow> 2 * size_list size cs + 1 | Inr (Inr (cs, _)) \<Rightarrow> 2 * size_list size cs + 1)")
    (auto dest!: size_mapping_children)

declare patterns_from_condition.simps [simp del]

definition trigger_patterns :: "trigger \<Rightarrow> trigger_error + string list" where
  "trigger_patterns t = (case patterns_from_condition (trigger_conditions t) of
     Inl e \<Rightarrow> Inl e
   | Inr (Some ps) \<Rightarrow> Inr ps
   | Inr None \<Rightarrow>
       if trigger_type t = ''page_view'' then Inr [''page_view'']
       else if py_eq (trigger_conditions t) ALL_TRUE
       then Inl (UnsupportedTrigger (''trigger type '' @ repr_str (trigger_type t)
         @ '' needs an event.name condition for server-side routing''))
       else Inl (UnsupportedTrigger (''trigger type '' @ repr_str (trigger_type t) @ '' has no event.name condition'')))"

subsection \<open>Destination settings\<close>

text \<open>The resolver gives a value or the text of the exception it raised.\<close>

type_synonym secret_resolver = "string \<Rightarrow> string + pyval"

definition secret_issue :: "string \<Rightarrow> string \<Rightarrow> destination \<Rightarrow> issue_log \<Rightarrow> 'a option \<times> issue_log" where
  "secret_issue cd message d lg = (None, shield_error cd message None (Some (destination_id d)) lg)"

definition shield_secret ::
    "secret_resolver option \<Rightarrow> destination \<Rightarrow> string \<Rightarrow> issue_log \<Rightarrow> string option \<times> issue_log" where
  "shield_secret resolver d key lg = (case map_of (destination_secret_refs d) key of
     Some reference \<Rightarrow>
       (case resolver of
          None \<Rightarrow> secret_issue ''secret_resolver_required'' (''destination '' @ repr_str (destination_name d)
            @ '' needs secret '' @ repr_str key @ ''; provide a resolver'') d lg
        | Some resolve \<Rightarrow>
            (case resolve reference of
               Inl exc \<Rightarrow> secret_issue ''secret_resolution_failed'' (''cannot resolve '' @ repr_str key
                 @ '' for destination '' @ repr_str (destination_name d) @ '': '' @ exc) d lg
             | Inr v \<Rightarrow>
                 if \<not> usable_text v
                 then secret_issue ''secret_empty'' (''resolved secret '' @ repr_str key @ '' for destination ''
                   @ repr_str (destination_name d) @ '' is empty'') d lg
                 else (Some (text_of v), lg)))
   | None \<Rightarrow>
       (let literal = get_or (destination_config d) key VNone in
        if usable_text literal
        then (Some (text_of literal), shield_warning ''literal_credential'' (''destination ''
          @ repr_str (destination_name d) @ '' embeds a literal '' @ repr_str key @ ''; prefer secret_refs'')
          None (Some (destination_id d)) lg)
        else secret_issue ''credential_missing'' (''destination '' @ repr_str (destination_name d)
          @ '' requires '' @ repr_str key) d lg))"

definition copy_mapping :: "pyval \<Rightarrow> pydict" where
  "copy_mapping v = (case v of VDict d \<Rightarrow> d | _ \<Rightarrow> [])"

text \<open>\<open>for key in ...: if key in config: settings[key] = f(config[key])\<close>.\<close>

definition copied :: "(pyval \<Rightarrow> pyval) \<Rightarrow> string list \<Rightarrow> pydict \<Rightarrow> pydict" where
  "copied f ks config = concat (map (\<lambda>k. case map_of config k of None \<Rightarrow> [] | Some v \<Rightarrow> [(k, f v)]) ks)"

text \<open>\<open>str.upper\<close> on the characters of the model; the two whose capital lies outside Latin-1 stay.\<close>

definition upper_text :: "string \<Rightarrow> string" where
  "upper_text s = concat (map (\<lambda>c.
     if CHR ''a'' \<le> c \<and> c \<le> CHR ''z'' \<or> CHR 0xE0 \<le> c \<and> c \<le> CHR 0xFE \<and> c \<noteq> CHR 0xF7 then [char_of (code c - 32)]
     else if c = CHR 0xDF then ''SS'' else [c]) s)"

text \<open>The branches of \<open>_destination_settings\<close>, up to the settings of the kind.\<close>

definition required_text :: "string \<Rightarrow> string \<Rightarrow> string \<Rightarrow> destination \<Rightarrow> issue_log
    \<Rightarrow> (string \<Rightarrow> issue_log \<Rightarrow> (string \<times> pydict) option \<times> issue_log) \<Rightarrow> (string \<times> pydict) option \<times> issue_log" where
  "required_text key cd what d lg continue =
     (let v = get_or (destination_config d) key VNone in
      if \<not> usable_text v
      then secret_issue cd (what @ '' destination '' @ repr_str (destination_name d) @ '' needs config.'' @ key) d lg
      else continue (text_of v) lg)"

definition required_secret :: "secret_resolver option \<Rightarrow> string \<Rightarrow> destination \<Rightarrow> issue_log
    \<Rightarrow> (string \<Rightarrow> string \<times> pydict) \<Rightarrow> (string \<times> pydict) option \<times> issue_log" where
  "required_secret resolver key d lg build = (case shield_secret resolver d key lg of
     (None, lg') \<Rightarrow> (None, lg')
   | (Some s, lg') \<Rightarrow> (Some (build s), lg'))"

definition kind_settings :: "py_runtime \<Rightarrow> secret_resolver option \<Rightarrow> destination \<Rightarrow> issue_log
    \<Rightarrow> (string \<times> pydict) option \<times> issue_log" where
  "kind_settings rt resolver d lg =
     (let kind = destination_kind d; config = destination_config d in
      if kind = ''log'' \<or> kind = ''debug'' then (Some (''log'', []), lg)
      else if kind = ''ga4'' then
        required_text ''measurement_id'' ''measurement_id_missing'' ''GA4'' d lg (\<lambda>measurement_id lg.
        required_secret resolver ''api_secret'' d lg (\<lambda>api_secret.
          (''ga4'', [(''measurement_id'', VStr measurement_id), (''api_secret'', VStr api_secret)]
             @ copied id [''host'', ''debug_mode''] config)))
      else if kind = ''posthog'' then
        required_secret resolver ''api_key'' d lg (\<lambda>api_key.
          (''posthog'', [(''api_key'', VStr api_key)] @ copied id [''host''] config))
      else if kind = ''meta'' then
        required_text ''pixel_id'' ''pixel_id_missing'' ''Meta'' d lg (\<lambda>pixel_id lg.
        required_secret resolver ''access_token'' d lg (\<lambda>access_token.
          (''meta'', [(''pixel_id'', VStr pixel_id), (''access_token'', VStr access_token)]
             @ copied id [''host'', ''api_version'', ''test_event_code''] config)))
      else if kind = ''sgtm'' then
        required_text ''url'' ''url_missing'' ''sGTM'' d lg (\<lambda>url lg.
          (Some (''sgtm'', [(''url'', VStr url)] @ copied id [''measurement_id''] config
             @ copied (\<lambda>v. VDict (copy_mapping v)) [''query'', ''headers''] config), lg))
      else if kind = ''http_webhook'' \<or> kind = ''webhook'' then
        (let request_method = upper_text (py_str rt (get_or config ''method'' (VStr ''POST''))) in
         if request_method \<noteq> ''POST''
         then secret_issue ''webhook_method_unsupported'' (''PyTagShield webhooks are POST-only; ''
           @ repr_str (destination_name d) @ '' uses '' @ request_method) d lg
         else required_text ''url'' ''url_missing'' ''webhook'' d lg (\<lambda>url lg.
           (Some (''webhook'', [(''url'', VStr url)]
             @ copied (\<lambda>v. VDict (copy_mapping v)) [''headers''] config), lg)))
      else secret_issue ''destination_kind_unsupported'' (''destination kind '' @ repr_str kind
        @ '' is not understood by PyTagShield'') d lg)"

definition destination_settings :: "py_runtime \<Rightarrow> secret_resolver option \<Rightarrow> destination \<Rightarrow> issue_log
    \<Rightarrow> (string \<times> pydict) option \<times> issue_log" where
  "destination_settings rt resolver d lg = (case kind_settings rt resolver d lg of
     (None, lg') \<Rightarrow> (None, lg')
   | (Some (shield_kind, settings), lg') \<Rightarrow>
       (Some (shield_kind, settings), foldl (\<lambda>lg key.
          if key \<notin> set (keys settings) \<and> key \<notin> {''api_secret'', ''api_key'', ''access_token''}
          then shield_warning ''destination_setting_not_projected'' (''destination '' @ repr_str (destination_name d)
            @ '' config field '' @ repr_str key @ '' is not projected'') None (Some (destination_id d)) lg
          else lg) lg' (keys (destination_config d))))"

subsection \<open>Fresh names\<close>

text \<open>\<open>while candidate in used: candidate = f"\{candidate\}_"\<close>.\<close>

function unused_name :: "string list \<Rightarrow> string \<Rightarrow> string" where
  "unused_name used candidate =
     (if candidate \<in> set used then unused_name used (candidate @ ''_'') else candidate)"
  by pat_completeness auto
termination
proof (relation "measure (\<lambda>(used, c). card {u \<in> set used. length c \<le> length u})", simp)
  fix used :: "string list" and c :: string
  assume "c \<in> set used"
  then have "c \<in> {u \<in> set used. length c \<le> length u} - {u \<in> set used. length (c @ ''_'') \<le> length u}" by simp
  moreover have "{u \<in> set used. length (c @ ''_'') \<le> length u} \<subseteq> {u \<in> set used. length c \<le> length u}" by auto
  ultimately have "{u \<in> set used. length (c @ ''_'') \<le> length u} \<subset> {u \<in> set used. length c \<le> length u}" by blast
  then show "((used, c @ ''_''), used, c) \<in> measure (\<lambda>(used, c). card {u \<in> set used. length c \<le> length u})"
    by (simp add: psubset_card_mono)
qed

declare unused_name.simps [simp del]

text \<open>\<open>_alias_name\<close>: the caller adds the name to the ones in use.\<close>

definition alias_name :: "destination \<Rightarrow> string option \<Rightarrow> string list \<Rightarrow> string" where
  "alias_name d purpose used =
     (let base = destination_name d @ '' ('' @ (if given purpose then the purpose else ''ungated'') @ '')'' in
      if base \<notin> set used then base
      else unused_name used (base @ '' ['' @ take 8 (destination_id d) @ '']''))"

subsection \<open>One tag\<close>

record projection =
  pj_log :: issue_log
  pj_used_aliases :: "string list"
  pj_used_routes :: "string list"
  pj_destinations :: "pydict list"
  pj_aliases :: "(string \<times> string option, string) dict"
  pj_purposes :: "string list"
  pj_routes :: "pydict list"

definition pj_error :: "string \<Rightarrow> string \<Rightarrow> string option \<Rightarrow> string option \<Rightarrow> projection \<Rightarrow> projection" where
  "pj_error cd message tag dest st = st\<lparr>pj_log := shield_error cd message tag dest (pj_log st)\<rparr>"

definition pj_warning :: "string \<Rightarrow> string \<Rightarrow> tag \<Rightarrow> projection \<Rightarrow> projection" where
  "pj_warning cd message t st = st\<lparr>pj_log := shield_warning cd message (Some (tag_id t)) None (pj_log st)\<rparr>"

definition shield_entry :: "string \<Rightarrow> string \<Rightarrow> bool \<Rightarrow> string option \<Rightarrow> pydict \<Rightarrow> pydict" where
  "shield_entry alias shield_kind enabled purpose settings = dict_put
     ([(''name'', VStr alias), (''type'', VStr shield_kind), (''enabled'', VBool enabled)]
      @ (case purpose of None \<Rightarrow> [] | Some p \<Rightarrow> [(''purpose'', VStr p)])) shield_kind (VDict settings)"

text \<open>One turn of the loop over the destination ids, on the state, the selected aliases and \<open>valid\<close>.\<close>

definition project_destination ::
    "py_runtime \<Rightarrow> secret_resolver option \<Rightarrow> (string, destination) dict \<Rightarrow> tag
     \<Rightarrow> projection \<times> string list \<times> bool \<Rightarrow> string \<Rightarrow> projection \<times> string list \<times> bool" where
  "project_destination rt resolver by_id t acc i = (case acc of (st, selected, ok) \<Rightarrow>
     (case map_of by_id i of
        None \<Rightarrow> (pj_error ''destination_missing'' (''tag '' @ repr_str (tag_name t)
          @ '' references missing destination '' @ i) (Some (tag_id t)) (Some i) st, selected, False)
      | Some d \<Rightarrow>
          (let key = (destination_id d, tag_consent_purpose t) in
           (case map_of (pj_aliases st) key of
              Some alias \<Rightarrow> (st, selected @ [alias], ok)
            | None \<Rightarrow>
                (case destination_settings rt resolver d (pj_log st) of
                   (None, lg) \<Rightarrow> (st\<lparr>pj_log := lg\<rparr>, selected, False)
                 | (Some (shield_kind, settings), lg) \<Rightarrow>
                     (let alias = alias_name d (tag_consent_purpose t) (pj_used_aliases st) in
                      (st\<lparr>pj_log := lg,
                          pj_used_aliases := List.insert alias (pj_used_aliases st),
                          pj_purposes := (case tag_consent_purpose t of None \<Rightarrow> pj_purposes st
                            | Some p \<Rightarrow> List.insert p (pj_purposes st)),
                          pj_destinations := pj_destinations st
                            @ [shield_entry alias shield_kind (destination_enabled d) (tag_consent_purpose t) settings],
                          pj_aliases := dict_put (pj_aliases st) key alias\<rparr>, selected @ [alias], ok)))))))"

text \<open>One turn of the loop over the trigger ids, on the state, the patterns and \<open>valid\<close>.\<close>

definition project_trigger ::
    "(string, trigger) dict \<Rightarrow> tag \<Rightarrow> projection \<times> string list \<times> bool \<Rightarrow> string
     \<Rightarrow> (projection \<times> string list \<times> bool) res" where
  "project_trigger by_id t acc i = (case acc of (st, patterns, ok) \<Rightarrow>
     (case map_of by_id i of
        None \<Rightarrow> Inr (pj_error ''trigger_missing'' (''tag '' @ repr_str (tag_name t)
          @ '' references missing trigger '' @ i) (Some (tag_id t)) None st, patterns, False)
      | Some trig \<Rightarrow>
          if \<not> trigger_enabled trig then Inr (st, patterns, ok)
          else (case trigger_patterns trig of
              Inl (Raised e) \<Rightarrow> Inl e
            | Inl (UnsupportedTrigger why) \<Rightarrow> Inr (pj_error ''trigger_not_projectable'' (''tag ''
                @ repr_str (tag_name t) @ '' trigger '' @ repr_str (trigger_name trig) @ '': '' @ why)
                (Some (tag_id t)) None st, patterns, False)
            | Inr ps \<Rightarrow> Inr (st, List.union patterns ps, ok))))"

fun project_triggers ::
    "(string, trigger) dict \<Rightarrow> tag \<Rightarrow> string list \<Rightarrow> projection \<times> string list \<times> bool
     \<Rightarrow> (projection \<times> string list \<times> bool) res" where
  "project_triggers by_id t [] acc = Inr acc"
| "project_triggers by_id t (i # is') acc =
     bindR (project_trigger by_id t acc i) (\<lambda>acc'. project_triggers by_id t is' acc')"

definition shield_route :: "string \<Rightarrow> string list \<Rightarrow> bool \<Rightarrow> string list \<Rightarrow> pydict" where
  "shield_route name aliases enabled events = [
     (''name'', VStr name), (''destinations'', str_list aliases), (''enabled'', VBool enabled),
     (''match'', VDict [(''events'', str_list events)])]"

definition route_name :: "tag \<Rightarrow> string list \<Rightarrow> string" where
  "route_name t used = unused_name used (tag_name t @ '' ('' @ take 8 (tag_id t) @ '')'')"

definition project_tag ::
    "py_runtime \<Rightarrow> secret_resolver option \<Rightarrow> (string, destination) dict \<Rightarrow> (string, trigger) dict
     \<Rightarrow> tag \<Rightarrow> projection \<Rightarrow> projection res" where
  "project_tag rt resolver destinations triggers t st =
     (let start = (if tag_destination_ids t = []
          then (pj_error ''tag_without_destination'' (''tag '' @ repr_str (tag_name t) @ '' has no destinations'')
            (Some (tag_id t)) None st, [], False)
          else (st, [], True));
          (st, selected, ok) = foldl (project_destination rt resolver destinations t) start (tag_destination_ids t)
      in bindR (project_triggers triggers t (tag_trigger_ids t) (st, [], ok)) (\<lambda>(st, patterns, ok).
         let (st, ok) = (if patterns = []
               then (pj_error ''event_name_unresolved'' (''tag '' @ repr_str (tag_name t)
                 @ '' has no enabled trigger with a projectable event name'') (Some (tag_id t)) None st, False)
               else (st, ok));
             st = (if tag_variable_ids t = [] then st else pj_warning ''variables_not_projected''
               (''tag '' @ repr_str (tag_name t) @ '' uses variables; PyTagShield routes the incoming event as-is'') t st);
             st = (if tag_parameters t = [] then st else pj_warning ''parameters_not_projected''
               (''tag '' @ repr_str (tag_name t) @ '' parameters are not projected into PyTagShield routes'') t st)
         in if \<not> ok then Inr st
            else let name = route_name t (pj_used_routes st) in
              Inr (st\<lparr>pj_used_routes := List.insert name (pj_used_routes st),
                pj_routes := pj_routes st @ [shield_route name selected (tag_enabled t) (sort patterns)]\<rparr>)))"

fun project_tags ::
    "py_runtime \<Rightarrow> secret_resolver option \<Rightarrow> (string, destination) dict \<Rightarrow> (string, trigger) dict
     \<Rightarrow> tag list \<Rightarrow> projection \<Rightarrow> projection res" where
  "project_tags rt resolver destinations triggers [] st = Inr st"
| "project_tags rt resolver destinations triggers (t # ts) st =
     bindR (project_tag rt resolver destinations triggers t st)
       (\<lambda>st'. project_tags rt resolver destinations triggers ts st')"

subsection \<open>The whole payload\<close>

definition check_salt :: "pyval \<Rightarrow> issue_log \<Rightarrow> string \<times> issue_log" where
  "check_salt salt lg =
     (if \<not> usable_text salt
      then ([], shield_error ''pseudonymize_salt_required'' ''a non-empty pseudonymization salt is required'' None None lg)
      else if length (text_of salt) < 16
      then (text_of salt, shield_warning ''pseudonymize_salt_short''
        ''pseudonymization salt is shorter than 16 characters'' None None lg)
      else (text_of salt, lg))"

definition check_policy :: "string \<Rightarrow> issue_log \<Rightarrow> string \<times> issue_log" where
  "check_policy policy lg =
     (if policy \<notin> {''deny'', ''allow''}
      then (''deny'', shield_error ''default_policy_invalid'' (''default_policy must be '' @ repr_str ''deny''
        @ '' or '' @ repr_str ''allow'') None None lg)
      else (policy, lg))"

definition projection_start :: "issue_log \<Rightarrow> projection" where
  "projection_start lg = \<lparr>pj_log = lg, pj_used_aliases = [], pj_used_routes = [], pj_destinations = [],
     pj_aliases = [], pj_purposes = [], pj_routes = []\<rparr>"

definition shield_config :: "string \<Rightarrow> string \<Rightarrow> projection \<Rightarrow> pydict" where
  "shield_config salt policy st = [
     (''minimization'', VDict [(''pseudonymize_ids'', VBool True), (''pseudonymize_salt'', VStr salt)]),
     (''consent'', VDict [
       (''purposes'', str_list (if pj_purposes st = [] then [''analytics''] else sort (pj_purposes st))),
       (''default_policy'', VStr policy)]),
     (''destinations'', VList (map VDict (pj_destinations st))),
     (''routes'', VList (map VDict (pj_routes st)))]"

definition project_to_pytagshield ::
    "py_runtime \<Rightarrow> payload \<Rightarrow> pyval \<Rightarrow> string \<Rightarrow> secret_resolver option \<Rightarrow> shield_export res" where
  "project_to_pytagshield rt p salt policy resolver =
     (let (salt, lg) = check_salt salt \<lparr>il_errors = [], il_warnings = []\<rparr>;
          (policy, lg) = check_policy policy lg
      in bindR (project_tags rt resolver (index_by destination_id (payload_destinations p))
           (index_by trigger_id (payload_triggers p)) (payload_tags p) (projection_start lg)) (\<lambda>st.
         let lg = (if pj_routes st = []
           then shield_error ''no_exportable_routes'' ''no tag could be projected into a PyTagShield route'' None None (pj_log st)
           else pj_log st)
         in Inr \<lparr>sx_config = shield_config salt policy st, sx_errors = il_errors lg, sx_warnings = il_warnings lg\<rparr>))"

text \<open>\<open>ControlPlane.export_pytagshield\<close>.\<close>

definition export_pytagshield ::
    "machine \<Rightarrow> string \<Rightarrow> pyval \<Rightarrow> string option \<Rightarrow> string \<Rightarrow> secret_resolver option \<Rightarrow> string option
     \<Rightarrow> shield_export op" where
  "export_pytagshield m container_id salt version policy resolver org =
     bindW (load_revision m container_id version org) (\<lambda>(_, r).
     liftW (project_to_pytagshield (m_rt m) (rev_payload r) salt policy resolver))"

end
