(* ===== verification/Projection_Safety.thy ===== *)
theory Projection_Safety
  imports Projection "HOL-Library.Sublist"
begin

section \<open>What the projection keeps of a payload\<close>

subsection \<open>Patterns\<close>

text \<open>A text without wildcards matches only itself.\<close>

definition plain_text :: "string \<Rightarrow> bool" where
  "plain_text s \<longleftrightarrow> CHR ''*'' \<notin> set s \<and> CHR ''?'' \<notin> set s"

lemma glob_plain: "plain_text p \<Longrightarrow> glob p n \<longleftrightarrow> p = n"
  by (induction p n rule: glob.induct) (auto simp: plain_text_def)

text \<open>The names a condition compares \<open>event.name\<close> with literally.\<close>

fun literal_names :: "cond \<Rightarrow> string set" where
  "literal_names (CAll cs) = (\<Union>c \<in> set cs. literal_names c)"
| "literal_names (CAny cs) = (\<Union>c \<in> set cs. literal_names c)"
| "literal_names (CNot c) = literal_names c"
| "literal_names (CExists p) = {}"
| "literal_names (CCompare op p v) = (if op = ''equals'' then {s. v = VStr s}
     else if op = ''in'' then {s. \<exists>xs. v = VList xs \<and> VStr s \<in> set xs} else {})"

lemma is_mapping_cond [simp]: "is_mapping (cond_dict c)"
  by (cases c) (simp_all add: is_mapping_def)

lemma mapping_children_cond [simp]:
  "mapping_children [(''op'', o'), (''conditions'', VList (map cond_dict cs))] = Inr (map cond_dict cs)"
  by (simp add: mapping_children_def get_or_def filter_id_conv)

lemma usable_textD: "usable_text v \<Longrightarrow> v = VStr (text_of v)"
  by (cases v) (simp_all add: usable_text_def text_of_def)

lemma patterns_all:
  "patterns_from_condition (cond_dict (CAll cs)) = Inr r \<longleftrightarrow>
     (if cs = [] then r = None else \<exists>ps. all_patterns (map cond_dict cs) None = Inr ps \<and> ps \<noteq> [] \<and> r = Some ps)"
  by (subst patterns_from_condition.simps) (auto simp: Let_def get_or_def is_mapping_def split: sum.split)

lemma patterns_any:
  "patterns_from_condition (cond_dict (CAny cs)) = Inr r \<longleftrightarrow>
     cs \<noteq> [] \<and> (\<exists>ps. any_patterns (map cond_dict cs) [] = Inr ps \<and> r = Some ps)"
  by (subst patterns_from_condition.simps) (auto simp: Let_def get_or_def is_mapping_def split: sum.split)

lemma patterns_other:
  "patterns_from_condition (cond_dict (CNot c)) \<noteq> Inr r" "patterns_from_condition (cond_dict (CExists p)) \<noteq> Inr r"
  by (subst patterns_from_condition.simps, simp add: Let_def get_or_def is_mapping_def)+

lemmas patterns_nodes = patterns_all [unfolded cond_dict.simps] patterns_any [unfolded cond_dict.simps]
  patterns_other [unfolded cond_dict.simps]

lemma patterns_compare:
  assumes "patterns_from_condition (cond_dict (CCompare op p v)) = Inr r" and "op \<in> set COMPARISON_OPS"
  shows "p = ''event.name'' \<and> ((op = ''equals'' \<or> op = ''matches_glob'') \<and> (\<exists>s. v = VStr s \<and> r = Some [s])
    \<or> op = ''in'' \<and> (\<exists>xs. v = VList (map VStr xs) \<and> r = Some (remdups xs)))"
proof -
  have op: "op \<noteq> ''all''" "op \<noteq> ''any''" using assms(2) by (auto simp: op_lists)
  have xs: "\<not> list_ex (\<lambda>i. \<not> usable_text i) ys \<Longrightarrow> ys = map VStr (map text_of ys)" for ys
    by (induction ys) (auto dest: usable_textD)
  show ?thesis
  proof (cases "(op = ''equals'' \<or> op = ''matches_glob'') \<and> p = ''event.name''")
    case True
    with assms(1) have "usable_text v \<and> r = Some [text_of v]"
      by (subst (asm) patterns_from_condition.simps) (auto simp: Let_def get_or_def is_mapping_def split: if_splits)
    with True usable_textD show ?thesis by auto
  next
    case False
    have "op = ''in'' \<and> p = ''event.name''"
      using assms(1) op False
      by (subst (asm) patterns_from_condition.simps) (auto simp: Let_def get_or_def is_mapping_def split: if_splits)
    moreover from this obtain y ys where "v = VList (y # ys)"
      using assms(1) by (subst (asm) patterns_from_condition.simps)
        (auto simp: Let_def get_or_def is_mapping_def split: pyval.splits list.splits)
    moreover from calculation have "\<not> list_ex (\<lambda>i. \<not> usable_text i) (y # ys)" "r = Some (remdups (map text_of (y # ys)))"
      using assms(1) by (subst (asm) patterns_from_condition.simps; simp add: Let_def get_or_def is_mapping_def split: if_splits)+
    ultimately show ?thesis using xs [of "y # ys"] by metis
  qed
qed

lemma all_patterns_Inr:
  "all_patterns vs comb = Inr ps \<Longrightarrow> q \<in> set ps \<Longrightarrow>
     (\<forall>v \<in> set vs. \<exists>qs. patterns_from_condition v = Inr (Some qs) \<and> q \<in> set qs)
     \<and> (case comb of None \<Rightarrow> True | Some rs \<Rightarrow> q \<in> set rs)"
proof (induction vs arbitrary: comb)
  case (Cons v vs)
  then obtain qs where v: "patterns_from_condition v = Inr (Some qs)"
    and rest: "all_patterns vs (Some (case comb of None \<Rightarrow> qs | Some rs \<Rightarrow> filter (\<lambda>x. x \<in> set qs) rs)) = Inr ps"
    by (auto split: sum.splits option.splits)
  from Cons.IH [OF rest Cons.prems(2)] v show ?case by (auto split: option.splits)
qed (auto split: option.splits)

lemma any_patterns_Inr:
  "any_patterns vs comb = Inr ps \<Longrightarrow> q \<in> set ps \<Longrightarrow>
     q \<in> set comb \<or> (\<exists>v \<in> set vs. \<exists>qs. patterns_from_condition v = Inr (Some qs) \<and> q \<in> set qs)"
  by (induction vs arbitrary: comb) (fastforce split: sum.splits option.splits)+

lemma all_patterns_shape: "all_patterns vs comb = Inr ps \<Longrightarrow> v \<in> set vs \<Longrightarrow> \<exists>qs. patterns_from_condition v = Inr (Some qs)"
  by (induction vs arbitrary: comb) (fastforce split: sum.splits option.splits)+

lemma any_patterns_shape: "any_patterns vs comb = Inr ps \<Longrightarrow> v \<in> set vs \<Longrightarrow> \<exists>qs. patterns_from_condition v = Inr (Some qs)"
  by (induction vs arbitrary: comb) (fastforce split: sum.splits option.splits)+

text \<open>A condition that has patterns looks at nothing but the event name.\<close>

lemma patterns_paths:
  "patterns_from_condition (cond_dict c) = Inr r \<Longrightarrow> cond_ok c \<Longrightarrow> cond_paths c \<subseteq> {''event.name''}"
proof (induction c arbitrary: r)
  case (CAll cs)
  have "cond_paths c \<subseteq> {''event.name''}" if c: "c \<in> set cs" for c
  proof -
    from CAll.prems c obtain qs where "patterns_from_condition (cond_dict c) = Inr (Some qs)"
      by (auto simp: patterns_nodes split: if_splits dest!: all_patterns_shape)
    with CAll.IH [OF c] CAll.prems(2) c show ?thesis by simp
  qed
  then show ?case by auto
next
  case (CAny cs)
  have "cond_paths c \<subseteq> {''event.name''}" if c: "c \<in> set cs" for c
  proof -
    from CAny.prems c obtain qs where "patterns_from_condition (cond_dict c) = Inr (Some qs)"
      by (auto simp: patterns_nodes dest!: any_patterns_shape)
    with CAny.IH [OF c] CAny.prems(2) c show ?thesis by simp
  qed
  then show ?case by auto
next
  case (CCompare op p v)
  then show ?case by (auto dest!: patterns_compare [unfolded cond_dict.simps])
qed (auto simp: patterns_nodes)

lemma patterns_none: "patterns_from_condition (cond_dict c) = Inr None \<Longrightarrow> cond_ok c \<Longrightarrow> cond_holds look c"
  by (cases c) (auto simp: patterns_nodes patterns_other dest!: patterns_compare [unfolded cond_dict.simps] split: if_splits)

lemma compare_name:
  "n = s \<Longrightarrow> compare_val ''equals'' (VStr n) (VStr s)"
  "s \<in> set xs \<Longrightarrow> compare_val ''in'' (VStr s) (VList (map VStr xs))"
  "pattern_matches s n \<Longrightarrow> compare_val ''matches_glob'' (VStr n) (VStr s)"
  by (auto simp: compare_val_def strict_equal_def is_bool_def is_number_def)

lemma patterns_sound:
  assumes "patterns_from_condition (cond_dict c) = Inr (Some ps)" and "q \<in> set ps" and "glob q n"
    and "cond_ok c" and "\<forall>s \<in> literal_names c. plain_text s" and "CHR ''*'' \<notin> set n"
    and "look ''event.name'' = Some (VStr n)"
  shows "cond_holds look c"
  using assms(1,2,4,5)
proof (induction c arbitrary: ps)
  case (CAll cs)
  show ?case
  proof (simp, intro ballI)
    fix c
    assume c: "c \<in> set cs"
    from CAll.prems(1) have "all_patterns (map cond_dict cs) None = Inr ps"
      by (auto simp: patterns_nodes split: if_splits)
    from all_patterns_Inr [OF this CAll.prems(2)] c obtain qs
    where "patterns_from_condition (cond_dict c) = Inr (Some qs)" "q \<in> set qs" by auto
    from CAll.IH [OF c this] CAll.prems(3,4) c show "cond_holds look c" by auto
  qed
next
  case (CAny cs)
  from CAny.prems(1,2) obtain c qs where c: "c \<in> set cs" and "patterns_from_condition (cond_dict c) = Inr (Some qs)" "q \<in> set qs"
    by (auto simp: patterns_nodes dest!: any_patterns_Inr)
  from CAny.IH [OF this] CAny.prems(3,4) c show ?case by auto
next
  case (CCompare op p v)
  from patterns_compare [OF CCompare.prems(1)] CCompare.prems(3) have p: "p = ''event.name''" by simp
  from patterns_compare [OF CCompare.prems(1)] CCompare.prems(3)
  consider s where "op = ''equals''" "v = VStr s" "ps = [s]" | s where "op = ''matches_glob''" "v = VStr s" "ps = [s]"
    | xs where "op = ''in''" "v = VList (map VStr xs)" "ps = remdups xs" by auto
  then have "compare_val op (VStr n) v"
  proof cases
    case 1
    with CCompare.prems(2,4) assms(3) have "n = s" by (auto simp: glob_plain)
    with 1 show ?thesis by (simp add: compare_name)
  next
    case 2
    with CCompare.prems(2) assms(3) pattern_matches_glob [OF assms(6)] show ?thesis by (simp add: compare_name)
  next
    case 3
    with CCompare.prems(2,4) assms(3) have "n \<in> set xs" by (auto simp: glob_plain)
    with 3 show ?thesis by (simp add: compare_name)
  qed
  with assms(7) p show ?case by simp
qed (simp_all add: patterns_nodes)

subsection \<open>Destinations\<close>

definition SHIELD_KINDS :: "string list" where
  "SHIELD_KINDS = [''log'', ''ga4'', ''posthog'', ''meta'', ''sgtm'', ''webhook'']"

text \<open>Settings that cannot be made leave an error behind, the others leave none.\<close>

definition logged :: "'a option \<Rightarrow> issue_log \<Rightarrow> issue_log \<Rightarrow> bool" where
  "logged r lg lg' \<longleftrightarrow> (\<exists>es. il_errors lg' = il_errors lg @ es \<and> (es = [] \<longleftrightarrow> r \<noteq> None))"

lemma shield_error_errors: "\<exists>i. il_errors (shield_error cd m t d lg) = il_errors lg @ [i]"
  by (simp add: shield_error_def)

lemma logged_issue: "secret_issue cd m d lg = (r, lg') \<Longrightarrow> logged r lg lg'"
  by (auto simp: secret_issue_def logged_def shield_error_def)

lemma logged_done: "logged (Some x) lg lg"
  by (simp add: logged_def)

lemma shield_secret_logged: "shield_secret resolver d key lg = (r, lg') \<Longrightarrow> logged r lg lg'"
  by (auto simp: shield_secret_def Let_def logged_done split: option.splits sum.splits if_splits
      dest: logged_issue) (auto simp: logged_def)

lemma required_secret_logged: "required_secret resolver key d lg build = (r, lg') \<Longrightarrow> logged r lg lg'"
  by (auto simp: required_secret_def split: prod.splits option.splits dest!: shield_secret_logged) (auto simp: logged_def)

lemma required_text_logged:
  assumes "required_text key cd what d lg continue = (r, lg')" and "\<And>s r lg'. continue s lg = (r, lg') \<Longrightarrow> logged r lg lg'"
  shows "logged r lg lg'"
  using assms by (auto simp: required_text_def Let_def split: if_splits dest: logged_issue)

lemma kind_settings_logged: "kind_settings rt resolver d lg = (r, lg') \<Longrightarrow> logged r lg lg'"
  by (auto simp: kind_settings_def Let_def split: if_splits
      intro: logged_done dest: logged_issue required_secret_logged
      elim!: required_text_logged)

lemma required_secret_kind:
  "required_secret resolver key d lg build = (Some (sk, s), lg') \<Longrightarrow> \<exists>x. build x = (sk, s)"
  by (auto simp: required_secret_def split: prod.splits option.splits)

lemma required_text_kind:
  "required_text key cd what d lg continue = (Some (sk, s), lg') \<Longrightarrow> \<exists>x. continue x lg = (Some (sk, s), lg')"
  by (auto simp: required_text_def Let_def secret_issue_def split: if_splits)

lemma kind_settings_kind: "kind_settings rt resolver d lg = (Some (sk, s), lg') \<Longrightarrow> sk \<in> set SHIELD_KINDS"
  by (auto simp: kind_settings_def Let_def SHIELD_KINDS_def secret_issue_def split: if_splits
      dest!: required_text_kind required_secret_kind)

lemma unprojected_errors:
  "il_errors (foldl (\<lambda>lg key. if P key then shield_warning cd (m key) t d lg else lg) lg ks) = il_errors lg"
  by (induction ks arbitrary: lg) auto

lemma destination_settings_logged: "destination_settings rt resolver d lg = (r, lg') \<Longrightarrow> logged r lg lg'"
  by (auto simp: destination_settings_def split: prod.splits option.splits dest!: kind_settings_logged)
    (auto simp: logged_def unprojected_errors)

lemma destination_settings_kind:
  "destination_settings rt resolver d lg = (Some (sk, s), lg') \<Longrightarrow> sk \<in> set SHIELD_KINDS"
  by (auto simp: destination_settings_def split: prod.splits option.splits dest!: kind_settings_kind)

text \<open>Reading an entry.\<close>

lemma shield_entry_items:
  assumes "sk \<in> set SHIELD_KINDS"
  shows "map_of (shield_entry a sk en pu s) ''name'' = Some (VStr a)"
    and "map_of (shield_entry a sk en pu s) ''enabled'' = Some (VBool en)"
    and "map_of (shield_entry a sk en pu s) ''purpose'' = map_option VStr pu"
    and "map_of (shield_entry a sk en pu s) ''type'' = Some (VStr sk)"
    and "map_of (shield_entry a sk en pu s) sk = Some (VDict s)"
  using assms by (auto simp: shield_entry_def SHIELD_KINDS_def split: option.split)

subsection \<open>Names\<close>

lemma unused_name_unused: "unused_name used c \<notin> set used"
  by (induction used c rule: unused_name.induct) (subst unused_name.simps, simp)

lemma unused_name_first:
  "\<exists>k. unused_name used c = c @ replicate k CHR ''_'' \<and> (\<forall>j < k. c @ replicate j CHR ''_'' \<in> set used)"
proof (induction used c rule: unused_name.induct)
  case (1 used c)
  show ?case
  proof (cases "c \<in> set used")
    case True
    with 1 obtain k where k: "unused_name used (c @ ''_'') = (c @ ''_'') @ replicate k CHR ''_''"
      "\<forall>j < k. (c @ ''_'') @ replicate j CHR ''_'' \<in> set used" by blast
    have "c @ replicate j CHR ''_'' \<in> set used" if "j < Suc k" for j
      using that True k(2) by (cases j) auto
    with True k(1) show ?thesis
      by (subst unused_name.simps) (intro exI [of _ "Suc k"], simp)
  next
    case False
    then show ?thesis by (subst unused_name.simps) (intro exI [of _ 0], simp)
  qed
qed

lemma unused_name_prefix: "prefix c (unused_name used c)"
  using unused_name_first [of used c] by auto

lemma alias_name_unused: "alias_name d pu used \<notin> set used"
  by (simp add: alias_name_def Let_def unused_name_unused)

subsection \<open>The state of the projection\<close>

text \<open>
  \<open>shield_gate D es pu i a\<close>: among the entries \<open>es\<close> there is one with the alias \<open>a\<close>, for the
  destination with id \<open>i\<close>, that asks for the consent purpose \<open>pu\<close>.
\<close>

definition shield_gate :: "(string, destination) dict \<Rightarrow> pydict list \<Rightarrow> string option \<Rightarrow> string \<Rightarrow> string \<Rightarrow> bool" where
  "shield_gate D es pu i a \<longleftrightarrow> (\<exists>d sk s. map_of D i = Some d \<and> sk \<in> set SHIELD_KINDS
     \<and> shield_entry a sk (destination_enabled d) pu s \<in> set es)"

definition pattern_source :: "(string, trigger) dict \<Rightarrow> tag \<Rightarrow> string \<Rightarrow> bool" where
  "pattern_source T t q \<longleftrightarrow> (\<exists>i \<in> set (tag_trigger_ids t). \<exists>trig qs. map_of T i = Some trig
     \<and> trigger_enabled trig \<and> trigger_patterns trig = Inr qs \<and> q \<in> set qs)"

definition route_of_tag ::
    "(string, destination) dict \<Rightarrow> (string, trigger) dict \<Rightarrow> pydict list \<Rightarrow> tag \<Rightarrow> pydict \<Rightarrow> bool" where
  "route_of_tag D T es t r \<longleftrightarrow> (\<exists>name aliases qs. r = shield_route name aliases (tag_enabled t) (sort qs)
     \<and> prefix (tag_name t @ '' ('' @ take 8 (tag_id t) @ '')'') name \<and> qs \<noteq> [] \<and> aliases \<noteq> [] \<and> list_all2 (shield_gate D es (tag_consent_purpose t)) (tag_destination_ids t) aliases
     \<and> (\<forall>q \<in> set qs. pattern_source T t q))"

definition named_apart :: "pydict list \<Rightarrow> string list \<Rightarrow> bool" where
  "named_apart ds used \<longleftrightarrow> distinct used \<and> map (\<lambda>d. map_of d ''name'') ds = map (\<lambda>n. Some (VStr n)) (rev used)"

definition aliases_ok :: "(string, destination) dict \<Rightarrow> projection \<Rightarrow> bool" where
  "aliases_ok D st \<longleftrightarrow> named_apart (pj_destinations st) (pj_used_aliases st)
     \<and> (\<forall>i pu a. map_of (pj_aliases st) (i, pu) = Some a \<longrightarrow> shield_gate D (pj_destinations st) pu i a)"

lemma shield_gate_mono: "shield_gate D es pu i a \<Longrightarrow> set es \<subseteq> set fs \<Longrightarrow> shield_gate D fs pu i a"
  unfolding shield_gate_def by blast

lemma route_of_tag_mono: "route_of_tag D T es t r \<Longrightarrow> set es \<subseteq> set fs \<Longrightarrow> route_of_tag D T fs t r"
  unfolding route_of_tag_def by (elim exE conjE) (blast intro: list_all2_mono shield_gate_mono)

lemma named_apart_snoc:
  "named_apart ds used \<Longrightarrow> n \<notin> set used \<Longrightarrow> map_of d ''name'' = Some (VStr n)
     \<Longrightarrow> named_apart (ds @ [d]) (List.insert n used)"
  by (simp add: named_apart_def List.insert_def)

text \<open>What a part of a turn does: entries are only added, and \<open>ok\<close> turns false exactly with an error.\<close>

definition progress :: "(string, destination) dict \<Rightarrow> projection \<Rightarrow> bool \<Rightarrow> projection \<Rightarrow> bool \<Rightarrow> bool" where
  "progress D st ok st' ok' \<longleftrightarrow> (aliases_ok D st \<longrightarrow> aliases_ok D st') \<and> set (pj_destinations st) \<subseteq> set (pj_destinations st')
     \<and> pj_routes st' = pj_routes st \<and> pj_used_routes st' = pj_used_routes st
     \<and> (\<exists>es. il_errors (pj_log st') = il_errors (pj_log st) @ es \<and> (ok' \<longleftrightarrow> ok \<and> es = []))"

lemma progress_refl: "progress D st ok st ok"
  by (simp add: progress_def)

lemma progress_trans: "progress D st ok st1 ok1 \<Longrightarrow> progress D st1 ok1 st2 ok2 \<Longrightarrow> progress D st ok st2 ok2"
  unfolding progress_def by auto

lemma progress_grows: "progress D st ok st' ok' \<Longrightarrow> set (pj_destinations st) \<subseteq> set (pj_destinations st')"
  by (simp add: progress_def)

lemma progress_ok: "progress D st ok st' ok' \<Longrightarrow> ok' \<Longrightarrow> ok"
  by (auto simp: progress_def)

lemma progress_error: "progress D st ok (pj_error cd m t d st) False"
  by (auto simp: progress_def pj_error_def aliases_ok_def shield_error_def)

lemma progress_warning: "progress D st ok (pj_warning cd m t st) ok"
  by (auto simp: progress_def pj_warning_def aliases_ok_def)

lemma project_destination_progress:
  assumes "project_destination rt resolver D t (st, sel, ok) i = (st', sel', ok')" and "aliases_ok D st"
    and "\<And>i d. map_of D i = Some d \<Longrightarrow> destination_id d = i"
  shows "progress D st ok st' ok' \<and> (ok' \<longrightarrow> (\<exists>a. sel' = sel @ [a] \<and> shield_gate D (pj_destinations st') (tag_consent_purpose t) i a))"
proof (cases "map_of D i")
  case None
  with assms(1) progress_error show ?thesis by (auto simp: project_destination_def)
next
  case (Some d)
  with assms(3) have id: "destination_id d = i" by blast
  let ?pu = "tag_consent_purpose t"
  show ?thesis
  proof (cases "map_of (pj_aliases st) (i, ?pu)")
    case (Some a)
    with assms(1,2) \<open>map_of D i = Some d\<close> id show ?thesis
      by (auto simp: project_destination_def progress_refl aliases_ok_def)
  next
    case no_alias: None
    obtain r lg where ds: "destination_settings rt resolver d (pj_log st) = (r, lg)" by fastforce
    from destination_settings_logged [OF ds] obtain es where
      es: "il_errors lg = il_errors (pj_log st) @ es" "es = [] \<longleftrightarrow> r \<noteq> None" by (auto simp: logged_def)
    show ?thesis
    proof (cases r)
      case None
      with assms(1) \<open>map_of D i = Some d\<close> id no_alias ds es show ?thesis
        by (auto simp: project_destination_def progress_def aliases_ok_def)
    next
      case r: (Some x)
      obtain sk s where x: "x = (sk, s)" by fastforce
      from ds r x have sk: "sk \<in> set SHIELD_KINDS" by (auto dest: destination_settings_kind)
      let ?a = "alias_name d ?pu (pj_used_aliases st)"
      let ?e = "shield_entry ?a sk (destination_enabled d) ?pu s"
      from assms(1) \<open>map_of D i = Some d\<close> id no_alias ds r x
      have st': "st' = st\<lparr>pj_log := lg, pj_used_aliases := List.insert ?a (pj_used_aliases st),
          pj_purposes := (case ?pu of None \<Rightarrow> pj_purposes st | Some p \<Rightarrow> List.insert p (pj_purposes st)),
          pj_destinations := pj_destinations st @ [?e], pj_aliases := dict_put (pj_aliases st) (i, ?pu) ?a\<rparr>"
        and sel': "sel' = sel @ [?a]" "ok' = ok"
        by (simp_all add: project_destination_def Let_def)
      have gate: "shield_gate D (pj_destinations st @ [?e]) ?pu i ?a"
        using \<open>map_of D i = Some d\<close> sk unfolding shield_gate_def by auto
      have "named_apart (pj_destinations st @ [?e]) (List.insert ?a (pj_used_aliases st))"
        using assms(2) by (intro named_apart_snoc alias_name_unused shield_entry_items sk) (simp add: aliases_ok_def)
      moreover have "shield_gate D (pj_destinations st @ [?e]) pu j a"
        if "map_of (dict_put (pj_aliases st) (i, ?pu) ?a) (j, pu) = Some a" for j pu a
        using that gate assms(2) shield_gate_mono [of D "pj_destinations st" pu j a "pj_destinations st @ [?e]"]
        by (auto simp: aliases_ok_def split: if_splits)
      ultimately have "aliases_ok D st'" by (simp add: aliases_ok_def st')
      with es r gate show ?thesis by (auto simp: progress_def st' sel')
    qed
  qed
qed

lemma project_destinations_progress:
  assumes "foldl (project_destination rt resolver D t) (st, sel, ok) is' = (st', sel', ok')" and "aliases_ok D st"
    and "\<And>i d. map_of D i = Some d \<Longrightarrow> destination_id d = i"
  shows "progress D st ok st' ok'
    \<and> (ok' \<longrightarrow> (\<exists>as. sel' = sel @ as \<and> list_all2 (shield_gate D (pj_destinations st') (tag_consent_purpose t)) is' as))"
  using assms(1,2)
proof (induction is' arbitrary: st sel ok)
  case (Cons i is')
  obtain st1 sel1 ok1 where one: "project_destination rt resolver D t (st, sel, ok) i = (st1, sel1, ok1)" by (metis prod_cases3)
  from project_destination_progress [OF one Cons.prems(2) assms(3)]
  have p1: "progress D st ok st1 ok1" and a1: "ok1 \<Longrightarrow> \<exists>a. sel1 = sel @ [a] \<and> shield_gate D (pj_destinations st1) (tag_consent_purpose t) i a"
    by auto
  from p1 Cons.prems(2) have "aliases_ok D st1" by (simp add: progress_def)
  from Cons.IH [OF _ this, of sel1 ok1] Cons.prems(1) one
  have p2: "progress D st1 ok1 st' ok'" and a2: "ok' \<Longrightarrow> \<exists>as. sel' = sel1 @ as
      \<and> list_all2 (shield_gate D (pj_destinations st') (tag_consent_purpose t)) is' as" by auto
  have "\<exists>as. sel' = sel @ as \<and> list_all2 (shield_gate D (pj_destinations st') (tag_consent_purpose t)) (i # is') as" if "ok'"
  proof -
    from p2 that have "ok1" "set (pj_destinations st1) \<subseteq> set (pj_destinations st')" by (auto simp: progress_def)
    with a1 shield_gate_mono obtain a where "sel1 = sel @ [a]" "shield_gate D (pj_destinations st') (tag_consent_purpose t) i a" by blast
    with a2 [OF that] show ?thesis by auto
  qed
  with progress_trans [OF p1 p2] show ?case by blast
qed (simp add: progress_refl)

lemma project_trigger_progress:
  assumes "project_trigger T t (st, ps, ok) i = Inr (st', ps', ok')" and "i \<in> set (tag_trigger_ids t)"
  shows "progress D st ok st' ok' \<and> ((\<forall>q \<in> set ps. pattern_source T t q) \<longrightarrow> (\<forall>q \<in> set ps'. pattern_source T t q))"
  using assms by (auto simp: project_trigger_def progress_refl progress_error pattern_source_def
      split: option.splits if_splits sum.splits trigger_error.splits) blast+

lemma project_triggers_progress:
  assumes "project_triggers T t is' (st, ps, ok) = Inr (st', ps', ok')" and "set is' \<subseteq> set (tag_trigger_ids t)"
    and "\<forall>q \<in> set ps. pattern_source T t q"
  shows "progress D st ok st' ok' \<and> (\<forall>q \<in> set ps'. pattern_source T t q)"
  using assms
proof (induction is' arbitrary: st ps ok)
  case (Cons i is')
  then obtain st1 ps1 ok1 where one: "project_trigger T t (st, ps, ok) i = Inr (st1, ps1, ok1)"
    and rest: "project_triggers T t is' (st1, ps1, ok1) = Inr (st', ps', ok')"
    by (auto simp: bindR_Inr_iff)
  from project_trigger_progress [OF one] Cons.prems(2,3)
  have "progress D st ok st1 ok1" "\<forall>q \<in> set ps1. pattern_source T t q" by auto
  with Cons.IH [OF rest] Cons.prems(2) progress_trans show ?case by auto
qed (simp add: progress_refl)

subsection \<open>Tags\<close>

text \<open>A turn of the outer loop: it adds the route of its tag, or it adds an error.\<close>

lemma project_tag_turn:
  assumes "project_tag rt resolver D T t st = Inr st'" and "aliases_ok D st"
    and "named_apart (pj_routes st) (pj_used_routes st)" and "\<And>i d. map_of D i = Some d \<Longrightarrow> destination_id d = i"
  shows "aliases_ok D st' \<and> named_apart (pj_routes st') (pj_used_routes st')
    \<and> set (pj_destinations st) \<subseteq> set (pj_destinations st')
    \<and> (\<exists>es. il_errors (pj_log st') = il_errors (pj_log st) @ es
        \<and> (if es = [] then \<exists>r. pj_routes st' = pj_routes st @ [r] \<and> route_of_tag D T (pj_destinations st') t r
           else pj_routes st' = pj_routes st))"
proof -
  define start where "start = (if tag_destination_ids t = []
    then (pj_error ''tag_without_destination'' (''tag '' @ repr_str (tag_name t) @ '' has no destinations'')
      (Some (tag_id t)) None st, [] :: string list, False) else (st, [], True))"
  obtain st0 ok0 where st0: "start = (st0, [], ok0)" and p0: "progress D st True st0 ok0"
    and ne: "ok0 \<Longrightarrow> tag_destination_ids t \<noteq> []"
    using progress_error progress_refl by (cases "tag_destination_ids t = []") (auto simp: start_def)
  obtain st1 sel ok1 where f: "foldl (project_destination rt resolver D t) start (tag_destination_ids t) = (st1, sel, ok1)"
    by (metis prod_cases3)
  from p0 assms(2) have "aliases_ok D st0" by (simp add: progress_def)
  from project_destinations_progress [OF f [unfolded st0] this assms(4)]
  have p1: "progress D st0 ok0 st1 ok1"
    and sel: "ok1 \<Longrightarrow> list_all2 (shield_gate D (pj_destinations st1) (tag_consent_purpose t)) (tag_destination_ids t) sel" by auto
  from assms(1) obtain st2 ps ok2 where
    tr: "project_triggers T t (tag_trigger_ids t) (st1, [], ok1) = Inr (st2, ps, ok2)"
    by (auto simp: project_tag_def f [unfolded start_def] bindR_Inr_iff)
  from project_triggers_progress [OF tr] have p2: "progress D st1 ok1 st2 ok2" and ps: "\<forall>q \<in> set ps. pattern_source T t q" by auto
  define st3 where "st3 = (if ps = [] then pj_error ''event_name_unresolved'' (''tag '' @ repr_str (tag_name t)
    @ '' has no enabled trigger with a projectable event name'') (Some (tag_id t)) None st2 else st2)"
  define ok3 where "ok3 = (if ps = [] then False else ok2)"
  have p3: "progress D st2 ok2 st3 ok3" by (simp add: st3_def ok3_def progress_error progress_refl)
  define st4 where "st4 = (if tag_variable_ids t = [] then st3 else pj_warning ''variables_not_projected''
     (''tag '' @ repr_str (tag_name t) @ '' uses variables; PyTagShield routes the incoming event as-is'') t st3)"
  have p4: "progress D st3 ok3 st4 ok3" by (simp add: st4_def progress_warning progress_refl)
  define st5 where "st5 = (if tag_parameters t = [] then st4 else pj_warning ''parameters_not_projected''
     (''tag '' @ repr_str (tag_name t) @ '' parameters are not projected into PyTagShield routes'') t st4)"
  have p5: "progress D st4 ok3 st5 ok3" by (simp add: st5_def progress_warning progress_refl)
  note p = progress_trans [OF p0 progress_trans [OF p1 progress_trans [OF p2 progress_trans [OF p3 progress_trans [OF p4 p5]]]]]
  have st': "st' = (if \<not> ok3 then st5 else st5\<lparr>pj_used_routes := List.insert (route_name t (pj_used_routes st5)) (pj_used_routes st5),
      pj_routes := pj_routes st5 @ [shield_route (route_name t (pj_used_routes st5)) sel (tag_enabled t) (sort ps)]\<rparr>)"
    using assms(1) tr by (auto simp: project_tag_def f [unfolded start_def] Let_def st5_def st4_def st3_def ok3_def)
  from p assms(2) obtain es where q: "aliases_ok D st5" "set (pj_destinations st) \<subseteq> set (pj_destinations st5)"
    "pj_routes st5 = pj_routes st" "pj_used_routes st5 = pj_used_routes st"
    "il_errors (pj_log st5) = il_errors (pj_log st) @ es" "ok3 \<longleftrightarrow> es = []" by (auto simp: progress_def)
  show ?thesis
  proof (cases ok3)
    case False
    then have "st' = st5" by (simp add: st')
    with False q assms(3) show ?thesis by simp
  next
    case True
    have oks: "ok2" "ps \<noteq> []" using True by (simp_all add: ok3_def split: if_splits)
    note ok1 = progress_ok [OF p2 oks(1)] and ok0 = progress_ok [OF p1 progress_ok [OF p2 oks(1)]]
    let ?n = "route_name t (pj_used_routes st5)"
    let ?r = "shield_route ?n sel (tag_enabled t) (sort ps)"
    have sub: "set (pj_destinations st1) \<subseteq> set (pj_destinations st5)"
      by (rule progress_grows [OF progress_trans [OF p2 progress_trans [OF p3 progress_trans [OF p4 p5]]]])
    have "list_all2 (shield_gate D (pj_destinations st5) (tag_consent_purpose t)) (tag_destination_ids t) sel"
      by (rule list_all2_mono [OF sel [OF ok1]]) (rule shield_gate_mono [OF _ sub])
    with ne [OF ok0] oks(2) ps have "route_of_tag D T (pj_destinations st5) t ?r"
      unfolding route_of_tag_def by (intro exI [of _ ?n] exI [of _ sel] exI [of _ ps]) (auto simp: route_name_def unused_name_prefix)
    moreover have "named_apart (pj_routes st5 @ [?r]) (List.insert ?n (pj_used_routes st5))"
      using q(3,4) assms(3) by (intro named_apart_snoc)
        (simp_all add: route_name_def unused_name_unused shield_route_def)
    moreover have "aliases_ok D st'" using q(1) True by (simp add: st' aliases_ok_def)
    ultimately show ?thesis using q True by (simp add: st')
  qed
qed

lemma project_tags_all:
  assumes "project_tags rt resolver D T ts st = Inr st'" and "aliases_ok D st"
    and "named_apart (pj_routes st) (pj_used_routes st)" and "\<And>i d. map_of D i = Some d \<Longrightarrow> destination_id d = i"
  shows "aliases_ok D st' \<and> named_apart (pj_routes st') (pj_used_routes st')
    \<and> set (pj_destinations st) \<subseteq> set (pj_destinations st')
    \<and> (\<exists>es us rs. il_errors (pj_log st') = il_errors (pj_log st) @ es \<and> pj_routes st' = pj_routes st @ rs
        \<and> subseq us ts \<and> (es = [] \<longleftrightarrow> us = ts) \<and> list_all2 (route_of_tag D T (pj_destinations st')) us rs)"
  using assms(1-3)
proof (induction ts arbitrary: st)
  case (Cons t ts)
  then obtain st1 where one: "project_tag rt resolver D T t st = Inr st1" and rest: "project_tags rt resolver D T ts st1 = Inr st'"
    by (auto simp: bindR_Inr_iff)
  from project_tag_turn [OF one Cons.prems(2,3) assms(4)] obtain es1 where
    t1: "aliases_ok D st1" "named_apart (pj_routes st1) (pj_used_routes st1)" "set (pj_destinations st) \<subseteq> set (pj_destinations st1)"
      "il_errors (pj_log st1) = il_errors (pj_log st) @ es1"
      "if es1 = [] then \<exists>r. pj_routes st1 = pj_routes st @ [r] \<and> route_of_tag D T (pj_destinations st1) t r
       else pj_routes st1 = pj_routes st" by blast
  from Cons.IH [OF rest t1(1,2)] obtain es us rs where
    t2: "aliases_ok D st'" "named_apart (pj_routes st') (pj_used_routes st')" "set (pj_destinations st1) \<subseteq> set (pj_destinations st')"
      "il_errors (pj_log st') = il_errors (pj_log st1) @ es" "pj_routes st' = pj_routes st1 @ rs"
      "subseq us ts" "es = [] \<longleftrightarrow> us = ts" "list_all2 (route_of_tag D T (pj_destinations st')) us rs" by blast
  have grow: "set (pj_destinations st) \<subseteq> set (pj_destinations st')" using t1(3) t2(3) by blast
  show ?case
  proof (cases "es1 = []")
    case True
    with t1(5) obtain r where r: "pj_routes st1 = pj_routes st @ [r]" "route_of_tag D T (pj_destinations st1) t r" by auto
    have "route_of_tag D T (pj_destinations st') t r" by (rule route_of_tag_mono [OF r(2) t2(3)])
    with True t1(4) t2 r(1) grow show ?thesis
      by (intro conjI exI [of _ "es"] exI [of _ "t # us"] exI [of _ "r # rs"]) auto
  next
    case False
    from t2(6) have "us \<noteq> t # ts" using list_emb_length by fastforce
    with False t1(4,5) t2 grow show ?thesis
      by (intro conjI exI [of _ "es1 @ es"] exI [of _ us] exI [of _ rs]) auto
  qed
qed (simp add: exI [of _ "[]"])

subsection \<open>The export\<close>

lemma projected:
  assumes "project_to_pytagshield rt p salt policy resolver = Inr x"
  shows "\<exists>ds rs us an rn. map_of (sx_config x) ''destinations'' = Some (VList (map VDict ds))
    \<and> map_of (sx_config x) ''routes'' = Some (VList (map VDict rs)) \<and> named_apart ds an \<and> named_apart rs rn
    \<and> subseq us (payload_tags p) \<and> (shield_exportable x \<longrightarrow> us = payload_tags p \<and> us \<noteq> [])
    \<and> list_all2 (route_of_tag (index_by destination_id (payload_destinations p))
         (index_by trigger_id (payload_triggers p)) ds) us rs"
proof -
  let ?D = "index_by destination_id (payload_destinations p)" and ?T = "index_by trigger_id (payload_triggers p)"
  obtain salt' lg1 where s: "check_salt salt \<lparr>il_errors = [], il_warnings = []\<rparr> = (salt', lg1)" by fastforce
  obtain policy' lg2 where q: "check_policy policy lg1 = (policy', lg2)" by fastforce
  from assms s q obtain st where st: "project_tags rt resolver ?D ?T (payload_tags p) (projection_start lg2) = Inr st"
    and x: "sx_config x = shield_config salt' policy' st" "sx_errors x = il_errors (if pj_routes st = []
      then shield_error ''no_exportable_routes'' ''no tag could be projected into a PyTagShield route'' None None (pj_log st)
      else pj_log st)"
    by (auto simp: project_to_pytagshield_def bindR_Inr_iff Let_def)
  have "aliases_ok ?D (projection_start lg2)" "named_apart (pj_routes (projection_start lg2)) (pj_used_routes (projection_start lg2))"
    by (simp_all add: projection_start_def aliases_ok_def named_apart_def)
  from project_tags_all [OF st this] obtain es us rs where
    r: "aliases_ok ?D st" "named_apart (pj_routes st) (pj_used_routes st)" "il_errors (pj_log st) = il_errors lg2 @ es"
      "pj_routes st = rs" "subseq us (payload_tags p)" "es = [] \<longleftrightarrow> us = payload_tags p"
      "list_all2 (route_of_tag ?D ?T (pj_destinations st)) us rs"
    using index_by_SomeD [of destination_id "payload_destinations p"] by (auto simp: projection_start_def)
  have "us = payload_tags p \<and> us \<noteq> []" if "shield_exportable x"
    using that x(2) r by (auto simp: shield_exportable_def split: if_splits)
  moreover have "map_of (sx_config x) ''destinations'' = Some (VList (map VDict (pj_destinations st)))"
    "map_of (sx_config x) ''routes'' = Some (VList (map VDict rs))" using r(4) by (simp_all add: x(1) shield_config_def)
  moreover have "named_apart (pj_destinations st) (pj_used_aliases st)" using r(1) by (simp add: aliases_ok_def)
  ultimately show ?thesis using r(2,4,5,7) by blast
qed

lemma named_apart_unique:
  assumes "named_apart ds used" and "d \<in> set ds" and "e \<in> set ds" and "map_of d ''name'' = map_of e ''name''"
  shows "d = e"
proof -
  have "distinct (map (\<lambda>d. map_of d ''name'') ds)" using assms(1) by (auto simp: named_apart_def distinct_map inj_on_def)
  with assms(2-4) show ?thesis by (auto simp: distinct_map dest: inj_onD)
qed

lemma shield_route_items [simp]:
  "map_of (shield_route n as en qs) ''name'' = Some (VStr n)"
  "map_of (shield_route n as en qs) ''destinations'' = Some (str_list as)"
  "map_of (shield_route n as en qs) ''enabled'' = Some (VBool en)"
  "map_of (shield_route n as en qs) ''match'' = Some (VDict [(''events'', str_list qs)])"
  by (simp_all add: shield_route_def)

lemma str_list_inj [simp]: "str_list as = str_list bs \<longleftrightarrow> as = bs"
  by (simp add: str_list_def inj_map_eq_map inj_def)

lemma list_all2_right: "list_all2 P xs ys \<Longrightarrow> y \<in> set ys \<Longrightarrow> \<exists>x \<in> set xs. P x y"
  by (induction xs ys rule: list_all2_induct) auto

lemma trigger_patterns_hold:
  assumes "trigger_patterns trig = Inr qs" and "q \<in> set qs" and "glob q n" and "CHR ''*'' \<notin> set n"
    and "wf_trigger rt trig" and "\<And>c. trigger_conditions trig = cond_dict c \<Longrightarrow> \<forall>s \<in> literal_names c. plain_text s"
    and "resolve_path ctx ''event.name'' = Inr (Some (VStr n))"
  shows "evaluate_condition (trigger_conditions trig) ctx = Inr True"
proof -
  from assms(5) obtain c where c: "trigger_conditions trig = cond_dict c" "cond_ok c"
    by (auto simp: wf_trigger_def elim: validate_condition_sound)
  from assms(1) obtain r where r: "patterns_from_condition (cond_dict c) = Inr r"
    and qs: "r = Some qs \<or> r = None" by (auto simp: trigger_patterns_def c(1) split: sum.splits option.splits)
  have look: "lookup_path ctx ''event.name'' = Some (VStr n)" using assms(7) by (simp add: lookup_path_def)
  have "cond_holds (lookup_path ctx) c"
    using qs patterns_none [OF _ c(2)] patterns_sound [where look = "lookup_path ctx", OF _ assms(2,3) c(2) assms(6) [OF c(1)] assms(4) look] r by auto
  moreover have name: "plain_path ''event.name''" by (simp add: plain_path_def is_digit_def is_decimal_def)
  have "\<forall>p \<in> cond_paths c. plain_path p"
    using patterns_paths [OF r c(2)] name by auto
  ultimately show ?thesis using evaluate_validated [OF c(2)] by (simp add: c(1))
qed

subsection \<open>Properties\<close>

text \<open>
  C9: the projection keeps every consent gate and invents no delivery.  Each route of the exported
  configuration is the route of a tag of the payload, under its name and enabled exactly if the tag is;
  every alias it sends to names exactly one destination entry, and that entry asks for the tag's
  consent purpose (for none if the tag has none), belongs to a destination the tag lists and is
  enabled exactly if that destination is.  When the result is exportable there is one route for every
  tag of the payload, in their order: nothing is dropped silently.
\<close>
theorem projection_keeps_gates:
  assumes "project_to_pytagshield rt p salt policy resolver = Inr x"
  shows "\<exists>ds rs. map_of (sx_config x) ''destinations'' = Some (VList (map VDict ds))
    \<and> map_of (sx_config x) ''routes'' = Some (VList (map VDict rs))
    \<and> (shield_exportable x \<longrightarrow> rs \<noteq> [] \<and> length rs = length (payload_tags p)
        \<and> (\<forall>k < length rs. \<exists>name. map_of (rs ! k) ''name'' = Some (VStr name) \<and> prefix (tag_name (payload_tags p ! k)) name))
    \<and> (\<forall>r \<in> set rs. \<exists>t \<in> set (payload_tags p). \<exists>name as. map_of r ''name'' = Some (VStr name) \<and> prefix (tag_name t) name
        \<and> map_of r ''enabled'' = Some (VBool (tag_enabled t)) \<and> map_of r ''destinations'' = Some (str_list as) \<and> as \<noteq> []
        \<and> (\<forall>a \<in> set as. (\<exists>!e. e \<in> set ds \<and> map_of e ''name'' = Some (VStr a))
            \<and> (\<exists>e \<in> set ds. \<exists>d \<in> set (payload_destinations p). map_of e ''name'' = Some (VStr a)
                \<and> map_of e ''purpose'' = map_option VStr (tag_consent_purpose t)
                \<and> destination_id d \<in> set (tag_destination_ids t) \<and> map_of e ''enabled'' = Some (VBool (destination_enabled d)))))"
proof -
  let ?D = "index_by destination_id (payload_destinations p)" and ?T = "index_by trigger_id (payload_triggers p)"
  from projected [OF assms] obtain ds rs us an where
    x: "map_of (sx_config x) ''destinations'' = Some (VList (map VDict ds))"
       "map_of (sx_config x) ''routes'' = Some (VList (map VDict rs))"
    and an: "named_apart ds an" and us: "subseq us (payload_tags p)" "shield_exportable x \<longrightarrow> us = payload_tags p \<and> us \<noteq> []"
    and all: "list_all2 (route_of_tag ?D ?T ds) us rs" by blast
  have gate: "(\<exists>!e. e \<in> set ds \<and> map_of e ''name'' = Some (VStr a))
      \<and> (\<exists>e \<in> set ds. \<exists>d \<in> set (payload_destinations p). map_of e ''name'' = Some (VStr a)
          \<and> map_of e ''purpose'' = map_option VStr (tag_consent_purpose t)
          \<and> destination_id d \<in> set (tag_destination_ids t) \<and> map_of e ''enabled'' = Some (VBool (destination_enabled d)))"
    if "shield_gate ?D ds (tag_consent_purpose t) i a" "i \<in> set (tag_destination_ids t)" for t i a
  proof -
    from that(1) obtain d e where d: "map_of ?D i = Some d" and e: "e \<in> set ds" "map_of e ''name'' = Some (VStr a)"
      "map_of e ''purpose'' = map_option VStr (tag_consent_purpose t)" "map_of e ''enabled'' = Some (VBool (destination_enabled d))"
      unfolding shield_gate_def using shield_entry_items by metis
    have one: "e' = e" if "e' \<in> set ds" "map_of e' ''name'' = Some (VStr a)" for e'
      using named_apart_unique [OF an that(1) e(1)] that(2) e(2) by simp
    from index_by_SomeD [OF d] that(2) have "d \<in> set (payload_destinations p)" "destination_id d \<in> set (tag_destination_ids t)" by simp_all
    with e one show ?thesis by blast
  qed
  have route: "\<exists>name as. map_of r ''name'' = Some (VStr name) \<and> prefix (tag_name t) name
        \<and> map_of r ''enabled'' = Some (VBool (tag_enabled t)) \<and> map_of r ''destinations'' = Some (str_list as) \<and> as \<noteq> []
        \<and> (\<forall>a \<in> set as. (\<exists>!e. e \<in> set ds \<and> map_of e ''name'' = Some (VStr a))
            \<and> (\<exists>e \<in> set ds. \<exists>d \<in> set (payload_destinations p). map_of e ''name'' = Some (VStr a)
                \<and> map_of e ''purpose'' = map_option VStr (tag_consent_purpose t)
                \<and> destination_id d \<in> set (tag_destination_ids t) \<and> map_of e ''enabled'' = Some (VBool (destination_enabled d))))"
    if "route_of_tag ?D ?T ds t r" for t r
  proof -
    from that obtain name as qs where r: "r = shield_route name as (tag_enabled t) (sort qs)"
      "prefix (tag_name t @ '' ('' @ take 8 (tag_id t) @ '')'') name" "as \<noteq> []"
      "list_all2 (shield_gate ?D ds (tag_consent_purpose t)) (tag_destination_ids t) as"
      unfolding route_of_tag_def by blast
    have "prefix (tag_name t) name" using r(2) by (rule append_prefixD)
    then show ?thesis using r(1,3) gate list_all2_right [OF r(4)]
      by (intro exI [of _ name] exI [of _ as] conjI ballI) (simp_all, blast+)
  qed
  have source: "\<exists>t \<in> set (payload_tags p). route_of_tag ?D ?T ds t r" if "r \<in> set rs" for r
    using list_all2_right [OF all that] list_emb_set [OF us(1)] by metis
  have named: "\<exists>name. map_of r ''name'' = Some (VStr name) \<and> prefix (tag_name t) name" if "route_of_tag ?D ?T ds t r" for t r
    using route [OF that] by blast
  show ?thesis
  proof (intro exI conjI impI, rule x(1), rule x(2))
    assume "shield_exportable x"
    with us(2) have "us = payload_tags p" "payload_tags p \<noteq> []" by auto
    with all show "rs \<noteq> []" "length rs = length (payload_tags p)"
      "\<forall>k < length rs. \<exists>name. map_of (rs ! k) ''name'' = Some (VStr name) \<and> prefix (tag_name (payload_tags p ! k)) name"
      by (auto simp: list_all2_conv_all_nth intro: named)
  qed (rule ballI, drule source, elim bexE, rule bexI, rule route)
qed

definition sample_shield_trigger :: trigger where
  "sample_shield_trigger = \<lparr>trigger_id = ''00000000-0000-4000-8000-000000000004'', trigger_name = ''buy'', trigger_type = ''custom_event'',
     trigger_conditions = cond_dict (CCompare ''equals'' ''event.name'' (VStr ''buy'')), trigger_priority = 0, trigger_enabled = True\<rparr>"

definition sample_shield_payload :: payload where
  "sample_shield_payload = \<lparr>
     payload_tags = [sample_tag\<lparr>tag_trigger_ids := [''00000000-0000-4000-8000-000000000004''], tag_consent_purpose := Some ''ads''\<rparr>],
     payload_triggers = [sample_shield_trigger], payload_variables = [],
     payload_destinations = [sample_destination\<lparr>destination_kind := ''log'', destination_config := []\<rparr>]\<rparr>"

definition sample_shield_route :: pydict where
  "sample_shield_route = shield_route ''buy (00000000)'' [''ga (ads)''] True [''buy'']"

lemma sample_shield_patterns: "trigger_patterns sample_shield_trigger = Inr [''buy'']"
  by (simp add: trigger_patterns_def sample_shield_trigger_def patterns_from_condition.simps get_or_def Let_def
      is_mapping_def usable_text_def text_of_def)

lemma sample_projection:
  "project_to_pytagshield witness_runtime sample_shield_payload (VStr ''0123456789abcdef'') ''deny'' None
     = Inr \<lparr>sx_config = [
         (''minimization'', VDict [(''pseudonymize_ids'', VBool True), (''pseudonymize_salt'', VStr ''0123456789abcdef'')]),
         (''consent'', VDict [(''purposes'', str_list [''ads'']), (''default_policy'', VStr ''deny'')]),
         (''destinations'', VList [VDict (shield_entry ''ga (ads)'' ''log'' True (Some ''ads'') [])]),
         (''routes'', VList [VDict sample_shield_route])],
       sx_errors = [], sx_warnings = [\<lparr>si_severity = ''warning'', si_code = ''parameters_not_projected'',
         si_message = ''tag '' @ repr_str ''buy'' @ '' parameters are not projected into PyTagShield routes'',
         si_tag_id = Some (tag_id sample_tag), si_destination_id = None\<rparr>]\<rparr>"
  using sample_shield_patterns [unfolded sample_shield_trigger_def]
  by (simp add: project_to_pytagshield_def check_salt_def check_policy_def usable_text_def text_of_def
      sample_shield_payload_def sample_shield_trigger_def sample_tag_def sample_destination_def index_by_def
      projection_start_def project_tag_def project_destination_def project_trigger_def destination_settings_def
      kind_settings_def Let_def alias_name_def given_def unused_name.simps route_name_def shield_config_def
      pj_warning_def shield_warning_def sample_shield_route_def List.insert_def List.union_def)

theorem projection_keeps_gates_witness:
  "\<exists>x ds rs. project_to_pytagshield witness_runtime sample_shield_payload (VStr ''0123456789abcdef'') ''deny'' None = Inr x
     \<and> shield_exportable x \<and> map_of (sx_config x) ''routes'' = Some (VList (map VDict rs))
     \<and> map_of (sx_config x) ''destinations'' = Some (VList (map VDict ds)) \<and> length rs = 1"
proof -
  obtain x where x: "project_to_pytagshield witness_runtime sample_shield_payload (VStr ''0123456789abcdef'') ''deny'' None = Inr x"
    "shield_exportable x" using sample_projection by (simp add: shield_exportable_def)
  have "length (payload_tags sample_shield_payload) = 1" by (simp add: sample_shield_payload_def)
  with projection_keeps_gates [OF x(1)] x show ?thesis by (elim exE conjE) (metis (no_types))
qed

text \<open>
  C10: the projection never broadens delivery by event name.  If the triggers of the payload are
  validated and compare the event name literally only with texts without wildcards, then whenever an
  event name matches a pattern of an exported route, the condition of an enabled trigger of the
  route's tag is true of every event of that name.
\<close>
theorem projection_never_broadens:
  assumes "project_to_pytagshield rt p salt policy resolver = Inr x"
    and "\<forall>trig \<in> set (payload_triggers p). wf_trigger rt trig"
    and "\<forall>trig \<in> set (payload_triggers p). \<forall>c. trigger_conditions trig = cond_dict c \<longrightarrow> (\<forall>s \<in> literal_names c. plain_text s)"
    and "map_of (sx_config x) ''routes'' = Some (VList routes)" and "VDict r \<in> set routes"
    and "map_of r ''match'' = Some (VDict [(''events'', str_list qs)])" and "q \<in> set qs" and "glob q n" and "CHR ''*'' \<notin> set n"
    and "resolve_path ctx ''event.name'' = Inr (Some (VStr n))"
  shows "\<exists>t \<in> set (payload_tags p). \<exists>trig \<in> set (payload_triggers p). \<exists>name. map_of r ''name'' = Some (VStr name)
    \<and> prefix (tag_name t) name \<and> map_of r ''enabled'' = Some (VBool (tag_enabled t)) \<and> trigger_enabled trig
    \<and> trigger_id trig \<in> set (tag_trigger_ids t) \<and> evaluate_condition (trigger_conditions trig) ctx = Inr True"
proof -
  let ?D = "index_by destination_id (payload_destinations p)" and ?T = "index_by trigger_id (payload_triggers p)"
  from projected [OF assms(1)] assms(4) obtain ds rs us where "routes = map VDict rs" and us: "subseq us (payload_tags p)"
    and all: "list_all2 (route_of_tag ?D ?T ds) us rs" by auto
  with assms(5) have "r \<in> set rs" by auto
  with list_all2_right [OF all] list_emb_set [OF us] obtain t where t: "t \<in> set (payload_tags p)" "route_of_tag ?D ?T ds t r"
    by metis
  from t(2) obtain name as ps where r: "r = shield_route name as (tag_enabled t) (sort ps)"
    "prefix (tag_name t @ '' ('' @ take 8 (tag_id t) @ '')'') name" "\<forall>q \<in> set ps. pattern_source ?T t q"
    unfolding route_of_tag_def by blast
  with assms(6,7) have "pattern_source ?T t q" by auto
  then obtain i trig qs' where trig: "i \<in> set (tag_trigger_ids t)" "map_of ?T i = Some trig" "trigger_enabled trig"
    "trigger_patterns trig = Inr qs'" "q \<in> set qs'" unfolding pattern_source_def by blast
  from index_by_SomeD [OF trig(2)] have m: "trig \<in> set (payload_triggers p)" "trigger_id trig = i" by simp_all
  from trigger_patterns_hold [OF trig(4,5) assms(8,9) _ _ assms(10)] assms(2,3) m(1)
  have "evaluate_condition (trigger_conditions trig) ctx = Inr True" by blast
  with t(1) m trig(1,3) r(1) append_prefixD [OF r(2)] show ?thesis by auto
qed

lemma literal_names_unique: "cond_dict c = cond_dict (CCompare op p v) \<Longrightarrow> c = CCompare op p v"
  by (cases c) auto

lemma sample_shield_condition:
  "validate_condition witness_runtime (cond_dict (CCompare ''equals'' ''event.name'' (VStr ''buy'')))
     = Inr (cond_dict (CCompare ''equals'' ''event.name'' (VStr ''buy'')))"
  by (rule validate_condition_complete)
    (simp_all add: good_path_def validate_path_def unsafe_segment_def value_fits_def op_lists ALLOWED_NAMESPACES_def
      MAX_PATH_LENGTH_def is_alnum_def is_lower_latin_def is_upper_latin_def is_digit_def is_decimal_def
      json_str_def json_char_def utf8_length_def MAX_CONDITION_NODES_def MAX_CONDITION_DEPTH_def MAX_CONDITION_BYTES_def)

theorem projection_never_broadens_witness:
  "\<exists>t \<in> set (payload_tags sample_shield_payload). \<exists>trig \<in> set (payload_triggers sample_shield_payload).
     trigger_enabled trig \<and> trigger_id trig \<in> set (tag_trigger_ids t)
     \<and> evaluate_condition (trigger_conditions trig) (VDict [(''event'', VDict [(''name'', VStr ''buy'')])]) = Inr True"
proof -
  let ?e = "VDict [(''event'', VDict [(''name'', VStr ''buy'')])]"
  have wf: "wf_trigger witness_runtime sample_shield_trigger"
    using sample_shield_condition by (simp add: wf_trigger_def sample_shield_trigger_def is_uuid_def is_lower_hex_def is_decimal_def good_name_def validate_name_def
        py_strip_def py_lstrip_def is_space_def is_control_def MAX_NAME_LENGTH_def TRIGGER_TYPES_def)
  have lit: "\<forall>s \<in> literal_names c. plain_text s" if "trigger_conditions sample_shield_trigger = cond_dict c" for c
    using that literal_names_unique [of c "''equals''" "''event.name''" "VStr ''buy''"]
    by (auto simp: sample_shield_trigger_def plain_text_def)
  have path: "resolve_path ?e ''event.name'' = Inr (Some (VStr ''buy''))" by (simp add: resolve_path_def)
  have all: "payload_triggers sample_shield_payload = [sample_shield_trigger]" by (simp add: sample_shield_payload_def)
  obtain x where x: "project_to_pytagshield witness_runtime sample_shield_payload (VStr ''0123456789abcdef'') ''deny'' None = Inr x"
    "map_of (sx_config x) ''routes'' = Some (VList [VDict sample_shield_route])" using sample_projection by simp
  have r: "map_of sample_shield_route ''match'' = Some (VDict [(''events'', str_list [''buy''])])" by (simp add: sample_shield_route_def)
  from projection_never_broadens [OF x(1) _ _ x(2) _ r _ _ _ path, of "''buy''"] wf lit show ?thesis
    unfolding all by simp blast
qed

text \<open>
  C0: names given by the projection are fresh and the search for them ends: the candidate itself, or with
  as few underscores added as make it unused.
\<close>
theorem fresh_names:
  "alias_name d purpose used \<notin> set used"
  "\<exists>k. unused_name used c = c @ replicate k CHR ''_'' \<and> unused_name used c \<notin> set used
     \<and> (\<forall>j < k. c @ replicate j CHR ''_'' \<in> set used)"
  using unused_name_first [of used c] unused_name_unused by (auto simp: alias_name_unused)

subsection \<open>Where the projection is looser than the trigger\<close>

text \<open>A literal comparison with a text that has a wildcard in it becomes a wildcard pattern.\<close>

lemma literal_becomes_wildcard:
  "patterns_from_condition (cond_dict (CCompare ''equals'' ''event.name'' (VStr ''a*''))) = Inr (Some [''a*''])
     \<and> glob ''a*'' ''ab''
     \<and> evaluate_condition (cond_dict (CCompare ''equals'' ''event.name'' (VStr ''a*'')))
         (VDict [(''event'', VDict [(''name'', VStr ''ab'')])]) = Inr False"
  by (simp add: patterns_from_condition.simps evaluate_condition.simps get_or_def Let_def is_mapping_def usable_text_def
      text_of_def dict_item_def resolve_path_def compare_op_def strict_equal_def is_bool_def is_number_def)

text \<open>The type of the trigger is not part of the route: a click trigger is projected to every event of the name.\<close>

lemma trigger_type_not_projected:
  "trigger_patterns (sample_shield_trigger\<lparr>trigger_type := ''click''\<rparr>) = Inr [''buy'']
     \<and> \<not> trigger_type_matches ''click'' ''page_view''"
  by (simp add: trigger_patterns_def sample_shield_trigger_def patterns_from_condition.simps get_or_def Let_def
      is_mapping_def usable_text_def text_of_def trigger_type_matches_def TRIGGER_EVENT_TYPES_def)

end
