(* ===== verification/Published.thy ===== *)
theory Published
  imports Projection Event_Contract
begin

section \<open>Published configurations (distribution/public\_config.py)\<close>

text \<open>
  The document a container's SDK downloads: an index of the events with their tags and consent
  purposes, and the public fields of tags and destinations, sealed with a digest of its canonical
  JSON.  What the configuration keeps to itself, destination settings, secret references, tag
  parameters and variables, must not get in.
\<close>

subsection \<open>The guard against secret fields\<close>

definition SECRET_KEY_MARKERS :: "string list" where
  "SECRET_KEY_MARKERS = [''secret'', ''password'', ''passwd'', ''credential'', ''api_key'', ''apikey'',
     ''access_token'', ''refresh_token'', ''private_key'']"

definition secret_key_name :: "string \<Rightarrow> bool" where
  "secret_key_name key \<longleftrightarrow> list_ex (\<lambda>marker. str_contains marker (py_lower key)) SECRET_KEY_MARKERS"

fun check_public :: "pyval \<Rightarrow> string \<Rightarrow> unit res"
  and check_public_items :: "(string \<times> pyval) list \<Rightarrow> string \<Rightarrow> unit res"
  and check_public_list :: "pyval list \<Rightarrow> string \<Rightarrow> nat \<Rightarrow> unit res" where
  "check_public (VDict d) path = check_public_items d path"
| "check_public (VList xs) path = check_public_list xs path 0"
| "check_public _ path = Inr ()"
| "check_public_items [] path = Inr ()"
| "check_public_items ((key, item) # d) path =
     (if secret_key_name key
      then Inl (ValidationError (''published configuration contains prohibited secret field '' @ path @ ''.'' @ key))
      else bindR (check_public item (path @ ''.'' @ key)) (\<lambda>_. check_public_items d path))"
| "check_public_list [] path i = Inr ()"
| "check_public_list (x # xs) path i =
     bindR (check_public x (path @ ''['' @ nat_str i @ '']'')) (\<lambda>_. check_public_list xs path (i + 1))"

subsection \<open>The event index\<close>

text \<open>Sets of names are lists without repetitions; they are sorted before they are published.\<close>

definition value_names :: "pyval \<Rightarrow> pyval \<Rightarrow> string list" where
  "value_names op v = (case v of
     VStr s \<Rightarrow> if op = VStr ''equals'' then [s] else []
   | VList xs \<Rightarrow> if op = VStr ''in'' then remdups (map text_of (filter is_str xs)) else []
   | _ \<Rightarrow> [])"

function event_names_from_condition :: "pyval \<Rightarrow> string list res"
  and event_names_of_children :: "pyval list \<Rightarrow> string list \<Rightarrow> string list res" where
  "event_names_from_condition condition = (case condition of
     VDict d \<Rightarrow>
       (let op = get_or d ''op'' VNone in
        if is_list op \<or> is_mapping op
        then Inl (TypeError (''unhashable type: '' @ repr_str (type_name op)))
        else if op = VStr ''all'' \<or> op = VStr ''any'' \<or> op = VStr ''not''
        then (case mapping_children d of Inl e \<Rightarrow> Inl e | Inr children \<Rightarrow> event_names_of_children children [])
        else if get_or d ''path'' VNone \<noteq> VStr ''event.name'' then Inr []
        else Inr (value_names op (get_or d ''value'' VNone)))
   | _ \<Rightarrow> Inl (AttributeError (type_name condition @ '' object has no attribute '' @ repr_str ''get'')))"
| "event_names_of_children [] names = Inr names"
| "event_names_of_children (child # children) names =
     bindR (event_names_from_condition child) (\<lambda>found. event_names_of_children children (List.union names found))"
  by pat_completeness auto
termination
  by (relation "measure (\<lambda>x. case x of Inl v \<Rightarrow> 2 * size v | Inr (cs, _) \<Rightarrow> 2 * size_list size cs + 1)")
    (auto dest!: size_mapping_children)

declare event_names_from_condition.simps [simp del]

definition trigger_event_names :: "trigger \<Rightarrow> string list res" where
  "trigger_event_names t =
     (if trigger_type t \<in> {''page_view'', ''route_change''} then Inr [''page_view'']
      else if trigger_type t = ''custom_event'' then event_names_from_condition (trigger_conditions t)
      else if trigger_type t \<in> {''click'', ''link_click''} then Inr [''click'']
      else if trigger_type t = ''form_submit'' then Inr [''form_submit'']
      else if trigger_type t = ''consent_change'' then Inr [''consent_change'']
      else Inr [])"

definition tag_event_name :: "tag \<Rightarrow> string option" where
  "tag_event_name t =
     (let raw = get_or (tag_parameters t) ''event_name'' (get_or (tag_parameters t) ''eventName'' VNone)
      in if usable_text raw then Some (text_of raw) else None)"

definition tag_trigger_names :: "(string, trigger) dict \<Rightarrow> string \<Rightarrow> string list res" where
  "tag_trigger_names triggers i = (case map_of triggers i of
     None \<Rightarrow> Inr []
   | Some t \<Rightarrow> if trigger_enabled t then trigger_event_names t else Inr [])"

definition tag_names :: "(string, trigger) dict \<Rightarrow> tag \<Rightarrow> string list res" where
  "tag_names triggers t = bindR (mapR (tag_trigger_names triggers) (tag_trigger_ids t)) (\<lambda>found.
     Inr (remdups ((case tag_event_name t of None \<Rightarrow> [] | Some n \<Rightarrow> [n]) @ concat found)))"

text \<open>\<open>d.setdefault(key, set()).add(x)\<close>.\<close>

definition add_to :: "(string, string list) dict \<Rightarrow> string \<Rightarrow> string \<Rightarrow> (string, string list) dict" where
  "add_to d key x = dict_put d key (List.insert x (case map_of d key of None \<Rightarrow> [] | Some xs \<Rightarrow> xs))"

type_synonym event_index = "(string, string list) dict \<times> (string, string list) dict"

definition index_name :: "tag \<Rightarrow> event_index \<Rightarrow> string \<Rightarrow> event_index" where
  "index_name t index name = (case index of (tags, purposes) \<Rightarrow>
     (add_to tags name (tag_id t),
      case tag_consent_purpose t of
        None \<Rightarrow> purposes
      | Some purpose \<Rightarrow> if purpose = [] then purposes else add_to purposes name purpose))"

fun index_tags :: "(string, trigger) dict \<Rightarrow> tag list \<Rightarrow> event_index \<Rightarrow> event_index res" where
  "index_tags triggers [] index = Inr index"
| "index_tags triggers (t # ts) index =
     (if \<not> tag_enabled t then index_tags triggers ts index
      else bindR (tag_names triggers t) (\<lambda>names. index_tags triggers ts (foldl (index_name t) index names)))"

definition build_event_index :: "payload \<Rightarrow> pydict list res" where
  "build_event_index p =
     bindR (index_tags (index_by trigger_id (payload_triggers p)) (payload_tags p) ([], [])) (\<lambda>(tags, purposes).
     Inr (map (\<lambda>name. [
         (''name'', VStr name),
         (''purposes'', str_list (sort (case map_of purposes name of None \<Rightarrow> [] | Some ps \<Rightarrow> ps))),
         (''tag_ids'', str_list (sort (case map_of tags name of None \<Rightarrow> [] | Some ids \<Rightarrow> ids)))])
       (sort (keys tags))))"

subsection \<open>Public tags and destinations\<close>

definition public_tags :: "payload \<Rightarrow> pydict list" where
  "public_tags p = map (\<lambda>t. [
       (''tag_id'', VStr (tag_id t)),
       (''name'', VStr (tag_name t)),
       (''type'', VStr (tag_type t)),
       (''event_name'', opt_str (tag_event_name t)),
       (''consent_purpose'', opt_str (tag_consent_purpose t)),
       (''enabled'', VBool (tag_enabled t)),
       (''trigger_ids'', str_list (tag_trigger_ids t)),
       (''destination_ids'', str_list (tag_destination_ids t))])
     (sort_key (\<lambda>t. (tag_name t, tag_id t)) (payload_tags p))"

definition public_destinations :: "payload \<Rightarrow> pydict list" where
  "public_destinations p = map (\<lambda>d. [
       (''destination_id'', VStr (destination_id d)),
       (''name'', VStr (destination_name d)),
       (''kind'', VStr (destination_kind d)),
       (''enabled'', VBool (destination_enabled d))])
     (sort_key (\<lambda>d. (destination_name d, destination_id d)) (payload_destinations p))"

subsection \<open>The document\<close>

definition DEFAULT_MIN_SDK :: "(string, string) dict" where
  "DEFAULT_MIN_SDK = [(''web'', ''0.1.0''), (''android'', ''0.1.0''), (''ios'', ''0.1.0'')]"

definition IMMUTABLE_CACHE_MAX_AGE :: int where "IMMUTABLE_CACHE_MAX_AGE = 31536000"

definition published_unsigned ::
    "string \<Rightarrow> environment \<Rightarrow> revision \<Rightarrow> string \<Rightarrow> (string, bool) dict option \<Rightarrow> (string, string) dict option
     \<Rightarrow> pydict res" where
  "published_unsigned container_id e r published_at default_consent min_sdk =
     bindR (build_event_index (rev_payload r)) (\<lambda>events.
     Inr ([
       (''schema_version'', VStr ''1.0''),
       (''kind'', VStr ''pytagmanager.container''),
       (''container_id'', VStr container_id),
       (''config_version'', VStr (rev_version r)),
       (''revision_number'', rev_number r),
       (''revision_checksum'', VStr (rev_checksum r)),
       (''environment'', VDict [(''name'', VStr (env_label e)), (''protected'', VBool (env_protected e))]),
       (''published_at'', VStr published_at),
       (''event_schema_version'', VStr CONTRACT_SCHEMA_VERSION),
       (''events'', VList (map VDict events)),
       (''tags'', VList (map VDict (public_tags (rev_payload r)))),
       (''destinations'', VList (map VDict (public_destinations (rev_payload r)))),
       (''features'', VDict [(''client_side_execution'', VBool False), (''event_collection'', VBool True),
         (''server_side_forwarding'', VBool True)]),
       (''compatibility'', VDict [(''event_contract'', VStr CONTRACT_SCHEMA_VERSION),
         (''min_sdk'', VDict (map (\<lambda>(k, v). (k, VStr v)) (case min_sdk of None \<Rightarrow> DEFAULT_MIN_SDK | Some d \<Rightarrow> d)))]),
       (''cache'', VDict [(''max_age_seconds'', VInt IMMUTABLE_CACHE_MAX_AGE), (''immutable'', VBool True)])]
      @ (case default_consent of None \<Rightarrow> [] | Some c \<Rightarrow>
          [(''consent_defaults'', VDict (map (\<lambda>(k, b). (k, VBool b)) (sort_key fst c)))])))"

definition config_digest :: "py_runtime \<Rightarrow> pydict \<Rightarrow> string" where
  "config_digest rt d = sha256_hex rt (event_json rt (VDict d))"

definition seal_config :: "py_runtime \<Rightarrow> pydict \<Rightarrow> pydict res" where
  "seal_config rt unsigned =
     bindR (check_public (VDict unsigned) ''$'') (\<lambda>_.
     let document = dict_put unsigned ''integrity''
           (VDict [(''algorithm'', VStr ''sha256''), (''digest'', VStr (config_digest rt unsigned))])
     in bindR (check_public (VDict document) ''$'') (\<lambda>_. Inr document))"

definition published_time :: "machine \<Rightarrow> string option \<Rightarrow> string op" where
  "published_time m published_at = (case published_at of
     Some t \<Rightarrow> if t = [] then utc_now m else retW t | None \<Rightarrow> utc_now m)"

definition build_published_config ::
    "machine \<Rightarrow> string \<Rightarrow> string \<Rightarrow> string option \<Rightarrow> string option \<Rightarrow> (string, bool) dict option
     \<Rightarrow> (string, string) dict option \<Rightarrow> bool \<Rightarrow> pydict op" where
  "build_published_config m container_id ref org published_at default_consent min_sdk allow_protected =
     bindW (service_get_environment m container_id ref org) (\<lambda>e.
     if env_protected e \<and> \<not> allow_protected
     then raiseW (ValidationError (''environment '' @ repr_str (env_label e)
       @ '' is protected; explicit allow_protected is required to publish it''))
     else case env_current e of
       None \<Rightarrow> raiseW (ValidationError (''environment '' @ repr_str (env_label e) @ '' has no active configuration revision''))
     | Some v \<Rightarrow>
         bindW (service_get_revision m container_id v org) (\<lambda>r.
         bindW (validate_config m container_id (Some (rev_version r)) org) (\<lambda>report.
         if \<not> report_valid report
         then raiseW (ValidationError (''revision '' @ repr_str (rev_version r) @ '' failed validation: ''
           @ join_with ''; '' (map vi_message (report_errors report))))
         else bindW (published_time m published_at) (\<lambda>t.
           bindW (liftW (published_unsigned container_id e r t default_consent min_sdk)) (\<lambda>unsigned.
           liftW (seal_config (m_rt m) unsigned))))))"

definition without_integrity :: "pydict \<Rightarrow> pydict" where
  "without_integrity d = filter (\<lambda>(k, _). k \<noteq> ''integrity'') d"

definition verify_published_config :: "py_runtime \<Rightarrow> pyval \<Rightarrow> string res" where
  "verify_published_config rt document = (case document of
     VDict d \<Rightarrow> (case get_or d ''integrity'' VNone of
         VDict integrity \<Rightarrow>
           if get_or integrity ''algorithm'' VNone \<noteq> VStr ''sha256''
           then Inl (ValidationError ''unsupported published configuration integrity algorithm'')
           else if VStr (config_digest rt (without_integrity d)) \<noteq> get_or integrity ''digest'' VNone
           then Inl (ValidationError ''published configuration integrity digest does not match'')
           else Inr (config_digest rt (without_integrity d))
       | _ \<Rightarrow> Inl (ValidationError ''published configuration is missing integrity metadata''))
   | _ \<Rightarrow> Inl (ValidationError ''published configuration must be an object''))"

subsection \<open>Names and readers\<close>

text \<open>\<open>value.replace("--", "-")\<close>, and the loop that repeats it.\<close>

fun halve_hyphens :: "string \<Rightarrow> string" where
  "halve_hyphens (c # d # s) = (if c = CHR ''-'' \<and> d = CHR ''-'' then CHR ''-'' # halve_hyphens s
     else c # halve_hyphens (d # s))"
| "halve_hyphens s = s"

lemma halve_hyphens_length: "length (halve_hyphens s) \<le> length s"
  by (induction s rule: halve_hyphens.induct) auto

lemma halve_hyphens_shrinks: "str_contains ''--'' s \<Longrightarrow> length (halve_hyphens s) < length s"
proof (induction s rule: halve_hyphens.induct)
  case (1 c d s)
  show ?case
  proof (cases "c = CHR ''-'' \<and> d = CHR ''-''")
    case True
    with halve_hyphens_length [of s] show ?thesis by simp
  next
    case False
    with 1 show ?thesis by (auto simp: str_contains_sublist sublist_Cons_right)
  qed
qed (auto simp: str_contains_sublist sublist_Cons_right)

function collapse_hyphens :: "string \<Rightarrow> string" where
  "collapse_hyphens s = (if str_contains ''--'' s then collapse_hyphens (halve_hyphens s) else s)"
  by pat_completeness auto
termination
  by (relation "measure length") (auto dest: halve_hyphens_shrinks)

declare collapse_hyphens.simps [simp del]

definition environment_slug :: "string \<Rightarrow> string res" where
  "environment_slug name =
     (let v = collapse_hyphens (strip_hyphens (map (\<lambda>c. if is_alnum c then lower_char c else CHR ''-'') name))
      in if v = [] then Inl (ValidationError ''environment name cannot be converted to a URL slug'')
         else Inr (take 96 v))"

definition published_config_paths :: "string \<Rightarrow> string \<Rightarrow> string \<Rightarrow> (string, string) dict" where
  "published_config_paths container_key config_version slug =
     (let base = ''containers/'' @ container_key in
      [(''config'', base @ ''/revisions/'' @ config_version @ ''/config.json''),
       (''latest'', base @ ''/environments/'' @ slug @ ''/latest.json''),
       (''manifest'', base @ ''/environments/'' @ slug @ ''/manifest.json'')])"

text \<open>The readers of a published document; \<open>named_events\<close> are the events with a textual name.\<close>

definition config_events :: "pydict \<Rightarrow> pyval list res" where
  "config_events config = py_iter (get_or config ''events'' (VList []))"

definition iter_event_names :: "pydict \<Rightarrow> string list res" where
  "iter_event_names config = bindR (config_events config) (\<lambda>events.
     Inr (concat (map (\<lambda>event. case event of
         VDict d \<Rightarrow> (case get_or d ''name'' VNone of VStr s \<Rightarrow> [s] | _ \<Rightarrow> []) | _ \<Rightarrow> []) events)))"

fun event_purposes :: "pyval list \<Rightarrow> (string, string list) dict \<Rightarrow> (string, string list) dict res" where
  "event_purposes [] result = Inr result"
| "event_purposes (event # events) result = (case event of
     VDict d \<Rightarrow> (case get_or d ''name'' VNone of
         VStr s \<Rightarrow> bindR (py_iter (get_or d ''purposes'' (VList []))) (\<lambda>ps.
           event_purposes events (dict_put result s (map text_of (filter is_str ps))))
       | _ \<Rightarrow> event_purposes events result)
   | _ \<Rightarrow> event_purposes events result)"

definition purpose_requirements :: "pydict \<Rightarrow> (string, string list) dict res" where
  "purpose_requirements config = bindR (config_events config) (\<lambda>events. event_purposes events [])"

definition find_public_event :: "pydict \<Rightarrow> string \<Rightarrow> pyval option res" where
  "find_public_event config name = bindR (config_events config) (\<lambda>events.
     Inr (find (\<lambda>event. case event of VDict d \<Rightarrow> get_or d ''name'' VNone = VStr name | _ \<Rightarrow> False) events))"

definition require_current_revision :: "machine \<Rightarrow> string \<Rightarrow> string \<Rightarrow> string option \<Rightarrow> (string \<times> pyval) op" where
  "require_current_revision m container_id ref org =
     bindW (service_get_environment m container_id ref org) (\<lambda>e. case env_current e of
       None \<Rightarrow> raiseW (NotFoundError (''environment '' @ repr_str (env_label e) @ '' has no active configuration revision''))
     | Some v \<Rightarrow> bindW (service_get_revision m container_id v org) (\<lambda>r. retW (rev_version r, rev_number r)))"

end
