(* ===== verification/Publisher.thy ===== *)
theory Publisher
  imports Published
begin

section \<open>Publication to a static site (distribution/publisher.py)\<close>

text \<open>
  \<open>FilesystemCDN\<close> writes published configurations and pointers to them below a root directory that a web
  server or a bucket serves.  A site is the text of each file.  An operation works on the history of
  the site, its present state first: every atomic write puts a new state in front, so the history
  holds every state a reader can see, or a crash leave behind, between the writes.  The lock makes
  the writes of one publication consecutive.  SHA-256 and \<open>json.loads\<close> are those of the runtime, file
  names are single path components, and the texts of the operating system's errors, which do not
  occur here, are left out.
\<close>

subsection \<open>Sites\<close>

type_synonym site = "(path, string) dict"
type_synonym 'a pub = "site list \<Rightarrow> 'a res \<times> site list"

definition retP :: "'a \<Rightarrow> 'a pub" where "retP x h = (Inr x, h)"
definition liftP :: "'a res \<Rightarrow> 'a pub" where "liftP r h = (r, h)"
definition readP :: "(site \<Rightarrow> 'a res) \<Rightarrow> 'a pub" where "readP f h = (f (hd h), h)"

definition bindP :: "'a pub \<Rightarrow> ('a \<Rightarrow> 'b pub) \<Rightarrow> 'b pub" where
  "bindP m f h = (case m h of (Inl e, h') \<Rightarrow> (Inl e, h') | (Inr x, h') \<Rightarrow> f x h')"

text \<open>\<open>_atomic_write\<close>: the temporary file takes the place of the old one in one step.\<close>

definition write_file :: "path \<Rightarrow> string \<Rightarrow> unit pub" where
  "write_file p data h = (Inr (), dict_put (hd h) p data # h)"

record cdn =
  cdn_root :: string
  cdn_base_url :: "string option"
  cdn_sdk_version :: string
  cdn_sdk_name :: string
  cdn_sdk_asset :: "string option"

definition rstrip_slash :: "string \<Rightarrow> string" where
  "rstrip_slash s = rev (dropWhile (\<lambda>c. c = CHR ''/'') (rev s))"

definition lstrip_slash :: "string \<Rightarrow> string" where
  "lstrip_slash s = dropWhile (\<lambda>c. c = CHR ''/'') s"

definition cdn_create :: "string \<Rightarrow> string option \<Rightarrow> string \<Rightarrow> string \<Rightarrow> string option \<Rightarrow> cdn" where
  "cdn_create root_path base_url sdk_version sdk_name sdk_asset = \<lparr>cdn_root = root_path,
     cdn_base_url = (case base_url of None \<Rightarrow> None | Some u \<Rightarrow> if u = [] then None else Some (rstrip_slash u)),
     cdn_sdk_version = sdk_version, cdn_sdk_name = sdk_name, cdn_sdk_asset = sdk_asset\<rparr>"

definition url_path :: "path \<Rightarrow> string" where
  "url_path p = join_with ''/'' p"

definition site_path :: "cdn \<Rightarrow> path \<Rightarrow> string" where
  "site_path c p = cdn_root c @ ''/'' @ url_path p"

definition join_url :: "string option \<Rightarrow> string \<Rightarrow> string" where
  "join_url base_url p = (case base_url of
     None \<Rightarrow> ''/'' @ lstrip_slash p
   | Some u \<Rightarrow> if u = [] then ''/'' @ lstrip_slash p else rstrip_slash u @ ''/'' @ lstrip_slash p)"

definition write_immutable :: "cdn \<Rightarrow> path \<Rightarrow> string \<Rightarrow> string \<Rightarrow> unit pub" where
  "write_immutable c p data label h = (case map_of (hd h) p of
     None \<Rightarrow> write_file p data h
   | Some existing \<Rightarrow>
       if existing \<noteq> data
       then (Inl (ConflictError (label @ '' already exists with different contents: '' @ site_path c p)), h)
       else (Inr (), h))"

text \<open>\<open>json.dumps(value, indent=2, sort_keys=True, ensure_ascii=False)\<close> and \<open>_json_bytes\<close>.\<close>

definition new_line :: "nat \<Rightarrow> string" where
  "new_line n = CHR 0x0A # replicate (2 * n) CHR '' ''"

fun json_pretty :: "py_runtime \<Rightarrow> nat \<Rightarrow> pyval \<Rightarrow> string" where
  "json_pretty rt n (VList xs) = (if xs = [] then ''[]''
     else ''['' @ new_line (n + 1) @ join_with ('','' @ new_line (n + 1)) (map (json_pretty rt (n + 1)) xs)
       @ new_line n @ '']'')"
| "json_pretty rt n (VDict d) = (if d = [] then ''{}''
     else ''{'' @ new_line (n + 1) @ join_with ('','' @ new_line (n + 1))
         (map snd (sort_key fst (map (\<lambda>p. (fst p, json_str (fst p) @ '': '' @ json_pretty rt (n + 1) (snd p))) d)))
       @ new_line n @ ''}'')"
| "json_pretty rt n v = event_json rt v"

definition json_bytes :: "py_runtime \<Rightarrow> pyval \<Rightarrow> string" where
  "json_bytes rt v = json_pretty rt 0 v @ [CHR 0x0A]"

definition sha256_line :: "string \<Rightarrow> string \<Rightarrow> string" where
  "sha256_line digest name = digest @ ''  '' @ name @ [CHR 0x0A]"

subsection \<open>Paths\<close>

definition config_file :: "string \<Rightarrow> string \<Rightarrow> path" where
  "config_file key version = [''containers'', key, ''revisions'', version, ''config.json'']"

definition latest_file :: "string \<Rightarrow> string \<Rightarrow> path" where
  "latest_file key slug = [''containers'', key, ''environments'', slug, ''latest.json'']"

definition manifest_file :: "string \<Rightarrow> string \<Rightarrow> path" where
  "manifest_file key slug = [''containers'', key, ''environments'', slug, ''manifest.json'']"

definition sdk_file :: "cdn \<Rightarrow> path" where
  "sdk_file c = [''sdk'', ''web'', cdn_sdk_version c, ''pytagmanager.js'']"

definition sha_of :: "path \<Rightarrow> path" where
  "sha_of p = butlast p @ [last p @ ''.sha256'']"

subsection \<open>What is published\<close>

text \<open>
  The document and its bytes: those of the file that is already there, if it is intact and of this
  revision, otherwise the new ones.
\<close>

definition published_source ::
    "py_runtime \<Rightarrow> cdn \<Rightarrow> container \<Rightarrow> string \<Rightarrow> path \<Rightarrow> pydict \<Rightarrow> site \<Rightarrow> (pydict \<times> string) res" where
  "published_source rt c ct version p config site = (case map_of site p of
     None \<Rightarrow> Inr (config, json_bytes rt (VDict config))
   | Some data \<Rightarrow> (case json_loads rt data of
       Inl msg \<Rightarrow> Inl (ConflictError (''existing published configuration is unreadable or invalid: '' @ msg))
     | Inr v \<Rightarrow> (case v of
         VDict existing \<Rightarrow>
           if get_or existing ''container_id'' VNone \<noteq> VStr (ct_id ct)
             \<or> get_or existing ''config_version'' VNone \<noteq> VStr version
           then Inl (ConflictError (''published configuration identity mismatch: '' @ site_path c p))
           else (case verify_published_config rt v of
               Inl e \<Rightarrow> Inl (ConflictError (''existing published configuration is unreadable or invalid: '' @ exn_message e))
             | Inr _ \<Rightarrow> Inr (existing, data))
       | _ \<Rightarrow> Inl (AttributeError (type_name v @ '' object has no attribute '' @ repr_str ''get'')))))"

text \<open>\<open>config["environment"][key]\<close>.\<close>

definition environment_item :: "pydict \<Rightarrow> string \<Rightarrow> pyval res" where
  "environment_item config key = bindR (dict_item config ''environment'') (\<lambda>e. case e of
     VDict d \<Rightarrow> dict_item d key
   | _ \<Rightarrow> Inl (TypeError (type_name e @ '' object is not subscriptable by text'')))"

definition latest_document ::
    "cdn \<Rightarrow> container \<Rightarrow> string \<Rightarrow> string \<Rightarrow> string \<Rightarrow> pydict \<Rightarrow> string \<Rightarrow> string \<Rightarrow> string \<Rightarrow> pydict res" where
  "latest_document c ct key slug version config file_sha digest sdk_digest =
     bindR (environment_item config ''name'') (\<lambda>name.
     bindR (environment_item config ''protected'') (\<lambda>protected.
     bindR (dict_item config ''revision_number'') (\<lambda>number.
     bindR (dict_item config ''published_at'') (\<lambda>published_at.
     Inr [
       (''schema_version'', VStr ''1.0''),
       (''kind'', VStr ''pytagmanager.environment''),
       (''container_id'', VStr (ct_id ct)),
       (''environment'', VDict [(''name'', name), (''slug'', VStr slug), (''protected'', protected)]),
       (''config_version'', VStr version),
       (''revision_number'', number),
       (''config_path'', VStr (''revisions/'' @ version @ ''/config.json'')),
       (''config_url'', VStr (join_url (cdn_base_url c) (url_path (config_file key version)))),
       (''config_file_sha256'', VStr file_sha),
       (''integrity_digest'', VStr digest),
       (''sdk'', VDict [(''web'', VDict [
         (''version'', VStr (cdn_sdk_version c)),
         (''path'', VStr (url_path (sdk_file c))),
         (''url'', VStr (join_url (cdn_base_url c) (url_path (sdk_file c)))),
         (''sha256'', VStr sdk_digest)])]),
       (''published_at'', published_at),
       (''cache'', VDict [(''max_age_seconds'', VInt 0), (''immutable'', VBool False)])]))))"

subsection \<open>The manifest\<close>

text \<open>A JSON file that holds an object; anything else counts as empty.\<close>

definition read_object :: "py_runtime \<Rightarrow> site \<Rightarrow> path \<Rightarrow> pydict" where
  "read_object rt site p = (case map_of site p of
     None \<Rightarrow> []
   | Some data \<Rightarrow> (case json_loads rt data of Inr (VDict d) \<Rightarrow> d | _ \<Rightarrow> []))"

text \<open>
  The dictionary from versions to entries: a version that is a list or an object is unhashable.  Keys
  are compared as values, which for texts, the only versions ever written, is Python's equality.
\<close>

fun manifest_entries :: "pyval list \<Rightarrow> (pyval, pyval) dict \<Rightarrow> (pyval, pyval) dict res" where
  "manifest_entries [] acc = Inr acc"
| "manifest_entries (item # items) acc = (case item of
     VDict d \<Rightarrow>
       (let version = get_or d ''config_version'' VNone in
        if \<not> truthy version then manifest_entries items acc
        else if is_list version \<or> is_mapping version
        then Inl (TypeError (''unhashable type: '' @ repr_str (type_name version)))
        else manifest_entries items (dict_put acc version item))
   | _ \<Rightarrow> manifest_entries items acc)"

definition revision_number_of :: "pyval \<Rightarrow> int res" where
  "revision_number_of item = (case item of
     VDict d \<Rightarrow> bindR (dict_item d ''revision_number'') (\<lambda>n. case n of
         VInt i \<Rightarrow> Inr i
       | VBool b \<Rightarrow> Inr (if b then 1 else 0)
       | _ \<Rightarrow> Inl (TypeError ''revision numbers cannot be ordered''))
   | _ \<Rightarrow> Inl (TypeError (type_name item @ '' object is not subscriptable'')))"

text \<open>\<open>sorted(..., key=revision_number, reverse=True)\<close> keeps the order of equal numbers.\<close>

definition newest_first :: "pyval list \<Rightarrow> pyval list res" where
  "newest_first items = bindR (mapR revision_number_of items) (\<lambda>ns.
     Inr (map snd (sort_key (\<lambda>p. - fst p) (zip ns items))))"

definition build_manifest ::
    "py_runtime \<Rightarrow> cdn \<Rightarrow> string \<Rightarrow> string \<Rightarrow> pydict \<Rightarrow> string \<Rightarrow> string \<Rightarrow> string \<Rightarrow> site \<Rightarrow> pydict res" where
  "build_manifest rt c key slug config file_sha digest sdk_digest site =
     bindR (py_iter (get_or (read_object rt site (manifest_file key slug)) ''revisions'' (VList []))) (\<lambda>items.
     bindR (manifest_entries items []) (\<lambda>entries.
     bindR (dict_item config ''config_version'') (\<lambda>version.
     bindR (dict_item config ''revision_number'') (\<lambda>number.
     bindR (dict_item config ''published_at'') (\<lambda>published_at.
     let entry = VDict [
           (''config_version'', version),
           (''revision_number'', number),
           (''config_path'', VStr (''revisions/'' @ text_of version @ ''/config.json'')),
           (''file_sha256'', VStr file_sha),
           (''integrity_digest'', VStr digest),
           (''published_at'', published_at)]
     in bindR (dict_item config ''container_id'') (\<lambda>container_id.
     bindR (environment_item config ''name'') (\<lambda>name.
     bindR (environment_item config ''protected'') (\<lambda>protected.
     bindR (newest_first (map snd (dict_put entries version entry))) (\<lambda>revisions.
     Inr [
       (''schema_version'', VStr ''1.0''),
       (''kind'', VStr ''pytagmanager.publication-manifest''),
       (''container_id'', container_id),
       (''environment'', VDict [(''name'', name), (''slug'', VStr slug), (''protected'', protected)]),
       (''current_config_version'', version),
       (''published_at'', published_at),
       (''revisions'', VList revisions),
       (''sdk_assets'', VList [VDict [
         (''platform'', VStr ''web''),
         (''version'', VStr (cdn_sdk_version c)),
         (''path'', VStr (url_path (sdk_file c))),
         (''sha256'', VStr sdk_digest)]])])))))))))"

subsection \<open>The index of the site\<close>

definition container_keys :: "site \<Rightarrow> string list" where
  "container_keys site = sort (remdups (List.map_filter (\<lambda>p. case fst p of
       (d # key # rest) \<Rightarrow> if d = ''containers'' \<and> rest \<noteq> [] then Some key else None | _ \<Rightarrow> None) site))"

definition environment_slugs :: "site \<Rightarrow> string \<Rightarrow> string list" where
  "environment_slugs site key = sort (remdups (List.map_filter (\<lambda>p. case fst p of
       (d # k # e # slug # rest) \<Rightarrow>
         if d = ''containers'' \<and> k = key \<and> e = ''environments'' \<and> rest \<noteq> [] then Some slug else None
     | _ \<Rightarrow> None) site))"

definition published_pointers :: "site \<Rightarrow> (string \<times> string) list" where
  "published_pointers site = filter (\<lambda>(key, slug). map_of site (latest_file key slug) \<noteq> None)
     (concat (map (\<lambda>key. map (Pair key) (environment_slugs site key)) (container_keys site)))"

text \<open>\<open>document.get(key)\<close> and \<open>document.get("environment", \{\}).get(key)\<close>.\<close>

definition attribute_get :: "pyval \<Rightarrow> string \<Rightarrow> pyval \<Rightarrow> pyval res" where
  "attribute_get v key default_value = (case v of
     VDict d \<Rightarrow> Inr (get_or d key default_value)
   | _ \<Rightarrow> Inl (AttributeError (type_name v @ '' object has no attribute '' @ repr_str ''get'')))"

definition index_entry :: "py_runtime \<Rightarrow> site \<Rightarrow> string \<times> string \<Rightarrow> pydict list res" where
  "index_entry rt site ks = (case ks of (key, slug) \<Rightarrow>
     (case map_of site (latest_file key slug) of
        None \<Rightarrow> Inr []
      | Some data \<Rightarrow> (case json_loads rt data of
          Inl _ \<Rightarrow> Inr []
        | Inr document \<Rightarrow>
            bindR (attribute_get document ''container_id'' VNone) (\<lambda>container_id.
            bindR (attribute_get document ''environment'' (VDict [])) (\<lambda>environment.
            bindR (attribute_get environment ''name'' VNone) (\<lambda>name.
            bindR (attribute_get document ''config_version'' VNone) (\<lambda>version.
            bindR (attribute_get document ''published_at'' VNone) (\<lambda>published_at.
            Inr [[(''container_id'', container_id), (''environment'', name), (''config_version'', version),
              (''latest_path'', VStr (url_path (latest_file key slug))), (''published_at'', published_at)]]))))))))"

definition text_or_empty :: "py_runtime \<Rightarrow> pyval \<Rightarrow> string" where
  "text_or_empty rt v = (if truthy v then py_str rt v else [])"

definition index_key :: "py_runtime \<Rightarrow> pydict \<Rightarrow> string \<times> string" where
  "index_key rt d = (text_or_empty rt (get_or d ''container_id'' VNone), text_or_empty rt (get_or d ''environment'' VNone))"

definition build_index :: "py_runtime \<Rightarrow> string \<Rightarrow> site \<Rightarrow> pydict res" where
  "build_index rt now site = bindR (mapR (index_entry rt site) (published_pointers site)) (\<lambda>entries.
     Inr [
       (''schema_version'', VStr ''1.0''),
       (''kind'', VStr ''pytagmanager.cdn-index''),
       (''generated_at'', VStr now),
       (''publications'', VList (map VDict (sort_key (index_key rt) (concat entries))))])"

subsection \<open>Cache headers\<close>

definition IMMUTABLE_CACHE :: string where "IMMUTABLE_CACHE = ''public, max-age=31536000, immutable''"
definition POINTER_CACHE :: string where "POINTER_CACHE = ''no-cache, max-age=0, must-revalidate''"

definition cache_headers :: "string \<Rightarrow> string \<Rightarrow> bool \<Rightarrow> pyval" where
  "cache_headers cache content_type cross_origin = VDict (
     [(''Cache-Control'', VStr cache), (''Content-Type'', VStr content_type), (''X-Content-Type-Options'', VStr ''nosniff'')]
     @ (if cross_origin then [(''Access-Control-Allow-Origin'', VStr ''*'')] else []))"

definition JSON_CONTENT :: string where "JSON_CONTENT = ''application/json; charset=utf-8''"

definition headers_file :: path where "headers_file = [''_headers.json'']"

definition update_headers :: "py_runtime \<Rightarrow> cdn \<Rightarrow> string \<Rightarrow> string \<Rightarrow> string \<Rightarrow> site \<Rightarrow> pydict" where
  "update_headers rt c key slug version site =
     (let at_path = (\<lambda>d p v. dict_put d (''/'' @ url_path p) v);
          d = read_object rt site headers_file;
          d = at_path d (sdk_file c) (cache_headers IMMUTABLE_CACHE ''application/javascript; charset=utf-8'' False);
          d = at_path d (config_file key version) (cache_headers IMMUTABLE_CACHE JSON_CONTENT True);
          d = at_path d (latest_file key slug) (cache_headers POINTER_CACHE JSON_CONTENT True);
          d = at_path d (manifest_file key slug) (cache_headers POINTER_CACHE JSON_CONTENT False)
      in at_path d [''index.json''] (cache_headers POINTER_CACHE JSON_CONTENT False))"

subsection \<open>Publishing\<close>

record publish_result =
  pr_container_id :: string
  pr_environment :: pyval
  pr_config_version :: string
  pr_revision_number :: pyval
  pr_config_path :: string
  pr_latest_path :: string
  pr_manifest_path :: string
  pr_config_url :: string
  pr_latest_url :: string
  pr_integrity_digest :: string
  pr_file_sha256 :: string
  pr_sdk_version :: string
  pr_sdk_path :: string
  pr_published_at :: pyval

definition publish_result_to_dict :: "publish_result \<Rightarrow> pyval" where
  "publish_result_to_dict r = VDict [
     (''container_id'', VStr (pr_container_id r)), (''environment'', pr_environment r),
     (''config_version'', VStr (pr_config_version r)), (''revision_number'', pr_revision_number r),
     (''config_path'', VStr (pr_config_path r)), (''latest_path'', VStr (pr_latest_path r)),
     (''manifest_path'', VStr (pr_manifest_path r)), (''config_url'', VStr (pr_config_url r)),
     (''latest_url'', VStr (pr_latest_url r)), (''integrity_digest'', VStr (pr_integrity_digest r)),
     (''file_sha256'', VStr (pr_file_sha256 r)), (''sdk_version'', VStr (pr_sdk_version r)),
     (''sdk_path'', VStr (pr_sdk_path r)), (''published_at'', pr_published_at r)]"

definition sdk_content :: "cdn \<Rightarrow> string res" where
  "sdk_content c = (case cdn_sdk_asset c of
     None \<Rightarrow> Inl (NotFoundError (''Web SDK asset not found: '' @ cdn_sdk_name c)) | Some s \<Rightarrow> Inr s)"

text \<open>The writes: first the files that never change, then the pointers to them.\<close>

definition write_assets :: "py_runtime \<Rightarrow> cdn \<Rightarrow> string \<Rightarrow> string \<Rightarrow> string \<Rightarrow> string \<Rightarrow> unit pub" where
  "write_assets rt c key version data sdk =
     bindP (write_immutable c (config_file key version) data ''published configuration'') (\<lambda>_.
     bindP (write_immutable c (sha_of (config_file key version)) (sha256_line (sha256_hex rt data) ''config.json'')
       ''published configuration checksum'') (\<lambda>_.
     bindP (write_immutable c (sdk_file c) sdk ''Web SDK asset'') (\<lambda>_.
     write_immutable c (sha_of (sdk_file c)) (sha256_line (sha256_hex rt sdk) ''pytagmanager.js'') ''Web SDK checksum'')))"

definition write_pointers ::
    "py_runtime \<Rightarrow> cdn \<Rightarrow> string \<Rightarrow> container \<Rightarrow> string \<Rightarrow> string \<Rightarrow> string \<Rightarrow> pydict \<Rightarrow> string \<Rightarrow> string \<Rightarrow> string
     \<Rightarrow> unit pub" where
  "write_pointers rt c now ct key slug version config sha digest sdk_sha =
     bindP (liftP (latest_document c ct key slug version config sha digest sdk_sha)) (\<lambda>latest.
     bindP (write_file (latest_file key slug) (json_bytes rt (VDict latest))) (\<lambda>_.
     bindP (write_file (sha_of (latest_file key slug))
       (sha256_line (sha256_hex rt (json_bytes rt (VDict latest))) ''latest.json'')) (\<lambda>_.
     bindP (readP (build_manifest rt c key slug config sha digest sdk_sha)) (\<lambda>manifest.
     bindP (write_file (manifest_file key slug) (json_bytes rt (VDict manifest))) (\<lambda>_.
     bindP (readP (\<lambda>site. Inr (update_headers rt c key slug version site))) (\<lambda>headers.
     bindP (write_file headers_file (json_bytes rt (VDict headers))) (\<lambda>_.
     bindP (readP (build_index rt now)) (\<lambda>index.
     write_file [''index.json''] (json_bytes rt (VDict index))))))))))"

definition publish_config ::
    "py_runtime \<Rightarrow> cdn \<Rightarrow> string \<Rightarrow> container \<Rightarrow> pydict \<Rightarrow> publish_result pub" where
  "publish_config rt c now ct config =
     bindP (liftP (container_storage_key rt (VStr (ct_org_id ct)) (VStr (ct_id ct)))) (\<lambda>key.
     bindP (liftP (environment_item config ''name'')) (\<lambda>name.
     bindP (liftP (environment_slug (text_of name))) (\<lambda>slug.
     bindP (liftP (dict_item config ''config_version'')) (\<lambda>v.
     let version = text_of v in
     bindP (readP (published_source rt c ct version (config_file key version) config)) (\<lambda>(config, data).
     bindP (liftP (verify_published_config rt (VDict config))) (\<lambda>digest.
     bindP (liftP (sdk_content c)) (\<lambda>sdk.
     bindP (write_assets rt c key version data sdk) (\<lambda>_.
     bindP (write_pointers rt c now ct key slug version config (sha256_hex rt data) digest (sha256_hex rt sdk)) (\<lambda>_.
     bindP (liftP (environment_item config ''name'')) (\<lambda>name.
     bindP (liftP (dict_item config ''revision_number'')) (\<lambda>number.
     bindP (liftP (dict_item config ''published_at'')) (\<lambda>published_at.
     retP \<lparr>pr_container_id = ct_id ct, pr_environment = name, pr_config_version = version,
       pr_revision_number = number, pr_config_path = url_path (config_file key version),
       pr_latest_path = url_path (latest_file key slug), pr_manifest_path = url_path (manifest_file key slug),
       pr_config_url = join_url (cdn_base_url c) (url_path (config_file key version)),
       pr_latest_url = join_url (cdn_base_url c) (url_path (latest_file key slug)),
       pr_integrity_digest = digest, pr_file_sha256 = sha256_hex rt data, pr_sdk_version = cdn_sdk_version c,
       pr_sdk_path = url_path (sdk_file c), pr_published_at = published_at\<rparr>))))))))))))"

text \<open>\<open>publish_environment\<close>, on the world of the control plane and the site.\<close>

definition publish_environment ::
    "machine \<Rightarrow> cdn \<Rightarrow> string \<Rightarrow> string \<Rightarrow> string \<Rightarrow> string option \<Rightarrow> (string, bool) dict option
     \<Rightarrow> (string, string) dict option \<Rightarrow> bool \<Rightarrow> string option \<Rightarrow> site list \<Rightarrow> world
     \<Rightarrow> publish_result res \<times> site list \<times> world" where
  "publish_environment m c now container_id ref org default_consent min_sdk allow_protected published_at h w =
     (case bindW (find_container m container_id org) (\<lambda>ct.
         bindW (build_published_config m container_id ref org published_at default_consent min_sdk allow_protected)
           (\<lambda>config. retW (ct, config))) w of
       (Inl e, w') \<Rightarrow> (Inl e, h, w')
     | (Inr (ct, config), w') \<Rightarrow>
         (case publish_config (m_rt m) c now ct config h of (r, h') \<Rightarrow> (r, h', w')))"

subsection \<open>Reading and checking a site\<close>

text \<open>\<open>read_manifest\<close>: the directories are visited in the order of the site's entries.\<close>

definition manifest_names :: "py_runtime \<Rightarrow> pyval \<Rightarrow> string \<Rightarrow> string res" where
  "manifest_names rt document key =
     bindR (attribute_get document ''environment'' (VDict [])) (\<lambda>environment.
     bindR (attribute_get environment key (VStr [])) (\<lambda>v. Inr (py_casefold (py_str rt v))))"

fun matching_manifests :: "py_runtime \<Rightarrow> site \<Rightarrow> string \<Rightarrow> string \<Rightarrow> string list \<Rightarrow> pyval list res" where
  "matching_manifests rt site key ref [] = Inr []"
| "matching_manifests rt site key ref (slug # slugs) =
     bindR (case map_of site (manifest_file key slug) of
         None \<Rightarrow> Inr []
       | Some data \<Rightarrow> (case json_loads rt data of
           Inl _ \<Rightarrow> Inr []
         | Inr document \<Rightarrow>
             bindR (manifest_names rt document ''name'') (\<lambda>name.
             if name = py_casefold ref then Inr [document]
             else bindR (manifest_names rt document ''slug'') (\<lambda>s.
               Inr (if s = py_casefold ref then [document] else [])))))
       (\<lambda>found. bindR (matching_manifests rt site key ref slugs) (\<lambda>rest. Inr (found @ rest)))"

definition read_manifest :: "py_runtime \<Rightarrow> string \<Rightarrow> string \<Rightarrow> string \<Rightarrow> site \<Rightarrow> pyval res" where
  "read_manifest rt container_id ref org site =
     bindR (container_storage_key rt (VStr org) (VStr container_id)) (\<lambda>key.
     bindR (matching_manifests rt site key ref (remdups (List.map_filter (\<lambda>p. case fst p of
         (d # k # e # slug # rest) \<Rightarrow>
           if d = ''containers'' \<and> k = key \<and> e = ''environments'' \<and> rest \<noteq> [] then Some slug else None
       | _ \<Rightarrow> None) site))) (\<lambda>candidates.
     if candidates = [] then Inl (NotFoundError (''no published manifest for container '' @ repr_str container_id
       @ '' environment '' @ repr_str ref))
     else Inr (hd candidates)))"

type_synonym site_issue = "string \<times> string"

text \<open>The checks of one entry of a manifest.\<close>

definition revision_issues :: "py_runtime \<Rightarrow> cdn \<Rightarrow> site \<Rightarrow> string \<Rightarrow> pyval \<Rightarrow> site_issue list" where
  "revision_issues rt c site key revision = (case revision of
     VDict r \<Rightarrow> (case get_or r ''config_path'' VNone of
         VStr cp \<Rightarrow>
           (let p = [''containers'', key] @ split_on (CHR ''/'') cp; here = site_path c p in
            (case map_of site p of
               None \<Rightarrow> [(here, ''missing configuration'')]
             | Some data \<Rightarrow>
                 if get_or r ''file_sha256'' VNone \<noteq> VStr (sha256_hex rt data) then [(here, ''file checksum mismatch'')]
                 else (case json_loads rt data of
                     Inl e \<Rightarrow> [(here, ''integrity failure: '' @ e)]
                   | Inr document \<Rightarrow> (case verify_published_config rt document of
                         Inl e \<Rightarrow> [(here, ''integrity failure: '' @ exn_message e)]
                       | Inr _ \<Rightarrow> (case document of
                             VDict d \<Rightarrow> if \<not> py_eq (get_or d ''config_version'' VNone) (get_or r ''config_version'' VNone)
                               then [(here, ''revision identity mismatch'')] else []
                           | _ \<Rightarrow> [])))))
       | _ \<Rightarrow> [])
   | _ \<Rightarrow> [])"

definition pointer_issues :: "py_runtime \<Rightarrow> cdn \<Rightarrow> site \<Rightarrow> string \<Rightarrow> string \<Rightarrow> pydict \<Rightarrow> site_issue list res" where
  "pointer_issues rt c site key slug manifest =
     (let p = latest_file key slug in
      (case map_of site p of
         None \<Rightarrow> Inr []
       | Some data \<Rightarrow> (case json_loads rt data of
           Inl e \<Rightarrow> Inr [(site_path c p, ''invalid pointer: '' @ e)]
         | Inr pointer \<Rightarrow> bindR (attribute_get pointer ''config_version'' VNone) (\<lambda>v.
             Inr (if \<not> py_eq v (get_or manifest ''current_config_version'' VNone)
               then [(site_path c p, ''latest pointer does not match manifest'')] else [])))))"

definition manifest_issues :: "py_runtime \<Rightarrow> cdn \<Rightarrow> site \<Rightarrow> string \<times> string \<Rightarrow> site_issue list res" where
  "manifest_issues rt c site ks = (case ks of (key, slug) \<Rightarrow>
     (case map_of site (manifest_file key slug) of
        None \<Rightarrow> Inr []
      | Some data \<Rightarrow> (case json_loads rt data of
          Inl e \<Rightarrow> Inr [(site_path c (manifest_file key slug), ''invalid manifest: '' @ e)]
        | Inr v \<Rightarrow> (case v of
            VDict manifest \<Rightarrow>
              bindR (py_iter (get_or manifest ''revisions'' (VList []))) (\<lambda>revisions.
              bindR (pointer_issues rt c site key slug manifest) (\<lambda>pointer.
              Inr (concat (map (revision_issues rt c site key) revisions) @ pointer)))
          | _ \<Rightarrow> Inl (AttributeError (type_name v @ '' object has no attribute '' @ repr_str ''get''))))))"

definition verify_site :: "py_runtime \<Rightarrow> cdn \<Rightarrow> site \<Rightarrow> site_issue list res" where
  "verify_site rt c site =
     (if \<not> list_ex (\<lambda>p. case fst p of d # rest \<Rightarrow> d = ''containers'' \<and> rest \<noteq> [] | _ \<Rightarrow> False) site
      then Inr [(''containers'', ''no published containers'')]
      else bindR (mapR (manifest_issues rt c site)
          (concat (map (\<lambda>key. map (Pair key) (environment_slugs site key)) (container_keys site)))) (\<lambda>found.
        Inr (concat found)))"

end
