(* ===== verification/Published_Safety.thy ===== *)
theory Published_Safety
  imports Published Projection_Safety Shop_Scenario Filing
begin

section \<open>What a published configuration shows\<close>

subsection \<open>Keys\<close>

fun nested_names :: "pyval \<Rightarrow> string set" where
  "nested_names (VDict d) = (\<Union>kv \<in> set d. insert (fst kv) (nested_names (snd kv)))"
| "nested_names (VList xs) = (\<Union>x \<in> set xs. nested_names x)"
| "nested_names _ = {}"

lemma check_public_iff:
  "check_public v path = Inr u \<longleftrightarrow> (\<forall>k \<in> nested_names v. \<not> secret_key_name k)"
  "check_public_items d path = Inr u \<longleftrightarrow> (\<forall>k \<in> nested_names (VDict d). \<not> secret_key_name k)"
  "check_public_list xs path i = Inr u \<longleftrightarrow> (\<forall>k \<in> nested_names (VList xs). \<not> secret_key_name k)"
  by (induction v path and d path and xs path i rule: check_public_check_public_items_check_public_list.induct)
    (auto simp: bindR_Inr_iff if_Inl_Inr_iff)

subsection \<open>Sealing\<close>

lemma without_integrity_put:
  "map_of d ''integrity'' = None \<Longrightarrow> without_integrity (dict_put d ''integrity'' v) = d"
  by (induction d) (auto simp: without_integrity_def split: if_splits)

lemma published_unsigned_keys:
  "published_unsigned c e r t dc sdk = Inr d \<Longrightarrow> map_of d ''integrity'' = None"
  by (auto simp: published_unsigned_def bindR_Inr_iff split: option.splits)

lemma seal_config_Inr:
  assumes "seal_config rt d = Inr doc" and "map_of d ''integrity'' = None"
  shows "without_integrity doc = d \<and> verify_published_config rt (VDict doc) = Inr (config_digest rt d)
    \<and> (\<forall>k \<in> nested_names (VDict doc). \<not> secret_key_name k)"
  using assms by (auto simp: seal_config_def Let_def bindR_Inr_iff check_public_iff without_integrity_put
      verify_published_config_def get_or_def)

lemma find_container_reads: "find_container m i (Some o1) w = (x, w') \<Longrightarrow> w' = w"
  by (auto simp: find_container_def scope_org_def bindW_def op_run split: sum.splits prod.splits)

lemma load_revision_Inr:
  assumes "load_revision m i (Some v) (Some o1) w = (Inr (c, r), w')"
  shows "w' = w \<and> find_container m i (Some o1) w = (Inr c, w) \<and> get_revision m c v w = Inr r"
  using assms find_container_reads
  by (fastforce simp: load_revision_def find_revision_def bindW_Inr op_run on_not_found_Inr validate_id_Inr split: if_splits)

lemma build_published_Inr:
  assumes "build_published_config m i ref (Some o1) pat dc sdk allow w = (Inr doc, w')"
  shows "\<exists>c e v r t d. find_container m i (Some o1) w = (Inr c, w) \<and> resolve_environment m c ref w = Inr e
    \<and> (env_protected e \<longrightarrow> allow) \<and> env_current e = Some v \<and> get_revision m c v w = Inr r
    \<and> (\<exists>r'. valid_version m c w (rev_version r) r') \<and> published_unsigned i e r t dc sdk = Inr d \<and> seal_config (m_rt m) d = Inr doc"
proof -
  from assms obtain e w1 where e: "service_get_environment m i ref (Some o1) w = (Inr e, w1)"
    and go: "(if env_protected e \<and> \<not> allow
     then raiseW (ValidationError (''environment '' @ repr_str (env_label e)
       @ '' is protected; explicit allow_protected is required to publish it''))
     else case env_current e of
       None \<Rightarrow> raiseW (ValidationError (''environment '' @ repr_str (env_label e) @ '' has no active configuration revision''))
     | Some v \<Rightarrow>
         bindW (service_get_revision m i v (Some o1)) (\<lambda>r.
         bindW (validate_config m i (Some (rev_version r)) (Some o1)) (\<lambda>report.
         if \<not> report_valid report
         then raiseW (ValidationError (''revision '' @ repr_str (rev_version r) @ '' failed validation: ''
           @ join_with ''; '' (map vi_message (report_errors report))))
         else bindW (published_time m pat) (\<lambda>t.
           bindW (liftW (published_unsigned i e r t dc sdk)) (\<lambda>unsigned.
           liftW (seal_config (m_rt m) unsigned)))))) w1 = (Inr doc, w')"
    by (auto simp: build_published_config_def bindW_Inr)
  from e find_container_reads obtain c where c: "find_container m i (Some o1) w = (Inr c, w)" "resolve_environment m c ref w = Inr e" "w1 = w"
    by (fastforce simp: service_get_environment_def bindW_Inr op_run)
  from go have ok: "env_protected e \<longrightarrow> allow" by (auto simp: op_run split: if_splits)
  with go obtain v where v: "env_current e = Some v" by (auto simp: op_run split: option.splits)
  with go ok obtain r w2 report w3 t w4 d where r: "service_get_revision m i v (Some o1) w1 = (Inr r, w2)"
    and rep: "validate_config m i (Some (rev_version r)) (Some o1) w2 = (Inr report, w3)" "report_valid report"
    and d: "published_unsigned i e r t dc sdk = Inr d" "seal_config (m_rt m) d = Inr doc"
    by (auto simp: bindW_Inr op_run split: if_splits)
  from r c find_container_reads have r': "get_revision m c v w = Inr r" "w2 = w"
    by (auto simp: service_get_revision_def find_revision_def bindW_Inr op_run on_not_found_Inr)
  from rep(1) obtain c' r'' w4 where l: "load_revision m i (Some (rev_version r)) (Some o1) w2 = (Inr (c', r''), w4)"
    "default_validation m (rev_payload r'') = Inr report"
    by (auto simp: validate_config_def bindW_Inr op_run)
  from load_revision_Inr [OF l(1)] r'(2) c(1) have "get_revision m c (rev_version r) w = Inr r''" by auto
  with l(2) rep(2) have "valid_version m c w (rev_version r) r''" by (auto simp: valid_version_def)
  with r'(1) have "get_revision m c v w = Inr r" "\<exists>r'. valid_version m c w (rev_version r) r'" by blast+
  with c ok v d show ?thesis by blast
qed

lemma load_revision_ok:
  assumes "find_container m i (Some o1) w = (Inr c, w)" and "list_revisions m c w = Inr rs" and "rs \<noteq> []" and "get_revision m c v w = Inr r"
  shows "load_revision m i (Some v) (Some o1) w = (Inr (c, r), w)"
proof -
  from assms(4) have "validate_id (m_rt m) (VStr v) ''config_version'' = Inr v"
    by (auto simp: get_revision_def bindR_Inr_iff validate_id_Inr)
  with assms show ?thesis by (simp add: load_revision_def bindW_def op_run find_revision_def on_not_found_def)
qed

lemma build_published_ok:
  assumes "find_container m i (Some o1) w = (Inr c, w)" and "resolve_environment m c ref w = Inr e" and "env_protected e \<longrightarrow> allow"
    and "env_current e = Some v" and "valid_version m c w v r" and "rev_version r = v" and "list_revisions m c w = Inr rs" and "rs \<noteq> []"
    and "t \<noteq> []" and "published_unsigned i e r t dc sdk = Inr d" and "seal_config (m_rt m) d = Inr doc"
  shows "build_published_config m i ref (Some o1) (Some t) dc sdk allow w = (Inr doc, w)"
proof -
  from assms(5) obtain report where g: "get_revision m c v w = Inr r" "default_validation m (rev_payload r) = Inr report" "report_valid report"
    by (auto simp: valid_version_def)
  have "service_get_environment m i ref (Some o1) w = (Inr e, w)"
    using assms(1,2) by (simp add: service_get_environment_def bindW_def op_run)
  moreover have "service_get_revision m i v (Some o1) w = (Inr r, w)"
    using assms(1) g(1) by (simp add: service_get_revision_def bindW_def op_run find_revision_def on_not_found_def)
  moreover have "validate_config m i (Some v) (Some o1) w = (Inr report, w)"
    using load_revision_ok [OF assms(1,7,8) g(1)] g(2) by (simp add: validate_config_def bindW_def op_run)
  ultimately show ?thesis using assms(3,4,6,9-11) g(3)
    by (simp add: build_published_config_def bindW_def op_run published_time_def)
qed

subsection \<open>What the document does not depend on\<close>

text \<open>
  \<open>public_part\<close> forgets the variables, the settings and secret references of destinations, and of a
  tag everything but its public fields.
\<close>

definition public_tag :: "tag \<Rightarrow> tag" where
  "public_tag t = t\<lparr>tag_description := [], tag_variable_ids := [], tag_adapter_version := [], tag_compatibility := [],
     tag_source_evidence := None,
     tag_parameters := (case tag_event_name t of None \<Rightarrow> [] | Some n \<Rightarrow> [(''event_name'', VStr n)])\<rparr>"

definition public_destination :: "destination \<Rightarrow> destination" where
  "public_destination d = d\<lparr>destination_config := [], destination_secret_refs := []\<rparr>"

definition public_part :: "payload \<Rightarrow> payload" where
  "public_part p = \<lparr>payload_tags = map public_tag (payload_tags p), payload_triggers = payload_triggers p,
     payload_variables = [], payload_destinations = map public_destination (payload_destinations p)\<rparr>"

lemma insort_key_map: "(\<And>x. f (g x) = f x) \<Longrightarrow> insort_key f (g x) (map g xs) = map g (insort_key f x xs)"
  by (induction xs) auto

lemma sort_key_map: "(\<And>x. f (g x) = f x) \<Longrightarrow> sort_key f (map g xs) = map g (sort_key f xs)"
  by (induction xs) (simp_all add: insort_key_map)

lemma tag_event_name_text: "tag_event_name t = Some n \<Longrightarrow> n \<noteq> []"
  by (auto simp: tag_event_name_def Let_def usable_text_def text_of_def split: if_splits pyval.splits)

lemma tag_event_name_public: "tag_event_name (public_tag t) = tag_event_name t"
proof (cases "tag_event_name t")
  case None
  then have "tag_parameters (public_tag t) = []" by (simp add: public_tag_def)
  then have "tag_event_name (public_tag t) = None" by (simp add: tag_event_name_def get_or_def usable_text_def)
  with None show ?thesis by simp
next
  case (Some n)
  then have "tag_parameters (public_tag t) = [(''event_name'', VStr n)]" by (simp add: public_tag_def)
  then have "tag_event_name (public_tag t) = Some n" using tag_event_name_text [OF Some]
    by (simp add: tag_event_name_def get_or_def usable_text_def text_of_def)
  with Some show ?thesis by simp
qed

lemma public_tag_fields [simp]:
  "tag_id (public_tag t) = tag_id t" "tag_name (public_tag t) = tag_name t" "tag_type (public_tag t) = tag_type t"
  "tag_consent_purpose (public_tag t) = tag_consent_purpose t" "tag_enabled (public_tag t) = tag_enabled t"
  "tag_trigger_ids (public_tag t) = tag_trigger_ids t" "tag_destination_ids (public_tag t) = tag_destination_ids t"
  "tag_event_name (public_tag t) = tag_event_name t"
  by (simp_all add: tag_event_name_public) (simp_all add: public_tag_def)

lemma index_tags_public:
  "index_tags T (map public_tag ts) index = index_tags T ts index"
proof (induction ts arbitrary: index)
  case (Cons t ts)
  have "tag_names T (public_tag t) = tag_names T t" by (simp add: tag_names_def)
  moreover have "index_name (public_tag t) = index_name t" by (intro ext) (simp add: index_name_def)
  ultimately show ?case using Cons by simp
qed simp

lemma public_part_published:
  "build_event_index (public_part p) = build_event_index p" "public_tags (public_part p) = public_tags p"
  "public_destinations (public_part p) = public_destinations p"
  by (simp_all add: build_event_index_def public_tags_def public_destinations_def public_part_def index_tags_public
      sort_key_map public_destination_def)

subsection \<open>The event index\<close>

text \<open>\<open>announces T t n\<close>: the tag \<open>t\<close> is sent for events named \<open>n\<close>.\<close>

definition announces :: "(string, trigger) dict \<Rightarrow> tag \<Rightarrow> string \<Rightarrow> bool" where
  "announces T t n \<longleftrightarrow> tag_event_name t = Some n
     \<or> (\<exists>i \<in> set (tag_trigger_ids t). \<exists>trig ns. map_of T i = Some trig \<and> trigger_enabled trig
          \<and> trigger_event_names trig = Inr ns \<and> n \<in> set ns)"

lemma tag_names_announces:
  assumes "tag_names T t = Inr ns"
  shows "n \<in> set ns \<longleftrightarrow> announces T t n"
proof -
  from assms obtain found where f: "mapR (tag_trigger_names T) (tag_trigger_ids t) = Inr found"
    and n: "ns = remdups ((case tag_event_name t of None \<Rightarrow> [] | Some n \<Rightarrow> [n]) @ concat found)"
    by (auto simp: tag_names_def bindR_Inr_iff simp del: remdups.simps)
  have ns: "set ns = set_option (tag_event_name t) \<union> (\<Union>xs \<in> set found. set xs)"
    unfolding n set_remdups by (cases "tag_event_name t") simp_all
  note l = f [unfolded mapR_Inr_list_all2]
  have "(\<exists>xs \<in> set found. n \<in> set xs) \<longleftrightarrow> (\<exists>i \<in> set (tag_trigger_ids t). \<exists>xs. tag_trigger_names T i = Inr xs \<and> n \<in> set xs)"
    using l by (induction rule: list_all2_induct) auto
  then show ?thesis by (auto simp: ns announces_def tag_trigger_names_def split: option.splits if_splits)
qed

definition members :: "(string, string list) dict \<Rightarrow> string \<Rightarrow> string set" where
  "members d n = (case map_of d n of None \<Rightarrow> {} | Some xs \<Rightarrow> set xs)"

definition index_ok :: "(string, string list) dict \<Rightarrow> bool" where
  "index_ok d \<longleftrightarrow> distinct (keys d) \<and> (\<forall>n xs. map_of d n = Some xs \<longrightarrow> distinct xs)"

lemma map_of_add_to:
  "map_of (add_to d n x) k = (if k = n then Some (List.insert x (case map_of d n of None \<Rightarrow> [] | Some xs \<Rightarrow> xs)) else map_of d k)"
  by (simp add: add_to_def)

lemma add_to_ok:
  assumes "index_ok d"
  shows "index_ok (add_to d n x)"
proof -
  have "distinct ys" if "map_of (add_to d n x) k = Some ys" for k ys
  proof -
    have old: "map_of d m = Some zs \<Longrightarrow> distinct zs" for m zs using assms unfolding index_ok_def by blast
    have "distinct (case map_of d n of None \<Rightarrow> [] | Some xs \<Rightarrow> xs)"
      using old [of n] by (cases "map_of d n") simp_all
    with that old show ?thesis
      unfolding map_of_add_to by (metis distinct_insert option.inject)
  qed
  moreover have "distinct (keys (add_to d n x))" unfolding add_to_def
    by (rule distinct_keys_put) (use assms index_ok_def in blast)
  ultimately show ?thesis unfolding index_ok_def by blast
qed

lemma add_to_members: "members (add_to d n x) k = (if k = n then insert x (members d n) else members d k)"
  by (cases "map_of d n") (simp_all add: members_def map_of_add_to)

lemma add_to_keys: "set (keys (add_to d n x)) = insert n (set (keys d))"
proof -
  have "k \<in> set (keys e) \<longleftrightarrow> map_of e k \<noteq> None" for k and e :: "(string, string list) dict"
    by (simp add: map_of_eq_None_keys)
  then show ?thesis by (intro set_eqI) (simp add: map_of_add_to)
qed

text \<open>What the index holds after some tags.\<close>

definition index_of :: "(string, trigger) dict \<Rightarrow> tag set \<Rightarrow> event_index \<Rightarrow> bool" where
  "index_of T ts index \<longleftrightarrow> index_ok (fst index) \<and> index_ok (snd index)
     \<and> set (keys (fst index)) = {n. \<exists>t \<in> ts. tag_enabled t \<and> announces T t n}
     \<and> (\<forall>n. members (fst index) n = tag_id ` {t \<in> ts. tag_enabled t \<and> announces T t n})
     \<and> (\<forall>n. members (snd index) n = {p. p \<noteq> [] \<and> (\<exists>t \<in> ts. tag_enabled t \<and> announces T t n \<and> tag_consent_purpose t = Some p)})"

lemma index_names_spec:
  assumes "index_ok (fst index)" and "index_ok (snd index)"
  shows "index_ok (fst (foldl (index_name t) index ns)) \<and> index_ok (snd (foldl (index_name t) index ns))
    \<and> set (keys (fst (foldl (index_name t) index ns))) = set (keys (fst index)) \<union> set ns
    \<and> (\<forall>n. members (fst (foldl (index_name t) index ns)) n = members (fst index) n \<union> {x. x = tag_id t \<and> n \<in> set ns})
    \<and> (\<forall>n. members (snd (foldl (index_name t) index ns)) n = members (snd index) n
         \<union> {p. p \<noteq> [] \<and> tag_consent_purpose t = Some p \<and> n \<in> set ns})"
  using assms
proof (induction ns arbitrary: index)
  case (Cons n ns)
  obtain tags purposes where i: "index = (tags, purposes)" by fastforce
  have "index_ok (fst (index_name t index n))" "index_ok (snd (index_name t index n))"
    "set (keys (fst (index_name t index n))) = insert n (set (keys (fst index)))"
    "members (fst (index_name t index n)) k = members (fst index) k \<union> {x. x = tag_id t \<and> k = n}"
    "members (snd (index_name t index n)) k = members (snd index) k \<union> {p. p \<noteq> [] \<and> tag_consent_purpose t = Some p \<and> k = n}" for k
    using Cons.prems by (auto simp: i index_name_def add_to_ok add_to_members add_to_keys split: option.split)
  with Cons.IH [of "index_name t index n"] show ?case by auto
qed simp

lemma index_tags_spec:
  assumes "index_tags T ts index = Inr r" and "index_of T done index"
  shows "index_of T (done \<union> set ts) r"
  using assms
proof (induction ts arbitrary: index "done")
  case (Cons t ts)
  show ?case
  proof (cases "tag_enabled t")
    case False
    with Cons.prems(2) have "index_of T (insert t done) index" by (auto simp: index_of_def)
    with Cons.IH [of index "insert t done"] Cons.prems(1) False show ?thesis by simp
  next
    case True
    with Cons.prems(1) obtain ns where ns: "tag_names T t = Inr ns"
      and rest: "index_tags T ts (foldl (index_name t) index ns) = Inr r" by (auto simp: bindR_Inr_iff)
    from tag_names_announces [OF ns] have names: "set ns = {n. announces T t n}" by blast
    from Cons.prems(2) have ok: "index_ok (fst index)" "index_ok (snd index)" by (simp_all add: index_of_def)
    have "index_of T (insert t done) (foldl (index_name t) index ns)"
      using index_names_spec [OF ok, of t ns] Cons.prems(2) True names
      unfolding index_of_def by auto
    from Cons.IH [OF rest this] show ?thesis by simp
  qed
qed simp

subsection \<open>Publishing does not get stuck\<close>

lemma event_names_total: "cond_ok c \<Longrightarrow> \<exists>ns. event_names_from_condition (cond_dict c) = Inr ns"
proof (induction c)
  case (CAll cs)
  have "\<exists>ns. event_names_of_children (map cond_dict cs) names = Inr ns" for names
    using CAll by (induction cs arbitrary: names) fastforce+
  then show ?case by (subst event_names_from_condition.simps) (simp add: get_or_def Let_def is_mapping_def)
next
  case (CAny cs)
  have "\<exists>ns. event_names_of_children (map cond_dict cs) names = Inr ns" for names
    using CAny by (induction cs arbitrary: names) fastforce+
  then show ?case by (subst event_names_from_condition.simps) (simp add: get_or_def Let_def is_mapping_def)
next
  case (CNot c)
  then obtain ns where "event_names_from_condition (cond_dict c) = Inr ns" by auto
  with mapping_children_cond [of "VStr ''not''" "[c]"] show ?case
    by (subst event_names_from_condition.simps) (simp add: get_or_def Let_def is_mapping_def)
next
  case (CExists p)
  then show ?case by (subst event_names_from_condition.simps) (simp add: get_or_def Let_def is_mapping_def)
next
  case (CCompare op p v)
  then have "op \<noteq> ''all''" "op \<noteq> ''any''" "op \<noteq> ''not''" by (auto simp: op_lists)
  then show ?case by (subst event_names_from_condition.simps) (simp add: get_or_def Let_def is_mapping_def)
qed

lemma wf_trigger_cond: "wf_trigger rt trig \<Longrightarrow> \<exists>c. trigger_conditions trig = cond_dict c \<and> cond_ok c"
  by (auto simp: wf_trigger_def elim: validate_condition_sound)

lemma tag_names_total:
  assumes "\<And>i trig. map_of T i = Some trig \<Longrightarrow> wf_trigger rt trig"
  shows "\<exists>ns. tag_names T t = Inr ns"
proof -
  have "\<exists>ns. tag_trigger_names T i = Inr ns" for i
  proof (cases "map_of T i")
    case (Some trig)
    with assms wf_trigger_cond obtain c where "trigger_conditions trig = cond_dict c" "cond_ok c" by blast
    with event_names_total Some show ?thesis by (fastforce simp: tag_trigger_names_def trigger_event_names_def)
  qed (simp add: tag_trigger_names_def)
  then have "\<exists>found. mapR (tag_trigger_names T) is' = Inr found" for is'
    by (induction is') (fastforce simp: bindR_Inr_iff)+
  then show ?thesis by (fastforce simp: tag_names_def bindR_Inr_iff)
qed

lemma build_event_index_total: "wf_payload rt p \<Longrightarrow> \<exists>es. build_event_index p = Inr es"
proof -
  assume wf: "wf_payload rt p"
  let ?T = "index_by trigger_id (payload_triggers p)"
  have T: "wf_trigger rt trig" if "map_of ?T i = Some trig" for i trig
    using index_by_SomeD [OF that] wf by (simp add: wf_payload_def)
  have "\<exists>r. index_tags ?T ts index = Inr r" for ts index
  proof (induction ts arbitrary: index)
    case (Cons t ts)
    from tag_names_total [of ?T rt t] T obtain ns where "tag_names ?T t = Inr ns" by blast
    with Cons show ?case by simp
  qed simp
  then obtain r where "index_tags ?T (payload_tags p) ([], []) = Inr r" by blast
  then show ?thesis by (cases r) (simp add: build_event_index_def)
qed

lemma published_unsigned_total: "wf_payload rt (rev_payload r) \<Longrightarrow> \<exists>d. published_unsigned i e r t dc sdk = Inr d"
  using build_event_index_total by (fastforce simp: published_unsigned_def)

text \<open>The keys the code writes itself are harmless; those of the two mappings of the caller may not be.\<close>

definition harmless :: "(string, 'a) dict option \<Rightarrow> bool" where
  "harmless d \<longleftrightarrow> (\<forall>k \<in> set (keys (case d of None \<Rightarrow> [] | Some x \<Rightarrow> x)). \<not> secret_key_name k)"

definition PUBLIC_DOCUMENT_KEYS :: "string list" where
  "PUBLIC_DOCUMENT_KEYS = [''schema_version'', ''kind'', ''container_id'', ''config_version'', ''revision_number'', ''revision_checksum'',
     ''environment'', ''name'', ''protected'', ''published_at'', ''event_schema_version'', ''events'', ''tags'', ''destinations'',
     ''features'', ''client_side_execution'', ''event_collection'', ''server_side_forwarding'', ''compatibility'', ''event_contract'',
     ''min_sdk'', ''cache'', ''max_age_seconds'', ''immutable'', ''consent_defaults'', ''purposes'', ''tag_ids'', ''tag_id'', ''type'',
     ''event_name'', ''consent_purpose'', ''enabled'', ''trigger_ids'', ''destination_ids'', ''destination_id'',
     ''web'', ''android'', ''ios'', ''integrity'', ''algorithm'', ''digest'']"

lemma document_keys_harmless: "list_all (\<lambda>k. \<not> secret_key_name k) PUBLIC_DOCUMENT_KEYS"
proof -
  have lower: "map py_lower PUBLIC_DOCUMENT_KEYS = PUBLIC_DOCUMENT_KEYS"
    by (simp add: PUBLIC_DOCUMENT_KEYS_def py_lower_def lower_char_def is_upper_latin_def)
  have "list_all (\<lambda>k. \<not> str_contains marker k) PUBLIC_DOCUMENT_KEYS" if "marker \<in> set SECRET_KEY_MARKERS" for marker
    using that unfolding SECRET_KEY_MARKERS_def
    by (simp only: list.set insert_iff empty_iff simp_thms) (elim disjE; simp add: PUBLIC_DOCUMENT_KEYS_def)
  then have "list_all (\<lambda>k. \<not> str_contains marker (py_lower k)) PUBLIC_DOCUMENT_KEYS" if "marker \<in> set SECRET_KEY_MARKERS" for marker
    using that lower by (metis (mono_tags, lifting) list.pred_map comp_apply list.pred_mono_strong)
  then show ?thesis by (simp add: list_all_iff secret_key_name_def list_ex_iff)
qed

lemmas harmless_keys [simp] = document_keys_harmless [unfolded PUBLIC_DOCUMENT_KEYS_def list.pred_inject simp_thms]

lemma str_list_keys [simp]: "nested_names (str_list xs) = {}"
  by (simp add: str_list_def)

lemma opt_str_keys [simp]: "nested_names (opt_str x) = {}"
  by (cases x) (simp_all add: opt_str_def)

lemma nested_names_items:
  "(\<forall>k \<in> nested_names (VDict d). P k) \<longleftrightarrow> list_all (\<lambda>kv. P (fst kv) \<and> (\<forall>k \<in> nested_names (snd kv). P k)) d"
  by (auto simp: list_all_iff)

lemma nested_keys:
  "build_event_index p = Inr es \<Longrightarrow> \<forall>k \<in> nested_names (VList (map VDict es)). \<not> secret_key_name k"
  "\<forall>k \<in> nested_names (VList (map VDict (public_tags p))). \<not> secret_key_name k"
  "\<forall>k \<in> nested_names (VList (map VDict (public_destinations p))). \<not> secret_key_name k"
  by (auto simp: build_event_index_def bindR_Inr_iff public_tags_def public_destinations_def)

lemma published_keys:
  assumes "published_unsigned i e r t dc sdk = Inr d" and "nested_names (rev_number r) = {}" and "harmless dc" and "harmless sdk"
  shows "\<forall>k \<in> nested_names (VDict d). \<not> secret_key_name k"
proof -
  from assms(1) obtain es where es: "build_event_index (rev_payload r) = Inr es" by (auto simp: published_unsigned_def bindR_Inr_iff)
  have sdk: "\<forall>kv \<in> set (case sdk of None \<Rightarrow> DEFAULT_MIN_SDK | Some d \<Rightarrow> d). \<not> secret_key_name (fst kv)"
    using assms(4) by (cases sdk) (auto simp: harmless_def DEFAULT_MIN_SDK_def keys_def)
  have dc: "\<forall>kv \<in> set (case dc of None \<Rightarrow> [] | Some d \<Rightarrow> d). \<not> secret_key_name (fst kv)"
    using assms(3) by (auto simp: harmless_def keys_def)
  note n = nested_keys(1) [OF es] nested_keys(2,3) [of "rev_payload r"]
  have "list_all (\<lambda>kv. \<not> secret_key_name (fst kv) \<and> (\<forall>k \<in> nested_names (snd kv). \<not> secret_key_name k)) d"
    using assms(1) [symmetric] assms(2) n sdk dc
    by (cases dc) (simp_all add: published_unsigned_def es list_all_iff split_def)
  then show ?thesis unfolding nested_names_items .
qed

lemma dict_put_new: "map_of d k = None \<Longrightarrow> dict_put d k v = d @ [(k, v)]"
  by (induction d) (auto split: if_splits)

lemma seal_config_ok:
  assumes "\<forall>k \<in> nested_names (VDict d). \<not> secret_key_name k" and "map_of d ''integrity'' = None"
  shows "seal_config rt d = Inr (d @ [(''integrity'', VDict [(''algorithm'', VStr ''sha256''), (''digest'', VStr (config_digest rt d))])])"
proof -
  have keys: "\<forall>k \<in> nested_names (VDict (d @ [(''integrity'', VDict [(''algorithm'', VStr ''sha256''),
      (''digest'', VStr (config_digest rt d))])])). \<not> secret_key_name k"
    using assms(1) unfolding nested_names_items by simp
  have "check_public v path = Inr ()" if "\<forall>k \<in> nested_names v. \<not> secret_key_name k" for v path
    using that by (simp add: check_public_iff)
  from this [OF assms(1)] this [OF keys] show ?thesis
    unfolding seal_config_def Let_def dict_put_new [OF assms(2)] bindR_simps by (simp only: bindR_simps)
qed

lemma publish_reachable:
  assumes "find_container m i (Some o1) w = (Inr c, w)" and "container_reachable m c w" and "good_machine m"
    and "resolve_environment m c ref w = Inr e" and "env_protected e \<longrightarrow> allow"
    and "env_current e = Some v" and "harmless dc" and "harmless sdk" and "t \<noteq> []"
  shows "\<exists>doc. build_published_config m i ref (Some o1) (Some t) dc sdk allow w = (Inr doc, w)
    \<and> map_of doc ''config_version'' = Some (VStr v)"
proof -
  from reachable_container_ok [OF assms(2,3)] obtain rs where rs: "list_revisions m c w = Inr rs" and env: "environments_ok m c w"
    by (auto simp: container_ok_def history_ok_def)
  from resolve_environment_pointers [OF env assms(4)] assms(6) obtain r where r: "valid_version m c w v r"
    unfolding pointers_ok_def by blast
  then have g: "get_revision m c v w = Inr r" by (simp add: valid_version_def)
  have v: "rev_version r = v" by (rule fetched_version [OF assms(2,3) g])
  from get_revision_wf [OF g] have wf: "wf_revision (m_rt m) r" by blast
  then have pl: "wf_payload (m_rt m) (rev_payload r)" "nested_names (rev_number r) = {}"
    by (auto simp: wf_revision_def number_of_def split: pyval.splits)
  from published_unsigned_total [OF pl(1)] obtain d where d: "published_unsigned i e r t dc sdk = Inr d" by blast
  from published_keys [OF d pl(2) assms(7,8)] have keys: "\<forall>k \<in> nested_names (VDict d). \<not> secret_key_name k" .
  note doc = seal_config_ok [OF keys published_unsigned_keys [OF d], of "m_rt m"]
  have "map_of d ''config_version'' = Some (VStr v)" using d v by (auto simp: published_unsigned_def bindR_Inr_iff)
  moreover have "rs \<noteq> []" using fetched_listed [OF assms(2,3) rs g] by auto
  note build_published_ok [OF assms(1,4,5,6) r v rs this assms(9) d doc]
  ultimately show ?thesis by (intro exI conjI) (assumption, simp)
qed

lemma shop_published:
  "\<exists>c w ref doc v. container_reachable sample_machine c w \<and> find_container sample_machine ''Shop'' (Some (sample_uuid 98)) w = (Inr c, w)
     \<and> (\<exists>e. resolve_environment sample_machine c ref w = Inr e \<and> env_current e = Some v)
     \<and> build_published_config sample_machine ''Shop'' ref (Some (sample_uuid 98)) (Some ''2024'') None None True w = (Inr doc, w)
     \<and> map_of doc ''config_version'' = Some (VStr v)"
proof -
  from shop_active obtain c dir v w and e :: environment and a :: activation_result where s: "shop_state c dir 7 w" "container_reachable sample_machine c w"
    "env_current (ar_environment a) = Some v" "resolve_environment sample_machine c (env_id e) w = Inr (ar_environment a)"
    by blast
  have n: "harmless (None :: (string, bool) dict option)" "harmless (None :: (string, string) dict option)"
    by (simp_all add: harmless_def)
  from publish_reachable [OF shop_stateD(2) [OF s(1)] s(2) good_sample_machine s(4) _ s(3) n, of True "''2024''"]
  obtain doc where "build_published_config sample_machine ''Shop'' (env_id e) (Some (sample_uuid 98)) (Some ''2024'') None None True w = (Inr doc, w)"
    "map_of doc ''config_version'' = Some (VStr v)" by auto
  with s(2,3,4) shop_stateD(2) [OF s(1)] show ?thesis by blast
qed

subsection \<open>Slugs\<close>

lemma halve_hyphens_set: "set (halve_hyphens s) \<subseteq> set s"
  by (induction s rule: halve_hyphens.induct) auto

lemma halve_hyphens_ends: "s \<noteq> [] \<Longrightarrow> halve_hyphens s \<noteq> [] \<and> hd (halve_hyphens s) = hd s"
  by (induction s rule: halve_hyphens.induct) auto

lemma collapse_hyphens_spec:
  "\<not> str_contains ''--'' (collapse_hyphens s) \<and> set (collapse_hyphens s) \<subseteq> set s
     \<and> (s \<noteq> [] \<longrightarrow> collapse_hyphens s \<noteq> [] \<and> hd (collapse_hyphens s) = hd s)"
proof (induction s rule: collapse_hyphens.induct)
  case (1 s)
  show ?case
  proof (cases "str_contains ''--'' s")
    case True
    then have eq: "collapse_hyphens s = collapse_hyphens (halve_hyphens s)" by (subst collapse_hyphens.simps) simp
    from 1 [OF True] halve_hyphens_set [of s] halve_hyphens_ends [of s] show ?thesis unfolding eq by auto
  next
    case False
    then have "collapse_hyphens s = s" by (subst collapse_hyphens.simps) simp
    with False show ?thesis by simp
  qed
qed

lemma strip_hyphens_hd: "strip_hyphens s \<noteq> [] \<Longrightarrow> hd (strip_hyphens s) \<noteq> CHR ''-''"
proof -
  assume ne: "strip_hyphens s \<noteq> []"
  let ?u = "dropWhile (\<lambda>c. c = CHR ''-'') s"
  have "prefix (strip_hyphens s) ?u"
    using suffix_dropWhile [of "\<lambda>c. c = CHR ''-''" "rev ?u"] by (simp add: strip_hyphens_def suffix_to_prefix)
  then obtain zs where zs: "?u = strip_hyphens s @ zs" by (rule prefixE)
  with ne have "?u \<noteq> []" by simp
  then have "hd ?u \<noteq> CHR ''-''" by (rule hd_dropWhile)
  with ne show ?thesis unfolding zs by simp
qed

lemma set_strip_hyphens: "set (strip_hyphens s) \<subseteq> set s"
  unfolding strip_hyphens_def by (auto dest!: set_dropWhileD)

lemma not_contains_take: "\<not> str_contains p s \<Longrightarrow> \<not> str_contains p (take n s)"
  unfolding str_contains_sublist by (metis prefix_imp_sublist sublist_order.order.trans take_is_prefix)

lemma slug_spec:
  assumes "environment_slug name = Inr s"
  shows "s \<noteq> [] \<and> length s \<le> 96 \<and> hd s \<noteq> CHR ''-'' \<and> \<not> str_contains ''--'' s
    \<and> (\<forall>c \<in> set s. c = CHR ''-'' \<or> (\<exists>d \<in> set name. is_alnum d \<and> c = lower_char d))"
proof -
  let ?raw = "map (\<lambda>c. if is_alnum c then lower_char c else CHR ''-'') name"
  let ?v = "collapse_hyphens (strip_hyphens ?raw)"
  from assms have s: "s = take 96 ?v" "?v \<noteq> []" by (auto simp: environment_slug_def Let_def split: if_splits)
  have ne: "strip_hyphens ?raw \<noteq> []"
  proof
    assume "strip_hyphens ?raw = []"
    then have "?v = []" by (simp add: collapse_hyphens.simps)
    with s(2) show False by simp
  qed
  have "hd s = hd ?v" using s by (cases ?v) simp_all
  with collapse_hyphens_spec [of "strip_hyphens ?raw"] ne strip_hyphens_hd [OF ne] have "hd s \<noteq> CHR ''-''" by simp
  moreover have "set s \<subseteq> set ?raw"
    using set_take_subset [of 96 ?v] collapse_hyphens_spec [of "strip_hyphens ?raw"] set_strip_hyphens [of ?raw] s(1) by blast
  then have "\<forall>c \<in> set s. c = CHR ''-'' \<or> (\<exists>d \<in> set name. is_alnum d \<and> c = lower_char d)" by (auto split: if_splits)
  moreover have "\<not> str_contains ''--'' s"
    unfolding s(1) by (rule not_contains_take [OF conjunct1 [OF collapse_hyphens_spec]])
  ultimately show ?thesis using s by simp
qed

text \<open>Two environments of a container may have the same slug, and with it the same pointer file.\<close>

lemma slug_collision: "environment_slug ''Prod A'' = environment_slug ''prod-a'' \<and> py_casefold ''Prod A'' \<noteq> py_casefold ''prod-a''"
proof -
  have "environment_slug ''Prod A'' = Inr ''prod-a''" "environment_slug ''prod-a'' = Inr ''prod-a''"
    by (simp_all add: environment_slug_def Let_def is_alnum_def is_digit_def is_decimal_def is_upper_latin_def is_lower_latin_def
        lower_char_def strip_hyphens_def collapse_hyphens.simps char_of_def bit_0)
  then show ?thesis by (simp add: py_casefold_def lower_char_def is_upper_latin_def char_of_def bit_0)
qed

subsection \<open>Properties\<close>

text \<open>
  C13: the event index is exact.  It lists, sorted and without repetitions, the event names that an enabled
  tag announces, by its own event name or by an enabled trigger; for each name the ids of exactly the
  enabled tags that announce it and exactly the consent purposes they ask for.
\<close>
theorem event_index_exact:
  assumes "build_event_index p = Inr es"
  shows "\<exists>names. sorted names \<and> distinct names
    \<and> set names = {n. \<exists>t \<in> set (payload_tags p). tag_enabled t \<and> announces (index_by trigger_id (payload_triggers p)) t n}
    \<and> es = map (\<lambda>n. [(''name'', VStr n),
        (''purposes'', str_list (sorted_list_of_set {u. u \<noteq> [] \<and> (\<exists>t \<in> set (payload_tags p). tag_enabled t
           \<and> announces (index_by trigger_id (payload_triggers p)) t n \<and> tag_consent_purpose t = Some u)})),
        (''tag_ids'', str_list (sorted_list_of_set (tag_id ` {t \<in> set (payload_tags p). tag_enabled t
           \<and> announces (index_by trigger_id (payload_triggers p)) t n})))]) names"
proof -
  let ?T = "index_by trigger_id (payload_triggers p)"
  from assms obtain tags purposes where i: "index_tags ?T (payload_tags p) ([], []) = Inr (tags, purposes)"
    and es: "es = map (\<lambda>name. [(''name'', VStr name),
         (''purposes'', str_list (sort (case map_of purposes name of None \<Rightarrow> [] | Some ps \<Rightarrow> ps))),
         (''tag_ids'', str_list (sort (case map_of tags name of None \<Rightarrow> [] | Some ids \<Rightarrow> ids)))]) (sort (keys tags))"
    by (auto simp: build_event_index_def bindR_Inr_iff)
  have "index_of ?T {} ([], [])" by (simp add: index_of_def index_ok_def members_def)
  from index_tags_spec [OF i this] have ix: "index_of ?T (set (payload_tags p)) (tags, purposes)" by simp
  have sorted: "sort (case map_of d n of None \<Rightarrow> [] | Some xs \<Rightarrow> xs) = sorted_list_of_set (members d n)"
    if "index_ok d" for d :: "(string, string list) dict" and n
  proof (cases "map_of d n")
    case (Some xs)
    with that have "distinct xs" unfolding index_ok_def by blast
    with Some show ?thesis by (simp add: members_def sorted_list_of_set_sort_remdups distinct_remdups_id)
  qed (simp add: members_def)
  from ix have ok: "index_ok tags" "index_ok purposes"
    and k: "set (keys tags) = {n. \<exists>t \<in> set (payload_tags p). tag_enabled t \<and> announces ?T t n}"
    and m: "\<And>n. members tags n = tag_id ` {t \<in> set (payload_tags p). tag_enabled t \<and> announces ?T t n}"
      "\<And>n. members purposes n = {u. u \<noteq> [] \<and> (\<exists>t \<in> set (payload_tags p). tag_enabled t \<and> announces ?T t n \<and> tag_consent_purpose t = Some u)}"
    by (simp_all add: index_of_def)
  have "distinct (sort (keys tags))" using ok(1) unfolding index_ok_def distinct_sort by blast
  moreover have "set (sort (keys tags)) = {n. \<exists>t \<in> set (payload_tags p). tag_enabled t \<and> announces ?T t n}"
    using k by simp
  ultimately show ?thesis unfolding es sorted [OF ok(1)] sorted [OF ok(2)] m by (blast intro: sorted_sort)
qed

theorem event_index_exact_witness:
  "\<exists>es names. build_event_index sample_shield_payload = Inr es \<and> names \<noteq> [] \<and> sorted names
     \<and> map (\<lambda>e. map_of e ''name'') es = map (\<lambda>n. Some (VStr n)) names"
proof -
  have "build_event_index sample_shield_payload = Inr [[(''name'', VStr ''buy''), (''purposes'', str_list [''ads'']),
      (''tag_ids'', str_list [tag_id sample_tag])]]"
    by (simp add: build_event_index_def sample_shield_payload_def sample_shield_trigger_def sample_tag_def index_by_def tag_names_def
        tag_event_name_def get_or_def usable_text_def text_of_def tag_trigger_names_def trigger_event_names_def
        event_names_from_condition.simps Let_def is_mapping_def value_names_def index_name_def add_to_def List.insert_def)
  then obtain es where e: "build_event_index sample_shield_payload = Inr es" "es \<noteq> []" by blast
  from event_index_exact [OF e(1)] e(2)
  have "\<exists>names. names \<noteq> [] \<and> sorted names \<and> map (\<lambda>e. map_of e ''name'') es = map (\<lambda>n. Some (VStr n)) names"
    by auto
  with e(1) show ?thesis by blast
qed

text \<open>
  C11: what is published is entitled, intact and free of secrets.  A document is built only for an environment
  the caller may publish, from its active revision, which in a reachable store is intact and valid; it
  depends on nothing but the public part of the payload, without the settings and secret references of
  destinations, the variables and the tag parameters; no key at any depth of it has a secret marker;
  and it passes verification, which computes the digest of everything but the seal.
\<close>
theorem published_config_safe:
  assumes "build_published_config m i ref (Some o1) pat dc sdk allow w = (Inr doc, w')"
  shows "\<exists>c e v r t d. find_container m i (Some o1) w = (Inr c, w) \<and> resolve_environment m c ref w = Inr e
    \<and> (env_protected e \<longrightarrow> allow) \<and> env_current e = Some v \<and> get_revision m c v w = Inr r
    \<and> (container_reachable m c w \<and> good_machine m \<longrightarrow> valid_version m c w v r)
    \<and> published_unsigned i e (r\<lparr>rev_payload := public_part (rev_payload r)\<rparr>) t dc sdk = Inr d
    \<and> without_integrity doc = d \<and> (\<forall>k \<in> nested_names (VDict doc). \<not> secret_key_name k)
    \<and> verify_published_config (m_rt m) (VDict doc) = Inr (config_digest (m_rt m) d)"
proof -
  from build_published_Inr [OF assms] obtain c e v r t d r' where
    b: "find_container m i (Some o1) w = (Inr c, w)" "resolve_environment m c ref w = Inr e"
      "env_protected e \<longrightarrow> allow" "env_current e = Some v" "get_revision m c v w = Inr r"
    and r': "valid_version m c w (rev_version r) r'"
    and d: "published_unsigned i e r t dc sdk = Inr d" "seal_config (m_rt m) d = Inr doc" by blast
  have "valid_version m c w v r" if "container_reachable m c w" "good_machine m"
    using fetched_version [OF that b(5)] r' b(5) by (auto simp: valid_version_def)
  moreover have "published_unsigned i e (r\<lparr>rev_payload := public_part (rev_payload r)\<rparr>) t dc sdk = Inr d"
    using d(1) by (simp add: published_unsigned_def public_part_published)
  ultimately show ?thesis
    using b seal_config_Inr [OF d(2) published_unsigned_keys [OF d(1)]] by blast
qed

theorem published_config_safe_witness:
  "\<exists>ref w doc digest. build_published_config sample_machine ''Shop'' ref (Some (sample_uuid 98)) (Some ''2024'') None None True w = (Inr doc, w)
     \<and> (\<forall>k \<in> nested_names (VDict doc). \<not> secret_key_name k)
     \<and> verify_published_config (m_rt sample_machine) (VDict doc) = Inr digest"
proof -
  from shop_published obtain w ref doc where
    b: "build_published_config sample_machine ''Shop'' ref (Some (sample_uuid 98)) (Some ''2024'') None None True w = (Inr doc, w)" by blast
  from published_config_safe [OF b] b show ?thesis by blast
qed

text \<open>
  C12: publishing does not get stuck.  In a reachable store the active revision of an environment the caller
  may publish can be published, unless a key of the consent defaults or of the SDK versions looks
  like a secret.
\<close>
theorem publishing_succeeds:
  assumes "find_container m i (Some o1) w = (Inr c, w)" and "container_reachable m c w" and "good_machine m"
    and "resolve_environment m c ref w = Inr e" and "env_protected e \<longrightarrow> allow"
    and "env_current e = Some v" and "harmless dc" and "harmless sdk" and "t \<noteq> []"
  shows "\<exists>doc. build_published_config m i ref (Some o1) (Some t) dc sdk allow w = (Inr doc, w)
    \<and> map_of doc ''config_version'' = Some (VStr v)"
  by (rule publish_reachable [OF assms])

theorem publishing_succeeds_witness:
  "\<exists>c w ref v doc. find_container sample_machine ''Shop'' (Some (sample_uuid 98)) w = (Inr c, w)
     \<and> build_published_config sample_machine ''Shop'' ref (Some (sample_uuid 98)) (Some ''2024'') None None True w = (Inr doc, w)
     \<and> map_of doc ''config_version'' = Some (VStr v)"
proof -
  from shop_published obtain c w ref e v where s: "container_reachable sample_machine c w"
    "find_container sample_machine ''Shop'' (Some (sample_uuid 98)) w = (Inr c, w)"
    "resolve_environment sample_machine c ref w = Inr e" "env_current e = Some v" by blast
  have n: "harmless (None :: (string, bool) dict option)" "harmless (None :: (string, string) dict option)"
    by (simp_all add: harmless_def)
  from publishing_succeeds [OF s(2,1) good_sample_machine s(3) _ s(4) n, of True "''2024''"] s(2) show ?thesis by blast
qed

end
