(* ===== verification/Publisher_Safety.thy ===== *)
theory Publisher_Safety
  imports Publisher Published_Safety
begin

section \<open>Readers of a site see only complete publications\<close>

subsection \<open>Files that never change, and pointers that point somewhere\<close>

definition web_sdk :: "string \<Rightarrow> path" where
  "web_sdk version = [''sdk'', ''web'', version, ''pytagmanager.js'']"

lemma sdk_file_web: "sdk_file c = web_sdk (cdn_sdk_version c)"
  by (simp add: sdk_file_def web_sdk_def)

definition immutable_path :: "path \<Rightarrow> bool" where
  "immutable_path p \<longleftrightarrow> (\<exists>key v. p = config_file key v \<or> p = sha_of (config_file key v)) \<or> (\<exists>v. p = web_sdk v \<or> p = sha_of (web_sdk v))"

lemmas file_defs = config_file_def latest_file_def manifest_file_def web_sdk_def headers_file_def sha_of_def

lemma mutable_paths [simp]:
  "\<not> immutable_path (latest_file key slug)" "\<not> immutable_path (sha_of (latest_file key slug))"
  "\<not> immutable_path (manifest_file key slug)" "\<not> immutable_path headers_file" "\<not> immutable_path [''index.json'']"
  by (auto simp: immutable_path_def file_defs)

lemma immutable_paths [simp]:
  "immutable_path (config_file key v)" "immutable_path (sha_of (config_file key v))"
  "immutable_path (web_sdk v)" "immutable_path (sha_of (web_sdk v))"
  by (auto simp: immutable_path_def)

lemma latest_distinct [simp]:
  "latest_file key slug \<noteq> sha_of (latest_file key' slug')" "latest_file key slug \<noteq> manifest_file key' slug'"
  "latest_file key slug \<noteq> headers_file" "latest_file key slug \<noteq> [''index.json'']"
  "latest_file key slug = latest_file key' slug' \<longleftrightarrow> key = key' \<and> slug = slug'"
  by (auto simp: file_defs)

text \<open>What was published under an immutable path stays.\<close>

definition kept :: "site \<Rightarrow> site \<Rightarrow> bool" where
  "kept s s' \<longleftrightarrow> (\<forall>p. immutable_path p \<longrightarrow> map_of s p \<noteq> None \<longrightarrow> map_of s' p = map_of s p)"

lemma kept_refl: "kept s s"
  by (simp add: kept_def)

lemma kept_trans: "kept s s' \<Longrightarrow> kept s' s'' \<Longrightarrow> kept s s''"
  by (simp add: kept_def)

lemma keptD: "kept s s' \<Longrightarrow> immutable_path p \<Longrightarrow> map_of s p = Some x \<Longrightarrow> map_of s' p = Some x"
  by (simp add: kept_def)

text \<open>
  A pointer is good in a site if the file of the configuration it names is there, has the digest it gives
  and is the text of an intact document of that version, and the SDK it names is there too.
\<close>

definition config_text :: "py_runtime \<Rightarrow> string \<Rightarrow> string \<Rightarrow> string \<Rightarrow> bool" where
  "config_text rt data v digest \<longleftrightarrow> (\<exists>d. (data = json_bytes rt (VDict d) \<or> json_loads rt data = Inr (VDict d))
     \<and> map_of d ''config_version'' = Some (VStr v) \<and> verify_published_config rt (VDict d) = Inr digest)"

definition points_to :: "py_runtime \<Rightarrow> site \<Rightarrow> string \<Rightarrow> pydict \<Rightarrow> string \<Rightarrow> bool" where
  "points_to rt site key doc v \<longleftrightarrow> map_of doc ''config_version'' = Some (VStr v)
     \<and> map_of doc ''config_path'' = Some (VStr (''revisions/'' @ v @ ''/config.json''))
     \<and> (\<exists>data digest. map_of site (config_file key v) = Some data \<and> map_of doc ''config_file_sha256'' = Some (VStr (sha256_hex rt data))
          \<and> config_text rt data v digest \<and> map_of doc ''integrity_digest'' = Some (VStr digest))
     \<and> (\<exists>ver sdk web. map_of doc ''sdk'' = Some (VDict [(''web'', VDict web)]) \<and> map_of site (web_sdk ver) = Some sdk
          \<and> map_of web ''path'' = Some (VStr (url_path (web_sdk ver))) \<and> map_of web ''sha256'' = Some (VStr (sha256_hex rt sdk)))"

definition site_ok :: "py_runtime \<Rightarrow> site \<Rightarrow> bool" where
  "site_ok rt site \<longleftrightarrow> (\<forall>key slug body. map_of site (latest_file key slug) = Some body \<longrightarrow>
     (\<exists>doc v. body = json_bytes rt (VDict doc) \<and> points_to rt site key doc v))"

lemma points_to_kept: "points_to rt s key doc v \<Longrightarrow> kept s s' \<Longrightarrow> points_to rt s' key doc v"
  unfolding points_to_def
  by (elim conjE exE) (intro conjI exI; (assumption | (erule keptD, rule immutable_paths, assumption)))

lemma site_ok_put:
  assumes "site_ok rt s" and "kept s (dict_put s p data)" and "\<And>key slug. p \<noteq> latest_file key slug"
  shows "site_ok rt (dict_put s p data)"
  using assms points_to_kept unfolding site_ok_def by (metis fun_upd_other map_of_dict_put)

lemma kept_put: "\<not> immutable_path p \<or> map_of s p = None \<Longrightarrow> kept s (dict_put s p data)"
  by (auto simp: kept_def)

subsection \<open>Hoare triples for publications\<close>

text \<open>
  \<open>safely rt P m Q\<close>: run in a site with good pointers where \<open>P\<close> holds, \<open>m\<close> adds only sites with good
  pointers that keep the immutable files, and establishes \<open>Q\<close> when it returns a value.
\<close>

definition safely :: "py_runtime \<Rightarrow> (site \<Rightarrow> bool) \<Rightarrow> 'a pub \<Rightarrow> ('a \<Rightarrow> site \<Rightarrow> bool) \<Rightarrow> bool" where
  "safely rt P m Q \<longleftrightarrow> (\<forall>h r h'. h \<noteq> [] \<longrightarrow> site_ok rt (hd h) \<longrightarrow> P (hd h) \<longrightarrow> m h = (r, h') \<longrightarrow>
     (\<exists>new. h' = new @ h \<and> (\<forall>s \<in> set new. site_ok rt s \<and> kept (hd h) s)) \<and> (\<forall>x. r = Inr x \<longrightarrow> Q x (hd h')))"

lemma safelyD:
  assumes "safely rt P m Q" and "h \<noteq> []" "site_ok rt (hd h)" "P (hd h)" "m h = (r, h')"
  obtains new where "h' = new @ h" "\<forall>s \<in> set new. site_ok rt s \<and> kept (hd h) s" "\<And>x. r = Inr x \<Longrightarrow> Q x (hd h')"
proof -
  have "(\<exists>new. h' = new @ h \<and> (\<forall>s \<in> set new. site_ok rt s \<and> kept (hd h) s)) \<and> (\<forall>x. r = Inr x \<longrightarrow> Q x (hd h'))"
    using assms(1) [unfolded safely_def, rule_format, OF assms(2-5)] by simp
  then show ?thesis using that by metis
qed

lemma safely_bind:
  assumes "safely rt P m Q" and "\<And>x. safely rt (Q x) (f x) R"
  shows "safely rt P (bindP m f) R"
  unfolding safely_def
proof (intro allI impI)
  fix h r h'
  assume h: "h \<noteq> []" "site_ok rt (hd h)" "P (hd h)" and run: "bindP m f h = (r, h')"
  obtain x h1 where m: "m h = (x, h1)" by fastforce
  from safelyD [OF assms(1) h m] obtain new where new: "h1 = new @ h" "\<forall>s \<in> set new. site_ok rt s \<and> kept (hd h) s"
    and q: "\<And>y. x = Inr y \<Longrightarrow> Q y (hd h1)" by blast
  show "(\<exists>new. h' = new @ h \<and> (\<forall>s \<in> set new. site_ok rt s \<and> kept (hd h) s)) \<and> (\<forall>x. r = Inr x \<longrightarrow> R x (hd h'))"
  proof (cases x)
    case (Inl e)
    with run m new show ?thesis by (auto simp: bindP_def)
  next
    case (Inr y)
    have h1: "h1 \<noteq> []" "site_ok rt (hd h1)" "kept (hd h) (hd h1)"
      using new h(1,2) kept_refl by (cases new; simp)+
    from Inr run m have "f y h1 = (r, h')" by (simp add: bindP_def)
    from safelyD [OF assms(2) h1(1,2) q [OF Inr] this] obtain new2
      where new2: "h' = new2 @ h1" "\<forall>s \<in> set new2. site_ok rt s \<and> kept (hd h1) s"
      and r: "\<forall>x. r = Inr x \<longrightarrow> R x (hd h')" by blast
    have "h' = (new2 @ new) @ h" using new(1) new2(1) by simp
    moreover have "\<forall>s \<in> set (new2 @ new). site_ok rt s \<and> kept (hd h) s"
      using new(2) new2(2) kept_trans [OF h1(3)] by auto
    ultimately show ?thesis using r by blast
  qed
qed

lemma safely_pure:
  "(\<And>s x. P s \<Longrightarrow> r = Inr x \<Longrightarrow> Q x s) \<Longrightarrow> safely rt P (liftP r) Q"
  "(\<And>s x. P s \<Longrightarrow> f s = Inr x \<Longrightarrow> Q x s) \<Longrightarrow> safely rt P (readP f) Q"
  "(\<And>s. P s \<Longrightarrow> Q y s) \<Longrightarrow> safely rt P (retP y) Q"
  by (auto simp: safely_def liftP_def readP_def retP_def)

lemma safely_weaken: "safely rt P m Q \<Longrightarrow> (\<And>s. P' s \<Longrightarrow> P s) \<Longrightarrow> (\<And>x s. Q x s \<Longrightarrow> Q' x s) \<Longrightarrow> safely rt P' m Q'"
  unfolding safely_def by blast

lemma safely_put:
  assumes "\<And>s. P s \<Longrightarrow> site_ok rt s \<Longrightarrow> site_ok rt (dict_put s p data) \<and> kept s (dict_put s p data) \<and> Q (dict_put s p data)"
  shows "safely rt P (write_file p data) (\<lambda>_. Q)"
  using assms by (auto simp: safely_def write_file_def)

text \<open>A condition about immutable files survives every write.\<close>

definition lasting :: "(site \<Rightarrow> bool) \<Rightarrow> bool" where
  "lasting P \<longleftrightarrow> (\<forall>s s'. P s \<longrightarrow> kept s s' \<longrightarrow> P s')"

lemma safely_immutable:
  assumes "lasting P" and "immutable_path p"
  shows "safely rt P (write_immutable c p data label) (\<lambda>_ s. P s \<and> map_of s p = Some data)"
proof -
  have no: "p \<noteq> latest_file key slug" for key slug using assms(2) by auto
  have "site_ok rt (dict_put s p data) \<and> kept s (dict_put s p data) \<and> P (dict_put s p data)"
    if "map_of s p = None" "site_ok rt s" "P s" for s
    using kept_put [of p s data] that site_ok_put [OF that(2) _ no] assms(1) unfolding lasting_def by blast
  then show ?thesis
    by (auto simp: safely_def write_immutable_def write_file_def split: option.splits if_splits)
qed

lemma safely_mutable:
  assumes "\<And>s. P s \<Longrightarrow> kept s (dict_put s p data) \<Longrightarrow> P (dict_put s p data)" and "\<not> immutable_path p"
    and "\<And>key slug. p \<noteq> latest_file key slug"
  shows "safely rt P (write_file p data) (\<lambda>_. P)"
proof (rule safely_put)
  fix s assume s: "P s" "site_ok rt s"
  have k: "kept s (dict_put s p data)" using assms(2) by (simp add: kept_put)
  show "site_ok rt (dict_put s p data) \<and> kept s (dict_put s p data) \<and> P (dict_put s p data)"
    using k site_ok_put [OF s(2) k assms(3)] assms(1) [OF s(1) k] by blast
qed

text \<open>A pointer that is good where it is written is good from then on.\<close>

lemma site_ok_latest:
  assumes "site_ok rt s" and "points_to rt s key doc v"
  shows "site_ok rt (dict_put s (latest_file key slug) (json_bytes rt (VDict doc)))" (is "site_ok rt ?s")
  unfolding site_ok_def
proof (intro allI impI)
  fix key' slug' body
  assume t: "map_of ?s (latest_file key' slug') = Some body"
  have k: "kept s ?s" by (simp add: kept_put)
  show "\<exists>doc v. body = json_bytes rt (VDict doc) \<and> points_to rt ?s key' doc v"
  proof (cases "latest_file key' slug' = latest_file key slug")
    case True
    with t have "body = json_bytes rt (VDict doc)" "key' = key" by simp_all
    with points_to_kept [OF assms(2) k] show ?thesis by blast
  next
    case False
    with t have "map_of s (latest_file key' slug') = Some body" by (auto split: if_splits)
    with assms(1) obtain doc' v' where "body = json_bytes rt (VDict doc')" "points_to rt s key' doc' v'"
      unfolding site_ok_def by blast
    with points_to_kept [OF _ k] show ?thesis by blast
  qed
qed

definition pointed :: "py_runtime \<Rightarrow> string \<Rightarrow> string \<Rightarrow> pydict \<Rightarrow> string \<Rightarrow> site \<Rightarrow> bool" where
  "pointed rt key slug doc v s \<longleftrightarrow> map_of s (latest_file key slug) = Some (json_bytes rt (VDict doc)) \<and> points_to rt s key doc v"

lemma safely_latest:
  assumes "\<And>s. P s \<Longrightarrow> points_to rt s key doc v"
  shows "safely rt P (write_file (latest_file key slug) (json_bytes rt (VDict doc))) (\<lambda>_. pointed rt key slug doc v)"
proof (rule safely_put)
  fix s assume s: "P s" "site_ok rt s"
  have k: "kept s (dict_put s (latest_file key slug) (json_bytes rt (VDict doc)))" by (simp add: kept_put)
  show "site_ok rt (dict_put s (latest_file key slug) (json_bytes rt (VDict doc)))
    \<and> kept s (dict_put s (latest_file key slug) (json_bytes rt (VDict doc)))
    \<and> pointed rt key slug doc v (dict_put s (latest_file key slug) (json_bytes rt (VDict doc)))"
    using k site_ok_latest [OF s(2) assms [OF s(1)]] points_to_kept [OF assms [OF s(1)] k] by (simp add: pointed_def)
qed

lemma safely_beside:
  assumes "\<not> immutable_path p" and "\<And>key slug. p \<noteq> latest_file key slug"
  shows "safely rt (pointed rt key slug doc v) (write_file p data) (\<lambda>_. pointed rt key slug doc v)"
  by (rule safely_mutable [OF _ assms]) (use assms(2) [of key slug] points_to_kept in \<open>auto simp: pointed_def\<close>)

lemma latest_document_Inr:
  assumes "latest_document c ct key slug v config sha digest sdk_sha = Inr doc"
  shows "map_of doc ''config_version'' = Some (VStr v)" "map_of doc ''config_path'' = Some (VStr (''revisions/'' @ v @ ''/config.json''))"
    "map_of doc ''config_file_sha256'' = Some (VStr sha)" "map_of doc ''integrity_digest'' = Some (VStr digest)"
    "\<exists>web. map_of doc ''sdk'' = Some (VDict [(''web'', VDict web)])
       \<and> map_of web ''path'' = Some (VStr (url_path (sdk_file c))) \<and> map_of web ''sha256'' = Some (VStr sdk_sha)"
  using assms by (auto simp: latest_document_def bindR_Inr_iff)

lemma lasting_and: "lasting P \<Longrightarrow> immutable_path p \<Longrightarrow> lasting (\<lambda>s. P s \<and> map_of s p = Some data)"
  unfolding lasting_def using keptD by blast

lemma lasting_True: "lasting (\<lambda>_. True)"
  by (simp add: lasting_def)

lemma safely_assets:
  "safely rt (\<lambda>_. True) (write_assets rt c key v data sdk)
     (\<lambda>_ s. map_of s (config_file key v) = Some data \<and> map_of s (web_sdk (cdn_sdk_version c)) = Some sdk)"
proof -
  note l = lasting_True lasting_and
  have "safely rt (\<lambda>_. True) (write_assets rt c key v data sdk)
    (\<lambda>_ s. (((True \<and> map_of s (config_file key v) = Some data)
        \<and> map_of s (sha_of (config_file key v)) = Some (sha256_line (sha256_hex rt data) ''config.json''))
        \<and> map_of s (web_sdk (cdn_sdk_version c)) = Some sdk)
        \<and> map_of s (sha_of (web_sdk (cdn_sdk_version c))) = Some (sha256_line (sha256_hex rt sdk) ''pytagmanager.js''))"
    unfolding write_assets_def sdk_file_web
    by (rule safely_bind, rule safely_immutable, (intro l immutable_paths)+)+ (rule safely_immutable, (intro l immutable_paths)+)
  then show ?thesis by (rule safely_weaken) auto
qed

lemma lift_bind [simp]: "bindP (liftP (Inr x)) f = f x" "bindP (liftP (Inl e)) f = liftP (Inl e)"
  by (rule ext, simp add: bindP_def liftP_def)+

lemma safely_read: "safely rt P (readP f) (\<lambda>_. P)"
  by (rule safely_pure)

lemma safely_pointers:
  assumes "config_text rt data v digest"
  shows "safely rt (\<lambda>s. map_of s (config_file key v) = Some data \<and> map_of s (web_sdk (cdn_sdk_version c)) = Some sdk)
    (write_pointers rt c now ct key slug v config (sha256_hex rt data) digest (sha256_hex rt sdk))
    (\<lambda>_ s. \<exists>doc. pointed rt key slug doc v s \<and> map_of doc ''config_file_sha256'' = Some (VStr (sha256_hex rt data)))"
    (is "safely rt ?P ?m ?R")
proof (cases "latest_document c ct key slug v config (sha256_hex rt data) digest (sha256_hex rt sdk)")
  case (Inl e)
  then show ?thesis by (simp add: write_pointers_def safely_def liftP_def)
next
  case (Inr doc)
  note d = latest_document_Inr [OF Inr]
  have good: "points_to rt s key doc v" if "?P s" for s
    using that assms d unfolding points_to_def sdk_file_web by blast
  note beside = mutable_paths not_sym [OF latest_distinct(1)] not_sym [OF latest_distinct(2)]
    not_sym [OF latest_distinct(3)] not_sym [OF latest_distinct(4)]
  have "safely rt ?P ?m (\<lambda>_. pointed rt key slug doc v)"
    unfolding write_pointers_def Inr lift_bind
    by (rule safely_bind, rule safely_latest, erule good)
      ((rule safely_bind, (rule safely_beside safely_read; rule beside)?)+, rule safely_beside; rule beside)
  then show ?thesis by (rule safely_weaken) (use d(3) in auto)
qed

text \<open>The document that is published is the new one, or the intact one that is there.\<close>

lemma published_source_Inr:
  assumes "published_source rt c ct v p config s = Inr (config', data)"
    and "map_of config ''config_version'' = Some (VStr v)" and "verify_published_config rt (VDict config') = Inr digest"
  shows "config_text rt data v digest"
proof (cases "map_of s p")
  case None
  with assms show ?thesis by (auto simp: published_source_def config_text_def)
next
  case (Some old)
  with assms(1) have "json_loads rt data = Inr (VDict config')" "map_of config' ''config_version'' = Some (VStr v)"
    by (auto simp: published_source_def get_or_def split: sum.splits pyval.splits if_splits option.splits)
  with assms(3) show ?thesis by (auto simp: config_text_def)
qed

definition well_published :: "py_runtime \<Rightarrow> publish_result \<Rightarrow> site \<Rightarrow> bool" where
  "well_published rt res s \<longleftrightarrow> (\<exists>key slug doc. pr_latest_path res = url_path (latest_file key slug)
     \<and> pr_config_path res = url_path (config_file key (pr_config_version res))
     \<and> pointed rt key slug doc (pr_config_version res) s
     \<and> map_of doc ''config_file_sha256'' = Some (VStr (pr_file_sha256 res)))"

lemma safely_lift: "(\<And>x. r = Inr x \<Longrightarrow> safely rt P (f x) Q) \<Longrightarrow> safely rt P (bindP (liftP r) f) Q"
  by (cases r) (simp_all add: safely_def liftP_def)

lemma safely_look:
  assumes "\<And>x s. g s = Inr x \<Longrightarrow> safely rt (\<lambda>_. True) (f x) Q"
  shows "safely rt (\<lambda>_. True) (bindP (readP g) f) Q"
proof (rule safely_bind)
  show "safely rt (\<lambda>_. True) (readP g) (\<lambda>x _. \<exists>s. g s = Inr x)" by (rule safely_pure) blast
  show "safely rt (\<lambda>_. \<exists>s. g s = Inr x) (f x) Q" for x
    using assms unfolding safely_def by blast
qed

lemma safely_publish:
  assumes "map_of config ''config_version'' = Some (VStr v)"
  shows "safely rt (\<lambda>_. True) (publish_config rt c now ct config) (\<lambda>res s. pr_config_version res = v \<and> well_published rt res s)"
proof -
  have item: "dict_item config ''config_version'' = Inr (VStr v)" by (simp add: dict_item_def assms)
  have intact: "config_text rt (snd cd) v digest"
    if "published_source rt c ct v p config s = Inr cd" "verify_published_config rt (VDict (fst cd)) = Inr digest" for cd p s digest
    using published_source_Inr [of _ _ _ _ _ _ _ "fst cd" "snd cd"] that assms by simp
  show ?thesis
    unfolding publish_config_def item lift_bind text_of_def pyval.case Let_def split_def
    apply (rule safely_lift safely_look)+
    apply (rule safely_bind, rule safely_assets)
    apply (rule safely_bind, rule safely_pointers, erule intact, assumption)
    apply (rule safely_lift)+
    apply (rule safely_pure(3))
    apply (auto simp: well_published_def)
    done
qed

text \<open>A first publication, to an empty site, succeeds.\<close>

lemma write_new: "map_of (hd h) p = None \<Longrightarrow> write_immutable c p data label h = (Inr (), dict_put (hd h) p data # h)"
  by (simp add: write_immutable_def write_file_def)

lemma assets_fresh:
  "\<exists>older. write_assets rt c key v data sdk [[]] = (Inr (), [(config_file key v, data),
     (sha_of (config_file key v), sha256_line (sha256_hex rt data) ''config.json''), (sdk_file c, sdk),
     (sha_of (sdk_file c), sha256_line (sha256_hex rt sdk) ''pytagmanager.js'')] # older)"
  by (simp add: write_assets_def bindP_def write_new file_defs sdk_file_def)

definition reads_objects :: "py_runtime \<Rightarrow> bool" where
  "reads_objects rt \<longleftrightarrow> (\<forall>d. case json_loads rt (json_bytes rt (VDict d)) of Inl e \<Rightarrow> True | Inr v \<Rightarrow> v = VDict d)"

definition complete_config :: "pydict \<Rightarrow> string \<Rightarrow> string \<Rightarrow> bool" where
  "complete_config config v label \<longleftrightarrow> map_of config ''config_version'' = Some (VStr v)
     \<and> (\<exists>p. map_of config ''environment'' = Some (VDict [(''name'', VStr label), (''protected'', p)]))
     \<and> (\<exists>n i. map_of config ''revision_number'' = Some n \<and> revision_number_of (VDict [(''revision_number'', n)]) = Inr i)
     \<and> map_of config ''published_at'' \<noteq> None
     \<and> map_of config ''container_id'' \<noteq> None"

lemma index_fresh:
  assumes "reads_objects rt" and "complete_config config v label"
    and "latest_document c ct key slug v config sha digest sdk_sha = Inr doc"
    and "site = [(config_file key v, a1), (sha_of (config_file key v), a2), (sdk_file c, a3), (sha_of (sdk_file c), a4),
      (latest_file key slug, json_bytes rt (VDict doc)), (sha_of (latest_file key slug), a5), (manifest_file key slug, a6), (headers_file, a7)]"
  shows "\<exists>index. build_index rt now site = Inr index"
proof -
  have k: "container_keys site = [key]" "environment_slugs site key = [slug]" unfolding assms(4)
    by (simp_all add: container_keys_def environment_slugs_def file_defs sdk_file_def map_filter_simps)
  have l: "map_of site (latest_file key slug) = Some (json_bytes rt (VDict doc))"
    unfolding assms(4) by (simp add: file_defs sdk_file_def)
  have "\<exists>e name. map_of doc ''environment'' = Some (VDict e) \<and> map_of e ''name'' = Some name"
    using assms(2,3) by (auto simp: latest_document_def bindR_Inr_iff)
  then have "\<exists>e. index_entry rt site (key, slug) = Inr e"
    using assms(1) [unfolded reads_objects_def, rule_format, of doc]
    by (auto simp: index_entry_def l attribute_get_def get_or_def split: sum.splits)
  then show ?thesis by (auto simp: build_index_def published_pointers_def k l)
qed

lemma newest_single: "revision_number_of x = Inr i \<Longrightarrow> newest_first [x] = Inr [x]"
  by (simp add: newest_first_def)

lemma manifest_fresh:
  assumes "complete_config config v label" and "map_of site (manifest_file key slug) = None"
  shows "\<exists>manifest. build_manifest rt c key slug config sha digest sdk_sha site = Inr manifest"
proof -
  from assms(1) obtain n i where n: "map_of config ''revision_number'' = Some n"
    "revision_number_of (VDict [(''revision_number'', n)]) = Inr i" by (auto simp: complete_config_def)
  have "newest_first [VDict [(''config_version'', x), (''revision_number'', n), (''config_path'', y), (''file_sha256'', z),
      (''integrity_digest'', u), (''published_at'', t)]] = Inr [VDict [(''config_version'', x), (''revision_number'', n),
      (''config_path'', y), (''file_sha256'', z), (''integrity_digest'', u), (''published_at'', t)]]" for x y z u t
    by (rule newest_single [where i = i]) (use n(2) in \<open>simp add: revision_number_of_def dict_item_def\<close>)
  with assms n(1) show ?thesis
    by (auto simp: complete_config_def build_manifest_def read_object_def get_or_def Let_def dict_item_def environment_item_def)
qed

lemma latest_fresh:
  assumes "complete_config config v label"
  shows "\<exists>doc. latest_document c ct key slug v config sha digest sdk_sha = Inr doc"
  using assms by (auto simp: complete_config_def latest_document_def dict_item_def environment_item_def)

lemma write_step: "bindP (write_file p data) f (s # h) = f () (dict_put s p data # s # h)"
  by (simp add: bindP_def write_file_def)

lemma read_step: "g s = Inr x \<Longrightarrow> bindP (readP g) f (s # h) = f x (s # h)"
  by (simp add: bindP_def readP_def)

lemma pointers_fresh:
  assumes "reads_objects rt" and "complete_config config v label"
    and "site = [(config_file key v, a1), (sha_of (config_file key v), a2), (sdk_file c, a3), (sha_of (sdk_file c), a4)]"
  shows "\<exists>h. write_pointers rt c now ct key slug v config sha digest sdk_sha (site # older) = (Inr (), h)"
proof -
  from latest_fresh [OF assms(2)] obtain doc where doc: "latest_document c ct key slug v config sha digest sdk_sha = Inr doc" by blast
  let ?t = "json_bytes rt (VDict doc)"
  let ?c = "sha256_line (sha256_hex rt ?t) ''latest.json''"
  let ?s = "site @ [(latest_file key slug, ?t), (sha_of (latest_file key slug), ?c)]"
  have "map_of ?s (manifest_file key slug) = None" unfolding assms(3) by (simp add: file_defs sdk_file_def)
  from manifest_fresh [OF assms(2) this] obtain manifest
    where m: "build_manifest rt c key slug config sha digest sdk_sha ?s = Inr manifest" by blast
  let ?s2 = "?s @ [(manifest_file key slug, json_bytes rt (VDict manifest))]"
  let ?hd = "json_bytes rt (VDict (update_headers rt c key slug v ?s2))"
  let ?s3 = "?s2 @ [(headers_file, ?hd)]"
  have "\<exists>index. build_index rt now ?s3 = Inr index"
    by (rule index_fresh [OF assms(1,2) doc, where ?a7.0 = ?hd]) (simp add: assms(3))
  then obtain index where x: "build_index rt now ?s3 = Inr index" ..
  have put: "dict_put (dict_put site (latest_file key slug) ?t) (sha_of (latest_file key slug)) ?c = ?s"
    "dict_put ?s (manifest_file key slug) d = ?s @ [(manifest_file key slug, d)]"
    "dict_put ?s2 headers_file d = ?s2 @ [(headers_file, d)]" for d
    unfolding assms(3) by (simp_all add: file_defs sdk_file_def)
  show ?thesis
    unfolding write_pointers_def doc lift_bind write_step put(1)
      read_step [where g = "build_manifest rt c key slug config sha digest sdk_sha", OF m] put(2)
      read_step [where g = "\<lambda>site. Inr (update_headers rt c key slug v site)", OF HOL.refl] put(3)
      read_step [where g = "build_index rt now", OF x] write_file_def by blast
qed

lemma first_publication:
  assumes "reads_objects rt" and "complete_config config v label" and "environment_slug label = Inr slug"
    and "container_storage_key rt (VStr (ct_org_id ct)) (VStr (ct_id ct)) = Inr key"
    and "verify_published_config rt (VDict config) = Inr digest" and "cdn_sdk_asset c = Some sdk"
  shows "\<exists>res h. publish_config rt c now ct config [[]] = (Inr res, h)"
proof -
  let ?data = "json_bytes rt (VDict config)"
  from assets_fresh obtain older where a: "write_assets rt c key v ?data sdk [[]] = (Inr (), [(config_file key v, ?data),
     (sha_of (config_file key v), sha256_line (sha256_hex rt ?data) ''config.json''), (sdk_file c, sdk),
     (sha_of (sdk_file c), sha256_line (sha256_hex rt sdk) ''pytagmanager.js'')] # older)" by blast
  from pointers_fresh [OF assms(1,2) HOL.refl] obtain h where
    p: "write_pointers rt c now ct key slug v config (sha256_hex rt ?data) digest (sha256_hex rt sdk)
      ([(config_file key v, ?data), (sha_of (config_file key v), sha256_line (sha256_hex rt ?data) ''config.json''), (sdk_file c, sdk),
        (sha_of (sdk_file c), sha256_line (sha256_hex rt sdk) ''pytagmanager.js'')] # older) = (Inr (), h)" by blast
  from assms(2) obtain n t where
    i: "environment_item config ''name'' = Inr (VStr label)" "dict_item config ''config_version'' = Inr (VStr v)"
      "dict_item config ''revision_number'' = Inr n" "dict_item config ''published_at'' = Inr t"
    by (auto simp: complete_config_def dict_item_def environment_item_def)
  have src: "published_source rt c ct v (config_file key v) config [] = Inr (config, ?data)" by (simp add: published_source_def)
  show ?thesis
    unfolding publish_config_def assms(4) i lift_bind text_of_def pyval.case assms(3) Let_def
      read_step [where g = "published_source rt c ct v (config_file key v) config", OF src] prod.case assms(5)
    using a p by (simp add: i assms(6) sdk_content_def bindP_def retP_def liftP_def)
qed

text \<open>What \<open>build_published_config\<close> returns is complete.\<close>

lemma published_complete:
  assumes "build_published_config m i ref (Some o1) pat dc sdk allow w = (Inr doc, w')"
  shows "\<exists>c e v r. find_container m i (Some o1) w = (Inr c, w) \<and> resolve_environment m c ref w = Inr e
    \<and> env_current e = Some v \<and> get_revision m c v w = Inr r \<and> complete_config doc (rev_version r) (env_label e)
    \<and> (\<exists>digest. verify_published_config (m_rt m) (VDict doc) = Inr digest)"
proof -
  from build_published_Inr [OF assms] obtain c e v r t d where
    b: "find_container m i (Some o1) w = (Inr c, w)" "resolve_environment m c ref w = Inr e" "env_current e = Some v"
      "get_revision m c v w = Inr r" "published_unsigned i e r t dc sdk = Inr d" "seal_config (m_rt m) d = Inr doc" by blast
  have ne: "number_of (rev_number r) \<noteq> 0" using get_revision_wf [OF b(4)] by (auto simp: wf_revision_def)
  have "\<exists>k. revision_number_of (VDict [(''revision_number'', rev_number r)]) = Inr k"
    using ne by (simp add: number_of_def revision_number_of_def dict_item_def split: pyval.splits)
  moreover have "map_of doc k = map_of d k" if "k \<noteq> ''integrity''" for k
    using b(6) that by (auto simp: seal_config_def bindR_Inr_iff Let_def)
  ultimately have "complete_config doc (rev_version r) (env_label e)"
    using b(5) by (auto simp: complete_config_def published_unsigned_def bindR_Inr_iff)
  with b seal_config_Inr [OF b(6) published_unsigned_keys [OF b(5)]] show ?thesis by blast
qed

subsection \<open>Consequences of keeping the first document\<close>

text \<open>
  A revision that was published for one environment is published for another with the environment of the
  first: the pointer and the result name that one, whatever the new document says.
\<close>

lemma bindP_Inr: "bindP m f h = (Inr y, h') \<longleftrightarrow> (\<exists>x h1. m h = (Inr x, h1) \<and> f x h1 = (Inr y, h'))"
  by (auto simp: bindP_def split: prod.splits sum.splits)

lemma liftP_Inr: "liftP r h = (Inr x, h') \<longleftrightarrow> r = Inr x \<and> h' = h"
  by (auto simp: liftP_def)

lemma first_environment_wins:
  assumes "publish_config rt c now ct config (s # older) = (Inr res, h)" and "map_of config ''config_version'' = Some (VStr v)"
    and "container_storage_key rt (VStr (ct_org_id ct)) (VStr (ct_id ct)) = Inr key"
    and "map_of s (config_file key v) = Some data" and "json_loads rt data = Inr (VDict d)"
  shows "environment_item d ''name'' = Inr (pr_environment res)"
proof -
  have item: "dict_item config ''config_version'' = Inr (VStr v)" by (simp add: dict_item_def assms(2))
  have "fst x = d" if "published_source rt c ct v (config_file key v) config s = Inr x" for x
    using that assms(4,5) by (auto simp: published_source_def split: if_splits sum.splits)
  with assms(1) show ?thesis
    by (auto simp: publish_config_def item assms(3) text_of_def Let_def split_def bindP_Inr liftP_Inr readP_def retP_def)
qed

text \<open>
  The document carries the reference the caller gave for the container.  When that is not its identifier as
  it is stored, the revision can never be published again.
\<close>

lemma other_spelling_sticks:
  assumes "container_storage_key rt (VStr (ct_org_id ct)) (VStr (ct_id ct)) = Inr key" and "complete_config config v label"
    and "environment_slug label = Inr slug" and "map_of s (config_file key v) = Some data"
    and "json_loads rt data = Inr (VDict d)" and "map_of d ''container_id'' = Some (VStr i)" and "i \<noteq> ct_id ct"
  shows "publish_config rt c now ct config (s # older)
    = (Inl (ConflictError (''published configuration identity mismatch: '' @ site_path c (config_file key v))), s # older)"
proof -
  have i: "environment_item config ''name'' = Inr (VStr label)" "dict_item config ''config_version'' = Inr (VStr v)"
    using assms(2) by (auto simp: complete_config_def dict_item_def environment_item_def)
  have "published_source rt c ct v (config_file key v) config s
    = Inl (ConflictError (''published configuration identity mismatch: '' @ site_path c (config_file key v)))"
    using assms(4-7) by (simp add: published_source_def get_or_def)
  then show ?thesis
    by (simp add: publish_config_def assms(1,3) i text_of_def Let_def bindP_def readP_def)
qed

lemma published_reference: "published_unsigned i e r t dc sdk = Inr d \<Longrightarrow> map_of d ''container_id'' = Some (VStr i)"
  by (auto simp: published_unsigned_def bindR_Inr_iff)

subsection \<open>The property\<close>

text \<open>
  C14: publication is atomic for the readers of a site.  Whatever becomes of a publication, also when it fails
  half-way, in every state of the site it passes through each pointer an environment has leads to a
  configuration file and an SDK that are there, that have the digests the pointer gives, and that are
  intact, and no configuration, SDK or checksum that was published before has changed; and when
  it succeeds, the pointer of the environment leads to what the result describes.
\<close>
theorem publication_is_safe:
  assumes "publish_environment m c now container_id ref (Some o1) dc min_sdk allow pat (s # older) w = (r, h, w')"
    and "site_ok (m_rt m) s"
  shows "(\<exists>new. h = new @ s # older \<and> (\<forall>t \<in> set new. site_ok (m_rt m) t \<and> kept s t))
    \<and> (\<forall>res. r = Inr res \<longrightarrow> well_published (m_rt m) res (hd h))"
proof -
  have still: "(\<exists>new. h = new @ s # older \<and> (\<forall>t \<in> set new. site_ok (m_rt m) t \<and> kept s t))" if "h = s # older"
    using that by (intro exI [of _ "[]"]) simp
  from assms(1) consider e where "r = Inl e" "h = s # older"
    | ct w1 config where "build_published_config m container_id ref (Some o1) pat dc min_sdk allow w1 = (Inr config, w')"
        "publish_config (m_rt m) c now ct config (s # older) = (r, h)"
    by (auto simp: publish_environment_def bindW_def retW_def split: prod.splits sum.splits)
  then show ?thesis
  proof cases
    case 1
    with still show ?thesis by simp
  next
    case 2
    from published_complete [OF 2(1)] obtain v where "map_of config ''config_version'' = Some (VStr v)"
      by (auto simp: complete_config_def)
    then have "safely (m_rt m) (\<lambda>_. True) (publish_config (m_rt m) c now ct config)
      (\<lambda>res s. pr_config_version res = v \<and> well_published (m_rt m) res s)" by (rule safely_publish)
    from safelyD [OF this _ _ _ 2(2)] assms(2) show ?thesis by (metis list.distinct(1) list.sel(1))
  qed
qed

definition shop_cdn :: cdn where
  "shop_cdn = cdn_create ''public'' (Some ''https://cdn.example/'') ''0.1.0'' ''pytagmanager.js'' (Some ''void 0;'')"

lemma sample_reads_objects: "reads_objects (m_rt sample_machine)"
proof -
  have "json_bytes rt (VDict d) \<noteq> ''null''" for rt d by (simp add: json_bytes_def)
  then show ?thesis by (simp add: reads_objects_def sample_machine_def witness_runtime_def)
qed

lemma shop_slug: "environment_slug ''Shop'' = Inr ''shop''"
  by (simp add: environment_slug_def Let_def is_alnum_def is_digit_def is_decimal_def is_upper_latin_def is_lower_latin_def
        lower_char_def strip_hyphens_def collapse_hyphens.simps char_of_def bit_0)

lemma shop_first_publication:
  "\<exists>ref w res h. publish_environment sample_machine shop_cdn ''2024'' ''Shop'' ref (Some (sample_uuid 98)) None None True
     (Some ''2024'') [[]] w = (Inr res, h, w)"
proof -
  have n: "harmless (None :: (string, bool) dict option)" "harmless (None :: (string, string) dict option)"
    by (simp_all add: harmless_def)
  from shop_active obtain c dir v w and e :: environment and a :: activation_result where s: "shop_state c dir 7 w"
    "container_reachable sample_machine c w" "env_current (ar_environment a) = Some v"
    "resolve_environment sample_machine c (env_id e) w = Inr (ar_environment a)" "env_label (ar_environment a) = ''Shop''"
    by blast
  note st = shop_stateD(2,3) [OF s(1)]
  from publish_reachable [OF st(1) s(2) good_sample_machine s(4) _ s(3) n, of True "''2024''"]
  obtain doc where b: "build_published_config sample_machine ''Shop'' (env_id e) (Some (sample_uuid 98)) (Some ''2024'') None None True w
    = (Inr doc, w)" by auto
  from published_complete [OF b] st(1) s(4,5) obtain v' digest where d: "complete_config doc v' ''Shop''"
    "verify_published_config (m_rt sample_machine) (VDict doc) = Inr digest" by auto
  from st(2) have "\<exists>key. container_storage_key (m_rt sample_machine) (VStr (ct_org_id c)) (VStr (ct_id c)) = Inr key"
    by (auto simp: wf_container_def container_storage_key_def normalize_container_id_def Let_def)
  then obtain key where "container_storage_key (m_rt sample_machine) (VStr (ct_org_id c)) (VStr (ct_id c)) = Inr key" ..
  from first_publication [OF sample_reads_objects d(1) shop_slug this d(2), of shop_cdn "''void 0;''" "''2024''"]
  obtain res h where "publish_config (m_rt sample_machine) shop_cdn ''2024'' c doc [[]] = (Inr res, h)"
    by (auto simp: shop_cdn_def cdn_create_def)
  with st(1) b have "publish_environment sample_machine shop_cdn ''2024'' ''Shop'' (env_id e) (Some (sample_uuid 98)) None None True
     (Some ''2024'') [[]] w = (Inr res, h, w)"
    by (simp add: publish_environment_def bindW_def retW_def)
  then show ?thesis by blast
qed

theorem publication_is_safe_witness:
  "\<exists>ref w res h new. publish_environment sample_machine shop_cdn ''2024'' ''Shop'' ref (Some (sample_uuid 98)) None None True
     (Some ''2024'') [[]] w = (Inr res, h, w) \<and> h = new @ [[]] \<and> (\<forall>t \<in> set new. site_ok (m_rt sample_machine) t)
     \<and> well_published (m_rt sample_machine) res (hd h)"
proof -
  from shop_first_publication obtain ref w res h where
    p: "publish_environment sample_machine shop_cdn ''2024'' ''Shop'' ref (Some (sample_uuid 98)) None None True
      (Some ''2024'') [[]] w = (Inr res, h, w)" by blast
  have "site_ok (m_rt sample_machine) []" by (simp add: site_ok_def)
  from publication_is_safe [OF p this] p show ?thesis by blast
qed

end
