(* ===== verification/Spec2Isabelle.thy ===== *)
theory Spec2Isabelle
  imports Container_Safety Import_Safety Ingest_Safety Http Projection_Safety Publisher_Safety
begin

text \<open>
  PyTagManager.  This development models the control plane of \<^verbatim>\<open>python/pytagmanager/control\<close>.
\<close>

end
